(* ===== verification/Prelude.thy ===== *)
theory Prelude
  imports "HOL-Library.Word" "HOL-Library.Monad_Syntax"
begin

text \<open>
  Shared vocabulary of the development: the fixed-width integers of the C sources, C arrays with
  their bounds written out, and the lemmas on bytes, lists and options that the component theories
  use.

  A C array of \<open>n\<close> elements is a list of length \<open>n\<close>. Reading or writing outside it is undefined
  behaviour in C; the operations below return \<^term>\<open>None\<close> there, and an operation of the firmware
  that has undefined behaviour on some input has the value \<^term>\<open>None\<close> on it. Memory safety of an
  operation is therefore the statement that it returns \<^term>\<open>Some\<close>.
\<close>

unbundle bit_operations_syntax

type_synonym u8 = "8 word"
type_synonym u16 = "16 word"
type_synonym u32 = "32 word"
type_synonym bytes = "u8 list"

named_theorems c_array \<open>unfolding the bounds-checked array operations\<close>
named_theorems byte_join \<open>a word is the join of its bytes\<close>

section \<open>Bounds-checked arrays\<close>

definition arr_get :: "'a list \<Rightarrow> nat \<Rightarrow> 'a option" where
  "arr_get xs i = (if i < length xs then Some (xs ! i) else None)"

definition arr_set :: "'a list \<Rightarrow> nat \<Rightarrow> 'a \<Rightarrow> 'a list option" where
  "arr_set xs i v = (if i < length xs then Some (xs[i := v]) else None)"

text \<open>\<open>memcpy (dst + off) src n\<close>: both ranges have to lie inside their arrays.\<close>

definition memcpy :: "'a list \<Rightarrow> nat \<Rightarrow> 'a list \<Rightarrow> nat \<Rightarrow> 'a list option" where
  "memcpy dst off src n =
     (if off + n \<le> length dst \<and> n \<le> length src
      then Some (take off dst @ take n src @ drop (off + n) dst) else None)"

text \<open>Consecutive stores \<open>buf[ind++] = b\<close> for each byte \<open>b\<close> of a list.\<close>

fun arr_put :: "'a list \<Rightarrow> nat \<Rightarrow> 'a list \<Rightarrow> ('a list \<times> nat) option" where
  "arr_put buf ind [] = Some (buf, ind)"
| "arr_put buf ind (b # bs) =
     do { buf' \<leftarrow> arr_set buf ind b; arr_put buf' (Suc ind) bs }"

lemmas [c_array] = arr_get_def arr_set_def memcpy_def

lemma arr_get_Some_iff: "arr_get xs i = Some x \<longleftrightarrow> i < length xs \<and> xs ! i = x"
  by (auto simp: arr_get_def)

lemma arr_set_Some_iff: "arr_set xs i v = Some ys \<longleftrightarrow> i < length xs \<and> ys = xs[i := v]"
  by (auto simp: arr_set_def)

lemma memcpy_Some_iff:
  "memcpy dst off src n = Some ys \<longleftrightarrow>
     off + n \<le> length dst \<and> n \<le> length src \<and> ys = take off dst @ take n src @ drop (off + n) dst"
  by (auto simp: memcpy_def)

lemma memcpy_length: "memcpy dst off src n = Some ys \<Longrightarrow> length ys = length dst"
  by (auto simp: memcpy_Some_iff)

lemma arr_put_length: "arr_put buf ind bs = Some (buf', ind') \<Longrightarrow> length buf' = length buf"
  by (induction bs arbitrary: buf ind)
     (auto simp: arr_set_def bind_eq_Some_conv split: if_splits)

lemma list_update_take_drop:
  "i < length xs \<Longrightarrow> xs[i := v] = take i xs @ v # drop (Suc i) xs"
  by (simp add: upd_conv_take_nth_drop)

lemma arr_put_fits:
  "ind + length bs \<le> length buf \<Longrightarrow>
   arr_put buf ind bs = Some (take ind buf @ bs @ drop (ind + length bs) buf, ind + length bs)"
proof (induction bs arbitrary: buf ind)
  case (Cons b bs)
  then have "ind < length buf" by simp
  then have "take (Suc ind) (buf[ind := b]) = take ind buf @ [b]"
    by (simp add: take_Suc_conv_app_nth)
  with Cons show ?case by (simp add: arr_set_def)
qed simp

lemma arr_put_Some_iff:
  "arr_put buf ind bs = Some r \<longleftrightarrow>
     (bs = [] \<or> ind + length bs \<le> length buf) \<and>
     r = (take ind buf @ bs @ drop (ind + length bs) buf, ind + length bs)"
proof (cases "bs = []")
  case False
  show ?thesis
  proof (cases "ind + length bs \<le> length buf")
    case True
    then show ?thesis using False by (auto simp: arr_put_fits)
  next
    case out: False
    have "arr_put buf ind bs = None"
      using False out
    proof (induction bs arbitrary: buf ind)
      case (Cons b bs)
      then show ?case
        by (cases "bs = []") (auto simp: arr_set_def)
    qed simp
    with False out show ?thesis by simp
  qed
qed auto

text \<open>The stores of a list of bytes compose.\<close>

lemma arr_put_append:
  "arr_put buf ind (as @ bs) =
     do { (buf', ind') \<leftarrow> arr_put buf ind as; arr_put buf' ind' bs }"
  by (induction as arbitrary: buf ind) (auto split: Option.bind_splits)

section \<open>Bytes of words\<close>

text \<open>Big-endian byte sequences.\<close>

definition enc16 :: "u16 \<Rightarrow> bytes" where
  "enc16 n = [ucast (drop_bit 8 n), ucast n]"

definition enc32 :: "u32 \<Rightarrow> bytes" where
  "enc32 n = [ucast (drop_bit 24 n), ucast (drop_bit 16 n), ucast (drop_bit 8 n), ucast n]"

lemma ucast_signed_drop_bit_16 [simp]:
  "ucast (signed_drop_bit 8 (w :: u16)) = (ucast (drop_bit 8 w) :: u8)"
  by (rule bit_word_eqI) (auto simp: bit_simps)

lemma ucast_signed_drop_bit_32 [simp]:
  "n \<le> 24 \<Longrightarrow> ucast (signed_drop_bit n (w :: u32)) = (ucast (drop_bit n w) :: u8)"
  by (rule bit_word_eqI) (auto simp: bit_simps)

lemma join16 [byte_join]:
  "push_bit 8 (ucast (ucast (drop_bit 8 w) :: u8)) OR ucast (ucast w :: u8) = (w :: u16)"
  by (rule bit_word_eqI) (auto simp: bit_simps)

lemma join32 [byte_join]:
  "push_bit 24 (ucast (ucast (drop_bit 24 w) :: u8)) OR push_bit 16 (ucast (ucast (drop_bit 16 w) :: u8))
     OR push_bit 8 (ucast (ucast (drop_bit 8 w) :: u8)) OR ucast (ucast w :: u8) = (w :: u32)"
proof (rule bit_word_eqI)
  fix n assume "n < LENGTH(32)"
  then consider "n < 8" | "8 \<le> n" "n < 16" | "16 \<le> n" "n < 24" | "24 \<le> n" "n < 32"
    by fastforce
  then show "bit (push_bit 24 (ucast (ucast (drop_bit 24 w) :: u8)) OR
       push_bit 16 (ucast (ucast (drop_bit 16 w) :: u8)) OR
       push_bit 8 (ucast (ucast (drop_bit 8 w) :: u8)) OR ucast (ucast w :: u8) :: u32) n = bit w n"
    by cases (auto simp: bit_simps)
qed

lemma split16_hi: "ucast (drop_bit 8 (push_bit 8 (ucast (h :: u8)) OR ucast (l :: u8) :: u16)) = h"
  by (rule bit_word_eqI) (auto simp: bit_simps dest: bit_imp_le_length)

lemma split16_lo: "ucast (push_bit 8 (ucast (h :: u8)) OR ucast (l :: u8) :: u16) = l"
  by (rule bit_word_eqI) (auto simp: bit_simps)

lemma ucast_low_mask: "(ucast (w AND 0xFF) :: u8) = ucast (w :: u16)"
proof -
  have m: "w AND 0xFF = w AND mask 8" by (simp add: mask_eq_exp_minus_1)
  show ?thesis unfolding m by (rule bit_word_eqI) (auto simp: bit_simps)
qed

lemmas split16 = split16_hi split16_lo

end
