(* ===== verification/Crc.thy ===== *)
theory Crc
  imports Prelude
begin

text \<open>
  The checksum of \<open>crc.c\<close>: the 256-entry table, the byte loop, and a bitwise reference (the
  CRC with generator polynomial 0x1021, initial value 0, no reflection). The table-driven loop is
  proved equal to the reference, and from the reference come the algebraic facts the packet and
  CAN layers rely on: appending the checksum gives remainder 0, and no corruption confined to two
  adjacent bytes goes unnoticed.
\<close>

section \<open>The table and the loop of crc.c\<close>

definition crc16_tab :: "u16 list" where
  "crc16_tab = [
    0x0000, 0x1021, 0x2042, 0x3063, 0x4084, 0x50a5, 0x60c6, 0x70e7,
    0x8108, 0x9129, 0xa14a, 0xb16b, 0xc18c, 0xd1ad, 0xe1ce, 0xf1ef,
    0x1231, 0x0210, 0x3273, 0x2252, 0x52b5, 0x4294, 0x72f7, 0x62d6,
    0x9339, 0x8318, 0xb37b, 0xa35a, 0xd3bd, 0xc39c, 0xf3ff, 0xe3de,
    0x2462, 0x3443, 0x0420, 0x1401, 0x64e6, 0x74c7, 0x44a4, 0x5485,
    0xa56a, 0xb54b, 0x8528, 0x9509, 0xe5ee, 0xf5cf, 0xc5ac, 0xd58d,
    0x3653, 0x2672, 0x1611, 0x0630, 0x76d7, 0x66f6, 0x5695, 0x46b4,
    0xb75b, 0xa77a, 0x9719, 0x8738, 0xf7df, 0xe7fe, 0xd79d, 0xc7bc,
    0x48c4, 0x58e5, 0x6886, 0x78a7, 0x0840, 0x1861, 0x2802, 0x3823,
    0xc9cc, 0xd9ed, 0xe98e, 0xf9af, 0x8948, 0x9969, 0xa90a, 0xb92b,
    0x5af5, 0x4ad4, 0x7ab7, 0x6a96, 0x1a71, 0x0a50, 0x3a33, 0x2a12,
    0xdbfd, 0xcbdc, 0xfbbf, 0xeb9e, 0x9b79, 0x8b58, 0xbb3b, 0xab1a,
    0x6ca6, 0x7c87, 0x4ce4, 0x5cc5, 0x2c22, 0x3c03, 0x0c60, 0x1c41,
    0xedae, 0xfd8f, 0xcdec, 0xddcd, 0xad2a, 0xbd0b, 0x8d68, 0x9d49,
    0x7e97, 0x6eb6, 0x5ed5, 0x4ef4, 0x3e13, 0x2e32, 0x1e51, 0x0e70,
    0xff9f, 0xefbe, 0xdfdd, 0xcffc, 0xbf1b, 0xaf3a, 0x9f59, 0x8f78,
    0x9188, 0x81a9, 0xb1ca, 0xa1eb, 0xd10c, 0xc12d, 0xf14e, 0xe16f,
    0x1080, 0x00a1, 0x30c2, 0x20e3, 0x5004, 0x4025, 0x7046, 0x6067,
    0x83b9, 0x9398, 0xa3fb, 0xb3da, 0xc33d, 0xd31c, 0xe37f, 0xf35e,
    0x02b1, 0x1290, 0x22f3, 0x32d2, 0x4235, 0x5214, 0x6277, 0x7256,
    0xb5ea, 0xa5cb, 0x95a8, 0x8589, 0xf56e, 0xe54f, 0xd52c, 0xc50d,
    0x34e2, 0x24c3, 0x14a0, 0x0481, 0x7466, 0x6447, 0x5424, 0x4405,
    0xa7db, 0xb7fa, 0x8799, 0x97b8, 0xe75f, 0xf77e, 0xc71d, 0xd73c,
    0x26d3, 0x36f2, 0x0691, 0x16b0, 0x6657, 0x7676, 0x4615, 0x5634,
    0xd94c, 0xc96d, 0xf90e, 0xe92f, 0x99c8, 0x89e9, 0xb98a, 0xa9ab,
    0x5844, 0x4865, 0x7806, 0x6827, 0x18c0, 0x08e1, 0x3882, 0x28a3,
    0xcb7d, 0xdb5c, 0xeb3f, 0xfb1e, 0x8bf9, 0x9bd8, 0xabbb, 0xbb9a,
    0x4a75, 0x5a54, 0x6a37, 0x7a16, 0x0af1, 0x1ad0, 0x2ab3, 0x3a92,
    0xfd2e, 0xed0f, 0xdd6c, 0xcd4d, 0xbdaa, 0xad8b, 0x9de8, 0x8dc9,
    0x7c26, 0x6c07, 0x5c64, 0x4c45, 0x3ca2, 0x2c83, 0x1ce0, 0x0cc1,
    0xef1f, 0xff3e, 0xcf5d, 0xdf7c, 0xaf9b, 0xbfba, 0x8fd9, 0x9ff8,
    0x6e17, 0x7e36, 0x4e55, 0x5e74, 0x2e93, 0x3eb2, 0x0ed1, 0x1ef0]"

text \<open>The loop body: \<open>cksum = crc16_tab[((cksum >> 8) ^ *buf++) & 0xFF] ^ (cksum << 8)\<close>, truncated
  to the 16 bits of \<open>unsigned short\<close>. The index is masked to 8 bits, so the table read is in
  bounds.\<close>

definition crc16_step :: "u16 \<Rightarrow> u8 \<Rightarrow> u16" where
  "crc16_step cksum b =
     crc16_tab ! unat ((drop_bit 8 cksum XOR ucast b) AND 0xFF) XOR push_bit 8 cksum"

definition crc16_from :: "u16 \<Rightarrow> bytes \<Rightarrow> u16" where
  "crc16_from cksum buf = fold (\<lambda>b c. crc16_step c b) buf cksum"

text \<open>\<open>crc16 buf len\<close> reads the first \<open>len\<close> bytes of \<open>buf\<close>.\<close>

definition crc16 :: "bytes \<Rightarrow> nat \<Rightarrow> u16 option" where
  "crc16 buf len = (if len \<le> length buf then Some (crc16_from 0 (take len buf)) else None)"

section \<open>The bitwise reference\<close>

definition crc_shift :: "u16 \<Rightarrow> u16" where
  "crc_shift c = (if bit c 15 then push_bit 1 c XOR 0x1021 else push_bit 1 c)"

definition crc_ref_step :: "u16 \<Rightarrow> u8 \<Rightarrow> u16" where
  "crc_ref_step c b = (crc_shift ^^ 8) (c XOR push_bit 8 (ucast b))"

definition crc_ref :: "bytes \<Rightarrow> u16" where
  "crc_ref buf = fold (\<lambda>b c. crc_ref_step c b) buf 0"

section \<open>The shift register is linear and loses nothing\<close>

lemma crc_shift_xor: "crc_shift (a XOR b) = crc_shift a XOR crc_shift b"
  by (rule bit_word_eqI) (auto simp: crc_shift_def bit_simps)

lemma crc_shifts_xor: "(crc_shift ^^ n) (a XOR b) = (crc_shift ^^ n) a XOR (crc_shift ^^ n) b"
  by (induction n) (simp_all add: crc_shift_xor)

lemma crc_shift_0 [simp]: "crc_shift 0 = 0"
  by (simp add: crc_shift_def)

lemma crc_shifts_0 [simp]: "(crc_shift ^^ n) 0 = 0"
  by (induction n) simp_all

lemma crc_shift_eq_0: "crc_shift a = 0 \<longleftrightarrow> a = 0"
proof
  assume h: "crc_shift a = 0"
  show "a = 0"
  proof (cases "bit a 15")
    case True
    have "bit (push_bit 1 a XOR 0x1021 :: u16) 0"
      unfolding bit_xor_iff bit_push_bit_iff by simp
    with True h show ?thesis by (simp add: crc_shift_def)
  next
    case False
    with h have z: "push_bit 1 a = 0" by (simp add: crc_shift_def)
    have "bit (push_bit 1 a) (Suc n) = bit a n" if "n < 15" for n
      unfolding bit_push_bit_iff using that by simp
    with z have "\<not> bit a n" if "n < 15" for n using that by simp
    with False have "\<not> bit a n" if "n < 16" for n
      using that by (cases "n = 15") auto
    then show ?thesis by (intro bit_word_eqI) simp
  qed
qed simp

lemma crc_shifts_eq_0: "(crc_shift ^^ n) a = 0 \<longleftrightarrow> a = 0"
  by (induction n) (simp_all add: crc_shift_eq_0)

lemma xor_eq_0_iff: "a XOR b = 0 \<longleftrightarrow> a = (b :: u16)"
  by (metis xor.assoc xor_self_eq xor.right_neutral xor.left_neutral)

lemma xor_left_cancel: "c XOR a = c XOR b \<longleftrightarrow> a = (b :: u16)"
proof
  assume "c XOR a = c XOR b"
  then have "c XOR (c XOR a) = c XOR (c XOR b)" by simp
  then show "a = b" by (simp only: xor.assoc [symmetric] xor_self_eq xor.left_neutral)
qed simp

lemma crc_shifts_inj: "(crc_shift ^^ n) a = (crc_shift ^^ n) b \<longleftrightarrow> a = b"
proof -
  have "(crc_shift ^^ n) a = (crc_shift ^^ n) b \<longleftrightarrow> (crc_shift ^^ n) (a XOR b) = 0"
    by (simp add: crc_shifts_xor xor_eq_0_iff)
  then show ?thesis by (simp add: crc_shifts_eq_0 xor_eq_0_iff)
qed

text \<open>Eight shifts of a value below 256 move it up by a byte without touching the polynomial.\<close>

lemma crc_shifts_low: "k \<le> 8 \<Longrightarrow> (crc_shift ^^ k) (c AND mask 8) = push_bit k (c AND mask 8)"
proof (induction k)
  case (Suc k)
  then have "\<not> bit (push_bit k (c AND mask 8)) 15"
    unfolding bit_push_bit_iff bit_and_iff bit_mask_iff by auto
  with Suc show ?case by (simp add: crc_shift_def push_bit_Suc push_bit_double)
qed simp

lemma push_bit_8_low: "push_bit 8 (c AND mask 8) = (push_bit 8 c :: u16)"
  by (rule bit_word_eqI) (auto simp: bit_simps)

lemma crc_shift8_low: "(crc_shift ^^ 8) (c AND mask 8) = push_bit 8 c"
  by (simp only: crc_shifts_low [OF order_refl] push_bit_8_low)

section \<open>The table\<close>

lemma crc16_tab_keys: "map (crc_shift ^^ 8) (map (\<lambda>k. word_of_int k * 256) [0..255]) = crc16_tab"
proof -
  have unfold: "(crc_shift ^^ 8) c = crc_shift (crc_shift (crc_shift (crc_shift
      (crc_shift (crc_shift (crc_shift (crc_shift c)))))))" for c
    by (simp add: numeral_eq_Suc)
  show ?thesis
    apply (simp add: upto_rec1 del: funpow.simps)
    apply (simp only: unfold)
    apply (simp add: crc_shift_def crc16_tab_def)
    done
qed

lemma length_crc16_tab: "length crc16_tab = 256"
  by (simp flip: crc16_tab_keys)

lemma crc16_tab_nth: "i < 256 \<Longrightarrow> crc16_tab ! i = (crc_shift ^^ 8) (push_bit 8 (word_of_nat i))"
  by (simp flip: crc16_tab_keys add: push_bit_eq_mult)

text \<open>One table step is eight bit steps, for every state and every byte.\<close>

lemma crc_index_bound: "unat ((drop_bit 8 c XOR ucast b) AND 0xFF :: u16) < 256"
proof -
  have "((drop_bit 8 c XOR ucast b) AND 0xFF :: u16) \<le> 0xFF" by (rule word_and_le1)
  then show ?thesis by (simp add: word_le_nat_alt)
qed

lemma crc_split: "c XOR push_bit 8 (ucast b) =
    push_bit 8 ((drop_bit 8 c XOR ucast b) AND mask 8) XOR (c AND mask 8 :: u16)"
  by (rule bit_word_eqI) (auto simp: bit_simps dest: bit_imp_le_length)

lemma crc16_step_ref: "crc16_step c b = crc_ref_step c b"
proof -
  let ?i = "(drop_bit 8 c XOR ucast b) AND 0xFF :: u16"
  have m: "?i = (drop_bit 8 c XOR ucast b) AND mask 8" by (simp add: mask_eq_exp_minus_1)
  have "crc_ref_step c b = (crc_shift ^^ 8) (push_bit 8 ?i) XOR (crc_shift ^^ 8) (c AND mask 8)"
    unfolding crc_ref_step_def crc_split by (simp only: m crc_shifts_xor)
  also have "(crc_shift ^^ 8) (push_bit 8 ?i) = crc16_tab ! unat ?i"
    using crc16_tab_nth [OF crc_index_bound, of c b] by simp
  finally show ?thesis by (simp only: crc16_step_def crc_shift8_low)
qed

lemma crc_ref_step_inj: "crc_ref_step c b = crc_ref_step d b \<longleftrightarrow> c = d"
  by (simp add: crc_ref_step_def crc_shifts_inj xor.commute [of _ "push_bit 8 (ucast b)"] xor_left_cancel)

section \<open>Properties\<close>

lemma crc16_from_simps [simp]:
  "crc16_from c [] = c"
  "crc16_from c (b # bs) = crc16_from (crc16_step c b) bs"
  "crc16_from c (as @ bs) = crc16_from (crc16_from c as) bs"
  by (simp_all add: crc16_from_def)

lemma crc16_whole: "crc16 buf (length buf) = Some (crc16_from 0 buf)"
  by (simp add: crc16_def)

text \<open>C39: the table-driven loop of \<open>crc16\<close> computes the CRC of its first \<open>len\<close> bytes that the
  bitwise shift register with polynomial 0x1021 computes; it has undefined behaviour exactly when
  \<open>len\<close> passes the end of the buffer.\<close>

theorem crc16_is_bitwise_crc:
  "crc16 buf len = (if len \<le> length buf then Some (crc_ref (take len buf)) else None)"
  by (simp add: crc16_def crc16_from_def crc_ref_def crc16_step_ref)

text \<open>Two bytes fed to the register are sixteen shifts of their join.\<close>

lemma crc_two_bytes:
  "crc16_step (crc16_step c x) y = (crc_shift ^^ 16) (c XOR (push_bit 8 (ucast x) OR ucast y))"
proof -
  let ?y = "ucast y :: u16"
  have y: "?y AND mask 8 = ?y" by (rule bit_word_eqI) (auto simp: bit_simps dest: bit_imp_le_length)
  have "(crc_shift ^^ 8) ?y = push_bit 8 ?y" using crc_shift8_low [of ?y] by (simp only: y)
  then have "crc16_step (crc16_step c x) y = (crc_shift ^^ 8) ((crc_shift ^^ 8) (c XOR push_bit 8 (ucast x) XOR ?y))"
    by (simp only: crc16_step_ref crc_ref_step_def crc_shifts_xor xor.assoc)
  also have "\<dots> = (crc_shift ^^ (8 + 8)) (c XOR (push_bit 8 (ucast x) XOR ?y))"
    by (simp only: funpow_add comp_def xor.assoc)
  also have "push_bit 8 (ucast x) XOR ?y = push_bit 8 (ucast x) OR ?y"
    by (rule bit_word_eqI) (auto simp: bit_simps dest: bit_imp_le_length)
  finally show ?thesis by simp
qed

lemma crc16_from_inj: "crc16_from c bs = crc16_from d bs \<longleftrightarrow> c = d"
  by (induction bs arbitrary: c d) (simp_all add: crc16_step_ref crc_ref_step_inj)

text \<open>A buffer followed by its own checksum, high byte first, has checksum 0; this is the
  residue a receiver may test instead of comparing.\<close>

theorem crc16_residue_zero:
  "crc16 buf (length buf) = Some c \<Longrightarrow>
   crc16 (buf @ [ucast (drop_bit 8 c), ucast c]) (length buf + 2) = Some 0"
  by (simp add: crc16_def crc_two_bytes join16)

theorem crc16_residue_zero_witness:
  "crc16 [0x31, 0x32] (length [0x31, 0x32 :: u8]) = Some 0x20b5 \<and>
   crc16 ([0x31, 0x32] @ [ucast (drop_bit 8 (0x20b5 :: u16)), ucast (0x20b5 :: u16)]) (length [0x31, 0x32 :: u8] + 2) = Some 0"
proof -
  have h: "crc16 [0x31, 0x32] (length [0x31, 0x32 :: u8]) = Some 0x20b5"
    by (simp add: crc16_def crc16_step_def crc16_tab_def)
  show ?thesis using h crc16_residue_zero [OF h] by simp
qed

text \<open>Error detection. Two buffers that differ only inside two adjacent bytes (a burst of at most
  16 bits that does not straddle three bytes) have different checksums.\<close>

theorem crc16_detects_two_byte_burst:
  assumes "(x1, x2) \<noteq> (y1, y2)"
  shows "crc16 (pre @ [x1, x2] @ post) (length pre + 2 + length post)
       \<noteq> crc16 (pre @ [y1, y2] @ post) (length pre + 2 + length post)"
proof
  let ?j = "\<lambda>h l. push_bit 8 (ucast (h :: u8)) OR ucast (l :: u8) :: u16"
  let ?s = "crc16_from 0 pre"
  assume "crc16 (pre @ [x1, x2] @ post) (length pre + 2 + length post)
        = crc16 (pre @ [y1, y2] @ post) (length pre + 2 + length post)"
  then have "?s XOR ?j x1 x2 = ?s XOR ?j y1 y2"
    by (simp add: crc16_def crc16_from_inj crc_two_bytes crc_shifts_inj)
  then have j: "?j x1 x2 = ?j y1 y2" by (simp only: xor_left_cancel)
  have "x1 = y1" using arg_cong [OF j, of "\<lambda>w. ucast (drop_bit 8 w) :: u8"] by (simp only: split16)
  moreover have "x2 = y2" using arg_cong [OF j, of "\<lambda>w. ucast w :: u8"] by (simp only: split16)
  ultimately show False using assms by simp
qed

theorem crc16_detects_two_byte_burst_witness:
  "((1, 2) :: u8 \<times> u8) \<noteq> (2, 2) \<and> crc16 [7, 1, 2, 9] 4 \<noteq> crc16 [7, 2, 2, 9] 4"
  using crc16_detects_two_byte_burst [of 1 2 2 2 "[7]" "[9]"] by (simp add: numeral_eq_Suc)

end
