(* ===== verification/Float32.thy ===== *)
theory Float32
  imports Complex_Main
begin

text \<open>
  Single-precision arithmetic of the Cortex-M4 FPU (the firmware is built with
  \<open>-fsingle-precision-constant\<close>, so every \<open>float\<close> expression and literal is binary32). A
  \<open>float\<close> is modelled as the real number it denotes and every arithmetic result \<open>r\<close> of the source
  becomes \<open>fl r\<close>: the binary32 number nearest to \<open>r\<close>, ties to even, with the gradual underflow of
  the format (least exponent -149). Not modelled: overflow to infinity (the exponent is not bounded
  above), NaN, the sign of zero, and the compiler's licence to contract \<open>a * b + c\<close> into a fused
  operation with one rounding.

  The laws of rounding the components use (it is monotone, odd, idempotent, and exact on the
  numbers of the format) form the locale \<open>rounding\<close>, interpreted by \<open>fl\<close>.
\<close>

section \<open>Rounding to binary32\<close>

definition rne :: "real \<Rightarrow> int" where
  "rne x = (let n = \<lfloor>x\<rfloor>; d = x - of_int n in
     if d < 1/2 then n else if d > 1/2 then n + 1 else if even n then n else n + 1)"

definition fl_exp :: "real \<Rightarrow> int" where
  "fl_exp x = max (\<lfloor>log 2 \<bar>x\<bar>\<rfloor> - 23) (-149)"

definition fl :: "real \<Rightarrow> real" where
  "fl x = (if x = 0 then 0 else of_int (rne (x / 2 powr of_int (fl_exp x))) * 2 powr of_int (fl_exp x))"

text \<open>The numbers of the format: at most 24 significant bits, exponent at least -149.\<close>

definition is_f32 :: "real \<Rightarrow> bool" where
  "is_f32 r \<longleftrightarrow> (\<exists>m e. r = of_int m * 2 powr of_int e \<and> \<bar>m\<bar> \<le> 2 ^ 24 \<and> e \<ge> -149)"

text \<open>Conversion of a \<open>float\<close> to a signed integer truncates towards zero; the value is undefined
  behaviour when it does not fit the target type.\<close>

definition ftrunc :: "real \<Rightarrow> int" where
  "ftrunc x = (if 0 \<le> x then \<lfloor>x\<rfloor> else \<lceil>x\<rceil>)"

section \<open>Round to nearest integer, ties to even\<close>

lemma rne_of_int [simp]: "rne (of_int k) = k"
  by (simp add: rne_def)

lemma rne_bounds: "\<lfloor>x\<rfloor> \<le> rne x \<and> rne x \<le> \<lfloor>x\<rfloor> + 1"
  by (simp add: rne_def Let_def)

lemma rne_nearest: "\<bar>of_int (rne x) - x\<bar> \<le> 1/2"
  unfolding rne_def Let_def by (auto; linarith)

lemma rne_minus: "rne (- x) = - rne x"
proof (cases "x = of_int \<lfloor>x\<rfloor>")
  case True
  then show ?thesis by (metis of_int_minus rne_of_int)
next
  case False
  then have f: "\<lfloor>- x\<rfloor> = - \<lfloor>x\<rfloor> - 1"
    by (metis ceiling_altdef floor_minus minus_add_distrib uminus_add_conv_diff add.commute)
  show ?thesis unfolding rne_def Let_def f by (auto; linarith)
qed

lemma rne_mono: "x \<le> y \<Longrightarrow> rne x \<le> rne y"
proof -
  assume xy: "x \<le> y"
  show ?thesis
  proof (cases "\<lfloor>x\<rfloor> = \<lfloor>y\<rfloor>")
    case True
    with xy show ?thesis by (auto simp: rne_def Let_def)
  next
    case False
    with xy have "\<lfloor>x\<rfloor> + 1 \<le> \<lfloor>y\<rfloor>" using floor_mono [OF xy] by linarith
    with rne_bounds [of x] rne_bounds [of y] show ?thesis by linarith
  qed
qed

lemma rne_le_int: "x \<le> of_int k \<Longrightarrow> rne x \<le> k"
  using rne_mono [of x "of_int k"] by simp

lemma rne_ge_int: "of_int k \<le> x \<Longrightarrow> k \<le> rne x"
  using rne_mono [of "of_int k" x] by simp

section \<open>Exponents\<close>

lemma fl_exp_minus [simp]: "fl_exp (- x) = fl_exp x"
  by (simp add: fl_exp_def)

lemma fl_0 [simp]: "fl 0 = 0"
  by (simp add: fl_def)

lemma fl_minus: "fl (- x) = - fl x"
  by (simp add: fl_def rne_minus)

lemma fl_exp_ge: "fl_exp x \<ge> -149"
  by (simp add: fl_exp_def)

lemma abs_less_fl_exp: "x \<noteq> 0 \<Longrightarrow> \<bar>x\<bar> < 2 powr (of_int (fl_exp x) + 24)"
proof -
  assume "x \<noteq> 0"
  then have "log 2 \<bar>x\<bar> < of_int (fl_exp x) + 24"
    unfolding fl_exp_def by linarith
  with \<open>x \<noteq> 0\<close> show ?thesis by (simp add: log_less_iff)
qed

lemma fl_exp_unclamped:
  "x \<noteq> 0 \<Longrightarrow> fl_exp x > -149 \<Longrightarrow> 2 powr (of_int (fl_exp x) + 23) \<le> \<bar>x\<bar>"
proof -
  assume "x \<noteq> 0" "fl_exp x > -149"
  then have "of_int (fl_exp x) + 23 \<le> log 2 \<bar>x\<bar>"
    unfolding fl_exp_def by linarith
  with \<open>x \<noteq> 0\<close> show ?thesis by (simp add: le_log_iff)
qed

lemma fl_exp_mono: "0 < x \<Longrightarrow> x \<le> y \<Longrightarrow> fl_exp x \<le> fl_exp y"
  unfolding fl_exp_def by (intro max.mono diff_right_mono floor_mono) auto

section \<open>Laws of rounding\<close>

lemma powr_int_add: "2 powr (of_int e + of_nat n) = (2 ^ n :: real) * 2 powr of_int e"
  by (simp add: powr_add powr_realpow)

lemma fl_pos: "0 \<le> x \<Longrightarrow> 0 \<le> fl x"
  using rne_ge_int [of 0 "x / 2 powr of_int (fl_exp x)"] by (simp add: fl_def)

lemma fl_upper: "0 < x \<Longrightarrow> fl x \<le> 2 powr (of_int (fl_exp x) + 24)"
proof -
  assume x: "0 < x"
  let ?u = "2 powr of_int (fl_exp x) :: real"
  have "x / ?u \<le> of_int (2 ^ 24)"
    using abs_less_fl_exp [of x] x powr_int_add [of "fl_exp x" 24] by (simp add: divide_simps)
  from rne_le_int [OF this] have "of_int (rne (x / ?u)) * ?u \<le> of_int (2 ^ 24) * ?u"
    by (intro mult_right_mono) (simp_all only: of_int_le_iff powr_ge_zero)
  then show ?thesis using x powr_int_add [of "fl_exp x" 24] by (simp add: fl_def)
qed

lemma fl_lower: "0 < x \<Longrightarrow> fl_exp x > -149 \<Longrightarrow> 2 powr (of_int (fl_exp x) + 23) \<le> fl x"
proof -
  assume x: "0 < x" "fl_exp x > -149"
  let ?u = "2 powr of_int (fl_exp x) :: real"
  have "of_int (2 ^ 23) \<le> x / ?u"
    using fl_exp_unclamped [of x] x powr_int_add [of "fl_exp x" 23] by (simp add: divide_simps)
  from rne_ge_int [OF this] have "of_int (2 ^ 23) * ?u \<le> of_int (rne (x / ?u)) * ?u"
    by (intro mult_right_mono) (simp_all only: of_int_le_iff powr_ge_zero)
  then show ?thesis using x powr_int_add [of "fl_exp x" 23] by (simp add: fl_def)
qed

lemma fl_mono_pos: "0 < x \<Longrightarrow> x \<le> y \<Longrightarrow> fl x \<le> fl y"
proof (cases "fl_exp x = fl_exp y")
  case True
  assume "0 < x" "x \<le> y"
  then show ?thesis using True
    by (simp add: fl_def rne_mono divide_right_mono mult_right_mono)
next
  case False
  assume xy: "0 < x" "x \<le> y"
  with False fl_exp_mono [of x y] fl_exp_ge [of x] have e: "fl_exp x + 1 \<le> fl_exp y" "fl_exp y > -149"
    by auto
  have "fl x \<le> 2 powr (of_int (fl_exp x) + 24)" using xy by (simp add: fl_upper)
  also have "\<dots> \<le> 2 powr (of_int (fl_exp y) + 23)" using e by simp
  also have "\<dots> \<le> fl y" using xy e by (intro fl_lower) auto
  finally show ?thesis .
qed

lemma fl_mono: "x \<le> y \<Longrightarrow> fl x \<le> fl y"
proof -
  assume xy: "x \<le> y"
  consider "0 < x" | "x \<le> 0" "0 \<le> y" | "y < 0" by linarith
  then show ?thesis
  proof cases
    case 2
    then show ?thesis using fl_pos [of y] fl_pos [of "- x"] by (simp add: fl_minus)
  next
    case 3
    then show ?thesis using fl_mono_pos [of "- y" "- x"] xy by (simp add: fl_minus)
  qed (use xy fl_mono_pos in blast)
qed

lemma fl_is_f32: "is_f32 (fl x)"
proof (cases "x = 0")
  case True
  then show ?thesis unfolding is_f32_def by (intro exI [of _ 0] exI [of _ 0]) simp
next
  case False
  let ?u = "2 powr of_int (fl_exp x) :: real"
  have "\<bar>x / ?u\<bar> \<le> of_int (2 ^ 24)"
    using abs_less_fl_exp [OF False] powr_int_add [of "fl_exp x" 24] by (simp add: divide_simps)
  then have "x / ?u \<le> of_int (2 ^ 24)" "of_int (- (2 ^ 24)) \<le> x / ?u"
    by (simp_all only: of_int_minus abs_le_iff minus_le_iff)
  then have "\<bar>rne (x / ?u)\<bar> \<le> 2 ^ 24"
    using rne_le_int rne_ge_int by (metis abs_le_iff minus_le_iff)
  with False fl_exp_ge [of x] show ?thesis unfolding is_f32_def fl_def by auto
qed

lemma is_f32_on_grid: "is_f32 r \<Longrightarrow> r \<noteq> 0 \<Longrightarrow> \<exists>k :: int. r / 2 powr of_int (fl_exp r) = of_int k"
proof -
  assume "is_f32 r" "r \<noteq> 0"
  then obtain m e where r: "r = of_int m * 2 powr of_int e" and m: "\<bar>m\<bar> \<le> 2 ^ 24" and e: "e \<ge> -149"
    unfolding is_f32_def by auto
  let ?E = "fl_exp r"
  have q: "r / 2 powr of_int ?E = of_int m * 2 powr of_int (e - ?E)"
    by (simp add: r powr_diff)
  show ?thesis
  proof (cases "?E \<le> e")
    case True
    then have "2 powr of_int (e - ?E) = (of_int (2 ^ nat (e - ?E)) :: real)"
      by (simp flip: powr_realpow)
    with q show ?thesis by (metis of_int_mult)
  next
    case False
    then have "e + 1 \<le> ?E" "?E > -149" using e by auto
    then have "2 powr (of_int ?E + 23) \<le> \<bar>r\<bar>" using fl_exp_unclamped \<open>r \<noteq> 0\<close> by blast
    also have "\<bar>r\<bar> = of_int \<bar>m\<bar> * 2 powr of_int e" by (simp add: r abs_mult)
    also have "\<dots> \<le> of_int (2 ^ 24) * 2 powr of_int e"
      using m by (intro mult_right_mono) (simp_all only: of_int_le_iff powr_ge_zero)
    finally have le: "2 powr (of_int ?E + 23) \<le> (2 powr (of_int e + 24) :: real)"
      using powr_int_add [of e 24] by simp
    then have "?E = e + 1" using \<open>e + 1 \<le> ?E\<close> by simp
    moreover have "\<bar>m\<bar> = 2 ^ 24"
    proof (rule ccontr)
      assume "\<bar>m\<bar> \<noteq> 2 ^ 24"
      with m have "(of_int \<bar>m\<bar> :: real) < of_int (2 ^ 24)" by (simp only: of_int_less_iff)
      then have "of_int \<bar>m\<bar> * 2 powr of_int e < of_int (2 ^ 24) * (2 powr of_int e :: real)"
        by (rule mult_strict_right_mono) simp
      then have "\<bar>r\<bar> < 2 powr (of_int e + 24)"
        using powr_int_add [of e 24] by (simp add: r abs_mult)
      moreover have "2 powr (of_int ?E + 23) = (2 powr (of_int e + 24) :: real)"
        using \<open>?E = e + 1\<close> by (simp add: algebra_simps)
      ultimately show False
        using fl_exp_unclamped [OF \<open>r \<noteq> 0\<close> \<open>?E > -149\<close>] by simp
    qed
    ultimately have "r / 2 powr of_int ?E = of_int m / 2" and "m = 2 * (sgn m * 2 ^ 23)"
      using q mult_sgn_abs [of m] by (simp_all add: powr_minus)
    then have "r / 2 powr of_int ?E = of_int (sgn m * 2 ^ 23)"
      by (metis nonzero_mult_div_cancel_left of_int_mult of_int_numeral zero_neq_numeral)
    then show ?thesis by blast
  qed
qed

lemma fl_exact: "is_f32 r \<Longrightarrow> fl r = r"
proof (cases "r = 0")
  case False
  assume "is_f32 r"
  from is_f32_on_grid [OF this False] obtain k where k: "r / 2 powr of_int (fl_exp r) = of_int k" ..
  then have "of_int k * 2 powr of_int (fl_exp r) = r" by (simp add: divide_simps)
  with k False show ?thesis by (simp add: fl_def)
qed simp

section \<open>The interface of rounding\<close>

locale rounding =
  fixes rnd :: "real \<Rightarrow> real" and repr :: "real \<Rightarrow> bool"
  assumes rnd_mono: "x \<le> y \<Longrightarrow> rnd x \<le> rnd y"
    and rnd_minus: "rnd (- x) = - rnd x"
    and repr_rnd: "repr (rnd x)"
    and rnd_repr: "repr r \<Longrightarrow> rnd r = r"
begin

lemma rnd_0: "rnd 0 = 0"
  using rnd_minus [of 0] by simp

lemma rnd_idem: "rnd (rnd x) = rnd x"
  by (rule rnd_repr [OF repr_rnd])

lemma rnd_le: "x \<le> r \<Longrightarrow> repr r \<Longrightarrow> rnd x \<le> r"
  using rnd_mono [of x r] by (simp add: rnd_repr)

lemma rnd_ge: "r \<le> x \<Longrightarrow> repr r \<Longrightarrow> r \<le> rnd x"
  using rnd_mono [of r x] by (simp add: rnd_repr)

lemma rnd_nonneg: "0 \<le> x \<Longrightarrow> 0 \<le> rnd x"
  using rnd_mono [of 0 x] by (simp add: rnd_0)

lemma rnd_nonpos: "x \<le> 0 \<Longrightarrow> rnd x \<le> 0"
  using rnd_mono [of x 0] by (simp add: rnd_0)

lemma rnd_abs: "rnd \<bar>x\<bar> = \<bar>rnd x\<bar>"
  using rnd_nonneg [of x] rnd_nonpos [of x] rnd_minus [of x] by (cases "0 \<le> x") auto

lemma rnd_abs_le: "\<bar>x\<bar> \<le> r \<Longrightarrow> repr r \<Longrightarrow> \<bar>rnd x\<bar> \<le> r"
  using rnd_le [of "\<bar>x\<bar>" r] by (simp add: rnd_abs)

end

interpretation f32: rounding fl is_f32
  by unfold_locales (simp_all add: fl_mono fl_minus fl_is_f32 fl_exact)

lemma is_f32_of_int: "\<bar>k\<bar> \<le> 2 ^ 24 \<Longrightarrow> is_f32 (of_int k)"
  unfolding is_f32_def by (intro exI [of _ k] exI [of _ 0]) simp

lemma is_f32_numeral: "(numeral n :: int) \<le> 16777216 \<Longrightarrow> is_f32 (numeral n)"
  using is_f32_of_int [of "numeral n"] by simp

lemma fl_of_int: "\<bar>k\<bar> \<le> 2 ^ 24 \<Longrightarrow> fl (of_int k) = of_int k"
  by (rule fl_exact [OF is_f32_of_int])

lemma fl_numeral [simp]: "(numeral n :: int) \<le> 16777216 \<Longrightarrow> fl (numeral n) = numeral n"
  by (rule fl_exact [OF is_f32_numeral])

lemma fl_1 [simp]: "fl 1 = 1"
  using fl_of_int [of 1] by simp

lemma fl_dyadic: "\<bar>m\<bar> \<le> 2 ^ 24 \<Longrightarrow> n \<le> 149 \<Longrightarrow> fl (of_int m / 2 ^ n) = of_int m / 2 ^ n"
proof (rule fl_exact)
  assume h: "\<bar>m\<bar> \<le> 2 ^ 24" "n \<le> 149"
  then have "of_int m / 2 ^ n = of_int m * (2 powr of_int (- int n) :: real)"
    by (simp add: powr_minus powr_realpow divide_inverse)
  with h show "is_f32 (of_int m / 2 ^ n)" unfolding is_f32_def
    by (intro exI [of _ m] exI [of _ "- int n"]) simp
qed

lemma ftrunc_of_int [simp]: "ftrunc (of_int k) = k"
  by (simp add: ftrunc_def)

lemma ftrunc_minus: "ftrunc (- x) = - ftrunc x"
  by (auto simp: ftrunc_def ceiling_def)

lemma ftrunc_mono: "x \<le> y \<Longrightarrow> ftrunc x \<le> ftrunc y"
  by (auto simp: ftrunc_def floor_mono ceiling_mono) (metis ceiling_le_zero dual_order.trans linear zero_le_floor)

lemma ftrunc_abs: "\<bar>of_int (ftrunc x)\<bar> \<le> \<bar>x\<bar>"
  unfolding ftrunc_def by (auto; linarith)

section \<open>Rounding error\<close>

lemma fl_error: "\<bar>fl x - x\<bar> \<le> 2 powr of_int (fl_exp x) / 2"
proof (cases "x = 0")
  case False
  let ?u = "2 powr of_int (fl_exp x) :: real"
  have "fl x - x = (of_int (rne (x / ?u)) - x / ?u) * ?u"
    using False by (simp add: fl_def algebra_simps)
  then have "\<bar>fl x - x\<bar> = \<bar>of_int (rne (x / ?u)) - x / ?u\<bar> * ?u" by (simp add: abs_mult)
  also have "\<dots> \<le> 1/2 * ?u" by (intro mult_right_mono rne_nearest) simp
  finally show ?thesis by simp
qed simp

text \<open>In the normal range the relative error of one rounding is at most \<open>2\<^sup>-\<^sup>2\<^sup>4\<close>.\<close>

lemma fl_rel_error: "2 powr -126 \<le> \<bar>x\<bar> \<Longrightarrow> \<bar>fl x - x\<bar> \<le> \<bar>x\<bar> / 2 ^ 24"
proof -
  assume x: "2 powr -126 \<le> \<bar>x\<bar>"
  have "(0 :: real) < 2 powr -126" by simp
  with x have nz: "x \<noteq> 0" by (metis abs_zero less_le_not_le)
  have "2 powr (of_int (fl_exp x) + 23) \<le> \<bar>x\<bar>"
  proof (cases "fl_exp x > -149")
    case True
    then show ?thesis by (rule fl_exp_unclamped [OF nz])
  next
    case False
    with fl_exp_ge [of x] have "fl_exp x = -149" by simp
    with x show ?thesis by simp
  qed
  then have "2 ^ 23 * 2 powr of_int (fl_exp x) \<le> \<bar>x\<bar>"
    using powr_int_add [of "fl_exp x" 23] by simp
  with fl_error [of x] show ?thesis by simp
qed

text \<open>Evaluating a rounding: the exponent from a bracket between powers of two, then the integer
  significand.\<close>

lemma fl_exp_eq:
  "2 powr of_int n \<le> \<bar>x\<bar> \<Longrightarrow> \<bar>x\<bar> < 2 powr (of_int n + 1) \<Longrightarrow> -126 \<le> n \<Longrightarrow> fl_exp x = n - 23"
proof -
  assume h: "2 powr of_int n \<le> \<bar>x\<bar>" "\<bar>x\<bar> < 2 powr (of_int n + 1)" "-126 \<le> n"
  have "0 < \<bar>x\<bar>" using h(1) powr_gt_zero [of 2 "of_int n"] by linarith
  then have "\<lfloor>log 2 \<bar>x\<bar>\<rfloor> = n" using h by (simp add: floor_eq_iff le_log_iff log_less_iff)
  with h show ?thesis by (simp add: fl_exp_def)
qed

lemma rne_eq: "\<bar>x - of_int m\<bar> < 1/2 \<Longrightarrow> rne x = m"
  using rne_nearest [of x] by linarith

end
