(* ===== verification/Buffer.thy ===== *)
theory Buffer
  imports Prelude Float32
begin

text \<open>
  \<open>buffer.c\<close>: big-endian serialisation of integers and scaled floats into byte buffers. A
  buffer is a list of bytes, the index \<open>int32_t *index\<close> a natural number that the operation returns
  advanced; a store or load outside the buffer is undefined behaviour, \<^term>\<open>None\<close>. The signed and
  unsigned 16- and 32-bit integers of the source are words; \<^term>\<open>sint\<close> reads the signed ones.

  Each integer encoding satisfies the interface \<open>codec\<close> (it writes a fixed number of bytes where
  they fit, changes no other byte, and its reader inverts it), from which follow the facts about
  sequences of fields that the command and CAN layers use.
\<close>

section \<open>Integers\<close>

definition buffer_append_int16 :: "bytes \<Rightarrow> u16 \<Rightarrow> nat \<Rightarrow> (bytes \<times> nat) option" where
  "buffer_append_int16 buffer number index =
     arr_put buffer index [ucast (signed_drop_bit 8 number), ucast number]"

definition buffer_append_uint16 :: "bytes \<Rightarrow> u16 \<Rightarrow> nat \<Rightarrow> (bytes \<times> nat) option" where
  "buffer_append_uint16 buffer number index =
     arr_put buffer index [ucast (drop_bit 8 number), ucast number]"

definition buffer_append_int32 :: "bytes \<Rightarrow> u32 \<Rightarrow> nat \<Rightarrow> (bytes \<times> nat) option" where
  "buffer_append_int32 buffer number index =
     arr_put buffer index [ucast (signed_drop_bit 24 number), ucast (signed_drop_bit 16 number),
       ucast (signed_drop_bit 8 number), ucast number]"

definition buffer_append_uint32 :: "bytes \<Rightarrow> u32 \<Rightarrow> nat \<Rightarrow> (bytes \<times> nat) option" where
  "buffer_append_uint32 buffer number index =
     arr_put buffer index [ucast (drop_bit 24 number), ucast (drop_bit 16 number),
       ucast (drop_bit 8 number), ucast number]"

definition buffer_get_int16 :: "bytes \<Rightarrow> nat \<Rightarrow> (u16 \<times> nat) option" where
  "buffer_get_int16 buffer index =
     do { a \<leftarrow> arr_get buffer index; b \<leftarrow> arr_get buffer (index + 1);
          Some (push_bit 8 (ucast a) OR ucast b, index + 2) }"

definition buffer_get_uint16 :: "bytes \<Rightarrow> nat \<Rightarrow> (u16 \<times> nat) option" where
  "buffer_get_uint16 buffer index =
     do { a \<leftarrow> arr_get buffer index; b \<leftarrow> arr_get buffer (index + 1);
          Some (push_bit 8 (ucast a) OR ucast b, index + 2) }"

definition buffer_get_int32 :: "bytes \<Rightarrow> nat \<Rightarrow> (u32 \<times> nat) option" where
  "buffer_get_int32 buffer index =
     do { a \<leftarrow> arr_get buffer index; b \<leftarrow> arr_get buffer (index + 1);
          c \<leftarrow> arr_get buffer (index + 2); d \<leftarrow> arr_get buffer (index + 3);
          Some (push_bit 24 (ucast a) OR push_bit 16 (ucast b) OR push_bit 8 (ucast c) OR ucast d,
                index + 4) }"

definition buffer_get_uint32 :: "bytes \<Rightarrow> nat \<Rightarrow> (u32 \<times> nat) option" where
  "buffer_get_uint32 buffer index =
     do { a \<leftarrow> arr_get buffer index; b \<leftarrow> arr_get buffer (index + 1);
          c \<leftarrow> arr_get buffer (index + 2); d \<leftarrow> arr_get buffer (index + 3);
          Some (push_bit 24 (ucast a) OR push_bit 16 (ucast b) OR push_bit 8 (ucast c) OR ucast d,
                index + 4) }"

section \<open>Scaled floats\<close>

text \<open>The casts \<open>(int16_t)\<close> and \<open>(int32_t)\<close> of a \<open>float\<close>.\<close>

definition f2i16 :: "real \<Rightarrow> u16 option" where
  "f2i16 x = (if - (2 ^ 15) \<le> ftrunc x \<and> ftrunc x < 2 ^ 15 then Some (word_of_int (ftrunc x)) else None)"

definition f2i32 :: "real \<Rightarrow> u32 option" where
  "f2i32 x = (if - (2 ^ 31) \<le> ftrunc x \<and> ftrunc x < 2 ^ 31 then Some (word_of_int (ftrunc x)) else None)"

definition buffer_append_float16 :: "bytes \<Rightarrow> real \<Rightarrow> real \<Rightarrow> nat \<Rightarrow> (bytes \<times> nat) option" where
  "buffer_append_float16 buffer number scale index =
     do { n \<leftarrow> f2i16 (fl (number * scale)); buffer_append_int16 buffer n index }"

definition buffer_append_float32 :: "bytes \<Rightarrow> real \<Rightarrow> real \<Rightarrow> nat \<Rightarrow> (bytes \<times> nat) option" where
  "buffer_append_float32 buffer number scale index =
     do { n \<leftarrow> f2i32 (fl (number * scale)); buffer_append_int32 buffer n index }"

definition buffer_get_float16 :: "bytes \<Rightarrow> real \<Rightarrow> nat \<Rightarrow> (real \<times> nat) option" where
  "buffer_get_float16 buffer scale index =
     do { (v, index') \<leftarrow> buffer_get_int16 buffer index; Some (fl (fl (of_int (sint v)) / scale), index') }"

definition buffer_get_float32 :: "bytes \<Rightarrow> real \<Rightarrow> nat \<Rightarrow> (real \<times> nat) option" where
  "buffer_get_float32 buffer scale index =
     do { (v, index') \<leftarrow> buffer_get_int32 buffer index; Some (fl (fl (of_int (sint v)) / scale), index') }"

section \<open>The interface of a field encoding\<close>

locale codec =
  fixes put :: "bytes \<Rightarrow> 'a \<Rightarrow> nat \<Rightarrow> (bytes \<times> nat) option"
    and get :: "bytes \<Rightarrow> nat \<Rightarrow> ('a \<times> nat) option"
    and enc :: "'a \<Rightarrow> bytes"
    and width :: nat
  assumes put_enc: "put buf x i = arr_put buf i (enc x)"
    and length_enc: "length (enc x) = width"
    and width_pos: "0 < width"
    and get_enc: "i + width \<le> length buf \<Longrightarrow> take width (drop i buf) = enc x \<Longrightarrow> get buf i = Some (x, i + width)"
    and get_oob: "length buf < i + width \<Longrightarrow> get buf i = None"
begin

lemma put_Some_iff:
  "put buf x i = Some r \<longleftrightarrow>
     i + width \<le> length buf \<and> r = (take i buf @ enc x @ drop (i + width) buf, i + width)"
proof -
  have "enc x \<noteq> []" using width_pos length_enc [of x] by auto
  then show ?thesis by (simp add: put_enc arr_put_Some_iff length_enc)
qed

lemma get_put: "put buf x i = Some (buf', i') \<Longrightarrow> get buf' i = Some (x, i') \<and> i' = i + width"
  by (auto simp: put_Some_iff length_enc intro!: get_enc)

lemma put_frame:
  "put buf x i = Some (buf', i') \<Longrightarrow>
     length buf' = length buf \<and> take i buf' = take i buf \<and> drop i' buf' = drop i' buf"
  using length_enc [of x] by (auto simp: put_Some_iff)

lemma get_other:
  "put buf x i = Some (buf', i') \<Longrightarrow> j + n \<le> i \<or> i' \<le> j \<Longrightarrow>
     take n (drop j buf') = take n (drop j buf)"
proof -
  assume p: "put buf x i = Some (buf', i')" and "j + n \<le> i \<or> i' \<le> j"
  then consider "j + n \<le> i" | "i' \<le> j" by blast
  then show ?thesis
  proof cases
    case 1
    then have "take n (drop j buf') = drop j (take (j + n) (take i buf'))"
      and "take n (drop j buf) = drop j (take (j + n) (take i buf))"
      by (simp_all add: take_drop min_def add.commute)
    with put_frame [OF p] show ?thesis by simp
  next
    case 2
    then have "take n (drop j b) = take n (drop (j - i') (drop i' b))" for b :: bytes by simp
    with put_frame [OF p] show ?thesis by metis
  qed
qed

lemma put_case:
  "case put buf x i of
     None \<Rightarrow> length buf < i + width
   | Some (buf', i') \<Rightarrow> i' = i + width \<and> get buf' i = Some (x, i') \<and>
       take i buf' = take i buf \<and> drop i' buf' = drop i' buf"
proof (cases "i + width \<le> length buf")
  case True
  then have p: "put buf x i = Some (take i buf @ enc x @ drop (i + width) buf, i + width)"
    by (simp add: put_Some_iff)
  show ?thesis unfolding p using get_put [OF p] put_frame [OF p] by simp
next
  case False
  then have "put buf x i = None" by (metis not_Some_eq put_Some_iff)
  with False show ?thesis by simp
qed

lemma get_width: "get buf i = Some (x, i') \<Longrightarrow> i + width \<le> length buf"
  using get_oob [of buf i] by (cases "length buf < i + width") auto

end

text \<open>A single byte store \<open>buffer[ind++] = b\<close> is a field encoding too.\<close>

definition put_u8 :: "bytes \<Rightarrow> u8 \<Rightarrow> nat \<Rightarrow> (bytes \<times> nat) option" where
  "put_u8 buf b i = arr_put buf i [b]"

definition get_u8 :: "bytes \<Rightarrow> nat \<Rightarrow> (u8 \<times> nat) option" where
  "get_u8 buf i = do { b \<leftarrow> arr_get buf i; Some (b, i + 1) }"

lemma take_drop_nth: "take (Suc n) (drop i xs) = y # ys \<longleftrightarrow> i < length xs \<and> xs ! i = y \<and> take n (drop (Suc i) xs) = ys"
proof (cases "i < length xs")
  case True
  then have "drop i xs = xs ! i # drop (Suc i) xs" by (simp add: Cons_nth_drop_Suc)
  with True show ?thesis by auto
qed simp

lemmas enc_simps = enc16_def enc32_def take_drop_nth numeral_eq_Suc

interpretation u8c: codec put_u8 get_u8 "\<lambda>b. [b]" 1
  by unfold_locales (auto simp: put_u8_def get_u8_def arr_get_def take_drop_nth)

interpretation i16c: codec buffer_append_int16 buffer_get_int16 enc16 2
proof
  fix buf x i
  show "i + 2 \<le> length buf \<Longrightarrow> take 2 (drop i buf) = enc16 x \<Longrightarrow> buffer_get_int16 buf i = Some (x, i + 2)"
    using join16 [of x] by (auto simp: buffer_get_int16_def arr_get_def enc_simps)
qed (auto simp: buffer_append_int16_def buffer_get_int16_def enc16_def arr_get_def)

interpretation u16c: codec buffer_append_uint16 buffer_get_uint16 enc16 2
proof
  fix buf x i
  show "i + 2 \<le> length buf \<Longrightarrow> take 2 (drop i buf) = enc16 x \<Longrightarrow> buffer_get_uint16 buf i = Some (x, i + 2)"
    using join16 [of x] by (auto simp: buffer_get_uint16_def arr_get_def enc_simps)
qed (auto simp: buffer_append_uint16_def buffer_get_uint16_def enc16_def arr_get_def)

interpretation i32c: codec buffer_append_int32 buffer_get_int32 enc32 4
proof
  fix buf x i
  show "i + 4 \<le> length buf \<Longrightarrow> take 4 (drop i buf) = enc32 x \<Longrightarrow> buffer_get_int32 buf i = Some (x, i + 4)"
    using join32 [of x] by (auto simp: buffer_get_int32_def arr_get_def enc_simps)
qed (auto simp: buffer_append_int32_def buffer_get_int32_def enc32_def arr_get_def)

interpretation u32c: codec buffer_append_uint32 buffer_get_uint32 enc32 4
proof
  fix buf x i
  show "i + 4 \<le> length buf \<Longrightarrow> take 4 (drop i buf) = enc32 x \<Longrightarrow> buffer_get_uint32 buf i = Some (x, i + 4)"
    using join32 [of x] by (auto simp: buffer_get_uint32_def arr_get_def enc_simps)
qed (auto simp: buffer_append_uint32_def buffer_get_uint32_def enc32_def arr_get_def)

section \<open>Sequences of fields\<close>

text \<open>A chain of calls \<open>buffer_append_...(buffer, ..., &ind)\<close>: each call gets the buffer and index the
  previous one left.\<close>

type_synonym writer = "bytes \<Rightarrow> nat \<Rightarrow> (bytes \<times> nat) option"

fun put_seq :: "writer list \<Rightarrow> writer" where
  "put_seq [] buf ind = Some (buf, ind)"
| "put_seq (w # ws) buf ind = do { (buf', ind') \<leftarrow> w buf ind; put_seq ws buf' ind' }"

definition w_u8 :: "u8 \<Rightarrow> writer" where "w_u8 b buf ind = put_u8 buf b ind"
definition w_i16 :: "u16 \<Rightarrow> writer" where "w_i16 n buf ind = buffer_append_int16 buf n ind"
definition w_u16 :: "u16 \<Rightarrow> writer" where "w_u16 n buf ind = buffer_append_uint16 buf n ind"
definition w_i32 :: "u32 \<Rightarrow> writer" where "w_i32 n buf ind = buffer_append_int32 buf n ind"
definition w_u32 :: "u32 \<Rightarrow> writer" where "w_u32 n buf ind = buffer_append_uint32 buf n ind"
definition w_f16 :: "real \<Rightarrow> real \<Rightarrow> writer" where "w_f16 x s buf ind = buffer_append_float16 buf x s ind"
definition w_f32 :: "real \<Rightarrow> real \<Rightarrow> writer" where "w_f32 x s buf ind = buffer_append_float32 buf x s ind"

text \<open>A writer that stores the bytes \<open>bs\<close>, or is undefined because a conversion is.\<close>

definition writes :: "writer \<Rightarrow> bytes option \<Rightarrow> bool" where
  "writes w bs \<longleftrightarrow> (\<forall>buf ind. w buf ind = do { b \<leftarrow> bs; arr_put buf ind b })"

lemma writes_atoms:
  "writes (w_u8 b) (Some [b])"
  "writes (w_i16 n) (Some (enc16 n))"
  "writes (w_u16 n) (Some (enc16 n))"
  "writes (w_i32 m) (Some (enc32 m))"
  "writes (w_u32 m) (Some (enc32 m))"
  "writes (w_f16 x s) (map_option enc16 (f2i16 (fl (x * s))))"
  "writes (w_f32 x s) (map_option enc32 (f2i32 (fl (x * s))))"
  by (auto simp: writes_def w_u8_def w_i16_def w_u16_def w_i32_def w_u32_def w_f16_def w_f32_def
        put_u8_def i16c.put_enc u16c.put_enc i32c.put_enc u32c.put_enc
        buffer_append_float16_def buffer_append_float32_def split: Option.bind_splits)

lemma put_seq_append:
  "put_seq (vs @ ws) buf ind = do { (buf', ind') \<leftarrow> put_seq vs buf ind; put_seq ws buf' ind' }"
  by (induction vs arbitrary: buf ind) (auto split: Option.bind_splits)

text \<open>A chain of writers stores the concatenation of what they store.\<close>

fun cat_all :: "bytes option list \<Rightarrow> bytes option" where
  "cat_all [] = Some []"
| "cat_all (x # xs) = do { a \<leftarrow> x; b \<leftarrow> cat_all xs; Some (a @ b) }"

lemma put_seq_writes:
  "list_all2 writes ws bs \<Longrightarrow> cat_all bs = Some b \<Longrightarrow> put_seq ws buf ind = arr_put buf ind b"
proof (induction ws bs arbitrary: b buf ind rule: list_all2_induct)
  case (Cons w ws x xs)
  then obtain a c where "x = Some a" "cat_all xs = Some c" "b = a @ c"
    by (auto simp: bind_eq_Some_conv)
  with Cons show ?case by (auto simp: writes_def arr_put_append split: Option.bind_splits)
qed simp

text \<open>What the casts return.\<close>

lemma sint_f2i32: "f2i32 x = Some w \<Longrightarrow> sint w = ftrunc x"
  by (auto simp: f2i32_def sint_sbintrunc' signed_take_bit_int_eq_self split: if_splits)

lemma signed_f2i32: "f2i32 x = Some w \<Longrightarrow> (signed w :: real) = of_int (ftrunc x)"
  using sint_f2i32 [of x w] by (metis of_int_sint)

lemma sint_f2i16: "f2i16 x = Some w \<Longrightarrow> sint w = ftrunc x"
  by (auto simp: f2i16_def sint_sbintrunc' signed_take_bit_int_eq_self split: if_splits)

section \<open>Properties\<close>

text \<open>Every integer written with a \<open>buffer_append\<close> function is read back unchanged by the matching
  \<open>buffer_get\<close> function at the same index, both advance the index by the same amount, the bytes
  outside the field keep their values, and the store is undefined exactly when the field passes the
  end of the buffer.\<close>

theorem buffer_int_roundtrip:
  "(case buffer_append_int16 buf n i of
      None \<Rightarrow> length buf < i + 2
    | Some (buf', i') \<Rightarrow> i' = i + 2 \<and> buffer_get_int16 buf' i = Some (n, i') \<and>
        take i buf' = take i buf \<and> drop i' buf' = drop i' buf)
   \<and> (case buffer_append_uint16 buf n i of
      None \<Rightarrow> length buf < i + 2
    | Some (buf', i') \<Rightarrow> i' = i + 2 \<and> buffer_get_uint16 buf' i = Some (n, i') \<and>
        take i buf' = take i buf \<and> drop i' buf' = drop i' buf)
   \<and> (case buffer_append_int32 buf m i of
      None \<Rightarrow> length buf < i + 4
    | Some (buf', i') \<Rightarrow> i' = i + 4 \<and> buffer_get_int32 buf' i = Some (m, i') \<and>
        take i buf' = take i buf \<and> drop i' buf' = drop i' buf)
   \<and> (case buffer_append_uint32 buf m i of
      None \<Rightarrow> length buf < i + 4
    | Some (buf', i') \<Rightarrow> i' = i + 4 \<and> buffer_get_uint32 buf' i = Some (m, i') \<and>
        take i buf' = take i buf \<and> drop i' buf' = drop i' buf)"
  by (intro conjI i16c.put_case u16c.put_case i32c.put_case u32c.put_case)

text \<open>A scaled field read as a \<open>float\<close> and written back: \<open>(int32_t)(((float)k / scale) * scale)\<close>.\<close>

definition requantise :: "real \<Rightarrow> int \<Rightarrow> int" where
  "requantise scale k = ftrunc (fl (fl (fl (of_int k) / scale) * scale))"

lemma requantise_minus: "requantise scale (- k) = - requantise scale k"
  by (simp add: requantise_def f32.rnd_minus ftrunc_minus)

lemma requantise_pos:
  assumes "1 \<le> scale" "scale \<le> 2 ^ 100" "0 < k" "k \<le> 2 ^ 22"
  shows "requantise scale k = k \<or> requantise scale k = k - 1"
proof -
  let ?k = "of_int k :: real" and ?q = "fl (of_int k / scale)"
  have k: "fl ?k = ?k" "1 \<le> ?k" "?k \<le> 2 ^ 22" using assms by (simp_all add: fl_of_int)
  have "2 powr -126 \<le> 1 / (2 ^ 100 :: real)"
    by (simp add: powr_minus powr_realpow [symmetric] divide_simps)
  also have "\<dots> \<le> ?k / scale" using assms by (intro frac_le) auto
  finally have "\<bar>?q - ?k / scale\<bar> \<le> (?k / scale) / 2 ^ 24"
    using fl_rel_error [of "?k / scale"] assms by (simp only: abs_of_nonneg divide_nonneg_pos)
  then have "\<bar>?q - ?k / scale\<bar> * scale \<le> (?k / scale) / 2 ^ 24 * scale"
    using assms by (intro mult_right_mono) auto
  moreover have "(?q - ?k / scale) * scale = ?q * scale - ?k"
    using assms by (simp add: left_diff_distrib)
  then have "\<bar>?q - ?k / scale\<bar> * scale = \<bar>?q * scale - ?k\<bar>"
    using assms by (metis abs_mult abs_of_nonneg order_trans zero_le_one)
  ultimately have z: "\<bar>?q * scale - ?k\<bar> \<le> ?k / 16777216" using assms by simp
  have "\<bar>fl (?q * scale) - ?q * scale\<bar> \<le> \<bar>?q * scale\<bar> / 2 ^ 24"
  proof (rule fl_rel_error)
    have "2 powr -126 \<le> (1/2 :: real)" using powr_mono [of "-126" "-1" "2 :: real"] by (simp add: powr_minus)
    then show "2 powr -126 \<le> \<bar>?q * scale\<bar>" using z k by linarith
  qed
  then have "\<bar>fl (?q * scale) - ?q * scale\<bar> \<le> \<bar>?q * scale\<bar> / 16777216" by simp
  moreover have "?k \<le> 4194304" using k by simp
  ultimately have "\<bar>fl (?q * scale) - ?k\<bar> < 1" using z k(2) by linarith
  then show ?thesis using k(2) unfolding requantise_def k(1) ftrunc_def by (auto; linarith)
qed

text \<open>Reading a field of up to 22 bits with \<open>buffer_get_float32\<close> and writing the value back with
  \<open>buffer_append_float32\<close> at the same scale returns the field or the next integer towards zero: the
  drift of one read-modify-write cycle of a configuration is at most one unit. The cast truncates,
  so the drift does occur.\<close>

theorem buffer_float32_drift:
  assumes "1 \<le> scale" "scale \<le> 2 ^ 100" "\<bar>sint (k :: u32)\<bar> \<le> 2 ^ 22"
    and "buffer_append_int32 buf k i = Some (buf1, i')"
    and "buffer_get_float32 buf1 scale i = Some (x, i'')"
  shows "\<exists>buf2 k'. buffer_append_float32 buf1 x scale i = Some (buf2, i') \<and>
     buffer_get_int32 buf2 i = Some (k', i') \<and>
     (sint k' = sint k \<or> sint k' = sint k - sgn (sint k))"
proof -
  let ?k' = "requantise scale (sint k)"
  have x: "x = fl (fl (of_int (sint k)) / scale)"
    using assms(4,5) i32c.get_put [OF assms(4)] by (simp add: buffer_get_float32_def)
  have r: "?k' = sint k \<or> ?k' = sint k - sgn (sint k)"
  proof (cases "sint k" "0 :: int" rule: linorder_cases)
    case less
    then show ?thesis using requantise_pos [of scale "- sint k"] assms by (auto simp: requantise_minus)
  next
    case equal
    then show ?thesis by (simp add: requantise_def ftrunc_def)
  next
    case greater
    then show ?thesis using requantise_pos [of scale "sint k"] assms by auto
  qed
  then have range: "- (2 ^ 31) \<le> ?k'" "?k' < 2 ^ 31" using assms(3) by (auto simp: sgn_if split: if_splits)
  then have c: "f2i32 (fl (x * scale)) = Some (word_of_int ?k')"
    unfolding x by (simp add: f2i32_def requantise_def)
  have "i + 4 \<le> length buf1" using i32c.put_Some_iff [of buf k i] i32c.put_frame [OF assms(4)] assms(4) by auto
  then obtain buf2 i2 where p: "buffer_append_int32 buf1 (word_of_int ?k') i = Some (buf2, i2)"
    using i32c.put_Some_iff [of buf1 "word_of_int ?k'" i] by auto
  have "i2 = i'" using i32c.get_put [OF p] i32c.get_put [OF assms(4)] by simp
  moreover have "sint (word_of_int ?k' :: u32) = ?k'"
    using range by (simp add: sint_sbintrunc' signed_take_bit_int_eq_self)
  ultimately show ?thesis using r c p i32c.get_put [OF p]
    by (auto simp: buffer_append_float32_def)
qed

theorem buffer_float32_drift_witness:
  "\<exists>buf1 i' x i'' buf2 k'. (1 :: real) \<le> 1000 \<and> (1000 :: real) \<le> 2 ^ 100 \<and> \<bar>sint (251 :: u32)\<bar> \<le> 2 ^ 22 \<and>
     buffer_append_int32 [0, 0, 0, 0] 251 0 = Some (buf1, i') \<and>
     buffer_get_float32 buf1 1000 0 = Some (x, i'') \<and>
     buffer_append_float32 buf1 x 1000 0 = Some (buf2, i') \<and>
     buffer_get_int32 buf2 0 = Some (k', i') \<and>
     (sint k' = sint (251 :: u32) \<or> sint k' = sint (251 :: u32) - sgn (sint (251 :: u32)))"
proof -
  have h: "(1 :: real) \<le> 1000" "(1000 :: real) \<le> 2 ^ 100" "\<bar>sint (251 :: u32)\<bar> \<le> 2 ^ 22" by simp_all
  have a: "buffer_append_int32 [0, 0, 0, 0] 251 0 = Some ([0, 0, 0, 251], 4)"
    by (simp add: buffer_append_int32_def arr_set_def)
  have g: "buffer_get_float32 [0, 0, 0, 251] 1000 0 = Some (fl (fl 251 / 1000), 4)"
    by (simp add: buffer_get_float32_def buffer_get_int32_def arr_get_def)
  show ?thesis using h a g buffer_float32_drift [OF h a g] by blast
qed

lemma fl_eval: "2 powr of_int n \<le> x \<Longrightarrow> x < 2 powr (of_int n + 1) \<Longrightarrow> -126 \<le> n \<Longrightarrow>
    \<bar>x / 2 powr of_int (n - 23) - of_int m\<bar> < 1/2 \<Longrightarrow> fl x = of_int m * 2 powr of_int (n - 23)"
proof -
  assume h: "2 powr of_int n \<le> x" "x < 2 powr (of_int n + 1)" "-126 \<le> n"
    "\<bar>x / 2 powr of_int (n - 23) - of_int m\<bar> < 1/2"
  have "0 < x" using h(1) powr_gt_zero [of 2 "of_int n"] by linarith
  with h have "fl_exp x = n - 23" by (intro fl_exp_eq) auto
  with \<open>0 < x\<close> rne_eq [OF h(4)] show ?thesis by (simp add: fl_def)
qed

text \<open>The drift occurs. The field 251 at scale 1000 reads as the float nearest to 0.251, and writing
  that float back stores 250.\<close>

theorem buffer_float32_drift_occurs:
  "\<exists>x. buffer_get_float32 [0, 0, 0, 251] 1000 0 = Some (x, 4) \<and>
       buffer_append_float32 [0, 0, 0, 251] x 1000 0 = Some ([0, 0, 0, 250], 4)"
proof -
  have p: "2 powr -2 = (1/4 :: real)" "2 powr -25 = (1/33554432 :: real)" "2 powr -16 = (1/65536 :: real)"
    "2 powr -1 = (1/2 :: real)" "2 powr 7 = (128 :: real)" "2 powr 8 = (256 :: real)"
    by (simp_all add: powr_minus)
  have 1: "fl (251 / 1000) = 8422162 / 33554432"
    using fl_eval [of "-2" "251/1000" 8422162] p by simp
  have 2: "fl (8422162 / 33554432 * 1000) = 16449535 / 65536"
    using fl_eval [of 7 "8422162 / 33554432 * 1000" 16449535] p by simp
  have 3: "ftrunc (16449535 / 65536) = 250"
    by (simp add: ftrunc_def floor_eq_iff)
  have "buffer_get_float32 [0, 0, 0, 251] 1000 0 = Some (8422162 / 33554432, 4)"
    by (simp add: buffer_get_float32_def buffer_get_int32_def arr_get_def 1)
  moreover have "buffer_append_float32 [0, 0, 0, 251] (8422162 / 33554432) 1000 0 = Some ([0, 0, 0, 250], 4)"
    unfolding buffer_append_float32_def 2 f2i32_def 3
    by (simp add: buffer_append_int32_def arr_set_def)
  ultimately show ?thesis by blast
qed

end
