(* ===== verification/Packet.thy ===== *)
theory Packet
  imports Crc
begin

text \<open>
  \<open>packet.c\<close>: framing of payloads on the byte streams of UART and USB. The static array
  \<open>handler_states\<close> is a list of records, one per handler; a function pointer is its address, 0 for
  the null pointer, and a call through it is an event of the result, in program order. The receiver is
  the state machine of \<open>packet_process_byte\<close>, one byte per step, reset by the millisecond timer
  \<open>packet_timerfunc\<close>.

  The properties: no interleaving of bytes, timer ticks and sends makes any handler access memory
  outside its buffers; what the sender emits for a payload is delivered as that payload, whatever
  the receiver's buffers held before; every delivered payload was on the stream as a well-formed
  frame with its checksum; silence resynchronises the receiver. The payload length 256 is the
  exception: it is encoded with the one-byte header, whose length byte wraps to 0.
\<close>

section \<open>State\<close>

definition PACKET_RX_TIMEOUT :: u8 where "PACKET_RX_TIMEOUT = 2"
definition PACKET_HANDLERS :: nat where "PACKET_HANDLERS = 2"
definition PACKET_MAX_PL_LEN :: nat where "PACKET_MAX_PL_LEN = 1024"

record packet_state =
  rx_state :: u8
  rx_timeout :: u8
  send_func :: u32
  process_func :: u32
  payload_length :: u32
  rx_buffer :: bytes
  tx_buffer :: bytes
  rx_data_ptr :: u32
  crc_low :: u8
  crc_high :: u8

datatype packet_call = CallSend u32 bytes | CallProcess u32 bytes

text \<open>Static storage is zero at start.\<close>

definition packet_state_zero :: packet_state where
  "packet_state_zero = \<lparr>rx_state = 0, rx_timeout = 0, send_func = 0, process_func = 0,
     payload_length = 0, rx_buffer = replicate PACKET_MAX_PL_LEN 0,
     tx_buffer = replicate (PACKET_MAX_PL_LEN + 6) 0, rx_data_ptr = 0, crc_low = 0, crc_high = 0\<rparr>"

definition handler_states_zero :: "packet_state list" where
  "handler_states_zero = replicate PACKET_HANDLERS packet_state_zero"

section \<open>Operations\<close>

definition packet_init :: "u32 \<Rightarrow> u32 \<Rightarrow> nat \<Rightarrow> packet_state list \<Rightarrow> packet_state list option" where
  "packet_init s_func p_func handler_num hs =
     do { s \<leftarrow> arr_get hs handler_num;
          arr_set hs handler_num (s\<lparr>send_func := s_func, process_func := p_func\<rparr>) }"

text \<open>The frame is assembled in \<open>tx_buffer\<close>; \<open>b_ind\<close> is the index of the next byte.\<close>

definition packet_send_packet ::
  "bytes \<Rightarrow> u32 \<Rightarrow> nat \<Rightarrow> packet_state list \<Rightarrow> (packet_state list \<times> packet_call list) option" where
  "packet_send_packet data len handler_num hs =
     (if unat len > PACKET_MAX_PL_LEN then Some (hs, [])
      else do {
        s \<leftarrow> arr_get hs handler_num;
        (tx, b_ind) \<leftarrow>
          (if len \<le> 256 then arr_put (tx_buffer s) 0 [2, ucast len]
           else arr_put (tx_buffer s) 0 [3, ucast (drop_bit 8 len), ucast (len AND 0xFF)]);
        tx \<leftarrow> memcpy tx b_ind data (unat len);
        crc \<leftarrow> crc16 data (unat len);
        (tx, b_ind) \<leftarrow> arr_put tx (b_ind + unat len) [ucast (drop_bit 8 crc), ucast (crc AND 0xFF), 3];
        hs' \<leftarrow> arr_set hs handler_num (s\<lparr>tx_buffer := tx\<rparr>);
        Some (hs', if send_func s \<noteq> 0 then [CallSend (send_func s) (take b_ind tx)] else []) })"

definition packet_tick :: "packet_state \<Rightarrow> packet_state" where
  "packet_tick s = (if rx_timeout s \<noteq> 0 then s\<lparr>rx_timeout := rx_timeout s - 1\<rparr> else s\<lparr>rx_state := 0\<rparr>)"

definition packet_timerfunc :: "packet_state list \<Rightarrow> packet_state list" where
  "packet_timerfunc hs = map packet_tick hs"

text \<open>The switch of \<open>packet_process_byte\<close> on one handler's state.\<close>

definition packet_rx :: "u8 \<Rightarrow> packet_state \<Rightarrow> (packet_state \<times> packet_call list) option" where
  "packet_rx rx_data s =
     (if rx_state s = 0 then
        (if rx_data = 2 then
           Some (s\<lparr>rx_state := rx_state s + 2, rx_timeout := PACKET_RX_TIMEOUT, rx_data_ptr := 0, payload_length := 0\<rparr>, [])
         else if rx_data = 3 then
           Some (s\<lparr>rx_state := rx_state s + 1, rx_timeout := PACKET_RX_TIMEOUT, rx_data_ptr := 0, payload_length := 0\<rparr>, [])
         else Some (s\<lparr>rx_state := 0\<rparr>, []))
      else if rx_state s = 1 then
        Some (s\<lparr>payload_length := push_bit 8 (ucast rx_data), rx_state := rx_state s + 1, rx_timeout := PACKET_RX_TIMEOUT\<rparr>, [])
      else if rx_state s = 2 then
        (let pl = payload_length s OR ucast rx_data; s = s\<lparr>payload_length := pl\<rparr> in
         if pl > 0 \<and> unat pl \<le> PACKET_MAX_PL_LEN
         then Some (s\<lparr>rx_state := rx_state s + 1, rx_timeout := PACKET_RX_TIMEOUT\<rparr>, [])
         else Some (s\<lparr>rx_state := 0\<rparr>, []))
      else if rx_state s = 3 then
        do { buf \<leftarrow> arr_set (rx_buffer s) (unat (rx_data_ptr s)) rx_data;
             let s = s\<lparr>rx_buffer := buf, rx_data_ptr := rx_data_ptr s + 1\<rparr>;
                 s = (if rx_data_ptr s = payload_length s then s\<lparr>rx_state := rx_state s + 1\<rparr> else s)
             in Some (s\<lparr>rx_timeout := PACKET_RX_TIMEOUT\<rparr>, []) }
      else if rx_state s = 4 then
        Some (s\<lparr>crc_high := rx_data, rx_state := rx_state s + 1, rx_timeout := PACKET_RX_TIMEOUT\<rparr>, [])
      else if rx_state s = 5 then
        Some (s\<lparr>crc_low := rx_data, rx_state := rx_state s + 1, rx_timeout := PACKET_RX_TIMEOUT\<rparr>, [])
      else if rx_state s = 6 then
        do { calls \<leftarrow>
               (if rx_data = 3 then
                  do { crc \<leftarrow> crc16 (rx_buffer s) (unat (payload_length s));
                       Some (if crc = (push_bit 8 (ucast (crc_high s)) OR ucast (crc_low s)) \<and> process_func s \<noteq> 0
                             then [CallProcess (process_func s) (take (unat (payload_length s)) (rx_buffer s))]
                             else []) }
                else Some []);
             Some (s\<lparr>rx_state := 0\<rparr>, calls) }
      else Some (s\<lparr>rx_state := 0\<rparr>, []))"

definition packet_process_byte ::
  "u8 \<Rightarrow> nat \<Rightarrow> packet_state list \<Rightarrow> (packet_state list \<times> packet_call list) option" where
  "packet_process_byte rx_data handler_num hs =
     do { s \<leftarrow> arr_get hs handler_num;
          (s', calls) \<leftarrow> packet_rx rx_data s;
          hs' \<leftarrow> arr_set hs handler_num s';
          Some (hs', calls) }"

section \<open>What may happen to the handlers\<close>

text \<open>Bytes arrive, the timer fires and packets are sent in any order. An operation on a handler number
  outside the array is not offered: every caller passes a constant below \<^term>\<open>PACKET_HANDLERS\<close>.\<close>

datatype packet_event =
  EvInit u32 u32 nat | EvByte u8 nat | EvTick | EvSend bytes u32 nat

fun packet_do :: "packet_event \<Rightarrow> packet_state list \<Rightarrow> (packet_state list \<times> packet_call list) option" where
  "packet_do (EvInit sf pf h) hs = map_option (\<lambda>hs'. (hs', [])) (packet_init sf pf h hs)"
| "packet_do (EvByte b h) hs = packet_process_byte b h hs"
| "packet_do EvTick hs = Some (packet_timerfunc hs, [])"
| "packet_do (EvSend data len h) hs = packet_send_packet data len h hs"

text \<open>The caller's obligation: a handler that exists, a buffer that holds the payload.\<close>

fun packet_call_ok :: "packet_event \<Rightarrow> bool" where
  "packet_call_ok (EvInit sf pf h) = (h < PACKET_HANDLERS)"
| "packet_call_ok (EvByte b h) = (h < PACKET_HANDLERS)"
| "packet_call_ok EvTick = True"
| "packet_call_ok (EvSend data len h) = (h < PACKET_HANDLERS \<and> unat len \<le> length data)"

inductive packet_reach :: "packet_state list \<Rightarrow> bool" where
  zero: "packet_reach handler_states_zero"
| step: "packet_reach hs \<Longrightarrow> packet_call_ok e \<Longrightarrow> packet_do e hs = Some (hs', calls) \<Longrightarrow> packet_reach hs'"

section \<open>Invariant\<close>

definition packet_ok :: "packet_state \<Rightarrow> bool" where
  "packet_ok s \<longleftrightarrow>
     length (rx_buffer s) = PACKET_MAX_PL_LEN \<and> length (tx_buffer s) = PACKET_MAX_PL_LEN + 6 \<and>
     rx_state s \<le> 6 \<and> rx_timeout s \<le> PACKET_RX_TIMEOUT \<and>
     (rx_state s \<in> {1, 2} \<longrightarrow> rx_data_ptr s = 0) \<and>
     (rx_state s = 3 \<longrightarrow> rx_data_ptr s < payload_length s) \<and>
     (rx_state s \<in> {3, 4, 5, 6} \<longrightarrow> 0 < payload_length s \<and> unat (payload_length s) \<le> PACKET_MAX_PL_LEN)"

definition handlers_ok :: "packet_state list \<Rightarrow> bool" where
  "handlers_ok hs \<longleftrightarrow> length hs = PACKET_HANDLERS \<and> list_all packet_ok hs"

lemmas packet_consts = PACKET_RX_TIMEOUT_def PACKET_HANDLERS_def PACKET_MAX_PL_LEN_def

lemma word_succ_less: "(a :: u32) < b \<Longrightarrow> a + 1 \<noteq> b \<Longrightarrow> a + 1 < b"
  by unat_arith

lemma unat_succ_less: "(a :: u32) < b \<Longrightarrow> unat (a + 1) = Suc (unat a)"
  by unat_arith

lemma u8_le_6: "w \<le> (6 :: u8) \<Longrightarrow> w \<in> {0, 1, 2, 3, 4, 5, 6}"
  by simp unat_arith

text \<open>One byte never leaves the buffers and keeps the invariant and the function pointers.\<close>

lemma packet_rx_total:
  assumes "packet_ok s"
  shows "\<exists>s' calls. packet_rx b s = Some (s', calls) \<and> packet_ok s' \<and>
      send_func s' = send_func s \<and> process_func s' = process_func s"
proof -
  have "rx_state s \<in> {0, 1, 2, 3, 4, 5, 6}"
    using assms by (intro u8_le_6) (simp add: packet_ok_def)
  then consider "rx_state s = 0" | "rx_state s = 1" | "rx_state s = 2" | "rx_state s = 3"
    | "rx_state s = 4" | "rx_state s = 5" | "rx_state s = 6" by blast
  then show ?thesis
  proof cases
    case 3
    then show ?thesis using assms by (simp add: packet_rx_def packet_ok_def Let_def)
  next
    case 4
    then have p: "rx_data_ptr s < payload_length s" "unat (payload_length s) \<le> PACKET_MAX_PL_LEN"
      using assms by (simp_all add: packet_ok_def)
    then have "unat (rx_data_ptr s) < PACKET_MAX_PL_LEN" by (simp add: word_less_nat_alt)
    then show ?thesis using assms p 4
      by (simp add: packet_rx_def packet_ok_def Let_def arr_set_def word_succ_less)
  next
    case 7
    then show ?thesis using assms by (simp add: packet_rx_def packet_ok_def crc16_def)
  qed (use assms in \<open>simp_all add: packet_rx_def packet_ok_def\<close>)
qed

lemma packet_rx_ok:
  assumes "packet_ok s"
  obtains s' calls where "packet_rx b s = Some (s', calls)" "packet_ok s'"
    "send_func s' = send_func s" "process_func s' = process_func s"
  using packet_rx_total [OF assms] by blast

lemma packet_tick_ok: "packet_ok s \<Longrightarrow> packet_ok (packet_tick s)"
proof -
  have "x - 1 \<le> PACKET_RX_TIMEOUT" if "x \<le> PACKET_RX_TIMEOUT" "x \<noteq> 0" for x
    using that unfolding PACKET_RX_TIMEOUT_def by unat_arith
  then show "packet_ok s \<Longrightarrow> packet_ok (packet_tick s)"
    by (auto simp: packet_ok_def packet_tick_def)
qed

lemma handlers_ok_nth: "handlers_ok hs \<Longrightarrow> h < PACKET_HANDLERS \<Longrightarrow> h < length hs \<and> packet_ok (hs ! h)"
  by (auto simp: handlers_ok_def list_all_length)

lemma handlers_ok_update: "handlers_ok hs \<Longrightarrow> packet_ok s \<Longrightarrow> handlers_ok (hs[h := s])"
  by (auto simp: handlers_ok_def list_all_iff dest: set_update_subset_insert [THEN subsetD])

lemma handlers_ok_zero: "handlers_ok handler_states_zero"
  by (simp add: handlers_ok_def handler_states_zero_def packet_ok_def packet_state_zero_def packet_consts
      list_all_iff)

text \<open>The bytes \<open>packet_send_packet\<close> puts on the wire for a payload of at most
  \<^term>\<open>PACKET_MAX_PL_LEN\<close> bytes.\<close>

definition frame_head :: "u32 \<Rightarrow> bytes" where
  "frame_head len = (if len \<le> 256 then [2, ucast len] else [3, ucast (drop_bit 8 len), ucast (len AND 0xFF)])"

definition frame_tail :: "bytes \<Rightarrow> bytes" where
  "frame_tail data = (let crc = crc16_from 0 data in [ucast (drop_bit 8 crc), ucast (crc AND 0xFF), 3])"

lemma length_frame_head: "length (frame_head len) = (if len \<le> 256 then 2 else 3)"
  by (simp add: frame_head_def)

lemma packet_send_ok:
  assumes ok: "handlers_ok hs" and h: "h < PACKET_HANDLERS"
    and len: "unat len \<le> PACKET_MAX_PL_LEN" "unat len \<le> length data"
  obtains tx where "packet_send_packet data len h hs =
      Some (hs[h := (hs ! h)\<lparr>tx_buffer := tx\<rparr>],
            if send_func (hs ! h) \<noteq> 0
            then [CallSend (send_func (hs ! h)) (frame_head len @ take (unat len) data @ frame_tail (take (unat len) data))]
            else [])"
    and "length tx = PACKET_MAX_PL_LEN + 6"
proof -
  let ?s = "hs ! h" and ?d = "take (unat len) data" and ?hd = "frame_head len"
  have s: "arr_get hs h = Some ?s" "h < length hs" "length (tx_buffer ?s) = PACKET_MAX_PL_LEN + 6"
    using handlers_ok_nth [OF ok h] by (auto simp: arr_get_def packet_ok_def)
  let ?tx1 = "?hd @ drop (length ?hd) (tx_buffer ?s)"
  have 1: "arr_put (tx_buffer ?s) 0 ?hd = Some (?tx1, length ?hd)"
    using s length_frame_head [of len] by (subst arr_put_fits) (auto simp: packet_consts)
  let ?tx2 = "?hd @ ?d @ drop (length ?hd + unat len) (tx_buffer ?s)"
  have 2: "memcpy ?tx1 (length ?hd) data (unat len) = Some ?tx2"
    using s len length_frame_head [of len] by (auto simp: memcpy_def add.commute)
  have 3: "crc16 data (unat len) = Some (crc16_from 0 ?d)" using len by (simp add: crc16_def)
  let ?tx3 = "?hd @ ?d @ frame_tail ?d @ drop (length ?hd + unat len + 3) (tx_buffer ?s)"
  have 4: "arr_put ?tx2 (length ?hd + unat len) (frame_tail ?d) = Some (?tx3, length ?hd + unat len + 3)"
    using s len length_frame_head [of len]
    by (subst arr_put_fits) (auto simp: frame_tail_def Let_def packet_consts add.commute)
  have 5: "take (length ?hd + unat len + 3) ?tx3 = ?hd @ ?d @ frame_tail ?d"
    using len by (simp add: frame_tail_def Let_def)
  have "packet_send_packet data len h hs = Some (hs[h := ?s\<lparr>tx_buffer := ?tx3\<rparr>],
            if send_func ?s \<noteq> 0 then [CallSend (send_func ?s) (?hd @ ?d @ frame_tail ?d)] else [])"
    unfolding packet_send_packet_def
    using s len 1 2 3 4 5 by (auto simp: frame_head_def frame_tail_def Let_def arr_set_def split: if_splits)
  moreover have "length ?tx3 = PACKET_MAX_PL_LEN + 6"
    using s len length_frame_head [of len] by (auto simp: frame_tail_def Let_def packet_consts)
  ultimately show ?thesis using that by blast
qed

lemma packet_do_total:
  assumes ok: "handlers_ok hs" and call: "packet_call_ok e"
  shows "\<exists>hs' calls. packet_do e hs = Some (hs', calls) \<and> handlers_ok hs'"
proof (cases e)
  case (EvInit sf pf h)
  then show ?thesis using call handlers_ok_nth [OF ok, of h]
    by (auto simp: packet_init_def arr_get_def arr_set_def packet_ok_def intro!: handlers_ok_update [OF ok])
next
  case (EvByte b h)
  with call have h: "h < length hs" "packet_ok (hs ! h)" using handlers_ok_nth [OF ok] by auto
  obtain s' calls where "packet_rx b (hs ! h) = Some (s', calls)" "packet_ok s'"
    by (rule packet_rx_ok [OF h(2)])
  with EvByte h show ?thesis
    by (auto simp: packet_process_byte_def arr_get_def arr_set_def handlers_ok_update [OF ok])
next
  case EvTick
  then show ?thesis using ok
    by (auto simp: packet_timerfunc_def handlers_ok_def list_all_iff packet_tick_ok)
next
  case (EvSend data len h)
  show ?thesis
  proof (cases "unat len > PACKET_MAX_PL_LEN")
    case True
    with EvSend ok show ?thesis by (simp add: packet_send_packet_def)
  next
    case False
    with call EvSend have h: "h < PACKET_HANDLERS" and l: "unat len \<le> PACKET_MAX_PL_LEN" "unat len \<le> length data"
      by auto
    from packet_send_ok [OF ok h l] obtain tx where
      tx: "packet_send_packet data len h hs = Some (hs[h := (hs ! h)\<lparr>tx_buffer := tx\<rparr>],
            if send_func (hs ! h) \<noteq> 0
            then [CallSend (send_func (hs ! h)) (frame_head len @ take (unat len) data @ frame_tail (take (unat len) data))]
            else [])" "length tx = PACKET_MAX_PL_LEN + 6" .
    have "packet_ok ((hs ! h)\<lparr>tx_buffer := tx\<rparr>)"
      using handlers_ok_nth [OF ok h] tx(2) by (simp add: packet_ok_def)
    with EvSend tx(1) show ?thesis by (simp add: handlers_ok_update [OF ok])
  qed
qed

lemma packet_reach_ok: "packet_reach hs \<Longrightarrow> handlers_ok hs"
proof (induction rule: packet_reach.induct)
  case zero
  show ?case by (rule handlers_ok_zero)
next
  case (step hs e hs' calls)
  then show ?case using packet_do_total [of hs e] by auto
qed

text \<open>C2: memory safety and progress of the packet layer. Whatever bytes have arrived, whenever the
  timer fired and whatever was sent before, the next operation is defined: no handler writes or
  reads outside its receive and transmit buffers, and while the receiver stores a payload (its state 3) its length and pointer are within
  \<^term>\<open>PACKET_MAX_PL_LEN\<close>.\<close>

theorem packet_memory_safe:
  assumes "packet_reach hs" "packet_call_ok e"
  shows "\<exists>hs' calls. packet_do e hs = Some (hs', calls) \<and> packet_reach hs' \<and>
     (\<forall>h < PACKET_HANDLERS. rx_state (hs' ! h) = 3 \<longrightarrow>
        rx_data_ptr (hs' ! h) < payload_length (hs' ! h) \<and>
        unat (payload_length (hs' ! h)) \<le> length (rx_buffer (hs' ! h)))"
proof -
  obtain hs' calls where d: "packet_do e hs = Some (hs', calls)" and ok: "handlers_ok hs'"
    using packet_do_total [OF packet_reach_ok [OF assms(1)] assms(2)] by blast
  have "packet_reach hs'" by (rule packet_reach.step [OF assms d])
  moreover have "packet_ok (hs' ! h)" if "h < PACKET_HANDLERS" for h
    using handlers_ok_nth [OF ok that] by simp
  ultimately show ?thesis using d by (auto simp: packet_ok_def)
qed

theorem packet_memory_safe_witness:
  "packet_reach handler_states_zero \<and> packet_call_ok (EvByte 2 0) \<and>
   (\<exists>hs' calls. packet_do (EvByte 2 0) handler_states_zero = Some (hs', calls) \<and> packet_reach hs' \<and>
     (\<forall>h < PACKET_HANDLERS. rx_state (hs' ! h) = 3 \<longrightarrow>
        rx_data_ptr (hs' ! h) < payload_length (hs' ! h) \<and>
        unat (payload_length (hs' ! h)) \<le> length (rx_buffer (hs' ! h))))"
proof -
  have h: "packet_reach handler_states_zero" "packet_call_ok (EvByte 2 0)"
    by (simp_all add: packet_reach.zero PACKET_HANDLERS_def)
  show ?thesis using h packet_memory_safe [OF h] by blast
qed

section \<open>Receiving a byte sequence\<close>

fun packet_rx_bytes :: "bytes \<Rightarrow> packet_state \<Rightarrow> (packet_state \<times> packet_call list) option" where
  "packet_rx_bytes [] s = Some (s, [])"
| "packet_rx_bytes (b # bs) s =
     do { (s', c1) \<leftarrow> packet_rx b s; (s'', c2) \<leftarrow> packet_rx_bytes bs s'; Some (s'', c1 @ c2) }"

lemma packet_rx_bytes_append:
  "packet_rx_bytes (as @ bs) s =
     do { (s', c1) \<leftarrow> packet_rx_bytes as s; (s'', c2) \<leftarrow> packet_rx_bytes bs s'; Some (s'', c1 @ c2) }"
  by (induction as arbitrary: s) (auto split: Option.bind_splits)

text \<open>Feeding bytes one call at a time to a handler is feeding them to its state.\<close>

fun packet_process_bytes :: "bytes \<Rightarrow> nat \<Rightarrow> packet_state list \<Rightarrow> (packet_state list \<times> packet_call list) option" where
  "packet_process_bytes [] h hs = Some (hs, [])"
| "packet_process_bytes (b # bs) h hs =
     do { (hs', c1) \<leftarrow> packet_process_byte b h hs; (hs'', c2) \<leftarrow> packet_process_bytes bs h hs'; Some (hs'', c1 @ c2) }"

lemma packet_process_bytes_rx:
  "h < length hs \<Longrightarrow> packet_rx_bytes bs (hs ! h) = Some (s', calls) \<Longrightarrow>
   packet_process_bytes bs h hs = Some (hs[h := s'], calls)"
proof (induction bs arbitrary: hs calls)
  case (Cons b bs)
  then obtain s1 c1 c2 where "packet_rx b (hs ! h) = Some (s1, c1)"
    and "packet_rx_bytes bs s1 = Some (s', c2)" "calls = c1 @ c2"
    by (auto simp: bind_eq_Some_conv)
  moreover from this Cons.IH [of "hs[h := s1]" c2] Cons.prems(1)
  have "packet_process_bytes bs h (hs[h := s1]) = Some (hs[h := s'], c2)" by simp
  ultimately show ?case using Cons.prems(1)
    by (simp add: packet_process_byte_def arr_get_def arr_set_def)
qed (auto simp: list_update_same_conv)

text \<open>The payload loop: in state 3 the bytes fill the buffer and the last one moves to state 4.\<close>

lemma packet_rx_payload:
  assumes "rx_state s = 3" "unat (rx_data_ptr s) + length ds = unat (payload_length s)" "ds \<noteq> []"
    and "unat (payload_length s) \<le> length (rx_buffer s)"
  shows "\<exists>s'. packet_rx_bytes ds s = Some (s', []) \<and> rx_state s' = 4 \<and>
     payload_length s' = payload_length s \<and> process_func s' = process_func s \<and>
     take (unat (payload_length s)) (rx_buffer s') = take (unat (rx_data_ptr s)) (rx_buffer s) @ ds"
  using assms
proof (induction ds arbitrary: s)
  case (Cons d ds)
  let ?i = "unat (rx_data_ptr s)" and ?n = "unat (payload_length s)"
  let ?s1 = "s\<lparr>rx_buffer := (rx_buffer s)[?i := d], rx_data_ptr := rx_data_ptr s + 1\<rparr>"
  have i: "?i < ?n" "?i < length (rx_buffer s)" using Cons.prems by simp_all
  have succ: "unat (rx_data_ptr s + 1) = Suc ?i"
    using i(1) by (intro unat_succ_less) (simp add: word_less_nat_alt)
  have buf: "take (Suc ?i) ((rx_buffer s)[?i := d]) = take ?i (rx_buffer s) @ [d]"
    using i by (simp add: take_Suc_conv_app_nth)
  show ?case
  proof (cases "ds = []")
    case True
    then have n: "?n = Suc ?i" using Cons.prems by simp
    then have "rx_data_ptr s + 1 = payload_length s" using succ by (simp add: word_unat_eq_iff)
    then have "packet_rx d s = Some (?s1\<lparr>rx_state := 4, rx_timeout := PACKET_RX_TIMEOUT\<rparr>, [])"
      using Cons.prems i by (simp add: packet_rx_def arr_set_def Let_def)
    with True n buf show ?thesis by simp
  next
    case False
    then have "Suc ?i \<noteq> ?n" using Cons.prems by (cases ds) auto
    then have "rx_data_ptr s + 1 \<noteq> payload_length s" using succ by (metis)
    then have r: "packet_rx d s = Some (?s1\<lparr>rx_timeout := PACKET_RX_TIMEOUT\<rparr>, [])"
      using Cons.prems i by (simp add: packet_rx_def arr_set_def Let_def)
    have "\<exists>s'. packet_rx_bytes ds (?s1\<lparr>rx_timeout := PACKET_RX_TIMEOUT\<rparr>) = Some (s', []) \<and> rx_state s' = 4 \<and>
       payload_length s' = payload_length s \<and> process_func s' = process_func s \<and>
       take ?n (rx_buffer s') = take (Suc ?i) ((rx_buffer s)[?i := d]) @ ds"
      using Cons.IH [of "?s1\<lparr>rx_timeout := PACKET_RX_TIMEOUT\<rparr>"] Cons.prems succ False by simp
    with r buf show ?thesis by auto
  qed
qed simp

text \<open>Checksum, stop byte, delivery.\<close>

lemma packet_rx_tail:
  assumes "rx_state s = 4" "take (unat (payload_length s)) (rx_buffer s) = d"
    "unat (payload_length s) \<le> length (rx_buffer s)" "process_func s \<noteq> 0"
  shows "\<exists>s'. packet_rx_bytes (frame_tail d) s = Some (s', [CallProcess (process_func s) d]) \<and> rx_state s' = 0"
  using assms join16
  by (simp add: frame_tail_def Let_def packet_rx_def crc16_def ucast_low_mask)

lemma u32_take_bit_small: "unat (len :: u32) < 2 ^ k \<Longrightarrow> take_bit k len = len"
  by (simp add: word_unat_eq_iff unsigned_take_bit_eq take_bit_nat_eq_self)

lemma ucast_low_byte: "len \<le> 255 \<Longrightarrow> ucast (ucast (len :: u32) :: u8) = len"
  using u32_take_bit_small [of len 8] by (simp add: unsigned_ucast_eq word_le_nat_alt)

lemma len_from_bytes:
  assumes "unat (len :: u32) < 2 ^ 16"
  shows "push_bit 8 (ucast (ucast (drop_bit 8 len) :: u8)) OR ucast (ucast (len AND 0xFF) :: u8) = len"
proof (rule bit_word_eqI)
  fix n
  have top: "bit len n \<longleftrightarrow> n < 16 \<and> bit len n"
    using u32_take_bit_small [OF assms] by (metis bit_take_bit_iff)
  have m: "len AND 0xFF = len AND mask 8" by (simp add: mask_eq_exp_minus_1)
  consider "n < 8" | "8 \<le> n" "n < 16" | "16 \<le> n" by fastforce
  then show "bit (push_bit 8 (ucast (ucast (drop_bit 8 len) :: u8)) OR ucast (ucast (len AND 0xFF) :: u8) :: u32) n
      = bit len n"
    unfolding m using top by cases (auto simp: bit_simps)
qed

lemma packet_rx_head:
  assumes "rx_state s = 0" "0 < unat len" "unat len \<le> PACKET_MAX_PL_LEN" "len \<noteq> 256"
  shows "\<exists>s'. packet_rx_bytes (frame_head len) s = Some (s', []) \<and> rx_state s' = 3 \<and>
     rx_data_ptr s' = 0 \<and> payload_length s' = len \<and> rx_buffer s' = rx_buffer s \<and>
     process_func s' = process_func s"
proof (cases "len \<le> 255")
  case True
  then have "ucast (ucast len :: u8) = len" "len \<le> 256" by (simp_all add: ucast_low_byte) unat_arith
  with assms show ?thesis
    by (simp add: frame_head_def packet_rx_def Let_def word_gt_0 unat_gt_0)
next
  case False
  with assms(4) have "\<not> len \<le> 256" by unat_arith
  moreover have "push_bit 8 (ucast (ucast (drop_bit 8 len) :: u8)) OR ucast (ucast (len AND 0xFF) :: u8) = len"
    using assms by (intro len_from_bytes) (simp add: packet_consts)
  ultimately show ?thesis using assms
    by (simp add: frame_head_def packet_rx_def Let_def word_gt_0 unat_gt_0)
qed

lemma packet_rx_frame:
  assumes "packet_ok s" "rx_state s = 0" "process_func s \<noteq> 0"
    and "0 < length d" "length d \<le> PACKET_MAX_PL_LEN" "length d \<noteq> 256"
  shows "\<exists>s'. packet_rx_bytes (frame_head (of_nat (length d)) @ d @ frame_tail d) s =
       Some (s', [CallProcess (process_func s) d]) \<and> rx_state s' = 0"
proof -
  let ?len = "of_nat (length d) :: u32"
  have len: "unat ?len = length d" using assms(5) by (simp add: packet_consts unat_of_nat take_bit_nat_eq_self)
  have "?len \<noteq> 256"
  proof
    assume "?len = 256"
    then have "unat ?len = unat (256 :: u32)" by (rule arg_cong)
    with len assms(6) show False by simp
  qed
  then obtain s1 where 1: "packet_rx_bytes (frame_head ?len) s = Some (s1, [])" "rx_state s1 = 3"
      "rx_data_ptr s1 = 0" "payload_length s1 = ?len" "rx_buffer s1 = rx_buffer s" "process_func s1 = process_func s"
    using packet_rx_head [of s ?len] assms len by auto
  have b: "length (rx_buffer s1) = PACKET_MAX_PL_LEN" using 1 assms(1) by (simp add: packet_ok_def)
  obtain s2 where 2: "packet_rx_bytes d s1 = Some (s2, [])" "rx_state s2 = 4"
      "payload_length s2 = payload_length s1" "process_func s2 = process_func s1"
      "take (unat (payload_length s1)) (rx_buffer s2) = d"
    using packet_rx_payload [of s1 d] 1 len b assms by auto
  have "length d \<le> length (rx_buffer s2)" using 2(5) 1 len by (metis length_take min.cobounded1)
  then obtain s3 where "packet_rx_bytes (frame_tail d) s2 = Some (s3, [CallProcess (process_func s2) d])" "rx_state s3 = 0"
    using packet_rx_tail [of s2 d] 2 1 len assms(3) by auto
  with 1 2 show ?thesis by (simp add: packet_rx_bytes_append)
qed

lemma packet_link:
  assumes "packet_reach hs" "packet_reach rs" "h < PACKET_HANDLERS" "h' < PACKET_HANDLERS"
    and "send_func (hs ! h) \<noteq> 0" "process_func (rs ! h') \<noteq> 0" "rx_state (rs ! h') = 0"
    and "0 < unat len" "unat len \<le> PACKET_MAX_PL_LEN" "len \<noteq> 256" "unat len \<le> length data"
  shows "\<exists>hs' bs rs'. packet_send_packet data len h hs = Some (hs', [CallSend (send_func (hs ! h)) bs]) \<and>
     packet_process_bytes bs h' rs = Some (rs', [CallProcess (process_func (rs ! h')) (take (unat len) data)]) \<and>
     rx_state (rs' ! h') = 0"
proof -
  let ?d = "take (unat len) data"
  have l: "length ?d = unat len" using assms by simp
  have ne: "length ?d \<noteq> 256"
  proof
    assume "length ?d = 256"
    then have "unat len = unat (256 :: u32)" using l by simp
    then show False using assms(10) by (simp only: word_unat_eq_iff)
  qed
  have r: "h' < length rs" "packet_ok (rs ! h')"
    using handlers_ok_nth [OF packet_reach_ok [OF assms(2)] assms(4)] by simp_all
  obtain s' where s': "packet_rx_bytes (frame_head len @ ?d @ frame_tail ?d) (rs ! h') =
      Some (s', [CallProcess (process_func (rs ! h')) ?d])" "rx_state s' = 0"
    using packet_rx_frame [of "rs ! h'" ?d] r ne l assms by auto
  obtain tx where tx: "packet_send_packet data len h hs = Some (hs[h := (hs ! h)\<lparr>tx_buffer := tx\<rparr>],
      [CallSend (send_func (hs ! h)) (frame_head len @ ?d @ frame_tail ?d)])"
    using packet_send_ok [OF packet_reach_ok [OF assms(1)] assms(3), of len data] assms by auto
  show ?thesis
    using tx packet_process_bytes_rx [OF r(1) s'(1)] s'(2) r(1) by auto
qed

text \<open>C5: round trip. The bytes \<open>packet_send_packet\<close> hands to the send function, for a payload of 1 to
  \<^term>\<open>PACKET_MAX_PL_LEN\<close> bytes other than 256, make any idle receiver call its process function
  exactly once, with the payload, and leave it idle, whatever its buffers held before.\<close>

theorem packet_roundtrip:
  assumes "packet_reach hs" "packet_reach rs" "h < PACKET_HANDLERS" "h' < PACKET_HANDLERS"
    and "send_func (hs ! h) \<noteq> 0" "process_func (rs ! h') \<noteq> 0" "rx_state (rs ! h') = 0"
    and "0 < unat len" "unat len \<le> PACKET_MAX_PL_LEN" "len \<noteq> 256" "unat len \<le> length data"
  shows "\<exists>hs' bs rs'. packet_send_packet data len h hs = Some (hs', [CallSend (send_func (hs ! h)) bs]) \<and>
     packet_process_bytes bs h' rs = Some (rs', [CallProcess (process_func (rs ! h')) (take (unat len) data)]) \<and>
     rx_state (rs' ! h') = 0"
  using assms by (rule packet_link)

text \<open>Handlers set up as the firmware does, for the examples.\<close>

definition handlers_example :: "packet_state list" where
  "handlers_example = handler_states_zero[0 := packet_state_zero\<lparr>send_func := 100, process_func := 200\<rparr>]"

lemma handlers_example_reach: "packet_reach handlers_example"
proof (rule packet_reach.step [OF packet_reach.zero])
  show "packet_call_ok (EvInit 100 200 0)" by (simp add: PACKET_HANDLERS_def)
  show "packet_do (EvInit 100 200 0) handler_states_zero = Some (handlers_example, [])"
    by (simp add: packet_init_def handlers_example_def handler_states_zero_def arr_get_def arr_set_def PACKET_HANDLERS_def)
qed

lemma handlers_example_sel:
  "send_func (handlers_example ! 0) = 100" "process_func (handlers_example ! 0) = 200"
  "rx_state (handlers_example ! 0) = 0"
  by (simp_all add: handlers_example_def handler_states_zero_def packet_state_zero_def PACKET_HANDLERS_def)

theorem packet_roundtrip_witness:
  "\<exists>hs' bs rs'. packet_send_packet [4, 5, 6] 3 0 handlers_example =
       Some (hs', [CallSend 100 bs]) \<and>
     packet_process_bytes bs 0 handlers_example = Some (rs', [CallProcess 200 [4, 5, 6]]) \<and>
     rx_state (rs' ! 0) = 0"
  using packet_roundtrip [of handlers_example handlers_example 0 0 3 "[4, 5, 6]"]
  by (simp add: handlers_example_reach handlers_example_sel packet_consts)

section \<open>The payload length 256\<close>

lemma packet_rx_noise:
  "rx_state s = 0 \<Longrightarrow> 2 \<notin> set bs \<Longrightarrow> 3 \<notin> set bs \<Longrightarrow> packet_rx_bytes bs s = Some (s, [])"
proof (induction bs)
  case (Cons b bs)
  have s: "s\<lparr>rx_state := 0\<rparr> = s" using Cons.prems by (cases s) simp
  have "packet_rx b s = Some (s, [])" using Cons.prems unfolding packet_rx_def by (simp only: s) auto
  with Cons show ?case by simp
qed simp

text \<open>A payload of 256 bytes is not delivered. The sender picks the one-byte header because of
  \<open>len <= 256\<close>, and the length byte wraps to 0, which the receiver rejects: after the header it is
  idle again, and when neither the payload nor its checksum contains a start byte (2 or 3) the whole
  frame makes no call.\<close>

theorem packet_256_lost:
  assumes "packet_reach hs" "packet_reach rs" "h < PACKET_HANDLERS" "h' < PACKET_HANDLERS"
    and "send_func (hs ! h) \<noteq> 0" "rx_state (rs ! h') = 0" "length data = 256"
    and "2 \<notin> set data" "3 \<notin> set data" "2 \<notin> set (enc16 (crc16_from 0 data))" "3 \<notin> set (enc16 (crc16_from 0 data))"
  shows "\<exists>hs' bs rs'. packet_send_packet data 256 h hs = Some (hs', [CallSend (send_func (hs ! h)) bs]) \<and>
     take 2 bs = [2, 0] \<and> packet_process_bytes bs h' rs = Some (rs', [])"
proof -
  let ?s = "rs ! h'" and ?hd = "[2, 0] :: bytes"
  have r: "h' < length rs" using handlers_ok_nth [OF packet_reach_ok [OF assms(2)] assms(4)] by simp
  have hd: "frame_head 256 = ?hd" by (simp add: frame_head_def)
  obtain tx where tx: "packet_send_packet data 256 h hs = Some (hs[h := (hs ! h)\<lparr>tx_buffer := tx\<rparr>],
      [CallSend (send_func (hs ! h)) (?hd @ data @ frame_tail data)])"
    using packet_send_ok [OF packet_reach_ok [OF assms(1)] assms(3), of 256 data] assms hd
    by (auto simp: packet_consts)
  have 1: "\<exists>s1. packet_rx_bytes ?hd ?s = Some (s1, []) \<and> rx_state s1 = 0"
    using assms(6) by (simp add: packet_rx_def Let_def)
  then obtain s1 where s1: "packet_rx_bytes ?hd ?s = Some (s1, [])" "rx_state s1 = 0" by blast
  have tail: "frame_tail data = enc16 (crc16_from 0 data) @ [3]"
    by (simp add: frame_tail_def enc16_def Let_def ucast_low_mask)
  have "\<exists>s2. packet_rx_bytes (?hd @ data @ frame_tail data) ?s = Some (s2, [])"
    unfolding packet_rx_bytes_append [of ?hd] using s1 packet_rx_noise [of s1 data] packet_rx_noise [of s1 "enc16 (crc16_from 0 data)"] assms
    unfolding tail by (simp add: packet_rx_bytes_append packet_rx_def)
  then have "\<exists>s2. packet_process_bytes (?hd @ data @ frame_tail data) h' rs = Some (rs[h' := s2], [])"
    using packet_process_bytes_rx [OF r] by blast
  moreover have "take 2 (?hd @ data @ frame_tail data) = [2, 0]" by simp
  ultimately show ?thesis using tx by blast
qed

lemma crc16_from_zeros: "crc16_from 0 (replicate n 0) = 0"
  by (induction n) (simp_all add: crc16_step_ref crc_ref_step_def)

theorem packet_256_lost_witness:
  "\<exists>hs' bs rs'. packet_send_packet (replicate 256 0) 256 0 handlers_example = Some (hs', [CallSend 100 bs]) \<and>
     take 2 bs = [2, 0] \<and> packet_process_bytes bs 0 handlers_example = Some (rs', [])"
  using packet_256_lost [of handlers_example handlers_example 0 0 "replicate 256 0"]
  by (simp add: handlers_example_reach handlers_example_sel packet_consts crc16_from_zeros enc16_def)

section \<open>Soundness of delivery\<close>

text \<open>One handler sees bytes and ticks in some order.\<close>

datatype rx_event = RxByte u8 | RxTick

fun rx_run :: "rx_event list \<Rightarrow> packet_state \<Rightarrow> (packet_state \<times> packet_call list) option" where
  "rx_run [] s = Some (s, [])"
| "rx_run (RxByte b # es) s =
     do { (s', c1) \<leftarrow> packet_rx b s; (s'', c2) \<leftarrow> rx_run es s'; Some (s'', c1 @ c2) }"
| "rx_run (RxTick # es) s = rx_run es (packet_tick s)"

fun rx_bytes :: "rx_event list \<Rightarrow> bytes" where
  "rx_bytes [] = []"
| "rx_bytes (RxByte b # es) = b # rx_bytes es"
| "rx_bytes (RxTick # es) = rx_bytes es"

text \<open>The two header forms and the length they announce.\<close>

definition is_head :: "bytes \<Rightarrow> u32 \<Rightarrow> bool" where
  "is_head hdr pl \<longleftrightarrow> (\<exists>l. hdr = [2, l] \<and> pl = ucast l) \<or>
     (\<exists>h l. hdr = [3, h, l] \<and> pl = push_bit 8 (ucast h) OR ucast l)"

text \<open>What the receiver's state says about the bytes it has seen.\<close>

definition rx_seen :: "packet_state \<Rightarrow> bytes \<Rightarrow> bool" where
  "rx_seen s bs \<longleftrightarrow>
     (rx_state s = 1 \<longrightarrow> (\<exists>p. bs = p @ [3])) \<and>
     (rx_state s = 2 \<longrightarrow> (\<exists>p. bs = p @ [2] \<and> payload_length s = 0) \<or>
        (\<exists>p h. bs = p @ [3, h] \<and> payload_length s = push_bit 8 (ucast h))) \<and>
     (rx_state s = 3 \<longrightarrow> (\<exists>p hdr. bs = p @ hdr @ take (unat (rx_data_ptr s)) (rx_buffer s) \<and> is_head hdr (payload_length s))) \<and>
     (rx_state s = 4 \<longrightarrow> (\<exists>p hdr. bs = p @ hdr @ take (unat (payload_length s)) (rx_buffer s) \<and> is_head hdr (payload_length s))) \<and>
     (rx_state s = 5 \<longrightarrow> (\<exists>p hdr. bs = p @ hdr @ take (unat (payload_length s)) (rx_buffer s) @ [crc_high s]
        \<and> is_head hdr (payload_length s))) \<and>
     (rx_state s = 6 \<longrightarrow> (\<exists>p hdr. bs = p @ hdr @ take (unat (payload_length s)) (rx_buffer s) @ [crc_high s, crc_low s]
        \<and> is_head hdr (payload_length s)))"

definition framed :: "bytes \<Rightarrow> bytes \<Rightarrow> bool" where
  "framed bs d \<longleftrightarrow> (\<exists>p hdr. bs = p @ hdr @ d @ frame_tail d \<and> is_head hdr (of_nat (length d)) \<and>
     0 < length d \<and> length d \<le> PACKET_MAX_PL_LEN)"

lemma frame_tail_join:
  "crc16_from 0 d = push_bit 8 (ucast h) OR ucast l \<Longrightarrow> frame_tail d = [h, l, 3]"
  by (simp only: frame_tail_def Let_def ucast_low_mask split16)

lemma rx_seen_step:
  assumes ok: "packet_ok s" and seen: "rx_seen s bs" and step: "packet_rx b s = Some (s', calls)"
  shows "rx_seen s' (bs @ [b]) \<and> (\<forall>f d. CallProcess f d \<in> set calls \<longrightarrow> framed (bs @ [b]) d)"
proof -
  have "rx_state s \<in> {0, 1, 2, 3, 4, 5, 6}"
    using ok by (intro u8_le_6) (simp add: packet_ok_def)
  then consider "rx_state s = 0" | "rx_state s = 1" | "rx_state s = 2" | "rx_state s = 3"
    | "rx_state s = 4" | "rx_state s = 5" | "rx_state s = 6" by blast
  then show ?thesis
  proof cases
    case 1
    then show ?thesis using step by (auto simp: packet_rx_def rx_seen_def split: if_splits)
  next
    case 2
    then show ?thesis using seen step by (auto simp: packet_rx_def rx_seen_def)
  next
    case 3
    have ptr: "rx_data_ptr s = 0" using ok 3 by (simp add: packet_ok_def)
    have "\<exists>p hdr. bs @ [b] = p @ hdr \<and> is_head hdr (payload_length s OR ucast b)"
    proof -
      from seen 3 consider p where "bs = p @ [2]" "payload_length s = 0"
        | p h where "bs = p @ [3, h]" "payload_length s = push_bit 8 (ucast h)"
        unfolding rx_seen_def by auto
      then show ?thesis
      proof cases
        case 1
        then show ?thesis by (intro exI [of _ p] exI [of _ "[2, b]"]) (auto simp: is_head_def)
      next
        case 2
        then show ?thesis by (intro exI [of _ p] exI [of _ "[3, h, b]"]) (auto simp: is_head_def)
      qed
    qed
    then obtain p hdr where ph: "bs @ [b] = p @ hdr" "is_head hdr (payload_length s OR ucast b)" by blast
    have "rx_seen s' (bs @ [b]) \<and> calls = []"
    proof (cases "payload_length s OR ucast b > 0 \<and> unat (payload_length s OR ucast b) \<le> PACKET_MAX_PL_LEN")
      case True
      then have "s' = s\<lparr>payload_length := payload_length s OR ucast b, rx_state := 3, rx_timeout := PACKET_RX_TIMEOUT\<rparr>"
        "calls = []" using 3 step by (auto simp: packet_rx_def)
      then show ?thesis unfolding ph(1) using ph(2) ptr by (auto simp: rx_seen_def)
    next
      case False
      then show ?thesis using 3 step by (auto simp: packet_rx_def rx_seen_def)
    qed
    then show ?thesis by simp
  next
    case 4
    then have lt: "rx_data_ptr s < payload_length s" "unat (payload_length s) \<le> length (rx_buffer s)"
      using ok by (simp_all add: packet_ok_def)
    then have i: "unat (rx_data_ptr s) < length (rx_buffer s)" by (simp add: word_less_nat_alt)
    have "take (unat (rx_data_ptr s + 1)) ((rx_buffer s)[unat (rx_data_ptr s) := b]) =
        take (unat (rx_data_ptr s)) (rx_buffer s) @ [b]"
      using i by (simp add: unat_succ_less [OF lt(1)] take_Suc_conv_app_nth)
    then show ?thesis using 4 i step seen
      by (fastforce simp: packet_rx_def rx_seen_def Let_def arr_set_def split: if_splits)
  next
    case 5
    then show ?thesis using seen step by (fastforce simp: packet_rx_def rx_seen_def)
  next
    case 6
    then show ?thesis using seen step by (fastforce simp: packet_rx_def rx_seen_def)
  next
    case 7
    let ?d = "take (unat (payload_length s)) (rx_buffer s)"
    have len: "length ?d = unat (payload_length s)" "0 < unat (payload_length s)" "unat (payload_length s) \<le> PACKET_MAX_PL_LEN"
      using ok 7 by (auto simp: packet_ok_def unat_gt_0)
    from seen 7 obtain p hdr where bs: "bs = p @ hdr @ ?d @ [crc_high s, crc_low s]" "is_head hdr (payload_length s)"
      unfolding rx_seen_def by auto
    have "framed (bs @ [3]) ?d" if "crc16_from 0 ?d = push_bit 8 (ucast (crc_high s)) OR ucast (crc_low s)"
      unfolding framed_def using bs len frame_tail_join [OF that]
      by (intro exI [of _ p] exI [of _ hdr]) simp
    then show ?thesis using 7 step
      by (auto simp: packet_rx_def crc16_def rx_seen_def bind_eq_Some_conv split: if_splits)
  qed
qed

lemma rx_run_framed:
  "packet_ok s \<Longrightarrow> rx_seen s bs \<Longrightarrow> rx_run es s = Some (s', calls) \<Longrightarrow> CallProcess f d \<in> set calls \<Longrightarrow>
   \<exists>p q. bs @ rx_bytes es = p @ q \<and> framed p d"
proof (induction es arbitrary: s bs calls)
  case (Cons e es)
  show ?case
  proof (cases e)
    case (RxByte b)
    with Cons.prems obtain s1 c1 c2 where r: "packet_rx b s = Some (s1, c1)"
      and r2: "rx_run es s1 = Some (s', c2)" and c: "calls = c1 @ c2"
      by (auto simp: bind_eq_Some_conv)
    from packet_rx_total [OF Cons.prems(1), of b] r have ok1: "packet_ok s1" by auto
    from rx_seen_step [OF Cons.prems(1,2) r] have seen1: "rx_seen s1 (bs @ [b])"
      and fr: "CallProcess f d \<in> set c1 \<Longrightarrow> framed (bs @ [b]) d" by auto
    show ?thesis
    proof (cases "CallProcess f d \<in> set c1")
      case True
      with RxByte fr show ?thesis by (intro exI [of _ "bs @ [b]"] exI [of _ "rx_bytes es"]) simp
    next
      case False
      with Cons.prems(4) c have "CallProcess f d \<in> set c2" by simp
      from Cons.IH [OF ok1 seen1 r2 this] RxByte show ?thesis by simp
    qed
  next
    case RxTick
    have "rx_seen (packet_tick s) bs" using Cons.prems(2) by (auto simp: packet_tick_def rx_seen_def)
    from Cons.IH [OF packet_tick_ok [OF Cons.prems(1)] this] Cons.prems RxTick show ?thesis by simp
  qed
qed simp

text \<open>C38: soundness of delivery. If an idle receiver calls its process function with a payload at any
  point of any sequence of bytes and ticks, then that payload was in the byte stream, contiguously,
  between a header that announces its length and its own checksum and the stop byte; its length is
  between 1 and \<^term>\<open>PACKET_MAX_PL_LEN\<close>.\<close>

theorem packet_delivery_sound:
  assumes "packet_reach hs" "h < PACKET_HANDLERS" "rx_state (hs ! h) = 0"
    and "rx_run es (hs ! h) = Some (s', calls)" "CallProcess f d \<in> set calls"
  shows "\<exists>before hdr after. rx_bytes es = before @ hdr @ d @ frame_tail d @ after \<and>
     is_head hdr (of_nat (length d)) \<and> 0 < length d \<and> length d \<le> PACKET_MAX_PL_LEN"
proof -
  have ok: "packet_ok (hs ! h)" using handlers_ok_nth [OF packet_reach_ok [OF assms(1)] assms(2)] by simp
  have "rx_seen (hs ! h) []" using assms(3) by (simp add: rx_seen_def)
  from rx_run_framed [OF ok this assms(4,5)] obtain p hdr q where
    "rx_bytes es = p @ hdr @ d @ frame_tail d @ q" "is_head hdr (of_nat (length d))"
    "0 < length d" "length d \<le> PACKET_MAX_PL_LEN" by (auto simp: framed_def)
  then show ?thesis by blast
qed

definition rx_example :: "rx_event list" where
  "rx_example = [RxByte 9, RxByte 2, RxTick, RxByte 1, RxByte 0, RxByte 0, RxByte 0, RxByte 3]"

theorem packet_delivery_sound_witness:
  "\<exists>s' calls. rx_run rx_example (handlers_example ! 0) = Some (s', calls) \<and> CallProcess 200 [0] \<in> set calls \<and>
     (\<exists>before hdr after. rx_bytes rx_example = before @ hdr @ [0] @ frame_tail [0] @ after \<and>
       is_head hdr (of_nat (length [0 :: u8])) \<and> 0 < length [0 :: u8] \<and> length [0 :: u8] \<le> PACKET_MAX_PL_LEN)"
proof -
  let ?s = "handlers_example ! 0"
  have z: "crc16_step 0 0 = 0" by (simp add: crc16_step_def crc16_tab_def)
  have b: "crc16 ((rx_buffer ?s)[0 := 0]) 1 = Some 0" "take 1 ((rx_buffer ?s)[0 := 0]) = [0]" "0 < length (rx_buffer ?s)"
    using z by (simp_all add: handlers_example_def handler_states_zero_def packet_state_zero_def packet_consts crc16_def take_Suc_conv_app_nth)
  then have r: "\<exists>s'. rx_run rx_example ?s = Some (s', [CallProcess 200 [0]])"
    by (simp add: rx_example_def packet_rx_def packet_tick_def handlers_example_sel arr_set_def Let_def packet_consts)
  then show ?thesis
    using packet_delivery_sound [OF handlers_example_reach, of 0 rx_example _ "[CallProcess 200 [0]]" 200 "[0]"]
    by (fastforce simp: handlers_example_sel PACKET_HANDLERS_def)
qed

section \<open>Resynchronisation\<close>

lemma packet_tick_idle: "rx_state s = 0 \<Longrightarrow> rx_state (packet_tick s) = 0"
  by (simp add: packet_tick_def)

lemma packet_tick3: "rx_timeout s \<le> PACKET_RX_TIMEOUT \<Longrightarrow> rx_state (packet_tick (packet_tick (packet_tick s))) = 0"
proof -
  assume "rx_timeout s \<le> PACKET_RX_TIMEOUT"
  then have "rx_timeout s \<in> {0, 1, 2}" unfolding PACKET_RX_TIMEOUT_def by simp unat_arith
  then consider "rx_timeout s = 0" | "rx_timeout s = 1" | "rx_timeout s = 2" by blast
  then show ?thesis by cases (simp_all add: packet_tick_def)
qed

text \<open>Resynchronisation. Three timer ticks without a byte leave every handler idle, from any
  reachable state (the timeout counter never exceeds \<^term>\<open>PACKET_RX_TIMEOUT\<close>), so that the next
  frame is delivered.\<close>

theorem packet_resync:
  assumes "packet_reach hs" "h < PACKET_HANDLERS"
  shows "rx_state (packet_timerfunc (packet_timerfunc (packet_timerfunc hs)) ! h) = 0"
proof -
  have "h < length hs" "packet_ok (hs ! h)"
    using handlers_ok_nth [OF packet_reach_ok [OF assms(1)] assms(2)] by simp_all
  then show ?thesis using packet_tick3 [of "hs ! h"] by (simp add: packet_timerfunc_def packet_ok_def)
qed

theorem packet_resync_witness:
  "packet_reach handlers_example \<and> (0 :: nat) < PACKET_HANDLERS \<and>
   rx_state (packet_timerfunc (packet_timerfunc (packet_timerfunc handlers_example)) ! 0) = 0"
proof -
  have h: "packet_reach handlers_example" "(0 :: nat) < PACKET_HANDLERS"
    by (simp_all add: handlers_example_reach PACKET_HANDLERS_def)
  show ?thesis using h packet_resync [OF h] by blast
qed

end
