(* ===== verification/Flash.thy ===== *)
theory Flash
  imports Prelude
begin

text \<open>
  The flash memory as the EEPROM emulation and the firmware updater see it: the sector tables of
  \<open>flash_helper.c\<close> and the driver functions \<open>FLASH_ProgramHalfWord\<close>, \<open>FLASH_ProgramByte\<close> and
  \<open>FLASH_EraseSector\<close> of \<open>stm32f4xx_flash.c\<close>, on top of a hardware state.

  The hardware is an environment. Its array is a function from byte addresses to bytes; programming
  can only clear bits (NOR flash), erasing sets a sector to 0xFF. What \<open>FLASH_WaitForLastOperation\<close>
  finds in the status register is not determined by the program: it is read from a list of replies,
  each a status and, for an operation that reports a failure, whether it changed the array
  nevertheless. An exhausted list means that every further operation completes. The ghost field
  \<open>snaps\<close> records the array after each operation that changed it, oldest first: the contents a power
  failure can leave behind.
\<close>

section \<open>Status codes and sectors\<close>

datatype FLASH_Status = FLASH_BUSY | FLASH_ERROR_RD | FLASH_ERROR_PGS | FLASH_ERROR_PGP
  | FLASH_ERROR_PGA | FLASH_ERROR_WRP | FLASH_ERROR_PROGRAM | FLASH_ERROR_OPERATION | FLASH_COMPLETE

fun status_code :: "FLASH_Status \<Rightarrow> u16" where
  "status_code FLASH_BUSY = 1"
| "status_code FLASH_ERROR_RD = 2"
| "status_code FLASH_ERROR_PGS = 3"
| "status_code FLASH_ERROR_PGP = 4"
| "status_code FLASH_ERROR_PGA = 5"
| "status_code FLASH_ERROR_WRP = 6"
| "status_code FLASH_ERROR_PROGRAM = 7"
| "status_code FLASH_ERROR_OPERATION = 8"
| "status_code FLASH_COMPLETE = 9"

definition flash_addr :: "nat list" where
  "flash_addr = [0x08000000, 0x08004000, 0x08008000, 0x0800C000, 0x08010000, 0x08020000,
     0x08040000, 0x08060000, 0x08080000, 0x080A0000, 0x080C0000, 0x080E0000]"

definition flash_sector :: "u16 list" where
  "flash_sector = [0x0000, 0x0008, 0x0010, 0x0018, 0x0020, 0x0028,
     0x0030, 0x0038, 0x0040, 0x0048, 0x0050, 0x0058]"

text \<open>The loop of \<open>flash_helper_get_sector_address\<close>; a null pointer is address 0.\<close>

definition flash_helper_get_sector_address :: "u16 \<Rightarrow> nat" where
  "flash_helper_get_sector_address fsector =
     (case List.find (\<lambda>i. flash_sector ! i = fsector) [0..<12] of Some i \<Rightarrow> flash_addr ! i | None \<Rightarrow> 0)"

text \<open>A sector ends where the next one starts; the last one ends with the 1 MB array.\<close>

definition sector_end :: "u16 \<Rightarrow> nat" where
  "sector_end fsector =
     (case List.find (\<lambda>i. flash_sector ! i = fsector) [0..<12] of
        Some i \<Rightarrow> (if i < 11 then flash_addr ! Suc i else 0x08100000) | None \<Rightarrow> 0)"

section \<open>The array\<close>

type_synonym mem = "nat \<Rightarrow> u8"

definition rd16 :: "mem \<Rightarrow> nat \<Rightarrow> u16" where
  "rd16 m a = push_bit 8 (ucast (m (a + 1))) OR ucast (m a)"

definition prog8 :: "mem \<Rightarrow> nat \<Rightarrow> u8 \<Rightarrow> mem" where
  "prog8 m a d = m(a := m a AND d)"

definition prog16 :: "mem \<Rightarrow> nat \<Rightarrow> u16 \<Rightarrow> mem" where
  "prog16 m a d = prog8 (prog8 m a (ucast d)) (a + 1) (ucast (drop_bit 8 d))"

definition erase_range :: "mem \<Rightarrow> nat \<Rightarrow> nat \<Rightarrow> mem" where
  "erase_range m from to = (\<lambda>a. if from \<le> a \<and> a < to then 0xFF else m a)"

record flash =
  fmem :: mem
  replies :: "(FLASH_Status \<times> bool) list"
  snaps :: "mem list"

section \<open>Driver functions\<close>

definition FLASH_WaitForLastOperation :: "flash \<Rightarrow> (FLASH_Status \<times> bool) \<times> flash" where
  "FLASH_WaitForLastOperation f =
     (case replies f of [] \<Rightarrow> ((FLASH_COMPLETE, True), f) | r # rs \<Rightarrow> (r, f\<lparr>replies := rs\<rparr>))"

text \<open>An operation on the array: wait, start it, wait again. It takes effect if it completes, and if it
  fails with the reply saying so.\<close>

definition flash_operation :: "(mem \<Rightarrow> mem) \<Rightarrow> flash \<Rightarrow> FLASH_Status \<times> flash" where
  "flash_operation g f =
     (let ((s1, _), f1) = FLASH_WaitForLastOperation f in
      if s1 = FLASH_COMPLETE then
        (let ((s2, effect), f2) = FLASH_WaitForLastOperation f1 in
         if s2 = FLASH_COMPLETE \<or> effect
         then (s2, f2\<lparr>fmem := g (fmem f2), snaps := snaps f2 @ [g (fmem f2)]\<rparr>)
         else (s2, f2))
      else (s1, f1))"

definition FLASH_ProgramHalfWord :: "nat \<Rightarrow> u16 \<Rightarrow> flash \<Rightarrow> FLASH_Status \<times> flash" where
  "FLASH_ProgramHalfWord addr data = flash_operation (\<lambda>m. prog16 m addr data)"

definition FLASH_ProgramByte :: "nat \<Rightarrow> u8 \<Rightarrow> flash \<Rightarrow> FLASH_Status \<times> flash" where
  "FLASH_ProgramByte addr data = flash_operation (\<lambda>m. prog8 m addr data)"

definition FLASH_EraseSector :: "u16 \<Rightarrow> flash \<Rightarrow> FLASH_Status \<times> flash" where
  "FLASH_EraseSector sector =
     flash_operation (\<lambda>m. erase_range m (flash_helper_get_sector_address sector) (sector_end sector))"

section \<open>Facts\<close>

lemma status_code_inject [simp]: "status_code s = status_code t \<longleftrightarrow> s = t"
  by (cases s; cases t) simp_all

lemma status_code_complete [simp]: "status_code s = 9 \<longleftrightarrow> s = FLASH_COMPLETE"
  using status_code_inject [of s FLASH_COMPLETE] by simp

lemma status_code_range: "status_code s \<le> 9"
  by (cases s) simp_all

lemma status_code_not_ee [simp]:
  "status_code s \<noteq> 0x80" "status_code s \<noteq> 0xAB" "status_code s \<noteq> 0"
  by (cases s; simp)+

text \<open>The invariant of a flash operation: the array is the last snapshot, and a transformer either was
  applied or not.\<close>

lemma flash_operation_cases:
  obtains (skip) s rs where "flash_operation g f = (s, f\<lparr>replies := rs\<rparr>)" "s \<noteq> FLASH_COMPLETE"
    | (run) s rs where "flash_operation g f =
        (s, f\<lparr>replies := rs, fmem := g (fmem f), snaps := snaps f @ [g (fmem f)]\<rparr>)"
proof -
  consider (a) "replies f = []" | (b) r where "replies f = [r]" | (c) r q rs where "replies f = r # q # rs"
    by (metis list.exhaust)
  then show ?thesis
  proof cases
    case a
    then have "flash_operation g f = (FLASH_COMPLETE, f\<lparr>replies := [], fmem := g (fmem f), snaps := snaps f @ [g (fmem f)]\<rparr>)"
      by (simp add: flash_operation_def FLASH_WaitForLastOperation_def)
    then show ?thesis by (rule run)
  next
    case b
    obtain s e where r: "r = (s, e)" by (cases r)
    show ?thesis
    proof (cases "s = FLASH_COMPLETE")
      case True
      with b r have "flash_operation g f = (FLASH_COMPLETE, f\<lparr>replies := [], fmem := g (fmem f), snaps := snaps f @ [g (fmem f)]\<rparr>)"
        by (simp add: flash_operation_def FLASH_WaitForLastOperation_def)
      then show ?thesis by (rule run)
    next
      case False
      with b r have "flash_operation g f = (s, f\<lparr>replies := []\<rparr>)"
        by (simp add: flash_operation_def FLASH_WaitForLastOperation_def)
      then show ?thesis using False by (rule skip)
    qed
  next
    case c
    obtain s e s' e' where r: "r = (s, e)" "q = (s', e')" by (cases r; cases q)
    show ?thesis
    proof (cases "s = FLASH_COMPLETE")
      case True
      show ?thesis
      proof (cases "s' = FLASH_COMPLETE \<or> e'")
        case True
        with c r \<open>s = _\<close> have "flash_operation g f = (s', f\<lparr>replies := rs, fmem := g (fmem f), snaps := snaps f @ [g (fmem f)]\<rparr>)"
          by (auto simp: flash_operation_def FLASH_WaitForLastOperation_def)
        then show ?thesis by (rule run)
      next
        case False
        with c r \<open>s = _\<close> have "flash_operation g f = (s', f\<lparr>replies := rs\<rparr>)"
          by (auto simp: flash_operation_def FLASH_WaitForLastOperation_def)
        then show ?thesis using False by (intro skip) auto
      qed
    next
      case False
      with c r have "flash_operation g f = (s, f\<lparr>replies := q # rs\<rparr>)"
        by (simp add: flash_operation_def FLASH_WaitForLastOperation_def)
      then show ?thesis using False by (rule skip)
    qed
  qed
qed

lemma flash_operation_no_fault:
  "replies f = [] \<Longrightarrow> flash_operation g f =
     (FLASH_COMPLETE, f\<lparr>fmem := g (fmem f), snaps := snaps f @ [g (fmem f)]\<rparr>)"
  by (simp add: flash_operation_def FLASH_WaitForLastOperation_def)

lemma rd16_split:
  "rd16 m a AND d = push_bit 8 (ucast (m (a + 1) AND ucast (drop_bit 8 d))) OR ucast (m a AND ucast d)"
  by (rule bit_word_eqI) (auto simp: rd16_def bit_simps dest: bit_imp_le_length)

lemma rd16_prog16:
  "even a \<Longrightarrow> even b \<Longrightarrow> rd16 (prog16 m a d) b = (if a = b then rd16 m b AND d else rd16 m b)"
  using rd16_split [of m a d]
  by (auto simp: rd16_def prog16_def prog8_def)

lemma rd16_erase:
  "even lo \<Longrightarrow> even hi \<Longrightarrow> even a \<Longrightarrow>
   rd16 (erase_range m lo hi) a = (if lo \<le> a \<and> a < hi then 0xFFFF else rd16 m a)"
  by (auto simp: rd16_def erase_range_def elim!: evenE)

end
