(* ===== verification/Eeprom.thy ===== *)
theory Eeprom
  imports Flash
begin

text \<open>
  The EEPROM emulation of \<open>eeprom.c\<close>: a log of (data, virtual address) pairs in one of two flash
  sectors, with a page header saying which sector is valid and which receives data. All functions of
  the file are modelled, over the flash of theory Flash, so with failing operations and with the
  contents a power failure leaves.

  Each page is a header and a log of entries (\<open>page_rep\<close>); the operations of the code are shown to
  implement operations on the log under every schedule of flash failures. Two results rest on
  this: a write is read back and leaves the other variables alone, and a power failure at any point
  of a write is repaired by \<open>EE_Init\<close>. The repair itself is not safe against a second power failure.
\<close>

section \<open>Constants and state\<close>

definition PAGE_SIZE :: nat where "PAGE_SIZE = 0x4000"
definition EEPROM_START_ADDRESS :: nat where "EEPROM_START_ADDRESS = 0x08004000"
definition PAGE0_BASE_ADDRESS :: nat where "PAGE0_BASE_ADDRESS = EEPROM_START_ADDRESS + 0x0000"
definition PAGE1_BASE_ADDRESS :: nat where "PAGE1_BASE_ADDRESS = EEPROM_START_ADDRESS + 0x4000"
definition PAGE0_ID :: u16 where "PAGE0_ID = 0x0008"
definition PAGE1_ID :: u16 where "PAGE1_ID = 0x0010"
definition PAGE0 :: u16 where "PAGE0 = 0"
definition PAGE1 :: u16 where "PAGE1 = 1"
definition NO_VALID_PAGE :: u16 where "NO_VALID_PAGE = 0xAB"
definition ERASED :: u16 where "ERASED = 0xFFFF"
definition RECEIVE_DATA :: u16 where "RECEIVE_DATA = 0xEEEE"
definition VALID_PAGE :: u16 where "VALID_PAGE = 0"
definition READ_FROM_VALID_PAGE :: u8 where "READ_FROM_VALID_PAGE = 0"
definition WRITE_IN_VALID_PAGE :: u8 where "WRITE_IN_VALID_PAGE = 1"
definition PAGE_FULL :: u16 where "PAGE_FULL = 0x80"
definition NB_OF_VAR :: nat where "NB_OF_VAR = 160"

text \<open>The status \<open>FLASH_COMPLETE\<close> as the 16-bit value the functions return.\<close>

abbreviation ee_complete :: u16 where "ee_complete \<equiv> status_code FLASH_COMPLETE"

record ee =
  ee_flash :: flash
  DataVar :: u16
  VirtAddVarTab :: "u16 list"

abbreviation ee_mem :: "ee \<Rightarrow> mem" where "ee_mem e \<equiv> fmem (ee_flash e)"

text \<open>A driver call on the flash of the state, its status as the 16-bit value.\<close>

definition on_flash :: "(flash \<Rightarrow> FLASH_Status \<times> flash) \<Rightarrow> ee \<Rightarrow> u16 \<times> ee" where
  "on_flash c e = (let (s, f) = c (ee_flash e) in (status_code s, e\<lparr>ee_flash := f\<rparr>))"

definition rd32 :: "mem \<Rightarrow> nat \<Rightarrow> u32" where
  "rd32 m a = push_bit 16 (ucast (rd16 m (a + 2))) OR ucast (rd16 m a)"

section \<open>Operations\<close>

definition EE_FindValidPage :: "u8 \<Rightarrow> mem \<Rightarrow> u16" where
  "EE_FindValidPage Operation m =
     (let PageStatus0 = rd16 m PAGE0_BASE_ADDRESS; PageStatus1 = rd16 m PAGE1_BASE_ADDRESS in
      if Operation = WRITE_IN_VALID_PAGE then
        (if PageStatus1 = VALID_PAGE then (if PageStatus0 = RECEIVE_DATA then PAGE0 else PAGE1)
         else if PageStatus0 = VALID_PAGE then (if PageStatus1 = RECEIVE_DATA then PAGE1 else PAGE0)
         else NO_VALID_PAGE)
      else if Operation = READ_FROM_VALID_PAGE then
        (if PageStatus0 = VALID_PAGE then PAGE0
         else if PageStatus1 = VALID_PAGE then PAGE1
         else NO_VALID_PAGE)
      else PAGE0)"

text \<open>The start and end addresses the functions compute from a page number.\<close>

definition page_start :: "u16 \<Rightarrow> nat" where
  "page_start ValidPage = EEPROM_START_ADDRESS + unat ValidPage * PAGE_SIZE"

definition page_last :: "u16 \<Rightarrow> nat" where
  "page_last ValidPage = (EEPROM_START_ADDRESS - 2) + (1 + unat ValidPage) * PAGE_SIZE"

function EE_read_loop :: "mem \<Rightarrow> u16 \<Rightarrow> nat \<Rightarrow> nat \<Rightarrow> u16 option" where
  "EE_read_loop m VirtAddress PageStartAddress Address =
     (if Address > PageStartAddress + 2 then
        (if rd16 m Address = VirtAddress then Some (rd16 m (Address - 2))
         else EE_read_loop m VirtAddress PageStartAddress (Address - 4))
      else None)"
  by pat_completeness auto
termination by (relation "measure (\<lambda>(_, _, _, a). a)") auto

declare EE_read_loop.simps [simp del]

text \<open>\<open>EE_ReadVariable\<close>: the status, and the contents of \<open>*Data\<close> afterwards.\<close>

definition EE_ReadVariable :: "u16 \<Rightarrow> u16 \<Rightarrow> mem \<Rightarrow> u16 \<times> u16" where
  "EE_ReadVariable VirtAddress Data m =
     (let ValidPage = EE_FindValidPage READ_FROM_VALID_PAGE m in
      if ValidPage = NO_VALID_PAGE then (NO_VALID_PAGE, Data)
      else case EE_read_loop m VirtAddress (page_start ValidPage) (page_last ValidPage) of
             Some d \<Rightarrow> (0, d) | None \<Rightarrow> (1, Data))"

function EE_write_loop :: "u16 \<Rightarrow> u16 \<Rightarrow> nat \<Rightarrow> nat \<Rightarrow> ee \<Rightarrow> u16 \<times> ee" where
  "EE_write_loop VirtAddress Data PageEndAddress Address e =
     (if Address < PageEndAddress then
        (if rd32 (ee_mem e) Address = 0xFFFFFFFF then
           (let (FlashStatus, e1) = on_flash (FLASH_ProgramHalfWord Address Data) e in
            if FlashStatus \<noteq> ee_complete then (FlashStatus, e1)
            else on_flash (FLASH_ProgramHalfWord (Address + 2) VirtAddress) e1)
         else EE_write_loop VirtAddress Data PageEndAddress (Address + 4) e)
      else (PAGE_FULL, e))"
  by pat_completeness auto
termination by (relation "measure (\<lambda>(_, _, pe, a, _). pe - a)") auto

declare EE_write_loop.simps [simp del]

definition EE_VerifyPageFullWriteVariable :: "u16 \<Rightarrow> u16 \<Rightarrow> ee \<Rightarrow> u16 \<times> ee" where
  "EE_VerifyPageFullWriteVariable VirtAddress Data e =
     (let ValidPage = EE_FindValidPage WRITE_IN_VALID_PAGE (ee_mem e) in
      if ValidPage = NO_VALID_PAGE then (NO_VALID_PAGE, e)
      else EE_write_loop VirtAddress Data (page_last ValidPage) (page_start ValidPage) e)"

definition EE_EraseSectorIfNotEmpty :: "u16 \<Rightarrow> ee \<Rightarrow> u16 \<times> ee" where
  "EE_EraseSectorIfNotEmpty FLASH_Sector e =
     (let addr = flash_helper_get_sector_address FLASH_Sector in
      if \<exists>i<PAGE_SIZE. ee_mem e (addr + i) \<noteq> 0xFF
      then on_flash (FLASH_EraseSector FLASH_Sector) e
      else (ee_complete, e))"

definition EE_Format :: "ee \<Rightarrow> u16 \<times> ee" where
  "EE_Format e =
     (let (s1, e1) = EE_EraseSectorIfNotEmpty PAGE0_ID e in
      if s1 \<noteq> ee_complete then (s1, e1) else
      let (s2, e2) = on_flash (FLASH_ProgramHalfWord PAGE0_BASE_ADDRESS VALID_PAGE) e1 in
      if s2 \<noteq> ee_complete then (s2, e2) else
      EE_EraseSectorIfNotEmpty PAGE1_ID e2)"

text \<open>The body shared by the two transfer loops: read a variable into \<open>DataVar\<close> and, unless it was not
  found, write it to the page that receives data.\<close>

definition EE_transfer_var :: "u16 \<Rightarrow> ee \<Rightarrow> u16 \<times> ee" where
  "EE_transfer_var v e =
     (let (ReadStatus, d) = EE_ReadVariable v (DataVar e) (ee_mem e);
          e1 = e\<lparr>DataVar := d\<rparr> in
      if ReadStatus \<noteq> 1 then EE_VerifyPageFullWriteVariable v d e1 else (ee_complete, e1))"

fun EE_PageTransfer_loop :: "u16 \<Rightarrow> nat list \<Rightarrow> ee \<Rightarrow> u16 \<times> ee" where
  "EE_PageTransfer_loop VirtAddress [] e = (ee_complete, e)"
| "EE_PageTransfer_loop VirtAddress (VarIdx # is) e =
     (if VirtAddVarTab e ! VarIdx \<noteq> VirtAddress then
        (let (EepromStatus, e1) = EE_transfer_var (VirtAddVarTab e ! VarIdx) e in
         if EepromStatus \<noteq> ee_complete then (EepromStatus, e1)
         else EE_PageTransfer_loop VirtAddress is e1)
      else EE_PageTransfer_loop VirtAddress is e)"

definition EE_PageTransfer :: "u16 \<Rightarrow> u16 \<Rightarrow> ee \<Rightarrow> u16 \<times> ee" where
  "EE_PageTransfer VirtAddress Data e =
     (let ValidPage = EE_FindValidPage READ_FROM_VALID_PAGE (ee_mem e) in
      if ValidPage \<noteq> PAGE1 \<and> ValidPage \<noteq> PAGE0 then (NO_VALID_PAGE, e) else
      let NewPageAddress = (if ValidPage = PAGE1 then PAGE0_BASE_ADDRESS else PAGE1_BASE_ADDRESS);
          OldPageId = (if ValidPage = PAGE1 then PAGE1_ID else PAGE0_ID);
          (s1, e1) = on_flash (FLASH_ProgramHalfWord NewPageAddress RECEIVE_DATA) e in
      if s1 \<noteq> ee_complete then (s1, e1) else
      let (s2, e2) = EE_VerifyPageFullWriteVariable VirtAddress Data e1 in
      if s2 \<noteq> ee_complete then (s2, e2) else
      let (s3, e3) = EE_PageTransfer_loop VirtAddress [0..<NB_OF_VAR] e2 in
      if s3 \<noteq> ee_complete then (s3, e3) else
      let (s4, e4) = EE_EraseSectorIfNotEmpty OldPageId e3 in
      if s4 \<noteq> ee_complete then (s4, e4) else
      on_flash (FLASH_ProgramHalfWord NewPageAddress VALID_PAGE) e4)"

definition EE_WriteVariable :: "u16 \<Rightarrow> u16 \<Rightarrow> ee \<Rightarrow> u16 \<times> ee" where
  "EE_WriteVariable VirtAddress Data e =
     (let (Status, e1) = EE_VerifyPageFullWriteVariable VirtAddress Data e in
      if Status = PAGE_FULL then EE_PageTransfer VirtAddress Data e1 else (Status, e1))"

text \<open>The recovery loop of \<open>EE_Init\<close>, with its local \<open>x\<close>: the index of the variable found in the
  first entry of the page that receives data.\<close>

fun EE_Init_loop :: "nat \<Rightarrow> int \<Rightarrow> nat list \<Rightarrow> ee \<Rightarrow> u16 \<times> ee" where
  "EE_Init_loop NewPageAddress x [] e = (ee_complete, e)"
| "EE_Init_loop NewPageAddress x (VarIdx # is) e =
     (let x' = (if rd16 (ee_mem e) (NewPageAddress + 6) = VirtAddVarTab e ! VarIdx
                then int VarIdx else x) in
      if int VarIdx \<noteq> x' then
        (let (EepromStatus, e1) = EE_transfer_var (VirtAddVarTab e ! VarIdx) e in
         if EepromStatus \<noteq> ee_complete then (EepromStatus, e1)
         else EE_Init_loop NewPageAddress x' is e1)
      else EE_Init_loop NewPageAddress x' is e)"

text \<open>The three repairs of \<open>EE_Init\<close>: finish a transfer into the page at \<open>new\<close> out of the page \<open>old_id\<close>;
  mark the page at \<open>new\<close> valid when the other page is already erased.\<close>

definition EE_Init_transfer :: "nat \<Rightarrow> u16 \<Rightarrow> ee \<Rightarrow> u16 \<times> ee" where
  "EE_Init_transfer new old_id e =
     (let (s1, e1) = EE_Init_loop new (- 1) [0..<NB_OF_VAR] e in
      if s1 \<noteq> ee_complete then (s1, e1) else
      let (s2, e2) = on_flash (FLASH_ProgramHalfWord new VALID_PAGE) e1 in
      if s2 \<noteq> ee_complete then (s2, e2) else
      EE_EraseSectorIfNotEmpty old_id e2)"

definition EE_Init_mark :: "nat \<Rightarrow> u16 \<Rightarrow> ee \<Rightarrow> u16 \<times> ee" where
  "EE_Init_mark new old_id e =
     (let (s1, e1) = EE_EraseSectorIfNotEmpty old_id e in
      if s1 \<noteq> ee_complete then (s1, e1) else
      on_flash (FLASH_ProgramHalfWord new VALID_PAGE) e1)"

definition EE_Init :: "ee \<Rightarrow> u16 \<times> ee" where
  "EE_Init e =
     (let PageStatus0 = rd16 (ee_mem e) PAGE0_BASE_ADDRESS;
          PageStatus1 = rd16 (ee_mem e) PAGE1_BASE_ADDRESS in
      if PageStatus0 = ERASED then
        (if PageStatus1 = VALID_PAGE then EE_EraseSectorIfNotEmpty PAGE0_ID e
         else if PageStatus1 = RECEIVE_DATA then EE_Init_mark PAGE1_BASE_ADDRESS PAGE0_ID e
         else EE_Format e)
      else if PageStatus0 = RECEIVE_DATA then
        (if PageStatus1 = VALID_PAGE then EE_Init_transfer PAGE0_BASE_ADDRESS PAGE1_ID e
         else if PageStatus1 = ERASED then EE_Init_mark PAGE0_BASE_ADDRESS PAGE1_ID e
         else EE_Format e)
      else if PageStatus0 = VALID_PAGE then
        (if PageStatus1 = VALID_PAGE then EE_Format e
         else if PageStatus1 = ERASED then EE_EraseSectorIfNotEmpty PAGE1_ID e
         else EE_Init_transfer PAGE1_BASE_ADDRESS PAGE0_ID e)
      else EE_Format e)"

section \<open>Pages as logs\<close>

text \<open>The 16-bit cells of page \<open>p\<close>, and the page as a header and a log of (virtual address, data)
  entries: slot 0 is the header, the log starts at slot 1, and what follows it is erased.\<close>

definition base :: "nat \<Rightarrow> nat" where
  "base p = EEPROM_START_ADDRESS + p * PAGE_SIZE"

definition caddr :: "nat \<Rightarrow> nat \<Rightarrow> nat" where
  "caddr p i = base p + 2 * i"

definition cell :: "mem \<Rightarrow> nat \<Rightarrow> nat \<Rightarrow> u16" where
  "cell m p i = rd16 m (caddr p i)"

definition dcell :: "nat \<Rightarrow> nat" where "dcell k = 2 * k + 2"
definition acell :: "nat \<Rightarrow> nat" where "acell k = 2 * k + 3"

type_synonym page = "u16 \<times> (u16 \<times> u16) list"

definition page_rep :: "mem \<Rightarrow> nat \<Rightarrow> page \<Rightarrow> bool" where
  "page_rep m p pg \<longleftrightarrow> (case pg of (h, es) \<Rightarrow>
     cell m p 0 = h \<and> cell m p 1 = 0xFFFF \<and> length es \<le> 4095 \<and> (0xFFFF, 0xFFFF) \<notin> set es \<and>
     (\<forall>k<4095. (cell m p (acell k), cell m p (dcell k)) =
        (if k < length es then es ! k else (0xFFFF, 0xFFFF))))"

definition log_get :: "(u16 \<times> u16) list \<Rightarrow> u16 \<rightharpoonup> u16" where
  "log_get es = map_of (rev es)"

abbreviation is_page :: "nat \<Rightarrow> bool" where "is_page p \<equiv> p = 0 \<or> p = 1"

lemmas ee_consts = PAGE_SIZE_def EEPROM_START_ADDRESS_def PAGE0_BASE_ADDRESS_def PAGE1_BASE_ADDRESS_def
  PAGE0_ID_def PAGE1_ID_def PAGE0_def PAGE1_def NO_VALID_PAGE_def ERASED_def RECEIVE_DATA_def
  VALID_PAGE_def READ_FROM_VALID_PAGE_def WRITE_IN_VALID_PAGE_def PAGE_FULL_def NB_OF_VAR_def

lemma base_even [simp]: "even (base p)"
  by (simp add: base_def ee_consts)

lemma base_simps: "base 0 = PAGE0_BASE_ADDRESS" "base (Suc 0) = PAGE1_BASE_ADDRESS"
  by (simp_all add: base_def ee_consts)

lemma caddr_even [simp]: "even (caddr p i)"
  by (simp add: caddr_def)

lemma cell_neq [simp]:
  "acell k = acell n \<longleftrightarrow> k = n" "dcell k = dcell n \<longleftrightarrow> k = n"
  "acell k \<noteq> dcell n" "dcell n \<noteq> acell k" "acell k \<noteq> 0" "dcell k \<noteq> 0" "acell k \<noteq> Suc 0" "dcell k \<noteq> Suc 0"
  "0 \<noteq> acell k" "0 \<noteq> dcell k" "Suc 0 \<noteq> acell k" "Suc 0 \<noteq> dcell k"
  unfolding acell_def dcell_def by presburger+

lemma cell_lt [simp]: "k < 4095 \<Longrightarrow> acell k < 8192" "k < 4095 \<Longrightarrow> dcell k < 8192"
  by (simp_all add: acell_def dcell_def)

lemma cell_inj:
  "i < 8192 \<Longrightarrow> j < 8192 \<Longrightarrow> caddr p i = caddr q j \<longleftrightarrow> p = q \<and> i = j"
proof
  assume i: "i < 8192" and j: "j < 8192" and "caddr p i = caddr q j"
  then have *: "p * 8192 + i = q * 8192 + j" by (simp add: caddr_def base_def ee_consts)
  have "p = (p * 8192 + i) div 8192" using i by simp
  also have "\<dots> = q" using j by (simp add: *)
  finally show "p = q \<and> i = j" using * by simp
qed simp

lemma cell_prog16 [simp]:
  "i < 8192 \<Longrightarrow> j < 8192 \<Longrightarrow>
   cell (prog16 m (caddr p i) d) q j = (if p = q \<and> i = j then cell m q j AND d else cell m q j)"
  unfolding cell_def using cell_inj [of i j p q] by (auto simp: rd16_prog16)

definition sector_of :: "nat \<Rightarrow> u16" where
  "sector_of p = (if p = 0 then PAGE0_ID else PAGE1_ID)"

lemma sector_address:
  "is_page p \<Longrightarrow> flash_helper_get_sector_address (sector_of p) = base p"
  "is_page p \<Longrightarrow> sector_end (sector_of p) = base p + 0x4000"
  by (auto simp: sector_of_def ee_consts base_def flash_helper_get_sector_address_def sector_end_def
      flash_sector_def flash_addr_def upt_rec)

lemma cell_erase:
  "is_page p \<Longrightarrow> is_page q \<Longrightarrow> i < 8192 \<Longrightarrow>
   cell (erase_range m (base p) (base p + 0x4000)) q i = (if p = q then 0xFFFF else cell m q i)"
  unfolding cell_def by (subst rd16_erase) (auto simp: caddr_def base_def ee_consts)

lemma rd16_blank: "rd16 m a = 0xFFFF \<longleftrightarrow> m a = 0xFF \<and> m (a + 1) = 0xFF"
proof
  assume *: "rd16 m a = 0xFFFF"
  have "m a = 0xFF"
  proof (rule bit_word_eqI)
    fix n assume "n < LENGTH(8)"
    then have "bit (rd16 m a) n = bit (m a) n"
      by (auto simp: rd16_def bit_simps)
    moreover have "bit (0xFFFF :: u16) n" "bit (0xFF :: u8) n"
      using \<open>n < LENGTH(8)\<close> by (auto simp: less_Suc_eq numeral_eq_Suc)
    ultimately show "bit (m a) n = bit (0xFF :: u8) n" using * by simp
  qed
  moreover have "m (a + 1) = 0xFF"
  proof (rule bit_word_eqI)
    fix n assume "n < LENGTH(8)"
    then have "bit (rd16 m a) (n + 8) = bit (m (a + 1)) n"
      by (auto simp: rd16_def bit_simps dest: bit_imp_le_length)
    moreover have "bit (0xFFFF :: u16) (n + 8)" "bit (0xFF :: u8) n"
      using \<open>n < LENGTH(8)\<close> by (auto simp: less_Suc_eq numeral_eq_Suc)
    ultimately show "bit (m (a + 1)) n = bit (0xFF :: u8) n" using * by simp
  qed
  ultimately show "m a = 0xFF \<and> m (a + 1) = 0xFF" ..
qed (simp add: rd16_def)

lemma rd32_blank: "rd32 m a = 0xFFFFFFFF \<longleftrightarrow> rd16 m a = 0xFFFF \<and> rd16 m (a + 2) = 0xFFFF"
proof
  assume *: "rd32 m a = 0xFFFFFFFF"
  have "rd16 m a = ucast (rd32 m a)" "rd16 m (a + 2) = ucast (drop_bit 16 (rd32 m a))"
    unfolding rd32_def by (rule bit_word_eqI; auto simp: bit_simps dest: bit_imp_le_length)+
  then show "rd16 m a = 0xFFFF \<and> rd16 m (a + 2) = 0xFFFF" using * by simp
qed (simp add: rd32_def)

section \<open>Reading and appending\<close>

lemma log_get_simps [simp]:
  "log_get [] = Map.empty"
  "log_get (es @ [e]) = (log_get es)(fst e \<mapsto> snd e)"
  by (auto simp: log_get_def fun_eq_iff)

lemma log_get_Some: "log_get es v = Some x \<Longrightarrow> (v, x) \<in> set es"
  by (auto simp: log_get_def dest: map_of_SomeD)

lemma log_get_None: "log_get es v = None \<longleftrightarrow> v \<notin> fst ` set es"
  by (auto simp: log_get_def map_of_eq_None_iff)

lemma page_rep_cells:
  assumes "page_rep m p (h, es)" "k < 4095"
  shows "cell m p (acell k) = (if k < length es then fst (es ! k) else 0xFFFF)"
    and "cell m p (dcell k) = (if k < length es then snd (es ! k) else 0xFFFF)"
  using assms by (auto simp: page_rep_def prod_eq_iff split: if_splits)

lemma read_loop_log:
  assumes "page_rep m p (h, es)" "va \<noteq> 0xFFFF" "k \<le> 4095"
  shows "EE_read_loop m va (base p) (base p + 4 * k + 2) = log_get (take k es) va"
  using assms(3)
proof (induction k)
  case 0
  then show ?case by (subst EE_read_loop.simps) simp
next
  case (Suc k)
  have a: "base p + 4 * Suc k + 2 = caddr p (acell k)" "caddr p (acell k) - 2 = caddr p (dcell k)"
    "caddr p (acell k) - 4 = base p + 4 * k + 2" "base p + 2 < caddr p (acell k)"
    by (simp_all add: caddr_def acell_def dcell_def)
  note c = page_rep_cells [OF assms(1), of k, unfolded cell_def]
  have "EE_read_loop m va (base p) (base p + 4 * Suc k + 2) =
      (if rd16 m (caddr p (acell k)) = va then Some (rd16 m (caddr p (dcell k)))
       else EE_read_loop m va (base p) (base p + 4 * k + 2))"
    unfolding a(1) by (subst EE_read_loop.simps) (simp only: a if_True)
  also have "\<dots> = log_get (take (Suc k) es) va"
    using Suc assms(2) by (simp add: c take_Suc_conv_app_nth)
  finally show ?case .
qed

lemma page_addresses:
  "is_page p \<Longrightarrow> page_start (of_nat p) = base p"
  "is_page p \<Longrightarrow> page_last (of_nat p) = base p + 4 * 4095 + 2"
  by (auto simp: page_start_def page_last_def base_def ee_consts)

lemma of_nat_page_neq [simp]: "is_page p \<Longrightarrow> (of_nat p :: u16) \<noteq> NO_VALID_PAGE"
  by (auto simp: ee_consts)

lemma read_variable_log:
  assumes "is_page p" "EE_FindValidPage READ_FROM_VALID_PAGE m = of_nat p" "page_rep m p (h, es)" "va \<noteq> 0xFFFF"
  shows "EE_ReadVariable va d m = (case log_get es va of Some x \<Rightarrow> (0, x) | None \<Rightarrow> (1, d))"
proof -
  have "length es \<le> 4095" using assms(3) by (simp add: page_rep_def)
  then show ?thesis
    using read_loop_log [OF assms(3,4), of 4095] assms(1,2)
    by (simp add: EE_ReadVariable_def page_addresses)
qed

text \<open>Programming the three kinds of cells of a page.\<close>

lemma page_rep_other:
  "page_rep m q pg \<Longrightarrow> p \<noteq> q \<Longrightarrow> i < 8192 \<Longrightarrow> page_rep (prog16 m (caddr p i) d) q pg"
  by (auto simp: page_rep_def)

lemma page_rep_header:
  "page_rep m p (h, es) \<Longrightarrow> page_rep (prog16 m (caddr p 0) v) p (h AND v, es)"
  by (auto simp: page_rep_def)

lemma and_blank [simp]: "0xFFFF AND d = (d :: u16)"
proof -
  have "(0xFFFF :: u16) = - 1" by simp
  then show ?thesis by (simp only: and.left_neutral)
qed

lemma page_rep_data:
  assumes "page_rep m p (h, es)" "length es < 4095"
  shows "page_rep (prog16 m (caddr p (dcell (length es))) d) p
           (h, if d = 0xFFFF then es else es @ [(0xFFFF, d)])"
  using assms page_rep_cells [OF assms(1)]
  by (auto simp: page_rep_def nth_append less_Suc_eq)

lemma page_rep_entry:
  assumes "page_rep m p (h, es)" "length es < 4095" "va \<noteq> 0xFFFF"
  shows "page_rep (prog16 (prog16 m (caddr p (dcell (length es))) d) (caddr p (acell (length es))) va) p
           (h, es @ [(va, d)])"
  using assms page_rep_cells [OF assms(1)]
  by (auto simp: page_rep_def nth_append less_Suc_eq)

lemma page_rep_erased: 
  assumes "is_page p" shows "page_rep (erase_range m (base p) (base p + 0x4000)) p (ERASED, [])"
  using assms cell_erase [of p p] by (auto simp: page_rep_def ee_consts)

lemma page_rep_erase_other:
  assumes "is_page p" "is_page q" "p \<noteq> q" "page_rep m q pg" 
  shows "page_rep (erase_range m (base p) (base p + 0x4000)) q pg"
  using assms cell_erase [OF assms(1,2)] by (auto simp: page_rep_def)

lemma page_rep_blank_bytes:
  assumes "page_rep m p (ERASED, [])" "i < 0x4000"
  shows "m (base p + i) = 0xFF"
proof -
  have c: "cell m p j = 0xFFFF" if j: "j < 8192" for j
  proof -
    consider "j = 0" | "j = 1" | k where "j = dcell k" "k < 4095" | k where "j = acell k" "k < 4095"
    proof -
      assume a: "j = 0 \<Longrightarrow> thesis" "j = 1 \<Longrightarrow> thesis" "\<And>k. j = dcell k \<Longrightarrow> k < 4095 \<Longrightarrow> thesis"
        "\<And>k. j = acell k \<Longrightarrow> k < 4095 \<Longrightarrow> thesis"
      show thesis
      proof (cases "j < 2")
        case False
        let ?k = "j div 2 - 1"
        have "?k < 4095" "j = dcell ?k \<or> j = acell ?k"
          using False j unfolding acell_def dcell_def by presburger+
        then show thesis using a(3) [of ?k] a(4) [of ?k] by blast
      qed (use a in linarith)
    qed
    then show ?thesis
      using assms(1) page_rep_cells [OF assms(1)] by cases (auto simp: page_rep_def ee_consts)
  qed
  have "cell m p (i div 2) = 0xFFFF" using assms(2) by (intro c) simp
  then have "m (base p + 2 * (i div 2)) = 0xFF" "m (base p + 2 * (i div 2) + 1) = 0xFF"
    by (simp_all add: cell_def caddr_def rd16_blank)
  moreover have "i = 2 * (i div 2) \<or> i = 2 * (i div 2) + 1" by presburger
  ultimately show ?thesis by (metis add.assoc)
qed

text \<open>The search for a free slot skips the header and the log.\<close>

lemma write_loop_skip:
  assumes "is_page p" "page_rep (ee_mem e) p (h, es)" "h \<noteq> 0xFFFF" "k \<le> length es"
  shows "EE_write_loop va d (page_last (of_nat p)) (base p + 4 * k) e =
         EE_write_loop va d (page_last (of_nat p)) (base p + 4 * Suc k) e"
proof -
  have "length es \<le> 4095" using assms(2) by (simp add: page_rep_def)
  have nb: "rd32 (ee_mem e) (base p + 4 * k) \<noteq> 0xFFFFFFFF"
  proof (cases k)
    case 0
    then show ?thesis using assms(2,3) by (simp add: rd32_blank page_rep_def cell_def caddr_def)
  next
    case (Suc j)
    have eq: "base p + 4 * k = caddr p (dcell j)" "caddr p (dcell j) + 2 = caddr p (acell j)"
      using Suc by (simp_all add: caddr_def acell_def dcell_def)
    have j: "j < length es" using Suc assms(4) by simp
    then have "es ! j \<noteq> (0xFFFF, 0xFFFF)"
      using assms(2) nth_mem [OF j] by (auto simp: page_rep_def simp del: nth_mem)
    then show ?thesis
      using page_rep_cells [OF assms(2), of j] j \<open>length es \<le> 4095\<close>
      unfolding rd32_blank eq by (auto simp: cell_def prod_eq_iff)
  qed
  have a: "base p + 4 * k + 4 = base p + 4 * Suc k" by simp
  have lt: "base p + 4 * k < page_last (of_nat p)"
    using assms(1,4) \<open>length es \<le> 4095\<close> by (simp add: page_addresses)
  show ?thesis
    using nb lt by (subst EE_write_loop.simps) (simp only: if_True if_False a)
qed

lemma write_loop_free:
  assumes "is_page p" "page_rep (ee_mem e) p (h, es)" "h \<noteq> 0xFFFF" "k \<le> Suc (length es)"
  shows "EE_write_loop va d (page_last (of_nat p)) (base p) e =
         EE_write_loop va d (page_last (of_nat p)) (base p + 4 * k) e"
  using assms(4)
proof (induction k)
  case (Suc k)
  then show ?case using write_loop_skip [OF assms(1-3), of k] by simp
qed simp

section \<open>Runs of the flash\<close>

text \<open>\<open>within I e e'\<close>: a run from \<open>e\<close> to \<open>e'\<close> in which every array content that a power failure could
  leave behind satisfies \<open>I\<close>.\<close>

definition within :: "(mem \<Rightarrow> bool) \<Rightarrow> ee \<Rightarrow> ee \<Rightarrow> bool" where
  "within I e e' \<longleftrightarrow> VirtAddVarTab e' = VirtAddVarTab e \<and>
     (replies (ee_flash e) = [] \<longrightarrow> replies (ee_flash e') = []) \<and>
     (\<exists>ss. snaps (ee_flash e') = snaps (ee_flash e) @ ss \<and> (\<forall>m\<in>set ss. I m) \<and>
           ee_mem e' = last (ee_mem e # ss))"

lemma within_refl [simp]: "within I e e"
  by (auto simp: within_def)

lemma within_DataVar [simp]: "within I e (e'\<lparr>DataVar := d\<rparr>) = within I e e'" "within I (e\<lparr>DataVar := d\<rparr>) e' = within I e e'"
  by (simp_all add: within_def)

lemma within_trans: "within I e e1 \<Longrightarrow> within I e1 e2 \<Longrightarrow> within I e e2"
  unfolding within_def
  by (elim conjE exE, intro conjI, simp, simp, rule_tac x = "ss @ ssa" in exI) (auto simp: last_append)

lemma within_mono: "within I e e' \<Longrightarrow> (\<And>m. I m \<Longrightarrow> J m) \<Longrightarrow> within J e e'"
  unfolding within_def by blast

lemma within_final: "within I e e' \<Longrightarrow> I (ee_mem e) \<Longrightarrow> I (ee_mem e')"
  unfolding within_def by (metis last_ConsL last_ConsR last_in_set)

lemma within_tab: "within I e e' \<Longrightarrow> VirtAddVarTab e' = VirtAddVarTab e"
  by (simp add: within_def)

lemma within_replies: "within I e e' \<Longrightarrow> replies (ee_flash e) = [] \<Longrightarrow> replies (ee_flash e') = []"
  by (simp add: within_def)

lemma within_snaps:
  "within I e e' \<Longrightarrow> m \<in> set (snaps (ee_flash e')) \<Longrightarrow> m \<in> set (snaps (ee_flash e)) \<or> I m"
  by (auto simp: within_def)

lemma on_flash_operation:
  assumes "on_flash (flash_operation g) e = (s, e')"
  obtains (skip) "ee_mem e' = ee_mem e" "within I e e'" "s \<noteq> ee_complete" "s \<noteq> PAGE_FULL" "replies (ee_flash e) \<noteq> []"
    | (run) "ee_mem e' = g (ee_mem e)" "within (\<lambda>m. m = g (ee_mem e)) e e'" "s \<noteq> PAGE_FULL"
        "replies (ee_flash e) = [] \<Longrightarrow> s = ee_complete"
proof (cases rule: flash_operation_cases [of g "ee_flash e"])
  case (skip t rs)
  have "replies (ee_flash e) \<noteq> []"
    using flash_operation_no_fault [of "ee_flash e" g] skip by (metis prod.inject)
  moreover have "e' = e\<lparr>ee_flash := (ee_flash e)\<lparr>replies := rs\<rparr>\<rparr>" "s = status_code t"
    using assms skip(1) by (simp_all add: on_flash_def)
  ultimately show thesis
    using skip(2) by (intro that(1)) (simp_all add: within_def PAGE_FULL_def)
next
  case (run t rs)
  have c: "t = FLASH_COMPLETE \<and> rs = []" if "replies (ee_flash e) = []"
  proof -
    have "(t, (ee_flash e)\<lparr>replies := rs, fmem := g (ee_mem e), snaps := snaps (ee_flash e) @ [g (ee_mem e)]\<rparr>) =
        (FLASH_COMPLETE, (ee_flash e)\<lparr>fmem := g (ee_mem e), snaps := snaps (ee_flash e) @ [g (ee_mem e)]\<rparr>)"
      using flash_operation_no_fault [OF that, of g] run by simp
    from arg_cong [OF this, of "\<lambda>x. (fst x, replies (snd x))"] show ?thesis using that by simp
  qed
  moreover have "e' = e\<lparr>ee_flash := (ee_flash e)\<lparr>replies := rs, fmem := g (ee_mem e), snaps := snaps (ee_flash e) @ [g (ee_mem e)]\<rparr>\<rparr>"
    "s = status_code t"
    using assms run by (simp_all add: on_flash_def)
  ultimately show thesis
    by (intro that(2)) (simp_all add: within_def PAGE_FULL_def)
qed

definition ee_rep :: "mem \<Rightarrow> nat \<Rightarrow> page \<Rightarrow> page \<Rightarrow> bool" where
  "ee_rep m p a b \<longleftrightarrow> is_page p \<and> page_rep m p a \<and> page_rep m (1 - p) b"

lemma ee_rep_swap: "ee_rep m p a b \<Longrightarrow> ee_rep m (1 - p) b a"
  by (auto simp: ee_rep_def)

lemma ee_rep_headers:
  assumes "ee_rep m p (h, es) (h', es')"
  shows "rd16 m PAGE0_BASE_ADDRESS = (if p = 0 then h else h')"
    and "rd16 m PAGE1_BASE_ADDRESS = (if p = 0 then h' else h)"
  using assms by (auto simp: ee_rep_def page_rep_def cell_def caddr_def base_simps)

lemma find_write:
  assumes "ee_rep m p (h, es) (h', es')"
    "h = VALID_PAGE \<and> h' = ERASED \<or> h = RECEIVE_DATA \<and> h' = VALID_PAGE"
  shows "EE_FindValidPage WRITE_IN_VALID_PAGE m = of_nat p"
  using assms ee_rep_headers [OF assms(1)]
  by (auto simp: EE_FindValidPage_def ee_rep_def ee_consts)

lemma find_read:
  assumes "ee_rep m p (h, es) (h', es')" "h = VALID_PAGE" "h' \<noteq> VALID_PAGE"
  shows "EE_FindValidPage READ_FROM_VALID_PAGE m = of_nat p"
  using assms ee_rep_headers [OF assms(1)]
  by (auto simp: EE_FindValidPage_def ee_rep_def ee_consts)

lemma read_log:
  assumes "ee_rep m p (VALID_PAGE, es) (h', es')" "h' \<noteq> VALID_PAGE" "va \<noteq> 0xFFFF"
  shows "EE_ReadVariable va d m = (case log_get es va of Some x \<Rightarrow> (0, x) | None \<Rightarrow> (1, d))"
  using read_variable_log [OF _ find_read [OF assms(1) refl assms(2)]] assms by (auto simp: ee_rep_def)

definition log_steps :: "(u16 \<times> u16) list \<Rightarrow> u16 \<Rightarrow> u16 \<Rightarrow> (u16 \<times> u16) list set" where
  "log_steps es va d = {es, es @ [(0xFFFF, d)], es @ [(va, d)]}"

lemma page_neq: "is_page p \<Longrightarrow> p \<noteq> 1 - p" "is_page p \<Longrightarrow> 1 - p \<noteq> p" "is_page p \<Longrightarrow> is_page (1 - p)"
  "is_page p \<Longrightarrow> 1 - (1 - p) = p"
  by auto

lemma ee_rep_data:
  assumes "ee_rep m p (h, es) b" "length es < 4095"
  shows "ee_rep (prog16 m (caddr p (dcell (length es))) d) p (h, if d = 0xFFFF then es else es @ [(0xFFFF, d)]) b"
  using assms page_rep_data [of m p h es d] page_rep_other [of m "1 - p" b p "dcell (length es)" d] page_neq
  unfolding ee_rep_def by (simp only: cell_lt) blast

lemma ee_rep_entry:
  assumes "ee_rep m p (h, es) b" "length es < 4095" "va \<noteq> 0xFFFF"
  shows "ee_rep (prog16 (prog16 m (caddr p (dcell (length es))) d) (caddr p (acell (length es))) va) p (h, es @ [(va, d)]) b"
  using assms page_rep_entry [of m p h es va d] page_neq(1) [of p]
  unfolding ee_rep_def by (simp add: page_rep_other)

lemma ee_rep_header:
  assumes "ee_rep m p (h, es) b"
  shows "ee_rep (prog16 m (base p) v) p (h AND v, es) b"
proof -
  have "caddr p 0 = base p" by (simp add: caddr_def)
  then show ?thesis
    using assms page_rep_header [of m p h es v] page_rep_other [of m "1 - p" b p 0 v] page_neq(1) [of p]
    unfolding ee_rep_def by simp
qed

lemma ee_rep_erase:
  assumes "ee_rep m p a b"
  shows "ee_rep (erase_range m (base p) (base p + 0x4000)) p (ERASED, []) b"
  using assms page_rep_erased [of p m] page_rep_erase_other [of p "1 - p" m b] page_neq
  unfolding ee_rep_def by blast

section \<open>The operations on logs\<close>

lemma write_var_eq:
  assumes rep: "ee_rep (ee_mem e) p (h, es) b" and len: "length es < 4095" and h: "h \<noteq> 0xFFFF"
    and find: "EE_FindValidPage WRITE_IN_VALID_PAGE (ee_mem e) = of_nat p"
  shows "EE_VerifyPageFullWriteVariable va d e =
      (let (FlashStatus, e1) = on_flash (FLASH_ProgramHalfWord (caddr p (dcell (length es))) d) e in
       if FlashStatus \<noteq> ee_complete then (FlashStatus, e1)
       else on_flash (FLASH_ProgramHalfWord (caddr p (acell (length es))) va) e1)"
proof -
  let ?d = "caddr p (dcell (length es))" let ?a = "caddr p (acell (length es))"
  have p: "is_page p" and pr: "page_rep (ee_mem e) p (h, es)" using rep by (auto simp: ee_rep_def)
  have addr: "base p + 4 * Suc (length es) = ?d" "?d + 2 = ?a" "?d < page_last (of_nat p)"
    using len p by (simp_all add: page_addresses caddr_def acell_def dcell_def)
  have blank: "rd32 (ee_mem e) ?d = 0xFFFFFFFF"
    using page_rep_cells [OF pr, of "length es"] len by (simp only: rd32_blank addr cell_def) simp
  show ?thesis
    using find p write_loop_free [OF p pr h, of "Suc (length es)"]
    by (simp only: EE_VerifyPageFullWriteVariable_def Let_def of_nat_page_neq if_False page_addresses(1) addr order_refl)
      (subst EE_write_loop.simps, simp only: addr blank if_True Let_def refl)
qed

lemma write_var_log:
  assumes rep: "ee_rep (ee_mem e) p (h, es) b" and len: "length es < 4095"
    and h: "h \<noteq> 0xFFFF" and va: "va \<noteq> 0xFFFF"
    and find: "EE_FindValidPage WRITE_IN_VALID_PAGE (ee_mem e) = of_nat p"
    and run: "EE_VerifyPageFullWriteVariable va d e = (s, e')"
  shows "within (\<lambda>m. \<exists>es'\<in>log_steps es va d. ee_rep m p (h, es') b) e e'" (is ?W)
    and "s = ee_complete \<Longrightarrow> ee_rep (ee_mem e') p (h, es @ [(va, d)]) b"
    and "replies (ee_flash e) = [] \<Longrightarrow> s = ee_complete" and "s \<noteq> PAGE_FULL"
proof -
  let ?I = "\<lambda>m. \<exists>es'\<in>log_steps es va d. ee_rep m p (h, es') b"
  let ?d = "caddr p (dcell (length es))" let ?a = "caddr p (acell (length es))"
  note eq = write_var_eq [OF rep len h find, of va d]
  obtain s1 e1 where 1: "on_flash (FLASH_ProgramHalfWord ?d d) e = (s1, e1)" by (cases "on_flash (FLASH_ProgramHalfWord ?d d) e")
  have I1: "?I (prog16 (ee_mem e) ?d d)" 
    using ee_rep_data [OF rep len, of d] by (auto simp: log_steps_def split: if_splits)
  have I2: "ee_rep (prog16 (prog16 (ee_mem e) ?d d) ?a va) p (h, es @ [(va, d)]) b"
    by (rule ee_rep_entry [OF rep len va])
  have "?W \<and> (s = ee_complete \<longrightarrow> ee_rep (ee_mem e') p (h, es @ [(va, d)]) b)
      \<and> (replies (ee_flash e) = [] \<longrightarrow> s = ee_complete) \<and> s \<noteq> PAGE_FULL"
    using 1 unfolding FLASH_ProgramHalfWord_def
  proof (cases rule: on_flash_operation [where I = ?I])
    case skip
    with run 1 eq show ?thesis by auto
  next
    case r1: run
    have w1: "within ?I e e1" using r1(2) I1 by (auto intro: within_mono)
    show ?thesis
    proof (cases "s1 = ee_complete")
      case True
      with run 1 eq have 2: "on_flash (FLASH_ProgramHalfWord ?a va) e1 = (s, e')" by simp
      from 2 show ?thesis unfolding FLASH_ProgramHalfWord_def
      proof (cases rule: on_flash_operation [where I = ?I])
        case skip
        then show ?thesis using w1 within_trans [OF w1] within_replies [OF w1] by auto
      next
        case r2: run
        have m2: "ee_mem e' = prog16 (prog16 (ee_mem e) ?d d) ?a va" using r1 r2 by simp
        have "within ?I e1 e'" using r2(2) I2 unfolding r1(1) by (auto intro: within_mono simp: log_steps_def)
        then show ?thesis using I2 r2 within_trans [OF w1] within_replies [OF w1] by (simp add: m2)
      qed
    next
      case False
      with run 1 eq r1 w1 show ?thesis by auto
    qed
  qed
  then show ?W and "s = ee_complete \<Longrightarrow> ee_rep (ee_mem e') p (h, es @ [(va, d)]) b"
    and "replies (ee_flash e) = [] \<Longrightarrow> s = ee_complete" and "s \<noteq> PAGE_FULL" by blast+
qed

lemma write_var_full:
  assumes rep: "ee_rep (ee_mem e) p (h, es) b" and len: "length es = 4095" and h: "h \<noteq> 0xFFFF"
    and find: "EE_FindValidPage WRITE_IN_VALID_PAGE (ee_mem e) = of_nat p"
  shows "EE_VerifyPageFullWriteVariable va d e = (PAGE_FULL, e)"
proof -
  have p: "is_page p" and pr: "page_rep (ee_mem e) p (h, es)" using rep by (auto simp: ee_rep_def)
  show ?thesis
    using find p write_loop_free [OF p pr h, of "Suc (length es)"] len
    by (simp only: EE_VerifyPageFullWriteVariable_def Let_def of_nat_page_neq if_False page_addresses order_refl)
      (subst EE_write_loop.simps, simp)
qed

section \<open>Transfers between pages\<close>

text \<open>The page \<open>p\<close> receives the variables of a log \<open>es\<close>, aiming at the store \<open>F\<close>: all of its entries agree
  with \<open>F\<close>, which differs from the store of \<open>es\<close> in the variable of the first entry at most. The
  entries are at most \<open>n\<close> and of variables of \<open>S\<close>, those of the variables \<open>D\<close> are there, and \<open>A\<close> fixes
  the first one.\<close>

definition recv :: "(u16 \<rightharpoonup> u16) \<Rightarrow> (u16 \<times> u16) list \<Rightarrow> (u16 \<times> u16) list \<Rightarrow> bool" where
  "recv F es ns \<longleftrightarrow> (\<forall>(v, x)\<in>set ns. v \<noteq> 0xFFFF \<longrightarrow> F v = Some x) \<and>
     (\<forall>v. F v \<noteq> log_get es v \<longrightarrow> ns \<noteq> [] \<and> fst (hd ns) = v)"

definition xfer :: "u16 set \<Rightarrow> u16 option \<Rightarrow> nat \<Rightarrow> (u16 \<rightharpoonup> u16) \<Rightarrow> (u16 \<times> u16) list \<Rightarrow> nat \<Rightarrow> u16 set \<Rightarrow> mem \<Rightarrow> bool" where
  "xfer S A p F es n D m \<longleftrightarrow> (\<exists>ns. ee_rep m p (RECEIVE_DATA, ns) (VALID_PAGE, es) \<and> recv F es ns \<and>
     length ns \<le> n \<and> (\<forall>a. A = Some a \<longrightarrow> ns \<noteq> [] \<and> fst (hd ns) = a) \<and> (\<forall>e\<in>set ns. fst e \<in> insert 0xFFFF S) \<and>
     (\<forall>v\<in>D. F v \<noteq> None \<longrightarrow> v \<in> fst ` set ns))"

lemma xferE:
  assumes "xfer S A p F es n D m"
  obtains ns where "ee_rep m p (RECEIVE_DATA, ns) (VALID_PAGE, es)" "recv F es ns"
    "\<forall>v\<in>D. F v \<noteq> None \<longrightarrow> v \<in> fst ` set ns" "\<forall>e\<in>set ns. fst e \<in> insert 0xFFFF S" "length ns \<le> n"
    "\<forall>a. A = Some a \<longrightarrow> ns \<noteq> [] \<and> fst (hd ns) = a"
  using assms unfolding xfer_def by (elim exE conjE)

lemma recv_snoc:
  "recv F es ns \<Longrightarrow> v \<noteq> 0xFFFF \<longrightarrow> F v = Some x \<Longrightarrow> recv F es (ns @ [(v, x)])"
  by (auto simp: recv_def hd_append)

lemma recv_log_get:
  assumes "recv F es ns" "v \<noteq> 0xFFFF" "F v \<noteq> None \<longrightarrow> v \<in> fst ` set ns"
  shows "log_get ns v = F v"
proof (cases "log_get ns v")
  case None
  then show ?thesis using assms(3) by (auto simp: log_get_None)
next
  case (Some x)
  then show ?thesis using assms(1,2) log_get_Some [OF Some] by (auto simp: recv_def)
qed

lemma xfer_mono: "xfer S A p F es n D m \<Longrightarrow> n \<le> n' \<Longrightarrow> D' \<subseteq> D \<Longrightarrow> xfer S A p F es n' D' m"
  unfolding xfer_def by (elim exE, rule_tac x = ns in exI) auto

lemma first_cell:
  assumes "ee_rep m p (h, ns) b"
  shows "rd16 m (base p + 6) = (if ns = [] then 0xFFFF else fst (hd ns))"
  using assms page_rep_cells(1) [of m p h ns 0]
  by (auto simp: ee_rep_def cell_def caddr_def acell_def hd_conv_nth)

lemma xfer_skip:
  assumes "xfer S A p F es n D m" "rd16 m (base p + 6) = v" "v \<noteq> 0xFFFF"
  shows "xfer S A p F es n (insert v D) m"
proof -
  obtain ns where ns: "ee_rep m p (RECEIVE_DATA, ns) (VALID_PAGE, es)" "recv F es ns" "length ns \<le> n"
    "\<forall>a. A = Some a \<longrightarrow> ns \<noteq> [] \<and> fst (hd ns) = a" "\<forall>v\<in>D. F v \<noteq> None \<longrightarrow> v \<in> fst ` set ns"
    "\<forall>e\<in>set ns. fst e \<in> insert 0xFFFF S"
    using assms(1) unfolding xfer_def by blast
  then have "ns \<noteq> []" "fst (hd ns) = v"
    using first_cell [OF ns(1)] assms by (auto split: if_splits)
  then have "v \<in> fst ` set ns" by force
  with ns show ?thesis unfolding xfer_def by (intro exI [of _ ns]) simp
qed

lemma transfer_var_xfer:
  assumes x: "xfer S A p F es n D (ee_mem e)" and n: "n < 4095" and v: "v \<noteq> 0xFFFF"
    and ns: "rd16 (ee_mem e) (base p + 6) \<noteq> v" and S: "v \<in> S"
    and run: "EE_transfer_var v e = (s, e')"
  shows "within (xfer S A p F es (Suc n) D) e e'"
    and "s = ee_complete \<Longrightarrow> xfer S A p F es (Suc n) (insert v D) (ee_mem e')"
    and "replies (ee_flash e) = [] \<Longrightarrow> s = ee_complete"
proof -
  note hd = ns
  from x obtain ns where ns: "ee_rep (ee_mem e) p (RECEIVE_DATA, ns) (VALID_PAGE, es)" "recv F es ns"
    "\<forall>v\<in>D. F v \<noteq> None \<longrightarrow> v \<in> fst ` set ns" "\<forall>e\<in>set ns. fst e \<in> insert 0xFFFF S" "length ns \<le> n"
    "\<forall>a. A = Some a \<longrightarrow> ns \<noteq> [] \<and> fst (hd ns) = a"
    by (rule xferE)
  have "ns \<noteq> [] \<longrightarrow> fst (hd ns) \<noteq> v" using hd first_cell [OF ns(1)] by auto
  then have F: "F v = log_get es v" using ns(2) by (auto simp: recv_def)
  have p: "is_page p" using ns(1) by (simp add: ee_rep_def)
  have rd: "EE_ReadVariable v (DataVar e) (ee_mem e) = (case log_get es v of Some x \<Rightarrow> (0, x) | None \<Rightarrow> (1, DataVar e))"
    using ee_rep_swap [OF ns(1)] by (rule read_log) (simp_all add: v ee_consts)
  have "within (xfer S A p F es (Suc n) D) e e' \<and> (s = ee_complete \<longrightarrow> xfer S A p F es (Suc n) (insert v D) (ee_mem e'))
      \<and> (replies (ee_flash e) = [] \<longrightarrow> s = ee_complete)"
  proof (cases "log_get es v")
    case None
    then have "e' = e\<lparr>DataVar := DataVar e\<rparr>" "s = ee_complete" using run rd by (auto simp: EE_transfer_var_def)
    then show ?thesis using ns F None unfolding xfer_def by (auto intro!: exI [of _ ns])
  next
    case (Some d)
    let ?e = "e\<lparr>DataVar := d\<rparr>"
    have w: "EE_VerifyPageFullWriteVariable v d ?e = (s, e')"
      using run rd Some by (simp add: EE_transfer_var_def)
    note W = write_var_log [OF _ _ _ v _ w, of p RECEIVE_DATA ns "(VALID_PAGE, es)"]
    have ok: "EE_FindValidPage WRITE_IN_VALID_PAGE (ee_mem ?e) = of_nat p" using find_write [OF ns(1)] by simp
    have st: "xfer S A p F es (Suc n) D m"
      if "ns' \<in> log_steps ns v d" "ee_rep m p (RECEIVE_DATA, ns') (VALID_PAGE, es)" for m ns'
      using that ns F Some S unfolding xfer_def log_steps_def
      by (intro exI [of _ ns']) (auto simp: hd_append intro: recv_snoc)
    have fin: "xfer S A p F es (Suc n) (insert v D) m"
      if "ee_rep m p (RECEIVE_DATA, ns @ [(v, d)]) (VALID_PAGE, es)" for m
      using that ns F Some S unfolding xfer_def
      by (intro exI [of _ "ns @ [(v, d)]"]) (auto simp: hd_append intro: recv_snoc)
    have "within (\<lambda>m. \<exists>ns'\<in>log_steps ns v d. ee_rep m p (RECEIVE_DATA, ns') (VALID_PAGE, es)) ?e e'"
      using ns ok n by (intro W(1)) (auto simp: ee_consts)
    then have "within (xfer S A p F es (Suc n) D) ?e e'" by (rule within_mono) (auto intro: st)
    moreover have "s = ee_complete \<Longrightarrow> xfer S A p F es (Suc n) (insert v D) (ee_mem e')"
      using ns ok n by (intro fin W(2)) (auto simp: ee_consts)
    moreover have "replies (ee_flash ?e) = [] \<Longrightarrow> s = ee_complete"
      using ns ok n by (intro W(3)) (auto simp: ee_consts)
    ultimately show ?thesis by simp
  qed
  then show "within (xfer S A p F es (Suc n) D) e e'"
    and "s = ee_complete \<Longrightarrow> xfer S A p F es (Suc n) (insert v D) (ee_mem e')"
    and "replies (ee_flash e) = [] \<Longrightarrow> s = ee_complete" by blast+
qed

lemma page_transfer_loop:
  assumes "xfer S (Some va) p F es n D (ee_mem e)" "n + length is \<le> 4095"
    and "0xFFFF \<notin> (\<lambda>i. VirtAddVarTab e ! i) ` set is" "(\<lambda>i. VirtAddVarTab e ! i) ` set is \<subseteq> S"
    and "EE_PageTransfer_loop va is e = (s, e')"
  shows "within (xfer S (Some va) p F es (n + length is) D) e e' \<and>
    (s = ee_complete \<longrightarrow> xfer S (Some va) p F es (n + length is) (D \<union> (\<lambda>i. VirtAddVarTab e ! i) ` set is) (ee_mem e')) \<and>
    (replies (ee_flash e) = [] \<longrightarrow> s = ee_complete)"
  using assms
proof (induction "is" arbitrary: e n D)
  case (Cons i "is")
  let ?v = "VirtAddVarTab e ! i" and ?X = "xfer S (Some va) p F es (n + length (i # is))"
  have va: "rd16 (ee_mem e) (base p + 6) = va"
    using Cons.prems(1) first_cell unfolding xfer_def by fastforce
  show ?case
  proof (cases "?v = va")
    case True
    then have "xfer S (Some va) p F es n (insert ?v D) (ee_mem e)"
      using Cons.prems(1,3) va by (intro xfer_skip) auto
    from Cons.IH [OF this] Cons.prems True show ?thesis
      by (auto elim!: within_mono xfer_mono)
  next
    case False
    obtain s1 e1 where 1: "EE_transfer_var ?v e = (s1, e1)" by (cases "EE_transfer_var ?v e")
    note T = transfer_var_xfer [OF Cons.prems(1) _ _ _ _ 1]
    have w1: "within (xfer S (Some va) p F es (Suc n) D) e e1"
      using Cons.prems False va by (intro T(1)) auto
    then have w1': "within (?X D) e e1" by (rule within_mono) (auto elim: xfer_mono)
    have r1: "replies (ee_flash e) = [] \<Longrightarrow> s1 = ee_complete"
      using Cons.prems False va by (intro T(3)) auto
    show ?thesis
    proof (cases "s1 = ee_complete")
      case True
      then have "xfer S (Some va) p F es (Suc n) (insert ?v D) (ee_mem e1)"
        using Cons.prems False va by (intro T(2)) auto
      from Cons.IH [OF this] Cons.prems True False 1 within_tab [OF w1]
      have I: "within (?X (insert ?v D)) e1 e'"
        "s = ee_complete \<longrightarrow> ?X (insert ?v D \<union> (\<lambda>i. VirtAddVarTab e ! i) ` set is) (ee_mem e')"
        "replies (ee_flash e1) = [] \<longrightarrow> s = ee_complete" by auto
      have "within (?X D) e1 e'" using I(1) by (rule within_mono) (auto elim: xfer_mono)
      then show ?thesis using I(2,3) within_trans [OF w1'] within_replies [OF w1] by auto
    next
      case False
      then show ?thesis using Cons.prems(5) \<open>?v \<noteq> va\<close> 1 w1' r1 by auto
    qed
  qed
qed auto

lemma init_loop:
  assumes "xfer S A p F es n D (ee_mem e)" "n + length is \<le> 4095"
    and "0xFFFF \<notin> (\<lambda>i. VirtAddVarTab e ! i) ` set is" "(\<lambda>i. VirtAddVarTab e ! i) ` set is \<subseteq> S"
    and "\<forall>i\<in>set is. x < int i" "sorted_wrt (<) is"
    and "EE_Init_loop (base p) x is e = (s, e')"
  shows "within (xfer S A p F es (n + length is) D) e e' \<and>
    (s = ee_complete \<longrightarrow> xfer S A p F es (n + length is) (D \<union> (\<lambda>i. VirtAddVarTab e ! i) ` set is) (ee_mem e')) \<and>
    (replies (ee_flash e) = [] \<longrightarrow> s = ee_complete)"
  using assms
proof (induction "is" arbitrary: e n D x)
  case (Cons i "is")
  let ?v = "VirtAddVarTab e ! i" and ?X = "xfer S A p F es (n + length (i # is))"
  show ?case
  proof (cases "rd16 (ee_mem e) (base p + 6) = ?v")
    case True
    then have "xfer S A p F es n (insert ?v D) (ee_mem e)"
      using Cons.prems(1,3) by (intro xfer_skip) auto
    from Cons.IH [OF this, of "int i"] Cons.prems True show ?thesis
      by (auto elim!: within_mono xfer_mono)
  next
    case False
    obtain s1 e1 where 1: "EE_transfer_var ?v e = (s1, e1)" by (cases "EE_transfer_var ?v e")
    note T = transfer_var_xfer [OF Cons.prems(1) _ _ _ _ 1]
    have w1: "within (xfer S A p F es (Suc n) D) e e1"
      using Cons.prems False by (intro T(1)) auto
    then have w1': "within (?X D) e e1" by (rule within_mono) (auto elim: xfer_mono)
    have r1: "replies (ee_flash e) = [] \<Longrightarrow> s1 = ee_complete"
      using Cons.prems False by (intro T(3)) auto
    have x: "int i \<noteq> x" using Cons.prems(5) by auto
    show ?thesis
    proof (cases "s1 = ee_complete")
      case True
      then have "xfer S A p F es (Suc n) (insert ?v D) (ee_mem e1)"
        using Cons.prems False by (intro T(2)) auto
      from Cons.IH [OF this, of x] Cons.prems True False x 1 within_tab [OF w1]
      have I: "within (?X (insert ?v D)) e1 e'"
        "s = ee_complete \<longrightarrow> ?X (insert ?v D \<union> (\<lambda>i. VirtAddVarTab e ! i) ` set is) (ee_mem e')"
        "replies (ee_flash e1) = [] \<longrightarrow> s = ee_complete" by auto
      have "within (?X D) e1 e'" using I(1) by (rule within_mono) (auto elim: xfer_mono)
      then show ?thesis using I(2,3) within_trans [OF w1'] within_replies [OF w1] by auto
    next
      case s1: False
      then show ?thesis using Cons.prems(7) False 1 x w1' r1 by auto
    qed
  qed
qed auto

section \<open>Sequences of operations\<close>

text \<open>A triple for the operations: from a state with \<open>P\<close>, every content a power failure can leave
  satisfies \<open>I\<close>, success establishes \<open>Q\<close>, and without flash failures there is success.\<close>

definition triple :: "(ee \<Rightarrow> bool) \<Rightarrow> (mem \<Rightarrow> bool) \<Rightarrow> (ee \<Rightarrow> u16 \<times> ee) \<Rightarrow> (ee \<Rightarrow> bool) \<Rightarrow> bool" where
  "triple P I c Q \<longleftrightarrow> (\<forall>e s e'. P e \<longrightarrow> c e = (s, e') \<longrightarrow>
     within I e e' \<and> (s = ee_complete \<longrightarrow> Q e') \<and> (replies (ee_flash e) = [] \<longrightarrow> s = ee_complete))"

lemma tripleI:
  assumes "\<And>e s e'. P e \<Longrightarrow> c e = (s, e') \<Longrightarrow> within I e e'"
    and "\<And>e s e'. P e \<Longrightarrow> c e = (s, e') \<Longrightarrow> s = ee_complete \<Longrightarrow> Q e'"
    and "\<And>e s e'. P e \<Longrightarrow> c e = (s, e') \<Longrightarrow> replies (ee_flash e) = [] \<Longrightarrow> s = ee_complete"
  shows "triple P I c Q"
  using assms unfolding triple_def by blast

lemma tripleD:
  assumes "triple P I c Q" "P e" "c e = (s, e')"
  shows "within I e e'" "s = ee_complete \<Longrightarrow> Q e'" "replies (ee_flash e) = [] \<Longrightarrow> s = ee_complete"
  using assms unfolding triple_def by blast+

lemma triple_seq:
  assumes f: "triple P I f Q" and g: "triple Q I g R"
  shows "triple P I (\<lambda>e. let (s, e1) = f e in if s \<noteq> ee_complete then (s, e1) else g e1) R"
proof -
  have "within I e e' \<and> (s = ee_complete \<longrightarrow> R e') \<and> (replies (ee_flash e) = [] \<longrightarrow> s = ee_complete)"
    if P: "P e" and run: "(let (s, e1) = f e in if s \<noteq> ee_complete then (s, e1) else g e1) = (s, e')" for e s e'
  proof -
    obtain s1 e1 where 1: "f e = (s1, e1)" by (cases "f e")
    note F = tripleD [OF f P 1]
    show ?thesis
    proof (cases "s1 = ee_complete")
      case True
      then have "g e1 = (s, e')" using run 1 by simp
      from tripleD [OF g F(2) this] True F(1) within_trans [OF F(1)] within_replies [OF F(1)]
      show ?thesis by blast
    next
      case False
      then show ?thesis using run 1 F by auto
    qed
  qed
  then show ?thesis unfolding triple_def by blast
qed

lemma triple_weaken:
  assumes "triple P I c Q" "\<And>e. P' e \<Longrightarrow> P e" "\<And>m. I m \<Longrightarrow> I' m" "\<And>e. Q e \<Longrightarrow> Q' e"
  shows "triple P' I' c Q'"
  using tripleD [OF assms(1) assms(2)] assms(3,4) within_mono by (intro tripleI) blast+

lemma triple_operation:
  assumes "\<And>e. P e \<Longrightarrow> I (g (ee_mem e)) \<and> (\<forall>e'. ee_mem e' = g (ee_mem e) \<longrightarrow> VirtAddVarTab e' = VirtAddVarTab e \<longrightarrow> Q e')"
  shows "triple P I (on_flash (flash_operation g)) Q"
proof (rule tripleI)
  fix e s e' assume P: "P e" and run: "on_flash (flash_operation g) e = (s, e')"
  from run show "within I e e'"
    by (cases rule: on_flash_operation [where I = I]) (use assms [OF P] in \<open>auto elim: within_mono\<close>)
  from run show "replies (ee_flash e) = [] \<Longrightarrow> s = ee_complete"
    by (cases rule: on_flash_operation [where I = I]) auto
next
  fix e s e' assume P: "P e" and run: "on_flash (flash_operation g) e = (s, e')" and s: "s = ee_complete"
  from run s show "Q e'"
    by (cases rule: on_flash_operation [where I = "\<lambda>_. True"]) (use assms [OF P] in \<open>auto dest: within_tab\<close>)
qed

lemma triple_program_header:
  assumes "\<And>e. P e \<Longrightarrow> I (prog16 (ee_mem e) (base p) v) \<and>
      (\<forall>e'. ee_mem e' = prog16 (ee_mem e) (base p) v \<longrightarrow> VirtAddVarTab e' = VirtAddVarTab e \<longrightarrow> Q e')"
  shows "triple P I (on_flash (FLASH_ProgramHalfWord (base p) v)) Q"
  using assms unfolding FLASH_ProgramHalfWord_def by (rule triple_operation)

lemma page_rep_all_blank:
  assumes "\<And>i. i < 0x4000 \<Longrightarrow> m (base p + i) = 0xFF"
  shows "page_rep m p (ERASED, [])"
proof -
  have "cell m p i = 0xFFFF" if "i < 8192" for i
    using assms [of "2 * i"] assms [of "2 * i + 1"] that
    by (simp add: cell_def rd16_blank caddr_def)
  then show ?thesis by (auto simp: page_rep_def ERASED_def)
qed

lemma erase_if_not_empty:
  "is_page p \<Longrightarrow> EE_EraseSectorIfNotEmpty (sector_of p) e =
     (if \<exists>i<PAGE_SIZE. ee_mem e (base p + i) \<noteq> 0xFF
      then on_flash (flash_operation (\<lambda>m. erase_range m (base p) (base p + 0x4000))) e else (ee_complete, e))"
  by (simp only: EE_EraseSectorIfNotEmpty_def FLASH_EraseSector_def sector_address Let_def)

lemma erase_blank:
  assumes "ee_rep (ee_mem e) p (ERASED, []) b"
  shows "EE_EraseSectorIfNotEmpty (sector_of p) e = (ee_complete, e)"
proof -
  have "is_page p" "page_rep (ee_mem e) p (ERASED, [])" using assms by (simp_all add: ee_rep_def)
  moreover from this(2) have "\<not> (\<exists>i<PAGE_SIZE. ee_mem e (base p + i) \<noteq> 0xFF)"
    using page_rep_blank_bytes by (simp only: PAGE_SIZE_def) blast
  ultimately show ?thesis by (simp only: erase_if_not_empty if_False)
qed

lemma triple_erase:
  assumes p: "is_page p"
    and post: "\<And>e m. P e \<Longrightarrow> page_rep m p (ERASED, []) \<Longrightarrow>
        (\<And>pg. page_rep (ee_mem e) (1 - p) pg \<Longrightarrow> page_rep m (1 - p) pg) \<Longrightarrow>
        I m \<and> (\<forall>e'. ee_mem e' = m \<longrightarrow> VirtAddVarTab e' = VirtAddVarTab e \<longrightarrow> Q e')"
  shows "triple P I (EE_EraseSectorIfNotEmpty (sector_of p)) Q"
proof -
  let ?c = "on_flash (flash_operation (\<lambda>m. erase_range m (base p) (base p + 0x4000)))"
  have t: "triple P I ?c Q"
  proof (rule triple_operation, rule post)
    fix e assume "P e" then show "P e" .
    show "page_rep (erase_range (ee_mem e) (base p) (base p + 0x4000)) p (ERASED, [])"
      by (rule page_rep_erased [OF p])
    show "page_rep (ee_mem e) (1 - p) pg \<Longrightarrow> page_rep (erase_range (ee_mem e) (base p) (base p + 0x4000)) (1 - p) pg" for pg
      by (rule page_rep_erase_other [OF p page_neq(3) [OF p] page_neq(1) [OF p]])
  qed
  have blank: "Q e" if "P e" "\<not> (\<exists>i<PAGE_SIZE. ee_mem e (base p + i) \<noteq> 0xFF)" for e
  proof -
    have "page_rep (ee_mem e) p (ERASED, [])"
      using that(2) by (intro page_rep_all_blank) (simp only: PAGE_SIZE_def, blast)
    then show ?thesis using post that(1) by blast
  qed
  show ?thesis
  proof (rule tripleI)
    fix e s e' assume P: "P e" and "EE_EraseSectorIfNotEmpty (sector_of p) e = (s, e')"
    then have run: "(if \<exists>i<PAGE_SIZE. ee_mem e (base p + i) \<noteq> 0xFF then ?c e else (ee_complete, e)) = (s, e')"
      by (simp only: erase_if_not_empty [OF p])
    then show "within I e e'" "replies (ee_flash e) = [] \<Longrightarrow> s = ee_complete"
      using tripleD [OF t P] by (metis within_refl prod.inject)+
    show "s = ee_complete \<Longrightarrow> Q e'" using run tripleD [OF t P] blank [OF P] by (metis prod.inject)
  qed
qed

text \<open>The contents from which \<open>EE_Init\<close> restores the store \<open>F\<close> on the variables \<open>T\<close>: a complete log in a
  page that is valid or still marked as receiving with the other page erased, or an unfinished
  transfer out of a valid page. The bound leaves room for the transfer to be repeated.\<close>

definition agrees :: "u16 set \<Rightarrow> (u16 \<rightharpoonup> u16) \<Rightarrow> (u16 \<times> u16) list \<Rightarrow> bool" where
  "agrees T F es \<longleftrightarrow> (\<forall>v\<in>T. log_get es v = F v)"

definition settled :: "u16 set \<Rightarrow> (u16 \<rightharpoonup> u16) \<Rightarrow> u16 \<Rightarrow> mem \<Rightarrow> bool" where
  "settled T F h m \<longleftrightarrow> (\<exists>p es. ee_rep m p (h, es) (ERASED, []) \<and> agrees T F es)"

definition recoverable :: "u16 set \<Rightarrow> (u16 \<rightharpoonup> u16) \<Rightarrow> mem \<Rightarrow> bool" where
  "recoverable T F m \<longleftrightarrow> settled T F VALID_PAGE m \<or> settled T F RECEIVE_DATA m \<or>
     (\<exists>p es. xfer UNIV None p F es 161 {} m)"

lemma xfer_agrees:
  assumes "ee_rep m p (RECEIVE_DATA, ns) (VALID_PAGE, es)" "recv F es ns"
    "\<forall>v\<in>D. F v \<noteq> None \<longrightarrow> v \<in> fst ` set ns" "0xFFFF \<notin> D"
  shows "agrees D F ns"
  unfolding agrees_def
proof
  fix v assume "v \<in> D"
  then show "log_get ns v = F v" using assms(3,4) by (intro recv_log_get [OF assms(2)]) auto
qed

text \<open>The steps of the transfer after the new page is marked as receiving.\<close>

definition page_transfer_rest :: "nat \<Rightarrow> u16 \<Rightarrow> u16 \<Rightarrow> ee \<Rightarrow> u16 \<times> ee" where
  "page_transfer_rest p VirtAddress Data e =
     (let (s2, e2) = EE_VerifyPageFullWriteVariable VirtAddress Data e in
      if s2 \<noteq> ee_complete then (s2, e2) else
      let (s3, e3) = EE_PageTransfer_loop VirtAddress [0..<NB_OF_VAR] e2 in
      if s3 \<noteq> ee_complete then (s3, e3) else
      let (s4, e4) = EE_EraseSectorIfNotEmpty (sector_of p) e3 in
      if s4 \<noteq> ee_complete then (s4, e4) else
      on_flash (FLASH_ProgramHalfWord (base (1 - p)) VALID_PAGE) e4)"

text \<open>The page transfer, as a sequence of triples. The whole of it passes through contents recoverable
  to the old store or to the updated one.\<close>

definition page_transfer_from :: "nat \<Rightarrow> u16 \<Rightarrow> u16 \<Rightarrow> ee \<Rightarrow> u16 \<times> ee" where
  "page_transfer_from p VirtAddress Data e =
     (let (s1, e1) = on_flash (FLASH_ProgramHalfWord (base (1 - p)) RECEIVE_DATA) e in
      if s1 \<noteq> ee_complete then (s1, e1) else page_transfer_rest p VirtAddress Data e1)"

lemma page_transfer_eq:
  assumes "ee_rep (ee_mem e) p (VALID_PAGE, es) (h, es')" "h \<noteq> VALID_PAGE"
  shows "EE_PageTransfer va d e = page_transfer_from p va d e"
proof -
  have "p = 0 \<or> p = 1" using assms(1) by (simp add: ee_rep_def)
  then have "(if (of_nat p :: u16) = PAGE1 then PAGE0_BASE_ADDRESS else PAGE1_BASE_ADDRESS) = base (1 - p)"
    "(if (of_nat p :: u16) = PAGE1 then PAGE1_ID else PAGE0_ID) = sector_of p"
    "\<not> ((of_nat p :: u16) \<noteq> PAGE1 \<and> (of_nat p :: u16) \<noteq> PAGE0)"
    by (auto simp: base_simps sector_of_def PAGE0_def PAGE1_def)
  then show ?thesis
    unfolding EE_PageTransfer_def page_transfer_from_def page_transfer_rest_def Let_def find_read [OF assms(1) refl assms(2)]
    by (simp only: if_False)
qed

lemma header_and [simp]: "ERASED AND RECEIVE_DATA = RECEIVE_DATA" "RECEIVE_DATA AND VALID_PAGE = VALID_PAGE"
  "ERASED AND VALID_PAGE = VALID_PAGE"
  by (simp_all add: ee_consts)

lemma header_neq [simp]: "RECEIVE_DATA \<noteq> 0xFFFF" "VALID_PAGE \<noteq> 0xFFFF" "RECEIVE_DATA \<noteq> VALID_PAGE"
  "ERASED \<noteq> VALID_PAGE" "ERASED \<noteq> RECEIVE_DATA" "VALID_PAGE \<noteq> RECEIVE_DATA" "VALID_PAGE \<noteq> ERASED" "RECEIVE_DATA \<noteq> ERASED"
  by (simp_all add: ee_consts)

lemma tab_image: "length (VirtAddVarTab e) = NB_OF_VAR \<Longrightarrow> (\<lambda>i. VirtAddVarTab e ! i) ` set [0..<NB_OF_VAR] = set (VirtAddVarTab e)"
  by (auto simp: in_set_conv_nth)

lemma triple_first_write:
  fixes es va d p
  defines "F \<equiv> (log_get es)(va \<mapsto> d)"
  assumes va: "va \<noteq> 0xFFFF" and S: "va \<in> S"
  shows "triple (\<lambda>e. VirtAddVarTab e = tab \<and> ee_rep (ee_mem e) p (RECEIVE_DATA, []) (VALID_PAGE, es))
     (\<lambda>m. xfer UNIV None p (log_get es) es 161 {} m \<or> xfer UNIV None p F es 161 {} m)
     (EE_VerifyPageFullWriteVariable va d)
     (\<lambda>e. VirtAddVarTab e = tab \<and> xfer S (Some va) p F es 1 {va} (ee_mem e))"
proof (rule tripleI)
  let ?J = "\<lambda>m. xfer UNIV None p (log_get es) es 161 {} m \<or> xfer UNIV None p F es 161 {} m"
  fix e s e' assume P: "VirtAddVarTab e = tab \<and> ee_rep (ee_mem e) p (RECEIVE_DATA, []) (VALID_PAGE, es)"
    and run: "EE_VerifyPageFullWriteVariable va d e = (s, e')"
  then have rep: "ee_rep (ee_mem e) p (RECEIVE_DATA, []) (VALID_PAGE, es)" by simp
  have ok: "EE_FindValidPage WRITE_IN_VALID_PAGE (ee_mem e) = of_nat p" using find_write [OF rep] by simp
  note W = write_var_log [OF rep _ _ va ok run, simplified]
  have c: "?J m" if "ns \<in> log_steps [] va d" "ee_rep m p (RECEIVE_DATA, ns) (VALID_PAGE, es)" for m ns
    using that va unfolding xfer_def log_steps_def F_def
    by (elim insertE emptyE) (auto simp: recv_def)
  show "within ?J e e'" using W(1) by (rule within_mono) (use c in blast)
  show "replies (ee_flash e) = [] \<Longrightarrow> s = ee_complete" using W(3) by simp
  show "VirtAddVarTab e' = tab \<and> xfer S (Some va) p F es 1 {va} (ee_mem e')" if "s = ee_complete"
    using W(1,2) P within_tab that va S unfolding xfer_def F_def
    by (auto intro!: exI [of _ "[(va, d)]"] simp: recv_def)
qed

definition mid :: "u16 set \<Rightarrow> (u16 \<times> u16) list \<Rightarrow> u16 \<Rightarrow> u16 \<Rightarrow> mem \<Rightarrow> bool" where
  "mid T es va d m \<longleftrightarrow> recoverable T (log_get es) m \<or> recoverable T ((log_get es)(va \<mapsto> d)) m"

lemma triple_transfer_loop:
  fixes es va d p tab
  defines "F \<equiv> (log_get es)(va \<mapsto> d)"
  assumes tab: "length tab = NB_OF_VAR" "0xFFFF \<notin> set tab" "set tab \<subseteq> S"
  shows "triple (\<lambda>e. VirtAddVarTab e = tab \<and> xfer S (Some va) p F es 1 {va} (ee_mem e))
     (\<lambda>m. xfer UNIV None p F es 161 {} m)
     (EE_PageTransfer_loop va [0..<NB_OF_VAR])
     (\<lambda>e. VirtAddVarTab e = tab \<and> xfer S (Some va) p F es 161 (insert va (set tab)) (ee_mem e))"
proof (rule tripleI)
  fix e s e' assume P: "VirtAddVarTab e = tab \<and> xfer S (Some va) p F es 1 {va} (ee_mem e)"
    and run: "EE_PageTransfer_loop va [0..<NB_OF_VAR] e = (s, e')"
  have im: "(\<lambda>i. VirtAddVarTab e ! i) ` set [0..<NB_OF_VAR] = set tab" using tab_image [of e] P tab by simp
  have "1 + length [0..<NB_OF_VAR] \<le> 4095" "1 + length [0..<NB_OF_VAR] = 161" by (simp_all add: NB_OF_VAR_def)
  note L = page_transfer_loop [of S va p F es 1 "{va}" e "[0..<NB_OF_VAR]" s e', unfolded im this(2), OF _ _ _ _ run]
  have L': "within (xfer S (Some va) p F es 161 {va}) e e'" "s = ee_complete \<Longrightarrow> xfer S (Some va) p F es 161 ({va} \<union> set tab) (ee_mem e')"
    "replies (ee_flash e) = [] \<Longrightarrow> s = ee_complete"
    using L P tab by simp_all
  have "xfer UNIV None p F es 161 {} m" if "xfer S (Some va) p F es 161 {va} m" for m
    using that unfolding xfer_def by auto
  then show "within (xfer UNIV None p F es 161 {}) e e'" using L'(1) by (auto elim: within_mono)
  show "replies (ee_flash e) = [] \<Longrightarrow> s = ee_complete" by (rule L'(3))
  show "VirtAddVarTab e' = tab \<and> xfer S (Some va) p F es 161 (insert va (set tab)) (ee_mem e')" if "s = ee_complete"
    using L'(2) that P within_tab [OF L'(1)] by simp
qed

lemma triple_transfer_rest:
  fixes es va d p tab
  defines "F \<equiv> (log_get es)(va \<mapsto> d)" and "T \<equiv> insert va (set tab)"
  assumes tab: "length tab = NB_OF_VAR" "0xFFFF \<notin> set tab" and va: "va \<noteq> 0xFFFF"
    and p: "is_page p"
  shows "triple (\<lambda>e. VirtAddVarTab e = tab \<and> ee_rep (ee_mem e) (1 - p) (RECEIVE_DATA, []) (VALID_PAGE, es))
     (mid T es va d) (page_transfer_rest p va d)
     (\<lambda>e. \<exists>ns. ee_rep (ee_mem e) (1 - p) (VALID_PAGE, ns) (ERASED, []) \<and> agrees T F ns \<and> (\<forall>e\<in>set ns. fst e \<in> insert 0xFFFF T))"
    (is "triple ?P1 ?I _ ?Q")
proof -
  have T: "0xFFFF \<notin> T" "va \<in> T" "set tab \<subseteq> T" using tab va by (auto simp: T_def)
  let ?q = "1 - p"
  let ?P2 = "\<lambda>e. VirtAddVarTab e = tab \<and> xfer T (Some va) ?q F es 1 {va} (ee_mem e)"
  let ?P3 = "\<lambda>e. VirtAddVarTab e = tab \<and> xfer T (Some va) ?q F es 161 T (ee_mem e)"
  let ?R = "\<lambda>h m. \<exists>ns. ee_rep m ?q (h, ns) (ERASED, []) \<and> agrees T F ns \<and> (\<forall>e\<in>set ns. fst e \<in> insert 0xFFFF T)"
  have I: "xfer UNIV None ?q (log_get es) es 161 {} m \<or> xfer UNIV None ?q F es 161 {} m \<Longrightarrow> ?I m"
    "?R VALID_PAGE m \<Longrightarrow> ?I m" "?R RECEIVE_DATA m \<Longrightarrow> ?I m" for m
    unfolding mid_def recoverable_def settled_def F_def [symmetric] by blast+
  have q: "is_page ?q" "1 - ?q = p" using p by auto
  have 2: "triple ?P1 ?I (EE_VerifyPageFullWriteVariable va d) ?P2"
    using triple_first_write [OF va T(2), of tab ?q es d, folded F_def] by (rule triple_weaken) (use I in auto)
  have 3: "triple ?P2 ?I (EE_PageTransfer_loop va [0..<NB_OF_VAR]) ?P3"
    using triple_transfer_loop [OF tab T(3), of va ?q es d, folded F_def T_def] by (rule triple_weaken) (use I in auto)
  have 4: "triple ?P3 ?I (EE_EraseSectorIfNotEmpty (sector_of p)) (\<lambda>e. ?R RECEIVE_DATA (ee_mem e))"
  proof (rule triple_erase [OF p])
    fix e m assume P: "?P3 e" and m: "page_rep m p (ERASED, [])" "\<And>pg. page_rep (ee_mem e) (1 - p) pg \<Longrightarrow> page_rep m (1 - p) pg"
    from P have "xfer T (Some va) ?q F es 161 T (ee_mem e)" by simp
    then obtain ns where ns: "ee_rep (ee_mem e) ?q (RECEIVE_DATA, ns) (VALID_PAGE, es)" "recv F es ns"
      "\<forall>v\<in>T. F v \<noteq> None \<longrightarrow> v \<in> fst ` set ns" "\<forall>e\<in>set ns. fst e \<in> insert 0xFFFF T" by (rule xferE)
    have "ee_rep m ?q (RECEIVE_DATA, ns) (ERASED, [])" using ns(1) m q unfolding ee_rep_def by simp
    then have "?R RECEIVE_DATA m" using xfer_agrees [OF ns(1-3) T(1)] ns(4) by blast
    then show "?I m \<and> (\<forall>e'. ee_mem e' = m \<longrightarrow> VirtAddVarTab e' = VirtAddVarTab e \<longrightarrow> ?R RECEIVE_DATA (ee_mem e'))"
      using I(3) by blast
  qed
  have 5: "triple (\<lambda>e. ?R RECEIVE_DATA (ee_mem e)) ?I (on_flash (FLASH_ProgramHalfWord (base ?q) VALID_PAGE)) ?Q"
  proof (rule triple_program_header)
    fix e assume "?R RECEIVE_DATA (ee_mem e)"
    then have "?R VALID_PAGE (prog16 (ee_mem e) (base ?q) VALID_PAGE)"
      using ee_rep_header [of "ee_mem e" ?q RECEIVE_DATA _ _ VALID_PAGE] by auto
    then show "?I (prog16 (ee_mem e) (base ?q) VALID_PAGE) \<and>
        (\<forall>e'. ee_mem e' = prog16 (ee_mem e) (base ?q) VALID_PAGE \<longrightarrow> VirtAddVarTab e' = VirtAddVarTab e \<longrightarrow> ?Q e')"
      using I(2) by simp
  qed
  show ?thesis
    unfolding page_transfer_rest_def
    by (intro triple_seq [OF 2] triple_seq [OF 3] triple_seq [OF 4] 5)
qed

lemma triple_page_transfer:
  fixes es va d p tab
  defines "F \<equiv> (log_get es)(va \<mapsto> d)" and "T \<equiv> insert va (set tab)"
  assumes tab: "length tab = NB_OF_VAR" "0xFFFF \<notin> set tab" and va: "va \<noteq> 0xFFFF"
  shows "triple (\<lambda>e. VirtAddVarTab e = tab \<and> ee_rep (ee_mem e) p (VALID_PAGE, es) (ERASED, []))
     (mid T es va d) (page_transfer_from p va d)
     (\<lambda>e. \<exists>ns. ee_rep (ee_mem e) (1 - p) (VALID_PAGE, ns) (ERASED, []) \<and> agrees T F ns \<and> (\<forall>e\<in>set ns. fst e \<in> insert 0xFFFF T))"
    (is "triple ?P ?I _ ?Q")
proof (cases "is_page p")
  case False
  then show ?thesis by (simp add: triple_def ee_rep_def)
next
  case p: True
  let ?q = "1 - p"
  let ?P1 = "\<lambda>e. VirtAddVarTab e = tab \<and> ee_rep (ee_mem e) ?q (RECEIVE_DATA, []) (VALID_PAGE, es)"
  have 1: "triple ?P ?I (on_flash (FLASH_ProgramHalfWord (base ?q) RECEIVE_DATA)) ?P1"
  proof (rule triple_program_header)
    fix e assume P: "?P e"
    then have r: "ee_rep (prog16 (ee_mem e) (base ?q) RECEIVE_DATA) ?q (RECEIVE_DATA, []) (VALID_PAGE, es)"
      using ee_rep_header [of "ee_mem e" ?q ERASED "[]" "(VALID_PAGE, es)" RECEIVE_DATA] ee_rep_swap by simp
    then have "xfer UNIV None ?q (log_get es) es 161 {} (prog16 (ee_mem e) (base ?q) RECEIVE_DATA)"
      unfolding xfer_def by (auto simp: recv_def intro!: exI [of _ "[]"])
    then show "?I (prog16 (ee_mem e) (base ?q) RECEIVE_DATA) \<and>
        (\<forall>e'. ee_mem e' = prog16 (ee_mem e) (base ?q) RECEIVE_DATA \<longrightarrow> VirtAddVarTab e' = VirtAddVarTab e \<longrightarrow> ?P1 e')"
      using r P unfolding mid_def recoverable_def by auto
  qed
  show ?thesis
    unfolding page_transfer_from_def
    unfolding F_def T_def by (rule triple_seq [OF 1 [unfolded T_def] triple_transfer_rest [OF tab va p]])
qed

section \<open>Recovery\<close>

lemma init_cases:
  assumes "ee_rep (ee_mem e) p (h, es) (h', es')"
  shows "h = VALID_PAGE \<Longrightarrow> h' = ERASED \<Longrightarrow> EE_Init e = EE_EraseSectorIfNotEmpty (sector_of (1 - p)) e"
    and "h = RECEIVE_DATA \<Longrightarrow> h' = ERASED \<Longrightarrow> EE_Init e = EE_Init_mark (base p) (sector_of (1 - p)) e"
    and "h = RECEIVE_DATA \<Longrightarrow> h' = VALID_PAGE \<Longrightarrow> EE_Init e = EE_Init_transfer (base p) (sector_of (1 - p)) e"
    and "h = VALID_PAGE \<Longrightarrow> h' = VALID_PAGE \<Longrightarrow> EE_Init e = EE_Format e"
proof -
  have "p = 0 \<or> p = 1" using assms by (simp add: ee_rep_def)
  note s = this ee_rep_headers [OF assms]
  show "h = VALID_PAGE \<Longrightarrow> h' = ERASED \<Longrightarrow> EE_Init e = EE_EraseSectorIfNotEmpty (sector_of (1 - p)) e"
    using s by (elim disjE) (simp_all add: EE_Init_def sector_of_def)
  show "h = RECEIVE_DATA \<Longrightarrow> h' = ERASED \<Longrightarrow> EE_Init e = EE_Init_mark (base p) (sector_of (1 - p)) e"
    using s by (elim disjE) (simp_all add: EE_Init_def sector_of_def base_simps)
  show "h = RECEIVE_DATA \<Longrightarrow> h' = VALID_PAGE \<Longrightarrow> EE_Init e = EE_Init_transfer (base p) (sector_of (1 - p)) e"
    using s by (elim disjE) (simp_all add: EE_Init_def sector_of_def base_simps)
  show "h = VALID_PAGE \<Longrightarrow> h' = VALID_PAGE \<Longrightarrow> EE_Init e = EE_Format e"
    using s by (elim disjE) (simp_all add: EE_Init_def)
qed

lemma init_settled:
  assumes "ee_rep (ee_mem e) p (VALID_PAGE, es) (ERASED, [])"
  shows "EE_Init e = (ee_complete, e)"
  using init_cases(1) [OF assms] erase_blank [OF ee_rep_swap [OF assms]] by simp

lemma triple_init_mark:
  "triple (\<lambda>e. ee_rep (ee_mem e) p (RECEIVE_DATA, es) (ERASED, [])) (\<lambda>m. ee_rep m p (VALID_PAGE, es) (ERASED, []))
     (EE_Init_mark (base p) (sector_of (1 - p))) (\<lambda>e. ee_rep (ee_mem e) p (VALID_PAGE, es) (ERASED, []))"
  (is "triple ?P ?I _ ?Q")
proof -
  have 2: "triple ?P ?I (on_flash (FLASH_ProgramHalfWord (base p) VALID_PAGE)) ?Q"
    by (rule triple_program_header) (use ee_rep_header [of _ p RECEIVE_DATA es _ VALID_PAGE] in simp)
  have 1: "triple ?P ?I (EE_EraseSectorIfNotEmpty (sector_of (1 - p))) ?P"
    using erase_blank [OF ee_rep_swap] by (intro tripleI) fastforce+
  show ?thesis
    unfolding EE_Init_mark_def by (rule triple_seq [OF 1 2])
qed

lemma triple_init_loop:
  assumes tab: "length tab = NB_OF_VAR" "0xFFFF \<notin> set tab" "set tab \<subseteq> S" and n: "n \<le> 3900"
  shows "triple (\<lambda>e. VirtAddVarTab e = tab \<and> xfer S A p F es n D (ee_mem e))
     (xfer S A p F es (n + 160) D) (EE_Init_loop (base p) (- 1) [0..<NB_OF_VAR])
     (\<lambda>e. VirtAddVarTab e = tab \<and> xfer S A p F es (n + 160) (D \<union> set tab) (ee_mem e))"
proof (rule tripleI)
  fix e s e' assume P: "VirtAddVarTab e = tab \<and> xfer S A p F es n D (ee_mem e)"
    and run: "EE_Init_loop (base p) (- 1) [0..<NB_OF_VAR] e = (s, e')"
  have im: "(\<lambda>i. VirtAddVarTab e ! i) ` set [0..<NB_OF_VAR] = set tab" using tab_image [of e] P tab by simp
  have len: "length [0..<NB_OF_VAR] = 160" by (simp add: NB_OF_VAR_def)
  note L = init_loop [of S A p F es n D e "[0..<NB_OF_VAR]" "- 1" s e', unfolded im len, OF _ _ _ _ _ _ run]
  have L': "within (xfer S A p F es (n + 160) D) e e'" "s = ee_complete \<Longrightarrow> xfer S A p F es (n + 160) (D \<union> set tab) (ee_mem e')"
    "replies (ee_flash e) = [] \<Longrightarrow> s = ee_complete"
    using L P tab n by simp_all
  show "within (xfer S A p F es (n + 160) D) e e'" by (rule L'(1))
  show "replies (ee_flash e) = [] \<Longrightarrow> s = ee_complete" by (rule L'(3))
  show "VirtAddVarTab e' = tab \<and> xfer S A p F es (n + 160) (D \<union> set tab) (ee_mem e')" if "s = ee_complete"
    using L'(2) that P within_tab [OF L'(1)] by simp
qed

lemma triple_init_transfer:
  assumes tab: "length tab = NB_OF_VAR" "0xFFFF \<notin> set tab" and n: "n \<le> 3900" and p: "is_page p"
  shows "triple (\<lambda>e. VirtAddVarTab e = tab \<and> xfer UNIV None p F es n {} (ee_mem e)) (\<lambda>_. True)
     (EE_Init_transfer (base p) (sector_of (1 - p)))
     (\<lambda>e. settled (set tab) F VALID_PAGE (ee_mem e))"
    (is "triple ?P ?I _ ?Q")
proof -
  let ?P1 = "\<lambda>e. VirtAddVarTab e = tab \<and> xfer UNIV None p F es (n + 160) (set tab) (ee_mem e)"
  let ?R = "\<lambda>m. \<exists>ns. ee_rep m p (VALID_PAGE, ns) (VALID_PAGE, es) \<and> agrees (set tab) F ns"
  have 1: "triple ?P ?I (EE_Init_loop (base p) (- 1) [0..<NB_OF_VAR]) ?P1"
    using triple_init_loop [OF tab subset_UNIV n, of None p F es "{}"] by (rule triple_weaken) auto
  have 2: "triple ?P1 ?I (on_flash (FLASH_ProgramHalfWord (base p) VALID_PAGE)) (\<lambda>e. ?R (ee_mem e))"
  proof (rule triple_program_header)
    fix e assume "?P1 e"
    then have "xfer UNIV None p F es (n + 160) (set tab) (ee_mem e)" by simp
    then obtain ns where ns: "ee_rep (ee_mem e) p (RECEIVE_DATA, ns) (VALID_PAGE, es)" "recv F es ns"
      "\<forall>v\<in>set tab. F v \<noteq> None \<longrightarrow> v \<in> fst ` set ns" by (rule xferE)
    show "?I (prog16 (ee_mem e) (base p) VALID_PAGE) \<and>
        (\<forall>e'. ee_mem e' = prog16 (ee_mem e) (base p) VALID_PAGE \<longrightarrow> VirtAddVarTab e' = VirtAddVarTab e \<longrightarrow> ?R (ee_mem e'))"
      using ee_rep_header [OF ns(1), of VALID_PAGE] xfer_agrees [OF ns tab(2)] by auto
  qed
  have 3: "triple (\<lambda>e. ?R (ee_mem e)) ?I (EE_EraseSectorIfNotEmpty (sector_of (1 - p))) ?Q"
  proof (rule triple_erase [OF page_neq(3) [OF p]])
    fix e m assume R: "?R (ee_mem e)" and m: "page_rep m (1 - p) (ERASED, [])"
      "\<And>pg. page_rep (ee_mem e) (1 - (1 - p)) pg \<Longrightarrow> page_rep m (1 - (1 - p)) pg"
    have "\<exists>ns. ee_rep m p (VALID_PAGE, ns) (ERASED, []) \<and> agrees (set tab) F ns"
      using R m p page_neq(4) [OF p] unfolding ee_rep_def by auto
    then show "?I m \<and> (\<forall>e'. ee_mem e' = m \<longrightarrow> VirtAddVarTab e' = VirtAddVarTab e \<longrightarrow> ?Q e')"
      unfolding settled_def by blast
  qed
  show ?thesis
    unfolding EE_Init_transfer_def by (intro triple_seq [OF 1] triple_seq [OF 2] 3)
qed

lemma init_recovers:
  assumes tab: "length (VirtAddVarTab e) = NB_OF_VAR" "0xFFFF \<notin> set (VirtAddVarTab e)"
    and rec: "recoverable (set (VirtAddVarTab e)) F (ee_mem e)" and ff: "replies (ee_flash e) = []"
  shows "\<exists>e'. EE_Init e = (ee_complete, e') \<and> settled (set (VirtAddVarTab e)) F VALID_PAGE (ee_mem e')"
proof -
  obtain s e' where run: "EE_Init e = (s, e')" by (cases "EE_Init e")
  consider (valid) p es where "ee_rep (ee_mem e) p (VALID_PAGE, es) (ERASED, [])" "agrees (set (VirtAddVarTab e)) F es"
    | (mark) p es where "ee_rep (ee_mem e) p (RECEIVE_DATA, es) (ERASED, [])" "agrees (set (VirtAddVarTab e)) F es"
    | (xfer) p es where "xfer UNIV None p F es 161 {} (ee_mem e)"
    using rec unfolding recoverable_def settled_def by blast
  then show ?thesis
  proof cases
    case valid
    then show ?thesis using init_settled unfolding settled_def by blast
  next
    case mark
    have run': "EE_Init_mark (base p) (sector_of (1 - p)) e = (s, e')"
      using init_cases(2) [OF mark(1)] run by simp
    note T = tripleD [OF triple_init_mark mark(1) run']
    show ?thesis using T(2,3) ff run mark(2) unfolding settled_def by blast
  next
    case xfer
    then obtain ns where ns: "ee_rep (ee_mem e) p (RECEIVE_DATA, ns) (VALID_PAGE, es)" by (rule xferE)
    then have p: "is_page p" by (simp add: ee_rep_def)
    have run': "EE_Init_transfer (base p) (sector_of (1 - p)) e = (s, e')"
      using init_cases(3) [OF ns] run by simp
    have "VirtAddVarTab e = VirtAddVarTab e \<and> xfer UNIV None p F es 161 {} (ee_mem e)" using xfer(1) by simp
    note T = tripleD [OF triple_init_transfer [OF tab _ p] this run', simplified]
    show ?thesis using T(2,3) ff run by simp
  qed
qed

section \<open>The store\<close>

text \<open>The store as its users see it: the value \<open>EE_ReadVariable\<close> finds. \<open>ee_ok\<close> is the state between
  operations: one valid page with a log, the other page erased.\<close>

definition ee_val :: "mem \<Rightarrow> u16 \<rightharpoonup> u16" where
  "ee_val m v = (let (ReadStatus, d) = EE_ReadVariable v 0 m in if ReadStatus = 0 then Some d else None)"

definition ee_ok :: "mem \<Rightarrow> bool" where
  "ee_ok m \<longleftrightarrow> (\<exists>p es. ee_rep m p (VALID_PAGE, es) (ERASED, []))"

lemma ee_val_log:
  "ee_rep m p (VALID_PAGE, es) (ERASED, []) \<Longrightarrow> v \<noteq> 0xFFFF \<Longrightarrow> ee_val m v = log_get es v"
  by (auto simp: ee_val_def read_log split: option.splits)

lemma ee_val_page:
  "ee_rep m p (VALID_PAGE, es) (h, es') \<Longrightarrow> h \<noteq> VALID_PAGE \<Longrightarrow> v \<noteq> 0xFFFF \<Longrightarrow> ee_val m v = log_get es v"
  by (auto simp: ee_val_def read_log split: option.splits)

lemma settled_ok: "settled T F VALID_PAGE m \<Longrightarrow> ee_ok m"
  by (auto simp: settled_def ee_ok_def)

lemma settled_val: "settled T F VALID_PAGE m \<Longrightarrow> v \<in> T \<Longrightarrow> v \<noteq> 0xFFFF \<Longrightarrow> ee_val m v = F v"
  by (auto simp: settled_def agrees_def ee_val_log)

text \<open>\<open>EE_WriteVariable\<close> under any schedule of failures.\<close>

lemma write_variable_run:
  assumes rep: "ee_rep (ee_mem e) p (VALID_PAGE, es) (ERASED, [])"
    and tab: "length (VirtAddVarTab e) = NB_OF_VAR" "0xFFFF \<notin> set (VirtAddVarTab e)"
    and va: "va \<noteq> 0xFFFF" and run: "EE_WriteVariable va d e = (s, e')"
  shows "within (mid (insert va (set (VirtAddVarTab e))) es va d) e e' \<and>
    (s = ee_complete \<longrightarrow> settled (insert va (set (VirtAddVarTab e))) ((log_get es)(va \<mapsto> d)) VALID_PAGE (ee_mem e')) \<and>
    (replies (ee_flash e) = [] \<longrightarrow> s = ee_complete)"
proof -
  let ?T = "insert va (set (VirtAddVarTab e))"
  have find: "EE_FindValidPage WRITE_IN_VALID_PAGE (ee_mem e) = of_nat p" using find_write [OF rep] by simp
  show ?thesis
  proof (cases "length es < 4095")
    case True
    obtain s1 e1 where 1: "EE_VerifyPageFullWriteVariable va d e = (s1, e1)"
      by (cases "EE_VerifyPageFullWriteVariable va d e")
    note W = write_var_log [OF rep True _ va find 1, simplified]
    have eq: "s = s1" "e' = e1" using run 1 W(4) by (simp_all add: EE_WriteVariable_def)
    have "mid ?T es va d m" if "es' \<in> log_steps es va d" "ee_rep m p (VALID_PAGE, es') (ERASED, [])" for m es'
    proof -
      have "agrees ?T (log_get es) es' \<or> agrees ?T ((log_get es)(va \<mapsto> d)) es'"
        using that(1) va tab(2) by (auto simp: log_steps_def agrees_def split: if_splits)
      then show ?thesis using that(2) unfolding mid_def recoverable_def settled_def by blast
    qed
    then have "within (mid ?T es va d) e e1" using within_mono [OF W(1)] by blast
    moreover have "settled ?T ((log_get es)(va \<mapsto> d)) VALID_PAGE (ee_mem e1)" if "s1 = ee_complete"
      using W(2) that unfolding settled_def
      by (intro exI [of _ p] exI [of _ "es @ [(va, d)]"]) (simp add: agrees_def)
    ultimately show ?thesis using W(3) eq by simp
  next
    case False
    then have full: "length es = 4095" using rep by (simp add: ee_rep_def page_rep_def)
    have "EE_VerifyPageFullWriteVariable va d e = (PAGE_FULL, e)"
      by (rule write_var_full [OF rep full _ find]) simp
    then have run': "page_transfer_from p va d e = (s, e')"
      using run page_transfer_eq [OF rep] by (simp add: EE_WriteVariable_def)
    have "VirtAddVarTab e = VirtAddVarTab e \<and> ee_rep (ee_mem e) p (VALID_PAGE, es) (ERASED, [])" using rep by simp
    note T = tripleD [OF triple_page_transfer [OF tab va] this run']
    show ?thesis using T unfolding settled_def by blast
  qed
qed

lemma format_ok:
  assumes "replies (ee_flash e) = []"
  shows "\<exists>e'. EE_Format e = (ee_complete, e') \<and> ee_rep (ee_mem e') 0 (VALID_PAGE, []) (ERASED, [])"
proof -
  let ?P = "\<lambda>h m. page_rep m 0 (h, [])"
  have sec: "sector_of 0 = PAGE0_ID" "sector_of 1 = PAGE1_ID" by (simp_all add: sector_of_def)
  have 1: "triple (\<lambda>_. True) (\<lambda>_. True) (EE_EraseSectorIfNotEmpty (sector_of 0)) (\<lambda>e. ?P ERASED (ee_mem e))"
    by (rule triple_erase) auto
  have 2: "triple (\<lambda>e. ?P ERASED (ee_mem e)) (\<lambda>_. True) (on_flash (FLASH_ProgramHalfWord (base 0) VALID_PAGE))
      (\<lambda>e. ?P VALID_PAGE (ee_mem e))"
    using page_rep_header [of _ 0 ERASED "[]" VALID_PAGE]
    by (intro triple_program_header) (simp add: caddr_def)
  have 3: "triple (\<lambda>e. ?P VALID_PAGE (ee_mem e)) (\<lambda>_. True) (EE_EraseSectorIfNotEmpty (sector_of 1))
      (\<lambda>e. ee_rep (ee_mem e) 0 (VALID_PAGE, []) (ERASED, []))"
    by (rule triple_erase) (auto simp: ee_rep_def)
  have "triple (\<lambda>_. True) (\<lambda>_. True) EE_Format (\<lambda>e. ee_rep (ee_mem e) 0 (VALID_PAGE, []) (ERASED, []))"
    using triple_seq [OF 1 triple_seq [OF 2 3]] unfolding EE_Format_def [abs_def] base_simps sec .
  from tripleD(2,3) [OF this] assms show ?thesis by (metis prod.collapse)
qed

lemma page_full_log:
  assumes rep: "ee_rep (ee_mem e) p (VALID_PAGE, es) (ERASED, [])" and va: "va \<noteq> 0xFFFF"
    and full: "fst (EE_VerifyPageFullWriteVariable va d e) = PAGE_FULL"
  shows "length es = 4095" and "EE_WriteVariable va d e = page_transfer_from p va d e"
proof -
  have find: "EE_FindValidPage WRITE_IN_VALID_PAGE (ee_mem e) = of_nat p" using find_write [OF rep] by simp
  have "\<not> length es < 4095"
    using write_var_log(4) [OF rep _ _ va find surjective_pairing] full by auto
  then show len: "length es = 4095" using rep by (simp add: ee_rep_def page_rep_def)
  have "EE_VerifyPageFullWriteVariable va d e = (PAGE_FULL, e)"
    by (rule write_var_full [OF rep len _ find]) simp
  then show "EE_WriteVariable va d e = page_transfer_from p va d e"
    using page_transfer_eq [OF rep] by (simp add: EE_WriteVariable_def)
qed

text \<open>What a write without failures does to the log: it appends an entry, or, when the page is full, it moves
  to the other page with entries of the table and of the written variable only.\<close>

lemma write_variable_log:
  assumes rep: "ee_rep (ee_mem e) p (VALID_PAGE, es) (ERASED, [])" and ff: "replies (ee_flash e) = []"
    and tab: "length (VirtAddVarTab e) = NB_OF_VAR" "0xFFFF \<notin> set (VirtAddVarTab e)" and va: "va \<noteq> 0xFFFF"
  shows "\<exists>e' p' es'. EE_WriteVariable va d e = (ee_complete, e') \<and> ee_rep (ee_mem e') p' (VALID_PAGE, es') (ERASED, []) \<and>
    replies (ee_flash e') = [] \<and> VirtAddVarTab e' = VirtAddVarTab e \<and>
    (if length es < 4095 then es' = es @ [(va, d)]
     else \<forall>f\<in>set es'. fst f \<in> insert 0xFFFF (insert va (set (VirtAddVarTab e))))"
proof (cases "length es < 4095")
  case True
  obtain s1 e1 where 1: "EE_VerifyPageFullWriteVariable va d e = (s1, e1)"
    by (cases "EE_VerifyPageFullWriteVariable va d e")
  have find: "EE_FindValidPage WRITE_IN_VALID_PAGE (ee_mem e) = of_nat p" using find_write [OF rep] by simp
  note W = write_var_log [OF rep True _ va find 1, simplified]
  have "EE_WriteVariable va d e = (ee_complete, e1)" using 1 W(3,4) ff by (simp add: EE_WriteVariable_def)
  then show ?thesis
    using W(2,3) ff True within_tab [OF W(1)] within_replies [OF W(1)] by auto
next
  case False
  then have len: "length es = 4095" using rep by (simp add: ee_rep_def page_rep_def)
  have find: "EE_FindValidPage WRITE_IN_VALID_PAGE (ee_mem e) = of_nat p" using find_write [OF rep] by simp
  have full: "fst (EE_VerifyPageFullWriteVariable va d e) = PAGE_FULL"
    using write_var_full [OF rep len _ find] by simp
  obtain s e' where run: "EE_WriteVariable va d e = (s, e')" by (cases "EE_WriteVariable va d e")
  then have run': "page_transfer_from p va d e = (s, e')" using page_full_log(2) [OF rep va full] by simp
  have "VirtAddVarTab e = VirtAddVarTab e \<and> ee_rep (ee_mem e) p (VALID_PAGE, es) (ERASED, [])" using rep by simp
  note T = tripleD [OF triple_page_transfer [OF tab va] this run']
  obtain ns where "ee_rep (ee_mem e') (1 - p) (VALID_PAGE, ns) (ERASED, [])"
    "\<forall>f\<in>set ns. fst f \<in> insert 0xFFFF (insert va (set (VirtAddVarTab e)))"
    using T(2,3) ff by blast
  then show ?thesis using False T(3) ff run within_tab [OF T(1)] within_replies [OF T(1)] by auto
qed

section \<open>The interface to the users of the store\<close>

text \<open>A store of 16-bit variables with persistent keys: a completed \<open>put\<close> is what \<open>get\<close> finds and leaves the
  other persistent keys alone.\<close>

locale nv_store =
  fixes ok :: "'s \<Rightarrow> bool"
    and keys :: "u16 set"
    and put :: "u16 \<Rightarrow> u16 \<Rightarrow> 's \<Rightarrow> u16 \<times> 's"
    and get :: "'s \<Rightarrow> u16 \<Rightarrow> u16 option"
  assumes put_law: "ok s \<Longrightarrow> k \<noteq> 0xFFFF \<Longrightarrow>
      \<exists>s'. put k d s = (ee_complete, s') \<and> ok s' \<and> get s' k = Some d \<and>
           (\<forall>v\<in>keys. v \<noteq> k \<longrightarrow> get s' v = get s v)"
begin

text \<open>A sequence of puts to different persistent keys, stopping at the first failure.\<close>

fun put_list :: "(u16 \<times> u16) list \<Rightarrow> 's \<Rightarrow> bool \<times> 's" where
  "put_list [] s = (True, s)"
| "put_list ((k, d) # kvs) s =
     (let (st, s') = put k d s in if st \<noteq> ee_complete then (False, s') else put_list kvs s')"

lemma put_list_law:
  assumes "ok s" "0xFFFF \<notin> fst ` set kvs" "distinct (map fst kvs)"
  shows "\<exists>s'. put_list kvs s = (True, s') \<and> ok s' \<and>
     (fst ` set kvs \<subseteq> keys \<longrightarrow> (\<forall>(k, d)\<in>set kvs. get s' k = Some d)) \<and>
     (\<forall>v\<in>keys. v \<notin> fst ` set kvs \<longrightarrow> get s' v = get s v)"
  using assms
proof (induction kvs arbitrary: s)
  case (Cons kv kvs)
  obtain k d where kv: "kv = (k, d)" by (cases kv)
  obtain s1 where s1: "put k d s = (ee_complete, s1)" "ok s1" "get s1 k = Some d"
    "\<forall>v\<in>keys. v \<noteq> k \<longrightarrow> get s1 v = get s v"
    using put_law [of s k d] Cons.prems kv by auto
  obtain s' where s': "put_list kvs s1 = (True, s')" "ok s'"
    "fst ` set kvs \<subseteq> keys \<longrightarrow> (\<forall>(k, d)\<in>set kvs. get s' k = Some d)"
    "\<forall>v\<in>keys. v \<notin> fst ` set kvs \<longrightarrow> get s' v = get s1 v"
    using Cons.IH [OF s1(2)] Cons.prems by auto
  have "k \<notin> fst ` set kvs" using Cons.prems kv by auto
  then show ?case
    using s1 s' kv by (intro exI [of _ s']) auto
qed simp

end

text \<open>The EEPROM emulation is such a store, with the variables of its table as the persistent keys.\<close>

definition ee_store_ok :: "u16 list \<Rightarrow> ee \<Rightarrow> bool" where
  "ee_store_ok tab e \<longleftrightarrow> ee_ok (ee_mem e) \<and> replies (ee_flash e) = [] \<and> VirtAddVarTab e = tab \<and>
     length tab = NB_OF_VAR \<and> 0xFFFF \<notin> set tab"

lemma ee_write_law:
  assumes ok: "ee_store_ok tab e" and va: "va \<noteq> 0xFFFF"
  shows "\<exists>e'. EE_WriteVariable va d e = (ee_complete, e') \<and> ee_store_ok tab e' \<and> ee_val (ee_mem e') va = Some d \<and>
    (\<forall>v\<in>set tab. v \<noteq> va \<longrightarrow> ee_val (ee_mem e') v = ee_val (ee_mem e) v)"
proof -
  let ?T = "insert va (set tab)"
  obtain p es where rep: "ee_rep (ee_mem e) p (VALID_PAGE, es) (ERASED, [])"
    using ok unfolding ee_store_ok_def ee_ok_def by blast
  obtain s e' where run: "EE_WriteVariable va d e = (s, e')" by (cases "EE_WriteVariable va d e")
  have W: "s = ee_complete" "settled ?T ((log_get es)(va \<mapsto> d)) VALID_PAGE (ee_mem e')" "within (mid ?T es va d) e e'"
    using write_variable_run [OF rep _ _ va run] ok by (auto simp: ee_store_ok_def)
  have "ee_store_ok tab e'"
    using ok settled_ok [OF W(2)] within_tab [OF W(3)] within_replies [OF W(3)] by (simp add: ee_store_ok_def)
  moreover have "ee_val (ee_mem e') v = (if v = va then Some d else ee_val (ee_mem e) v)" if "v \<in> ?T" for v
  proof -
    have "v \<noteq> 0xFFFF" using that ok va by (auto simp: ee_store_ok_def)
    then show ?thesis using settled_val [OF W(2) that] ee_val_log [OF rep] by simp
  qed
  ultimately show ?thesis using run W(1) by auto
qed

interpretation ee_store: nv_store "ee_store_ok tab" "set tab" EE_WriteVariable "\<lambda>e. ee_val (ee_mem e)" for tab
  by unfold_locales (rule ee_write_law)

section \<open>Properties\<close>

text \<open>The machine after a power failure left the array \<open>m\<close>: the static variables are initialised and no
  flash operation is under way.\<close>

definition power_up :: "mem \<Rightarrow> u16 list \<Rightarrow> ee" where
  "power_up m tab = \<lparr>ee_flash = \<lparr>fmem = m, replies = [], snaps = []\<rparr>, DataVar = 0, VirtAddVarTab = tab\<rparr>"

text \<open>A formatted store, and one whose valid page is full, for the witnesses.\<close>

definition fresh_mem :: mem where
  "fresh_mem a = (if a = PAGE0_BASE_ADDRESS \<or> a = PAGE0_BASE_ADDRESS + 1 then 0 else 0xFF)"

definition full_mem :: mem where
  "full_mem a = (if PAGE0_BASE_ADDRESS \<le> a \<and> a < PAGE0_BASE_ADDRESS + 0x4000 \<and>
      a \<noteq> PAGE0_BASE_ADDRESS + 2 \<and> a \<noteq> PAGE0_BASE_ADDRESS + 3 then 0 else 0xFF)"

definition sample_tab :: "u16 list" where
  "sample_tab = replicate 160 1000"

text \<open>The same, with a flash whose fifth operation fails.\<close>

definition sample_failing :: ee where
  "sample_failing = \<lparr>ee_flash = \<lparr>fmem = full_mem,
      replies = replicate 8 (FLASH_COMPLETE, True) @ [(FLASH_ERROR_OPERATION, False)], snaps = []\<rparr>,
      DataVar = 0, VirtAddVarTab = sample_tab\<rparr>"

lemma sample_tab_ok [simp]: "length sample_tab = NB_OF_VAR" "0xFFFF \<notin> set sample_tab" "set sample_tab = {1000}"
  by (simp_all add: sample_tab_def NB_OF_VAR_def)

lemma rd16_zero: "m a = 0 \<Longrightarrow> m (a + 1) = 0 \<Longrightarrow> rd16 m a = 0"
  by (simp add: rd16_def)

lemma fresh_mem_rep: "ee_rep fresh_mem 0 (VALID_PAGE, []) (ERASED, [])"
proof -
  have "page_rep fresh_mem 1 (ERASED, [])"
    by (rule page_rep_all_blank) (simp add: fresh_mem_def base_def ee_consts)
  moreover have "cell fresh_mem 0 i = (if i = 0 then 0 else 0xFFFF)" for i
    by (auto simp: cell_def caddr_def fresh_mem_def base_def ee_consts rd16_blank intro!: rd16_zero)
  ultimately show ?thesis by (auto simp: ee_rep_def page_rep_def VALID_PAGE_def)
qed

lemma full_mem_rep: "ee_rep full_mem 0 (VALID_PAGE, replicate 4095 (0, 0)) (ERASED, [])"
proof -
  have "page_rep full_mem 1 (ERASED, [])"
    by (rule page_rep_all_blank) (simp add: full_mem_def base_def ee_consts)
  moreover have "cell full_mem 0 i = (if i = 1 then 0xFFFF else 0)" if "i < 8192" for i
    using that by (auto simp: cell_def caddr_def full_mem_def base_def ee_consts rd16_blank intro!: rd16_zero)
  ultimately show ?thesis by (auto simp: ee_rep_def page_rep_def VALID_PAGE_def)
qed

lemma sample_ok: "ee_ok fresh_mem" "ee_ok full_mem"
  using fresh_mem_rep full_mem_rep unfolding ee_ok_def by blast+

text \<open>C6: Without flash failures \<open>EE_WriteVariable\<close> succeeds, with or without a page transfer: the
  variable then reads back the written value, every other variable of the table keeps its value, and
  the store is again in the state between operations.\<close>

theorem ee_write_read:
  assumes "ee_ok (ee_mem e)" "replies (ee_flash e) = []" "length (VirtAddVarTab e) = NB_OF_VAR"
    "0xFFFF \<notin> set (VirtAddVarTab e)" "va \<noteq> 0xFFFF"
  shows "\<exists>e'. EE_WriteVariable va d e = (ee_complete, e') \<and> ee_ok (ee_mem e') \<and>
    VirtAddVarTab e' = VirtAddVarTab e \<and> replies (ee_flash e') = [] \<and> ee_val (ee_mem e') va = Some d \<and>
    (\<forall>v\<in>set (VirtAddVarTab e). v \<noteq> va \<longrightarrow> ee_val (ee_mem e') v = ee_val (ee_mem e) v)"
  using ee_write_law [of "VirtAddVarTab e" e va d] assms by (auto simp: ee_store_ok_def)

theorem ee_write_read_witness:
  "\<exists>e'. EE_WriteVariable 1000 42 (power_up full_mem sample_tab) = (ee_complete, e') \<and>
     ee_val (ee_mem e') 1000 = Some 42"
  using ee_write_read [of "power_up full_mem sample_tab" 1000 42]
  by (simp add: power_up_def sample_ok) blast

text \<open>C4: A power failure at any point of \<open>EE_WriteVariable\<close>, under any schedule of flash failures and
  also during a page transfer, is repaired by the next \<open>EE_Init\<close>: every other variable of the table
  keeps its value and the written one has its old or its new value.\<close>

theorem ee_write_crash_safe:
  assumes "ee_ok (ee_mem e)" "snaps (ee_flash e) = []" "length (VirtAddVarTab e) = NB_OF_VAR"
    "0xFFFF \<notin> set (VirtAddVarTab e)" "va \<noteq> 0xFFFF"
    and "EE_WriteVariable va d e = (s, e')" "m \<in> set (ee_mem e # snaps (ee_flash e'))"
  shows "\<exists>e''. EE_Init (power_up m (VirtAddVarTab e)) = (ee_complete, e'') \<and> ee_ok (ee_mem e'') \<and>
    (\<forall>v\<in>set (VirtAddVarTab e).
       ee_val (ee_mem e'') v = ee_val (ee_mem e) v \<or> v = va \<and> ee_val (ee_mem e'') v = Some d)"
proof -
  let ?T = "set (VirtAddVarTab e)"
  obtain p es where rep: "ee_rep (ee_mem e) p (VALID_PAGE, es) (ERASED, [])" using assms(1) unfolding ee_ok_def by blast
  have "mid (insert va ?T) es va d (ee_mem e)"
    using rep unfolding mid_def recoverable_def settled_def agrees_def by blast
  moreover have "within (mid (insert va ?T) es va d) e e'"
    using write_variable_run [OF rep assms(3-6)] by blast
  ultimately have "mid (insert va ?T) es va d m"
    using assms(2,7) within_snaps by fastforce
  then obtain F where F: "F = log_get es \<or> F = (log_get es)(va \<mapsto> d)" "recoverable (insert va ?T) F m"
    unfolding mid_def by blast
  then have "recoverable ?T F m" unfolding recoverable_def settled_def agrees_def by blast
  then obtain e'' where e'': "EE_Init (power_up m (VirtAddVarTab e)) = (ee_complete, e'')" "settled ?T F VALID_PAGE (ee_mem e'')"
    using init_recovers [of "power_up m (VirtAddVarTab e)" F] assms(3,4) by (auto simp: power_up_def)
  have "ee_val (ee_mem e'') v = ee_val (ee_mem e) v \<or> v = va \<and> ee_val (ee_mem e'') v = Some d" if "v \<in> ?T" for v
  proof -
    have "v \<noteq> 0xFFFF" using that assms(4) by auto
    then show ?thesis using settled_val [OF e''(2) that] ee_val_log [OF rep, of v] F(1) by (auto split: if_splits)
  qed
  then show ?thesis using e'' settled_ok by blast
qed

theorem ee_write_crash_safe_witness:
  "\<exists>e''. EE_Init (power_up (last (full_mem # snaps (ee_flash (snd (EE_WriteVariable 7 42 sample_failing))))) sample_tab)
       = (ee_complete, e'') \<and> ee_val (ee_mem e'') 1000 = ee_val full_mem 1000"
proof -
  let ?e = sample_failing and ?w = "EE_WriteVariable 7 42 sample_failing"
  have "last (full_mem # snaps (ee_flash (snd ?w))) \<in> set (ee_mem ?e # snaps (ee_flash (snd ?w)))"
    using last_in_set [of "full_mem # snaps (ee_flash (snd ?w))"] by (simp only: sample_failing_def) simp
  from ee_write_crash_safe [OF _ _ _ _ _ surjective_pairing this]
  show ?thesis by (auto simp: sample_failing_def sample_ok)
qed

text \<open>A variable that is not in \<open>VirtAddVarTab\<close> does not survive a page transfer: once a write finds
  the page full, the variable reads as not found.\<close>

theorem ee_untracked_lost:
  assumes "ee_ok (ee_mem e)" "replies (ee_flash e) = []" "length (VirtAddVarTab e) = NB_OF_VAR"
    "0xFFFF \<notin> set (VirtAddVarTab e)" "va \<noteq> 0xFFFF"
    and "fst (EE_VerifyPageFullWriteVariable va d e) = PAGE_FULL"
    and "v \<notin> set (VirtAddVarTab e)" "v \<noteq> va" "v \<noteq> 0xFFFF"
  shows "\<exists>e'. EE_WriteVariable va d e = (ee_complete, e') \<and> ee_val (ee_mem e') v = None"
proof -
  obtain p es where rep: "ee_rep (ee_mem e) p (VALID_PAGE, es) (ERASED, [])" using assms(1) unfolding ee_ok_def by blast
  have "\<not> length es < 4095" using page_full_log(1) [OF rep assms(5,6)] by simp
  then obtain e' p' es' where e': "EE_WriteVariable va d e = (ee_complete, e')" "ee_rep (ee_mem e') p' (VALID_PAGE, es') (ERASED, [])"
    "\<forall>f\<in>set es'. fst f \<in> insert 0xFFFF (insert va (set (VirtAddVarTab e)))"
    using write_variable_log [OF rep assms(2-5), of d] by auto
  then have "ee_val (ee_mem e') v = None"
    using assms(7-9) by (auto simp: ee_val_log log_get_None)
  then show ?thesis using e'(1) by blast
qed

lemma sample_full: "fst (EE_VerifyPageFullWriteVariable va d (power_up full_mem sample_tab)) = PAGE_FULL"
proof -
  have rep: "ee_rep (ee_mem (power_up full_mem sample_tab)) 0 (VALID_PAGE, replicate 4095 (0, 0)) (ERASED, [])"
    using full_mem_rep by (simp add: power_up_def)
  show ?thesis
    using write_var_full [OF rep _ _ find_write [OF rep]] by simp
qed

lemma full_mem_val: "ee_val full_mem 0 = Some 0"
proof (cases "log_get (replicate 4095 (0, 0)) 0")
  case None
  then show ?thesis by (simp add: log_get_None)
next
  case (Some x)
  then show ?thesis using log_get_Some [OF Some] ee_val_log [OF full_mem_rep, of 0] by simp
qed

theorem ee_untracked_lost_witness:
  "ee_val full_mem 0 = Some 0 \<and>
   (\<exists>e'. EE_WriteVariable 1000 42 (power_up full_mem sample_tab) = (ee_complete, e') \<and> ee_val (ee_mem e') 0 = None)"
  using ee_untracked_lost [of "power_up full_mem sample_tab" 1000 42 0, OF _ _ _ _ _ sample_full]
  by (simp add: power_up_def sample_ok full_mem_val)

text \<open>\<open>EE_Init\<close> leaves a store in the state between operations untouched, whatever the flash would
  reply: it performs no flash operation.\<close>

theorem ee_init_idle:
  assumes "ee_ok (ee_mem e)"
  shows "EE_Init e = (ee_complete, e)"
  using assms init_settled unfolding ee_ok_def by blast

theorem ee_init_idle_witness: "EE_Init sample_failing = (ee_complete, sample_failing)"
  by (rule ee_init_idle) (simp add: sample_failing_def sample_ok)

text \<open>On an unused device, or with headers that no sequence of operations leaves, \<open>EE_Init\<close> formats
  the flash: it then holds an empty store.\<close>

theorem ee_init_formats:
  assumes "replies (ee_flash e) = []"
    and "let h0 = rd16 (ee_mem e) PAGE0_BASE_ADDRESS; h1 = rd16 (ee_mem e) PAGE1_BASE_ADDRESS in
      h0 = ERASED \<and> h1 \<notin> {VALID_PAGE, RECEIVE_DATA} \<or> h0 = RECEIVE_DATA \<and> h1 \<notin> {VALID_PAGE, ERASED} \<or>
      h0 = VALID_PAGE \<and> h1 = VALID_PAGE \<or> h0 \<notin> {ERASED, RECEIVE_DATA, VALID_PAGE}"
  shows "\<exists>e'. EE_Init e = (ee_complete, e') \<and> ee_ok (ee_mem e') \<and> (\<forall>v. v \<noteq> 0xFFFF \<longrightarrow> ee_val (ee_mem e') v = None)"
proof -
  have "EE_Init e = EE_Format e" using assms(2) by (auto simp: EE_Init_def Let_def)
  then show ?thesis
    using format_ok [OF assms(1)] ee_val_log unfolding ee_ok_def by (metis log_get_simps(1))
qed

theorem ee_init_formats_witness:
  "\<exists>e'. EE_Init (power_up (\<lambda>_. 0xFF) sample_tab) = (ee_complete, e') \<and> ee_ok (ee_mem e')"
proof -
  have "rd16 (\<lambda>_. 0xFF) a = ERASED" for a by (simp add: rd16_blank ERASED_def)
  then show ?thesis
    using ee_init_formats [of "power_up (\<lambda>_. 0xFF) sample_tab"] by (simp add: power_up_def) blast
qed

lemma within_snaps_mono: "within I e e' \<Longrightarrow> set (snaps (ee_flash e)) \<subseteq> set (snaps (ee_flash e'))"
  by (auto simp: within_def)

lemma program_snapshot:
  assumes "replies (ee_flash e) = []"
  shows "\<exists>e'. on_flash (FLASH_ProgramHalfWord a v) e = (ee_complete, e') \<and> ee_mem e' = prog16 (ee_mem e) a v \<and>
     ee_mem e' \<in> set (snaps (ee_flash e')) \<and> VirtAddVarTab e' = VirtAddVarTab e"
  using assms by (simp add: on_flash_def FLASH_ProgramHalfWord_def flash_operation_no_fault)

lemma init_second_failure:
  assumes tab: "length tab = NB_OF_VAR" "0xFFFF \<notin> set tab"
    and rep: "ee_rep m q (RECEIVE_DATA, []) (VALID_PAGE, es)"
  shows "\<exists>m2\<in>set (snaps (ee_flash (snd (EE_Init (power_up m tab))))).
    \<exists>ns. ee_rep m2 q (VALID_PAGE, ns) (VALID_PAGE, es)"
proof -
  let ?u = "power_up m tab"
  have q: "is_page q" using rep by (simp add: ee_rep_def)
  have x: "VirtAddVarTab ?u = tab \<and> xfer UNIV None q (log_get es) es 0 {} (ee_mem ?u)"
    using rep unfolding power_up_def xfer_def by (auto simp: recv_def intro!: exI [of _ "[]"])
  obtain s2 e2 where loop: "EE_Init_loop (base q) (- 1) [0..<NB_OF_VAR] ?u = (s2, e2)"
    by (cases "EE_Init_loop (base q) (- 1) [0..<NB_OF_VAR] ?u")
  note L = tripleD [OF triple_init_loop [OF tab subset_UNIV] x loop]
  have s2: "s2 = ee_complete" "replies (ee_flash e2) = []"
    using L(3) within_replies [OF L(1)] by (simp_all add: power_up_def)
  then obtain ns where rep2: "ee_rep (ee_mem e2) q (RECEIVE_DATA, ns) (VALID_PAGE, es)"
    using L(2) by (auto elim: xferE)
  obtain e3 where e3: "on_flash (FLASH_ProgramHalfWord (base q) VALID_PAGE) e2 = (ee_complete, e3)"
    "ee_mem e3 = prog16 (ee_mem e2) (base q) VALID_PAGE" "ee_mem e3 \<in> set (snaps (ee_flash e3))"
    using program_snapshot [OF s2(2)] by blast
  have tr: "triple (\<lambda>_. True) (\<lambda>_. True) (EE_EraseSectorIfNotEmpty (sector_of (1 - q))) (\<lambda>_. True)"
    using q by (intro triple_erase) auto
  have init: "EE_Init ?u = EE_EraseSectorIfNotEmpty (sector_of (1 - q)) e3"
    using init_cases(3) [of ?u] rep loop s2(1) e3(1) by (simp add: power_up_def EE_Init_transfer_def)
  have "ee_mem e3 \<in> set (snaps (ee_flash (snd (EE_Init ?u))))"
    using within_snaps_mono [OF tripleD(1) [OF tr TrueI surjective_pairing]] e3(3) unfolding init by blast
  then show ?thesis using ee_rep_header [OF rep2, of VALID_PAGE] e3(2) by auto
qed

lemma init_two_valid:
  assumes "ee_rep m q (VALID_PAGE, ns) (VALID_PAGE, es)"
  shows "\<exists>e'. EE_Init (power_up m tab) = (ee_complete, e') \<and> (\<forall>v. v \<noteq> 0xFFFF \<longrightarrow> ee_val (ee_mem e') v = None)"
proof -
  obtain e' where "EE_Format (power_up m tab) = (ee_complete, e')"
    "ee_rep (ee_mem e') 0 (VALID_PAGE, []) (ERASED, [])"
    using format_ok [of "power_up m tab"] by (auto simp: power_up_def)
  moreover have "EE_Init (power_up m tab) = EE_Format (power_up m tab)"
    using init_cases(4) [of "power_up m tab"] assms by (simp add: power_up_def)
  ultimately show ?thesis using ee_val_log by (metis log_get_simps(1))
qed

text \<open>The first step of a page transfer.\<close>

lemma transfer_first_step:
  assumes "ee_rep m p (VALID_PAGE, es) (ERASED, [])"
  shows "ee_rep (prog16 m (base (1 - p)) RECEIVE_DATA) (1 - p) (RECEIVE_DATA, []) (VALID_PAGE, es)"
  using ee_rep_header [OF ee_rep_swap [OF assms], of RECEIVE_DATA] by simp

text \<open>The repair is not safe against a second power failure. When a power failure interrupts a page
  transfer and another one interrupts the \<open>EE_Init\<close> that finishes it, after it has marked the new page
  valid and before it has erased the old one, the next \<open>EE_Init\<close> finds two valid pages and formats
  the flash: every variable is lost.\<close>

theorem ee_double_failure_loses_all:
  assumes "ee_ok (ee_mem e)" "replies (ee_flash e) = []" "length (VirtAddVarTab e) = NB_OF_VAR"
    "0xFFFF \<notin> set (VirtAddVarTab e)" "va \<noteq> 0xFFFF"
    and "fst (EE_VerifyPageFullWriteVariable va d e) = PAGE_FULL"
  shows "\<exists>m1\<in>set (snaps (ee_flash (snd (EE_WriteVariable va d e)))).
    \<exists>m2\<in>set (snaps (ee_flash (snd (EE_Init (power_up m1 (VirtAddVarTab e)))))).
    \<exists>e'. EE_Init (power_up m2 (VirtAddVarTab e)) = (ee_complete, e') \<and>
         (\<forall>v. v \<noteq> 0xFFFF \<longrightarrow> ee_val (ee_mem e') v = None)"
proof -
  obtain p es where rep: "ee_rep (ee_mem e) p (VALID_PAGE, es) (ERASED, [])" using assms(1) unfolding ee_ok_def by blast
  then have p: "is_page p" by (simp add: ee_rep_def)
  let ?q = "1 - p" and ?m1 = "prog16 (ee_mem e) (base (1 - p)) RECEIVE_DATA"
  obtain e1 where e1: "on_flash (FLASH_ProgramHalfWord (base ?q) RECEIVE_DATA) e = (ee_complete, e1)"
    "ee_mem e1 = ?m1" "ee_mem e1 \<in> set (snaps (ee_flash e1))" "VirtAddVarTab e1 = VirtAddVarTab e"
    using program_snapshot [OF assms(2)] by blast
  note rep1 = transfer_first_step [OF rep]
  have "EE_WriteVariable va d e = page_transfer_from p va d e" by (rule page_full_log(2) [OF rep assms(5,6)])
  then have "page_transfer_rest p va d e1 = (fst (EE_WriteVariable va d e), snd (EE_WriteVariable va d e))"
    using e1(1) by (simp add: page_transfer_from_def)
  from within_snaps_mono [OF tripleD(1) [OF triple_transfer_rest [OF assms(3-5) p, of es] _ this]] rep1 e1
  have "?m1 \<in> set (snaps (ee_flash (snd (EE_WriteVariable va d e))))" by auto
  then show ?thesis using init_second_failure [OF assms(3,4) rep1] init_two_valid by meson
qed

theorem ee_double_failure_loses_all_witness:
  "\<exists>m1\<in>set (snaps (ee_flash (snd (EE_WriteVariable 1000 42 (power_up full_mem sample_tab))))).
    \<exists>m2\<in>set (snaps (ee_flash (snd (EE_Init (power_up m1 sample_tab))))).
    \<exists>e'. EE_Init (power_up m2 sample_tab) = (ee_complete, e') \<and> ee_val (ee_mem e') 0 = None"
  using ee_double_failure_loses_all [of "power_up full_mem sample_tab" 1000 42, OF _ _ _ _ _ sample_full]
  by (simp add: power_up_def sample_ok) force

text \<open>After a page transfer that a flash failure aborted, without a restart, a write is reported as
  complete and yet not read back: it goes to the page that receives data, while reads still use the
  old one.\<close>

theorem ee_write_after_failed_transfer:
  assumes "ee_ok (ee_mem e)" "replies (ee_flash e) = [(FLASH_COMPLETE, b1), (FLASH_COMPLETE, b2), (s, b3)]"
    "s \<noteq> FLASH_COMPLETE" "va \<noteq> 0xFFFF" "fst (EE_VerifyPageFullWriteVariable va d e) = PAGE_FULL"
    and "v \<noteq> 0xFFFF"
  shows "\<exists>e1 e2. EE_WriteVariable va d e = (status_code s, e1) \<and>
    EE_WriteVariable v x e1 = (ee_complete, e2) \<and> ee_val (ee_mem e2) v = ee_val (ee_mem e) v"
proof -
  obtain p es where rep: "ee_rep (ee_mem e) p (VALID_PAGE, es) (ERASED, [])" using assms(1) unfolding ee_ok_def by blast
  let ?q = "1 - p" and ?m1 = "prog16 (ee_mem e) (base (1 - p)) RECEIVE_DATA"
  note rep1 = transfer_first_step [OF rep]
  obtain e0 where e0: "on_flash (FLASH_ProgramHalfWord (base ?q) RECEIVE_DATA) e = (ee_complete, e0)"
    "ee_mem e0 = ?m1" "replies (ee_flash e0) = [(s, b3)]"
    using assms(2) by (simp add: on_flash_def FLASH_ProgramHalfWord_def flash_operation_def FLASH_WaitForLastOperation_def)
  have r0: "ee_rep (ee_mem e0) ?q (RECEIVE_DATA, []) (VALID_PAGE, es)" using rep1 e0(2) by simp
  then have q: "is_page ?q" "page_rep (ee_mem e0) ?q (RECEIVE_DATA, [])" by (simp_all add: ee_rep_def)
  have fail: "on_flash (FLASH_ProgramHalfWord a w) e0 = (status_code s, e0\<lparr>ee_flash := (ee_flash e0)\<lparr>replies := []\<rparr>\<rparr>)" for a w
    using e0(3) assms(3) by (simp add: on_flash_def FLASH_ProgramHalfWord_def flash_operation_def FLASH_WaitForLastOperation_def)
  let ?e1 = "e0\<lparr>ee_flash := (ee_flash e0)\<lparr>replies := []\<rparr>\<rparr>"
  have "EE_VerifyPageFullWriteVariable va d e0 = (status_code s, ?e1)"
    using write_var_eq [OF r0 _ _ find_write [OF r0], of va d] fail assms(3) by simp
  then have "EE_WriteVariable va d e = (status_code s, ?e1)"
    using page_full_log(2) [OF rep assms(4,5)] e0(1) assms(3) by (simp add: page_transfer_from_def page_transfer_rest_def)
  moreover obtain s2 e2 where w: "EE_VerifyPageFullWriteVariable v x ?e1 = (s2, e2)"
    by (cases "EE_VerifyPageFullWriteVariable v x ?e1")
  have r1: "ee_rep (ee_mem ?e1) ?q (RECEIVE_DATA, []) (VALID_PAGE, es)" using r0 by simp
  note W = write_var_log [OF r1 _ _ assms(6) find_write [OF r1] w, simplified]
  have "EE_WriteVariable v x ?e1 = (ee_complete, e2)" using W(3,4) w by (simp add: EE_WriteVariable_def)
  moreover have "ee_val (ee_mem e2) v = ee_val (ee_mem e) v"
    using ee_val_page [OF ee_rep_swap [OF W(2)], of v] page_neq(4) W(3) ee_val_log [OF rep] assms(6) by simp
  ultimately show ?thesis by blast
qed

theorem ee_write_after_failed_transfer_witness:
  "\<exists>e1 e2. EE_WriteVariable 1000 1 ((power_up full_mem sample_tab)\<lparr>ee_flash := \<lparr>fmem = full_mem,
      replies = [(FLASH_COMPLETE, True), (FLASH_COMPLETE, True), (FLASH_ERROR_WRP, False)], snaps = []\<rparr>\<rparr>)
      = (6, e1) \<and> EE_WriteVariable 0 2 e1 = (ee_complete, e2) \<and> ee_val (ee_mem e2) 0 = Some 0"
proof -
  let ?e = "(power_up full_mem sample_tab)\<lparr>ee_flash := \<lparr>fmem = full_mem,
      replies = [(FLASH_COMPLETE, True), (FLASH_COMPLETE, True), (FLASH_ERROR_WRP, False)], snaps = []\<rparr>\<rparr>"
  have "fst (EE_VerifyPageFullWriteVariable 1000 1 ?e) = PAGE_FULL"
    using full_mem_rep write_var_full [of ?e 0 VALID_PAGE "replicate 4095 (0, 0)" "(ERASED, [])"]
      find_write [of full_mem 0 VALID_PAGE "replicate 4095 (0, 0)"] by simp
  from ee_write_after_failed_transfer [OF _ _ _ _ this, where v = 0 and x = 2 and s = FLASH_ERROR_WRP and ?b1.0 = True and ?b2.0 = True and ?b3.0 = False]
  show ?thesis by (simp add: sample_ok full_mem_val)
qed

end
