(* ===== verification/Utils.thy ===== *)
theory Utils
  imports Prelude Float32 "HOL-Library.While_Combinator"
begin

text \<open>
  The helper functions of \<open>utils.c\<close>: ramps, angle normalisation, limits, maps, the fast
  approximations of trigonometric functions, and the counted system lock. A function that updates a
  value through a pointer returns the new value. The wrap-around loops add or subtract a full turn
  in binary32 and need not end for large angles, so they are \<open>while_option\<close> loops: \<^term>\<open>None\<close> is a loop
  that runs forever.

  \<open>utils_fast_inv_sqrt\<close>, which reinterprets the bits of a \<open>float\<close>, is not modelled.
\<close>

section \<open>Operations\<close>

definition utils_step_towards :: "real \<Rightarrow> real \<Rightarrow> real \<Rightarrow> real" where
  "utils_step_towards value goal step =
     (if value < goal then (if fl (value + step) < goal then fl (value + step) else goal)
      else if value > goal then (if fl (value - step) > goal then fl (value - step) else goal)
      else value)"

definition utils_calc_ratio :: "real \<Rightarrow> real \<Rightarrow> real \<Rightarrow> real" where
  "utils_calc_ratio low high val = fl (fl (val - low) / fl (high - low))"

text \<open>\<open>fmodf\<close> is exact: the remainder of a truncated division.\<close>

definition fmodf :: "real \<Rightarrow> real \<Rightarrow> real" where
  "fmodf x y = x - y * of_int (ftrunc (x / y))"

definition utils_norm_angle :: "real \<Rightarrow> real" where
  "utils_norm_angle angle = (let a = fmodf angle 360 in if a < 0 then fl (a + 360) else a)"

definition M_PI :: real where "M_PI = fl 3.14159265358979323846"

text \<open>The loops \<open>while (x < lo) x += per;\<close> and \<open>while (x > hi) x -= per;\<close>.\<close>

definition add_until :: "real \<Rightarrow> real \<Rightarrow> real \<Rightarrow> real option" where
  "add_until lo per = while_option (\<lambda>x. x < lo) (\<lambda>x. fl (x + per))"

definition sub_until :: "real \<Rightarrow> real \<Rightarrow> real \<Rightarrow> real option" where
  "sub_until hi per = while_option (\<lambda>x. x > hi) (\<lambda>x. fl (x - per))"

definition utils_norm_angle_rad :: "real \<Rightarrow> real option" where
  "utils_norm_angle_rad angle =
     do { a \<leftarrow> add_until (- M_PI) (fl (2 * M_PI)) angle; sub_until M_PI (fl (2 * M_PI)) a }"

definition utils_truncate_number :: "real \<Rightarrow> real \<Rightarrow> real \<Rightarrow> int \<times> real" where
  "utils_truncate_number number lo hi =
     (if number > hi then (1, hi) else if number < lo then (1, lo) else (0, number))"

definition utils_map :: "real \<Rightarrow> real \<Rightarrow> real \<Rightarrow> real \<Rightarrow> real \<Rightarrow> real" where
  "utils_map x in_min in_max out_min out_max =
     fl (fl (fl (fl (x - in_min) * fl (out_max - out_min)) / fl (in_max - in_min)) + out_min)"

text \<open>Integer division truncates towards zero. Overflow of the 32-bit product and division by zero are
  undefined: \<^term>\<open>None\<close>.\<close>

definition int32_ok :: "int \<Rightarrow> bool" where
  "int32_ok k \<longleftrightarrow> - (2 ^ 31) \<le> k \<and> k < 2 ^ 31"

definition c_div :: "int \<Rightarrow> int \<Rightarrow> int" where
  "c_div a b = sgn a * sgn b * (\<bar>a\<bar> div \<bar>b\<bar>)"

definition utils_map_int :: "int \<Rightarrow> int \<Rightarrow> int \<Rightarrow> int \<Rightarrow> int \<Rightarrow> int option" where
  "utils_map_int x in_min in_max out_min out_max =
     (let p = (x - in_min) * (out_max - out_min); q = in_max - in_min; r = c_div p q + out_min in
      if int32_ok (x - in_min) \<and> int32_ok (out_max - out_min) \<and> int32_ok p \<and> int32_ok q \<and> q \<noteq> 0 \<and>
         int32_ok (c_div p q) \<and> int32_ok r
      then Some r else None)"

definition utils_deadband :: "real \<Rightarrow> real \<Rightarrow> real \<Rightarrow> real" where
  "utils_deadband value tres mx =
     (if \<bar>value\<bar> < tres then 0
      else let k = fl (mx / fl (mx - tres)) in
        if value > 0 then fl (fl (k * value) + fl (mx * fl (1 - k)))
        else - fl (fl (k * - value) + fl (mx * fl (1 - k))))"

definition utils_angle_difference :: "real \<Rightarrow> real \<Rightarrow> real option" where
  "utils_angle_difference angle1 angle2 =
     do { d \<leftarrow> add_until (- 180) 360 (fl (angle1 - angle2)); sub_until 180 360 d }"

definition utils_angle_difference_rad :: "real \<Rightarrow> real \<Rightarrow> real option" where
  "utils_angle_difference_rad angle1 angle2 =
     do { d \<leftarrow> add_until (- M_PI) (fl (2 * M_PI)) (fl (angle1 - angle2)); sub_until M_PI (fl (2 * M_PI)) d }"

definition utils_middle_of_3 :: "real \<Rightarrow> real \<Rightarrow> real \<Rightarrow> real" where
  "utils_middle_of_3 a b c =
     (if a \<le> b \<and> a \<le> c then (if b \<le> c then b else c)
      else if b \<le> a \<and> b \<le> c then (if a \<le> c then a else c)
      else (if a \<le> b then a else b))"

definition utils_middle_of_3_int :: "int \<Rightarrow> int \<Rightarrow> int \<Rightarrow> int" where
  "utils_middle_of_3_int a b c =
     (if a \<le> b \<and> a \<le> c then (if b \<le> c then b else c)
      else if b \<le> a \<and> b \<le> c then (if a \<le> c then a else c)
      else (if a \<le> b then a else b))"

definition utils_fast_atan2 :: "real \<Rightarrow> real \<Rightarrow> real" where
  "utils_fast_atan2 y x =
     (let abs_y = fl (\<bar>y\<bar> + fl (1 / 10 ^ 10));
          r = (if x \<ge> 0 then fl (fl (x - abs_y) / fl (x + abs_y)) else fl (fl (x + abs_y) / fl (abs_y - x)));
          rsq = fl (r * r);
          q = fl (fl (fl (fl 0.1963 * rsq) - fl 0.9817) * r);
          angle = (if x \<ge> 0 then fl (q + fl (M_PI / 4)) else fl (q + fl (fl (3 * M_PI) / 4))) in
      if y < 0 then - angle else angle)"

definition utils_saturate_vector_2d :: "real \<Rightarrow> real \<Rightarrow> real \<Rightarrow> bool \<times> real \<times> real" where
  "utils_saturate_vector_2d x y mx =
     (let mag = fl (sqrt (fl (fl (x * x) + fl (y * y))));
          mx = \<bar>mx\<bar>;
          mag = (if mag < fl (1 / 10 ^ 10) then fl (1 / 10 ^ 10) else mag) in
      if mag > mx then (let f = fl (mx / mag) in (True, fl (x * f), fl (y * f))) else (False, x, y))"

text \<open>The parabola approximating a sine on one half turn, and its refinement.\<close>

definition sin_parabola :: "real \<Rightarrow> real" where
  "sin_parabola angle =
     (let lin = fl (fl 1.27323954 * angle); sq = fl (fl (fl 0.405284735 * angle) * angle) in
      if angle < 0 then fl (lin + sq) else fl (lin - sq))"

definition sin_refine :: "real \<Rightarrow> real" where
  "sin_refine s =
     (if s < 0 then fl (fl (fl 0.225 * fl (fl (s * - s) - s)) + s)
      else fl (fl (fl 0.225 * fl (fl (s * s) - s)) + s))"

definition wrap_rad :: "real \<Rightarrow> real option" where
  "wrap_rad angle = do { a \<leftarrow> add_until (- M_PI) (fl (2 * M_PI)) angle; sub_until M_PI (fl (2 * M_PI)) a }"

definition quarter_turn :: "real \<Rightarrow> real" where
  "quarter_turn angle =
     (let a = fl (angle + fl (0.5 * M_PI)) in if a > M_PI then fl (a - fl (2 * M_PI)) else a)"

definition utils_fast_sincos :: "real \<Rightarrow> (real \<times> real) option" where
  "utils_fast_sincos angle =
     do { a \<leftarrow> wrap_rad angle; Some (sin_parabola a, sin_parabola (quarter_turn a)) }"

definition utils_fast_sincos_better :: "real \<Rightarrow> (real \<times> real) option" where
  "utils_fast_sincos_better angle =
     do { a \<leftarrow> wrap_rad angle;
          Some (sin_refine (sin_parabola a), sin_refine (sin_parabola (quarter_turn a))) }"

fun avg_angles_loop :: "(real \<times> real) list \<Rightarrow> real \<Rightarrow> real \<Rightarrow> (real \<times> real) option" where
  "avg_angles_loop [] s_sum c_sum = Some (s_sum, c_sum)"
| "avg_angles_loop ((angle, weight) # aws) s_sum c_sum =
     do { (s, c) \<leftarrow> utils_fast_sincos_better angle;
          avg_angles_loop aws (fl (s_sum + fl (s * weight))) (fl (c_sum + fl (c * weight))) }"

definition utils_avg_angles_rad_fast :: "real list \<Rightarrow> real list \<Rightarrow> nat \<Rightarrow> real option" where
  "utils_avg_angles_rad_fast angles weights angles_num =
     (if angles_num \<le> length angles \<and> angles_num \<le> length weights then
        do { (s, c) \<leftarrow> avg_angles_loop (take angles_num (zip angles weights)) 0 0; Some (utils_fast_atan2 s c) }
      else None)"

definition UTILS_LP_FAST :: "real \<Rightarrow> real \<Rightarrow> real \<Rightarrow> real" where
  "UTILS_LP_FAST value sample filter_constant = fl (value - fl (filter_constant * fl (value - sample)))"

definition SIGN :: "real \<Rightarrow> int" where
  "SIGN x = (if x < 0 then - 1 else 1)"

section \<open>The counted system lock\<close>

text \<open>The system state the lock protects: the counter, whether the kernel is locked, and the clock of
  the window watchdog, which the flash functions stop while they hold the lock.\<close>

record sys =
  sys_lock_cnt :: int
  kernel_locked :: bool
  wwdg_clock :: bool

definition utils_sys_lock_cnt :: "sys \<Rightarrow> sys" where
  "utils_sys_lock_cnt s =
     (let s1 = (if sys_lock_cnt s = 0 then s\<lparr>kernel_locked := True\<rparr> else s) in
      s1\<lparr>sys_lock_cnt := sys_lock_cnt s1 + 1\<rparr>)"

definition utils_sys_unlock_cnt :: "sys \<Rightarrow> sys" where
  "utils_sys_unlock_cnt s =
     (if sys_lock_cnt s \<noteq> 0 then
        (let s1 = s\<lparr>sys_lock_cnt := sys_lock_cnt s - 1\<rparr> in
         if sys_lock_cnt s1 = 0 then s1\<lparr>kernel_locked := False\<rparr> else s1)
      else s)"

definition RCC_WWDG :: "bool \<Rightarrow> sys \<Rightarrow> sys" where
  "RCC_WWDG b s = s\<lparr>wwdg_clock := b\<rparr>"


section \<open>Turns of 360 degrees\<close>

lemma add_until_unfold: "add_until lo per x = (if x < lo then add_until lo per (fl (x + per)) else Some x)"
  unfolding add_until_def by (subst while_option_unfold) simp

lemma sub_until_unfold: "sub_until hi per x = (if x > hi then sub_until hi per (fl (x - per)) else Some x)"
  unfolding sub_until_def by (subst while_option_unfold) simp

text \<open>Subtracting a turn is exact for every \<open>float\<close> above half a turn up to 2 to the 27.\<close>

lemma sub_turn_exact:
  assumes x: "is_f32 x" "180 < x" "x < 2 ^ 27"
  shows "fl (x - 360) = x - 360" and "is_f32 (x - 360)"
proof -
  define e where "e = fl_exp x"
  obtain k :: int where k: "x / 2 powr of_int e = of_int k" using is_f32_on_grid [OF x(1)] x(2) unfolding e_def by auto
  then have xk: "x = of_int k * 2 powr of_int e" by (simp add: field_simps)
  have "log 2 \<bar>x\<bar> < 27" using x(2,3) by (subst log_less_iff) auto
  then have "\<lfloor>log 2 \<bar>x\<bar>\<rfloor> \<le> 26" by linarith
  then have e3: "e \<le> 3" and e149: "-149 \<le> e" by (simp_all add: e_def fl_exp_def)
  define j :: int where "j = 45 * 2 ^ nat (3 - e)"
  have "(2::real) ^ nat (3 - e) * 2 powr of_int e = 2 powr (of_nat (nat (3 - e)) + of_int e)"
    by (simp add: powr_add powr_realpow)
  also have "\<dots> = 8" using e3 by simp
  finally have j: "360 = (of_int j * 2 powr of_int e :: real)" by (simp add: j_def mult.commute)
  have d: "x - 360 = of_int (k - j) * 2 powr of_int e" using xk j by (simp add: left_diff_distrib)
  have "\<bar>x\<bar> < 2 ^ 24 * 2 powr of_int e"
    using abs_less_fl_exp [of x] x(2) unfolding e_def by (simp add: powr_add)
  moreover have "\<bar>real_of_int (k - j)\<bar> * 2 powr of_int e = \<bar>x - 360\<bar>" unfolding d by (simp add: abs_mult)
  moreover have "\<bar>x - 360\<bar> \<le> \<bar>x\<bar>" using x(2) by linarith
  ultimately have "\<bar>real_of_int (k - j)\<bar> * 2 powr of_int e < 2 ^ 24 * 2 powr of_int e" by linarith
  then have "\<bar>real_of_int (k - j)\<bar> < 2 ^ 24" by (rule mult_right_less_imp_less) simp
  then have "real_of_int \<bar>k - j\<bar> < real_of_int (2 ^ 24)" by simp
  then have "\<bar>k - j\<bar> \<le> 2 ^ 24" unfolding of_int_less_iff by simp
  then show r: "is_f32 (x - 360)" unfolding is_f32_def d using e149 by blast
  then show "fl (x - 360) = x - 360" by (rule fl_exact)
qed

lemma sub_until_turns:
  assumes "is_f32 x" "x < 2 ^ 27" "x \<le> 180 + 360 * real n" "- 180 \<le> x"
  shows "\<exists>k :: nat. sub_until 180 360 x = Some (x - 360 * real k) \<and> \<bar>x - 360 * real k\<bar> \<le> 180"
  using assms
proof (induction n arbitrary: x)
  case 0
  then show ?case by (intro exI [of _ 0]) (subst sub_until_unfold, simp)
next
  case (Suc n)
  show ?case
  proof (cases "180 < x")
    case True
    note ex = sub_turn_exact [OF Suc.prems(1) True Suc.prems(2)]
    obtain k :: nat where "sub_until 180 360 (x - 360) = Some (x - 360 - 360 * real k) \<and> \<bar>x - 360 - 360 * real k\<bar> \<le> 180"
      using Suc.IH [OF ex(2)] Suc.prems True by auto
    then have "sub_until 180 360 (x - 360) = Some (x - 360 * real (Suc k)) \<and> \<bar>x - 360 * real (Suc k)\<bar> \<le> 180"
      by (simp add: algebra_simps)
    then show ?thesis
      using True ex(1) by (intro exI [of _ "Suc k"]) (subst sub_until_unfold, simp only: if_True)
  next
    case False
    then show ?thesis using Suc.prems by (intro exI [of _ 0]) (subst sub_until_unfold, simp)
  qed
qed

lemma add_until_turns:
  assumes "is_f32 x" "- (2 ^ 27) < x" "- 180 - 360 * real n \<le> x" "x \<le> 180"
  shows "\<exists>k :: nat. add_until (- 180) 360 x = Some (x + 360 * real k) \<and> \<bar>x + 360 * real k\<bar> \<le> 180"
  using assms
proof (induction n arbitrary: x)
  case 0
  then show ?case by (intro exI [of _ 0]) (subst add_until_unfold, simp)
next
  case (Suc n)
  show ?case
  proof (cases "x < - 180")
    case True
    have "is_f32 (- x)" using f32.repr_rnd [of "- x"] fl_exact [OF Suc.prems(1)] fl_minus [of x] by simp
    note ex = sub_turn_exact [OF this]
    have m: "- x - 360 = - (x + 360)" by simp
    have ex1: "fl (x + 360) = x + 360" using ex(1) Suc.prems True unfolding m fl_minus by simp
    have ex2: "is_f32 (x + 360)" using f32.repr_rnd [of "x + 360"] ex1 by simp
    obtain k :: nat where "add_until (- 180) 360 (x + 360) = Some (x + 360 + 360 * real k) \<and> \<bar>x + 360 + 360 * real k\<bar> \<le> 180"
      using Suc.IH [OF ex2] Suc.prems True by auto
    then have "add_until (- 180) 360 (x + 360) = Some (x + 360 * real (Suc k)) \<and> \<bar>x + 360 * real (Suc k)\<bar> \<le> 180"
      by (simp add: algebra_simps)
    then show ?thesis
      using True ex1 by (intro exI [of _ "Suc k"]) (subst add_until_unfold, simp only: if_True)
  next
    case False
    then show ?thesis using Suc.prems by (intro exI [of _ 0]) (subst add_until_unfold, simp)
  qed
qed


section \<open>Properties\<close>

lemma angle_turns:
  assumes "\<bar>fl (angle1 - angle2)\<bar> < 2 ^ 27"
  shows "\<exists>k :: int. utils_angle_difference angle1 angle2 = Some (fl (angle1 - angle2) - 360 * of_int k) \<and>
    \<bar>fl (angle1 - angle2) - 360 * of_int k\<bar> \<le> 180"
proof -
  let ?d = "fl (angle1 - angle2)"
  have d: "is_f32 ?d" by (rule fl_is_f32)
  obtain n :: nat where n: "(\<bar>?d\<bar> - 180) / 360 < real n" using reals_Archimedean2 by blast
  show ?thesis
  proof (cases "?d \<le> 180")
    case True
    obtain k :: nat where k: "add_until (- 180) 360 ?d = Some (?d + 360 * real k)" "\<bar>?d + 360 * real k\<bar> \<le> 180"
      using add_until_turns [OF d, of n] assms n True by (auto simp: field_simps abs_real_def split: if_splits)
    have "sub_until 180 360 (?d + 360 * real k) = Some (?d + 360 * real k)"
    proof -
      have "\<not> 180 < ?d + 360 * real k" using k(2) by linarith
      then show ?thesis by (subst sub_until_unfold) (simp only: if_False)
    qed
    then show ?thesis using k by (intro exI [of _ "- int k"]) (simp add: utils_angle_difference_def)
  next
    case False
    have "add_until (- 180) 360 ?d = Some ?d" using False by (subst add_until_unfold) simp
    moreover obtain k :: nat where "sub_until 180 360 ?d = Some (?d - 360 * real k)" "\<bar>?d - 360 * real k\<bar> \<le> 180"
      using sub_until_turns [OF d, of n] assms n False by (auto simp: field_simps)
    ultimately show ?thesis by (intro exI [of _ "int k"]) (simp add: utils_angle_difference_def)
  qed
qed

text \<open>For a difference below 2 to the 27 degrees, \<open>utils_angle_difference\<close> ends and returns the
  rounded difference reduced by whole turns, without further rounding, to between -180 and 180.\<close>

theorem angle_difference_correct:
  assumes "\<bar>fl (angle1 - angle2)\<bar> < 2 ^ 27"
  shows "\<exists>k :: int. utils_angle_difference angle1 angle2 = Some (fl (angle1 - angle2) - 360 * of_int k) \<and>
    \<bar>fl (angle1 - angle2) - 360 * of_int k\<bar> \<le> 180"
  using assms by (rule angle_turns)

theorem angle_difference_correct_witness:
  "\<exists>k :: int. utils_angle_difference 725 10 = Some (715 - 360 * of_int k) \<and> \<bar>715 - 360 * of_int k\<bar> \<le> (180 :: real)"
  using angle_difference_correct [of 725 10] by simp

lemma fl_absorb: "fl (2 ^ 34 - 360) = 2 ^ 34"
proof -
  have e: "fl_exp (2 ^ 34 - 360 :: real) = 10"
    using fl_exp_eq [of 33 "2 ^ 34 - 360"] by simp
  have "rne ((2 ^ 34 - 360) / 2 powr of_int 10) = 2 ^ 24"
    by (rule rne_eq) simp
  then show ?thesis using e by (simp add: fl_def)
qed

text \<open>For a large difference the loop of \<open>utils_angle_difference\<close> does not end: from 2 to the 34
  degrees on, a turn is less than half the spacing of the floats and the subtraction has no effect.\<close>

theorem angle_difference_diverges: "utils_angle_difference (2 ^ 34) 0 = None"
proof -
  have "sub_until 180 360 (2 ^ 34) = None"
  proof (rule ccontr)
    assume "sub_until 180 360 (2 ^ 34) \<noteq> None"
    then obtain t where t: "while_option (\<lambda>x. x > 180) (\<lambda>x. fl (x - 360)) (2 ^ 34) = Some t"
      by (auto simp: sub_until_def)
    have "t = 2 ^ 34" by (rule while_option_rule [OF _ t]) (use fl_absorb in simp_all)
    with while_option_stop [OF t] show False by simp
  qed
  moreover have "fl (2 ^ 34 - 0) = 2 ^ 34"
  proof -
    have "is_f32 (of_int 1 * 2 powr of_int 34)" unfolding is_f32_def by (intro exI [of _ 1] exI [of _ 34]) simp
    then show ?thesis using fl_exact by simp
  qed
  moreover have "add_until (- 180) 360 (2 ^ 34) = Some (2 ^ 34)" by (subst add_until_unfold) simp
  ultimately show ?thesis by (simp add: utils_angle_difference_def)
qed


lemma fmodf_bounds: "0 < y \<Longrightarrow> \<bar>fmodf x y\<bar> < y"
proof -
  assume y: "0 < y"
  have "\<bar>x / y - of_int (ftrunc (x / y))\<bar> < 1" unfolding ftrunc_def by (auto; linarith)
  then have "y * \<bar>x / y - of_int (ftrunc (x / y))\<bar> < y * 1" using y by (rule mult_strict_left_mono)
  moreover have "fmodf x y = y * (x / y - of_int (ftrunc (x / y)))"
    using y by (simp add: fmodf_def right_diff_distrib)
  ultimately show ?thesis using y by (simp add: abs_mult)
qed

lemma fl_near_360: "fl (360 - 1 / 2 ^ 20) = 360"
proof -
  have e: "fl_exp (360 - 1 / 2 ^ 20 :: real) = -15"
    using fl_exp_eq [of 8 "360 - 1 / 2 ^ 20"] by (simp add: field_simps)
  have "rne ((360 - 1 / 2 ^ 20) / 2 powr of_int (- 15)) = 360 * 2 ^ 15"
    by (rule rne_eq) (simp add: powr_minus field_simps)
  then show ?thesis using e by (simp add: fl_def powr_minus)
qed

text \<open>\<open>utils_norm_angle\<close> returns an angle from 0 to 360, which differs from its argument by whole
  turns up to the rounding of one addition; but 360 itself is a possible result, since a small
  negative angle plus 360 rounds to 360.\<close>

theorem norm_angle_range:
  "0 \<le> utils_norm_angle angle \<and> utils_norm_angle angle \<le> 360 \<and>
   (\<exists>k :: int. let r = angle - 360 * of_int k in \<bar>r\<bar> < 360 \<and>
      utils_norm_angle angle = (if r < 0 then fl (r + 360) else r)) \<and>
   utils_norm_angle (- (1 / 2 ^ 20)) = 360"
proof -
  have b: "\<bar>fmodf x 360\<bar> < 360" for x by (rule fmodf_bounds) simp
  have r360: "is_f32 360" using is_f32_of_int [of 360] by simp
  have "0 \<le> fl (a + 360) \<and> fl (a + 360) \<le> 360" if "\<bar>a\<bar> < 360" "a < 0" for a
    using that f32.rnd_nonneg [of "a + 360"] f32.rnd_le [OF _ r360, of "a + 360"] by auto
  then have "0 \<le> utils_norm_angle angle \<and> utils_norm_angle angle \<le> 360"
    using b [of angle] by (auto simp: utils_norm_angle_def Let_def)
  moreover have "\<exists>k :: int. let r = angle - 360 * of_int k in \<bar>r\<bar> < 360 \<and>
      utils_norm_angle angle = (if r < 0 then fl (r + 360) else r)"
    using b [of angle] by (intro exI [of _ "ftrunc (angle / 360)"]) (simp add: utils_norm_angle_def fmodf_def Let_def)
  moreover have "fmodf (- (1 / 2 ^ 20)) 360 = - (1 / 2 ^ 20)"
    by (simp add: fmodf_def ftrunc_def ceiling_eq_iff)
  then have "utils_norm_angle (- (1 / 2 ^ 20)) = 360"
    using fl_near_360 by (simp add: utils_norm_angle_def Let_def)
  ultimately show ?thesis by blast
qed

text \<open>\<open>utils_middle_of_3\<close> and its integer version return the median: the middle element of the three
  values in sorted order.\<close>

theorem middle_of_3_median:
  "utils_middle_of_3 a b c = sort [a, b, c] ! 1 \<and> utils_middle_of_3_int i j k = sort [i, j, k] ! 1"
  by (auto simp: utils_middle_of_3_def utils_middle_of_3_int_def)

text \<open>\<open>utils_step_towards\<close> with a step that is not negative moves towards the goal, never past it,
  and reaches it when it is within one step.\<close>

theorem step_towards_approaches:
  assumes "0 \<le> step" "is_f32 value" "is_f32 goal"
  shows "(value \<le> goal \<longrightarrow> value \<le> utils_step_towards value goal step \<and> utils_step_towards value goal step \<le> goal) \<and>
    (goal \<le> value \<longrightarrow> goal \<le> utils_step_towards value goal step \<and> utils_step_towards value goal step \<le> value) \<and>
    (\<bar>value - goal\<bar> \<le> step \<longrightarrow> utils_step_towards value goal step = goal)"
proof -
  have up: "value \<le> fl (value + step)" and down: "fl (value - step) \<le> value"
    using assms f32.rnd_ge [of "value" "value + step"] f32.rnd_le [of "value - step" "value"] by auto
  have "\<bar>value - goal\<bar> \<le> step \<Longrightarrow> utils_step_towards value goal step = goal"
    using assms f32.rnd_ge [of goal "value + step"] f32.rnd_le [of "value - step" goal]
    by (auto simp: utils_step_towards_def)
  then show ?thesis using up down by (auto simp: utils_step_towards_def)
qed

theorem step_towards_approaches_witness:
  "utils_step_towards 1 3 4 = 3 \<and> utils_step_towards 1 3 1 \<le> 3"
proof -
  have r: "is_f32 1" "is_f32 3" using is_f32_of_int [of 1] is_f32_of_int [of 3] by simp_all
  show ?thesis
    using step_towards_approaches [of 4 1 3] step_towards_approaches [of 1 1 3] r by simp
qed

text \<open>Sequences of lock operations; \<open>nested\<close> ones have an unlock for every lock.\<close>

datatype lock_op = Lock | Unlock

fun lock_step :: "lock_op \<Rightarrow> sys \<Rightarrow> sys" where
  "lock_step Lock s = utils_sys_lock_cnt s"
| "lock_step Unlock s = utils_sys_unlock_cnt s"

inductive nested :: "lock_op list \<Rightarrow> bool" where
  nested_Nil: "nested []"
| nested_pair: "nested xs \<Longrightarrow> nested ys \<Longrightarrow> nested (Lock # xs @ Unlock # ys)"

definition sys_ok :: "sys \<Rightarrow> bool" where
  "sys_ok s \<longleftrightarrow> 0 \<le> sys_lock_cnt s \<and> (kernel_locked s \<longleftrightarrow> 0 < sys_lock_cnt s)"

lemma sys_ok_step: "sys_ok s \<Longrightarrow> sys_ok (lock_step x s)"
  by (cases x) (auto simp: sys_ok_def utils_sys_lock_cnt_def utils_sys_unlock_cnt_def Let_def)

lemma sys_unlock_lock: "sys_ok s \<Longrightarrow> utils_sys_unlock_cnt (utils_sys_lock_cnt s) = s"
  by (cases s) (auto simp: sys_ok_def utils_sys_lock_cnt_def utils_sys_unlock_cnt_def Let_def)

text \<open>The frame of the flash functions: locked and without watchdog clock inside, everything as before after it.\<close>

lemma leave_enter: "sys_ok s \<Longrightarrow> wwdg_clock s \<Longrightarrow> utils_sys_unlock_cnt (RCC_WWDG True (RCC_WWDG False (utils_sys_lock_cnt s))) = s"
  using sys_unlock_lock [of s] by (cases s) (auto simp: RCC_WWDG_def utils_sys_lock_cnt_def utils_sys_unlock_cnt_def Let_def sys_ok_def)

lemma nested_restores: "nested xs \<Longrightarrow> sys_ok s \<Longrightarrow> fold lock_step xs s = s"
proof (induction xs arbitrary: s rule: nested.induct)
  case (nested_pair xs ys)
  then show ?case using sys_ok_step [of s Lock] by (simp add: sys_unlock_lock)
qed simp

text \<open>The counted lock: the kernel is locked exactly while the counter is positive, whatever the order
  of the calls, and a nesting of locks and unlocks ends in the state it started from.\<close>

theorem sys_lock_nesting:
  assumes "sys_ok s"
  shows "sys_ok (fold lock_step ops s) \<and> (nested ops \<longrightarrow> fold lock_step ops s = s)"
proof -
  have "sys_ok (fold lock_step ops s)"
    using assms by (induction ops arbitrary: s) (simp_all add: sys_ok_step)
  then show ?thesis using assms nested_restores by blast
qed

theorem sys_lock_nesting_witness:
  "fold lock_step [Lock, Lock, Unlock, Unlock] \<lparr>sys_lock_cnt = 0, kernel_locked = False, wwdg_clock = True\<rparr>
     = \<lparr>sys_lock_cnt = 0, kernel_locked = False, wwdg_clock = True\<rparr>"
proof -
  have "nested (Lock # [] @ Unlock # [])" by (intro nested.intros)
  then have "nested (Lock # [Lock, Unlock] @ Unlock # [])" by (intro nested_pair nested_Nil) simp
  then show ?thesis
    using sys_lock_nesting [of "\<lparr>sys_lock_cnt = 0, kernel_locked = False, wwdg_clock = True\<rparr>" "[Lock, Lock, Unlock, Unlock]"]
    by (simp add: sys_ok_def)
qed

end
