(* ===== verification/Datatypes.thy ===== *)
theory Datatypes
  imports Prelude Complex_Main
begin

text \<open>
  The data types of \<open>datatypes.h\<close>. An enumeration is a datatype with the constructors of the source.
  An enumeration that is read from a byte of a message or of the flash can hold any value of its
  underlying type, so it has one more constructor for the values that have no name, and the
  functions between the enumeration and its byte. A structure is a record; the fields that several
  structures share carry a prefix.
\<close>

type_synonym i8 = "8 word"
type_synonym i32 = "32 word"

section \<open>Enumerations\<close>

datatype mc_state =
  MC_STATE_OFF | MC_STATE_DETECTING | MC_STATE_RUNNING | MC_STATE_FULL_BRAKE

datatype mc_pwm_mode =
  PWM_MODE_NONSYNCHRONOUS_HISW | PWM_MODE_SYNCHRONOUS | PWM_MODE_BIPOLAR | mc_pwm_mode_other u8

fun mc_pwm_mode_code :: "mc_pwm_mode \<Rightarrow> u8" where
  "mc_pwm_mode_code PWM_MODE_NONSYNCHRONOUS_HISW = 0"
| "mc_pwm_mode_code PWM_MODE_SYNCHRONOUS = 1"
| "mc_pwm_mode_code PWM_MODE_BIPOLAR = 2"
| "mc_pwm_mode_code (mc_pwm_mode_other n) = n"

definition mc_pwm_mode_of :: "u8 \<Rightarrow> mc_pwm_mode" where
  "mc_pwm_mode_of n =
     (if n = 0 then PWM_MODE_NONSYNCHRONOUS_HISW else if n = 1 then PWM_MODE_SYNCHRONOUS else
      if n = 2 then PWM_MODE_BIPOLAR else mc_pwm_mode_other n)"

lemma mc_pwm_mode_code_of [simp]: "mc_pwm_mode_code (mc_pwm_mode_of n) = n"
  by (simp add: mc_pwm_mode_of_def)

datatype mc_comm_mode =
  COMM_MODE_INTEGRATE | COMM_MODE_DELAY | mc_comm_mode_other u8

fun mc_comm_mode_code :: "mc_comm_mode \<Rightarrow> u8" where
  "mc_comm_mode_code COMM_MODE_INTEGRATE = 0"
| "mc_comm_mode_code COMM_MODE_DELAY = 1"
| "mc_comm_mode_code (mc_comm_mode_other n) = n"

definition mc_comm_mode_of :: "u8 \<Rightarrow> mc_comm_mode" where
  "mc_comm_mode_of n =
     (if n = 0 then COMM_MODE_INTEGRATE else if n = 1 then COMM_MODE_DELAY else mc_comm_mode_other n)"

lemma mc_comm_mode_code_of [simp]: "mc_comm_mode_code (mc_comm_mode_of n) = n"
  by (simp add: mc_comm_mode_of_def)

datatype mc_sensor_mode =
  SENSOR_MODE_SENSORLESS | SENSOR_MODE_SENSORED | SENSOR_MODE_HYBRID | mc_sensor_mode_other u8

fun mc_sensor_mode_code :: "mc_sensor_mode \<Rightarrow> u8" where
  "mc_sensor_mode_code SENSOR_MODE_SENSORLESS = 0"
| "mc_sensor_mode_code SENSOR_MODE_SENSORED = 1"
| "mc_sensor_mode_code SENSOR_MODE_HYBRID = 2"
| "mc_sensor_mode_code (mc_sensor_mode_other n) = n"

definition mc_sensor_mode_of :: "u8 \<Rightarrow> mc_sensor_mode" where
  "mc_sensor_mode_of n =
     (if n = 0 then SENSOR_MODE_SENSORLESS else if n = 1 then SENSOR_MODE_SENSORED else
      if n = 2 then SENSOR_MODE_HYBRID else mc_sensor_mode_other n)"

lemma mc_sensor_mode_code_of [simp]: "mc_sensor_mode_code (mc_sensor_mode_of n) = n"
  by (simp add: mc_sensor_mode_of_def)

datatype mc_foc_sensor_mode =
  FOC_SENSOR_MODE_SENSORLESS | FOC_SENSOR_MODE_ENCODER | FOC_SENSOR_MODE_HALL
    | mc_foc_sensor_mode_other u8

fun mc_foc_sensor_mode_code :: "mc_foc_sensor_mode \<Rightarrow> u8" where
  "mc_foc_sensor_mode_code FOC_SENSOR_MODE_SENSORLESS = 0"
| "mc_foc_sensor_mode_code FOC_SENSOR_MODE_ENCODER = 1"
| "mc_foc_sensor_mode_code FOC_SENSOR_MODE_HALL = 2"
| "mc_foc_sensor_mode_code (mc_foc_sensor_mode_other n) = n"

definition mc_foc_sensor_mode_of :: "u8 \<Rightarrow> mc_foc_sensor_mode" where
  "mc_foc_sensor_mode_of n =
     (if n = 0 then FOC_SENSOR_MODE_SENSORLESS else if n = 1 then FOC_SENSOR_MODE_ENCODER else
      if n = 2 then FOC_SENSOR_MODE_HALL else mc_foc_sensor_mode_other n)"

lemma mc_foc_sensor_mode_code_of [simp]: "mc_foc_sensor_mode_code (mc_foc_sensor_mode_of n) = n"
  by (simp add: mc_foc_sensor_mode_of_def)

datatype mc_motor_type =
  MOTOR_TYPE_BLDC | MOTOR_TYPE_DC | MOTOR_TYPE_FOC | mc_motor_type_other u8

fun mc_motor_type_code :: "mc_motor_type \<Rightarrow> u8" where
  "mc_motor_type_code MOTOR_TYPE_BLDC = 0"
| "mc_motor_type_code MOTOR_TYPE_DC = 1"
| "mc_motor_type_code MOTOR_TYPE_FOC = 2"
| "mc_motor_type_code (mc_motor_type_other n) = n"

definition mc_motor_type_of :: "u8 \<Rightarrow> mc_motor_type" where
  "mc_motor_type_of n =
     (if n = 0 then MOTOR_TYPE_BLDC else if n = 1 then MOTOR_TYPE_DC else
      if n = 2 then MOTOR_TYPE_FOC else mc_motor_type_other n)"

lemma mc_motor_type_code_of [simp]: "mc_motor_type_code (mc_motor_type_of n) = n"
  by (simp add: mc_motor_type_of_def)

datatype mc_fault_code =
  FAULT_CODE_NONE | FAULT_CODE_OVER_VOLTAGE | FAULT_CODE_UNDER_VOLTAGE | FAULT_CODE_DRV8302
    | FAULT_CODE_ABS_OVER_CURRENT | FAULT_CODE_OVER_TEMP_FET | FAULT_CODE_OVER_TEMP_MOTOR

fun mc_fault_code_code :: "mc_fault_code \<Rightarrow> u8" where
  "mc_fault_code_code FAULT_CODE_NONE = 0"
| "mc_fault_code_code FAULT_CODE_OVER_VOLTAGE = 1"
| "mc_fault_code_code FAULT_CODE_UNDER_VOLTAGE = 2"
| "mc_fault_code_code FAULT_CODE_DRV8302 = 3"
| "mc_fault_code_code FAULT_CODE_ABS_OVER_CURRENT = 4"
| "mc_fault_code_code FAULT_CODE_OVER_TEMP_FET = 5"
| "mc_fault_code_code FAULT_CODE_OVER_TEMP_MOTOR = 6"

datatype mc_control_mode =
  CONTROL_MODE_DUTY | CONTROL_MODE_SPEED | CONTROL_MODE_CURRENT | CONTROL_MODE_CURRENT_BRAKE
    | CONTROL_MODE_POS | CONTROL_MODE_NONE

datatype disp_pos_mode =
  DISP_POS_MODE_NONE | DISP_POS_MODE_INDUCTANCE | DISP_POS_MODE_OBSERVER | DISP_POS_MODE_ENCODER
    | DISP_POS_MODE_PID_POS | DISP_POS_MODE_PID_POS_ERROR | DISP_POS_MODE_ENCODER_OBSERVER_ERROR
    | disp_pos_mode_other u8

fun disp_pos_mode_code :: "disp_pos_mode \<Rightarrow> u8" where
  "disp_pos_mode_code DISP_POS_MODE_NONE = 0"
| "disp_pos_mode_code DISP_POS_MODE_INDUCTANCE = 1"
| "disp_pos_mode_code DISP_POS_MODE_OBSERVER = 2"
| "disp_pos_mode_code DISP_POS_MODE_ENCODER = 3"
| "disp_pos_mode_code DISP_POS_MODE_PID_POS = 4"
| "disp_pos_mode_code DISP_POS_MODE_PID_POS_ERROR = 5"
| "disp_pos_mode_code DISP_POS_MODE_ENCODER_OBSERVER_ERROR = 6"
| "disp_pos_mode_code (disp_pos_mode_other n) = n"

definition disp_pos_mode_of :: "u8 \<Rightarrow> disp_pos_mode" where
  "disp_pos_mode_of n =
     (if n = 0 then DISP_POS_MODE_NONE else if n = 1 then DISP_POS_MODE_INDUCTANCE else
      if n = 2 then DISP_POS_MODE_OBSERVER else if n = 3 then DISP_POS_MODE_ENCODER else
      if n = 4 then DISP_POS_MODE_PID_POS else if n = 5 then DISP_POS_MODE_PID_POS_ERROR else
      if n = 6 then DISP_POS_MODE_ENCODER_OBSERVER_ERROR else disp_pos_mode_other n)"

lemma disp_pos_mode_code_of [simp]: "disp_pos_mode_code (disp_pos_mode_of n) = n"
  by (simp add: disp_pos_mode_of_def)

datatype sensor_port_mode =
  SENSOR_PORT_MODE_HALL | SENSOR_PORT_MODE_ABI | SENSOR_PORT_MODE_AS5047_SPI
    | sensor_port_mode_other u8

fun sensor_port_mode_code :: "sensor_port_mode \<Rightarrow> u8" where
  "sensor_port_mode_code SENSOR_PORT_MODE_HALL = 0"
| "sensor_port_mode_code SENSOR_PORT_MODE_ABI = 1"
| "sensor_port_mode_code SENSOR_PORT_MODE_AS5047_SPI = 2"
| "sensor_port_mode_code (sensor_port_mode_other n) = n"

definition sensor_port_mode_of :: "u8 \<Rightarrow> sensor_port_mode" where
  "sensor_port_mode_of n =
     (if n = 0 then SENSOR_PORT_MODE_HALL else if n = 1 then SENSOR_PORT_MODE_ABI else
      if n = 2 then SENSOR_PORT_MODE_AS5047_SPI else sensor_port_mode_other n)"

lemma sensor_port_mode_code_of [simp]: "sensor_port_mode_code (sensor_port_mode_of n) = n"
  by (simp add: sensor_port_mode_of_def)

datatype app_use =
  APP_NONE | APP_PPM | APP_ADC | APP_UART | APP_PPM_UART | APP_ADC_UART | APP_NUNCHUK | APP_NRF
    | APP_CUSTOM | app_use_other u8

fun app_use_code :: "app_use \<Rightarrow> u8" where
  "app_use_code APP_NONE = 0"
| "app_use_code APP_PPM = 1"
| "app_use_code APP_ADC = 2"
| "app_use_code APP_UART = 3"
| "app_use_code APP_PPM_UART = 4"
| "app_use_code APP_ADC_UART = 5"
| "app_use_code APP_NUNCHUK = 6"
| "app_use_code APP_NRF = 7"
| "app_use_code APP_CUSTOM = 8"
| "app_use_code (app_use_other n) = n"

definition app_use_of :: "u8 \<Rightarrow> app_use" where
  "app_use_of n =
     (if n = 0 then APP_NONE else if n = 1 then APP_PPM else if n = 2 then APP_ADC else
      if n = 3 then APP_UART else if n = 4 then APP_PPM_UART else if n = 5 then APP_ADC_UART else
      if n = 6 then APP_NUNCHUK else if n = 7 then APP_NRF else if n = 8 then APP_CUSTOM else app_use_other n)"

lemma app_use_code_of [simp]: "app_use_code (app_use_of n) = n"
  by (simp add: app_use_of_def)

datatype ppm_control_type =
  PPM_CTRL_TYPE_NONE | PPM_CTRL_TYPE_CURRENT | PPM_CTRL_TYPE_CURRENT_NOREV
    | PPM_CTRL_TYPE_CURRENT_NOREV_BRAKE | PPM_CTRL_TYPE_DUTY | PPM_CTRL_TYPE_DUTY_NOREV
    | PPM_CTRL_TYPE_PID | PPM_CTRL_TYPE_PID_NOREV | ppm_control_type_other u8

fun ppm_control_type_code :: "ppm_control_type \<Rightarrow> u8" where
  "ppm_control_type_code PPM_CTRL_TYPE_NONE = 0"
| "ppm_control_type_code PPM_CTRL_TYPE_CURRENT = 1"
| "ppm_control_type_code PPM_CTRL_TYPE_CURRENT_NOREV = 2"
| "ppm_control_type_code PPM_CTRL_TYPE_CURRENT_NOREV_BRAKE = 3"
| "ppm_control_type_code PPM_CTRL_TYPE_DUTY = 4"
| "ppm_control_type_code PPM_CTRL_TYPE_DUTY_NOREV = 5"
| "ppm_control_type_code PPM_CTRL_TYPE_PID = 6"
| "ppm_control_type_code PPM_CTRL_TYPE_PID_NOREV = 7"
| "ppm_control_type_code (ppm_control_type_other n) = n"

definition ppm_control_type_of :: "u8 \<Rightarrow> ppm_control_type" where
  "ppm_control_type_of n =
     (if n = 0 then PPM_CTRL_TYPE_NONE else if n = 1 then PPM_CTRL_TYPE_CURRENT else
      if n = 2 then PPM_CTRL_TYPE_CURRENT_NOREV else
      if n = 3 then PPM_CTRL_TYPE_CURRENT_NOREV_BRAKE else if n = 4 then PPM_CTRL_TYPE_DUTY else
      if n = 5 then PPM_CTRL_TYPE_DUTY_NOREV else if n = 6 then PPM_CTRL_TYPE_PID else
      if n = 7 then PPM_CTRL_TYPE_PID_NOREV else ppm_control_type_other n)"

lemma ppm_control_type_code_of [simp]: "ppm_control_type_code (ppm_control_type_of n) = n"
  by (simp add: ppm_control_type_of_def)

datatype adc_control_type =
  ADC_CTRL_TYPE_NONE | ADC_CTRL_TYPE_CURRENT | ADC_CTRL_TYPE_CURRENT_REV_CENTER
    | ADC_CTRL_TYPE_CURRENT_REV_BUTTON | ADC_CTRL_TYPE_CURRENT_NOREV_BRAKE_CENTER
    | ADC_CTRL_TYPE_CURRENT_NOREV_BRAKE_BUTTON | ADC_CTRL_TYPE_CURRENT_NOREV_BRAKE_ADC
    | ADC_CTRL_TYPE_DUTY | ADC_CTRL_TYPE_DUTY_REV_CENTER | ADC_CTRL_TYPE_DUTY_REV_BUTTON
    | adc_control_type_other u8

fun adc_control_type_code :: "adc_control_type \<Rightarrow> u8" where
  "adc_control_type_code ADC_CTRL_TYPE_NONE = 0"
| "adc_control_type_code ADC_CTRL_TYPE_CURRENT = 1"
| "adc_control_type_code ADC_CTRL_TYPE_CURRENT_REV_CENTER = 2"
| "adc_control_type_code ADC_CTRL_TYPE_CURRENT_REV_BUTTON = 3"
| "adc_control_type_code ADC_CTRL_TYPE_CURRENT_NOREV_BRAKE_CENTER = 4"
| "adc_control_type_code ADC_CTRL_TYPE_CURRENT_NOREV_BRAKE_BUTTON = 5"
| "adc_control_type_code ADC_CTRL_TYPE_CURRENT_NOREV_BRAKE_ADC = 6"
| "adc_control_type_code ADC_CTRL_TYPE_DUTY = 7"
| "adc_control_type_code ADC_CTRL_TYPE_DUTY_REV_CENTER = 8"
| "adc_control_type_code ADC_CTRL_TYPE_DUTY_REV_BUTTON = 9"
| "adc_control_type_code (adc_control_type_other n) = n"

definition adc_control_type_of :: "u8 \<Rightarrow> adc_control_type" where
  "adc_control_type_of n =
     (if n = 0 then ADC_CTRL_TYPE_NONE else if n = 1 then ADC_CTRL_TYPE_CURRENT else
      if n = 2 then ADC_CTRL_TYPE_CURRENT_REV_CENTER else
      if n = 3 then ADC_CTRL_TYPE_CURRENT_REV_BUTTON else
      if n = 4 then ADC_CTRL_TYPE_CURRENT_NOREV_BRAKE_CENTER else
      if n = 5 then ADC_CTRL_TYPE_CURRENT_NOREV_BRAKE_BUTTON else
      if n = 6 then ADC_CTRL_TYPE_CURRENT_NOREV_BRAKE_ADC else
      if n = 7 then ADC_CTRL_TYPE_DUTY else if n = 8 then ADC_CTRL_TYPE_DUTY_REV_CENTER else
      if n = 9 then ADC_CTRL_TYPE_DUTY_REV_BUTTON else adc_control_type_other n)"

lemma adc_control_type_code_of [simp]: "adc_control_type_code (adc_control_type_of n) = n"
  by (simp add: adc_control_type_of_def)

datatype chuk_control_type =
  CHUK_CTRL_TYPE_NONE | CHUK_CTRL_TYPE_CURRENT | CHUK_CTRL_TYPE_CURRENT_NOREV
    | chuk_control_type_other u8

fun chuk_control_type_code :: "chuk_control_type \<Rightarrow> u8" where
  "chuk_control_type_code CHUK_CTRL_TYPE_NONE = 0"
| "chuk_control_type_code CHUK_CTRL_TYPE_CURRENT = 1"
| "chuk_control_type_code CHUK_CTRL_TYPE_CURRENT_NOREV = 2"
| "chuk_control_type_code (chuk_control_type_other n) = n"

definition chuk_control_type_of :: "u8 \<Rightarrow> chuk_control_type" where
  "chuk_control_type_of n =
     (if n = 0 then CHUK_CTRL_TYPE_NONE else if n = 1 then CHUK_CTRL_TYPE_CURRENT else
      if n = 2 then CHUK_CTRL_TYPE_CURRENT_NOREV else chuk_control_type_other n)"

lemma chuk_control_type_code_of [simp]: "chuk_control_type_code (chuk_control_type_of n) = n"
  by (simp add: chuk_control_type_of_def)

datatype nrf_speed_t =
  NRF_SPEED_250K | NRF_SPEED_1M | NRF_SPEED_2M | nrf_speed_t_other u8

fun nrf_speed_t_code :: "nrf_speed_t \<Rightarrow> u8" where
  "nrf_speed_t_code NRF_SPEED_250K = 0"
| "nrf_speed_t_code NRF_SPEED_1M = 1"
| "nrf_speed_t_code NRF_SPEED_2M = 2"
| "nrf_speed_t_code (nrf_speed_t_other n) = n"

definition nrf_speed_t_of :: "u8 \<Rightarrow> nrf_speed_t" where
  "nrf_speed_t_of n =
     (if n = 0 then NRF_SPEED_250K else if n = 1 then NRF_SPEED_1M else
      if n = 2 then NRF_SPEED_2M else nrf_speed_t_other n)"

lemma nrf_speed_t_code_of [simp]: "nrf_speed_t_code (nrf_speed_t_of n) = n"
  by (simp add: nrf_speed_t_of_def)

datatype nrf_power_t =
  NRF_POWER_M18DBM | NRF_POWER_M12DBM | NRF_POWER_M6DBM | NRF_POWER_0DBM | nrf_power_t_other u8

fun nrf_power_t_code :: "nrf_power_t \<Rightarrow> u8" where
  "nrf_power_t_code NRF_POWER_M18DBM = 0"
| "nrf_power_t_code NRF_POWER_M12DBM = 1"
| "nrf_power_t_code NRF_POWER_M6DBM = 2"
| "nrf_power_t_code NRF_POWER_0DBM = 3"
| "nrf_power_t_code (nrf_power_t_other n) = n"

definition nrf_power_t_of :: "u8 \<Rightarrow> nrf_power_t" where
  "nrf_power_t_of n =
     (if n = 0 then NRF_POWER_M18DBM else if n = 1 then NRF_POWER_M12DBM else
      if n = 2 then NRF_POWER_M6DBM else if n = 3 then NRF_POWER_0DBM else nrf_power_t_other n)"

lemma nrf_power_t_code_of [simp]: "nrf_power_t_code (nrf_power_t_of n) = n"
  by (simp add: nrf_power_t_of_def)

datatype nrf_aw_t =
  NRF_AW_3 | NRF_AW_4 | NRF_AW_5

datatype nrf_crc_t =
  NRF_CRC_DISABLED | NRF_CRC_1B | NRF_CRC_2B | nrf_crc_t_other u8

fun nrf_crc_t_code :: "nrf_crc_t \<Rightarrow> u8" where
  "nrf_crc_t_code NRF_CRC_DISABLED = 0"
| "nrf_crc_t_code NRF_CRC_1B = 1"
| "nrf_crc_t_code NRF_CRC_2B = 2"
| "nrf_crc_t_code (nrf_crc_t_other n) = n"

definition nrf_crc_t_of :: "u8 \<Rightarrow> nrf_crc_t" where
  "nrf_crc_t_of n =
     (if n = 0 then NRF_CRC_DISABLED else if n = 1 then NRF_CRC_1B else
      if n = 2 then NRF_CRC_2B else nrf_crc_t_other n)"

lemma nrf_crc_t_code_of [simp]: "nrf_crc_t_code (nrf_crc_t_of n) = n"
  by (simp add: nrf_crc_t_of_def)

datatype nrf_retr_delay_t =
  NRF_RETR_DELAY_250US | NRF_RETR_DELAY_500US | NRF_RETR_DELAY_750US | NRF_RETR_DELAY_1000US
    | NRF_RETR_DELAY_1250US | NRF_RETR_DELAY_1500US | NRF_RETR_DELAY_1750US | NRF_RETR_DELAY_2000US
    | NRF_RETR_DELAY_2250US | NRF_RETR_DELAY_2500US | NRF_RETR_DELAY_2750US | NRF_RETR_DELAY_3000US
    | NRF_RETR_DELAY_3250US | NRF_RETR_DELAY_3500US | NRF_RETR_DELAY_3750US | NRF_RETR_DELAY_4000US
    | nrf_retr_delay_t_other u8

fun nrf_retr_delay_t_code :: "nrf_retr_delay_t \<Rightarrow> u8" where
  "nrf_retr_delay_t_code NRF_RETR_DELAY_250US = 0"
| "nrf_retr_delay_t_code NRF_RETR_DELAY_500US = 1"
| "nrf_retr_delay_t_code NRF_RETR_DELAY_750US = 2"
| "nrf_retr_delay_t_code NRF_RETR_DELAY_1000US = 3"
| "nrf_retr_delay_t_code NRF_RETR_DELAY_1250US = 4"
| "nrf_retr_delay_t_code NRF_RETR_DELAY_1500US = 5"
| "nrf_retr_delay_t_code NRF_RETR_DELAY_1750US = 6"
| "nrf_retr_delay_t_code NRF_RETR_DELAY_2000US = 7"
| "nrf_retr_delay_t_code NRF_RETR_DELAY_2250US = 8"
| "nrf_retr_delay_t_code NRF_RETR_DELAY_2500US = 9"
| "nrf_retr_delay_t_code NRF_RETR_DELAY_2750US = 10"
| "nrf_retr_delay_t_code NRF_RETR_DELAY_3000US = 11"
| "nrf_retr_delay_t_code NRF_RETR_DELAY_3250US = 12"
| "nrf_retr_delay_t_code NRF_RETR_DELAY_3500US = 13"
| "nrf_retr_delay_t_code NRF_RETR_DELAY_3750US = 14"
| "nrf_retr_delay_t_code NRF_RETR_DELAY_4000US = 15"
| "nrf_retr_delay_t_code (nrf_retr_delay_t_other n) = n"

definition nrf_retr_delay_t_of :: "u8 \<Rightarrow> nrf_retr_delay_t" where
  "nrf_retr_delay_t_of n =
     (if n = 0 then NRF_RETR_DELAY_250US else if n = 1 then NRF_RETR_DELAY_500US else
      if n = 2 then NRF_RETR_DELAY_750US else if n = 3 then NRF_RETR_DELAY_1000US else
      if n = 4 then NRF_RETR_DELAY_1250US else if n = 5 then NRF_RETR_DELAY_1500US else
      if n = 6 then NRF_RETR_DELAY_1750US else if n = 7 then NRF_RETR_DELAY_2000US else
      if n = 8 then NRF_RETR_DELAY_2250US else if n = 9 then NRF_RETR_DELAY_2500US else
      if n = 10 then NRF_RETR_DELAY_2750US else if n = 11 then NRF_RETR_DELAY_3000US else
      if n = 12 then NRF_RETR_DELAY_3250US else if n = 13 then NRF_RETR_DELAY_3500US else
      if n = 14 then NRF_RETR_DELAY_3750US else if n = 15 then NRF_RETR_DELAY_4000US else nrf_retr_delay_t_other n)"

lemma nrf_retr_delay_t_code_of [simp]: "nrf_retr_delay_t_code (nrf_retr_delay_t_of n) = n"
  by (simp add: nrf_retr_delay_t_of_def)

datatype COMM_PACKET_ID =
  COMM_FW_VERSION | COMM_JUMP_TO_BOOTLOADER | COMM_ERASE_NEW_APP | COMM_WRITE_NEW_APP_DATA
    | COMM_GET_VALUES | COMM_SET_DUTY | COMM_SET_CURRENT | COMM_SET_CURRENT_BRAKE | COMM_SET_RPM
    | COMM_SET_POS | COMM_SET_DETECT | COMM_SET_SERVO_POS | COMM_SET_MCCONF | COMM_GET_MCCONF
    | COMM_GET_MCCONF_DEFAULT | COMM_SET_APPCONF | COMM_GET_APPCONF | COMM_GET_APPCONF_DEFAULT
    | COMM_SAMPLE_PRINT | COMM_TERMINAL_CMD | COMM_PRINT | COMM_ROTOR_POSITION
    | COMM_EXPERIMENT_SAMPLE | COMM_DETECT_MOTOR_PARAM | COMM_DETECT_MOTOR_R_L
    | COMM_DETECT_MOTOR_FLUX_LINKAGE | COMM_DETECT_ENCODER | COMM_DETECT_HALL_FOC | COMM_REBOOT
    | COMM_ALIVE | COMM_GET_DECODED_PPM | COMM_GET_DECODED_ADC | COMM_GET_DECODED_CHUK
    | COMM_FORWARD_CAN | COMM_SET_CHUCK_DATA | COMM_CUSTOM_APP_DATA | COMM_PACKET_ID_other u8

fun COMM_PACKET_ID_code :: "COMM_PACKET_ID \<Rightarrow> u8" where
  "COMM_PACKET_ID_code COMM_FW_VERSION = 0"
| "COMM_PACKET_ID_code COMM_JUMP_TO_BOOTLOADER = 1"
| "COMM_PACKET_ID_code COMM_ERASE_NEW_APP = 2"
| "COMM_PACKET_ID_code COMM_WRITE_NEW_APP_DATA = 3"
| "COMM_PACKET_ID_code COMM_GET_VALUES = 4"
| "COMM_PACKET_ID_code COMM_SET_DUTY = 5"
| "COMM_PACKET_ID_code COMM_SET_CURRENT = 6"
| "COMM_PACKET_ID_code COMM_SET_CURRENT_BRAKE = 7"
| "COMM_PACKET_ID_code COMM_SET_RPM = 8"
| "COMM_PACKET_ID_code COMM_SET_POS = 9"
| "COMM_PACKET_ID_code COMM_SET_DETECT = 10"
| "COMM_PACKET_ID_code COMM_SET_SERVO_POS = 11"
| "COMM_PACKET_ID_code COMM_SET_MCCONF = 12"
| "COMM_PACKET_ID_code COMM_GET_MCCONF = 13"
| "COMM_PACKET_ID_code COMM_GET_MCCONF_DEFAULT = 14"
| "COMM_PACKET_ID_code COMM_SET_APPCONF = 15"
| "COMM_PACKET_ID_code COMM_GET_APPCONF = 16"
| "COMM_PACKET_ID_code COMM_GET_APPCONF_DEFAULT = 17"
| "COMM_PACKET_ID_code COMM_SAMPLE_PRINT = 18"
| "COMM_PACKET_ID_code COMM_TERMINAL_CMD = 19"
| "COMM_PACKET_ID_code COMM_PRINT = 20"
| "COMM_PACKET_ID_code COMM_ROTOR_POSITION = 21"
| "COMM_PACKET_ID_code COMM_EXPERIMENT_SAMPLE = 22"
| "COMM_PACKET_ID_code COMM_DETECT_MOTOR_PARAM = 23"
| "COMM_PACKET_ID_code COMM_DETECT_MOTOR_R_L = 24"
| "COMM_PACKET_ID_code COMM_DETECT_MOTOR_FLUX_LINKAGE = 25"
| "COMM_PACKET_ID_code COMM_DETECT_ENCODER = 26"
| "COMM_PACKET_ID_code COMM_DETECT_HALL_FOC = 27"
| "COMM_PACKET_ID_code COMM_REBOOT = 28"
| "COMM_PACKET_ID_code COMM_ALIVE = 29"
| "COMM_PACKET_ID_code COMM_GET_DECODED_PPM = 30"
| "COMM_PACKET_ID_code COMM_GET_DECODED_ADC = 31"
| "COMM_PACKET_ID_code COMM_GET_DECODED_CHUK = 32"
| "COMM_PACKET_ID_code COMM_FORWARD_CAN = 33"
| "COMM_PACKET_ID_code COMM_SET_CHUCK_DATA = 34"
| "COMM_PACKET_ID_code COMM_CUSTOM_APP_DATA = 35"
| "COMM_PACKET_ID_code (COMM_PACKET_ID_other n) = n"

definition COMM_PACKET_ID_of :: "u8 \<Rightarrow> COMM_PACKET_ID" where
  "COMM_PACKET_ID_of n =
     (if n = 0 then COMM_FW_VERSION else if n = 1 then COMM_JUMP_TO_BOOTLOADER else
      if n = 2 then COMM_ERASE_NEW_APP else if n = 3 then COMM_WRITE_NEW_APP_DATA else
      if n = 4 then COMM_GET_VALUES else if n = 5 then COMM_SET_DUTY else
      if n = 6 then COMM_SET_CURRENT else if n = 7 then COMM_SET_CURRENT_BRAKE else
      if n = 8 then COMM_SET_RPM else if n = 9 then COMM_SET_POS else
      if n = 10 then COMM_SET_DETECT else if n = 11 then COMM_SET_SERVO_POS else
      if n = 12 then COMM_SET_MCCONF else if n = 13 then COMM_GET_MCCONF else
      if n = 14 then COMM_GET_MCCONF_DEFAULT else if n = 15 then COMM_SET_APPCONF else
      if n = 16 then COMM_GET_APPCONF else if n = 17 then COMM_GET_APPCONF_DEFAULT else
      if n = 18 then COMM_SAMPLE_PRINT else if n = 19 then COMM_TERMINAL_CMD else
      if n = 20 then COMM_PRINT else if n = 21 then COMM_ROTOR_POSITION else
      if n = 22 then COMM_EXPERIMENT_SAMPLE else if n = 23 then COMM_DETECT_MOTOR_PARAM else
      if n = 24 then COMM_DETECT_MOTOR_R_L else if n = 25 then COMM_DETECT_MOTOR_FLUX_LINKAGE else
      if n = 26 then COMM_DETECT_ENCODER else if n = 27 then COMM_DETECT_HALL_FOC else
      if n = 28 then COMM_REBOOT else if n = 29 then COMM_ALIVE else
      if n = 30 then COMM_GET_DECODED_PPM else if n = 31 then COMM_GET_DECODED_ADC else
      if n = 32 then COMM_GET_DECODED_CHUK else if n = 33 then COMM_FORWARD_CAN else
      if n = 34 then COMM_SET_CHUCK_DATA else if n = 35 then COMM_CUSTOM_APP_DATA else COMM_PACKET_ID_other n)"

lemma COMM_PACKET_ID_code_of [simp]: "COMM_PACKET_ID_code (COMM_PACKET_ID_of n) = n"
  by (simp add: COMM_PACKET_ID_of_def)

datatype CAN_PACKET_ID =
  CAN_PACKET_SET_DUTY | CAN_PACKET_SET_CURRENT | CAN_PACKET_SET_CURRENT_BRAKE | CAN_PACKET_SET_RPM
    | CAN_PACKET_SET_POS | CAN_PACKET_FILL_RX_BUFFER | CAN_PACKET_FILL_RX_BUFFER_LONG
    | CAN_PACKET_PROCESS_RX_BUFFER | CAN_PACKET_PROCESS_SHORT_BUFFER | CAN_PACKET_STATUS
    | CAN_PACKET_ID_other u8

fun CAN_PACKET_ID_code :: "CAN_PACKET_ID \<Rightarrow> u8" where
  "CAN_PACKET_ID_code CAN_PACKET_SET_DUTY = 0"
| "CAN_PACKET_ID_code CAN_PACKET_SET_CURRENT = 1"
| "CAN_PACKET_ID_code CAN_PACKET_SET_CURRENT_BRAKE = 2"
| "CAN_PACKET_ID_code CAN_PACKET_SET_RPM = 3"
| "CAN_PACKET_ID_code CAN_PACKET_SET_POS = 4"
| "CAN_PACKET_ID_code CAN_PACKET_FILL_RX_BUFFER = 5"
| "CAN_PACKET_ID_code CAN_PACKET_FILL_RX_BUFFER_LONG = 6"
| "CAN_PACKET_ID_code CAN_PACKET_PROCESS_RX_BUFFER = 7"
| "CAN_PACKET_ID_code CAN_PACKET_PROCESS_SHORT_BUFFER = 8"
| "CAN_PACKET_ID_code CAN_PACKET_STATUS = 9"
| "CAN_PACKET_ID_code (CAN_PACKET_ID_other n) = n"

definition CAN_PACKET_ID_of :: "u8 \<Rightarrow> CAN_PACKET_ID" where
  "CAN_PACKET_ID_of n =
     (if n = 0 then CAN_PACKET_SET_DUTY else if n = 1 then CAN_PACKET_SET_CURRENT else
      if n = 2 then CAN_PACKET_SET_CURRENT_BRAKE else if n = 3 then CAN_PACKET_SET_RPM else
      if n = 4 then CAN_PACKET_SET_POS else if n = 5 then CAN_PACKET_FILL_RX_BUFFER else
      if n = 6 then CAN_PACKET_FILL_RX_BUFFER_LONG else
      if n = 7 then CAN_PACKET_PROCESS_RX_BUFFER else
      if n = 8 then CAN_PACKET_PROCESS_SHORT_BUFFER else if n = 9 then CAN_PACKET_STATUS else CAN_PACKET_ID_other n)"

lemma CAN_PACKET_ID_code_of [simp]: "CAN_PACKET_ID_code (CAN_PACKET_ID_of n) = n"
  by (simp add: CAN_PACKET_ID_of_def)

datatype LED_EXT_STATE =
  LED_EXT_OFF | LED_EXT_NORMAL | LED_EXT_BRAKE | LED_EXT_TURN_LEFT | LED_EXT_TURN_RIGHT
    | LED_EXT_BRAKE_TURN_LEFT | LED_EXT_BRAKE_TURN_RIGHT | LED_EXT_BATT

datatype MOTE_PACKET =
  MOTE_PACKET_BATT_LEVEL | MOTE_PACKET_BUTTONS | MOTE_PACKET_ALIVE | MOTE_PACKET_FILL_RX_BUFFER
    | MOTE_PACKET_FILL_RX_BUFFER_LONG | MOTE_PACKET_PROCESS_RX_BUFFER
    | MOTE_PACKET_PROCESS_SHORT_BUFFER

section \<open>Structures\<close>

record mc_rpm_dep_struct =
  cycle_int_limit :: real
  cycle_int_limit_running :: real
  cycle_int_limit_max :: real
  comm_time_sum :: real
  comm_time_sum_min_rpm :: real
  comms :: i32
  time_at_comm :: u32

record mc_configuration =
  pwm_mode :: mc_pwm_mode
  comm_mode :: mc_comm_mode
  motor_type :: mc_motor_type
  sensor_mode :: mc_sensor_mode
  l_current_max :: real
  l_current_min :: real
  l_in_current_max :: real
  l_in_current_min :: real
  l_abs_current_max :: real
  l_min_erpm :: real
  l_max_erpm :: real
  l_max_erpm_fbrake :: real
  l_max_erpm_fbrake_cc :: real
  l_min_vin :: real
  l_max_vin :: real
  l_battery_cut_start :: real
  l_battery_cut_end :: real
  l_slow_abs_current :: bool
  l_rpm_lim_neg_torque :: bool
  l_temp_fet_start :: real
  l_temp_fet_end :: real
  l_temp_motor_start :: real
  l_temp_motor_end :: real
  l_min_duty :: real
  l_max_duty :: real
  lo_current_max :: real
  lo_current_min :: real
  lo_in_current_max :: real
  lo_in_current_min :: real
  sl_min_erpm :: real
  sl_min_erpm_cycle_int_limit :: real
  sl_max_fullbreak_current_dir_change :: real
  sl_cycle_int_limit :: real
  sl_phase_advance_at_br :: real
  sl_cycle_int_rpm_br :: real
  sl_bemf_coupling_k :: real
  hall_table :: "i8 list"
  hall_sl_erpm :: real
  foc_current_kp :: real
  foc_current_ki :: real
  foc_f_sw :: real
  foc_dt_us :: real
  foc_encoder_offset :: real
  foc_encoder_inverted :: bool
  foc_encoder_ratio :: real
  foc_motor_l :: real
  foc_motor_r :: real
  foc_motor_flux_linkage :: real
  foc_observer_gain :: real
  foc_pll_kp :: real
  foc_pll_ki :: real
  foc_duty_dowmramp_kp :: real
  foc_duty_dowmramp_ki :: real
  foc_openloop_rpm :: real
  foc_sl_openloop_hyst :: real
  foc_sl_openloop_time :: real
  foc_sl_d_current_duty :: real
  foc_sl_d_current_factor :: real
  foc_sensor_mode :: mc_foc_sensor_mode
  foc_hall_table :: "u8 list"
  foc_sl_erpm :: real
  s_pid_kp :: real
  s_pid_ki :: real
  s_pid_kd :: real
  s_pid_min_erpm :: real
  p_pid_kp :: real
  p_pid_ki :: real
  p_pid_kd :: real
  p_pid_ang_div :: real
  cc_startup_boost_duty :: real
  cc_min_current :: real
  cc_gain :: real
  cc_ramp_step_max :: real
  m_fault_stop_time_ms :: i32
  m_duty_ramp_step :: real
  m_duty_ramp_step_rpm_lim :: real
  m_current_backoff_gain :: real
  m_encoder_counts :: u32
  m_sensor_port_mode :: sensor_port_mode

record ppm_config =
  ppm_ctrl_type :: ppm_control_type
  ppm_pid_max_erpm :: real
  ppm_hyst :: real
  ppm_pulse_start :: real
  ppm_pulse_end :: real
  ppm_median_filter :: bool
  ppm_safe_start :: bool
  ppm_rpm_lim_start :: real
  ppm_rpm_lim_end :: real
  ppm_multi_esc :: bool
  ppm_tc :: bool
  ppm_tc_max_diff :: real

record adc_config =
  adc_ctrl_type :: adc_control_type
  adc_hyst :: real
  adc_voltage_start :: real
  adc_voltage_end :: real
  adc_use_filter :: bool
  adc_safe_start :: bool
  adc_cc_button_inverted :: bool
  adc_rev_button_inverted :: bool
  adc_voltage_inverted :: bool
  adc_rpm_lim_start :: real
  adc_rpm_lim_end :: real
  adc_multi_esc :: bool
  adc_tc :: bool
  adc_tc_max_diff :: real
  adc_update_rate_hz :: u32

record chuk_config =
  chuk_ctrl_type :: chuk_control_type
  chuk_hyst :: real
  chuk_rpm_lim_start :: real
  chuk_rpm_lim_end :: real
  chuk_ramp_time_pos :: real
  chuk_ramp_time_neg :: real
  chuk_stick_erpm_per_s_in_cc :: real
  chuk_multi_esc :: bool
  chuk_tc :: bool
  chuk_tc_max_diff :: real

record nrf_config =
  nrf_speed :: nrf_speed_t
  nrf_power :: nrf_power_t
  nrf_crc_type :: nrf_crc_t
  nrf_retry_delay :: nrf_retr_delay_t
  nrf_retries :: u8
  nrf_channel :: u8
  nrf_address :: "u8 list"
  nrf_send_crc_ack :: bool

record app_configuration =
  controller_id :: u8
  timeout_msec :: u32
  timeout_brake_current :: real
  send_can_status :: bool
  send_can_status_rate_hz :: u32
  app_to_use :: app_use
  app_ppm_conf :: ppm_config
  app_adc_conf :: adc_config
  app_uart_baudrate :: u32
  app_chuk_conf :: chuk_config
  app_nrf_conf :: nrf_config

record fault_data =
  fd_fault :: mc_fault_code
  fd_current :: real
  fd_current_filtered :: real
  fd_voltage :: real
  fd_duty :: real
  fd_rpm :: real
  fd_tacho :: int
  fd_cycles_running :: int
  fd_tim_val_samp :: int
  fd_tim_current_samp :: int
  fd_tim_top :: int
  fd_comm_step :: int
  fd_temperature :: real

record chuck_data =
  cd_js_x :: int
  cd_js_y :: int
  cd_acc_x :: int
  cd_acc_y :: int
  cd_acc_z :: int
  cd_bt_c :: bool
  cd_bt_z :: bool

record can_status_msg =
  csm_id :: int
  csm_rx_time :: u32
  csm_rpm :: real
  csm_current :: real
  csm_duty :: real

record mote_state =
  ms_js_x :: u8
  ms_js_y :: u8
  ms_bt_c :: bool
  ms_bt_z :: bool
  ms_bt_push :: bool
  ms_vbat :: real

record mc_values =
  v_v_in :: real
  v_temp_mos1 :: real
  v_temp_mos2 :: real
  v_temp_mos3 :: real
  v_temp_mos4 :: real
  v_temp_mos5 :: real
  v_temp_mos6 :: real
  v_temp_pcb :: real
  v_current_motor :: real
  v_current_in :: real
  v_rpm :: real
  v_duty_now :: real
  v_amp_hours :: real
  v_amp_hours_charged :: real
  v_watt_hours :: real
  v_watt_hours_charged :: real
  v_tachometer :: int
  v_tachometer_abs :: int
  v_fault_code :: mc_fault_code

end
