(* ===== verification/ConfDefault.thy ===== *)
theory ConfDefault
  imports Float32 Datatypes
begin

text \<open>
  The compiled default configurations: the constants of \<open>mcconf/mcconf_default.h\<close> and
  \<open>appconf/appconf_default.h\<close>, which the build can override, and the functions of \<open>conf_general.c\<close> that
  assemble them. Both functions assign every field of their structure, so nothing remains of the
  \<open>memset\<close> that precedes the assignments.
\<close>

section \<open>Application defaults\<close>

definition APPCONF_CONTROLLER_ID :: u8 where "APPCONF_CONTROLLER_ID = 0"
definition APPCONF_TIMEOUT_MSEC :: u32 where "APPCONF_TIMEOUT_MSEC = 1000"
definition APPCONF_TIMEOUT_BRAKE_CURRENT :: real where "APPCONF_TIMEOUT_BRAKE_CURRENT = 0"
definition APPCONF_SEND_CAN_STATUS :: bool where "APPCONF_SEND_CAN_STATUS = False"
definition APPCONF_SEND_CAN_STATUS_RATE_HZ :: u32 where "APPCONF_SEND_CAN_STATUS_RATE_HZ = 500"
definition APPCONF_APP_TO_USE :: app_use where "APPCONF_APP_TO_USE = APP_UART"
definition APPCONF_PPM_CTRL_TYPE :: ppm_control_type where "APPCONF_PPM_CTRL_TYPE = PPM_CTRL_TYPE_NONE"
definition APPCONF_PPM_PID_MAX_ERPM :: real where "APPCONF_PPM_PID_MAX_ERPM = 15000"
definition APPCONF_PPM_HYST :: real where "APPCONF_PPM_HYST = fl 0.15"
definition APPCONF_PPM_PULSE_START :: real where "APPCONF_PPM_PULSE_START = 1"
definition APPCONF_PPM_PULSE_END :: real where "APPCONF_PPM_PULSE_END = 2"
definition APPCONF_PPM_MEDIAN_FILTER :: bool where "APPCONF_PPM_MEDIAN_FILTER = True"
definition APPCONF_PPM_SAFE_START :: bool where "APPCONF_PPM_SAFE_START = True"
definition APPCONF_PPM_RPM_LIM_START :: real where "APPCONF_PPM_RPM_LIM_START = 150000"
definition APPCONF_PPM_RPM_LIM_END :: real where "APPCONF_PPM_RPM_LIM_END = 200000"
definition APPCONF_PPM_MULTI_ESC :: bool where "APPCONF_PPM_MULTI_ESC = False"
definition APPCONF_PPM_TC :: bool where "APPCONF_PPM_TC = False"
definition APPCONF_PPM_TC_MAX_DIFF :: real where "APPCONF_PPM_TC_MAX_DIFF = 3000"
definition APPCONF_ADC_CTRL_TYPE :: adc_control_type where "APPCONF_ADC_CTRL_TYPE = ADC_CTRL_TYPE_NONE"
definition APPCONF_ADC_HYST :: real where "APPCONF_ADC_HYST = fl 0.15"
definition APPCONF_ADC_VOLTAGE_START :: real where "APPCONF_ADC_VOLTAGE_START = fl 0.9"
definition APPCONF_ADC_VOLTAGE_END :: real where "APPCONF_ADC_VOLTAGE_END = 3"
definition APPCONF_ADC_USE_FILTER :: bool where "APPCONF_ADC_USE_FILTER = True"
definition APPCONF_ADC_SAFE_START :: bool where "APPCONF_ADC_SAFE_START = True"
definition APPCONF_ADC_CC_BUTTON_INVERTED :: bool where "APPCONF_ADC_CC_BUTTON_INVERTED = False"
definition APPCONF_ADC_REV_BUTTON_INVERTED :: bool where "APPCONF_ADC_REV_BUTTON_INVERTED = False"
definition APPCONF_ADC_VOLTAGE_INVERTED :: bool where "APPCONF_ADC_VOLTAGE_INVERTED = False"
definition APPCONF_ADC_RPM_LIM_START :: real where "APPCONF_ADC_RPM_LIM_START = 150000"
definition APPCONF_ADC_RPM_LIM_END :: real where "APPCONF_ADC_RPM_LIM_END = 200000"
definition APPCONF_ADC_MULTI_ESC :: bool where "APPCONF_ADC_MULTI_ESC = False"
definition APPCONF_ADC_TC :: bool where "APPCONF_ADC_TC = False"
definition APPCONF_ADC_TC_MAX_DIFF :: real where "APPCONF_ADC_TC_MAX_DIFF = 3000"
definition APPCONF_ADC_UPDATE_RATE_HZ :: u32 where "APPCONF_ADC_UPDATE_RATE_HZ = 500"
definition APPCONF_UART_BAUDRATE :: u32 where "APPCONF_UART_BAUDRATE = 115200"
definition APPCONF_CHUK_CTRL_TYPE :: chuk_control_type where "APPCONF_CHUK_CTRL_TYPE = CHUK_CTRL_TYPE_CURRENT"
definition APPCONF_CHUK_HYST :: real where "APPCONF_CHUK_HYST = fl 0.15"
definition APPCONF_CHUK_RPM_LIM_START :: real where "APPCONF_CHUK_RPM_LIM_START = 150000"
definition APPCONF_CHUK_RPM_LIM_END :: real where "APPCONF_CHUK_RPM_LIM_END = 200000"
definition APPCONF_CHUK_RAMP_TIME_POS :: real where "APPCONF_CHUK_RAMP_TIME_POS = fl 0.9"
definition APPCONF_CHUK_RAMP_TIME_NEG :: real where "APPCONF_CHUK_RAMP_TIME_NEG = fl 0.3"
definition APPCONF_STICK_ERPM_PER_S_IN_CC :: real where "APPCONF_STICK_ERPM_PER_S_IN_CC = 3000"
definition APPCONF_CHUK_MULTI_ESC :: bool where "APPCONF_CHUK_MULTI_ESC = False"
definition APPCONF_CHUK_TC :: bool where "APPCONF_CHUK_TC = False"
definition APPCONF_CHUK_TC_MAX_DIFF :: real where "APPCONF_CHUK_TC_MAX_DIFF = 3000"
definition APPCONF_NRF_SPEED :: nrf_speed_t where "APPCONF_NRF_SPEED = NRF_SPEED_2M"
definition APPCONF_NRF_POWER :: nrf_power_t where "APPCONF_NRF_POWER = NRF_POWER_0DBM"
definition APPCONF_NRF_CRC :: nrf_crc_t where "APPCONF_NRF_CRC = NRF_CRC_1B"
definition APPCONF_NRF_RETR_DELAY :: nrf_retr_delay_t where "APPCONF_NRF_RETR_DELAY = NRF_RETR_DELAY_250US"
definition APPCONF_NRF_RETRIES :: u8 where "APPCONF_NRF_RETRIES = 3"
definition APPCONF_NRF_CHANNEL :: u8 where "APPCONF_NRF_CHANNEL = 76"
definition APPCONF_NRF_ADDR_B0 :: u8 where "APPCONF_NRF_ADDR_B0 = 0xC6"
definition APPCONF_NRF_ADDR_B1 :: u8 where "APPCONF_NRF_ADDR_B1 = 0xC7"
definition APPCONF_NRF_ADDR_B2 :: u8 where "APPCONF_NRF_ADDR_B2 = 0x0"
definition APPCONF_NRF_SEND_CRC_ACK :: bool where "APPCONF_NRF_SEND_CRC_ACK = True"

section \<open>Motor defaults\<close>

definition MCCONF_PWM_MODE :: mc_pwm_mode where "MCCONF_PWM_MODE = PWM_MODE_SYNCHRONOUS"
definition MCCONF_COMM_MODE :: mc_comm_mode where "MCCONF_COMM_MODE = COMM_MODE_INTEGRATE"
definition MCCONF_DEFAULT_MOTOR_TYPE :: mc_motor_type where "MCCONF_DEFAULT_MOTOR_TYPE = MOTOR_TYPE_BLDC"
definition MCCONF_SENSOR_MODE :: mc_sensor_mode where "MCCONF_SENSOR_MODE = SENSOR_MODE_SENSORLESS"
definition MCCONF_L_CURRENT_MAX :: real where "MCCONF_L_CURRENT_MAX = 60"
definition MCCONF_L_CURRENT_MIN :: real where "MCCONF_L_CURRENT_MIN = - 60"
definition MCCONF_L_IN_CURRENT_MAX :: real where "MCCONF_L_IN_CURRENT_MAX = 60"
definition MCCONF_L_IN_CURRENT_MIN :: real where "MCCONF_L_IN_CURRENT_MIN = - 20"
definition MCCONF_L_MAX_ABS_CURRENT :: real where "MCCONF_L_MAX_ABS_CURRENT = 130"
definition MCCONF_L_RPM_MIN :: real where "MCCONF_L_RPM_MIN = - 100000"
definition MCCONF_L_RPM_MAX :: real where "MCCONF_L_RPM_MAX = 100000"
definition MCCONF_L_CURR_MAX_RPM_FBRAKE :: real where "MCCONF_L_CURR_MAX_RPM_FBRAKE = 300"
definition MCCONF_L_CURR_MAX_RPM_FBRAKE_CC :: real where "MCCONF_L_CURR_MAX_RPM_FBRAKE_CC = 1500"
definition MCCONF_L_MIN_VOLTAGE :: real where "MCCONF_L_MIN_VOLTAGE = 8"
definition MCCONF_L_MAX_VOLTAGE :: real where "MCCONF_L_MAX_VOLTAGE = 57"
definition MCCONF_L_BATTERY_CUT_START :: real where "MCCONF_L_BATTERY_CUT_START = 10"
definition MCCONF_L_BATTERY_CUT_END :: real where "MCCONF_L_BATTERY_CUT_END = 8"
definition MCCONF_L_SLOW_ABS_OVERCURRENT :: bool where "MCCONF_L_SLOW_ABS_OVERCURRENT = True"
definition MCCONF_L_RPM_LIMIT_NEG_TORQUE :: bool where "MCCONF_L_RPM_LIMIT_NEG_TORQUE = True"
definition MCCONF_L_LIM_TEMP_FET_START :: real where "MCCONF_L_LIM_TEMP_FET_START = 80"
definition MCCONF_L_LIM_TEMP_FET_END :: real where "MCCONF_L_LIM_TEMP_FET_END = 100"
definition MCCONF_L_LIM_TEMP_MOTOR_START :: real where "MCCONF_L_LIM_TEMP_MOTOR_START = 80"
definition MCCONF_L_LIM_TEMP_MOTOR_END :: real where "MCCONF_L_LIM_TEMP_MOTOR_END = 100"
definition MCCONF_L_MIN_DUTY :: real where "MCCONF_L_MIN_DUTY = fl 0.005"
definition MCCONF_L_MAX_DUTY :: real where "MCCONF_L_MAX_DUTY = fl 0.95"
definition MCCONF_SL_MIN_RPM :: real where "MCCONF_SL_MIN_RPM = 150"
definition MCCONF_SL_MAX_FB_CURR_DIR_CHANGE :: real where "MCCONF_SL_MAX_FB_CURR_DIR_CHANGE = 10"
definition MCCONF_SL_MIN_ERPM_CYCLE_INT_LIMIT :: real where "MCCONF_SL_MIN_ERPM_CYCLE_INT_LIMIT = 1100"
definition MCCONF_SL_CYCLE_INT_LIMIT :: real where "MCCONF_SL_CYCLE_INT_LIMIT = 62"
definition MCCONF_SL_PHASE_ADVANCE_AT_BR :: real where "MCCONF_SL_PHASE_ADVANCE_AT_BR = fl 0.8"
definition MCCONF_SL_CYCLE_INT_BR :: real where "MCCONF_SL_CYCLE_INT_BR = 80000"
definition MCCONF_SL_BEMF_COUPLING_K :: real where "MCCONF_SL_BEMF_COUPLING_K = 600"
definition MCCONF_HALL_TAB_0 :: i8 where "MCCONF_HALL_TAB_0 = - 1"
definition MCCONF_HALL_TAB_1 :: i8 where "MCCONF_HALL_TAB_1 = 1"
definition MCCONF_HALL_TAB_2 :: i8 where "MCCONF_HALL_TAB_2 = 3"
definition MCCONF_HALL_TAB_3 :: i8 where "MCCONF_HALL_TAB_3 = 2"
definition MCCONF_HALL_TAB_4 :: i8 where "MCCONF_HALL_TAB_4 = 5"
definition MCCONF_HALL_TAB_5 :: i8 where "MCCONF_HALL_TAB_5 = 6"
definition MCCONF_HALL_TAB_6 :: i8 where "MCCONF_HALL_TAB_6 = 4"
definition MCCONF_HALL_TAB_7 :: i8 where "MCCONF_HALL_TAB_7 = - 1"
definition MCCONF_HALL_ERPM :: real where "MCCONF_HALL_ERPM = 2000"
definition MCCONF_FOC_CURRENT_KP :: real where "MCCONF_FOC_CURRENT_KP = fl 0.03"
definition MCCONF_FOC_CURRENT_KI :: real where "MCCONF_FOC_CURRENT_KI = 50"
definition MCCONF_FOC_F_SW :: real where "MCCONF_FOC_F_SW = 20000"
definition MCCONF_FOC_DT_US :: real where "MCCONF_FOC_DT_US = fl 0.08"
definition MCCONF_FOC_ENCODER_INVERTED :: bool where "MCCONF_FOC_ENCODER_INVERTED = False"
definition MCCONF_FOC_ENCODER_OFFSET :: real where "MCCONF_FOC_ENCODER_OFFSET = 180"
definition MCCONF_FOC_ENCODER_RATIO :: real where "MCCONF_FOC_ENCODER_RATIO = 7"
definition MCCONF_FOC_SENSOR_MODE :: mc_foc_sensor_mode where "MCCONF_FOC_SENSOR_MODE = FOC_SENSOR_MODE_SENSORLESS"
definition MCCONF_FOC_PLL_KP :: real where "MCCONF_FOC_PLL_KP = 2000"
definition MCCONF_FOC_PLL_KI :: real where "MCCONF_FOC_PLL_KI = 20000"
definition MCCONF_FOC_MOTOR_L :: real where "MCCONF_FOC_MOTOR_L = fl 0.000007"
definition MCCONF_FOC_MOTOR_R :: real where "MCCONF_FOC_MOTOR_R = fl 0.015"
definition MCCONF_FOC_MOTOR_FLUX_LINKAGE :: real where "MCCONF_FOC_MOTOR_FLUX_LINKAGE = fl 0.00245"
definition MCCONF_FOC_OBSERVER_GAIN :: real where "MCCONF_FOC_OBSERVER_GAIN = 90000000"
definition MCCONF_FOC_DUTY_DOWNRAMP_KP :: real where "MCCONF_FOC_DUTY_DOWNRAMP_KP = 10"
definition MCCONF_FOC_DUTY_DOWNRAMP_KI :: real where "MCCONF_FOC_DUTY_DOWNRAMP_KI = 200"
definition MCCONF_FOC_OPENLOOP_RPM :: real where "MCCONF_FOC_OPENLOOP_RPM = 1200"
definition MCCONF_FOC_SL_OPENLOOP_HYST :: real where "MCCONF_FOC_SL_OPENLOOP_HYST = fl 0.5"
definition MCCONF_FOC_SL_OPENLOOP_TIME :: real where "MCCONF_FOC_SL_OPENLOOP_TIME = fl 0.5"
definition MCCONF_FOC_SL_D_CURRENT_DUTY :: real where "MCCONF_FOC_SL_D_CURRENT_DUTY = 0"
definition MCCONF_FOC_SL_D_CURRENT_FACTOR :: real where "MCCONF_FOC_SL_D_CURRENT_FACTOR = 0"
definition MCCONF_FOC_HALL_TAB_0 :: u8 where "MCCONF_FOC_HALL_TAB_0 = 255"
definition MCCONF_FOC_HALL_TAB_1 :: u8 where "MCCONF_FOC_HALL_TAB_1 = 255"
definition MCCONF_FOC_HALL_TAB_2 :: u8 where "MCCONF_FOC_HALL_TAB_2 = 255"
definition MCCONF_FOC_HALL_TAB_3 :: u8 where "MCCONF_FOC_HALL_TAB_3 = 255"
definition MCCONF_FOC_HALL_TAB_4 :: u8 where "MCCONF_FOC_HALL_TAB_4 = 255"
definition MCCONF_FOC_HALL_TAB_5 :: u8 where "MCCONF_FOC_HALL_TAB_5 = 255"
definition MCCONF_FOC_HALL_TAB_6 :: u8 where "MCCONF_FOC_HALL_TAB_6 = 255"
definition MCCONF_FOC_HALL_TAB_7 :: u8 where "MCCONF_FOC_HALL_TAB_7 = 255"
definition MCCONF_FOC_SL_ERPM :: real where "MCCONF_FOC_SL_ERPM = 2500"
definition MCCONF_S_PID_KP :: real where "MCCONF_S_PID_KP = fl 0.0001"
definition MCCONF_S_PID_KI :: real where "MCCONF_S_PID_KI = fl 0.015"
definition MCCONF_S_PID_KD :: real where "MCCONF_S_PID_KD = 0"
definition MCCONF_S_PID_MIN_RPM :: real where "MCCONF_S_PID_MIN_RPM = 900"
definition MCCONF_P_PID_KP :: real where "MCCONF_P_PID_KP = fl 0.03"
definition MCCONF_P_PID_KI :: real where "MCCONF_P_PID_KI = 0"
definition MCCONF_P_PID_KD :: real where "MCCONF_P_PID_KD = fl 0.0004"
definition MCCONF_P_PID_ANG_DIV :: real where "MCCONF_P_PID_ANG_DIV = 1"
definition MCCONF_CC_STARTUP_BOOST_DUTY :: real where "MCCONF_CC_STARTUP_BOOST_DUTY = fl 0.01"
definition MCCONF_CC_MIN_CURRENT :: real where "MCCONF_CC_MIN_CURRENT = 1"
definition MCCONF_CC_GAIN :: real where "MCCONF_CC_GAIN = fl 0.0046"
definition MCCONF_CC_RAMP_STEP :: real where "MCCONF_CC_RAMP_STEP = fl 0.04"
definition MCCONF_M_FAULT_STOP_TIME :: i32 where "MCCONF_M_FAULT_STOP_TIME = 3000"
definition MCCONF_M_RAMP_STEP :: real where "MCCONF_M_RAMP_STEP = fl 0.02"
definition MCCONF_M_RAMP_STEP_RPM_LIM :: real where "MCCONF_M_RAMP_STEP_RPM_LIM = fl 0.0005"
definition MCCONF_M_CURRENT_BACKOFF_GAIN :: real where "MCCONF_M_CURRENT_BACKOFF_GAIN = fl 0.5"
definition MCCONF_M_ENCODER_COUNTS :: u32 where "MCCONF_M_ENCODER_COUNTS = 8192"
definition MCCONF_M_SENSOR_PORT_MODE :: sensor_port_mode where "MCCONF_M_SENSOR_PORT_MODE = SENSOR_PORT_MODE_HALL"

section \<open>The default configurations\<close>

definition conf_general_get_default_app_configuration :: app_configuration where
  "conf_general_get_default_app_configuration =
     \<lparr>controller_id = APPCONF_CONTROLLER_ID, timeout_msec = APPCONF_TIMEOUT_MSEC,
      timeout_brake_current = APPCONF_TIMEOUT_BRAKE_CURRENT,
      send_can_status = APPCONF_SEND_CAN_STATUS,
      send_can_status_rate_hz = APPCONF_SEND_CAN_STATUS_RATE_HZ, app_to_use = APPCONF_APP_TO_USE,
      app_ppm_conf =
       \<lparr>ppm_ctrl_type = APPCONF_PPM_CTRL_TYPE, ppm_pid_max_erpm = APPCONF_PPM_PID_MAX_ERPM,
        ppm_hyst = APPCONF_PPM_HYST, ppm_pulse_start = APPCONF_PPM_PULSE_START,
        ppm_pulse_end = APPCONF_PPM_PULSE_END, ppm_median_filter = APPCONF_PPM_MEDIAN_FILTER,
        ppm_safe_start = APPCONF_PPM_SAFE_START, ppm_rpm_lim_start = APPCONF_PPM_RPM_LIM_START,
        ppm_rpm_lim_end = APPCONF_PPM_RPM_LIM_END, ppm_multi_esc = APPCONF_PPM_MULTI_ESC,
        ppm_tc = APPCONF_PPM_TC, ppm_tc_max_diff = APPCONF_PPM_TC_MAX_DIFF\<rparr>,
      app_adc_conf =
       \<lparr>adc_ctrl_type = APPCONF_ADC_CTRL_TYPE, adc_hyst = APPCONF_ADC_HYST,
        adc_voltage_start = APPCONF_ADC_VOLTAGE_START, adc_voltage_end = APPCONF_ADC_VOLTAGE_END,
        adc_use_filter = APPCONF_ADC_USE_FILTER, adc_safe_start = APPCONF_ADC_SAFE_START,
        adc_cc_button_inverted = APPCONF_ADC_CC_BUTTON_INVERTED,
        adc_rev_button_inverted = APPCONF_ADC_REV_BUTTON_INVERTED,
        adc_voltage_inverted = APPCONF_ADC_VOLTAGE_INVERTED,
        adc_rpm_lim_start = APPCONF_ADC_RPM_LIM_START, adc_rpm_lim_end = APPCONF_ADC_RPM_LIM_END,
        adc_multi_esc = APPCONF_ADC_MULTI_ESC, adc_tc = APPCONF_ADC_TC,
        adc_tc_max_diff = APPCONF_ADC_TC_MAX_DIFF, adc_update_rate_hz = APPCONF_ADC_UPDATE_RATE_HZ\<rparr>,
      app_uart_baudrate = APPCONF_UART_BAUDRATE,
      app_chuk_conf =
       \<lparr>chuk_ctrl_type = APPCONF_CHUK_CTRL_TYPE, chuk_hyst = APPCONF_CHUK_HYST,
        chuk_rpm_lim_start = APPCONF_CHUK_RPM_LIM_START,
        chuk_rpm_lim_end = APPCONF_CHUK_RPM_LIM_END,
        chuk_ramp_time_pos = APPCONF_CHUK_RAMP_TIME_POS,
        chuk_ramp_time_neg = APPCONF_CHUK_RAMP_TIME_NEG,
        chuk_stick_erpm_per_s_in_cc = APPCONF_STICK_ERPM_PER_S_IN_CC,
        chuk_multi_esc = APPCONF_CHUK_MULTI_ESC, chuk_tc = APPCONF_CHUK_TC,
        chuk_tc_max_diff = APPCONF_CHUK_TC_MAX_DIFF\<rparr>,
      app_nrf_conf =
       \<lparr>nrf_speed = APPCONF_NRF_SPEED, nrf_power = APPCONF_NRF_POWER,
        nrf_crc_type = APPCONF_NRF_CRC, nrf_retry_delay = APPCONF_NRF_RETR_DELAY,
        nrf_retries = APPCONF_NRF_RETRIES, nrf_channel = APPCONF_NRF_CHANNEL,
        nrf_address = [APPCONF_NRF_ADDR_B0, APPCONF_NRF_ADDR_B1, APPCONF_NRF_ADDR_B2],
        nrf_send_crc_ack = APPCONF_NRF_SEND_CRC_ACK\<rparr>\<rparr>"

definition conf_general_get_default_mc_configuration :: mc_configuration where
  "conf_general_get_default_mc_configuration =
     \<lparr>pwm_mode = MCCONF_PWM_MODE, comm_mode = MCCONF_COMM_MODE,
      motor_type = MCCONF_DEFAULT_MOTOR_TYPE, sensor_mode = MCCONF_SENSOR_MODE,
      l_current_max = MCCONF_L_CURRENT_MAX, l_current_min = MCCONF_L_CURRENT_MIN,
      l_in_current_max = MCCONF_L_IN_CURRENT_MAX, l_in_current_min = MCCONF_L_IN_CURRENT_MIN,
      l_abs_current_max = MCCONF_L_MAX_ABS_CURRENT, l_min_erpm = MCCONF_L_RPM_MIN,
      l_max_erpm = MCCONF_L_RPM_MAX, l_max_erpm_fbrake = MCCONF_L_CURR_MAX_RPM_FBRAKE,
      l_max_erpm_fbrake_cc = MCCONF_L_CURR_MAX_RPM_FBRAKE_CC, l_min_vin = MCCONF_L_MIN_VOLTAGE,
      l_max_vin = MCCONF_L_MAX_VOLTAGE, l_battery_cut_start = MCCONF_L_BATTERY_CUT_START,
      l_battery_cut_end = MCCONF_L_BATTERY_CUT_END,
      l_slow_abs_current = MCCONF_L_SLOW_ABS_OVERCURRENT,
      l_rpm_lim_neg_torque = MCCONF_L_RPM_LIMIT_NEG_TORQUE,
      l_temp_fet_start = MCCONF_L_LIM_TEMP_FET_START, l_temp_fet_end = MCCONF_L_LIM_TEMP_FET_END,
      l_temp_motor_start = MCCONF_L_LIM_TEMP_MOTOR_START,
      l_temp_motor_end = MCCONF_L_LIM_TEMP_MOTOR_END, l_min_duty = MCCONF_L_MIN_DUTY,
      l_max_duty = MCCONF_L_MAX_DUTY, lo_current_max = MCCONF_L_CURRENT_MAX,
      lo_current_min = MCCONF_L_CURRENT_MIN, lo_in_current_max = MCCONF_L_IN_CURRENT_MAX,
      lo_in_current_min = MCCONF_L_IN_CURRENT_MIN, sl_min_erpm = MCCONF_SL_MIN_RPM,
      sl_min_erpm_cycle_int_limit = MCCONF_SL_MIN_ERPM_CYCLE_INT_LIMIT,
      sl_max_fullbreak_current_dir_change = MCCONF_SL_MAX_FB_CURR_DIR_CHANGE,
      sl_cycle_int_limit = MCCONF_SL_CYCLE_INT_LIMIT,
      sl_phase_advance_at_br = MCCONF_SL_PHASE_ADVANCE_AT_BR,
      sl_cycle_int_rpm_br = MCCONF_SL_CYCLE_INT_BR, sl_bemf_coupling_k = MCCONF_SL_BEMF_COUPLING_K,
      hall_table = [MCCONF_HALL_TAB_0, MCCONF_HALL_TAB_1, MCCONF_HALL_TAB_2, MCCONF_HALL_TAB_3, MCCONF_HALL_TAB_4, MCCONF_HALL_TAB_5, MCCONF_HALL_TAB_6, MCCONF_HALL_TAB_7],
      hall_sl_erpm = MCCONF_HALL_ERPM, foc_current_kp = MCCONF_FOC_CURRENT_KP,
      foc_current_ki = MCCONF_FOC_CURRENT_KI, foc_f_sw = MCCONF_FOC_F_SW,
      foc_dt_us = MCCONF_FOC_DT_US, foc_encoder_offset = MCCONF_FOC_ENCODER_OFFSET,
      foc_encoder_inverted = MCCONF_FOC_ENCODER_INVERTED,
      foc_encoder_ratio = MCCONF_FOC_ENCODER_RATIO, foc_motor_l = MCCONF_FOC_MOTOR_L,
      foc_motor_r = MCCONF_FOC_MOTOR_R, foc_motor_flux_linkage = MCCONF_FOC_MOTOR_FLUX_LINKAGE,
      foc_observer_gain = MCCONF_FOC_OBSERVER_GAIN, foc_pll_kp = MCCONF_FOC_PLL_KP,
      foc_pll_ki = MCCONF_FOC_PLL_KI, foc_duty_dowmramp_kp = MCCONF_FOC_DUTY_DOWNRAMP_KP,
      foc_duty_dowmramp_ki = MCCONF_FOC_DUTY_DOWNRAMP_KI,
      foc_openloop_rpm = MCCONF_FOC_OPENLOOP_RPM,
      foc_sl_openloop_hyst = MCCONF_FOC_SL_OPENLOOP_HYST,
      foc_sl_openloop_time = MCCONF_FOC_SL_OPENLOOP_TIME,
      foc_sl_d_current_duty = MCCONF_FOC_SL_D_CURRENT_DUTY,
      foc_sl_d_current_factor = MCCONF_FOC_SL_D_CURRENT_FACTOR,
      foc_sensor_mode = MCCONF_FOC_SENSOR_MODE,
      foc_hall_table = [MCCONF_FOC_HALL_TAB_0, MCCONF_FOC_HALL_TAB_1, MCCONF_FOC_HALL_TAB_2, MCCONF_FOC_HALL_TAB_3, MCCONF_FOC_HALL_TAB_4, MCCONF_FOC_HALL_TAB_5, MCCONF_FOC_HALL_TAB_6, MCCONF_FOC_HALL_TAB_7],
      foc_sl_erpm = MCCONF_FOC_SL_ERPM, s_pid_kp = MCCONF_S_PID_KP, s_pid_ki = MCCONF_S_PID_KI,
      s_pid_kd = MCCONF_S_PID_KD, s_pid_min_erpm = MCCONF_S_PID_MIN_RPM, p_pid_kp = MCCONF_P_PID_KP,
      p_pid_ki = MCCONF_P_PID_KI, p_pid_kd = MCCONF_P_PID_KD, p_pid_ang_div = MCCONF_P_PID_ANG_DIV,
      cc_startup_boost_duty = MCCONF_CC_STARTUP_BOOST_DUTY, cc_min_current = MCCONF_CC_MIN_CURRENT,
      cc_gain = MCCONF_CC_GAIN, cc_ramp_step_max = MCCONF_CC_RAMP_STEP,
      m_fault_stop_time_ms = MCCONF_M_FAULT_STOP_TIME, m_duty_ramp_step = MCCONF_M_RAMP_STEP,
      m_duty_ramp_step_rpm_lim = MCCONF_M_RAMP_STEP_RPM_LIM,
      m_current_backoff_gain = MCCONF_M_CURRENT_BACKOFF_GAIN,
      m_encoder_counts = MCCONF_M_ENCODER_COUNTS, m_sensor_port_mode = MCCONF_M_SENSOR_PORT_MODE\<rparr>"

end
