(* ===== verification/McInterface.thy ===== *)
theory McInterface
  imports Utils ConfDefault Buffer
begin

text \<open>
  The motor control interface of \<open>mc_interface.c\<close>: it dispatches to the six-step driver (\<open>mcpwm.c\<close>) or
  the field-oriented driver (\<open>mcpwm_foc.c\<close>), gates the motor commands by a lock and by the time
  after a fault, watches voltage, current and temperature, integrates charge and energy and collects
  samples.

  The state is the record \<open>mcif\<close>, one field per static variable of the file, the static locals of the
  interrupt handler included. The two drivers, the encoder and the hardware are an environment: a
  call that acts on them is appended to the list \<open>calls\<close>, and what is read from them is an arbitrary
  function of that list, so that a reading can depend on the calls before it. Every operation
  takes its own environment. The interrupt handler is undefined (\<^term>\<open>None\<close>) where the source writes
  outside an array or converts a number that does not fit.
\<close>

section \<open>Environment and state\<close>

text \<open>Calls of \<open>mcpwm.c\<close>, \<open>mcpwm_foc.c\<close>, \<open>encoder.c\<close> and other components that have an effect. The
  operations common to both drivers carry which one is called.\<close>

datatype driver = Mcpwm | Mcpwm_foc

datatype mc_call =
    drv_init driver | drv_deinit driver | drv_set_configuration driver mc_configuration
  | drv_set_duty driver real | drv_set_duty_noramp driver real | drv_set_pid_speed driver real
  | drv_set_pid_pos driver real | drv_set_current driver real | drv_set_brake_current driver real
  | drv_stop_pwm driver | drv_adc_inj_int_handler driver
  | drv_tachometer_reset driver | drv_tachometer_abs_reset driver
  | encoder_deinit | encoder_init_abi u32 | encoder_init_as5047p_spi | encoder_set_counts u32
  | ledpwm_update_pwm | pwm_callback | sample_signal
  | terminal_add_fault_data fault_data
  | commands_send_samples bytes
  | mcpwm_set_detect | mcpwm_reset_hall_detect_table | mcpwm_reset_avg_cycle_integrator

text \<open>What one driver reports.\<close>

record drv =
  get_state :: mc_state
  is_dccal_done :: bool
  get_duty_cycle_set :: real
  get_duty_cycle_now :: real
  get_switching_frequency_now :: real
  get_rpm :: real
  get_tot_current :: real
  get_tot_current_filtered :: real
  get_tot_current_directional :: real
  get_tot_current_directional_filtered :: real
  get_tot_current_in :: real
  get_tot_current_in_filtered :: real
  get_tachometer_value :: int
  get_tachometer_abs_value :: int
  get_last_inj_adc_isr_duration :: real

text \<open>All readings: the two drivers, those only one of them has, the encoder, the analog inputs and the
  timers.\<close>

record readings =
  drv_of :: "driver \<Rightarrow> drv"
  mcpwm_get_comm_step :: int
  mcpwm_read_hall_phase :: int
  mcpwm_get_last_adc_isr_duration :: real
  mcpwm_detect_currents :: "real list"
  mcpwm_detect_currents_diff :: "real list"
  mcpwm_detect_voltages :: "real list"
  mcpwm_vzero :: int
  mcpwm_foc_get_abs_motor_current :: real
  mcpwm_foc_get_abs_motor_current_filtered :: real
  mcpwm_foc_get_pid_pos_now :: real
  encoder_read_deg :: real
  input_voltage :: real
  ntc_temp_mos1 :: real
  ntc_temp_mos2 :: real
  is_drv_fault :: bool
  adc_curr_norm_value :: "int list"
  adc_v_l1 :: int
  adc_v_l2 :: int
  adc_v_l3 :: int
  tim8_ccr1 :: int
  tim1_ccr4 :: int
  tim1_arr :: int
  mcpwm_avg_cycle_integrator :: real
  mcpwm_hall_detect_result :: "int \<times> i8 list"
  adc_vin_sens :: int

type_synonym env = "mc_call list \<Rightarrow> readings"

definition ADC_SAMPLE_MAX_LEN :: nat where "ADC_SAMPLE_MAX_LEN = 2000"
definition MCPWM_DETECT_STOP_TIME :: int where "MCPWM_DETECT_STOP_TIME = 500"

record samples =
  curr0_samples :: "u16 list"
  curr1_samples :: "u16 list"
  ph1_samples :: "u16 list"
  ph2_samples :: "u16 list"
  ph3_samples :: "u16 list"
  vzero_samples :: "u16 list"
  status_samples :: "u8 list"
  curr_fir_samples :: "u16 list"
  f_sw_samples :: "u16 list"

record mcif =
  m_conf :: mc_configuration
  m_fault_now :: mc_fault_code
  m_ignore_iterations :: int
  m_cycles_running :: u32
  m_lock_enabled :: bool
  m_lock_override_once :: bool
  m_motor_current_sum :: real
  m_input_current_sum :: real
  m_motor_current_iterations :: real
  m_input_current_iterations :: real
  m_amp_seconds :: real
  m_amp_seconds_charged :: real
  m_watt_seconds :: real
  m_watt_seconds_charged :: real
  m_position_set :: real
  m_samples :: samples
  m_sample_len :: int
  m_sample_int :: int
  m_sample_ready :: bool
  m_sample_now :: int
  m_sample_at_start :: bool
  m_start_comm :: int
  m_last_adc_duration_sample :: real
  pwn_done_func :: bool
  wrong_voltage_iterations :: int
  curr_diff_sum :: real
  curr_diff_samples :: real
  isr_a :: int
  calls :: "mc_call list"

definition call :: "mc_call \<Rightarrow> mcif \<Rightarrow> mcif" where
  "call c s = s\<lparr>calls := calls s @ [c]\<rparr>"

definition now :: "env \<Rightarrow> mcif \<Rightarrow> readings" where
  "now env s = env (calls s)"

text \<open>The dispatch on the motor type: \<open>switch (m_conf.motor_type)\<close> with its empty default.\<close>

fun driver_of :: "mc_motor_type \<Rightarrow> driver option" where
  "driver_of MOTOR_TYPE_BLDC = Some Mcpwm"
| "driver_of MOTOR_TYPE_DC = Some Mcpwm"
| "driver_of MOTOR_TYPE_FOC = Some Mcpwm_foc"
| "driver_of (mc_motor_type_other _) = None"

definition dispatch :: "(driver \<Rightarrow> mc_call) \<Rightarrow> mcif \<Rightarrow> mcif" where
  "dispatch c s = (case driver_of (motor_type (m_conf s)) of Some d \<Rightarrow> call (c d) s | None \<Rightarrow> s)"

definition read_drv :: "(drv \<Rightarrow> 'a) \<Rightarrow> 'a \<Rightarrow> env \<Rightarrow> mcif \<Rightarrow> 'a" where
  "read_drv g dflt env s =
     (case driver_of (motor_type (m_conf s)) of Some d \<Rightarrow> g (drv_of (now env s) d) | None \<Rightarrow> dflt)"


section \<open>Operations\<close>

definition samples_zero :: samples where
  "samples_zero = (let z = replicate ADC_SAMPLE_MAX_LEN 0 in
     \<lparr>curr0_samples = z, curr1_samples = z, ph1_samples = z, ph2_samples = z, ph3_samples = z,
      vzero_samples = z, status_samples = replicate ADC_SAMPLE_MAX_LEN 0, curr_fir_samples = z, f_sw_samples = z\<rparr>)"

text \<open>The encoder is set up by the port mode.\<close>

definition encoder_setup :: "mc_configuration \<Rightarrow> mcif \<Rightarrow> mcif" where
  "encoder_setup conf s =
     (case m_sensor_port_mode conf of
        SENSOR_PORT_MODE_ABI \<Rightarrow> call (encoder_init_abi (m_encoder_counts conf)) s
      | SENSOR_PORT_MODE_AS5047_SPI \<Rightarrow> call encoder_init_as5047p_spi s
      | _ \<Rightarrow> s)"

definition mc_interface_init :: "mc_configuration \<Rightarrow> mcif \<Rightarrow> mcif" where
  "mc_interface_init configuration s =
     (let s1 = s\<lparr>m_conf := configuration, m_fault_now := FAULT_CODE_NONE, m_ignore_iterations := 0,
          m_cycles_running := 0, m_lock_enabled := False, m_lock_override_once := False,
          m_motor_current_sum := 0, m_input_current_sum := 0, m_motor_current_iterations := 0,
          m_input_current_iterations := 0, m_amp_seconds := 0, m_amp_seconds_charged := 0,
          m_watt_seconds := 0, m_watt_seconds_charged := 0, m_position_set := 0,
          m_last_adc_duration_sample := 0, m_sample_len := 1000, m_sample_int := 1,
          m_sample_ready := True, m_sample_now := 0, m_sample_at_start := False, m_start_comm := 0\<rparr>;
          s2 = encoder_setup configuration s1 in
      dispatch drv_init s2)"

definition mc_interface_get_state :: "env \<Rightarrow> mcif \<Rightarrow> mc_state" where
  "mc_interface_get_state = read_drv get_state MC_STATE_OFF"

definition mc_interface_dccal_done :: "env \<Rightarrow> mcif \<Rightarrow> bool" where
  "mc_interface_dccal_done = read_drv is_dccal_done False"

definition mc_interface_set_pwm_callback :: "bool \<Rightarrow> mcif \<Rightarrow> mcif" where
  "mc_interface_set_pwm_callback p_func s = s\<lparr>pwn_done_func := p_func\<rparr>"

definition mc_interface_lock :: "mcif \<Rightarrow> mcif" where
  "mc_interface_lock s = s\<lparr>m_lock_enabled := True\<rparr>"

definition mc_interface_unlock :: "mcif \<Rightarrow> mcif" where
  "mc_interface_unlock s = s\<lparr>m_lock_enabled := False\<rparr>"

definition mc_interface_lock_override_once :: "mcif \<Rightarrow> mcif" where
  "mc_interface_lock_override_once s = s\<lparr>m_lock_override_once := True\<rparr>"

definition mc_interface_get_fault :: "mcif \<Rightarrow> mc_fault_code" where
  "mc_interface_get_fault s = m_fault_now s"

fun mc_interface_fault_to_string :: "mc_fault_code \<Rightarrow> string" where
  "mc_interface_fault_to_string FAULT_CODE_NONE = ''FAULT_CODE_NONE''"
| "mc_interface_fault_to_string FAULT_CODE_OVER_VOLTAGE = ''FAULT_CODE_OVER_VOLTAGE''"
| "mc_interface_fault_to_string FAULT_CODE_UNDER_VOLTAGE = ''FAULT_CODE_UNDER_VOLTAGE''"
| "mc_interface_fault_to_string FAULT_CODE_DRV8302 = ''FAULT_CODE_DRV8302''"
| "mc_interface_fault_to_string FAULT_CODE_ABS_OVER_CURRENT = ''FAULT_CODE_ABS_OVER_CURRENT''"
| "mc_interface_fault_to_string FAULT_CODE_OVER_TEMP_FET = ''FAULT_CODE_OVER_TEMP_FET''"
| "mc_interface_fault_to_string FAULT_CODE_OVER_TEMP_MOTOR = ''FAULT_CODE_OVER_TEMP_MOTOR''"

definition mc_interface_try_input :: "env \<Rightarrow> mcif \<Rightarrow> int \<times> mcif" where
  "mc_interface_try_input env s =
     (let s1 = (if mc_interface_get_state env s = MC_STATE_DETECTING
                then (call (drv_stop_pwm Mcpwm) s)\<lparr>m_ignore_iterations := MCPWM_DETECT_STOP_TIME\<rparr> else s) in
      if m_ignore_iterations s1 = 0 \<and> m_lock_enabled s1 then
        (if \<not> m_lock_override_once s1 then (1, s1)
         else (m_ignore_iterations s1, s1\<lparr>m_lock_override_once := False\<rparr>))
      else (m_ignore_iterations s1, s1))"

definition mc_interface_set_duty :: "env \<Rightarrow> real \<Rightarrow> mcif \<Rightarrow> mcif" where
  "mc_interface_set_duty env dutyCycle s =
     (let (r, s1) = mc_interface_try_input env s in
      if r \<noteq> 0 then s1 else dispatch (\<lambda>d. drv_set_duty d dutyCycle) s1)"

definition mc_interface_set_duty_noramp :: "env \<Rightarrow> real \<Rightarrow> mcif \<Rightarrow> mcif" where
  "mc_interface_set_duty_noramp env dutyCycle s =
     (let (r, s1) = mc_interface_try_input env s in
      if r \<noteq> 0 then s1 else dispatch (\<lambda>d. drv_set_duty_noramp d dutyCycle) s1)"

definition mc_interface_set_pid_speed :: "env \<Rightarrow> real \<Rightarrow> mcif \<Rightarrow> mcif" where
  "mc_interface_set_pid_speed env rpm s =
     (let (r, s1) = mc_interface_try_input env s in
      if r \<noteq> 0 then s1 else dispatch (\<lambda>d. drv_set_pid_speed d rpm) s1)"

definition mc_interface_set_pid_pos :: "env \<Rightarrow> real \<Rightarrow> mcif \<Rightarrow> mcif" where
  "mc_interface_set_pid_pos env pos s =
     (let (r, s1) = mc_interface_try_input env s in
      if r \<noteq> 0 then s1 else dispatch (\<lambda>d. drv_set_pid_pos d pos) (s1\<lparr>m_position_set := pos\<rparr>))"

definition mc_interface_set_current :: "env \<Rightarrow> real \<Rightarrow> mcif \<Rightarrow> mcif" where
  "mc_interface_set_current env current s =
     (let (r, s1) = mc_interface_try_input env s in
      if r \<noteq> 0 then s1 else dispatch (\<lambda>d. drv_set_current d current) s1)"

definition mc_interface_set_brake_current :: "env \<Rightarrow> real \<Rightarrow> mcif \<Rightarrow> mcif" where
  "mc_interface_set_brake_current env current s =
     (let (r, s1) = mc_interface_try_input env s in
      if r \<noteq> 0 then s1 else dispatch (\<lambda>d. drv_set_brake_current d current) s1)"

definition mc_interface_brake_now :: "env \<Rightarrow> mcif \<Rightarrow> mcif" where
  "mc_interface_brake_now env = mc_interface_set_duty env 0"

definition mc_interface_release_motor :: "env \<Rightarrow> mcif \<Rightarrow> mcif" where
  "mc_interface_release_motor env = mc_interface_set_current env 0"

definition mc_interface_get_duty_cycle_set :: "env \<Rightarrow> mcif \<Rightarrow> real" where
  "mc_interface_get_duty_cycle_set = read_drv get_duty_cycle_set 0"

definition mc_interface_get_duty_cycle_now :: "env \<Rightarrow> mcif \<Rightarrow> real" where
  "mc_interface_get_duty_cycle_now = read_drv get_duty_cycle_now 0"

definition mc_interface_get_sampling_frequency_now :: "env \<Rightarrow> mcif \<Rightarrow> real" where
  "mc_interface_get_sampling_frequency_now env s =
     (case driver_of (motor_type (m_conf s)) of
        Some Mcpwm \<Rightarrow> get_switching_frequency_now (drv_of (now env s) Mcpwm)
      | Some Mcpwm_foc \<Rightarrow> fl (get_switching_frequency_now (drv_of (now env s) Mcpwm_foc) / 2)
      | None \<Rightarrow> 0)"

definition mc_interface_get_rpm :: "env \<Rightarrow> mcif \<Rightarrow> real" where
  "mc_interface_get_rpm = read_drv get_rpm 0"

text \<open>The four counters of charge and energy. The last one resets another counter than the one it
  returns, as in the source.\<close>

definition mc_interface_get_amp_hours :: "bool \<Rightarrow> mcif \<Rightarrow> real \<times> mcif" where
  "mc_interface_get_amp_hours reset s =
     (fl (m_amp_seconds s / 3600), if reset then s\<lparr>m_amp_seconds := 0\<rparr> else s)"

definition mc_interface_get_amp_hours_charged :: "bool \<Rightarrow> mcif \<Rightarrow> real \<times> mcif" where
  "mc_interface_get_amp_hours_charged reset s =
     (fl (m_amp_seconds_charged s / 3600), if reset then s\<lparr>m_amp_seconds_charged := 0\<rparr> else s)"

definition mc_interface_get_watt_hours :: "bool \<Rightarrow> mcif \<Rightarrow> real \<times> mcif" where
  "mc_interface_get_watt_hours reset s =
     (fl (m_watt_seconds s / 3600), if reset then s\<lparr>m_amp_seconds := 0\<rparr> else s)"

definition mc_interface_get_watt_hours_charged :: "bool \<Rightarrow> mcif \<Rightarrow> real \<times> mcif" where
  "mc_interface_get_watt_hours_charged reset s =
     (fl (m_watt_seconds_charged s / 3600), if reset then s\<lparr>m_watt_seconds_charged := 0\<rparr> else s)"

definition mc_interface_get_tot_current :: "env \<Rightarrow> mcif \<Rightarrow> real" where
  "mc_interface_get_tot_current = read_drv get_tot_current 0"

definition mc_interface_get_tot_current_filtered :: "env \<Rightarrow> mcif \<Rightarrow> real" where
  "mc_interface_get_tot_current_filtered = read_drv get_tot_current_filtered 0"

definition mc_interface_get_tot_current_directional :: "env \<Rightarrow> mcif \<Rightarrow> real" where
  "mc_interface_get_tot_current_directional = read_drv get_tot_current_directional 0"

definition mc_interface_get_tot_current_directional_filtered :: "env \<Rightarrow> mcif \<Rightarrow> real" where
  "mc_interface_get_tot_current_directional_filtered = read_drv get_tot_current_directional_filtered 0"

definition mc_interface_get_tot_current_in :: "env \<Rightarrow> mcif \<Rightarrow> real" where
  "mc_interface_get_tot_current_in = read_drv get_tot_current_in 0"

definition mc_interface_get_tot_current_in_filtered :: "env \<Rightarrow> mcif \<Rightarrow> real" where
  "mc_interface_get_tot_current_in_filtered = read_drv get_tot_current_in_filtered 0"

definition mc_interface_get_tachometer_value :: "env \<Rightarrow> bool \<Rightarrow> mcif \<Rightarrow> int \<times> mcif" where
  "mc_interface_get_tachometer_value env reset s =
     (read_drv get_tachometer_value 0 env s, if reset then dispatch drv_tachometer_reset s else s)"

definition mc_interface_get_tachometer_abs_value :: "env \<Rightarrow> bool \<Rightarrow> mcif \<Rightarrow> int \<times> mcif" where
  "mc_interface_get_tachometer_abs_value env reset s =
     (read_drv get_tachometer_abs_value 0 env s, if reset then dispatch drv_tachometer_abs_reset s else s)"

definition mc_interface_get_last_inj_adc_isr_duration :: "env \<Rightarrow> mcif \<Rightarrow> real" where
  "mc_interface_get_last_inj_adc_isr_duration = read_drv get_last_inj_adc_isr_duration 0"

text \<open>The averages; the quotient is \<^term>\<open>None\<close> (not a number in C) without an iteration.\<close>

definition mc_interface_read_reset_avg_motor_current :: "mcif \<Rightarrow> real option \<times> mcif" where
  "mc_interface_read_reset_avg_motor_current s =
     (if m_motor_current_iterations s = 0 then None
      else Some (fl (m_motor_current_sum s / m_motor_current_iterations s)),
      s\<lparr>m_motor_current_sum := 0, m_motor_current_iterations := 0\<rparr>)"

definition mc_interface_read_reset_avg_input_current :: "mcif \<Rightarrow> real option \<times> mcif" where
  "mc_interface_read_reset_avg_input_current s =
     (if m_input_current_iterations s = 0 then None
      else Some (fl (m_input_current_sum s / m_input_current_iterations s)),
      s\<lparr>m_input_current_sum := 0, m_input_current_iterations := 0\<rparr>)"

definition mc_interface_get_pid_pos_set :: "mcif \<Rightarrow> real" where
  "mc_interface_get_pid_pos_set s = m_position_set s"

definition mc_interface_get_pid_pos_now :: "env \<Rightarrow> mcif \<Rightarrow> real" where
  "mc_interface_get_pid_pos_now env s =
     (case driver_of (motor_type (m_conf s)) of
        Some Mcpwm \<Rightarrow> encoder_read_deg (now env s)
      | Some Mcpwm_foc \<Rightarrow> mcpwm_foc_get_pid_pos_now (now env s)
      | None \<Rightarrow> 0)"

definition mc_interface_get_last_sample_adc_isr_duration :: "mcif \<Rightarrow> real" where
  "mc_interface_get_last_sample_adc_isr_duration s = m_last_adc_duration_sample s"

definition mc_interface_sample_print_data :: "env \<Rightarrow> bool \<Rightarrow> u16 \<Rightarrow> u8 \<Rightarrow> mcif \<Rightarrow> mcif" where
  "mc_interface_sample_print_data env at_start len decimation s =
     (let len = (if unat len > ADC_SAMPLE_MAX_LEN then int ADC_SAMPLE_MAX_LEN else uint len);
          s1 = s\<lparr>m_sample_len := len, m_sample_int := uint decimation\<rparr> in
      if at_start then s1\<lparr>m_sample_at_start := True, m_start_comm := mcpwm_get_comm_step (now env s1)\<rparr>
      else s1\<lparr>m_sample_now := 0, m_sample_ready := False\<rparr>)"

text \<open>A fault is logged once per fault period, then the driver is stopped and the commands are ignored.\<close>

definition fault_report :: "env \<Rightarrow> mc_fault_code \<Rightarrow> mcif \<Rightarrow> fault_data" where
  "fault_report env fault s =
     \<lparr>fd_fault = fault,
      fd_current = mc_interface_get_tot_current env s,
      fd_current_filtered = mc_interface_get_tot_current_filtered env s,
      fd_voltage = input_voltage (now env s),
      fd_duty = mc_interface_get_duty_cycle_now env s,
      fd_rpm = mc_interface_get_rpm env s,
      fd_tacho = fst (mc_interface_get_tachometer_value env False s),
      fd_cycles_running = sint (m_cycles_running s),
      fd_tim_val_samp = tim8_ccr1 (now env s),
      fd_tim_current_samp = tim1_ccr4 (now env s),
      fd_tim_top = tim1_arr (now env s),
      fd_comm_step = mcpwm_get_comm_step (now env s),
      fd_temperature = ntc_temp_mos1 (now env s)\<rparr>"

definition mc_interface_fault_stop :: "env \<Rightarrow> mc_fault_code \<Rightarrow> mcif \<Rightarrow> mcif" where
  "mc_interface_fault_stop env fault s =
     (let s1 = (if mc_interface_dccal_done env s \<and> m_fault_now s = FAULT_CODE_NONE
                then call (terminal_add_fault_data (fault_report env fault s)) s else s);
          s2 = s1\<lparr>m_ignore_iterations := sint (m_fault_stop_time_ms (m_conf s1))\<rparr>;
          s3 = dispatch drv_stop_pwm s2 in
      s3\<lparr>m_fault_now := fault\<rparr>)"


text \<open>\<open>update_override_limits\<close>, always called on \<open>m_conf\<close>. In the linear temperature range a limit is
  written only if the mapped current is smaller than its magnitude.\<close>

definition limit_temperature :: "env \<Rightarrow> mcif \<Rightarrow> mcif" where
  "limit_temperature env s =
     (let temp = ntc_temp_mos2 (now env s); conf = m_conf s in
      if temp < l_temp_fet_start conf then
        s\<lparr>m_conf := conf\<lparr>lo_current_min := l_current_min conf, lo_current_max := l_current_max conf\<rparr>\<rparr>
      else if temp > l_temp_fet_end conf then
        mc_interface_fault_stop env FAULT_CODE_OVER_TEMP_FET
          (s\<lparr>m_conf := conf\<lparr>lo_current_min := 0, lo_current_max := 0\<rparr>\<rparr>)
      else
        (let maxc0 = \<bar>l_current_max conf\<bar>;
             maxc1 = (if \<bar>l_current_min conf\<bar> > maxc0 then \<bar>l_current_min conf\<bar> else maxc0);
             maxc = utils_map temp (l_temp_fet_start conf) (l_temp_fet_end conf) maxc1 0;
             conf1 = (if \<bar>l_current_max conf\<bar> > maxc
                      then conf\<lparr>lo_current_max := of_int (SIGN (l_current_max conf)) * maxc\<rparr> else conf);
             conf2 = (if \<bar>l_current_min conf1\<bar> > maxc
                      then conf1\<lparr>lo_current_min := of_int (SIGN (l_current_min conf1)) * maxc\<rparr> else conf1) in
         s\<lparr>m_conf := conf2\<rparr>))"

definition limit_battery :: "real \<Rightarrow> mcif \<Rightarrow> mcif" where
  "limit_battery v_in s =
     (let conf = m_conf s;
          conf1 = (if v_in > l_battery_cut_start conf then conf\<lparr>lo_in_current_max := l_in_current_max conf\<rparr>
                   else if v_in < l_battery_cut_end conf then conf\<lparr>lo_in_current_max := 0\<rparr>
                   else conf\<lparr>lo_in_current_max := utils_map v_in (l_battery_cut_start conf)
                              (l_battery_cut_end conf) (l_in_current_max conf) 0\<rparr>) in
      s\<lparr>m_conf := conf1\<lparr>lo_in_current_min := l_in_current_min conf1\<rparr>\<rparr>)"

definition update_override_limits :: "env \<Rightarrow> mcif \<Rightarrow> mcif" where
  "update_override_limits env s =
     (let v_in = input_voltage (now env s) in limit_battery v_in (limit_temperature env s))"

definition mc_interface_set_configuration :: "env \<Rightarrow> mc_configuration \<Rightarrow> mcif \<Rightarrow> mcif" where
  "mc_interface_set_configuration env configuration s =
     (let s1 = (if m_sensor_port_mode (m_conf s) \<noteq> m_sensor_port_mode configuration
                then encoder_setup configuration (call encoder_deinit s) else s);
          s2 = (if m_sensor_port_mode configuration = SENSOR_PORT_MODE_ABI
                then call (encoder_set_counts (m_encoder_counts configuration)) s1 else s1);
          s3 = (if motor_type (m_conf s2) = MOTOR_TYPE_FOC \<and> motor_type configuration \<noteq> MOTOR_TYPE_FOC
                then call (drv_init Mcpwm) ((call (drv_deinit Mcpwm_foc) s2)\<lparr>m_conf := configuration\<rparr>)
                else if motor_type (m_conf s2) \<noteq> MOTOR_TYPE_FOC \<and> motor_type configuration = MOTOR_TYPE_FOC
                then call (drv_init Mcpwm_foc) ((call (drv_deinit Mcpwm) s2)\<lparr>m_conf := configuration\<rparr>)
                else s2\<lparr>m_conf := configuration\<rparr>);
          s4 = update_override_limits env s3 in
      dispatch (\<lambda>d. drv_set_configuration d (m_conf s4)) s4)"

text \<open>The interrupt handler, in the order of the source: voltage check, running time and callback,
  current sums, current check, energy counters, sampling.\<close>

definition isr_voltage :: "env \<Rightarrow> real \<Rightarrow> mcif \<Rightarrow> mcif" where
  "isr_voltage env v_in s =
     (if v_in < l_min_vin (m_conf s) \<or> v_in > l_max_vin (m_conf s) then
        (let s1 = s\<lparr>wrong_voltage_iterations := wrong_voltage_iterations s + 1\<rparr> in
         if wrong_voltage_iterations s1 \<ge> 8
         then mc_interface_fault_stop env
                (if v_in < l_min_vin (m_conf s1) then FAULT_CODE_UNDER_VOLTAGE else FAULT_CODE_OVER_VOLTAGE) s1
         else s1)
      else s\<lparr>wrong_voltage_iterations := 0\<rparr>)"

definition isr_running :: "env \<Rightarrow> mcif \<Rightarrow> mcif" where
  "isr_running env s =
     (let s1 = (if mc_interface_get_state env s = MC_STATE_RUNNING
                then s\<lparr>m_cycles_running := m_cycles_running s + 1\<rparr> else s\<lparr>m_cycles_running := 0\<rparr>) in
      if pwn_done_func s1 then call pwm_callback s1 else s1)"

definition isr_sums :: "real \<Rightarrow> real \<Rightarrow> mcif \<Rightarrow> mcif" where
  "isr_sums current current_in s =
     s\<lparr>m_motor_current_sum := fl (m_motor_current_sum s + current),
       m_input_current_sum := fl (m_input_current_sum s + current_in),
       m_motor_current_iterations := fl (m_motor_current_iterations s + 1),
       m_input_current_iterations := fl (m_input_current_iterations s + 1)\<rparr>"

definition isr_overcurrent :: "env \<Rightarrow> real \<Rightarrow> mcif \<Rightarrow> mcif" where
  "isr_overcurrent env current s =
     (let foc = (motor_type (m_conf s) = MOTOR_TYPE_FOC);
          abs_current = (if foc then mcpwm_foc_get_abs_motor_current (now env s) else mc_interface_get_tot_current env s);
          abs_current_filtered = (if foc then mcpwm_foc_get_abs_motor_current_filtered (now env s) else current) in
      if l_slow_abs_current (m_conf s) then
        (if \<bar>abs_current_filtered\<bar> > l_abs_current_max (m_conf s)
         then mc_interface_fault_stop env FAULT_CODE_ABS_OVER_CURRENT s else s)
      else
        (if \<bar>abs_current\<bar> > l_abs_current_max (m_conf s)
         then mc_interface_fault_stop env FAULT_CODE_ABS_OVER_CURRENT s else s))"

definition isr_energy :: "real \<Rightarrow> real \<Rightarrow> real \<Rightarrow> real \<Rightarrow> mcif \<Rightarrow> mcif" where
  "isr_energy current current_in f_samp v_in s =
     (if \<bar>current\<bar> > 1 then
        (let s1 = s\<lparr>curr_diff_sum := fl (curr_diff_sum s + fl (current_in / f_samp)),
                    curr_diff_samples := fl (curr_diff_samples s + fl (1 / f_samp))\<rparr> in
         if curr_diff_samples s1 \<ge> fl 0.01 then
           (let sum = curr_diff_sum s1;
                s2 = (if sum > 0
                      then s1\<lparr>m_amp_seconds := fl (m_amp_seconds s1 + sum),
                              m_watt_seconds := fl (m_watt_seconds s1 + fl (sum * v_in))\<rparr>
                      else s1\<lparr>m_amp_seconds_charged := fl (m_amp_seconds_charged s1 - sum),
                              m_watt_seconds_charged := fl (m_watt_seconds_charged s1 - fl (sum * v_in))\<rparr>) in
            s2\<lparr>curr_diff_samples := 0, curr_diff_sum := 0\<rparr>)
         else s1)
      else s)"

definition isr_sample_start :: "env \<Rightarrow> mcif \<Rightarrow> mcif" where
  "isr_sample_start env s =
     (if m_sample_at_start s \<and> (mc_interface_get_state env s = MC_STATE_RUNNING \<or>
          m_start_comm s \<noteq> mcpwm_get_comm_step (now env s))
      then s\<lparr>m_sample_now := 0, m_sample_ready := False, m_sample_at_start := False\<rparr> else s)"

text \<open>One sample: an index below zero is outside the arrays.\<close>

definition arr_get_int :: "'a list \<Rightarrow> int \<Rightarrow> 'a option" where
  "arr_get_int xs i = (if i < 0 then None else arr_get xs (nat i))"

definition sample_values :: "env \<Rightarrow> mcif \<Rightarrow> (u16 \<times> u16 \<times> u16 \<times> u16 \<times> u16) option" where
  "sample_values env s =
     (let r = now env s in
      if mc_interface_get_state env s = MC_STATE_DETECTING then
        do { c0 \<leftarrow> arr_get_int (mcpwm_detect_currents r) (mcpwm_get_comm_step r - 1); c0 \<leftarrow> f2i16 c0;
             c1 \<leftarrow> arr_get_int (mcpwm_detect_currents_diff r) (mcpwm_get_comm_step r - 1); c1 \<leftarrow> f2i16 c1;
             v0 \<leftarrow> arr_get (mcpwm_detect_voltages r) 0; v0 \<leftarrow> f2i16 v0;
             v1 \<leftarrow> arr_get (mcpwm_detect_voltages r) 1; v1 \<leftarrow> f2i16 v1;
             v2 \<leftarrow> arr_get (mcpwm_detect_voltages r) 2; v2 \<leftarrow> f2i16 v2;
             Some (c0, c1, v0, v1, v2) }
      else
        do { c0 \<leftarrow> arr_get (adc_curr_norm_value r) 0; c1 \<leftarrow> arr_get (adc_curr_norm_value r) 1;
             Some (word_of_int c0, word_of_int c1, word_of_int (adc_v_l1 r - mcpwm_vzero r),
                   word_of_int (adc_v_l2 r - mcpwm_vzero r), word_of_int (adc_v_l3 r - mcpwm_vzero r)) })"

definition store_sample :: "env \<Rightarrow> real \<Rightarrow> mcif \<Rightarrow> samples option" where
  "store_sample env f_samp s =
     (let r = now env s; n = m_sample_now s; q = m_samples s in
      if n < 0 then None else
      do { (c0, c1, p1, p2, p3) \<leftarrow> sample_values env s;
           a0 \<leftarrow> arr_set (curr0_samples q) (nat n) c0;
           a1 \<leftarrow> arr_set (curr1_samples q) (nat n) c1;
           b1 \<leftarrow> arr_set (ph1_samples q) (nat n) p1;
           b2 \<leftarrow> arr_set (ph2_samples q) (nat n) p2;
           b3 \<leftarrow> arr_set (ph3_samples q) (nat n) p3;
           z \<leftarrow> arr_set (vzero_samples q) (nat n) (word_of_int (mcpwm_vzero r));
           fir \<leftarrow> f2i16 (fl (mc_interface_get_tot_current env s * 100));
           e \<leftarrow> arr_set (curr_fir_samples q) (nat n) fir;
           fsw \<leftarrow> f2i16 (fl (f_samp / 10));
           f \<leftarrow> arr_set (f_sw_samples q) (nat n) fsw;
           st \<leftarrow> arr_set (status_samples q) (nat n)
                  (word_of_int (mcpwm_get_comm_step r) OR push_bit 3 (word_of_int (mcpwm_read_hall_phase r)));
           Some \<lparr>curr0_samples = a0, curr1_samples = a1, ph1_samples = b1, ph2_samples = b2, ph3_samples = b3,
                 vzero_samples = z, status_samples = st, curr_fir_samples = e, f_sw_samples = f\<rparr> })"

definition isr_sample :: "env \<Rightarrow> real \<Rightarrow> mcif \<Rightarrow> mcif option" where
  "isr_sample env f_samp s =
     (if m_sample_ready s then Some s else
      let s1 = s\<lparr>isr_a := isr_a s + 1\<rparr> in
      if isr_a s1 \<ge> m_sample_int s1 then
        do { q \<leftarrow> store_sample env f_samp s1;
             let s2 = s1\<lparr>isr_a := 0, m_samples := q, m_sample_now := m_sample_now s1 + 1\<rparr>;
             let s3 = (if m_sample_now s2 = m_sample_len s2
                       then call sample_signal (s2\<lparr>m_sample_ready := True, m_sample_now := 0\<rparr>) else s2);
             Some (s3\<lparr>m_last_adc_duration_sample := mcpwm_get_last_adc_isr_duration (now env s3)\<rparr>) }
      else Some s1)"

definition mc_interface_mc_timer_isr :: "env \<Rightarrow> mcif \<Rightarrow> mcif option" where
  "mc_interface_mc_timer_isr env s =
     (let s1 = call ledpwm_update_pwm s;
          v_in = input_voltage (now env s1);
          s2 = isr_running env (isr_voltage env v_in s1);
          current = mc_interface_get_tot_current_filtered env s2;
          current_in = mc_interface_get_tot_current_in_filtered env s2;
          s3 = isr_overcurrent env current (isr_sums current current_in s2);
          f_samp = mc_interface_get_sampling_frequency_now env s3;
          s4 = isr_sample_start env (isr_energy current current_in f_samp v_in s3) in
      isr_sample env f_samp s4)"

definition mc_interface_adc_inj_int_handler :: "mcif \<Rightarrow> mcif" where
  "mc_interface_adc_inj_int_handler = dispatch drv_adc_inj_int_handler"

text \<open>One round of the loop of \<open>timer_thread\<close>, which runs every millisecond.\<close>

definition timer_thread :: "env \<Rightarrow> mcif \<Rightarrow> mcif" where
  "timer_thread env s =
     (let s1 = (if is_drv_fault (now env s) then mc_interface_fault_stop env FAULT_CODE_DRV8302 s else s);
          s2 = (if m_ignore_iterations s1 > 0 then s1\<lparr>m_ignore_iterations := m_ignore_iterations s1 - 1\<rparr>
                else if \<not> is_drv_fault (now env s1) then s1\<lparr>m_fault_now := FAULT_CODE_NONE\<rparr> else s1) in
      update_override_limits env s2)"

text \<open>One round of \<open>sample_send_thread\<close>: the samples as packets of 17 bytes.\<close>

definition sample_bytes :: "samples \<Rightarrow> nat \<Rightarrow> bytes option" where
  "sample_bytes q i =
     do { c0 \<leftarrow> arr_get (curr0_samples q) i; c1 \<leftarrow> arr_get (curr1_samples q) i;
          p1 \<leftarrow> arr_get (ph1_samples q) i; p2 \<leftarrow> arr_get (ph2_samples q) i; p3 \<leftarrow> arr_get (ph3_samples q) i;
          z \<leftarrow> arr_get (vzero_samples q) i; st \<leftarrow> arr_get (status_samples q) i;
          fir \<leftarrow> arr_get (curr_fir_samples q) i; fsw \<leftarrow> arr_get (f_sw_samples q) i;
          Some (concat [enc16 c0, enc16 c1, enc16 p1, enc16 p2, enc16 p3, enc16 z, [st], enc16 fir, enc16 fsw]) }"

fun send_samples :: "nat list \<Rightarrow> mcif \<Rightarrow> mcif option" where
  "send_samples [] s = Some s"
| "send_samples (i # is) s =
     do { b \<leftarrow> sample_bytes (m_samples s) i; send_samples is (call (commands_send_samples b) s) }"

definition sample_send_thread :: "mcif \<Rightarrow> mcif option" where
  "sample_send_thread s = send_samples [0..<nat (m_sample_len s)] s"


section \<open>Sample states\<close>

text \<open>The state after start-up with the default configuration, and an environment at rest, for the
  witnesses.\<close>

definition mcif_start :: mcif where
  "mcif_start =
     \<lparr>m_conf = conf_general_get_default_mc_configuration, m_fault_now = FAULT_CODE_NONE, m_ignore_iterations = 0,
      m_cycles_running = 0, m_lock_enabled = False, m_lock_override_once = False, m_motor_current_sum = 0,
      m_input_current_sum = 0, m_motor_current_iterations = 0, m_input_current_iterations = 0,
      m_amp_seconds = 0, m_amp_seconds_charged = 0, m_watt_seconds = 0, m_watt_seconds_charged = 0,
      m_position_set = 0, m_samples = samples_zero, m_sample_len = 1000, m_sample_int = 1,
      m_sample_ready = True, m_sample_now = 0, m_sample_at_start = False, m_start_comm = 0,
      m_last_adc_duration_sample = 0, pwn_done_func = False, wrong_voltage_iterations = 0,
      curr_diff_sum = 0, curr_diff_samples = 0, isr_a = 0, calls = []\<rparr>"

definition rest :: env where
  "rest L =
     \<lparr>drv_of = \<lambda>_. \<lparr>get_state = MC_STATE_OFF, is_dccal_done = True, get_duty_cycle_set = 0, get_duty_cycle_now = 0,
        get_switching_frequency_now = 20000, get_rpm = 0, get_tot_current = 0, get_tot_current_filtered = 0,
        get_tot_current_directional = 0, get_tot_current_directional_filtered = 0, get_tot_current_in = 0,
        get_tot_current_in_filtered = 0, get_tachometer_value = 0, get_tachometer_abs_value = 0,
        get_last_inj_adc_isr_duration = 0\<rparr>,
      mcpwm_get_comm_step = 1, mcpwm_read_hall_phase = 0, mcpwm_get_last_adc_isr_duration = 0,
      mcpwm_detect_currents = replicate 6 0, mcpwm_detect_currents_diff = replicate 6 0,
      mcpwm_detect_voltages = replicate 6 0, mcpwm_vzero = 0, mcpwm_foc_get_abs_motor_current = 0,
      mcpwm_foc_get_abs_motor_current_filtered = 0, mcpwm_foc_get_pid_pos_now = 0, encoder_read_deg = 0,
      input_voltage = 24, ntc_temp_mos1 = 25, ntc_temp_mos2 = 25, is_drv_fault = False,
      adc_curr_norm_value = [0, 0, 0], adc_v_l1 = 0, adc_v_l2 = 0, adc_v_l3 = 0,
      tim8_ccr1 = 0, tim1_ccr4 = 0, tim1_arr = 0, mcpwm_avg_cycle_integrator = 0,
      mcpwm_hall_detect_result = (0, []), adc_vin_sens = 1000\<rparr>"

lemmas default_conf = conf_general_get_default_mc_configuration_def

section \<open>The command gate\<close>

definition quiet :: "env \<Rightarrow> bool" where
  "quiet env \<longleftrightarrow> (\<forall>L d. get_state (drv_of (env L) d) \<noteq> MC_STATE_DETECTING)"

lemma quiet_state: "quiet env \<Longrightarrow> mc_interface_get_state env s \<noteq> MC_STATE_DETECTING"
  by (auto simp: quiet_def mc_interface_get_state_def read_drv_def now_def split: option.splits)

text \<open>The contract the motor commands share: ask \<open>mc_interface_try_input\<close>, then hand the request to the
  driver of the motor type.\<close>

locale motor_command =
  fixes cmd :: "env \<Rightarrow> mcif \<Rightarrow> mcif"
    and req :: "driver \<Rightarrow> mc_call"
    and upd :: "mcif \<Rightarrow> mcif"
  assumes cmd_law: "cmd env s =
      (let (r, s1) = mc_interface_try_input env s in if r \<noteq> 0 then s1 else dispatch req (upd s1))"
    and upd_frame: "calls (upd s) = calls s" "m_conf (upd s) = m_conf s" "m_fault_now (upd s) = m_fault_now s"
      "m_ignore_iterations (upd s) = m_ignore_iterations s" "m_lock_enabled (upd s) = m_lock_enabled s"
      "m_lock_override_once (upd s) = m_lock_override_once s"
begin

lemma ignored: "quiet env \<Longrightarrow> m_ignore_iterations s \<noteq> 0 \<Longrightarrow> cmd env s = s"
  by (simp add: cmd_law mc_interface_try_input_def quiet_state)

lemma locked:
  "quiet env \<Longrightarrow> m_ignore_iterations s = 0 \<Longrightarrow> m_lock_enabled s \<Longrightarrow> \<not> m_lock_override_once s \<Longrightarrow> cmd env s = s"
  by (simp add: cmd_law mc_interface_try_input_def quiet_state)

lemma passes:
  assumes "quiet env" "m_ignore_iterations s = 0" "m_lock_enabled s \<longrightarrow> m_lock_override_once s"
  shows "calls (cmd env s) = calls s @ (case driver_of (motor_type (m_conf s)) of Some d \<Rightarrow> [req d] | None \<Rightarrow> [])"
    and "m_lock_enabled (cmd env s) = m_lock_enabled s"
    and "m_lock_override_once (cmd env s) = (m_lock_override_once s \<and> \<not> m_lock_enabled s)"
    and "m_ignore_iterations (cmd env s) = 0" and "m_conf (cmd env s) = m_conf s"
  using assms
  by (auto simp: cmd_law mc_interface_try_input_def quiet_state dispatch_def call_def upd_frame split: option.splits)

end

interpretation set_duty: motor_command "\<lambda>env. mc_interface_set_duty env x" "\<lambda>d. drv_set_duty d x" "\<lambda>s. s" for x
  by unfold_locales (simp_all add: mc_interface_set_duty_def)

interpretation set_duty_noramp: motor_command "\<lambda>env. mc_interface_set_duty_noramp env x" "\<lambda>d. drv_set_duty_noramp d x"
    "\<lambda>s. s" for x
  by unfold_locales (simp_all add: mc_interface_set_duty_noramp_def)

interpretation set_pid_speed: motor_command "\<lambda>env. mc_interface_set_pid_speed env x" "\<lambda>d. drv_set_pid_speed d x" "\<lambda>s. s" for x
  by unfold_locales (simp_all add: mc_interface_set_pid_speed_def)

interpretation set_pid_pos: motor_command "\<lambda>env. mc_interface_set_pid_pos env x" "\<lambda>d. drv_set_pid_pos d x"
    "\<lambda>s. s\<lparr>m_position_set := x\<rparr>" for x
  by unfold_locales (simp_all add: mc_interface_set_pid_pos_def)

interpretation set_current: motor_command "\<lambda>env. mc_interface_set_current env x" "\<lambda>d. drv_set_current d x" "\<lambda>s. s" for x
  by unfold_locales (simp_all add: mc_interface_set_current_def)

interpretation set_brake_current: motor_command "\<lambda>env. mc_interface_set_brake_current env x" "\<lambda>d. drv_set_brake_current d x"
    "\<lambda>s. s" for x
  by unfold_locales (simp_all add: mc_interface_set_brake_current_def)

text \<open>The commands as data, for sequences of them.\<close>

datatype motor_cmd = Duty real | Duty_noramp real | Pid_speed real | Pid_pos real | Current real | Brake_current real
  | Brake_now | Release_motor

fun run_cmd :: "motor_cmd \<Rightarrow> env \<Rightarrow> mcif \<Rightarrow> mcif" where
  "run_cmd (Duty x) env = mc_interface_set_duty env x"
| "run_cmd (Duty_noramp x) env = mc_interface_set_duty_noramp env x"
| "run_cmd (Pid_speed x) env = mc_interface_set_pid_speed env x"
| "run_cmd (Pid_pos x) env = mc_interface_set_pid_pos env x"
| "run_cmd (Current x) env = mc_interface_set_current env x"
| "run_cmd (Brake_current x) env = mc_interface_set_brake_current env x"
| "run_cmd Brake_now env = mc_interface_brake_now env"
| "run_cmd Release_motor env = mc_interface_release_motor env"

fun request :: "motor_cmd \<Rightarrow> driver \<Rightarrow> mc_call" where
  "request (Duty x) d = drv_set_duty d x"
| "request (Duty_noramp x) d = drv_set_duty_noramp d x"
| "request (Pid_speed x) d = drv_set_pid_speed d x"
| "request (Pid_pos x) d = drv_set_pid_pos d x"
| "request (Current x) d = drv_set_current d x"
| "request (Brake_current x) d = drv_set_brake_current d x"
| "request Brake_now d = drv_set_duty d 0"
| "request Release_motor d = drv_set_current d 0"

fun cmd_upd :: "motor_cmd \<Rightarrow> mcif \<Rightarrow> mcif" where
  "cmd_upd (Pid_pos x) s = s\<lparr>m_position_set := x\<rparr>"
| "cmd_upd _ s = s"

interpretation cmds: motor_command "run_cmd c" "request c" "cmd_upd c" for c
proof
  show "run_cmd c env s = (let (r, s1) = mc_interface_try_input env s in if r \<noteq> 0 then s1 else dispatch (request c) (cmd_upd c s1))" for env s
    by (cases c) (auto simp: set_duty.cmd_law set_duty_noramp.cmd_law set_pid_speed.cmd_law set_pid_pos.cmd_law
        set_current.cmd_law set_brake_current.cmd_law mc_interface_brake_now_def mc_interface_release_motor_def
        dispatch_def split: prod.splits option.splits)
qed (cases c; simp)+

lemma locked_sequence:
  assumes "m_ignore_iterations s = 0" "m_lock_enabled s" "\<not> m_lock_override_once s" "\<forall>(env, c)\<in>set cs. quiet env"
  shows "fold (\<lambda>(env, c). run_cmd c env) cs s = s"
  using assms by (induction cs) (auto simp: cmds.locked)



lemma quiet_rest [simp]: "quiet rest"
  by (simp add: quiet_def rest_def)


section \<open>Faults\<close>

lemma fault_stop_frame [simp]:
  "m_conf (mc_interface_fault_stop env f s) = m_conf s"
  "m_fault_now (mc_interface_fault_stop env f s) = f"
  "m_ignore_iterations (mc_interface_fault_stop env f s) = sint (m_fault_stop_time_ms (m_conf s))"
  "m_lock_enabled (mc_interface_fault_stop env f s) = m_lock_enabled s"
  "m_lock_override_once (mc_interface_fault_stop env f s) = m_lock_override_once s"
  "m_samples (mc_interface_fault_stop env f s) = m_samples s"
  "m_sample_len (mc_interface_fault_stop env f s) = m_sample_len s"
  "m_sample_int (mc_interface_fault_stop env f s) = m_sample_int s"
  "m_sample_ready (mc_interface_fault_stop env f s) = m_sample_ready s"
  "m_sample_now (mc_interface_fault_stop env f s) = m_sample_now s"
  "m_sample_at_start (mc_interface_fault_stop env f s) = m_sample_at_start s"
  "isr_a (mc_interface_fault_stop env f s) = isr_a s"
  by (auto simp: mc_interface_fault_stop_def Let_def dispatch_def call_def split: option.splits)

text \<open>A quiet environment without a fault condition for a configuration.\<close>

definition calm :: "mc_configuration \<Rightarrow> env \<Rightarrow> bool" where
  "calm conf env \<longleftrightarrow> quiet env \<and> (\<forall>L. \<not> is_drv_fault (env L) \<and> ntc_temp_mos2 (env L) \<le> l_temp_fet_end conf)"

lemma limits_frame:
  assumes "calm (m_conf s) env"
  shows "calls (update_override_limits env s) = calls s"
    and "m_fault_now (update_override_limits env s) = m_fault_now s"
    and "m_ignore_iterations (update_override_limits env s) = m_ignore_iterations s"
    and "motor_type (m_conf (update_override_limits env s)) = motor_type (m_conf s)"
    and "l_temp_fet_end (m_conf (update_override_limits env s)) = l_temp_fet_end (m_conf s)"
proof -
  have "\<not> ntc_temp_mos2 (now env s) > l_temp_fet_end (m_conf s)"
    using assms unfolding calm_def now_def by (meson linorder_not_le)
  then show "calls (update_override_limits env s) = calls s"
    "m_fault_now (update_override_limits env s) = m_fault_now s"
    "m_ignore_iterations (update_override_limits env s) = m_ignore_iterations s"
    "motor_type (m_conf (update_override_limits env s)) = motor_type (m_conf s)"
    "l_temp_fet_end (m_conf (update_override_limits env s)) = l_temp_fet_end (m_conf s)"
    by (simp_all add: update_override_limits_def limit_battery_def limit_temperature_def Let_def)
qed

text \<open>Interleavings of motor commands and rounds of the timer thread.\<close>

datatype mc_op = Motor motor_cmd env | Tick env

fun run_op :: "mc_op \<Rightarrow> mcif \<Rightarrow> mcif" where
  "run_op (Motor c env) s = run_cmd c env s"
| "run_op (Tick env) s = timer_thread env s"

fun op_env :: "mc_op \<Rightarrow> env" where
  "op_env (Motor c env) = env"
| "op_env (Tick env) = env"

definition ticks :: "mc_op list \<Rightarrow> nat" where
  "ticks xs = length (filter (\<lambda>x. case x of Tick _ \<Rightarrow> True | _ \<Rightarrow> False) xs)"

lemma tick_waiting:
  assumes "calm (m_conf s) env" "0 < m_ignore_iterations s"
  shows "calls (timer_thread env s) = calls s" "m_fault_now (timer_thread env s) = m_fault_now s"
    "m_ignore_iterations (timer_thread env s) = m_ignore_iterations s - 1"
    "l_temp_fet_end (m_conf (timer_thread env s)) = l_temp_fet_end (m_conf s)"
proof -
  have "\<not> is_drv_fault (now env s)" using assms(1) by (simp add: calm_def now_def)
  then have t: "timer_thread env s = update_override_limits env (s\<lparr>m_ignore_iterations := m_ignore_iterations s - 1\<rparr>)"
    using assms(2) by (simp add: timer_thread_def)
  have "calm (m_conf (s\<lparr>m_ignore_iterations := m_ignore_iterations s - 1\<rparr>)) env" using assms(1) by simp
  note L = limits_frame [OF this]
  show "calls (timer_thread env s) = calls s" "m_fault_now (timer_thread env s) = m_fault_now s"
    "m_ignore_iterations (timer_thread env s) = m_ignore_iterations s - 1"
    "l_temp_fet_end (m_conf (timer_thread env s)) = l_temp_fet_end (m_conf s)"
    unfolding t using L by simp_all
qed

lemma calm_cong: "l_temp_fet_end c = l_temp_fet_end c' \<Longrightarrow> calm c env = calm c' env"
  by (simp add: calm_def)

lemma waiting_run:
  assumes "\<forall>x\<in>set xs. calm (m_conf s) (op_env x)" "int (ticks xs) < m_ignore_iterations s"
  shows "calls (fold run_op xs s) = calls s \<and> m_fault_now (fold run_op xs s) = m_fault_now s \<and>
    m_ignore_iterations (fold run_op xs s) = m_ignore_iterations s - int (ticks xs) \<and>
    l_temp_fet_end (m_conf (fold run_op xs s)) = l_temp_fet_end (m_conf s)"
  using assms
proof (induction xs arbitrary: s)
  case Nil
  then show ?case by (simp add: ticks_def)
next
  case (Cons x xs)
  show ?case
  proof (cases x)
    case (Motor c env)
    then have "run_cmd c env s = s"
      using Cons.prems cmds.ignored [of env s c] by (auto simp: calm_def)
    then show ?thesis using Cons.IH [of s] Cons.prems Motor by (simp add: ticks_def)
  next
    case (Tick env)
    then have w: "calls (timer_thread env s) = calls s" "m_fault_now (timer_thread env s) = m_fault_now s"
      "m_ignore_iterations (timer_thread env s) = m_ignore_iterations s - 1"
      "l_temp_fet_end (m_conf (timer_thread env s)) = l_temp_fet_end (m_conf s)"
      using Cons.prems tick_waiting [of s env] by (auto simp: ticks_def)
    have "\<forall>x\<in>set xs. calm (m_conf (timer_thread env s)) (op_env x)"
      using Cons.prems(1) calm_cong [OF w(4)] by simp
    then show ?thesis using Cons.IH [of "timer_thread env s"] Cons.prems(2) w Tick by (simp add: ticks_def)
  qed
qed

text \<open>C10: After a fault, as long as fewer rounds of the timer thread have run than the configured stop time
  in milliseconds, and no new fault occurs in them, no motor command reaches a driver and the fault code stays, whatever commands
  are tried in between; the round that follows the last of them clears the fault.\<close>

theorem fault_holds_and_clears:
  fixes s env fault
  defines "s1 \<equiv> mc_interface_fault_stop env fault s" and "n \<equiv> sint (m_fault_stop_time_ms (m_conf s))"
  assumes "\<forall>x\<in>set xs. calm (m_conf s) (op_env x)" "calm (m_conf s) env2" "calm (m_conf s) env3"
  shows "(int (ticks xs) < n \<longrightarrow> calls (fold run_op xs s1) = calls s1 \<and> m_fault_now (fold run_op xs s1) = fault) \<and>
    (int (ticks xs) + 1 = n \<longrightarrow>
       m_fault_now (timer_thread env3 (timer_thread env2 (fold run_op xs s1))) = FAULT_CODE_NONE)"
proof (intro conjI impI)
  have c: "\<forall>x\<in>set xs. calm (m_conf s1) (op_env x)" using assms(3) by (simp add: s1_def)
  have i: "m_ignore_iterations s1 = n" by (simp add: s1_def n_def)
  note w = waiting_run [OF c]
  show "calls (fold run_op xs s1) = calls s1" "m_fault_now (fold run_op xs s1) = fault" if "int (ticks xs) < n"
    using w that by (simp_all add: i) (simp add: s1_def)
  show "m_fault_now (timer_thread env3 (timer_thread env2 (fold run_op xs s1))) = FAULT_CODE_NONE" if "int (ticks xs) + 1 = n"
  proof -
    let ?t = "fold run_op xs s1"
    have t: "m_ignore_iterations ?t = 1" "l_temp_fet_end (m_conf ?t) = l_temp_fet_end (m_conf s)"
      using w that by (simp_all add: i) (simp add: s1_def)
    have c2: "calm (m_conf ?t) env2" using assms(4) calm_cong [OF t(2)] by simp
    note u = tick_waiting [OF c2]
    let ?u = "timer_thread env2 ?t"
    have c3: "calm (m_conf (?u\<lparr>m_fault_now := FAULT_CODE_NONE\<rparr>)) env3"
      using assms(5) u(4) t calm_cong [of "m_conf ?u" "m_conf s"] by simp
    have "\<not> is_drv_fault (now env3 ?u)" using assms(5) by (simp add: calm_def now_def)
    then have "timer_thread env3 ?u = update_override_limits env3 (?u\<lparr>m_fault_now := FAULT_CODE_NONE\<rparr>)"
      using u(3) t(1) by (simp add: timer_thread_def)
    then show ?thesis using limits_frame(2) [OF c3] by simp
  qed
qed


lemma calm_rest: "calm (m_conf mcif_start) rest"
  by (simp add: calm_def mcif_start_def default_conf MCCONF_L_LIM_TEMP_FET_END_def) (simp add: rest_def)

theorem fault_holds_and_clears_witness:
  "calls (fold run_op [Motor (Duty 1) rest, Tick rest, Motor (Current 9) rest]
      (mc_interface_fault_stop rest FAULT_CODE_DRV8302 mcif_start)) =
   calls (mc_interface_fault_stop rest FAULT_CODE_DRV8302 mcif_start)"
  using fault_holds_and_clears [of "[Motor (Duty 1) rest, Tick rest, Motor (Current 9) rest]" mcif_start rest rest
      rest FAULT_CODE_DRV8302] calm_rest
  by (simp add: ticks_def mcif_start_def default_conf MCCONF_M_FAULT_STOP_TIME_def)

section \<open>Sampling\<close>

text \<open>The sample buffers are complete and the index is below the announced length. An environment is
  fit for sampling if its arrays have their sizes and the conversions to 16 bits are defined.\<close>

definition samples_len :: "samples \<Rightarrow> bool" where
  "samples_len q \<longleftrightarrow> length (curr0_samples q) = ADC_SAMPLE_MAX_LEN \<and> length (curr1_samples q) = ADC_SAMPLE_MAX_LEN \<and>
     length (ph1_samples q) = ADC_SAMPLE_MAX_LEN \<and> length (ph2_samples q) = ADC_SAMPLE_MAX_LEN \<and>
     length (ph3_samples q) = ADC_SAMPLE_MAX_LEN \<and> length (vzero_samples q) = ADC_SAMPLE_MAX_LEN \<and>
     length (status_samples q) = ADC_SAMPLE_MAX_LEN \<and> length (curr_fir_samples q) = ADC_SAMPLE_MAX_LEN \<and>
     length (f_sw_samples q) = ADC_SAMPLE_MAX_LEN"

definition sampling_ok :: "mcif \<Rightarrow> bool" where
  "sampling_ok s \<longleftrightarrow> samples_len (m_samples s) \<and> 0 \<le> m_sample_now s \<and> m_sample_now s < m_sample_len s \<and>
     m_sample_len s \<le> int ADC_SAMPLE_MAX_LEN"

definition fits16 :: "real \<Rightarrow> bool" where
  "fits16 x \<longleftrightarrow> f2i16 x \<noteq> None"

definition sampling_env :: "env \<Rightarrow> bool" where
  "sampling_env env \<longleftrightarrow> (\<forall>L. let r = env L in
     1 \<le> mcpwm_get_comm_step r \<and> mcpwm_get_comm_step r \<le> 6 \<and>
     length (mcpwm_detect_currents r) = 6 \<and> length (mcpwm_detect_currents_diff r) = 6 \<and>
     length (mcpwm_detect_voltages r) = 6 \<and> length (adc_curr_norm_value r) = 3 \<and>
     (\<forall>x\<in>set (mcpwm_detect_currents r) \<union> set (mcpwm_detect_currents_diff r) \<union> set (mcpwm_detect_voltages r). fits16 x) \<and>
     (\<forall>d. fits16 (fl (get_tot_current (drv_of r d) * 100))) \<and>
     (\<forall>d. fits16 (fl (get_switching_frequency_now (drv_of r d) / 10)) \<and>
          fits16 (fl (fl (get_switching_frequency_now (drv_of r d) / 2) / 10))))"

lemma fits16_0 [simp]: "fits16 0"
  by (simp add: fits16_def f2i16_def ftrunc_def)

lemma fits16_zero: "fits16 (fl 0)"
  by simp

lemma sample_values_defined:
  assumes "sampling_env env"
  shows "\<exists>v. sample_values env s = Some v"
proof -
  let ?r = "env (calls s)" and ?k = "nat (mcpwm_get_comm_step (env (calls s)) - 1)"
  have r: "1 \<le> mcpwm_get_comm_step ?r" "mcpwm_get_comm_step ?r \<le> 6"
    "length (mcpwm_detect_currents ?r) = 6" "length (mcpwm_detect_currents_diff ?r) = 6"
    "length (mcpwm_detect_voltages ?r) = 6" "length (adc_curr_norm_value ?r) = 3"
    and f: "\<forall>x\<in>set (mcpwm_detect_currents ?r) \<union> set (mcpwm_detect_currents_diff ?r) \<union> set (mcpwm_detect_voltages ?r). fits16 x"
    using assms unfolding sampling_env_def Let_def by blast+
  have k: "?k < 6" "\<not> mcpwm_get_comm_step ?r - 1 < 0" using r by auto
  have "fits16 (mcpwm_detect_currents ?r ! ?k)" "fits16 (mcpwm_detect_currents_diff ?r ! ?k)"
    "fits16 (mcpwm_detect_voltages ?r ! 0)" "fits16 (mcpwm_detect_voltages ?r ! Suc 0)" "fits16 (mcpwm_detect_voltages ?r ! 2)"
    using f k r by auto
  then show ?thesis
    using r k
    by (auto simp: sample_values_def now_def Let_def arr_get_int_def arr_get_def fits16_def)
qed


lemma tot_current_fits:
  assumes "sampling_env env"
  shows "fits16 (fl (mc_interface_get_tot_current env s * 100))"
    and "fits16 (fl (mc_interface_get_sampling_frequency_now env s / 10))"
  using assms
  by (auto simp: sampling_env_def Let_def mc_interface_get_tot_current_def mc_interface_get_sampling_frequency_now_def
      read_drv_def now_def split: option.splits driver.splits)

lemma store_sample_defined:
  assumes "sampling_env env" "fits16 (fl (f_samp / 10))" "samples_len (m_samples s)"
    "0 \<le> m_sample_now s" "m_sample_now s < int ADC_SAMPLE_MAX_LEN"
  shows "\<exists>q. store_sample env f_samp s = Some q \<and> samples_len q"
proof -
  obtain a b c d e where v: "sample_values env s = Some (a, b, c, d, e)"
    using sample_values_defined [OF assms(1), of s] by auto
  obtain x y where xy: "f2i16 (fl (mc_interface_get_tot_current env s * 100)) = Some x" "f2i16 (fl (f_samp / 10)) = Some y"
    using tot_current_fits(1) [OF assms(1), of s] assms(2) by (auto simp: fits16_def)
  have n: "nat (m_sample_now s) < ADC_SAMPLE_MAX_LEN" using assms(4,5) by auto
  show ?thesis
    using assms(3,4) n by (auto simp: store_sample_def Let_def v xy arr_set_def samples_len_def)
qed

text \<open>The part of the interrupt handler before the sampling does not touch the sampling variables.\<close>

definition sv :: "mcif \<Rightarrow> samples \<times> int \<times> int \<times> bool \<times> int \<times> bool \<times> int" where
  "sv s = (m_samples s, m_sample_len s, m_sample_int s, m_sample_ready s, m_sample_now s, m_sample_at_start s, isr_a s)"

lemma sv_frame:
  "sv (call k s) = sv s" "sv (isr_voltage env v s) = sv s" "sv (isr_running env s) = sv s"
  "sv (isr_sums a b s) = sv s" "sv (isr_overcurrent env a s) = sv s" "sv (isr_energy a b c d s) = sv s"
  by (simp_all add: sv_def call_def isr_voltage_def isr_running_def isr_sums_def isr_overcurrent_def isr_energy_def Let_def)

definition isr_prefix :: "env \<Rightarrow> mcif \<Rightarrow> real \<times> mcif" where
  "isr_prefix env s =
     (let s1 = call ledpwm_update_pwm s;
          v_in = input_voltage (now env s1);
          s2 = isr_running env (isr_voltage env v_in s1);
          current = mc_interface_get_tot_current_filtered env s2;
          current_in = mc_interface_get_tot_current_in_filtered env s2;
          s3 = isr_overcurrent env current (isr_sums current current_in s2);
          f_samp = mc_interface_get_sampling_frequency_now env s3 in
      (f_samp, isr_energy current current_in f_samp v_in s3))"

lemma isr_split:
  "mc_interface_mc_timer_isr env s = (let (f_samp, s1) = isr_prefix env s in isr_sample env f_samp (isr_sample_start env s1))"
  by (simp add: mc_interface_mc_timer_isr_def isr_prefix_def Let_def)

lemma isr_prefix_frame:
  assumes "isr_prefix env s = (f_samp, s1)"
  shows "sv s1 = sv s" and "sampling_env env \<Longrightarrow> fits16 (fl (f_samp / 10))"
  using assms tot_current_fits(2) by (auto simp: isr_prefix_def Let_def sv_frame)

lemma isr_sample_ok:
  assumes ok: "sampling_ok s" and q: "store_sample env f_samp (s\<lparr>isr_a := isr_a s + 1\<rparr>) = Some q" "samples_len q"
  shows "\<exists>s'. isr_sample env f_samp s = Some s' \<and> sampling_ok s'"
proof -
  consider "m_sample_ready s" | "\<not> m_sample_ready s" "\<not> m_sample_int s \<le> isr_a s + 1"
    | "\<not> m_sample_ready s" "m_sample_int s \<le> isr_a s + 1" by blast
  then show ?thesis
  proof cases
    case 3
    let ?s2 = "s\<lparr>isr_a := 0, m_samples := q, m_sample_now := m_sample_now s + 1\<rparr>"
    let ?s3 = "if m_sample_now ?s2 = m_sample_len ?s2
               then call sample_signal (?s2\<lparr>m_sample_ready := True, m_sample_now := 0\<rparr>) else ?s2"
    have "isr_sample env f_samp s = Some (?s3\<lparr>m_last_adc_duration_sample := mcpwm_get_last_adc_isr_duration (now env ?s3)\<rparr>)"
      using 3 q(1) by (simp add: isr_sample_def Let_def)
    moreover have "sampling_ok ?s3" using ok q(2) by (simp add: sampling_ok_def call_def)
    ultimately show ?thesis by (simp add: sampling_ok_def)
  qed (use ok in \<open>simp_all add: isr_sample_def sampling_ok_def\<close>)
qed

lemma sample_print_data_ok:
  assumes "sampling_ok s" "0 < len" "at_start \<longrightarrow> m_sample_now s < uint len"
  shows "sampling_ok (mc_interface_sample_print_data env at_start len decimation s)"
proof -
  let ?l = "if unat len > ADC_SAMPLE_MAX_LEN then int ADC_SAMPLE_MAX_LEN else uint len"
  obtain n where n: "unat len = n" "uint len = int n" by (rule that [OF refl uint_nat])
  have pos: "0 < n" using assms(2) by (simp add: word_less_nat_alt n)
  have now: "0 \<le> m_sample_now s" "m_sample_now s < int ADC_SAMPLE_MAX_LEN"
    using assms(1) by (simp_all add: sampling_ok_def)
  have l: "0 < ?l" "?l \<le> int ADC_SAMPLE_MAX_LEN"
    unfolding n using pos by (simp_all add: ADC_SAMPLE_MAX_LEN_def)
  have "at_start \<longrightarrow> m_sample_now s < ?l" using assms(3) now by simp
  then show ?thesis
    using assms(1) l now by (cases at_start) (simp_all only: sampling_ok_def mc_interface_sample_print_data_def Let_def if_True if_False, simp_all)
qed

text \<open>C34: The sampling of the interrupt handler stays inside its buffers: from a state with complete buffers
  and a sample index below a length of at most 2000, the handler is defined and leaves such a state, provided that the drivers report a commutation
  step between 1 and 6 and values that fit the 16 bits of a sample. A request for at least one sample keeps the state too when its sampling starts at
  once or, if it is to wait for the motor to start, when it asks for strictly more samples than the sample index.\<close>

theorem sampling_memory_safe:
  assumes "sampling_ok s" "sampling_env env"
  shows "(\<exists>s'. mc_interface_mc_timer_isr env s = Some s' \<and> sampling_ok s') \<and>
    (0 < len \<and> (at_start \<longrightarrow> m_sample_now s < uint len) \<longrightarrow>
       sampling_ok (mc_interface_sample_print_data env at_start len decimation s))"
proof
  obtain f_samp s1 where p: "isr_prefix env s = (f_samp, s1)" by (cases "isr_prefix env s")
  note pf = isr_prefix_frame [OF p]
  let ?s = "isr_sample_start env s1"
  have ok: "sampling_ok ?s" using assms(1) pf(1) by (auto simp: sampling_ok_def sv_def isr_sample_start_def)
  obtain q where q: "store_sample env f_samp (?s\<lparr>isr_a := isr_a ?s + 1\<rparr>) = Some q" "samples_len q"
    using store_sample_defined [OF assms(2) pf(2) [OF assms(2)], of "?s\<lparr>isr_a := isr_a ?s + 1\<rparr>"] ok
    by (auto simp: sampling_ok_def)
  show "\<exists>s'. mc_interface_mc_timer_isr env s = Some s' \<and> sampling_ok s'"
    using isr_sample_ok [OF ok q] by (simp add: isr_split p)
  show "0 < len \<and> (at_start \<longrightarrow> m_sample_now s < uint len) \<longrightarrow>
       sampling_ok (mc_interface_sample_print_data env at_start len decimation s)"
    using sample_print_data_ok [OF assms(1)] by blast
qed

lemma sampling_start: "sampling_ok mcif_start"
  by (simp add: sampling_ok_def mcif_start_def samples_len_def samples_zero_def Let_def ADC_SAMPLE_MAX_LEN_def)

lemma sampling_rest: "sampling_env rest"
proof -
  have "ftrunc (2000 :: real) = 2000" "ftrunc (1000 :: real) = 1000" by (simp_all add: ftrunc_def)
  then have "fits16 2000" "fits16 1000" by (simp_all add: fits16_def f2i16_def)
  then show ?thesis by (simp add: sampling_env_def rest_def Let_def)
qed

theorem sampling_memory_safe_witness:
  "\<exists>s'. mc_interface_mc_timer_isr rest (mc_interface_sample_print_data rest False 5 1 mcif_start) = Some s' \<and> sampling_ok s'"
proof -
  have "sampling_ok (mc_interface_sample_print_data rest False 5 1 mcif_start)"
    using sampling_memory_safe [OF sampling_start sampling_rest, of 5 False 1] by simp
  from sampling_memory_safe [OF this sampling_rest, of 1 False 1] show ?thesis by blast
qed


text \<open>Repeated interrupts.\<close>

fun isr_times :: "nat \<Rightarrow> env \<Rightarrow> mcif \<Rightarrow> mcif option" where
  "isr_times 0 env s = Some s"
| "isr_times (Suc n) env s = do { s' \<leftarrow> isr_times n env s; mc_interface_mc_timer_isr env s' }"

lemma store_sample_len:
  "store_sample env f s = Some q \<Longrightarrow> samples_len (m_samples s) \<Longrightarrow>
   samples_len q \<and> 0 \<le> m_sample_now s \<and> m_sample_now s < int ADC_SAMPLE_MAX_LEN"
  by (auto simp: store_sample_def Let_def bind_eq_Some_conv arr_set_Some_iff samples_len_def split: if_splits)

text \<open>With length 0 the index never meets the length: it just counts up.\<close>

lemma isr_zero_length:
  assumes "mc_interface_mc_timer_isr env s = Some s'"
    and "sv s = (q, 0, 1, False, n, False, 0)" "samples_len q" "0 \<le> n"
  shows "n < int ADC_SAMPLE_MAX_LEN \<and> (\<exists>q'. sv s' = (q', 0, 1, False, n + 1, False, 0) \<and> samples_len q')"
proof -
  obtain f_samp s1 where p: "isr_prefix env s = (f_samp, s1)" by (cases "isr_prefix env s")
  have s1: "sv s1 = (q, 0, 1, False, n, False, 0)" using isr_prefix_frame(1) [OF p] assms(2) by simp
  then have st: "isr_sample_start env s1 = s1" by (simp add: isr_sample_start_def sv_def)
  have run: "isr_sample env f_samp s1 = Some s'" using assms(1) by (simp add: isr_split p st)
  then obtain q' where q': "store_sample env f_samp (s1\<lparr>isr_a := isr_a s1 + 1\<rparr>) = Some q'"
    using s1 by (auto simp: isr_sample_def sv_def Let_def bind_eq_Some_conv)
  note l = store_sample_len [OF q']
  have "sv s' = (q', 0, 1, False, n + 1, False, 0)"
    using run s1 q' assms(4) by (auto simp: isr_sample_def sv_def Let_def)
  then show ?thesis using l s1 assms(3) by (auto simp: sv_def)
qed

text \<open>A request for 0 samples makes the interrupt handler run past its buffers: after 2000 samples the
  next interrupt writes outside the sample arrays, in every environment.\<close>

theorem sample_zero_overflows:
  assumes "samples_len (m_samples s)" "\<not> m_sample_at_start s" "isr_a s = 0"
  shows "isr_times 2001 env (mc_interface_sample_print_data env' False 0 1 s) = None"
proof -
  let ?s = "mc_interface_sample_print_data env' False 0 1 s"
  have init: "sv ?s = (m_samples s, 0, 1, False, 0, False, 0)"
    using assms(2,3) by (simp add: mc_interface_sample_print_data_def sv_def)
  have inv: "\<exists>q. sv t = (q, 0, 1, False, int n, False, 0) \<and> samples_len q" if "isr_times n env ?s = Some t" for n t
    using that
  proof (induction n arbitrary: t)
    case 0
    then show ?case using init assms(1) by auto
  next
    case (Suc n)
    then obtain u where u: "isr_times n env ?s = Some u" "mc_interface_mc_timer_isr env u = Some t"
      by (auto simp: bind_eq_Some_conv)
    then show ?case using Suc.IH [OF u(1)] isr_zero_length [OF u(2)] by (auto simp: add.commute)
  qed
  show ?thesis
  proof (rule ccontr)
    assume d: "isr_times 2001 env ?s \<noteq> None"
    have "(2001 :: nat) = Suc 2000" by simp
    then have "isr_times 2001 env ?s = do { s' \<leftarrow> isr_times 2000 env ?s; mc_interface_mc_timer_isr env s' }"
      by (simp only: isr_times.simps(2))
    with d obtain u t where u: "isr_times 2000 env ?s = Some u" "mc_interface_mc_timer_isr env u = Some t"
      by (cases "isr_times 2000 env ?s") auto
    show False using inv [OF u(1)] isr_zero_length [OF u(2)] by (auto simp: ADC_SAMPLE_MAX_LEN_def)
  qed
qed


theorem sample_zero_overflows_witness:
  "isr_times 2001 rest (mc_interface_sample_print_data rest False 0 1 mcif_start) = None"
  by (rule sample_zero_overflows) (simp_all add: mcif_start_def samples_len_def samples_zero_def Let_def)

section \<open>Counters and limits\<close>

text \<open>Reading the watt hours with a reset clears the amp hour counter and keeps the watt hour counter,
  unlike the other three counters, which clear what they return.\<close>

theorem watt_hours_reset_wrong_counter:
  "mc_interface_get_watt_hours True s = (fl (m_watt_seconds s / 3600), s\<lparr>m_amp_seconds := 0\<rparr>) \<and>
   m_watt_seconds (snd (mc_interface_get_watt_hours True s)) = m_watt_seconds s \<and>
   m_amp_seconds (snd (mc_interface_get_amp_hours True s)) = 0 \<and>
   m_amp_seconds_charged (snd (mc_interface_get_amp_hours_charged True s)) = 0 \<and>
   m_watt_seconds_charged (snd (mc_interface_get_watt_hours_charged True s)) = 0"
  by (simp add: mc_interface_get_watt_hours_def mc_interface_get_amp_hours_def
      mc_interface_get_amp_hours_charged_def mc_interface_get_watt_hours_charged_def)

text \<open>The limits in force lie within the configured ones.\<close>

definition limits_ok :: "mc_configuration \<Rightarrow> bool" where
  "limits_ok c \<longleftrightarrow> l_current_min c \<le> lo_current_min c \<and> lo_current_max c \<le> l_current_max c"

lemma limit_temperature_ok:
  assumes "limits_ok (m_conf s)" "l_current_min (m_conf s) < 0" "0 \<le> l_current_max (m_conf s)"
  shows "limits_ok (m_conf (limit_temperature env s))"
  using assms by (auto simp: limit_temperature_def limits_ok_def Let_def SIGN_def abs_if split: if_splits)

lemma limit_battery_keeps:
  "limits_ok (m_conf (limit_battery v s)) = limits_ok (m_conf s)"
  "lo_current_min (m_conf (limit_battery v s)) = lo_current_min (m_conf s)"
  "lo_current_max (m_conf (limit_battery v s)) = lo_current_max (m_conf s)"
  "m_fault_now (limit_battery v s) = m_fault_now s"
  "m_ignore_iterations (limit_battery v s) = m_ignore_iterations s"
  by (simp_all add: limit_battery_def Let_def limits_ok_def)

text \<open>\<open>update_override_limits\<close> keeps the limits in force within the configured ones, restores them when
  the transistors are cold, and at over-temperature sets them to zero and raises the fault. But in
  the linear range a limit whose magnitude is below the mapped current is not written: a zero left
  by an over-temperature stays until the transistors are cold.\<close>

theorem override_limits_correct:
  fixes s env
  defines "c \<equiv> m_conf s" and "temp \<equiv> ntc_temp_mos2 (now env s)" and "u \<equiv> update_override_limits env s"
  assumes "limits_ok c" "l_current_min c < 0" "0 \<le> l_current_max c"
  shows "limits_ok (m_conf u) \<and>
    (temp < l_temp_fet_start c \<longrightarrow> lo_current_min (m_conf u) = l_current_min c \<and> lo_current_max (m_conf u) = l_current_max c) \<and>
    (l_temp_fet_start c \<le> temp \<and> l_temp_fet_end c < temp \<longrightarrow>
       lo_current_min (m_conf u) = 0 \<and> lo_current_max (m_conf u) = 0 \<and> m_fault_now u = FAULT_CODE_OVER_TEMP_FET \<and>
       m_ignore_iterations u = sint (m_fault_stop_time_ms c)) \<and>
    (l_temp_fet_start c \<le> temp \<and> temp \<le> l_temp_fet_end c \<and>
     \<bar>l_current_min c\<bar> \<le> utils_map temp (l_temp_fet_start c) (l_temp_fet_end c) (max \<bar>l_current_max c\<bar> \<bar>l_current_min c\<bar>) 0 \<longrightarrow>
       lo_current_min (m_conf u) = lo_current_min c)"
proof -
  have u: "u = limit_battery (input_voltage (now env s)) (limit_temperature env s)"
    by (simp add: u_def update_override_limits_def)
  have m: "max \<bar>l_current_max c\<bar> \<bar>l_current_min c\<bar> =
      (if \<bar>l_current_min c\<bar> > \<bar>l_current_max c\<bar> then \<bar>l_current_min c\<bar> else \<bar>l_current_max c\<bar>)" by (simp add: max_def)
  have "limits_ok (m_conf u)"
    using limit_temperature_ok [of s env] assms(4-6) unfolding u by (simp add: limit_battery_keeps c_def)
  then show ?thesis
    unfolding u m limit_battery_keeps by (simp add: limit_temperature_def Let_def c_def temp_def)
qed

theorem override_limits_correct_witness:
  "lo_current_max (m_conf (update_override_limits rest mcif_start)) = 60"
proof -
  let ?c = "m_conf mcif_start"
  have c: "limits_ok ?c" "l_current_min ?c < 0" "0 \<le> l_current_max ?c" "l_current_max ?c = 60" "l_temp_fet_start ?c = 80"
    by (simp_all add: limits_ok_def mcif_start_def default_conf MCCONF_L_CURRENT_MIN_def MCCONF_L_CURRENT_MAX_def
        MCCONF_L_LIM_TEMP_FET_START_def)
  have "ntc_temp_mos2 (now rest mcif_start) = 25" by (simp add: now_def rest_def)
  then show ?thesis using override_limits_correct [OF c(1-3), of rest] c(4,5) by simp
qed

end
