(* ===== verification/Timeout.thy ===== *)
theory Timeout
  imports McInterface
begin

text \<open>
  The command timeout of \<open>timeout.c\<close>: unless a command resets it, a thread that runs every 10 ms unlocks
  the motor and brakes. Time is the 32-bit tick counter of the kernel (10 kHz), which wraps around.
\<close>

definition CH_CFG_ST_FREQUENCY :: u32 where "CH_CFG_ST_FREQUENCY = 10000"

definition MS2ST :: "u32 \<Rightarrow> u32" where
  "MS2ST msec = (msec * CH_CFG_ST_FREQUENCY + 999) div 1000"

text \<open>\<open>chVTTimeElapsedSinceX\<close> at the system time \<open>t\<close>.\<close>

definition chVTTimeElapsedSinceX :: "u32 \<Rightarrow> u32 \<Rightarrow> u32" where
  "chVTTimeElapsedSinceX t start = t - start"

record timeout_state =
  timeout_msec :: u32
  last_update_time :: u32
  timeout_brake_current :: real
  has_timeout :: bool

definition timeout_init :: timeout_state where
  "timeout_init = \<lparr>timeout_msec = 1000, last_update_time = 0, timeout_brake_current = 0, has_timeout = False\<rparr>"

definition timeout_configure :: "u32 \<Rightarrow> real \<Rightarrow> timeout_state \<Rightarrow> timeout_state" where
  "timeout_configure timeout brake_current s =
     s\<lparr>timeout_msec := timeout, timeout_brake_current := brake_current\<rparr>"

definition timeout_reset :: "u32 \<Rightarrow> timeout_state \<Rightarrow> timeout_state" where
  "timeout_reset t s = s\<lparr>last_update_time := t\<rparr>"

definition timeout_has_timeout :: "timeout_state \<Rightarrow> bool" where
  "timeout_has_timeout s = has_timeout s"

definition timeout_get_timeout_msec :: "timeout_state \<Rightarrow> u32" where
  "timeout_get_timeout_msec s = timeout_msec s"

definition timeout_get_brake_current :: "timeout_state \<Rightarrow> real" where
  "timeout_get_brake_current s = timeout_brake_current s"

text \<open>One round of the thread at system time \<open>t\<close>.\<close>

definition timeout_thread :: "env \<Rightarrow> u32 \<Rightarrow> timeout_state \<Rightarrow> mcif \<Rightarrow> timeout_state \<times> mcif" where
  "timeout_thread env t s m =
     (if timeout_msec s \<noteq> 0 \<and> chVTTimeElapsedSinceX t (last_update_time s) > MS2ST (timeout_msec s)
      then (s\<lparr>has_timeout := True\<rparr>,
            mc_interface_set_brake_current env (timeout_brake_current s) (mc_interface_unlock m))
      else (s\<lparr>has_timeout := False\<rparr>, m))"

lemma MS2ST_exact:
  assumes "unat msec \<le> 429496"
  shows "unat (MS2ST msec) = 10 * unat msec"
proof -
  have le: "unat msec * 10000 + 999 < 2 ^ 32" using assms by simp
  then have m: "unat (msec * 10000) = unat msec * 10000"
    by (subst unat_mult_lem [THEN iffD1]) simp_all
  have "unat (msec * 10000 + 999) = unat msec * 10000 + 999"
    using le m by (subst unat_add_lem [THEN iffD1]) simp_all
  then show ?thesis by (simp add: MS2ST_def CH_CFG_ST_FREQUENCY_def unat_div)
qed



text \<open>The conversion to ticks wraps around: a timeout of 429497 ms, a little over seven minutes, is
  taken as three ticks, so the thread finds a timeout 0.4 ms after a reset.\<close>

theorem timeout_conversion_wraps:
  "MS2ST 429497 = 3 \<and>
   timeout_has_timeout (fst (timeout_thread env (last_update_time s + 4) (timeout_configure 429497 x s) m))"
  by (simp add: MS2ST_def CH_CFG_ST_FREQUENCY_def timeout_thread_def timeout_configure_def
      chVTTimeElapsedSinceX_def timeout_has_timeout_def)

end
