(* ===== verification/FlashHelper.thy ===== *)
theory FlashHelper
  imports Flash McInterface
begin

text \<open>
  The firmware update of \<open>flash_helper.c\<close>: erasing the sectors of the new firmware and programming it
  byte by byte. Both functions release the motor, take the counted system lock and stop the clock
  of the watchdog; they give them back at the end, but not when they return early with an error.
  The jump to the bootloader, which leaves the program, is not modelled.
\<close>

record upd =
  upd_flash :: flash
  upd_sys :: sys
  upd_mc :: mcif

definition NEW_APP_BASE :: nat where "NEW_APP_BASE = 8"
definition NEW_APP_SECTORS :: nat where "NEW_APP_SECTORS = 3"

text \<open>Release the motor and enter the critical section; leave it.\<close>

definition upd_enter :: "env \<Rightarrow> upd \<Rightarrow> upd" where
  "upd_enter env s =
     s\<lparr>upd_mc := mc_interface_release_motor env (mc_interface_unlock (upd_mc s)),
       upd_sys := RCC_WWDG False (utils_sys_lock_cnt (upd_sys s))\<rparr>"

definition upd_leave :: "upd \<Rightarrow> upd" where
  "upd_leave s = s\<lparr>upd_sys := utils_sys_unlock_cnt (RCC_WWDG True (upd_sys s))\<rparr>"

fun erase_loop :: "u32 \<Rightarrow> nat list \<Rightarrow> flash \<Rightarrow> u16 \<times> flash" where
  "erase_loop new_app_size [] f = (status_code FLASH_COMPLETE, f)"
| "erase_loop new_app_size (i # is) f =
     (if unat new_app_size > flash_addr ! (NEW_APP_BASE + i) then
        (let (res, f1) = FLASH_EraseSector (flash_sector ! (NEW_APP_BASE + i)) f in
         if res \<noteq> FLASH_COMPLETE then (status_code res, f1) else erase_loop new_app_size is f1)
      else (status_code FLASH_COMPLETE, f))"

definition flash_helper_erase_new_app :: "env \<Rightarrow> u32 \<Rightarrow> upd \<Rightarrow> u16 \<times> upd" where
  "flash_helper_erase_new_app env new_app_size s =
     (let new_app_size = new_app_size + of_nat (flash_addr ! NEW_APP_BASE);
          s1 = upd_enter env s;
          (res, f) = erase_loop new_app_size [0..<NEW_APP_SECTORS] (upd_flash s1);
          s2 = s1\<lparr>upd_flash := f\<rparr> in
      if res \<noteq> status_code FLASH_COMPLETE then (res, s2) else (status_code FLASH_COMPLETE, upd_leave s2))"

fun program_loop :: "u32 \<Rightarrow> bytes \<Rightarrow> nat list \<Rightarrow> flash \<Rightarrow> (u16 \<times> flash) option" where
  "program_loop offset data [] f = Some (status_code FLASH_COMPLETE, f)"
| "program_loop offset data (i # is) f =
     do { b \<leftarrow> arr_get data i;
          let (res, f1) = FLASH_ProgramByte (unat (of_nat (flash_addr ! NEW_APP_BASE) + offset + of_nat i)) b f in
          if res \<noteq> FLASH_COMPLETE then Some (status_code res, f1) else program_loop offset data is f1 }"

definition flash_helper_write_new_app_data :: "env \<Rightarrow> u32 \<Rightarrow> bytes \<Rightarrow> u32 \<Rightarrow> upd \<Rightarrow> (u16 \<times> upd) option" where
  "flash_helper_write_new_app_data env offset data len s =
     (let s1 = upd_enter env s in
      do { (res, f) \<leftarrow> program_loop offset data [0..<unat len] (upd_flash s1);
           let s2 = s1\<lparr>upd_flash := f\<rparr> in
           if res \<noteq> status_code FLASH_COMPLETE then Some (res, s2)
           else Some (status_code FLASH_COMPLETE, upd_leave s2) })"

section \<open>Properties\<close>

definition new_app :: nat where "new_app = 0x08080000"

lemma new_app_addr: "flash_addr ! NEW_APP_BASE = new_app" "flash_addr ! (NEW_APP_BASE + 1) = new_app + 0x20000"
  "flash_addr ! (NEW_APP_BASE + 2) = new_app + 0x40000"
  by (simp_all add: flash_addr_def NEW_APP_BASE_def new_app_def)

lemma new_app_sectors:
  "flash_helper_get_sector_address (flash_sector ! (NEW_APP_BASE + 0)) = new_app"
  "flash_helper_get_sector_address (flash_sector ! (NEW_APP_BASE + 1)) = new_app + 0x20000"
  "flash_helper_get_sector_address (flash_sector ! (NEW_APP_BASE + 2)) = new_app + 0x40000"
  "sector_end (flash_sector ! (NEW_APP_BASE + 0)) = new_app + 0x20000"
  "sector_end (flash_sector ! (NEW_APP_BASE + 1)) = new_app + 0x40000"
  "sector_end (flash_sector ! (NEW_APP_BASE + 2)) = new_app + 0x60000"
  by (simp_all add: flash_helper_get_sector_address_def sector_end_def flash_sector_def flash_addr_def
      NEW_APP_BASE_def new_app_def upt_rec)

lemma erase_step:
  assumes "replies f = []" "flash_helper_get_sector_address c = lo" "sector_end c = hi"
  shows "\<exists>f'. FLASH_EraseSector c f = (FLASH_COMPLETE, f') \<and> fmem f' = erase_range (fmem f) lo hi \<and> replies f' = []"
  using assms by (simp add: FLASH_EraseSector_def flash_operation_no_fault)

text \<open>Without failures the loop erases the sectors below the end of the new firmware.\<close>

lemma erase_loop_ok:
  assumes "replies f = []" "unat sz = new_app + n" "n \<le> 0x60000"
  shows "\<exists>f'. erase_loop sz [0..<NEW_APP_SECTORS] f = (status_code FLASH_COMPLETE, f') \<and> replies f' = [] \<and>
    (\<forall>a. new_app \<le> a \<and> a < new_app + n \<longrightarrow> fmem f' a = 0xFF) \<and>
    (\<forall>a. a < new_app \<or> new_app + 0x60000 \<le> a \<longrightarrow> fmem f' a = fmem f a)"
proof -
  obtain f1 where f1: "FLASH_EraseSector (flash_sector ! (NEW_APP_BASE + 0)) f = (FLASH_COMPLETE, f1)"
    "fmem f1 = erase_range (fmem f) new_app (new_app + 0x20000)" "replies f1 = []"
    using erase_step [OF assms(1) new_app_sectors(1,4)] by blast
  obtain f2 where f2: "FLASH_EraseSector (flash_sector ! (NEW_APP_BASE + 1)) f1 = (FLASH_COMPLETE, f2)"
    "fmem f2 = erase_range (fmem f1) (new_app + 0x20000) (new_app + 0x40000)" "replies f2 = []"
    using erase_step [OF f1(3) new_app_sectors(2,5)] by blast
  obtain f3 where f3: "FLASH_EraseSector (flash_sector ! (NEW_APP_BASE + 2)) f2 = (FLASH_COMPLETE, f3)"
    "fmem f3 = erase_range (fmem f2) (new_app + 0x40000) (new_app + 0x60000)" "replies f3 = []"
    using erase_step [OF f2(3) new_app_sectors(3,6)] by blast
  have idx: "[0..<NEW_APP_SECTORS] = [0, 1, 2]" by (simp add: NEW_APP_SECTORS_def upt_rec)
  consider "n = 0" | "0 < n" "n \<le> 0x20000" | "0x20000 < n" "n \<le> 0x40000" | "0x40000 < n" by linarith
  then show ?thesis
  proof cases
    case 1
    then show ?thesis using assms new_app_addr by (intro exI [of _ f]) (auto simp: idx)
  next
    case 2
    then show ?thesis using assms new_app_addr f1
      by (intro exI [of _ f1]) (auto simp: idx erase_range_def)
  next
    case 3
    then show ?thesis using assms new_app_addr f1 f2
      by (intro exI [of _ f2]) (auto simp: idx erase_range_def)
  next
    case 4
    then show ?thesis using assms new_app_addr f1 f2 f3
      by (intro exI [of _ f3]) (auto simp: idx erase_range_def)
  qed
qed


lemma program_loop_ok:
  assumes "replies f = []" "unat offset + j + length bs \<le> 0x60000" "drop j data = bs"
    and "\<forall>a. new_app + unat offset + j \<le> a \<and> a < new_app + unat offset + j + length bs \<longrightarrow> fmem f a = 0xFF"
  shows "\<exists>f'. program_loop offset data [j..<j + length bs] f = Some (status_code FLASH_COMPLETE, f') \<and> replies f' = [] \<and>
    (\<forall>a. fmem f' a = (if new_app + unat offset + j \<le> a \<and> a < new_app + unat offset + j + length bs
        then bs ! (a - (new_app + unat offset + j)) else fmem f a))"
  using assms
proof (induction bs arbitrary: f j)
  case Nil
  then show ?case by auto
next
  case (Cons b bs)
  let ?a = "new_app + unat offset + j"
  have j: "j < length data" "data ! j = b" "drop (Suc j) data = bs"
    using Cons.prems(3) by (metis drop_eq_Nil list.discI not_le_imp_less, metis nth_via_drop, metis drop_Suc list.sel(3) tl_drop)
  have adr: "unat (of_nat (flash_addr ! NEW_APP_BASE) + offset + of_nat j :: u32) = ?a"
  proof -
    have eq: "(of_nat (flash_addr ! NEW_APP_BASE) + offset + of_nat j :: u32) = of_nat ?a"
      by (simp add: new_app_addr)
    have "?a < 2 ^ 32" using Cons.prems(2) by (simp add: new_app_def)
    then show ?thesis unfolding eq by (simp only: unat_of_nat) (simp add: take_bit_nat_eq_self)
  qed
  let ?f = "f\<lparr>fmem := prog8 (fmem f) ?a b, snaps := snaps f @ [prog8 (fmem f) ?a b]\<rparr>"
  have st: "FLASH_ProgramByte ?a b f = (FLASH_COMPLETE, ?f)"
    using Cons.prems(1) by (simp add: FLASH_ProgramByte_def flash_operation_no_fault)
  have ff: "fmem f ?a = 0xFF" using Cons.prems(4) by simp
  have m: "(0xFF :: u8) AND b = b"
  proof -
    have "(0xFF :: u8) = - 1" by simp
    then show ?thesis by (simp only: and.left_neutral)
  qed
  obtain f' where f': "program_loop offset data [Suc j..<Suc j + length bs] ?f = Some (status_code FLASH_COMPLETE, f')"
    "replies f' = []" "\<forall>a. fmem f' a = (if new_app + unat offset + Suc j \<le> a \<and> a < new_app + unat offset + Suc j + length bs
        then bs ! (a - (new_app + unat offset + Suc j)) else fmem ?f a)"
    using Cons.IH [of ?f "Suc j"] Cons.prems j(3) by (auto simp: prog8_def)
  have u: "[j..<j + length (b # bs)] = j # [Suc j..<Suc j + length bs]"
    by (simp add: upt_conv_Cons del: upt_Suc)
  have "fmem f' a = (if ?a \<le> a \<and> a < ?a + length (b # bs) then (b # bs) ! (a - ?a) else fmem f a)" for a
  proof (cases "?a < a")
    case True
    then have "a - ?a = Suc (a - (new_app + unat offset + Suc j))" by simp
    then show ?thesis using f'(3) True by (simp add: prog8_def)
  next
    case False
    then show ?thesis using f'(3) ff m by (simp add: prog8_def)
  qed
  moreover have "program_loop offset data [j..<j + length (b # bs)] f = Some (status_code FLASH_COMPLETE, f')"
    unfolding u using f'(1) j st adr by (simp add: arr_get_def)
  ultimately show ?case using f'(2) by blast
qed

text \<open>C33: A firmware update without flash failures: after erasing for a firmware of \<open>n\<close> bytes (at most three
  sectors), programming a chunk inside it puts exactly the chunk into the flash, the flash outside
  the three sectors is untouched, and the system lock and the watchdog clock are as before.\<close>

theorem firmware_update_correct:
  assumes "replies (upd_flash s) = []" "sys_ok (upd_sys s)" "wwdg_clock (upd_sys s)"
    and "unat n \<le> 0x60000" "unat offset + length data \<le> unat n"
  shows "\<exists>s1 s2. flash_helper_erase_new_app env n s = (status_code FLASH_COMPLETE, s1) \<and>
    flash_helper_write_new_app_data env' offset data (of_nat (length data)) s1 = Some (status_code FLASH_COMPLETE, s2) \<and>
    (\<forall>i<length data. fmem (upd_flash s2) (new_app + unat offset + i) = data ! i) \<and>
    (\<forall>a. a < new_app \<or> new_app + 0x60000 \<le> a \<longrightarrow> fmem (upd_flash s2) a = fmem (upd_flash s) a) \<and>
    upd_sys s2 = upd_sys s"
proof -
  have sz: "unat (n + of_nat (flash_addr ! NEW_APP_BASE)) = new_app + unat n"
    using assms(4) by (subst unat_add_lem [THEN iffD1]) (simp_all add: new_app_addr new_app_def)
  obtain f1 where f1: "erase_loop (n + of_nat (flash_addr ! NEW_APP_BASE)) [0..<NEW_APP_SECTORS] (upd_flash s) = (status_code FLASH_COMPLETE, f1)"
    "replies f1 = []" "\<forall>a. new_app \<le> a \<and> a < new_app + unat n \<longrightarrow> fmem f1 a = 0xFF"
    "\<forall>a. a < new_app \<or> new_app + 0x60000 \<le> a \<longrightarrow> fmem f1 a = fmem (upd_flash s) a"
    using erase_loop_ok [OF assms(1) sz assms(4)] by blast
  define s1 where "s1 = snd (flash_helper_erase_new_app env n s)"
  have e: "flash_helper_erase_new_app env n s = (status_code FLASH_COMPLETE, s1)" "upd_flash s1 = f1" "upd_sys s1 = upd_sys s"
    using f1(1) leave_enter [OF assms(2,3)]
    by (simp_all add: s1_def flash_helper_erase_new_app_def upd_enter_def upd_leave_def)
  obtain f2 where f2: "program_loop offset data [0..<0 + length data] f1 = Some (status_code FLASH_COMPLETE, f2)"
    "\<forall>a. fmem f2 a = (if new_app + unat offset + 0 \<le> a \<and> a < new_app + unat offset + 0 + length data
        then data ! (a - (new_app + unat offset + 0)) else fmem f1 a)"
    using program_loop_ok [OF f1(2), of offset 0 data data] assms(4,5) f1(3) by auto
  have len: "unat (of_nat (length data) :: u32) = length data" using assms(4,5) by (simp add: unat_of_nat)
  define s2 where "s2 = upd_leave (upd_enter env' s1\<lparr>upd_flash := f2\<rparr>)"
  have "flash_helper_write_new_app_data env' offset data (of_nat (length data)) s1 = Some (status_code FLASH_COMPLETE, s2)"
    using f2(1) e(2) by (simp add: flash_helper_write_new_app_data_def len s2_def) (simp add: upd_enter_def)
  moreover have "upd_flash s2 = f2" "upd_sys s2 = upd_sys s"
    using leave_enter [OF assms(2,3)] e(3) by (simp_all add: s2_def upd_leave_def upd_enter_def)
  moreover have "\<forall>i<length data. fmem f2 (new_app + unat offset + i) = data ! i"
    "\<forall>a. a < new_app \<or> new_app + 0x60000 \<le> a \<longrightarrow> fmem f2 a = fmem (upd_flash s) a"
    using f2(2) f1(4) assms(4,5) by auto
  ultimately show ?thesis using e(1) by auto
qed

text \<open>When erasing a sector fails, \<open>flash_helper_erase_new_app\<close> returns the error with the system still
  locked and the watchdog clock stopped.\<close>

theorem firmware_erase_failure_leaves_locked:
  assumes "replies (upd_flash s) = [(r, b)]" "r \<noteq> FLASH_COMPLETE" "0 < unat n" "unat n \<le> 0x60000"
  shows "\<exists>s1. flash_helper_erase_new_app env n s = (status_code r, s1) \<and>
    sys_lock_cnt (upd_sys s1) = sys_lock_cnt (upd_sys s) + 1 \<and> \<not> wwdg_clock (upd_sys s1)"
proof -
  have sz: "unat (n + of_nat (flash_addr ! NEW_APP_BASE)) = new_app + unat n"
    using assms(4) by (subst unat_add_lem [THEN iffD1]) (simp_all add: new_app_addr new_app_def)
  have idx: "[0..<NEW_APP_SECTORS] = [0, 1, 2]" by (simp add: NEW_APP_SECTORS_def upt_rec)
  have "FLASH_EraseSector c (upd_flash s) = (r, (upd_flash s)\<lparr>replies := []\<rparr>)" for c
    using assms(1,2) by (simp add: FLASH_EraseSector_def flash_operation_def FLASH_WaitForLastOperation_def)
  then have "erase_loop (n + of_nat (flash_addr ! NEW_APP_BASE)) [0..<NEW_APP_SECTORS] (upd_flash s) =
      (status_code r, (upd_flash s)\<lparr>replies := []\<rparr>)"
    using assms(2,3) sz by (simp add: idx new_app_addr)
  then show ?thesis
    using assms(2) by (simp add: flash_helper_erase_new_app_def upd_enter_def RCC_WWDG_def utils_sys_lock_cnt_def Let_def)
qed

definition upd_start :: "(FLASH_Status \<times> bool) list \<Rightarrow> upd" where
  "upd_start rs = \<lparr>upd_flash = \<lparr>fmem = \<lambda>_. 0, replies = rs, snaps = []\<rparr>,
     upd_sys = \<lparr>sys_lock_cnt = 0, kernel_locked = False, wwdg_clock = True\<rparr>, upd_mc = mcif_start\<rparr>"

theorem firmware_update_correct_witness:
  "\<exists>s1 s2. flash_helper_erase_new_app rest 300000 (upd_start []) = (status_code FLASH_COMPLETE, s1) \<and>
    flash_helper_write_new_app_data rest 1000 [1, 2, 3] (of_nat (length [1 :: u8, 2, 3])) s1 = Some (status_code FLASH_COMPLETE, s2) \<and>
    fmem (upd_flash s2) 0x080803E9 = 2"
  using firmware_update_correct [of "upd_start []" 300000 1000 "[1, 2, 3]" rest rest]
  by (fastforce simp: upd_start_def sys_ok_def new_app_def)

theorem firmware_erase_failure_leaves_locked_witness:
  "\<exists>s1. flash_helper_erase_new_app rest 1000 (upd_start [(FLASH_ERROR_WRP, False)]) = (6, s1) \<and>
    sys_lock_cnt (upd_sys s1) = 1 \<and> \<not> wwdg_clock (upd_sys s1)"
  using firmware_erase_failure_leaves_locked [of "upd_start [(FLASH_ERROR_WRP, False)]" FLASH_ERROR_WRP False 1000 rest]
  by (simp add: upd_start_def)

end
