(* ===== verification/ConfGeneral.thy ===== *)
theory ConfGeneral
  imports Eeprom McInterface Timeout
begin

text \<open>
  The configuration storage of \<open>conf_general.c\<close>: the table of EEPROM variables, and writing and reading
  a configuration structure as 16-bit variables. A structure is here its object representation, a
  list of bytes, with the size the C layout rules give it; the default configurations are those of
  theory ConfDefault. The two motor measurements follow at the end.

  The sizes use the layout of the ARM EABI with short enumerations (one byte).
\<close>

section \<open>Object sizes\<close>

text \<open>A member is a size and an alignment.\<close>

fun layout_end :: "nat \<Rightarrow> (nat \<times> nat) list \<Rightarrow> nat" where
  "layout_end off [] = off"
| "layout_end off ((sz, al) # ms) = layout_end ((off + al - 1) div al * al + sz) ms"

definition struct_member :: "(nat \<times> nat) list \<Rightarrow> nat \<times> nat" where
  "struct_member ms = (let al = foldr (\<lambda>m a. max (snd m) a) ms 1 in ((layout_end 0 ms + al - 1) div al * al, al))"

definition w1 :: "nat \<times> nat" where "w1 = (1, 1)"
definition w4 :: "nat \<times> nat" where "w4 = (4, 4)"
definition en :: "nat \<times> nat" where "en = (1, 1)"

definition ppm_members :: "(nat \<times> nat) list" where
  "ppm_members = [en, w4, w4, w4, w4, w1, w1, w4, w4, w1, w1, w4]"

definition adc_members :: "(nat \<times> nat) list" where
  "adc_members = [en, w4, w4, w4, w1, w1, w1, w1, w1, w4, w4, w1, w1, w4, w4]"

definition chuk_members :: "(nat \<times> nat) list" where
  "chuk_members = [en, w4, w4, w4, w4, w4, w4, w1, w1, w4]"

definition nrf_members :: "(nat \<times> nat) list" where
  "nrf_members = [en, en, en, en, w1, w1, (3, 1), w1]"

definition app_members :: "(nat \<times> nat) list" where
  "app_members = [w1, w4, w4, w1, w4, en, struct_member ppm_members, struct_member adc_members, w4,
     struct_member chuk_members, struct_member nrf_members]"

definition mc_members :: "(nat \<times> nat) list" where
  "mc_members = [
     en, en, en, en, w4, w4, w4, w4, w4, w4, w4, w4, w4, w4, w4, w4, w4, w1, w1, w4, w4, w4, w4, w4,
     w4, w4, w4, w4, w4, w4, w4, w4, w4, w4, w4, w4, (8, 1), w4, w4, w4, w4, w4, w4, w1, w4, w4, w4,
     w4, w4, w4, w4, w4, w4, w4, w4, w4, w4, w4, en, (8, 1), w4, w4, w4, w4, w4, w4, w4, w4, w4, w4,
     w4, w4, w4, w4, w4, w4, w4, w4, en]"

definition sizeof_app :: nat where "sizeof_app = fst (struct_member app_members)"
definition sizeof_mc :: nat where "sizeof_mc = fst (struct_member mc_members)"

lemmas layout_defs = struct_member_def w1_def w4_def en_def

lemma sizeof_app [simp]: "sizeof_app = 160"
  by (simp add: sizeof_app_def app_members_def ppm_members_def adc_members_def chuk_members_def nrf_members_def layout_defs)

lemma sizeof_mc [simp]: "sizeof_mc = 308"
  by (simp add: sizeof_mc_def mc_members_def layout_defs)


section \<open>Operations\<close>

definition EEPROM_BASE_MCCONF :: u16 where "EEPROM_BASE_MCCONF = 1000"
definition EEPROM_BASE_APPCONF :: u16 where "EEPROM_BASE_APPCONF = 2000"

definition conf_vars :: "u16 \<Rightarrow> nat \<Rightarrow> u16 list" where
  "conf_vars ba n = map (\<lambda>i. ba + of_nat i) [0..<n]"

text \<open>\<open>conf_general_init\<close>: both loops over the table run to the size of the application configuration.\<close>

definition conf_general_init :: "ee \<Rightarrow> ee option" where
  "conf_general_init e =
     do { (tab1, ind) \<leftarrow> arr_put (replicate NB_OF_VAR 0) 0 (conf_vars EEPROM_BASE_MCCONF (sizeof_app div 2));
          (tab2, ind) \<leftarrow> arr_put tab1 ind (conf_vars EEPROM_BASE_APPCONF (sizeof_app div 2));
          Some (snd (EE_Init (e\<lparr>VirtAddVarTab := tab2\<rparr>))) }"

record cg =
  cg_ee :: ee
  cg_sys :: sys
  cg_mc :: mcif

definition conf_var :: "bytes \<Rightarrow> nat \<Rightarrow> u16" where
  "conf_var conf i = (push_bit 8 (ucast (conf ! (2 * i))) AND 0xFF00) OR (ucast (conf ! (2 * i + 1)) AND 0xFF)"

fun store_loop :: "u16 \<Rightarrow> bytes \<Rightarrow> nat list \<Rightarrow> ee \<Rightarrow> bool \<times> ee" where
  "store_loop ba conf [] e = (True, e)"
| "store_loop ba conf (i # is) e =
     (let (st, e1) = EE_WriteVariable (ba + of_nat i) (conf_var conf i) e in
      if st \<noteq> ee_complete then (False, e1) else store_loop ba conf is e1)"

text \<open>The two store functions differ in the structure and the base address. The motor is released, the
  loop runs in the critical section with the watchdog clock stopped.\<close>

definition store_configuration :: "u16 \<Rightarrow> nat \<Rightarrow> env \<Rightarrow> bytes \<Rightarrow> cg \<Rightarrow> bool \<times> cg" where
  "store_configuration ba n env conf s =
     (let s1 = s\<lparr>cg_mc := mc_interface_release_motor env (mc_interface_unlock (cg_mc s)),
                 cg_sys := RCC_WWDG False (utils_sys_lock_cnt (cg_sys s))\<rparr>;
          (is_ok, e) = store_loop ba conf [0..<n div 2] (cg_ee s1) in
      (is_ok, s1\<lparr>cg_ee := e, cg_sys := utils_sys_unlock_cnt (RCC_WWDG True (cg_sys s1))\<rparr>))"

definition conf_general_store_app_configuration :: "env \<Rightarrow> bytes \<Rightarrow> cg \<Rightarrow> bool \<times> cg" where
  "conf_general_store_app_configuration = store_configuration EEPROM_BASE_APPCONF sizeof_app"

definition conf_general_store_mc_configuration :: "env \<Rightarrow> bytes \<Rightarrow> cg \<Rightarrow> bool \<times> cg" where
  "conf_general_store_mc_configuration = store_configuration EEPROM_BASE_MCCONF sizeof_mc"

fun read_loop :: "u16 \<Rightarrow> nat list \<Rightarrow> mem \<Rightarrow> bytes \<Rightarrow> bytes option" where
  "read_loop ba [] m conf = Some conf"
| "read_loop ba (i # is) m conf =
     (let (st, var) = EE_ReadVariable (ba + of_nat i) 0 m in
      if st = 0 then read_loop ba is m
        (conf[2 * i := ucast (drop_bit 8 var AND 0xFF), 2 * i + 1 := ucast (var AND 0xFF)])
      else None)"

text \<open>The read functions fill \<open>conf\<close>, or assign the default configuration, whose object representation
  is \<open>dflt\<close>.\<close>

definition conf_general_read_app_configuration :: "bytes \<Rightarrow> mem \<Rightarrow> bytes \<Rightarrow> bytes" where
  "conf_general_read_app_configuration dflt m conf =
     (case read_loop EEPROM_BASE_APPCONF [0..<sizeof_app div 2] m conf of Some c \<Rightarrow> c | None \<Rightarrow> dflt)"

definition conf_general_read_mc_configuration :: "bytes \<Rightarrow> mem \<Rightarrow> bytes \<Rightarrow> bytes" where
  "conf_general_read_mc_configuration dflt m conf =
     (case read_loop EEPROM_BASE_MCCONF [0..<sizeof_mc div 2] m conf of Some c \<Rightarrow> c | None \<Rightarrow> dflt)"

section \<open>The variable table\<close>

definition conf_tab :: "u16 list" where
  "conf_tab = conf_vars 1000 80 @ conf_vars 2000 80"

lemma conf_vars_length [simp]: "length (conf_vars b n) = n"
  by (simp add: conf_vars_def)

lemma conf_tab_length: "length conf_tab = NB_OF_VAR"
  by (simp add: conf_tab_def NB_OF_VAR_def)

lemma conf_vars_unat:
  "unat b + n < 2 ^ 16 \<Longrightarrow> v \<in> set (conf_vars b n) \<longleftrightarrow> unat b \<le> unat v \<and> unat v < unat b + n"
proof -
  assume b: "unat b + n < 2 ^ 16"
  have u: "unat (b + of_nat i) = unat b + i" if "i < n" for i
  proof -
    have "b + of_nat i = of_nat (unat b + i)" by simp
    moreover have "unat b + i < 2 ^ 16" using b that by simp
    ultimately show ?thesis by (simp only: unat_of_nat) (simp add: take_bit_nat_eq_self)
  qed
  show ?thesis
  proof
    assume "v \<in> set (conf_vars b n)"
    then show "unat b \<le> unat v \<and> unat v < unat b + n" using u by (auto simp: conf_vars_def)
  next
    assume v: "unat b \<le> unat v \<and> unat v < unat b + n"
    then have "v = b + of_nat (unat v - unat b)" by (simp add: of_nat_diff)
    moreover have "unat v - unat b \<in> set [0..<n]" using v by auto
    ultimately show "v \<in> set (conf_vars b n)" unfolding conf_vars_def list.set_map by (rule image_eqI)
  qed
qed

lemma conf_general_init_table:
  "conf_general_init e = Some (snd (EE_Init (e\<lparr>VirtAddVarTab := conf_tab\<rparr>)))"
  by (simp add: conf_general_init_def sizeof_app NB_OF_VAR_def arr_put_fits conf_tab_def
      EEPROM_BASE_MCCONF_def EEPROM_BASE_APPCONF_def)


lemma conf_tab_set: "v \<in> set conf_tab \<longleftrightarrow> 1000 \<le> unat v \<and> unat v < 1080 \<or> 2000 \<le> unat v \<and> unat v < 2080"
  by (simp add: conf_tab_def conf_vars_unat)

lemma conf_tab_ok [simp]: "length conf_tab = NB_OF_VAR" "0xFFFF \<notin> set conf_tab"
  by (simp_all add: conf_tab_length conf_tab_set)

lemma conf_key_unat:
  assumes "unat b + i < 2 ^ 16"
  shows "unat (b + of_nat i :: u16) = unat b + i"
proof -
  have "b + of_nat i = of_nat (unat b + i)" by simp
  then show ?thesis using assms by (simp only: unat_of_nat) (simp add: take_bit_nat_eq_self)
qed

section \<open>Storing is a sequence of puts\<close>

abbreviation conf_entries :: "u16 \<Rightarrow> bytes \<Rightarrow> nat list \<Rightarrow> (u16 \<times> u16) list" where
  "conf_entries b conf is \<equiv> map (\<lambda>i. (b + of_nat i, conf_var conf i)) is"

lemma store_loop_put:
  "store_loop b conf is e = nv_store.put_list EE_WriteVariable (conf_entries b conf is) e"
  by (induction "is" arbitrary: e) (simp_all add: ee_store.put_list.simps split: prod.split)

lemma conf_entries_keys:
  assumes "unat b + n < 2 ^ 16"
  shows "fst ` set (conf_entries b conf [0..<n]) = set (conf_vars b n)"
    and "distinct (map fst (conf_entries b conf [0..<n]))"
proof -
  have "inj_on (\<lambda>i. b + of_nat i) (set [0..<n])"
  proof (rule inj_onI)
    fix x y assume xy: "x \<in> set [0..<n]" "y \<in> set [0..<n]" "b + of_nat x = b + of_nat y"
    have "unat b + x < 2 ^ 16" "unat b + y < 2 ^ 16" using xy(1,2) assms by auto
    note u = conf_key_unat [OF this(1)] conf_key_unat [OF this(2)]
    show "x = y" using arg_cong [OF xy(3), of unat] unfolding u by simp
  qed
  then show "distinct (map fst (conf_entries b conf [0..<n]))" by (simp add: distinct_map inj_on_def)
qed (simp add: conf_vars_def image_image)

lemma conf_var_bytes:
  "ucast (drop_bit 8 (conf_var conf i) AND 0xFF) = conf ! (2 * i)"
  "ucast (conf_var conf i AND 0xFF) = conf ! (2 * i + 1)"
proof -
  have m: "(0xFF00 :: u16) = push_bit 8 (mask 8)" "(0xFF :: u16) = mask 8"
    by (simp_all add: mask_eq_exp_minus_1 push_bit_eq_mult)
  have "conf_var conf i = push_bit 8 (ucast (conf ! (2 * i))) OR ucast (conf ! (2 * i + 1))"
    unfolding conf_var_def m by (rule bit_word_eqI) (auto simp: bit_simps dest: bit_imp_le_length)
  then show "ucast (drop_bit 8 (conf_var conf i) AND 0xFF) = conf ! (2 * i)"
    "ucast (conf_var conf i AND 0xFF) = conf ! (2 * i + 1)"
    by (simp_all only: ucast_low_mask split16)
qed

text \<open>Reading from index \<open>k\<close> on, with the bytes before \<open>2 * k\<close> in place.\<close>

lemma read_loop_ok:
  assumes "\<forall>i\<in>{k..<n}. ee_val m (b + of_nat i) = Some (conf_var conf i)" "k \<le> n" "length conf = 2 * n" "length buf = 2 * n"
    "take (2 * k) buf = take (2 * k) conf"
  shows "read_loop b [k..<n] m buf = Some conf"
  using assms(2,1,4,5)
proof (induction k arbitrary: buf rule: inc_induct)
  case base
  then show ?case using assms(3) by simp
next
  case (step k)
  let ?buf = "buf[2 * k := conf ! (2 * k), 2 * k + 1 := conf ! (2 * k + 1)]"
  have "EE_ReadVariable (b + of_nat k) 0 m = (0, conf_var conf k)"
    using bspec [OF step.prems(1), of k] step.hyps
    by (cases "EE_ReadVariable (b + of_nat k) 0 m") (auto simp: ee_val_def split: if_splits)
  moreover have "take (2 * Suc k) ?buf = take (2 * Suc k) conf"
    using step.prems(2,3) step.hyps assms(3)
    by (simp add: take_Suc_conv_app_nth take_update_swap list_update_append)
  then have "read_loop b [Suc k..<n] m ?buf = Some conf"
    using step.prems(1,2) by (intro step.IH) auto
  ultimately show ?case
    using step.hyps by (simp add: upt_conv_Cons conf_var_bytes)
qed

lemma read_loop_None:
  "ee_val m (b + of_nat i) = None \<Longrightarrow> i \<in> set is \<Longrightarrow> read_loop b is m buf = None"
  by (induction "is" arbitrary: buf) (auto simp: ee_val_def split: prod.splits if_splits)


section \<open>Properties\<close>

text \<open>Storing variables of the table: all of them read back, and the rest of the table is untouched.\<close>

lemma store_loop_tracked:
  assumes ok: "ee_store_ok conf_tab e" and n: "unat b + n < 2 ^ 16" and sub: "set (conf_vars b n) \<subseteq> set conf_tab"
    and len: "length conf = 2 * n"
  shows "\<exists>e'. store_loop b conf [0..<n] e = (True, e') \<and> ee_store_ok conf_tab e' \<and>
    (\<forall>buf. length buf = 2 * n \<longrightarrow> read_loop b [0..<n] (ee_mem e') buf = Some conf) \<and>
    (\<forall>v\<in>set conf_tab. v \<notin> set (conf_vars b n) \<longrightarrow> ee_val (ee_mem e') v = ee_val (ee_mem e) v)"
proof -
  let ?kvs = "conf_entries b conf [0..<n]"
  note keys = conf_entries_keys [OF n, of conf]
  have "0xFFFF \<notin> fst ` set ?kvs" unfolding keys(1) using sub conf_tab_ok(2) by blast
  from ee_store.put_list_law [OF ok this keys(2), unfolded keys(1)]
  obtain e' where E: "nv_store.put_list EE_WriteVariable ?kvs e = (True, e')" "ee_store_ok conf_tab e'"
    "set (conf_vars b n) \<subseteq> set conf_tab \<longrightarrow> (\<forall>(k, d)\<in>set ?kvs. ee_val (ee_mem e') k = Some d)"
    "\<forall>v\<in>set conf_tab. v \<notin> set (conf_vars b n) \<longrightarrow> ee_val (ee_mem e') v = ee_val (ee_mem e) v"
    by (elim exE conjE)
  note e' = E(1,2) mp [OF E(3) sub] E(4)
  have "read_loop b [0..<n] (ee_mem e') buf = Some conf" if "length buf = 2 * n" for buf
    using e'(3) len that by (intro read_loop_ok) auto
  then show ?thesis using e' by (auto simp: store_loop_put)
qed

lemma init_ok:
  assumes "ee_ok (ee_mem e)" "replies (ee_flash e) = []"
  shows "\<exists>e'. conf_general_init e = Some e' \<and> ee_store_ok conf_tab e' \<and> ee_mem e' = ee_mem e"
proof -
  obtain p es where rep: "ee_rep (ee_mem e) p (VALID_PAGE, es) (ERASED, [])" using assms(1) unfolding ee_ok_def by blast
  then have "EE_Init (e\<lparr>VirtAddVarTab := conf_tab\<rparr>) = (ee_complete, e\<lparr>VirtAddVarTab := conf_tab\<rparr>)"
    by (intro init_settled) simp
  then show ?thesis using assms by (simp add: conf_general_init_table ee_store_ok_def)
qed

lemma store_app_ok:
  assumes ok: "ee_store_ok conf_tab (cg_ee s)" and len: "length conf = sizeof_app"
  shows "\<exists>s'. conf_general_store_app_configuration env conf s = (True, s') \<and> ee_store_ok conf_tab (cg_ee s') \<and>
    (\<forall>buf dflt. length buf = sizeof_app \<longrightarrow> conf_general_read_app_configuration dflt (ee_mem (cg_ee s')) buf = conf) \<and>
    (\<forall>v\<in>set conf_tab. v \<notin> set (conf_vars 2000 80) \<longrightarrow> ee_val (ee_mem (cg_ee s')) v = ee_val (ee_mem (cg_ee s)) v) \<and>
    cg_sys s' = utils_sys_unlock_cnt (RCC_WWDG True (RCC_WWDG False (utils_sys_lock_cnt (cg_sys s))))"
proof -
  have sub: "set (conf_vars 2000 80) \<subseteq> set conf_tab" by (simp add: conf_tab_def)
  obtain e' where e': "store_loop 2000 conf [0..<80] (cg_ee s) = (True, e')" "ee_store_ok conf_tab e'"
    "\<forall>buf. length buf = 160 \<longrightarrow> read_loop 2000 [0..<80] (ee_mem e') buf = Some conf"
    "\<forall>v\<in>set conf_tab. v \<notin> set (conf_vars 2000 80) \<longrightarrow> ee_val (ee_mem e') v = ee_val (ee_mem (cg_ee s)) v"
    using store_loop_tracked [OF ok _ sub, of conf] len by auto
  then show ?thesis
    by (auto simp: conf_general_store_app_configuration_def store_configuration_def EEPROM_BASE_APPCONF_def
        conf_general_read_app_configuration_def simp del: upt_rec_numeral)
qed

text \<open>C31: The application configuration survives, on a flash without failures: after \<open>conf_general_init\<close> has found an intact store, storing
  a configuration succeeds and reading it returns the same bytes, with or without page transfers on the
  way; the variables of the motor configuration in the table keep their values, and the lock and the
  watchdog clock are as before.\<close>

theorem app_configuration_roundtrip:
  assumes "ee_ok (ee_mem e)" "replies (ee_flash e) = []" "conf_general_init e = Some (cg_ee s)"
    and "sys_ok (cg_sys s)" "wwdg_clock (cg_sys s)" "length conf = sizeof_app" "length buf = sizeof_app"
  shows "\<exists>s'. conf_general_store_app_configuration env conf s = (True, s') \<and>
    conf_general_read_app_configuration dflt (ee_mem (cg_ee s')) buf = conf \<and>
    (\<forall>v\<in>set (conf_vars EEPROM_BASE_MCCONF 80). ee_val (ee_mem (cg_ee s')) v = ee_val (ee_mem e) v) \<and>
    cg_sys s' = cg_sys s \<and> ee_ok (ee_mem (cg_ee s'))"
proof -
  have ok: "ee_store_ok conf_tab (cg_ee s)" "ee_mem (cg_ee s) = ee_mem e" using init_ok [OF assms(1,2)] assms(3) by auto
  obtain s' where s': "conf_general_store_app_configuration env conf s = (True, s')" "ee_store_ok conf_tab (cg_ee s')"
    "\<forall>buf dflt. length buf = sizeof_app \<longrightarrow> conf_general_read_app_configuration dflt (ee_mem (cg_ee s')) buf = conf"
    "\<forall>v\<in>set conf_tab. v \<notin> set (conf_vars 2000 80) \<longrightarrow> ee_val (ee_mem (cg_ee s')) v = ee_val (ee_mem (cg_ee s)) v"
    "cg_sys s' = cg_sys s"
    using store_app_ok [OF ok(1) assms(6), of env] leave_enter [OF assms(4,5)] by metis
  have "ee_val (ee_mem (cg_ee s')) v = ee_val (ee_mem e) v" if "v \<in> set (conf_vars 1000 80)" for v
    using s'(4) ok(2) that by (auto simp: conf_tab_set conf_vars_unat)
  then show ?thesis using s' assms(7) by (auto simp: EEPROM_BASE_MCCONF_def ee_store_ok_def)
qed


text \<open>The motor configuration is longer than its part of the table. While its variables fit into the page they are
  appended to the log.\<close>

definition conf_ready :: "ee \<Rightarrow> (u16 \<times> u16) list \<Rightarrow> bool" where
  "conf_ready e es \<longleftrightarrow> (\<exists>p. ee_rep (ee_mem e) p (VALID_PAGE, es) (ERASED, [])) \<and> replies (ee_flash e) = [] \<and>
     VirtAddVarTab e = conf_tab"

lemma write_ready:
  assumes "conf_ready e es" "va \<noteq> 0xFFFF"
  shows "\<exists>e' es'. EE_WriteVariable va d e = (ee_complete, e') \<and> conf_ready e' es' \<and>
    (if length es < 4095 then es' = es @ [(va, d)] else \<forall>f\<in>set es'. fst f \<in> insert 0xFFFF (insert va (set conf_tab)))"
proof -
  obtain p where rep: "ee_rep (ee_mem e) p (VALID_PAGE, es) (ERASED, [])" and r: "replies (ee_flash e) = []" "VirtAddVarTab e = conf_tab"
    using assms(1) unfolding conf_ready_def by blast
  show ?thesis using write_variable_log [OF rep r(1) _ _ assms(2), of d] r(2) conf_tab_ok unfolding conf_ready_def by metis
qed

lemma store_loop_fits:
  assumes "conf_ready e es" "length es + length is \<le> 4095" "\<forall>i\<in>set is. b + of_nat i \<noteq> 0xFFFF"
  shows "\<exists>e'. store_loop b conf is e = (True, e') \<and> conf_ready e' (es @ conf_entries b conf is)"
  using assms
proof (induction "is" arbitrary: e es)
  case (Cons i "is")
  obtain e1 where e1: "EE_WriteVariable (b + of_nat i) (conf_var conf i) e = (ee_complete, e1)"
    "conf_ready e1 (es @ [(b + of_nat i, conf_var conf i)])"
    using write_ready [OF Cons.prems(1), of "b + of_nat i" "conf_var conf i"] Cons.prems(2,3) by auto
  then show ?case using Cons.IH [OF e1(2)] Cons.prems(2,3) by auto
qed simp

lemma store_loop_absent:
  assumes "conf_ready e es" "v \<notin> fst ` set es" "v \<notin> set conf_tab" "v \<noteq> 0xFFFF"
    "\<forall>i\<in>set is. b + of_nat i \<noteq> 0xFFFF \<and> b + of_nat i \<noteq> v"
  shows "\<exists>e' es'. store_loop b conf is e = (True, e') \<and> conf_ready e' es' \<and> v \<notin> fst ` set es'"
  using assms
proof (induction "is" arbitrary: e es)
  case (Cons i "is")
  obtain e1 es1 where e1: "EE_WriteVariable (b + of_nat i) (conf_var conf i) e = (ee_complete, e1)" "conf_ready e1 es1"
    "if length es < 4095 then es1 = es @ [(b + of_nat i, conf_var conf i)]
     else \<forall>f\<in>set es1. fst f \<in> insert 0xFFFF (insert (b + of_nat i) (set conf_tab))"
    using write_ready [OF Cons.prems(1), of "b + of_nat i" "conf_var conf i"] Cons.prems(5) by auto
  have "v \<notin> fst ` set es1"
    using e1(3) Cons.prems(2-5) by (auto split: if_splits)
  then show ?case using Cons.IH [OF e1(2)] e1(1) Cons.prems(3-5) by auto
qed auto

lemma store_loop_append:
  "store_loop b conf (is @ js) e = (let (ok, e') = store_loop b conf is e in if ok then store_loop b conf js e' else (False, e'))"
  by (induction "is" arbitrary: e) (auto simp: Let_def split: prod.splits)

lemma ready_val: "conf_ready e es \<Longrightarrow> v \<noteq> 0xFFFF \<Longrightarrow> ee_val (ee_mem e) v = log_get es v"
  unfolding conf_ready_def using ee_val_log by blast


lemma mc_key:
  assumes "i < 154"
  shows "(1000 + of_nat i :: u16) \<noteq> 0xFFFF" "(1000 + of_nat i :: u16) = 1080 \<longleftrightarrow> i = 80"
proof -
  have u: "unat (1000 + of_nat i :: u16) = 1000 + i" using conf_key_unat [of 1000 i] assms by simp
  then have "unat (1000 + of_nat i :: u16) \<noteq> unat (0xFFFF :: u16)" using assms by simp
  then show "(1000 + of_nat i :: u16) \<noteq> 0xFFFF" by metis
  have "(1000 + of_nat i :: u16) = 1080 \<longleftrightarrow> unat (1000 + of_nat i :: u16) = unat (1080 :: u16)" by (simp only: word_unat_eq_iff)
  then show "(1000 + of_nat i :: u16) = 1080 \<longleftrightarrow> i = 80" unfolding u by simp
qed

text \<open>Everything fits: the last entry of each key is the stored one.\<close>

lemma log_get_entries:
  assumes "unat b + n < 2 ^ 16" "i < n"
  shows "log_get (es @ conf_entries b conf [0..<n]) (b + of_nat i) = Some (conf_var conf i)"
proof -
  have "distinct (map fst (rev (conf_entries b conf [0..<n])))"
    using conf_entries_keys(2) [OF assms(1), of conf] unfolding rev_map [symmetric] distinct_rev .
  moreover have "(b + of_nat i, conf_var conf i) \<in> set (rev (conf_entries b conf [0..<n]))"
    unfolding set_rev list.set_map by (rule image_eqI [of _ _ i]) (use assms(2) in simp_all)
  ultimately have "map_of (rev (conf_entries b conf [0..<n])) (b + of_nat i) = Some (conf_var conf i)"
    by (rule map_of_is_SomeI)
  then show ?thesis unfolding log_get_def rev_append map_of_append by (rule map_add_find_right)
qed

text \<open>The page fills up after more than 80 of the variables: variable 1080 is in the full page and not in the
  table, and it is not written again.\<close>

lemma store_loop_loses:
  assumes "conf_ready e es" "81 \<le> k" "k < 154" "length es + k = 4095"
  shows "\<exists>e' es'. store_loop 1000 conf [0..<154] e = (True, e') \<and> conf_ready e' es' \<and> 1080 \<notin> fst ` set es'"
proof -
  have split: "[0..<154] = [0..<k] @ k # [Suc k..<154]" using assms(3) by (metis le0 less_imp_le le_add_diff_inverse upt_add_eq_append upt_conv_Cons)
  have out: "1080 \<notin> set conf_tab" by (simp add: conf_tab_set)
  have key: "\<forall>i\<in>set [0..<k]. (1000 + of_nat i :: u16) \<noteq> 0xFFFF"
    "\<forall>i\<in>set [Suc k..<154]. (1000 + of_nat i :: u16) \<noteq> 0xFFFF \<and> 1000 + of_nat i \<noteq> (1080 :: u16)"
    using assms(2,3) mc_key by auto
  obtain e1 where e1: "store_loop 1000 conf [0..<k] e = (True, e1)" "conf_ready e1 (es @ conf_entries 1000 conf [0..<k])"
    using store_loop_fits [OF assms(1) _ key(1)] assms(4) by auto
  obtain e2 es2 where e2: "EE_WriteVariable (1000 + of_nat k) (conf_var conf k) e1 = (ee_complete, e2)" "conf_ready e2 es2"
    "\<forall>f\<in>set es2. fst f \<in> insert 0xFFFF (insert (1000 + of_nat k) (set conf_tab))"
    using write_ready [OF e1(2) mc_key(1) [OF assms(3)], of "conf_var conf k"] assms(4) by auto
  have "1080 \<notin> fst ` set es2"
  proof
    assume "1080 \<in> fst ` set es2"
    then have "(1080 :: u16) = 1000 + of_nat k" using e2(3) out by auto
    then show False using mc_key(2) [OF assms(3)] assms(2) by simp
  qed
  from store_loop_absent [OF e2(2) this out _ key(2), of conf]
  show ?thesis unfolding split store_loop_append using e1(1) e2(1) by simp
qed

text \<open>C32: The motor configuration has 154 variables of which the table holds 80, because \<open>conf_general_init\<close>
  takes the size of the application configuration for both. If the page has room for all of them,
  storing and reading return the configuration. If it has room for at least 81 but not for all, the
  store moves to the other page half-way and loses the first variables outside the table: the store
  reports success, and the next read finds a variable missing and falls back to the defaults.\<close>

theorem mc_configuration_stored_or_lost:
  assumes "ee_rep (ee_mem e) p (VALID_PAGE, es) (ERASED, [])" "replies (ee_flash e) = []"
    and "conf_general_init e = Some (cg_ee s)" "length es + 81 \<le> 4095"
    and "length conf = sizeof_mc" "length buf = sizeof_mc"
  shows "\<exists>s'. conf_general_store_mc_configuration env conf s = (True, s') \<and>
    conf_general_read_mc_configuration dflt (ee_mem (cg_ee s')) buf =
      (if length es + 154 \<le> 4095 then conf else dflt)"
proof -
  have "ee_ok (ee_mem e)" using assms(1) unfolding ee_ok_def by blast
  then have ok: "ee_store_ok conf_tab (cg_ee s)" "ee_mem (cg_ee s) = ee_mem e" using init_ok assms(2,3) by fastforce+
  then have ready: "conf_ready (cg_ee s) es" using assms(1) unfolding conf_ready_def ee_store_ok_def by auto
  have "\<exists>e'. store_loop 1000 conf [0..<154] (cg_ee s) = (True, e') \<and>
    read_loop 1000 [0..<154] (ee_mem e') buf = (if length es + 154 \<le> 4095 then Some conf else None)"
  proof (cases "length es + 154 \<le> 4095")
    case True
    then obtain e' where e': "store_loop 1000 conf [0..<154] (cg_ee s) = (True, e')"
      "conf_ready e' (es @ conf_entries 1000 conf [0..<154])"
      using store_loop_fits [OF ready, of "[0..<154]" 1000 conf] mc_key(1) by (auto simp del: upt_rec_numeral)
    have "ee_val (ee_mem e') (1000 + of_nat i) = Some (conf_var conf i)" if "i < 154" for i
      using ready_val [OF e'(2) mc_key(1) [OF that]] log_get_entries [of 1000 154 i] that by simp
    then have "read_loop 1000 [0..<154] (ee_mem e') buf = Some conf"
      using assms(5,6) by (intro read_loop_ok) auto
    then show ?thesis using e'(1) True by simp
  next
    case False
    then obtain e' es' where e': "store_loop 1000 conf [0..<154] (cg_ee s) = (True, e')" "conf_ready e' es'" "1080 \<notin> fst ` set es'"
      using store_loop_loses [OF ready, of "4095 - length es" conf] assms(4) by auto
    have "ee_val (ee_mem e') (1000 + of_nat 80) = None"
      using ready_val [OF e'(2), of 1080] e'(3) by (simp add: log_get_None)
    then have "read_loop 1000 [0..<154] (ee_mem e') buf = None" by (rule read_loop_None) auto
    then show ?thesis using e'(1) False by simp
  qed
  then obtain e' where e': "store_loop 1000 conf [0..<154] (cg_ee s) = (True, e')"
    "read_loop 1000 [0..<154] (ee_mem e') buf = (if length es + 154 \<le> 4095 then Some conf else None)" by blast
  define s' where "s' = snd (conf_general_store_mc_configuration env conf s)"
  have "conf_general_store_mc_configuration env conf s = (True, s')" "cg_ee s' = e'"
    using e'(1) by (simp_all add: s'_def conf_general_store_mc_configuration_def store_configuration_def EEPROM_BASE_MCCONF_def
        del: upt_rec_numeral)
  then show ?thesis
    using e'(2) by (auto simp: conf_general_read_mc_configuration_def EEPROM_BASE_MCCONF_def simp del: upt_rec_numeral)
qed


text \<open>Sample states: a page with 4000 entries, so that 95 are free.\<close>

definition part_mem :: mem where
  "part_mem a = (if PAGE0_BASE_ADDRESS \<le> a \<and> a < PAGE0_BASE_ADDRESS + 4 * 4001 \<and>
      a \<noteq> PAGE0_BASE_ADDRESS + 2 \<and> a \<noteq> PAGE0_BASE_ADDRESS + 3 then 0 else 0xFF)"

lemma part_mem_rep: "ee_rep part_mem 0 (VALID_PAGE, replicate 4000 (0, 0)) (ERASED, [])"
proof -
  have "page_rep part_mem 1 (ERASED, [])"
    by (rule page_rep_all_blank) (simp add: part_mem_def base_def ee_consts)
  moreover have "cell part_mem 0 i = (if i = 1 \<or> 8002 \<le> i then 0xFFFF else 0)" if "i < 8192" for i
    using that by (auto simp: cell_def caddr_def part_mem_def base_def ee_consts rd16_blank intro!: rd16_zero)
  ultimately show ?thesis by (auto simp: ee_rep_def page_rep_def VALID_PAGE_def dcell_def acell_def)
qed

definition cg_start :: "ee \<Rightarrow> cg" where
  "cg_start e = \<lparr>cg_ee = e, cg_sys = \<lparr>sys_lock_cnt = 0, kernel_locked = False, wwdg_clock = True\<rparr>, cg_mc = mcif_start\<rparr>"

lemma cg_start_simps [simp]:
  "cg_ee (cg_start e) = e" "sys_ok (cg_sys (cg_start e))" "wwdg_clock (cg_sys (cg_start e))"
  by (simp_all add: cg_start_def sys_ok_def)

theorem app_configuration_roundtrip_witness:
  "\<exists>e s'. conf_general_init (power_up full_mem []) = Some e \<and>
     conf_general_store_app_configuration rest (replicate 160 7) (cg_start e) = (True, s') \<and>
     conf_general_read_app_configuration [] (ee_mem (cg_ee s')) (replicate 160 0) = replicate 160 7"
proof -
  have ok: "ee_ok (ee_mem (power_up full_mem []))" "replies (ee_flash (power_up full_mem [])) = []"
    by (simp_all add: power_up_def sample_ok)
  obtain e where e: "conf_general_init (power_up full_mem []) = Some e" using init_ok [OF ok] by blast
  show ?thesis
    using app_configuration_roundtrip [OF ok, of "cg_start e" "replicate 160 7" "replicate 160 0" rest "[]"] e by auto
qed

theorem mc_configuration_stored_or_lost_witness:
  "\<exists>e s'. conf_general_init (power_up part_mem []) = Some e \<and>
     conf_general_store_mc_configuration rest (replicate 308 7) (cg_start e) = (True, s') \<and>
     conf_general_read_mc_configuration (replicate 308 1) (ee_mem (cg_ee s')) (replicate 308 0) = replicate 308 1"
proof -
  have ok: "ee_rep (ee_mem (power_up part_mem [])) 0 (VALID_PAGE, replicate 4000 (0, 0)) (ERASED, [])"
    "replies (ee_flash (power_up part_mem [])) = []"
    by (simp_all add: power_up_def part_mem_rep)
  then have "ee_ok (ee_mem (power_up part_mem []))" unfolding ee_ok_def by blast
  then obtain e where e: "conf_general_init (power_up part_mem []) = Some e" using init_ok ok(2) by blast
  show ?thesis
    using mc_configuration_stored_or_lost [OF ok, of "cg_start e" "replicate 308 7" "replicate 308 0" rest "replicate 308 1"] e by auto
qed

end
