(* ===== verification/ConfDetect.thy ===== *)
theory ConfDetect
  imports Timeout
begin

text \<open>
  The two motor measurements of \<open>conf_general.c\<close>: the detection of the sensorless parameters and of the hall
  sensor table, and the flux linkage. Both run in a thread that sleeps between its steps. The
  world gives the readings at every millisecond and what the other threads and the interrupts do to
  the motor interface during a sleep; both are arbitrary.
\<close>

section \<open>Time\<close>

record world =
  readings_at :: "nat \<Rightarrow> env"
  others :: "nat \<Rightarrow> mcif \<Rightarrow> mcif"

record meas =
  me_mc :: mcif
  me_tout :: timeout_state
  me_time :: nat

abbreviation env_now :: "world \<Rightarrow> meas \<Rightarrow> env" where
  "env_now w s \<equiv> readings_at w (me_time s)"

definition chThdSleepMilliseconds :: "world \<Rightarrow> nat \<Rightarrow> meas \<Rightarrow> meas" where
  "chThdSleepMilliseconds w ms s = s\<lparr>me_mc := others w (me_time s) (me_mc s), me_time := me_time s + ms\<rparr>"

definition on_mc :: "world \<Rightarrow> (env \<Rightarrow> mcif \<Rightarrow> mcif) \<Rightarrow> meas \<Rightarrow> meas" where
  "on_mc w f s = s\<lparr>me_mc := f (env_now w s) (me_mc s)\<rparr>"

definition look :: "world \<Rightarrow> (env \<Rightarrow> mcif \<Rightarrow> 'a) \<Rightarrow> meas \<Rightarrow> 'a" where
  "look w f s = f (env_now w s) (me_mc s)"

text \<open>\<open>for (i = 0; i < n; i++) if (waiting) sleep 1 ms else \<open>{ ok_steps++; break; }\<close>\<close>: whether the wait ended before
  the count.\<close>

primrec wait_while :: "world \<Rightarrow> (env \<Rightarrow> mcif \<Rightarrow> bool) \<Rightarrow> nat \<Rightarrow> meas \<Rightarrow> bool \<times> meas" where
  "wait_while w p 0 s = (False, s)"
| "wait_while w p (Suc n) s =
     (if look w p s then wait_while w p n (chThdSleepMilliseconds w 1 s) else (True, s))"


section \<open>Detection of the motor parameters\<close>

definition detect_conf :: "real \<Rightarrow> mc_configuration \<Rightarrow> mc_configuration" where
  "detect_conf min_rpm c = c\<lparr>motor_type := MOTOR_TYPE_BLDC, sensor_mode := SENSOR_MODE_SENSORLESS,
     comm_mode := COMM_MODE_DELAY, sl_phase_advance_at_br := 1, sl_min_erpm := min_rpm\<rparr>"

text \<open>\<open>mcpwm_get_tachometer_value(0)\<close> and \<open>mcpwm_read_reset_avg_cycle_integrator\<close> act on the six-step driver directly.\<close>

definition tachometer :: "env \<Rightarrow> mcif \<Rightarrow> int" where
  "tachometer env m = get_tachometer_value (drv_of (now env m) Mcpwm)"

definition cycle_integrator :: "env \<Rightarrow> mcif \<Rightarrow> real" where
  "cycle_integrator env m = mcpwm_avg_cycle_integrator (now env m)"

definition reset_cycle_integrator :: "env \<Rightarrow> mcif \<Rightarrow> mcif" where
  "reset_cycle_integrator env m = call mcpwm_reset_avg_cycle_integrator m"

text \<open>The last averaging loop also sums the speed.\<close>

primrec average_rpm :: "world \<Rightarrow> int \<Rightarrow> nat \<Rightarrow> real \<Rightarrow> real \<Rightarrow> meas \<Rightarrow> (bool \<times> real \<times> real) \<times> meas" where
  "average_rpm w tacho 0 rs ri s = ((False, rs, ri), s)"
| "average_rpm w tacho (Suc n) rs ri s =
     (if look w tachometer s - tacho < 100
      then average_rpm w tacho n (fl (rs + look w mc_interface_get_rpm s)) (fl (ri + 1)) (chThdSleepMilliseconds w 1 s)
      else ((True, rs, ri), s))"

text \<open>A command of the measurement: the lock is opened for it.\<close>

definition override :: "world \<Rightarrow> (env \<Rightarrow> mcif \<Rightarrow> mcif) \<Rightarrow> meas \<Rightarrow> meas" where
  "override w cmd s = on_mc w cmd (on_mc w (\<lambda>_. mc_interface_lock_override_once) s)"

definition set_up :: "world \<Rightarrow> real \<Rightarrow> meas \<Rightarrow> meas" where
  "set_up w min_rpm s = on_mc w (\<lambda>env m. mc_interface_set_configuration env (detect_conf min_rpm (m_conf m)) m) s"

record detected =
  det_ok :: bool
  int_limit :: real
  bemf_coupling_k :: "real option"
  hall_table :: "i8 list"
  hall_res :: int

definition conf_general_detect_motor_param :: "world \<Rightarrow> real \<Rightarrow> real \<Rightarrow> real \<Rightarrow> meas \<Rightarrow> detected \<times> meas" where
  "conf_general_detect_motor_param w current min_rpm low_duty s =
     (let spinup_to_duty = fl 0.6;
          mcconf_old = m_conf (me_mc s);
          s = on_mc w (\<lambda>_. mc_interface_lock) (set_up w min_rpm s);
          s = override w (\<lambda>env. mc_interface_set_current env current) s;
          (ok1, s) = wait_while w (\<lambda>env m. mc_interface_get_duty_cycle_now env m < spinup_to_duty) 5000 s;
          s = on_mc w (\<lambda>_. call mcpwm_reset_hall_detect_table) s;
          s = override w (\<lambda>env. mc_interface_set_duty env spinup_to_duty) s;
          s = chThdSleepMilliseconds w 400 s;
          s = override w (\<lambda>env. mc_interface_set_current env 0) s;
          tacho = look w tachometer s;
          (ok2, s) = wait_while w (\<lambda>env m. tachometer env m - tacho < 3) 2000 s;
          s = on_mc w reset_cycle_integrator s;
          tacho = look w tachometer s;
          (ok3, s) = wait_while w (\<lambda>env m. tachometer env m - tacho < 50) 3000 s;
          (res, tab) = look w (\<lambda>env m. mcpwm_hall_detect_result (now env m)) s;
          limit = look w cycle_integrator s;
          s = on_mc w reset_cycle_integrator s;
          (ok4, s) = wait_while w (\<lambda>env m. mc_interface_get_duty_cycle_now env m > low_duty) 5000 s;
          s = override w (\<lambda>env. mc_interface_set_duty env low_duty) s;
          s = on_mc w reset_cycle_integrator s;
          tacho = look w tachometer s;
          ((ok5, rs, ri), s) = average_rpm w tacho 3000 0 0 s;
          running = look w cycle_integrator s;
          s = on_mc w reset_cycle_integrator s;
          s = override w mc_interface_release_motor s;
          vin = of_int (look w (\<lambda>env m. adc_vin_sens (now env m)) s);
          k = (if ri = 0 \<or> vin = 0 then None else Some (fl (fl (fl (running - limit) / fl vin) * fl (rs / ri))));
          s = on_mc w (\<lambda>env. mc_interface_set_configuration env mcconf_old) s;
          s = on_mc w (\<lambda>_. mc_interface_unlock) s in
      (\<lparr>det_ok = (ok1 \<and> ok2 \<and> ok3 \<and> ok4 \<and> ok5), int_limit = limit, bemf_coupling_k = k, hall_table = tab, hall_res = res\<rparr>, s))"


section \<open>Flux linkage\<close>

text \<open>The spin-up loop counts its sleeps and gives up at 5000.\<close>

primrec spin_up :: "world \<Rightarrow> real \<Rightarrow> nat \<Rightarrow> meas \<Rightarrow> bool \<times> meas" where
  "spin_up w duty 0 s = (False, s)"
| "spin_up w duty (Suc n) s =
     (if look w mc_interface_get_duty_cycle_now s < duty
      then spin_up w duty n (chThdSleepMilliseconds w 1 s) else (True, s))"

record avg =
  avg_voltage :: real
  avg_rpm :: real
  avg_current :: real

primrec average_flux :: "world \<Rightarrow> nat \<Rightarrow> avg \<Rightarrow> meas \<Rightarrow> avg \<times> meas" where
  "average_flux w 0 a s = (a, s)"
| "average_flux w (Suc n) a s =
     (let a1 = \<lparr>avg_voltage = fl (avg_voltage a + fl (input_voltage (look w now s) * look w mc_interface_get_duty_cycle_now s)),
                avg_rpm = fl (avg_rpm a + look w mc_interface_get_rpm s),
                avg_current = fl (avg_current a + look w mc_interface_get_tot_current s)\<rparr> in
      average_flux w n a1 (chThdSleepMilliseconds w 1 s))"

definition flux_linkage :: "real \<Rightarrow> avg \<Rightarrow> real option" where
  "flux_linkage res a =
     (let samples = 2000; v = fl (avg_voltage a / samples); r = fl (avg_rpm a / samples); i = fl (avg_current a / samples);
          v1 = fl (v - fl (fl (i * res) * 2));
          d = fl (fl (fl (fl (sqrt 3) * 2) * M_PI) * r) in
      if d = 0 then None else Some (fl (fl (v1 * 60) / d)))"

definition conf_general_measure_flux_linkage ::
  "world \<Rightarrow> real \<Rightarrow> real \<Rightarrow> real \<Rightarrow> real \<Rightarrow> meas \<Rightarrow> (bool \<times> real option) \<times> meas" where
  "conf_general_measure_flux_linkage w current duty min_erpm res s =
     (let mcconf_old = m_conf (me_mc s);
          s = chThdSleepMilliseconds w 1000 (set_up w min_erpm s);
          tout = timeout_get_timeout_msec (me_tout s);
          tout_c = timeout_get_brake_current (me_tout s);
          s = s\<lparr>me_tout := timeout_configure 60000 0 (me_tout s)\<rparr>;
          s = override w (\<lambda>env. mc_interface_set_current env current) (on_mc w (\<lambda>_. mc_interface_lock) s);
          (up, s) = spin_up w duty 5000 s in
      if \<not> up then
        (let s = on_mc w (\<lambda>env. mc_interface_set_current env 0) s;
             s = s\<lparr>me_tout := timeout_configure tout tout_c (me_tout s)\<rparr>;
             s = on_mc w (\<lambda>env. mc_interface_set_configuration env mcconf_old) s in
         ((False, None), on_mc w (\<lambda>_. mc_interface_unlock) s))
      else
        (let s = override w (\<lambda>env. mc_interface_set_duty env duty) s;
             (a, s) = average_flux w 2000 \<lparr>avg_voltage = 0, avg_rpm = 0, avg_current = 0\<rparr> s;
             s = on_mc w (\<lambda>env. mc_interface_set_configuration env mcconf_old) s;
             s = on_mc w (\<lambda>_. mc_interface_unlock) s;
             s = on_mc w (\<lambda>env. mc_interface_set_current env 0) s in
         ((True, flux_linkage res a), s)))"


section \<open>Properties\<close>

text \<open>A configuration without the limits in force, which \<open>mc_interface_set_configuration\<close> computes anew.\<close>

definition base_conf :: "mc_configuration \<Rightarrow> mc_configuration" where
  "base_conf c = c\<lparr>lo_current_max := 0, lo_current_min := 0, lo_in_current_max := 0, lo_in_current_min := 0\<rparr>"

lemma base_conf_upd [simp]:
  "base_conf (c\<lparr>lo_current_max := x\<rparr>) = base_conf c" "base_conf (c\<lparr>lo_current_min := x\<rparr>) = base_conf c"
  "base_conf (c\<lparr>lo_in_current_max := x\<rparr>) = base_conf c" "base_conf (c\<lparr>lo_in_current_min := x\<rparr>) = base_conf c"
  by (simp_all add: base_conf_def)

lemma conf_frame [simp]: "m_conf (call c m) = m_conf m" "m_conf (dispatch f m) = m_conf m"
  "m_conf (mc_interface_fault_stop env fc m) = m_conf m"
  by (simp_all add: call_def dispatch_def mc_interface_fault_stop_def Let_def split: option.split)

definition keeps :: "mc_configuration \<Rightarrow> mcif \<Rightarrow> bool" where
  "keeps c m \<longleftrightarrow> base_conf (m_conf m) = base_conf c"

lemma keeps_let: "(\<And>x. x = v \<Longrightarrow> keeps c (f x)) \<Longrightarrow> keeps c (let x = v in f x)"
  by simp

lemma keeps_if: "(b \<Longrightarrow> keeps c x) \<Longrightarrow> (\<not> b \<Longrightarrow> keeps c y) \<Longrightarrow> keeps c (if b then x else y)"
  by simp

lemma keeps_upd: "base_conf c' = base_conf c \<Longrightarrow> keeps c (m\<lparr>m_conf := c'\<rparr>)"
  by (simp add: keeps_def)

lemma keeps_fault: "keeps c m \<Longrightarrow> keeps c (mc_interface_fault_stop env fc m)"
  by (simp add: keeps_def)

lemmas keeps_intros = keeps_let keeps_if keeps_upd keeps_fault

lemma base_conf_if: "base_conf x = base_conf z \<Longrightarrow> base_conf y = base_conf z \<Longrightarrow> base_conf (if b then x else y) = base_conf z"
  by simp

lemma limit_battery_base: "keeps (m_conf m) (limit_battery v m)"
  unfolding limit_battery_def
  by (intro keeps_intros) (simp_all add: base_conf_if)

lemma limit_temperature_base: "keeps (m_conf m) (limit_temperature env m)"
  unfolding limit_temperature_def
  by (intro keeps_intros) (simp_all add: base_conf_if)

lemma set_configuration_base:
  "base_conf (m_conf (mc_interface_set_configuration env c m)) = base_conf c"
  unfolding mc_interface_set_configuration_def update_override_limits_def Let_def
  using limit_battery_base limit_temperature_base by (simp add: keeps_def)

lemma set_current_frame:
  "m_lock_enabled (mc_interface_set_current env x m) = m_lock_enabled m"
  "m_conf (mc_interface_set_current env x m) = m_conf m"
  by (auto simp: mc_interface_set_current_def mc_interface_try_input_def dispatch_def call_def Let_def split: option.split)

lemma unlock_frame: "m_lock_enabled (mc_interface_unlock m) = False" "m_conf (mc_interface_unlock m) = m_conf m"
  by (simp_all add: mc_interface_unlock_def)

lemma meas_frame [simp]:
  "me_mc (on_mc w f s) = f (env_now w s) (me_mc s)" "me_tout (on_mc w f s) = me_tout s"
  "me_tout (chThdSleepMilliseconds w n s) = me_tout s" "me_tout (override w f s) = me_tout s"
  "me_tout (set_up w r s) = me_tout s"
  by (simp_all add: on_mc_def chThdSleepMilliseconds_def override_def set_up_def)

lemma loop_tout [simp]:
  "me_tout (snd (wait_while w p n s)) = me_tout s" "me_tout (snd (spin_up w d n s)) = me_tout s"
  "me_tout (snd (average_rpm w c n rs ri s)) = me_tout s" "me_tout (snd (average_flux w n a s)) = me_tout s"
  by (induction n arbitrary: s rs ri a) (simp_all add: Let_def)

text \<open>However the motor behaves and whatever other threads do to the motor interface, both measurements end,
  unlock the interface and put the configuration back, apart from the limits in force. The detection
  leaves the command timeout alone. The flux measurement restores the timeout only when the motor
  does not spin up: after a successful measurement it stays at 60 s without brake current.\<close>

theorem measurements_clean_up:
  "(case conf_general_detect_motor_param w current min_rpm low_duty s of (r, s') \<Rightarrow>
      \<not> m_lock_enabled (me_mc s') \<and> base_conf (m_conf (me_mc s')) = base_conf (m_conf (me_mc s)) \<and> me_tout s' = me_tout s) \<and>
   (case conf_general_measure_flux_linkage w current duty min_erpm res s of ((ok, l), s') \<Rightarrow>
      \<not> m_lock_enabled (me_mc s') \<and> base_conf (m_conf (me_mc s')) = base_conf (m_conf (me_mc s)) \<and>
      me_tout s' = (if ok then (me_tout s)\<lparr>timeout_msec := 60000, timeout_brake_current := 0\<rparr> else me_tout s))"
  unfolding conf_general_detect_motor_param_def conf_general_measure_flux_linkage_def
  by (simp add: split_beta Let_def set_configuration_base set_current_frame unlock_frame timeout_configure_def
      timeout_get_timeout_msec_def timeout_get_brake_current_def)

end
