(* ===== verification/CommCan.thy ===== *)
theory CommCan
  imports Packet Timeout
begin

text \<open>
  The CAN transport of \<open>comm_can.c\<close>: motor commands in one frame, buffers of up to 1024 bytes cut into frames and put
  together by the receiver, the ring of received frames between the two threads, and the table of
  status messages.

  A frame on the bus is an identifier and up to 8 data bytes. The driver hands a received frame over
  with an 8-byte data array of which the first \<open>DLC\<close> bytes are the data; the rest is arbitrary. A call
  of \<open>commands_process_packet\<close> or \<open>commands_send_packet\<close> is an event; what the \<open>commands\<close> component does with it is
  in theory Commands. As elsewhere an access outside an array makes the operation \<^term>\<open>None\<close>.
\<close>

section \<open>State\<close>

definition RX_FRAMES_SIZE :: nat where "RX_FRAMES_SIZE = 100"
definition RX_BUFFER_SIZE :: nat where "RX_BUFFER_SIZE = PACKET_MAX_PL_LEN"
definition CAN_STATUS_MSGS_TO_STORE :: nat where "CAN_STATUS_MSGS_TO_STORE = 10"

record CANTxFrame =
  tx_EID :: u32
  tx_data :: bytes

record CANRxFrame =
  IDE :: bool
  EID :: u32
  DLC :: u8
  data8 :: bytes

datatype can_event = Process_packet bytes | Send_packet bytes

record can =
  stat_msgs :: "can_status_msg list"
  can_rx_buffer :: bytes
  rx_buffer_last_id :: u32
  rx_frames :: "CANRxFrame list"
  rx_frame_read :: nat
  rx_frame_write :: nat
  can_mc :: mcif
  can_tout :: timeout_state
  can_events :: "can_event list"


section \<open>Sending\<close>

definition can_id :: "u8 \<Rightarrow> CAN_PACKET_ID \<Rightarrow> u32" where
  "can_id cid cmd = ucast cid OR push_bit 8 (ucast (CAN_PACKET_ID_code cmd))"

definition comm_can_transmit :: "u32 \<Rightarrow> bytes \<Rightarrow> nat \<Rightarrow> CANTxFrame option" where
  "comm_can_transmit eid data len =
     do { d \<leftarrow> memcpy (replicate 8 0) 0 data len; Some \<lparr>tx_EID = eid, tx_data = take len d\<rparr> }"

text \<open>The two loops of \<open>comm_can_send_buffer\<close>. The buffer \<open>sb\<close> is reused from frame to frame. The first loop covers offsets
  that fit into one byte and returns where it ended.\<close>

function fill_loop :: "u8 \<Rightarrow> bytes \<Rightarrow> nat \<Rightarrow> nat \<Rightarrow> nat \<Rightarrow> bytes \<Rightarrow> (CANTxFrame list \<times> nat \<times> bytes) option" where
  "fill_loop cid data len i end_a sb =
     (if i < len then
        if i > 255 then Some ([], end_a, sb)
        else do {
          let send_len = (if i + 7 \<le> len then 7 else len - i);
          sb \<leftarrow> arr_set sb 0 (of_nat i);
          sb \<leftarrow> memcpy sb 1 (drop i data) send_len;
          f \<leftarrow> comm_can_transmit (can_id cid CAN_PACKET_FILL_RX_BUFFER) sb (send_len + 1);
          (fs, end_a, sb) \<leftarrow> fill_loop cid data len (i + 7) (i + 7) sb;
          Some (f # fs, end_a, sb) }
      else Some ([], end_a, sb))"
  by auto
termination by (relation "measure (\<lambda>(cid, data, len, i, end_a, sb). len - i)") auto

function fill_long_loop :: "u8 \<Rightarrow> bytes \<Rightarrow> nat \<Rightarrow> nat \<Rightarrow> bytes \<Rightarrow> (CANTxFrame list \<times> bytes) option" where
  "fill_long_loop cid data len i sb =
     (if i < len then
        do {
          let send_len = (if i + 6 \<le> len then 6 else len - i);
          sb \<leftarrow> arr_set sb 0 (of_nat (i div 256));
          sb \<leftarrow> arr_set sb 1 (of_nat (i mod 256));
          sb \<leftarrow> memcpy sb 2 (drop i data) send_len;
          f \<leftarrow> comm_can_transmit (can_id cid CAN_PACKET_FILL_RX_BUFFER_LONG) sb (send_len + 2);
          (fs, sb) \<leftarrow> fill_long_loop cid data len (i + 6) sb;
          Some (f # fs, sb) }
      else Some ([], sb))"
  by auto
termination by (relation "measure (\<lambda>(cid, data, len, i, sb). len - i)") auto

declare fill_loop.simps [simp del] fill_long_loop.simps [simp del]

text \<open>\<open>own\<close> is the controller's own identifier, \<open>app_get_configuration()->controller_id\<close>.\<close>

definition comm_can_send_buffer :: "u8 \<Rightarrow> u8 \<Rightarrow> bytes \<Rightarrow> nat \<Rightarrow> bool \<Rightarrow> bytes \<Rightarrow> CANTxFrame list option" where
  "comm_can_send_buffer own cid data len send sb =
     (if len \<le> 6 then
        do { (sb, ind) \<leftarrow> arr_put sb 0 [own, of_bool send];
             sb \<leftarrow> memcpy sb ind data len;
             f \<leftarrow> comm_can_transmit (can_id cid CAN_PACKET_PROCESS_SHORT_BUFFER) sb (ind + len);
             Some [f] }
      else
        do { (fs1, end_a, sb) \<leftarrow> fill_loop cid data len 0 0 sb;
             (fs2, sb) \<leftarrow> fill_long_loop cid data len end_a sb;
             crc \<leftarrow> crc16 data len;
             (sb, ind) \<leftarrow> arr_put sb 0 [own, of_bool send, of_nat (len div 256), of_nat (len mod 256),
               ucast (drop_bit 8 crc), ucast (crc AND 0xFF)];
             f \<leftarrow> comm_can_transmit (can_id cid CAN_PACKET_PROCESS_RX_BUFFER) sb ind;
             Some (fs1 @ fs2 @ [f]) })"

text \<open>The motor commands to another controller.\<close>

definition can_set :: "CAN_PACKET_ID \<Rightarrow> u8 \<Rightarrow> u32 option \<Rightarrow> CANTxFrame option" where
  "can_set cmd cid value =
     do { n \<leftarrow> value; (buffer, send_index) \<leftarrow> buffer_append_int32 (replicate 4 0) n 0;
          comm_can_transmit (can_id cid cmd) buffer send_index }"

definition comm_can_set_duty :: "u8 \<Rightarrow> real \<Rightarrow> CANTxFrame option" where
  "comm_can_set_duty cid duty = can_set CAN_PACKET_SET_DUTY cid (f2i32 (fl (duty * 100000)))"

definition comm_can_set_current :: "u8 \<Rightarrow> real \<Rightarrow> CANTxFrame option" where
  "comm_can_set_current cid current = can_set CAN_PACKET_SET_CURRENT cid (f2i32 (fl (current * 1000)))"

definition comm_can_set_current_brake :: "u8 \<Rightarrow> real \<Rightarrow> CANTxFrame option" where
  "comm_can_set_current_brake cid current =
     can_set CAN_PACKET_SET_CURRENT_BRAKE cid (f2i32 (fl (current * 1000)))"

definition comm_can_set_rpm :: "u8 \<Rightarrow> real \<Rightarrow> CANTxFrame option" where
  "comm_can_set_rpm cid rpm = can_set CAN_PACKET_SET_RPM cid (f2i32 rpm)"

definition comm_can_set_pos :: "u8 \<Rightarrow> real \<Rightarrow> CANTxFrame option" where
  "comm_can_set_pos cid pos = can_set CAN_PACKET_SET_POS cid (f2i32 (fl (pos * 1000000)))"

text \<open>One round of the status thread: the frame it sends, if any, and the ticks it sleeps. A rate of 0 divides
  by zero.\<close>

definition cancom_status_thread ::
  "app_configuration \<Rightarrow> env \<Rightarrow> mcif \<Rightarrow> (CANTxFrame list \<times> u32) option" where
  "cancom_status_thread conf env m =
     do { fs \<leftarrow> (if send_can_status conf then
            do { rpm \<leftarrow> f2i32 (mc_interface_get_rpm env m);
                 cur \<leftarrow> f2i16 (fl (mc_interface_get_tot_current env m * 10));
                 duty \<leftarrow> f2i16 (fl (mc_interface_get_duty_cycle_now env m * 1000));
                 (b, i) \<leftarrow> buffer_append_int32 (replicate 8 0) rpm 0;
                 (b, i) \<leftarrow> buffer_append_int16 b cur i;
                 (b, i) \<leftarrow> buffer_append_int16 b duty i;
                 f \<leftarrow> comm_can_transmit (can_id (controller_id conf) CAN_PACKET_STATUS) b i;
                 Some [f] }
          else Some []);
          if send_can_status_rate_hz conf = 0 then None
          else (let sleep_time = CH_CFG_ST_FREQUENCY div send_can_status_rate_hz conf in
                Some (fs, if sleep_time = 0 then 1 else sleep_time)) }"


section \<open>Receiving\<close>

definition comm_can_init :: "can \<Rightarrow> can" where
  "comm_can_init s = s\<lparr>stat_msgs := map (\<lambda>m. m\<lparr>csm_id := -1\<rparr>) (stat_msgs s), rx_frame_read := 0, rx_frame_write := 0\<rparr>"

text \<open>The read thread stores a received frame in the ring.\<close>

definition cancom_read_thread :: "CANRxFrame \<Rightarrow> can \<Rightarrow> can option" where
  "cancom_read_thread rxmsg s =
     do { fs \<leftarrow> arr_set (rx_frames s) (rx_frame_write s) rxmsg;
          let w = rx_frame_write s + 1;
          Some (s\<lparr>rx_frames := fs, rx_frame_write := if w = RX_FRAMES_SIZE then 0 else w\<rparr>) }"

definition event :: "can_event \<Rightarrow> can \<Rightarrow> can" where
  "event e s = s\<lparr>can_events := can_events s @ [e]\<rparr>"

text \<open>A motor command at system time \<open>t\<close>; it resets the timeout.\<close>

definition can_command :: "u32 \<Rightarrow> (mcif \<Rightarrow> mcif) \<Rightarrow> can \<Rightarrow> can" where
  "can_command t cmd s = s\<lparr>can_mc := cmd (can_mc s), can_tout := timeout_reset t (can_tout s)\<rparr>"

text \<open>The length handed on is computed in \<open>unsigned int\<close>; a length past the data array is undefined.\<close>

definition can_packet :: "bool \<Rightarrow> bytes \<Rightarrow> u32 \<Rightarrow> can \<Rightarrow> can option" where
  "can_packet commands_send d len s =
     (if unat len \<le> length d
      then Some (event ((if commands_send then Send_packet else Process_packet) (take (unat len) d)) s)
      else None)"

definition process_rx_buffer :: "bytes \<Rightarrow> can \<Rightarrow> can option" where
  "process_rx_buffer d s =
     do { last \<leftarrow> arr_get d 0; snd_b \<leftarrow> arr_get d 1; hi \<leftarrow> arr_get d 2; lo \<leftarrow> arr_get d 3;
          let s = s\<lparr>rx_buffer_last_id := ucast last\<rparr>;
          let rxbuf_len = (push_bit 8 (ucast hi) OR ucast lo :: u32);
          if unat rxbuf_len > RX_BUFFER_SIZE then Some s
          else do { ch \<leftarrow> arr_get d 4; cl \<leftarrow> arr_get d 5;
                    crc \<leftarrow> crc16 (can_rx_buffer s) (unat rxbuf_len);
                    if crc = push_bit 8 (ucast ch) OR ucast cl
                    then can_packet (snd_b \<noteq> 0) (can_rx_buffer s) rxbuf_len s else Some s } }"

text \<open>The first switch, for frames addressed to this controller. Where the packet goes to the interpreter the event is \<open>Process_packet\<close>; that its reply is
  to go back over CAN, \<open>commands_set_send_func(send_packet_wrapper)\<close>, is part of that event.\<close>

definition can_own_frame :: "env \<Rightarrow> u32 \<Rightarrow> CAN_PACKET_ID \<Rightarrow> CANRxFrame \<Rightarrow> can \<Rightarrow> can option" where
  "can_own_frame env t cmd f s =
     (let d = data8 f in
      case cmd of
        CAN_PACKET_SET_DUTY \<Rightarrow>
          do { (v, ind) \<leftarrow> buffer_get_int32 d 0;
               Some (can_command t (mc_interface_set_duty env (fl (fl (of_int (sint v)) / 100000))) s) }
      | CAN_PACKET_SET_CURRENT \<Rightarrow>
          do { (v, ind) \<leftarrow> buffer_get_int32 d 0;
               Some (can_command t (mc_interface_set_current env (fl (fl (of_int (sint v)) / 1000))) s) }
      | CAN_PACKET_SET_CURRENT_BRAKE \<Rightarrow>
          do { (v, ind) \<leftarrow> buffer_get_int32 d 0;
               Some (can_command t (mc_interface_set_brake_current env (fl (fl (of_int (sint v)) / 1000))) s) }
      | CAN_PACKET_SET_RPM \<Rightarrow>
          do { (v, ind) \<leftarrow> buffer_get_int32 d 0;
               Some (can_command t (mc_interface_set_pid_speed env (fl (of_int (sint v)))) s) }
      | CAN_PACKET_SET_POS \<Rightarrow>
          do { (v, ind) \<leftarrow> buffer_get_int32 d 0;
               Some (can_command t (mc_interface_set_pid_pos env (fl (fl (of_int (sint v)) / 1000000))) s) }
      | CAN_PACKET_FILL_RX_BUFFER \<Rightarrow>
          do { i \<leftarrow> arr_get d 0;
               buf \<leftarrow> memcpy (can_rx_buffer s) (unat i) (drop 1 d) (unat (ucast (DLC f) - 1 :: u32));
               Some (s\<lparr>can_rx_buffer := buf\<rparr>) }
      | CAN_PACKET_FILL_RX_BUFFER_LONG \<Rightarrow>
          do { hi \<leftarrow> arr_get d 0; lo \<leftarrow> arr_get d 1;
               let rxbuf_ind = unat (push_bit 8 (ucast hi) OR ucast lo :: u32);
               if rxbuf_ind < RX_BUFFER_SIZE
               then do { buf \<leftarrow> memcpy (can_rx_buffer s) rxbuf_ind (drop 2 d) (unat (ucast (DLC f) - 2 :: u32));
                         Some (s\<lparr>can_rx_buffer := buf\<rparr>) }
               else Some s }
      | CAN_PACKET_PROCESS_RX_BUFFER \<Rightarrow> process_rx_buffer d s
      | CAN_PACKET_PROCESS_SHORT_BUFFER \<Rightarrow>
          do { last \<leftarrow> arr_get d 0; snd_b \<leftarrow> arr_get d 1;
               can_packet (snd_b \<noteq> 0) (drop 2 d) (ucast (DLC f) - 2) (s\<lparr>rx_buffer_last_id := ucast last\<rparr>) }
      | _ \<Rightarrow> Some s)"

text \<open>A status message goes to the entry of its sender or to the first unused one.\<close>

fun stat_slot :: "int \<Rightarrow> can_status_msg list \<Rightarrow> nat option" where
  "stat_slot i [] = None"
| "stat_slot i (m # ms) = (if csm_id m = i \<or> csm_id m = -1 then Some 0 else map_option Suc (stat_slot i ms))"

definition can_status_frame :: "u32 \<Rightarrow> u8 \<Rightarrow> CANRxFrame \<Rightarrow> can \<Rightarrow> can option" where
  "can_status_frame t i f s =
     (case stat_slot (uint i) (stat_msgs s) of
        None \<Rightarrow> Some s
      | Some k \<Rightarrow>
          do { (rpm, ind) \<leftarrow> buffer_get_int32 (data8 f) 0;
               (cur, ind) \<leftarrow> buffer_get_int16 (data8 f) ind;
               (duty, ind) \<leftarrow> buffer_get_int16 (data8 f) ind;
               Some (s\<lparr>stat_msgs := (stat_msgs s)[k :=
                 \<lparr>csm_id = uint i, csm_rx_time = t, csm_rpm = fl (of_int (sint rpm)),
                  csm_current = fl (fl (of_int (sint cur)) / 10), csm_duty = fl (fl (of_int (sint duty)) / 1000)\<rparr>]\<rparr>) })"

definition can_process_frame :: "u8 \<Rightarrow> env \<Rightarrow> u32 \<Rightarrow> CANRxFrame \<Rightarrow> can \<Rightarrow> can option" where
  "can_process_frame own env t f s =
     (if IDE f then
        (let i = ucast (EID f AND 0xFF); cmd = CAN_PACKET_ID_of (ucast (drop_bit 8 (EID f))) in
         do { s \<leftarrow> (if i = 255 \<or> i = own then can_own_frame env t cmd f s else Some s);
              if cmd = CAN_PACKET_STATUS then can_status_frame t i f s else Some s })
      else Some s)"

text \<open>One pass of the loop of the process thread, and the loop until the ring is empty; at most as many frames as the
  ring holds are left when no frame arrives meanwhile.\<close>

definition process_step :: "u8 \<Rightarrow> env \<Rightarrow> u32 \<Rightarrow> can \<Rightarrow> can option" where
  "process_step own env t s =
     do { f \<leftarrow> arr_get (rx_frames s) (rx_frame_read s);
          s \<leftarrow> can_process_frame own env t f (s\<lparr>rx_frame_read := rx_frame_read s + 1\<rparr>);
          Some (if rx_frame_read s = RX_FRAMES_SIZE then s\<lparr>rx_frame_read := 0\<rparr> else s) }"

fun cancom_process_thread :: "nat \<Rightarrow> u8 \<Rightarrow> env \<Rightarrow> u32 \<Rightarrow> can \<Rightarrow> can option" where
  "cancom_process_thread 0 own env t s = (if rx_frame_read s \<noteq> rx_frame_write s then None else Some s)"
| "cancom_process_thread (Suc n) own env t s =
     (if rx_frame_read s \<noteq> rx_frame_write s
      then do { s \<leftarrow> process_step own env t s; cancom_process_thread n own env t s } else Some s)"

definition comm_can_get_status_msg_index :: "int \<Rightarrow> can \<Rightarrow> can_status_msg option option" where
  "comm_can_get_status_msg_index index s =
     (if index < int CAN_STATUS_MSGS_TO_STORE
      then if 0 \<le> index then map_option Some (arr_get (stat_msgs s) (nat index)) else None
      else Some None)"

definition comm_can_get_status_msg_id :: "int \<Rightarrow> can \<Rightarrow> can_status_msg option" where
  "comm_can_get_status_msg_id i s = find (\<lambda>m. csm_id m = i) (stat_msgs s)"

definition send_packet_wrapper :: "u8 \<Rightarrow> bytes \<Rightarrow> nat \<Rightarrow> bytes \<Rightarrow> can \<Rightarrow> CANTxFrame list option" where
  "send_packet_wrapper own data len sb s = comm_can_send_buffer own (ucast (rx_buffer_last_id s)) data len True sb"


section \<open>Frames on the bus\<close>

text \<open>A received frame carries a sent one.\<close>

definition carries :: "CANTxFrame \<Rightarrow> CANRxFrame \<Rightarrow> bool" where
  "carries tx rx \<longleftrightarrow> IDE rx \<and> EID rx = tx_EID tx \<and> DLC rx = of_nat (length (tx_data tx)) \<and> length (data8 rx) = 8 \<and>
     take (length (tx_data tx)) (data8 rx) = tx_data tx"

fun run_frames :: "u8 \<Rightarrow> env \<Rightarrow> u32 \<Rightarrow> CANRxFrame list \<Rightarrow> can \<Rightarrow> can option" where
  "run_frames own env t [] s = Some s"
| "run_frames own env t (f # fs) s = do { s \<leftarrow> can_process_frame own env t f s; run_frames own env t fs s }"

lemma run_frames_append:
  "run_frames own env t (fs @ gs) s = do { s \<leftarrow> run_frames own env t fs s; run_frames own env t gs s }"
  by (induction fs arbitrary: s) (auto split: bind_splits)

lemma can_id_decode [simp]:
  "ucast (can_id c cmd AND 0xFF) = c" "ucast (drop_bit 8 (can_id c cmd)) = CAN_PACKET_ID_code cmd"
proof -
  have m: "(0xFF :: u32) = mask 8" by (simp add: mask_eq_exp_minus_1)
  show "ucast (can_id c cmd AND 0xFF) = c" unfolding can_id_def m
    by (rule bit_word_eqI) (auto simp: bit_simps)
  show "ucast (drop_bit 8 (can_id c cmd)) = CAN_PACKET_ID_code cmd" unfolding can_id_def
    by (rule bit_word_eqI) (auto simp: bit_simps dest: bit_imp_le_length)
qed

lemma byte_of_nat:
  assumes "n < 256"
  shows "(ucast (of_nat n :: u8) :: u32) = of_nat n" "unat (of_nat n :: u8) = n"
proof -
  show u: "unat (of_nat n :: u8) = n" using assms by (simp add: unat_of_nat take_bit_nat_eq_self)
  have "(ucast (of_nat n :: u8) :: u32) = of_nat (unat (of_nat n :: u8))" by (simp only: of_nat_unat)
  then show "(ucast (of_nat n :: u8) :: u32) = of_nat n" unfolding u .
qed

lemma u32_of_nat: "n < 2 ^ 32 \<Longrightarrow> unat (of_nat n :: u32) = n"
  by (simp only: unat_of_nat) (simp add: take_bit_nat_eq_self)

lemma dlc_minus:
  assumes "n \<le> 8" "k \<le> n"
  shows "unat (ucast (of_nat n :: u8) - of_nat k :: u32) = n - k"
proof -
  have "(ucast (of_nat n :: u8) - of_nat k :: u32) = of_nat (n - k)" using assms by (simp add: byte_of_nat of_nat_diff)
  then show ?thesis using assms u32_of_nat [of "n - k"] by simp
qed

lemma join_nat:
  assumes "n < 65536"
  shows "unat (push_bit 8 (ucast (of_nat (n div 256) :: u8)) OR ucast (of_nat (n mod 256) :: u8) :: u32) = n"
proof -
  have "n div 256 < 256" using assms by (simp add: less_mult_imp_div_less)
  then have h: "ucast (of_nat (n div 256) :: u8) = (of_nat (n div 256) :: u32)" "ucast (of_nat (n mod 256) :: u8) = (of_nat (n mod 256) :: u32)"
    by (auto intro!: byte_of_nat(1))
  have lo: "(of_nat (n mod 256) :: u32) = take_bit 8 (of_nat n)" by (simp add: take_bit_of_nat take_bit_nat_def)
  have "push_bit 8 (of_nat (n div 256)) OR of_nat (n mod 256) = (push_bit 8 (of_nat (n div 256)) + of_nat (n mod 256) :: u32)"
    unfolding lo by (rule disjunctive_add [symmetric]) (auto simp: bit_simps)
  also have "push_bit 8 (of_nat a) + of_nat b = (of_nat (a * 256 + b) :: u32)" for a b by (simp add: push_bit_eq_mult)
  finally show ?thesis unfolding h using assms u32_of_nat [of n] by simp
qed


section \<open>Reassembly\<close>

abbreviation splice :: "bytes \<Rightarrow> nat \<Rightarrow> bytes \<Rightarrow> bytes" where
  "splice b i c \<equiv> take i b @ c @ drop (i + length c) b"

text \<open>What one fill frame does to the receiver.\<close>

lemma receive_fill:
  assumes "carries \<lparr>tx_EID = can_id c CAN_PACKET_FILL_RX_BUFFER, tx_data = of_nat i # ch\<rparr> f" "c = 255 \<or> c = own"
    "i \<le> 255" "length ch \<le> 7" "length (can_rx_buffer s) = 1024"
  shows "can_process_frame own env t f s = Some (s\<lparr>can_rx_buffer := splice (can_rx_buffer s) i ch\<rparr>)"
proof -
  obtain d where d: "data8 f = of_nat i # ch @ d"
    using assms(1) unfolding carries_def by (cases "data8 f") (auto, metis append_take_drop_id)
  have n: "unat (ucast (DLC f) - 1 :: u32) = length ch"
    using dlc_minus [of "length ch + 1" 1] assms(1,4) by (simp add: carries_def)
  show ?thesis
    using assms(1-3,5) n d assms(4)
    by (auto simp: can_process_frame_def carries_def CAN_PACKET_ID_of_def can_own_frame_def arr_get_def memcpy_def byte_of_nat)
qed

lemma receive_fill_long:
  assumes "carries \<lparr>tx_EID = can_id c CAN_PACKET_FILL_RX_BUFFER_LONG, tx_data = of_nat (i div 256) # of_nat (i mod 256) # ch\<rparr> f"
    "c = 255 \<or> c = own" "i + length ch \<le> 1024" "i < 1024" "length ch \<le> 6" "length (can_rx_buffer s) = 1024"
  shows "can_process_frame own env t f s = Some (s\<lparr>can_rx_buffer := splice (can_rx_buffer s) i ch\<rparr>)"
proof -
  obtain d where d: "data8 f = of_nat (i div 256) # of_nat (i mod 256) # ch @ d"
    using assms(1) unfolding carries_def
    by (cases "data8 f"; cases "tl (data8 f)") (auto, metis append_take_drop_id)
  have n: "unat (ucast (DLC f) - 2 :: u32) = length ch"
    using dlc_minus [of "length ch + 2" 2] assms(1,5) by (simp add: carries_def)
  have i: "unat (push_bit 8 (ucast (of_nat (i div 256) :: u8)) OR ucast (of_nat (i mod 256) :: u8) :: u32) = i"
    using join_nat [of i] assms(4) by simp
  show ?thesis
    using assms(1-4,6) n d i
    by (auto simp: can_process_frame_def carries_def CAN_PACKET_ID_of_def can_own_frame_def arr_get_def memcpy_def
        RX_BUFFER_SIZE_def PACKET_MAX_PL_LEN_def Let_def)
qed


lemma splice_prefix:
  assumes "take i b = take i data" "i + n \<le> length data" "i + n \<le> length b"
  shows "take (i + n) (splice b i (take n (drop i data))) = take (i + n) data"
  using assms by (simp add: take_add)

lemma fill_frame:
  assumes "length sb = 8" "n \<le> 7" "i + n \<le> length data"
  shows "\<exists>sb'. length sb' = 8 \<and> (do { sb \<leftarrow> arr_set sb 0 b; memcpy sb 1 (drop i data) n }) = Some sb' \<and>
    comm_can_transmit eid sb' (n + 1) = Some \<lparr>tx_EID = eid, tx_data = b # take n (drop i data)\<rparr>"
  using assms by (cases sb) (auto simp: arr_set_def memcpy_def comm_can_transmit_def)

lemma fill_long_frame:
  assumes "length sb = 8" "n \<le> 6" "i + n \<le> length data"
  shows "\<exists>sb'. length sb' = 8 \<and> (do { sb \<leftarrow> arr_set sb 0 b; sb \<leftarrow> arr_set sb 1 c; memcpy sb 2 (drop i data) n }) = Some sb' \<and>
    comm_can_transmit eid sb' (n + 2) = Some \<lparr>tx_EID = eid, tx_data = b # c # take n (drop i data)\<rparr>"
  using assms by (cases sb; cases "tl sb") (auto simp: arr_set_def memcpy_def comm_can_transmit_def)

text \<open>The frames \<open>fs\<close> extend the prefix of \<open>data\<close> in the receive buffer from \<open>i\<close> to \<open>j\<close> bytes.\<close>

definition extends :: "u8 \<Rightarrow> bytes \<Rightarrow> CANTxFrame list \<Rightarrow> nat \<Rightarrow> nat \<Rightarrow> bool" where
  "extends own data fs i j \<longleftrightarrow> (\<forall>rs env t s. list_all2 carries fs rs \<longrightarrow> length (can_rx_buffer s) = 1024 \<longrightarrow>
     take i (can_rx_buffer s) = take i data \<longrightarrow>
     (\<exists>b. run_frames own env t rs s = Some (s\<lparr>can_rx_buffer := b\<rparr>) \<and> length b = 1024 \<and> take j b = take j data))"

lemma extendsD:
  "extends own data fs i j \<Longrightarrow> list_all2 carries fs rs \<Longrightarrow> length (can_rx_buffer s) = 1024 \<Longrightarrow>
   take i (can_rx_buffer s) = take i data \<Longrightarrow>
   \<exists>b. run_frames own env t rs s = Some (s\<lparr>can_rx_buffer := b\<rparr>) \<and> length b = 1024 \<and> take j b = take j data"
  by (simp add: extends_def)

lemma extends_Nil: "extends own data [] i i"
  unfolding extends_def
proof (intro allI impI)
  fix rs env t and s :: can
  assume "list_all2 carries [] rs" "length (can_rx_buffer s) = 1024" "take i (can_rx_buffer s) = take i data"
  then show "\<exists>b. run_frames own env t rs s = Some (s\<lparr>can_rx_buffer := b\<rparr>) \<and> length b = 1024 \<and> take i b = take i data"
    by (intro exI [of _ "can_rx_buffer s"]) simp
qed

lemma extends_append:
  assumes "extends own data fs i j" "extends own data gs j k"
  shows "extends own data (fs @ gs) i k"
  unfolding extends_def
proof (intro allI impI)
  fix rs env t and s :: can
  assume rs: "list_all2 carries (fs @ gs) rs" and s: "length (can_rx_buffer s) = 1024" "take i (can_rx_buffer s) = take i data"
  obtain r1 r2 where r: "rs = r1 @ r2" "list_all2 carries fs r1" "list_all2 carries gs r2"
    using rs by (auto simp: list_all2_append1)
  obtain b1 where b1: "run_frames own env t r1 s = Some (s\<lparr>can_rx_buffer := b1\<rparr>)" "length b1 = 1024" "take j b1 = take j data"
    using extendsD [OF assms(1) r(2) s] by blast
  then obtain b2 where "run_frames own env t r2 (s\<lparr>can_rx_buffer := b1\<rparr>) = Some (s\<lparr>can_rx_buffer := b1\<rparr>\<lparr>can_rx_buffer := b2\<rparr>)"
    "length b2 = 1024" "take k b2 = take k data"
    using extendsD [OF assms(2) r(3), of "s\<lparr>can_rx_buffer := b1\<rparr>" env t] by auto
  then show "\<exists>b. run_frames own env t rs s = Some (s\<lparr>can_rx_buffer := b\<rparr>) \<and> length b = 1024 \<and> take k b = take k data"
    using b1(1) r(1) by (auto simp: run_frames_append)
qed

lemma extends_splice:
  assumes "\<And>rx env t s. carries tx rx \<Longrightarrow> length (can_rx_buffer s) = 1024 \<Longrightarrow>
      can_process_frame own env t rx s = Some (s\<lparr>can_rx_buffer := splice (can_rx_buffer s) i (take n (drop i data))\<rparr>)"
    and "i + n \<le> length data" "length data \<le> 1024"
  shows "extends own data [tx] i (i + n)"
  unfolding extends_def
proof (intro allI impI)
  fix rs env t and s :: can
  assume "list_all2 carries [tx] rs" and s: "length (can_rx_buffer s) = 1024" "take i (can_rx_buffer s) = take i data"
  then obtain r where r: "rs = [r]" "carries tx r" by (auto simp: list_all2_Cons1)
  let ?b = "splice (can_rx_buffer s) i (take n (drop i data))"
  have "length ?b = 1024" "take (i + n) ?b = take (i + n) data"
    using s assms(2,3) splice_prefix [OF s(2) assms(2)] by simp_all
  then show "\<exists>b. run_frames own env t rs s = Some (s\<lparr>can_rx_buffer := b\<rparr>) \<and> length b = 1024 \<and> take (i + n) b = take (i + n) data"
    using assms(1) [OF r(2) s(1)] r(1) by auto
qed

lemma fill_loop_ok:
  assumes "length data \<le> 1024" "c = 255 \<or> c = own" "length sb = 8"
  shows "\<exists>fs e sb'. fill_loop c data (length data) i i sb = Some (fs, e, sb') \<and> length sb' = 8 \<and>
    (length data \<le> e \<or> 255 < e) \<and> extends own data fs (min i (length data)) (min e (length data))"
  using assms(3)
proof (induction "length data - i" arbitrary: i sb rule: less_induct)
  case less
  let ?len = "length data" and ?n = "if i + 7 \<le> length data then 7 else length data - i"
  consider "?len \<le> i" | "i < ?len" "255 < i" | "i < ?len" "i \<le> 255" by linarith
  then show ?case
  proof cases
    case 3
    let ?tx = "\<lparr>tx_EID = can_id c CAN_PACKET_FILL_RX_BUFFER, tx_data = of_nat i # take ?n (drop i data)\<rparr>"
    have n: "?n \<le> 7" "i + ?n \<le> ?len" "i + ?n = min (i + 7) ?len" using 3 by auto
    obtain sb1 where sb1: "length sb1 = 8" "(do { sb \<leftarrow> arr_set sb 0 (of_nat i); memcpy sb 1 (drop i data) ?n }) = Some sb1"
      "comm_can_transmit (can_id c CAN_PACKET_FILL_RX_BUFFER) sb1 (?n + 1) = Some ?tx"
      using fill_frame [OF less.prems n(1,2)] by blast
    obtain fs e sb2 where r: "fill_loop c data ?len (i + 7) (i + 7) sb1 = Some (fs, e, sb2)" "length sb2 = 8"
      "?len \<le> e \<or> 255 < e" "extends own data fs (min (i + 7) ?len) (min e ?len)"
      using less.hyps [OF _ sb1(1), of "i + 7"] 3(1) by fastforce
    have "extends own data [?tx] i (i + ?n)"
      using receive_fill [OF _ assms(2) 3(2)] n(1,2) assms(1) by (intro extends_splice) auto
    then have "extends own data (?tx # fs) (min i ?len) (min e ?len)"
      using extends_append [OF _ r(4)] n(3) 3(1) by fastforce
    moreover have "fill_loop c data ?len i i sb = Some (?tx # fs, e, sb2)"
      using 3 sb1 r(1) by (subst fill_loop.simps) (cases "i + 7 \<le> ?len"; auto simp: Let_def split: bind_splits)
    ultimately show ?thesis using r(2,3) by blast
  qed (use less.prems in \<open>subst fill_loop.simps; auto intro: extends_Nil\<close>)+
qed

lemma fill_long_loop_ok:
  assumes "length data \<le> 1024" "c = 255 \<or> c = own" "length sb = 8"
  shows "\<exists>fs sb'. fill_long_loop c data (length data) i sb = Some (fs, sb') \<and> length sb' = 8 \<and>
    extends own data fs (min i (length data)) (length data)"
  using assms(3)
proof (induction "length data - i" arbitrary: i sb rule: less_induct)
  case less
  let ?len = "length data" and ?n = "if i + 6 \<le> length data then 6 else length data - i"
  show ?case
  proof (cases "i < ?len")
    case True
    let ?tx = "\<lparr>tx_EID = can_id c CAN_PACKET_FILL_RX_BUFFER_LONG,
      tx_data = of_nat (i div 256) # of_nat (i mod 256) # take ?n (drop i data)\<rparr>"
    have n: "?n \<le> 6" "i + ?n \<le> ?len" "i + ?n = min (i + 6) ?len" using True by auto
    obtain sb1 where sb1: "length sb1 = 8"
      "(do { sb \<leftarrow> arr_set sb 0 (of_nat (i div 256)); sb \<leftarrow> arr_set sb 1 (of_nat (i mod 256)); memcpy sb 2 (drop i data) ?n }) = Some sb1"
      "comm_can_transmit (can_id c CAN_PACKET_FILL_RX_BUFFER_LONG) sb1 (?n + 2) = Some ?tx"
      using fill_long_frame [OF less.prems n(1,2)] by blast
    obtain fs sb2 where r: "fill_long_loop c data ?len (i + 6) sb1 = Some (fs, sb2)" "length sb2 = 8"
      "extends own data fs (min (i + 6) ?len) ?len"
      using less.hyps [OF _ sb1(1), of "i + 6"] True by fastforce
    have "extends own data [?tx] i (i + ?n)"
      using receive_fill_long [OF _ assms(2)] n(1,2) assms(1) True by (intro extends_splice) auto
    then have "extends own data (?tx # fs) (min i ?len) ?len"
      using extends_append [OF _ r(3)] n(3) True by fastforce
    moreover have "fill_long_loop c data ?len i sb = Some (?tx # fs, sb2)"
      using True sb1 r(1) by (subst fill_long_loop.simps) (cases "i + 6 \<le> ?len"; auto simp: Let_def split: bind_splits)
    ultimately show ?thesis using r(2) by blast
  qed (use less.prems in \<open>subst fill_long_loop.simps; auto intro: extends_Nil\<close>)
qed


text \<open>The closing frame.\<close>

lemma crc_bytes: "push_bit 8 (ucast (ucast (drop_bit 8 c) :: u8)) OR ucast (ucast (c AND 0xFF) :: u8) = (c :: u16)"
  by (simp add: ucast_low_mask join16)

lemma length_6: "length [a, b, c, d, e, f] = 6"
  by simp

lemma can_packet_ok:
  "unat n = length data \<Longrightarrow> take (length data) b = data \<Longrightarrow>
   can_packet send b n s = Some (event ((if send then Send_packet else Process_packet) data) s)"
  unfolding can_packet_def by (metis length_take min.cobounded1)

lemma receive_process:
  assumes "carries \<lparr>tx_EID = can_id c CAN_PACKET_PROCESS_RX_BUFFER, tx_data = [o', of_bool send, of_nat (length data div 256),
      of_nat (length data mod 256), ucast (drop_bit 8 crc), ucast (crc AND 0xFF)]\<rparr> f"
    "c = 255 \<or> c = own" "length data \<le> 1024" "crc16 data (length data) = Some crc"
    "length (can_rx_buffer s) = 1024" "take (length data) (can_rx_buffer s) = data"
  shows "can_process_frame own env t f s =
    Some (event ((if send then Send_packet else Process_packet) data) (s\<lparr>rx_buffer_last_id := ucast o'\<rparr>))"
proof -
  let ?bs = "[o', of_bool send, of_nat (length data div 256), of_nat (length data mod 256), ucast (drop_bit 8 crc), ucast (crc AND 0xFF)]"
  obtain d where d: "data8 f = ?bs @ d"
    using assms(1) append_take_drop_id [of 6 "data8 f"] unfolding carries_def by (metis CANTxFrame.select_convs(2) length_6)
  have n: "unat (push_bit 8 (ucast (of_nat (length data div 256) :: u8)) OR ucast (of_nat (length data mod 256) :: u8) :: u32) = length data"
    using join_nat [of "length data"] assms(3) by simp
  have "crc16 (can_rx_buffer s) (length data) = Some crc"
    using assms(3-6) by (simp add: crc16_def)
  then have "process_rx_buffer (data8 f) s =
      Some (event ((if send then Send_packet else Process_packet) data) (s\<lparr>rx_buffer_last_id := ucast o'\<rparr>))"
    using assms(3,6) n can_packet_ok [OF n, of "can_rx_buffer s" send] unfolding process_rx_buffer_def d
    by (simp add: arr_get_def Let_def RX_BUFFER_SIZE_def PACKET_MAX_PL_LEN_def crc_bytes)
  then show ?thesis
    using assms(1,2) by (simp add: can_process_frame_def carries_def CAN_PACKET_ID_of_def can_own_frame_def)
qed

lemma receive_short:
  assumes "carries \<lparr>tx_EID = can_id c CAN_PACKET_PROCESS_SHORT_BUFFER, tx_data = o' # of_bool send # data\<rparr> f"
    "c = 255 \<or> c = own" "length data \<le> 6"
  shows "can_process_frame own env t f s =
    Some (event ((if send then Send_packet else Process_packet) data) (s\<lparr>rx_buffer_last_id := ucast o'\<rparr>))"
proof -
  obtain d where d: "data8 f = o' # of_bool send # data @ d"
    using assms(1) unfolding carries_def by (cases "data8 f"; cases "tl (data8 f)") (auto, metis append_take_drop_id)
  have n: "unat (ucast (DLC f) - 2 :: u32) = length data"
    using dlc_minus [of "length data + 2" 2] assms(1,3) by (simp add: carries_def)
  show ?thesis
    using assms(1,2) n d by (auto simp: can_process_frame_def carries_def CAN_PACKET_ID_of_def can_own_frame_def arr_get_def
        can_packet_def event_def)
qed

lemma process_frame:
  assumes "length sb = 8" "length bs = 6"
  shows "\<exists>sb'. arr_put sb 0 bs = Some (sb', 6) \<and> comm_can_transmit eid sb' 6 = Some \<lparr>tx_EID = eid, tx_data = bs\<rparr>"
  using assms by (simp add: arr_put_fits comm_can_transmit_def memcpy_def)

lemma send_short:
  assumes "length sb = 8" "length data \<le> 6"
  shows "comm_can_send_buffer own' c data (length data) send sb =
    Some [\<lparr>tx_EID = can_id c CAN_PACKET_PROCESS_SHORT_BUFFER, tx_data = own' # of_bool send # data\<rparr>]"
  using assms by (cases sb; cases "tl sb") (auto simp: comm_can_send_buffer_def arr_set_def memcpy_def comm_can_transmit_def)

text \<open>C28: A buffer of up to 1024 bytes arrives. \<open>comm_can_send_buffer\<close> cuts it into frames, and a controller that is
  addressed and receives them in order hands exactly the buffer to \<open>commands\<close>, once, and notes the sender,
  whatever its receive buffer held and whatever the unused bytes of the frames are.\<close>

theorem can_buffer_roundtrip:
  assumes "length data \<le> RX_BUFFER_SIZE" "length sb = 8" "c = 255 \<or> c = own" "length (can_rx_buffer s) = RX_BUFFER_SIZE"
  shows "\<exists>fs. comm_can_send_buffer own' c data (length data) send sb = Some fs \<and>
    (\<forall>rs. list_all2 carries fs rs \<longrightarrow> (\<exists>s'. run_frames own env t rs s = Some s' \<and>
       can_events s' = can_events s @ [(if send then Send_packet else Process_packet) data] \<and>
       rx_buffer_last_id s' = ucast own'))"
proof (cases "length data \<le> 6")
  case True
  let ?tx = "\<lparr>tx_EID = can_id c CAN_PACKET_PROCESS_SHORT_BUFFER, tx_data = own' # of_bool send # data\<rparr>"
  have "run_frames own env t rs s = Some (event ((if send then Send_packet else Process_packet) data) (s\<lparr>rx_buffer_last_id := ucast own'\<rparr>))"
    if rs: "list_all2 carries [?tx] rs" for rs
  proof -
    obtain r where r: "rs = [r]" "carries ?tx r" using rs unfolding list_all2_Cons1 by auto
    show ?thesis using receive_short [OF r(2) assms(3) True, of env t s] r(1) by simp
  qed
  then show ?thesis using send_short [OF assms(2) True] by (auto simp: event_def)
next
  case False
  have len: "length data \<le> 1024" "length (can_rx_buffer s) = 1024"
    using assms(1,4) by (simp_all add: RX_BUFFER_SIZE_def PACKET_MAX_PL_LEN_def)
  obtain fs1 e sb1 where 1: "fill_loop c data (length data) 0 0 sb = Some (fs1, e, sb1)" "length sb1 = 8"
    "extends own data fs1 0 (min e (length data))"
    using fill_loop_ok [OF len(1) assms(3,2), of 0] by auto
  obtain fs2 sb2 where 2: "fill_long_loop c data (length data) e sb1 = Some (fs2, sb2)" "length sb2 = 8"
    "extends own data fs2 (min e (length data)) (length data)"
    using fill_long_loop_ok [OF len(1) assms(3) 1(2), of e] by auto
  obtain crc where crc: "crc16 data (length data) = Some crc" by (simp add: crc16_def)
  let ?bs = "[own', of_bool send, of_nat (length data div 256), of_nat (length data mod 256), ucast (drop_bit 8 crc), ucast (crc AND 0xFF)]"
  let ?tx = "\<lparr>tx_EID = can_id c CAN_PACKET_PROCESS_RX_BUFFER, tx_data = ?bs\<rparr>"
  obtain sb3 where 3: "arr_put sb2 0 ?bs = Some (sb3, 6)"
    "comm_can_transmit (can_id c CAN_PACKET_PROCESS_RX_BUFFER) sb3 6 = Some ?tx"
    using process_frame [OF 2(2), of ?bs] by auto
  have send: "comm_can_send_buffer own' c data (length data) send sb = Some (fs1 @ fs2 @ [?tx])"
    using False 1(1) 2(1) 3 crc unfolding comm_can_send_buffer_def by (simp del: arr_put.simps)
  have ext: "extends own data (fs1 @ fs2) 0 (length data)" by (rule extends_append [OF 1(3) 2(3)])
  have "\<exists>s'. run_frames own env t rs s = Some s' \<and>
      can_events s' = can_events s @ [(if send then Send_packet else Process_packet) data] \<and> rx_buffer_last_id s' = ucast own'"
    if rs: "list_all2 carries (fs1 @ fs2 @ [?tx]) rs" for rs
  proof -
    obtain r1 r where r: "rs = r1 @ [r]" "list_all2 carries (fs1 @ fs2) r1" "carries ?tx r"
      using rs unfolding append_assoc [symmetric] list_all2_append1 by (auto simp: list_all2_Cons1)
    obtain b where b: "run_frames own env t r1 s = Some (s\<lparr>can_rx_buffer := b\<rparr>)" "length b = 1024" "take (length data) b = data"
      using extendsD [OF ext r(2) len(2), of env t] by auto
    have "can_process_frame own env t r (s\<lparr>can_rx_buffer := b\<rparr>) =
        Some (event ((if send then Send_packet else Process_packet) data) (s\<lparr>can_rx_buffer := b, rx_buffer_last_id := ucast own'\<rparr>))"
      by (rule receive_process [OF r(3) assms(3) len(1) crc]) (simp_all add: b(2,3))
    then show ?thesis using b(1) r(1) by (simp add: run_frames_append event_def)
  qed
  then show ?thesis using send by blast
qed


section \<open>Undefined frames\<close>

text \<open>The frames that make the process thread access memory outside its arrays: a length code below the bytes the
  command needs or above 8, and a long fill frame that starts inside the receive buffer and ends outside.\<close>

definition bad_frame :: "u8 \<Rightarrow> CANRxFrame \<Rightarrow> bool" where
  "bad_frame own f \<longleftrightarrow> IDE f \<and> (ucast (EID f AND 0xFF) = (255 :: u8) \<or> ucast (EID f AND 0xFF) = own) \<and>
     (case CAN_PACKET_ID_of (ucast (drop_bit 8 (EID f))) of
        CAN_PACKET_FILL_RX_BUFFER \<Rightarrow> unat (DLC f) < 1 \<or> 8 < unat (DLC f)
      | CAN_PACKET_FILL_RX_BUFFER_LONG \<Rightarrow>
          (let i = 256 * unat (data8 f ! 0) + unat (data8 f ! 1) in
           i < 1024 \<and> (unat (DLC f) < 2 \<or> 8 < unat (DLC f) \<or> 1024 < i + unat (DLC f) - 2))
      | CAN_PACKET_PROCESS_SHORT_BUFFER \<Rightarrow> unat (DLC f) < 2 \<or> 8 < unat (DLC f)
      | _ \<Rightarrow> False)"

lemma byte_less: "unat (b :: u8) < 256"
  using unsigned_less [where 'a = nat and w = b] by simp

lemma dlc_sub: "unat (ucast d - of_nat k :: u32) = (if k \<le> unat d then unat d - k else 2 ^ 32 - k + unat d)" if "k \<le> 2"
  for d :: u8
proof (cases "k \<le> unat d")
  case True
  have "(ucast d - of_nat k :: u32) = of_nat (unat d - k)" using True by (simp add: of_nat_diff)
  then show ?thesis using True u32_of_nat [of "unat d - k"] byte_less [of d] by simp
next
  case False
  have "(ucast d - of_nat k :: u32) = of_nat (2 ^ 32 - k + unat d)"
    using that False by (simp add: of_nat_diff)
  moreover have "2 ^ 32 - k + unat d < 2 ^ 32" using False that by simp
  ultimately show ?thesis using False u32_of_nat by (metis (no_types))
qed

lemma join_bytes: "unat (push_bit 8 (ucast h) OR ucast l :: u32) = 256 * unat h + unat l" for h l :: u8
proof -
  have n: "256 * unat h + unat l < 65536" using byte_less [of h] byte_less [of l] by linarith
  have h: "(256 * unat h + unat l) div 256 = unat h" "(256 * unat h + unat l) mod 256 = unat l"
    using byte_less [of l] by simp_all
  show ?thesis using join_nat [OF n] unfolding h by simp
qed


text \<open>Exactly these frames are dangerous: any other frame, in any state of the thread, is processed without an access
  outside the arrays.\<close>

theorem can_undefined_frames:
  assumes "length (data8 f) = 8" "length (can_rx_buffer s) = RX_BUFFER_SIZE"
  shows "can_process_frame own env t f s = None \<longleftrightarrow> bad_frame own f"
proof -
  obtain d0 d1 d2 where d: "data8 f = d0 # d1 # d2" "length d2 = 6"
    using assms(1) by (cases "data8 f"; cases "tl (data8 f)") auto
  let ?cmd = "CAN_PACKET_ID_of (ucast (drop_bit 8 (EID f)))"
  have st: "can_status_frame t i f s' \<noteq> None" for i s'
    using assms(1) by (auto simp: can_status_frame_def buffer_get_int32_def buffer_get_int16_def arr_get_def split: option.split)
  have sub: "unat (ucast (DLC f) - 1 :: u32) = (if 1 \<le> unat (DLC f) then unat (DLC f) - 1 else 2 ^ 32 - 1 + unat (DLC f))"
    "unat (ucast (DLC f) - 2 :: u32) = (if 2 \<le> unat (DLC f) then unat (DLC f) - 2 else 2 ^ 32 - 2 + unat (DLC f))"
    using dlc_sub [of 1 "DLC f"] dlc_sub [of 2 "DLC f"] by simp_all
  have "crc16 (can_rx_buffer s) n = None \<longleftrightarrow> 1024 < n" for n
    using assms(2) by (auto simp: crc16_def RX_BUFFER_SIZE_def PACKET_MAX_PL_LEN_def)
  then have rx: "process_rx_buffer (data8 f) s \<noteq> None"
    using assms by (auto simp: process_rx_buffer_def arr_get_def can_packet_def Let_def RX_BUFFER_SIZE_def PACKET_MAX_PL_LEN_def
        split: bind_splits)
  have own: "can_own_frame env t ?cmd f s = None \<longleftrightarrow>
     (case ?cmd of
        CAN_PACKET_FILL_RX_BUFFER \<Rightarrow> unat (DLC f) < 1 \<or> 8 < unat (DLC f)
      | CAN_PACKET_FILL_RX_BUFFER_LONG \<Rightarrow>
          (let i = 256 * unat (data8 f ! 0) + unat (data8 f ! 1) in
           i < 1024 \<and> (unat (DLC f) < 2 \<or> 8 < unat (DLC f) \<or> 1024 < i + unat (DLC f) - 2))
      | CAN_PACKET_PROCESS_SHORT_BUFFER \<Rightarrow> unat (DLC f) < 2 \<or> 8 < unat (DLC f)
      | _ \<Rightarrow> False)"
  proof (cases ?cmd)
    case CAN_PACKET_FILL_RX_BUFFER
    have "unat d0 + 7 \<le> 1024" using byte_less [of d0] by simp
    then show ?thesis
      using CAN_PACKET_FILL_RX_BUFFER d assms(2) byte_less [of d0] sub(1)
      by (auto simp: can_own_frame_def arr_get_def memcpy_def RX_BUFFER_SIZE_def PACKET_MAX_PL_LEN_def)
  next
    case CAN_PACKET_FILL_RX_BUFFER_LONG
    then show ?thesis
      using d assms(2) sub(2)
      by (auto simp: can_own_frame_def arr_get_def memcpy_def RX_BUFFER_SIZE_def PACKET_MAX_PL_LEN_def join_bytes Let_def)
  next
    case CAN_PACKET_PROCESS_SHORT_BUFFER
    then show ?thesis
      using d sub(2) by (auto simp: can_own_frame_def arr_get_def can_packet_def)
  qed (use d rx in \<open>simp_all add: can_own_frame_def arr_get_def buffer_get_int32_def\<close>)
  show ?thesis
    using own st by (auto simp: can_process_frame_def bad_frame_def Let_def split: bind_splits)
qed


section \<open>The ring of received frames\<close>

text \<open>Processing a frame does not look at the ring.\<close>

lemma own_frame_ring:
  "can_own_frame env t cmd f (s\<lparr>rx_frame_read := k\<rparr>) = map_option (rx_frame_read_update (\<lambda>_. k)) (can_own_frame env t cmd f s)"
  by (cases cmd) (auto simp: can_own_frame_def process_rx_buffer_def can_packet_def can_command_def event_def Let_def
      split: bind_splits)

lemma status_frame_ring:
  "can_status_frame t i f (s\<lparr>rx_frame_read := k\<rparr>) = map_option (rx_frame_read_update (\<lambda>_. k)) (can_status_frame t i f s)"
  by (auto simp: can_status_frame_def split: option.splits bind_splits)

lemma frame_read:
  "can_process_frame own env t f (s\<lparr>rx_frame_read := k\<rparr>) = map_option (rx_frame_read_update (\<lambda>_. k)) (can_process_frame own env t f s)"
  by (auto simp: can_process_frame_def own_frame_ring status_frame_ring Let_def map_option_case split: option.splits bind_splits)

lemma run_frames_read:
  "run_frames own env t fs (s\<lparr>rx_frame_read := k\<rparr>) = map_option (rx_frame_read_update (\<lambda>_. k)) (run_frames own env t fs s)"
  by (induction fs arbitrary: s) (auto simp: frame_read map_option_case split: option.splits bind_splits)

lemma own_frame_keeps:
  "can_own_frame env t cmd f s = Some s' \<Longrightarrow>
   rx_frames s' = rx_frames s \<and> rx_frame_read s' = rx_frame_read s \<and> rx_frame_write s' = rx_frame_write s \<and>
   stat_msgs s' = stat_msgs s"
  by (cases cmd) (auto simp: can_own_frame_def process_rx_buffer_def can_packet_def can_command_def event_def Let_def
      split: bind_splits if_splits)

lemma status_frame_keeps:
  "can_status_frame t i f s = Some s' \<Longrightarrow>
   rx_frames s' = rx_frames s \<and> rx_frame_read s' = rx_frame_read s \<and> rx_frame_write s' = rx_frame_write s"
  by (auto simp: can_status_frame_def split: option.splits bind_splits)

lemma frame_keeps:
  assumes "can_process_frame own env t f s = Some s'"
  shows "rx_frames s' = rx_frames s \<and> rx_frame_read s' = rx_frame_read s \<and> rx_frame_write s' = rx_frame_write s"
  using assms
  by (fastforce simp: can_process_frame_def Let_def dest: own_frame_keeps status_frame_keeps split: if_splits bind_splits)

text \<open>The frames between two positions of the ring, counted without wrapping around.\<close>

definition ring_holds :: "can \<Rightarrow> (nat \<Rightarrow> CANRxFrame) \<Rightarrow> nat \<Rightarrow> nat \<Rightarrow> bool" where
  "ring_holds s g p q \<longleftrightarrow> length (rx_frames s) = 100 \<and> rx_frame_write s = q mod 100 \<and>
     (\<forall>j. p \<le> j \<and> j < q \<longrightarrow> rx_frames s ! (j mod 100) = g j)"

lemma mod_100_neq: "j < n \<Longrightarrow> n - j < 100 \<Longrightarrow> (j :: nat) mod 100 \<noteq> n mod 100"
  by (metis less_numeral_extra(3) mod_eq_dvd_iff_nat less_imp_le nat_dvd_not_less zero_less_diff)

lemma suc_mod_100: "Suc p mod 100 = (if Suc (p mod 100) = 100 then 0 else Suc (p mod 100))"
  by (simp add: mod_Suc)

lemma read_thread_ring:
  assumes "ring_holds s g p q"
  shows "\<exists>s'. cancom_read_thread (g q) s = Some s' \<and> ring_holds s' g (max p (Suc q - 100)) (Suc q) \<and> rx_frame_read s' = rx_frame_read s"
proof -
  let ?s = "s\<lparr>rx_frames := (rx_frames s)[q mod 100 := g q], rx_frame_write := Suc q mod 100\<rparr>"
  have "cancom_read_thread (g q) s = Some ?s"
    using assms by (simp add: cancom_read_thread_def arr_set_def ring_holds_def Let_def suc_mod_100 RX_FRAMES_SIZE_def)
  moreover have "(rx_frames s)[q mod 100 := g q] ! (j mod 100) = g j" if "max p (Suc q - 100) \<le> j" "j < Suc q" for j
  proof (cases "j = q")
    case False
    then have "j mod 100 \<noteq> q mod 100" using that by (intro mod_100_neq) auto
    then show ?thesis using assms that False by (auto simp: ring_holds_def)
  qed (use assms in \<open>simp add: ring_holds_def\<close>)
  ultimately show ?thesis using assms by (intro exI [of _ ?s]) (auto simp: ring_holds_def)
qed

fun receive_frames :: "CANRxFrame list \<Rightarrow> can \<Rightarrow> can option" where
  "receive_frames [] s = Some s"
| "receive_frames (f # fs) s = do { s \<leftarrow> cancom_read_thread f s; receive_frames fs s }"

lemma receive_frames_ring:
  assumes "ring_holds s g p q" "\<forall>i<length fs. g (q + i) = fs ! i"
  shows "\<exists>s'. receive_frames fs s = Some s' \<and> ring_holds s' g (max p (q + length fs - 100)) (q + length fs) \<and>
    rx_frame_read s' = rx_frame_read s"
  using assms
proof (induction fs arbitrary: s p q)
  case Nil
  have "ring_holds s g (max p (q - 100)) q" using Nil.prems(1) by (auto simp: ring_holds_def)
  then show ?case by simp
next
  case (Cons f fs)
  have "g q = f" using Cons.prems(2) by auto
  then obtain s1 where s1: "cancom_read_thread f s = Some s1" "ring_holds s1 g (max p (Suc q - 100)) (Suc q)" "rx_frame_read s1 = rx_frame_read s"
    using read_thread_ring [OF Cons.prems(1)] by auto
  have "\<forall>i<length fs. g (Suc q + i) = fs ! i" using Cons.prems(2) by force
  from Cons.IH [OF s1(2) this] obtain s' where s': "receive_frames fs s1 = Some s'"
    "ring_holds s' g (max (max p (Suc q - 100)) (Suc q + length fs - 100)) (Suc q + length fs)" "rx_frame_read s' = rx_frame_read s1"
    by blast
  have "max (max p (Suc q - 100)) (Suc q + length fs - 100) = max p (q + length (f # fs) - 100)" by auto
  then show ?case using s' s1 by auto
qed

lemma process_thread_ring:
  assumes "ring_holds s g p q" "rx_frame_read s = p mod 100" "p \<le> q" "q - p < 100" "q - p \<le> n"
  shows "cancom_process_thread n own env t s =
    map_option (rx_frame_read_update (\<lambda>_. q mod 100)) (run_frames own env t (map g [p..<q]) s)"
  using assms
proof (induction n arbitrary: s p)
  case 0
  then show ?case by (simp add: ring_holds_def)
next
  case (Suc n)
  show ?case
  proof (cases "p = q")
    case True
    then show ?thesis using Suc.prems by (simp add: ring_holds_def)
  next
    case False
    then have lt: "p < q" using Suc.prems(3) by simp
    have ne: "rx_frame_read s \<noteq> rx_frame_write s"
      using mod_100_neq [OF lt Suc.prems(4)] Suc.prems(1,2) by (simp add: ring_holds_def)
    have get: "arr_get (rx_frames s) (rx_frame_read s) = Some (g p)"
      using Suc.prems(1,2) lt by (simp add: ring_holds_def arr_get_def)
    have up: "[p..<q] = p # [Suc p..<q]" using lt by (rule upt_conv_Cons)
    show ?thesis
    proof (cases "can_process_frame own env t (g p) s")
      case None
      then show ?thesis using ne get up by (simp add: process_step_def frame_read)
    next
      case (Some s1)
      note k = frame_keeps [OF Some]
      let ?s2 = "s1\<lparr>rx_frame_read := Suc p mod 100\<rparr>"
      have "process_step own env t s = Some ?s2"
        using get Some Suc.prems(2) by (simp add: process_step_def frame_read RX_FRAMES_SIZE_def suc_mod_100)
      moreover have "ring_holds ?s2 g (Suc p) q" using Suc.prems(1) k by (simp add: ring_holds_def)
      then have "cancom_process_thread n own env t ?s2 =
          map_option (rx_frame_read_update (\<lambda>_. q mod 100)) (run_frames own env t (map g [Suc p..<q]) ?s2)"
        using Suc.prems lt by (intro Suc.IH) auto
      ultimately show ?thesis using ne up Some by (simp add: run_frames_read option.map_comp comp_def)
    qed
  qed
qed

text \<open>The ring between the two threads. When \<open>n\<close> frames arrive while the process thread does not run, then it processes the
  last \<open>n mod 100\<close> of them in order and no other: up to 99 waiting frames are a queue, and every
  further hundred is lost without a trace.\<close>

theorem can_ring_keeps_remainder:
  assumes "length (rx_frames s) = RX_FRAMES_SIZE" "rx_frame_write s < RX_FRAMES_SIZE" "rx_frame_read s = rx_frame_write s"
  shows "\<exists>s'. receive_frames fs s = Some s' \<and>
    cancom_process_thread RX_FRAMES_SIZE own env t s' =
      map_option (rx_frame_read_update (\<lambda>_. rx_frame_write s'))
        (run_frames own env t (drop (length fs - length fs mod RX_FRAMES_SIZE) fs) s')"
proof -
  define w where "w = rx_frame_write s"
  define g where "g j = fs ! (j - w)" for j
  let ?n = "length fs" and ?m = "length fs - length fs mod 100"
  have "ring_holds s g w w" using assms by (auto simp: ring_holds_def w_def RX_FRAMES_SIZE_def)
  from receive_frames_ring [OF this, of fs] obtain s' where s': "receive_frames fs s = Some s'"
    "ring_holds s' g (max w (w + ?n - 100)) (w + ?n)" "rx_frame_read s' = w"
    using assms(3) by (auto simp: g_def w_def)
  have m: "?m mod 100 = 0" by (simp add: minus_mod_eq_mult_div)
  have r: "?n mod 100 < 100" "?n mod 100 \<le> ?n" by simp_all
  have "max w (w + ?n - 100) \<le> j" if "w + ?m \<le> j" for j using that r by linarith
  then have "ring_holds s' g (w + ?m) (w + ?n)" using s'(2) unfolding ring_holds_def by blast
  moreover have "(w + ?m) mod 100 = w" using m assms(2) by (metis RX_FRAMES_SIZE_def add.right_neutral mod_add_right_eq mod_less w_def)
  moreover have "map g [w + ?m..<w + ?n] = drop ?m fs"
    by (rule nth_equalityI) (auto simp: g_def)
  ultimately have "cancom_process_thread 100 own env t s' =
      map_option (rx_frame_read_update (\<lambda>_. (w + ?n) mod 100)) (run_frames own env t (drop ?m fs) s')"
    using process_thread_ring [of s' g "w + ?m" "w + ?n" 100 own env t] s'(3) by (simp add: mod_less_divisor less_imp_le)
  then show ?thesis using s' by (simp add: RX_FRAMES_SIZE_def ring_holds_def)
qed



section \<open>The status table\<close>

text \<open>The table between messages: the senders seen so far, all different, then the unused entries.\<close>

fun stat_ok :: "can_status_msg list \<Rightarrow> bool" where
  "stat_ok [] = True"
| "stat_ok (m # ms) = (if csm_id m = -1 then \<forall>x\<in>set ms. csm_id x = -1 else stat_ok ms \<and> csm_id m \<notin> csm_id ` set ms)"

lemma stat_slot_None: "stat_slot i ms = None \<longleftrightarrow> i \<notin> csm_id ` set ms \<and> -1 \<notin> csm_id ` set ms"
  by (induction ms) auto

lemma stat_slot_update:
  assumes "stat_slot i ms = Some k" "stat_ok ms" "csm_id new = i" "i \<noteq> -1"
  shows "stat_ok (ms[k := new]) \<and> find (\<lambda>m. csm_id m = i) (ms[k := new]) = Some new \<and>
    (\<forall>j. j \<noteq> -1 \<longrightarrow> j \<noteq> i \<longrightarrow> find (\<lambda>m. csm_id m = j) (ms[k := new]) = find (\<lambda>m. csm_id m = j) ms) \<and>
    csm_id ` set (ms[k := new]) \<subseteq> insert i (csm_id ` set ms)"
  using assms
proof (induction ms arbitrary: k)
  case (Cons m ms)
  show ?case
  proof (cases "csm_id m = i \<or> csm_id m = -1")
    case True
    have "stat_ok ms" if "\<forall>x\<in>set ms. csm_id x = -1" using that by (induction ms) auto
    then show ?thesis using True Cons.prems by (auto simp: image_iff)
  next
    case False
    then obtain k' where k': "k = Suc k'" "stat_slot i ms = Some k'" using Cons.prems(1) by auto
    have "stat_ok ms" "csm_id m \<notin> csm_id ` set ms" using Cons.prems(2) False by auto
    then show ?thesis using Cons.IH [OF k'(2)] Cons.prems(3,4) False k'(1) by auto
  qed
qed simp

text \<open>C37: A status message arrives. What the status thread of one controller sends puts speed, current and duty cycle, rounded
  to the units of the message, into the receiver's table under the sender's identifier, whenever
  the sender is already in the table or an entry is free; the entries of the other senders stay and
  no sender has two. With a full table the message of a new sender is dropped.\<close>

theorem can_status_roundtrip:
  assumes "cancom_status_thread conf env' m = Some ([tx], slp)" "carries tx f" "stat_ok (stat_msgs s)"
  shows "\<exists>s'. can_process_frame own env t f s = Some s' \<and> stat_ok (stat_msgs s') \<and>
    (\<forall>j. j \<noteq> -1 \<longrightarrow> j \<noteq> uint (controller_id conf) \<longrightarrow> comm_can_get_status_msg_id j s' = comm_can_get_status_msg_id j s) \<and>
    (if uint (controller_id conf) \<in> csm_id ` set (stat_msgs s) \<or> -1 \<in> csm_id ` set (stat_msgs s)
     then comm_can_get_status_msg_id (uint (controller_id conf)) s' =
       Some \<lparr>csm_id = uint (controller_id conf), csm_rx_time = t,
         csm_rpm = fl (of_int (ftrunc (mc_interface_get_rpm env' m))),
         csm_current = fl (fl (of_int (ftrunc (fl (mc_interface_get_tot_current env' m * 10)))) / 10),
         csm_duty = fl (fl (of_int (ftrunc (fl (mc_interface_get_duty_cycle_now env' m * 1000)))) / 1000)\<rparr>
     else stat_msgs s' = stat_msgs s)"
proof -
  let ?i = "uint (controller_id conf)"
  obtain rpm cur duty where v: "f2i32 (mc_interface_get_rpm env' m) = Some rpm"
      "f2i16 (fl (mc_interface_get_tot_current env' m * 10)) = Some cur"
      "f2i16 (fl (mc_interface_get_duty_cycle_now env' m * 1000)) = Some duty"
    and tx: "tx = \<lparr>tx_EID = can_id (controller_id conf) CAN_PACKET_STATUS, tx_data = enc32 rpm @ enc16 cur @ enc16 duty\<rparr>"
    using assms(1) by (auto simp: cancom_status_thread_def buffer_append_int32_def buffer_append_int16_def arr_put_fits
        comm_can_transmit_def memcpy_def enc32_def enc16_def Let_def simp del: arr_put.simps split: bind_splits if_splits)
  have s: "sint rpm = ftrunc (mc_interface_get_rpm env' m)" "sint cur = ftrunc (fl (mc_interface_get_tot_current env' m * 10))"
    "sint duty = ftrunc (fl (mc_interface_get_duty_cycle_now env' m * 1000))"
    using v by (auto dest: sint_f2i32 sint_f2i16)
  have d: "data8 f = enc32 rpm @ enc16 cur @ enc16 duty" using assms(2) tx by (auto simp: carries_def enc32_def enc16_def)
  let ?new = "\<lparr>csm_id = ?i, csm_rx_time = t, csm_rpm = fl (of_int (sint rpm)),
      csm_current = fl (fl (of_int (sint cur)) / 10), csm_duty = fl (fl (of_int (sint duty)) / 1000)\<rparr>"
  have p: "can_process_frame own env t f s =
      (case stat_slot ?i (stat_msgs s) of None \<Rightarrow> Some s | Some k \<Rightarrow> Some (s\<lparr>stat_msgs := (stat_msgs s)[k := ?new]\<rparr>))"
    using assms(2) tx d by (auto simp: can_process_frame_def carries_def CAN_PACKET_ID_of_def can_own_frame_def can_status_frame_def
        buffer_get_int32_def buffer_get_int16_def arr_get_def enc32_def enc16_def byte_join Let_def split: option.split)
  have i: "?i \<noteq> -1" using uint_ge_0 [of "controller_id conf"] by linarith
  show ?thesis
  proof (cases "stat_slot ?i (stat_msgs s)")
    case None
    then have "can_process_frame own env t f s = Some s" using p by simp
    then show ?thesis using None assms(3) stat_slot_None [of ?i "stat_msgs s"] by auto
  next
    case (Some k)
    note u = stat_slot_update [OF Some assms(3), of ?new, OF _ i]
    have "?i \<in> csm_id ` set (stat_msgs s) \<or> -1 \<in> csm_id ` set (stat_msgs s)" using Some stat_slot_None [of ?i "stat_msgs s"] by auto
    then show ?thesis using p Some u by (simp add: comm_can_get_status_msg_id_def s)
  qed
qed


section \<open>Witnesses\<close>

definition can_start :: can where
  "can_start = \<lparr>stat_msgs = replicate 10 \<lparr>csm_id = -1, csm_rx_time = 0, csm_rpm = 0, csm_current = 0, csm_duty = 0\<rparr>,
     can_rx_buffer = replicate 1024 0, rx_buffer_last_id = 0, rx_frames = replicate 100 \<lparr>IDE = False, EID = 0, DLC = 0, data8 = replicate 8 0\<rparr>,
     rx_frame_read = 0, rx_frame_write = 0, can_mc = mcif_start, can_tout = timeout_init, can_events = []\<rparr>"

lemma stat_ok_unused: "csm_id m = -1 \<Longrightarrow> stat_ok (replicate n m)"
  by (cases n) auto

lemma can_start_simps [simp]:
  "length (can_rx_buffer can_start) = RX_BUFFER_SIZE" "length (rx_frames can_start) = RX_FRAMES_SIZE"
  "rx_frame_write can_start = 0" "rx_frame_read can_start = 0" "can_events can_start = []"
  "stat_ok (stat_msgs can_start)" "csm_id ` set (stat_msgs can_start) = {-1}"
  by (simp_all add: can_start_def RX_BUFFER_SIZE_def PACKET_MAX_PL_LEN_def RX_FRAMES_SIZE_def stat_ok_unused)

definition rx_of :: "CANTxFrame \<Rightarrow> CANRxFrame" where
  "rx_of tx = \<lparr>IDE = True, EID = tx_EID tx, DLC = of_nat (length (tx_data tx)), data8 = tx_data tx @ replicate (8 - length (tx_data tx)) 0xAA\<rparr>"

lemma carries_rx_of: "length (tx_data tx) \<le> 8 \<Longrightarrow> carries tx (rx_of tx)"
  by (simp add: carries_def rx_of_def)

theorem can_buffer_roundtrip_witness:
  "\<exists>fs. comm_can_send_buffer 3 7 (replicate 300 42) 300 True (replicate 8 0) = Some fs \<and>
    (\<forall>rs. list_all2 carries fs rs \<longrightarrow>
       (\<exists>s'. run_frames 7 rest 0 rs can_start = Some s' \<and> can_events s' = [Send_packet (replicate 300 42)]))"
  using can_buffer_roundtrip [of "replicate 300 42" "replicate 8 0" 7 7 can_start 3 True rest 0]
  by (simp add: RX_BUFFER_SIZE_def PACKET_MAX_PL_LEN_def) blast

theorem can_undefined_frames_witness:
  "can_process_frame 7 rest 0 \<lparr>IDE = True, EID = 0x607, DLC = 8, data8 = [3, 0xFE, 1, 2, 3, 4, 5, 6]\<rparr> can_start = None"
proof -
  have "bad_frame 7 \<lparr>IDE = True, EID = 0x607, DLC = 8, data8 = [3, 0xFE, 1, 2, 3, 4, 5, 6]\<rparr>"
    by (simp add: bad_frame_def CAN_PACKET_ID_of_def)
  then show ?thesis
    using can_undefined_frames [of "\<lparr>IDE = True, EID = 0x607, DLC = 8, data8 = [3, 0xFE, 1, 2, 3, 4, 5, 6]\<rparr>" can_start 7 rest 0]
    by simp
qed

theorem can_ring_keeps_remainder_witness:
  "\<exists>s'. receive_frames (replicate 100 (rx_of \<lparr>tx_EID = 0x107, tx_data = [0, 0, 4, 0]\<rparr>)) can_start = Some s' \<and>
    cancom_process_thread RX_FRAMES_SIZE 7 rest 0 s' = Some (s'\<lparr>rx_frame_read := rx_frame_write s'\<rparr>)"
  using can_ring_keeps_remainder [of can_start "replicate 100 (rx_of \<lparr>tx_EID = 0x107, tx_data = [0, 0, 4, 0]\<rparr>)" 7 rest 0]
  by (simp add: RX_FRAMES_SIZE_def)

definition status_conf :: app_configuration where
  "status_conf = conf_general_get_default_app_configuration\<lparr>send_can_status := True, send_can_status_rate_hz := 100, controller_id := 5\<rparr>"

lemma replicate_8: "replicate 8 x = [x, x, x, x, x, x, x, x]"
  by (simp add: numeral_eq_Suc)

theorem can_status_roundtrip_witness:
  "\<exists>tx slp s'. cancom_status_thread status_conf rest mcif_start = Some ([tx], slp) \<and>
    can_process_frame 7 rest 9 (rx_of tx) can_start = Some s' \<and>
    comm_can_get_status_msg_id 5 s' = Some \<lparr>csm_id = 5, csm_rx_time = 9, csm_rpm = 0, csm_current = 0, csm_duty = 0\<rparr>"
proof -
  let ?tx = "\<lparr>tx_EID = can_id 5 CAN_PACKET_STATUS, tx_data = replicate 8 0\<rparr>"
  have z: "mc_interface_get_rpm rest mcif_start = 0" "mc_interface_get_tot_current rest mcif_start = 0"
    "mc_interface_get_duty_cycle_now rest mcif_start = 0"
    by (simp_all add: mc_interface_get_rpm_def mc_interface_get_tot_current_def mc_interface_get_duty_cycle_now_def read_drv_def
        now_def rest_def split: option.split)
  have 1: "cancom_status_thread status_conf rest mcif_start = Some ([?tx], 100)"
    by (simp add: cancom_status_thread_def z status_conf_def f2i32_def f2i16_def ftrunc_def buffer_append_int32_def buffer_append_int16_def
        arr_put_fits comm_can_transmit_def memcpy_def CH_CFG_ST_FREQUENCY_def replicate_8 del: arr_put.simps)
  have "carries ?tx (rx_of ?tx)" by (rule carries_rx_of) simp
  from can_status_roundtrip [OF 1 this, of can_start 7 rest 9] 1
  show ?thesis by (auto simp: z ftrunc_def status_conf_def)
qed

end
