(* ===== verification/ConfCodec.thy ===== *)
theory ConfCodec
  imports Datatypes Buffer
begin

text \<open>
  The wire format of the two configurations in \<open>commands.c\<close>: the chains of stores that answer \<open>COMM_GET_MCCONF\<close> and
  \<open>COMM_GET_APPCONF\<close>, and the chains of loads of \<open>COMM_SET_MCCONF\<close> and \<open>COMM_SET_APPCONF\<close>, one entry per
  statement, in the order of the source. The lists of stores and loads are independent of each other,
  as in the source; that they fit is the result of this theory.

  \<open>buffer_append_int32(b, (int32_t)(x * s), &ind)\<close> and \<open>buffer_append_float32(b, x, s, &ind)\<close> are the same
  computation and both \<^term>\<open>w_f32 x s\<close>; \<open>(float)buffer_get_int32(d, &ind) / s\<close> and \<open>buffer_get_float32(d, s, &ind)\<close> are
  both a load \<open>r_f32 s\<close>.
\<close>

section \<open>Loads\<close>

text \<open>A load reads a field at the index and updates the structure.\<close>

type_synonym 'c reader = "bytes \<Rightarrow> nat \<Rightarrow> 'c \<Rightarrow> ('c \<times> nat) option"

fun get_seq :: "'c reader list \<Rightarrow> 'c reader" where
  "get_seq [] data ind c = Some (c, ind)"
| "get_seq (r # rs) data ind c = do { (c', ind') \<leftarrow> r data ind c; get_seq rs data ind' c' }"

definition r_u8 :: "(u8 \<Rightarrow> 'c \<Rightarrow> 'c) \<Rightarrow> 'c reader" where
  "r_u8 f data ind c = do { (b, ind') \<leftarrow> get_u8 data ind; Some (f b c, ind') }"
definition r_u16 :: "(u16 \<Rightarrow> 'c \<Rightarrow> 'c) \<Rightarrow> 'c reader" where
  "r_u16 f data ind c = do { (n, ind') \<leftarrow> buffer_get_uint16 data ind; Some (f n c, ind') }"
definition r_i32 :: "(u32 \<Rightarrow> 'c \<Rightarrow> 'c) \<Rightarrow> 'c reader" where
  "r_i32 f data ind c = do { (n, ind') \<leftarrow> buffer_get_int32 data ind; Some (f n c, ind') }"
definition r_u32 :: "(u32 \<Rightarrow> 'c \<Rightarrow> 'c) \<Rightarrow> 'c reader" where
  "r_u32 f data ind c = do { (n, ind') \<leftarrow> buffer_get_uint32 data ind; Some (f n c, ind') }"
definition r_f32 :: "real \<Rightarrow> (real \<Rightarrow> 'c \<Rightarrow> 'c) \<Rightarrow> 'c reader" where
  "r_f32 s f data ind c = do { (x, ind') \<leftarrow> buffer_get_float32 data s ind; Some (f x c, ind') }"

text \<open>\<open>memcpy(field, data + ind, n); ind += n\<close>, and an assignment that reads no data.\<close>

definition r_bytes :: "nat \<Rightarrow> (bytes \<Rightarrow> 'c \<Rightarrow> 'c) \<Rightarrow> 'c reader" where
  "r_bytes n f data ind c = (if ind + n \<le> length data then Some (f (take n (drop ind data)) c, ind + n) else None)"
definition r_set :: "('c \<Rightarrow> 'c) \<Rightarrow> 'c reader" where
  "r_set f data ind c = Some (f c, ind)"

text \<open>\<open>memcpy(buffer + ind, field, n); ind += n\<close>.\<close>

definition w_bytes :: "bytes \<Rightarrow> nat \<Rightarrow> writer" where
  "w_bytes bs n buf ind = do { buf' \<leftarrow> memcpy buf ind bs n; Some (buf', ind + n) }"

section \<open>The two formats\<close>

definition mcconf_writers :: "mc_configuration \<Rightarrow> writer list" where
  "mcconf_writers c = [
     w_u8 (mc_pwm_mode_code (pwm_mode c)), w_u8 (mc_comm_mode_code (comm_mode c)),
     w_u8 (mc_motor_type_code (motor_type c)), w_u8 (mc_sensor_mode_code (sensor_mode c)),
     w_f32 (l_current_max c) 1000, w_f32 (l_current_min c) 1000, w_f32 (l_in_current_max c) 1000,
     w_f32 (l_in_current_min c) 1000, w_f32 (l_abs_current_max c) 1000, w_f32 (l_min_erpm c) 1000,
     w_f32 (l_max_erpm c) 1000, w_f32 (l_max_erpm_fbrake c) 1000, w_f32 (l_max_erpm_fbrake_cc c) 1000,
     w_f32 (l_min_vin c) 1000, w_f32 (l_max_vin c) 1000, w_f32 (l_battery_cut_start c) 1000,
     w_f32 (l_battery_cut_end c) 1000, w_u8 (of_bool (l_slow_abs_current c)),
     w_u8 (of_bool (l_rpm_lim_neg_torque c)), w_f32 (l_temp_fet_start c) 1000, w_f32 (l_temp_fet_end c) 1000,
     w_f32 (l_temp_motor_start c) 1000, w_f32 (l_temp_motor_end c) 1000, w_f32 (l_min_duty c) 1000000,
     w_f32 (l_max_duty c) 1000000, w_f32 (sl_min_erpm c) 1000, w_f32 (sl_min_erpm_cycle_int_limit c) 1000,
     w_f32 (sl_max_fullbreak_current_dir_change c) 1000, w_f32 (sl_cycle_int_limit c) 1000,
     w_f32 (sl_phase_advance_at_br c) 1000, w_f32 (sl_cycle_int_rpm_br c) 1000, w_f32 (sl_bemf_coupling_k c) 1000,
     w_bytes (hall_table c) 8, w_f32 (hall_sl_erpm c) 1000, w_f32 (foc_current_kp c) 100000,
     w_f32 (foc_current_ki c) 100000, w_f32 (foc_f_sw c) 1000, w_f32 (foc_dt_us c) 1000000,
     w_u8 (of_bool (foc_encoder_inverted c)), w_f32 (foc_encoder_offset c) 1000, w_f32 (foc_encoder_ratio c) 1000,
     w_u8 (mc_foc_sensor_mode_code (foc_sensor_mode c)), w_f32 (foc_pll_kp c) 1000, w_f32 (foc_pll_ki c) 1000,
     w_f32 (foc_motor_l c) 100000000, w_f32 (foc_motor_r c) 100000, w_f32 (foc_motor_flux_linkage c) 100000,
     w_f32 (foc_observer_gain c) 1, w_f32 (foc_duty_dowmramp_kp c) 1000, w_f32 (foc_duty_dowmramp_ki c) 1000,
     w_f32 (foc_openloop_rpm c) 1000, w_f32 (foc_sl_openloop_hyst c) 1000, w_f32 (foc_sl_openloop_time c) 1000,
     w_f32 (foc_sl_d_current_duty c) 1000, w_f32 (foc_sl_d_current_factor c) 1000, w_bytes (foc_hall_table c) 8,
     w_f32 (foc_sl_erpm c) 1000, w_f32 (s_pid_kp c) 1000000, w_f32 (s_pid_ki c) 1000000,
     w_f32 (s_pid_kd c) 1000000, w_f32 (s_pid_min_erpm c) 1000, w_f32 (p_pid_kp c) 1000000,
     w_f32 (p_pid_ki c) 1000000, w_f32 (p_pid_kd c) 1000000, w_f32 (p_pid_ang_div c) 100000,
     w_f32 (cc_startup_boost_duty c) 1000000, w_f32 (cc_min_current c) 1000, w_f32 (cc_gain c) 1000000,
     w_f32 (cc_ramp_step_max c) 1000000, w_i32 (m_fault_stop_time_ms c), w_f32 (m_duty_ramp_step c) 1000000,
     w_f32 (m_duty_ramp_step_rpm_lim c) 1000000, w_f32 (m_current_backoff_gain c) 1000000,
     w_u32 (m_encoder_counts c), w_u8 (sensor_port_mode_code (m_sensor_port_mode c))]"

definition mcconf_readers :: "mc_configuration reader list" where
  "mcconf_readers = [
     r_u8 (\<lambda>b c. c\<lparr>pwm_mode := mc_pwm_mode_of b\<rparr>),
     r_u8 (\<lambda>b c. c\<lparr>comm_mode := mc_comm_mode_of b\<rparr>),
     r_u8 (\<lambda>b c. c\<lparr>motor_type := mc_motor_type_of b\<rparr>),
     r_u8 (\<lambda>b c. c\<lparr>sensor_mode := mc_sensor_mode_of b\<rparr>),
     r_f32 1000 (\<lambda>x c. c\<lparr>l_current_max := x\<rparr>),
     r_f32 1000 (\<lambda>x c. c\<lparr>l_current_min := x\<rparr>),
     r_f32 1000 (\<lambda>x c. c\<lparr>l_in_current_max := x\<rparr>),
     r_f32 1000 (\<lambda>x c. c\<lparr>l_in_current_min := x\<rparr>),
     r_f32 1000 (\<lambda>x c. c\<lparr>l_abs_current_max := x\<rparr>),
     r_f32 1000 (\<lambda>x c. c\<lparr>l_min_erpm := x\<rparr>),
     r_f32 1000 (\<lambda>x c. c\<lparr>l_max_erpm := x\<rparr>),
     r_f32 1000 (\<lambda>x c. c\<lparr>l_max_erpm_fbrake := x\<rparr>),
     r_f32 1000 (\<lambda>x c. c\<lparr>l_max_erpm_fbrake_cc := x\<rparr>),
     r_f32 1000 (\<lambda>x c. c\<lparr>l_min_vin := x\<rparr>),
     r_f32 1000 (\<lambda>x c. c\<lparr>l_max_vin := x\<rparr>),
     r_f32 1000 (\<lambda>x c. c\<lparr>l_battery_cut_start := x\<rparr>),
     r_f32 1000 (\<lambda>x c. c\<lparr>l_battery_cut_end := x\<rparr>),
     r_u8 (\<lambda>b c. c\<lparr>l_slow_abs_current := b \<noteq> 0\<rparr>),
     r_u8 (\<lambda>b c. c\<lparr>l_rpm_lim_neg_torque := b \<noteq> 0\<rparr>),
     r_f32 1000 (\<lambda>x c. c\<lparr>l_temp_fet_start := x\<rparr>),
     r_f32 1000 (\<lambda>x c. c\<lparr>l_temp_fet_end := x\<rparr>),
     r_f32 1000 (\<lambda>x c. c\<lparr>l_temp_motor_start := x\<rparr>),
     r_f32 1000 (\<lambda>x c. c\<lparr>l_temp_motor_end := x\<rparr>),
     r_f32 1000000 (\<lambda>x c. c\<lparr>l_min_duty := x\<rparr>),
     r_f32 1000000 (\<lambda>x c. c\<lparr>l_max_duty := x\<rparr>),
     r_set (\<lambda>c. c\<lparr>lo_current_max := l_current_max c\<rparr>),
     r_set (\<lambda>c. c\<lparr>lo_current_min := l_current_min c\<rparr>),
     r_set (\<lambda>c. c\<lparr>lo_in_current_max := l_in_current_max c\<rparr>),
     r_set (\<lambda>c. c\<lparr>lo_in_current_min := l_in_current_min c\<rparr>),
     r_f32 1000 (\<lambda>x c. c\<lparr>sl_min_erpm := x\<rparr>),
     r_f32 1000 (\<lambda>x c. c\<lparr>sl_min_erpm_cycle_int_limit := x\<rparr>),
     r_f32 1000 (\<lambda>x c. c\<lparr>sl_max_fullbreak_current_dir_change := x\<rparr>),
     r_f32 1000 (\<lambda>x c. c\<lparr>sl_cycle_int_limit := x\<rparr>),
     r_f32 1000 (\<lambda>x c. c\<lparr>sl_phase_advance_at_br := x\<rparr>),
     r_f32 1000 (\<lambda>x c. c\<lparr>sl_cycle_int_rpm_br := x\<rparr>),
     r_f32 1000 (\<lambda>x c. c\<lparr>sl_bemf_coupling_k := x\<rparr>),
     r_bytes 8 (\<lambda>bs c. c\<lparr>hall_table := bs\<rparr>),
     r_f32 1000 (\<lambda>x c. c\<lparr>hall_sl_erpm := x\<rparr>),
     r_f32 100000 (\<lambda>x c. c\<lparr>foc_current_kp := x\<rparr>),
     r_f32 100000 (\<lambda>x c. c\<lparr>foc_current_ki := x\<rparr>),
     r_f32 1000 (\<lambda>x c. c\<lparr>foc_f_sw := x\<rparr>),
     r_f32 1000000 (\<lambda>x c. c\<lparr>foc_dt_us := x\<rparr>),
     r_u8 (\<lambda>b c. c\<lparr>foc_encoder_inverted := b \<noteq> 0\<rparr>),
     r_f32 1000 (\<lambda>x c. c\<lparr>foc_encoder_offset := x\<rparr>),
     r_f32 1000 (\<lambda>x c. c\<lparr>foc_encoder_ratio := x\<rparr>),
     r_u8 (\<lambda>b c. c\<lparr>foc_sensor_mode := mc_foc_sensor_mode_of b\<rparr>),
     r_f32 1000 (\<lambda>x c. c\<lparr>foc_pll_kp := x\<rparr>),
     r_f32 1000 (\<lambda>x c. c\<lparr>foc_pll_ki := x\<rparr>),
     r_f32 100000000 (\<lambda>x c. c\<lparr>foc_motor_l := x\<rparr>),
     r_f32 100000 (\<lambda>x c. c\<lparr>foc_motor_r := x\<rparr>),
     r_f32 100000 (\<lambda>x c. c\<lparr>foc_motor_flux_linkage := x\<rparr>),
     r_f32 1 (\<lambda>x c. c\<lparr>foc_observer_gain := x\<rparr>),
     r_f32 1000 (\<lambda>x c. c\<lparr>foc_duty_dowmramp_kp := x\<rparr>),
     r_f32 1000 (\<lambda>x c. c\<lparr>foc_duty_dowmramp_ki := x\<rparr>),
     r_f32 1000 (\<lambda>x c. c\<lparr>foc_openloop_rpm := x\<rparr>),
     r_f32 1000 (\<lambda>x c. c\<lparr>foc_sl_openloop_hyst := x\<rparr>),
     r_f32 1000 (\<lambda>x c. c\<lparr>foc_sl_openloop_time := x\<rparr>),
     r_f32 1000 (\<lambda>x c. c\<lparr>foc_sl_d_current_duty := x\<rparr>),
     r_f32 1000 (\<lambda>x c. c\<lparr>foc_sl_d_current_factor := x\<rparr>),
     r_bytes 8 (\<lambda>bs c. c\<lparr>foc_hall_table := bs\<rparr>),
     r_f32 1000 (\<lambda>x c. c\<lparr>foc_sl_erpm := x\<rparr>),
     r_f32 1000000 (\<lambda>x c. c\<lparr>s_pid_kp := x\<rparr>),
     r_f32 1000000 (\<lambda>x c. c\<lparr>s_pid_ki := x\<rparr>),
     r_f32 1000000 (\<lambda>x c. c\<lparr>s_pid_kd := x\<rparr>),
     r_f32 1000 (\<lambda>x c. c\<lparr>s_pid_min_erpm := x\<rparr>),
     r_f32 1000000 (\<lambda>x c. c\<lparr>p_pid_kp := x\<rparr>),
     r_f32 1000000 (\<lambda>x c. c\<lparr>p_pid_ki := x\<rparr>),
     r_f32 1000000 (\<lambda>x c. c\<lparr>p_pid_kd := x\<rparr>),
     r_f32 100000 (\<lambda>x c. c\<lparr>p_pid_ang_div := x\<rparr>),
     r_f32 1000000 (\<lambda>x c. c\<lparr>cc_startup_boost_duty := x\<rparr>),
     r_f32 1000 (\<lambda>x c. c\<lparr>cc_min_current := x\<rparr>),
     r_f32 1000000 (\<lambda>x c. c\<lparr>cc_gain := x\<rparr>),
     r_f32 1000000 (\<lambda>x c. c\<lparr>cc_ramp_step_max := x\<rparr>),
     r_i32 (\<lambda>n c. c\<lparr>m_fault_stop_time_ms := n\<rparr>),
     r_f32 1000000 (\<lambda>x c. c\<lparr>m_duty_ramp_step := x\<rparr>),
     r_f32 1000000 (\<lambda>x c. c\<lparr>m_duty_ramp_step_rpm_lim := x\<rparr>),
     r_f32 1000000 (\<lambda>x c. c\<lparr>m_current_backoff_gain := x\<rparr>),
     r_u32 (\<lambda>n c. c\<lparr>m_encoder_counts := n\<rparr>),
     r_u8 (\<lambda>b c. c\<lparr>m_sensor_port_mode := sensor_port_mode_of b\<rparr>)]"

definition appconf_writers :: "app_configuration \<Rightarrow> writer list" where
  "appconf_writers c = [
     w_u8 (controller_id c), w_u32 (timeout_msec c), w_f32 (timeout_brake_current c) 1000,
     w_u8 (of_bool (send_can_status c)), w_u16 (ucast (send_can_status_rate_hz c)),
     w_u8 (app_use_code (app_to_use c)), w_u8 (ppm_control_type_code (ppm_ctrl_type (app_ppm_conf c))),
     w_f32 (ppm_pid_max_erpm (app_ppm_conf c)) 1000, w_f32 (ppm_hyst (app_ppm_conf c)) 1000,
     w_f32 (ppm_pulse_start (app_ppm_conf c)) 1000, w_f32 (ppm_pulse_end (app_ppm_conf c)) 1000,
     w_u8 (of_bool (ppm_median_filter (app_ppm_conf c))), w_u8 (of_bool (ppm_safe_start (app_ppm_conf c))),
     w_f32 (ppm_rpm_lim_start (app_ppm_conf c)) 1000, w_f32 (ppm_rpm_lim_end (app_ppm_conf c)) 1000,
     w_u8 (of_bool (ppm_multi_esc (app_ppm_conf c))), w_u8 (of_bool (ppm_tc (app_ppm_conf c))),
     w_f32 (ppm_tc_max_diff (app_ppm_conf c)) 1000, w_u8 (adc_control_type_code (adc_ctrl_type (app_adc_conf c))),
     w_f32 (adc_hyst (app_adc_conf c)) 1000, w_f32 (adc_voltage_start (app_adc_conf c)) 1000,
     w_f32 (adc_voltage_end (app_adc_conf c)) 1000, w_u8 (of_bool (adc_use_filter (app_adc_conf c))),
     w_u8 (of_bool (adc_safe_start (app_adc_conf c))), w_u8 (of_bool (adc_cc_button_inverted (app_adc_conf c))),
     w_u8 (of_bool (adc_rev_button_inverted (app_adc_conf c))),
     w_u8 (of_bool (adc_voltage_inverted (app_adc_conf c))), w_f32 (adc_rpm_lim_start (app_adc_conf c)) 1000,
     w_f32 (adc_rpm_lim_end (app_adc_conf c)) 1000, w_u8 (of_bool (adc_multi_esc (app_adc_conf c))),
     w_u8 (of_bool (adc_tc (app_adc_conf c))), w_f32 (adc_tc_max_diff (app_adc_conf c)) 1000,
     w_u16 (ucast (adc_update_rate_hz (app_adc_conf c))), w_u32 (app_uart_baudrate c),
     w_u8 (chuk_control_type_code (chuk_ctrl_type (app_chuk_conf c))), w_f32 (chuk_hyst (app_chuk_conf c)) 1000,
     w_f32 (chuk_rpm_lim_start (app_chuk_conf c)) 1000, w_f32 (chuk_rpm_lim_end (app_chuk_conf c)) 1000,
     w_f32 (chuk_ramp_time_pos (app_chuk_conf c)) 1000, w_f32 (chuk_ramp_time_neg (app_chuk_conf c)) 1000,
     w_f32 (chuk_stick_erpm_per_s_in_cc (app_chuk_conf c)) 1000, w_u8 (of_bool (chuk_multi_esc (app_chuk_conf c))),
     w_u8 (of_bool (chuk_tc (app_chuk_conf c))), w_f32 (chuk_tc_max_diff (app_chuk_conf c)) 1000,
     w_u8 (nrf_speed_t_code (nrf_speed (app_nrf_conf c))), w_u8 (nrf_power_t_code (nrf_power (app_nrf_conf c))),
     w_u8 (nrf_crc_t_code (nrf_crc_type (app_nrf_conf c))),
     w_u8 (nrf_retr_delay_t_code (nrf_retry_delay (app_nrf_conf c))), w_u8 (nrf_retries (app_nrf_conf c)),
     w_u8 (nrf_channel (app_nrf_conf c)), w_bytes (nrf_address (app_nrf_conf c)) 3,
     w_u8 (of_bool (nrf_send_crc_ack (app_nrf_conf c)))]"

definition appconf_readers :: "app_configuration reader list" where
  "appconf_readers = [
     r_u8 (\<lambda>b c. c\<lparr>controller_id := b\<rparr>),
     r_u32 (\<lambda>n c. c\<lparr>timeout_msec := n\<rparr>),
     r_f32 1000 (\<lambda>x c. c\<lparr>timeout_brake_current := x\<rparr>),
     r_u8 (\<lambda>b c. c\<lparr>send_can_status := b \<noteq> 0\<rparr>),
     r_u16 (\<lambda>n c. c\<lparr>send_can_status_rate_hz := ucast n\<rparr>),
     r_u8 (\<lambda>b c. c\<lparr>app_to_use := app_use_of b\<rparr>),
     r_u8 (\<lambda>b c. c\<lparr>app_ppm_conf := (app_ppm_conf c)\<lparr>ppm_ctrl_type := ppm_control_type_of b\<rparr>\<rparr>),
     r_f32 1000 (\<lambda>x c. c\<lparr>app_ppm_conf := (app_ppm_conf c)\<lparr>ppm_pid_max_erpm := x\<rparr>\<rparr>),
     r_f32 1000 (\<lambda>x c. c\<lparr>app_ppm_conf := (app_ppm_conf c)\<lparr>ppm_hyst := x\<rparr>\<rparr>),
     r_f32 1000 (\<lambda>x c. c\<lparr>app_ppm_conf := (app_ppm_conf c)\<lparr>ppm_pulse_start := x\<rparr>\<rparr>),
     r_f32 1000 (\<lambda>x c. c\<lparr>app_ppm_conf := (app_ppm_conf c)\<lparr>ppm_pulse_end := x\<rparr>\<rparr>),
     r_u8 (\<lambda>b c. c\<lparr>app_ppm_conf := (app_ppm_conf c)\<lparr>ppm_median_filter := b \<noteq> 0\<rparr>\<rparr>),
     r_u8 (\<lambda>b c. c\<lparr>app_ppm_conf := (app_ppm_conf c)\<lparr>ppm_safe_start := b \<noteq> 0\<rparr>\<rparr>),
     r_f32 1000 (\<lambda>x c. c\<lparr>app_ppm_conf := (app_ppm_conf c)\<lparr>ppm_rpm_lim_start := x\<rparr>\<rparr>),
     r_f32 1000 (\<lambda>x c. c\<lparr>app_ppm_conf := (app_ppm_conf c)\<lparr>ppm_rpm_lim_end := x\<rparr>\<rparr>),
     r_u8 (\<lambda>b c. c\<lparr>app_ppm_conf := (app_ppm_conf c)\<lparr>ppm_multi_esc := b \<noteq> 0\<rparr>\<rparr>),
     r_u8 (\<lambda>b c. c\<lparr>app_ppm_conf := (app_ppm_conf c)\<lparr>ppm_tc := b \<noteq> 0\<rparr>\<rparr>),
     r_f32 1000 (\<lambda>x c. c\<lparr>app_ppm_conf := (app_ppm_conf c)\<lparr>ppm_tc_max_diff := x\<rparr>\<rparr>),
     r_u8 (\<lambda>b c. c\<lparr>app_adc_conf := (app_adc_conf c)\<lparr>adc_ctrl_type := adc_control_type_of b\<rparr>\<rparr>),
     r_f32 1000 (\<lambda>x c. c\<lparr>app_adc_conf := (app_adc_conf c)\<lparr>adc_hyst := x\<rparr>\<rparr>),
     r_f32 1000 (\<lambda>x c. c\<lparr>app_adc_conf := (app_adc_conf c)\<lparr>adc_voltage_start := x\<rparr>\<rparr>),
     r_f32 1000 (\<lambda>x c. c\<lparr>app_adc_conf := (app_adc_conf c)\<lparr>adc_voltage_end := x\<rparr>\<rparr>),
     r_u8 (\<lambda>b c. c\<lparr>app_adc_conf := (app_adc_conf c)\<lparr>adc_use_filter := b \<noteq> 0\<rparr>\<rparr>),
     r_u8 (\<lambda>b c. c\<lparr>app_adc_conf := (app_adc_conf c)\<lparr>adc_safe_start := b \<noteq> 0\<rparr>\<rparr>),
     r_u8 (\<lambda>b c. c\<lparr>app_adc_conf := (app_adc_conf c)\<lparr>adc_cc_button_inverted := b \<noteq> 0\<rparr>\<rparr>),
     r_u8 (\<lambda>b c. c\<lparr>app_adc_conf := (app_adc_conf c)\<lparr>adc_rev_button_inverted := b \<noteq> 0\<rparr>\<rparr>),
     r_u8 (\<lambda>b c. c\<lparr>app_adc_conf := (app_adc_conf c)\<lparr>adc_voltage_inverted := b \<noteq> 0\<rparr>\<rparr>),
     r_f32 1000 (\<lambda>x c. c\<lparr>app_adc_conf := (app_adc_conf c)\<lparr>adc_rpm_lim_start := x\<rparr>\<rparr>),
     r_f32 1000 (\<lambda>x c. c\<lparr>app_adc_conf := (app_adc_conf c)\<lparr>adc_rpm_lim_end := x\<rparr>\<rparr>),
     r_u8 (\<lambda>b c. c\<lparr>app_adc_conf := (app_adc_conf c)\<lparr>adc_multi_esc := b \<noteq> 0\<rparr>\<rparr>),
     r_u8 (\<lambda>b c. c\<lparr>app_adc_conf := (app_adc_conf c)\<lparr>adc_tc := b \<noteq> 0\<rparr>\<rparr>),
     r_f32 1000 (\<lambda>x c. c\<lparr>app_adc_conf := (app_adc_conf c)\<lparr>adc_tc_max_diff := x\<rparr>\<rparr>),
     r_u16 (\<lambda>n c. c\<lparr>app_adc_conf := (app_adc_conf c)\<lparr>adc_update_rate_hz := ucast n\<rparr>\<rparr>),
     r_u32 (\<lambda>n c. c\<lparr>app_uart_baudrate := n\<rparr>),
     r_u8 (\<lambda>b c. c\<lparr>app_chuk_conf := (app_chuk_conf c)\<lparr>chuk_ctrl_type := chuk_control_type_of b\<rparr>\<rparr>),
     r_f32 1000 (\<lambda>x c. c\<lparr>app_chuk_conf := (app_chuk_conf c)\<lparr>chuk_hyst := x\<rparr>\<rparr>),
     r_f32 1000 (\<lambda>x c. c\<lparr>app_chuk_conf := (app_chuk_conf c)\<lparr>chuk_rpm_lim_start := x\<rparr>\<rparr>),
     r_f32 1000 (\<lambda>x c. c\<lparr>app_chuk_conf := (app_chuk_conf c)\<lparr>chuk_rpm_lim_end := x\<rparr>\<rparr>),
     r_f32 1000 (\<lambda>x c. c\<lparr>app_chuk_conf := (app_chuk_conf c)\<lparr>chuk_ramp_time_pos := x\<rparr>\<rparr>),
     r_f32 1000 (\<lambda>x c. c\<lparr>app_chuk_conf := (app_chuk_conf c)\<lparr>chuk_ramp_time_neg := x\<rparr>\<rparr>),
     r_f32 1000 (\<lambda>x c. c\<lparr>app_chuk_conf := (app_chuk_conf c)\<lparr>chuk_stick_erpm_per_s_in_cc := x\<rparr>\<rparr>),
     r_u8 (\<lambda>b c. c\<lparr>app_chuk_conf := (app_chuk_conf c)\<lparr>chuk_multi_esc := b \<noteq> 0\<rparr>\<rparr>),
     r_u8 (\<lambda>b c. c\<lparr>app_chuk_conf := (app_chuk_conf c)\<lparr>chuk_tc := b \<noteq> 0\<rparr>\<rparr>),
     r_f32 1000 (\<lambda>x c. c\<lparr>app_chuk_conf := (app_chuk_conf c)\<lparr>chuk_tc_max_diff := x\<rparr>\<rparr>),
     r_u8 (\<lambda>b c. c\<lparr>app_nrf_conf := (app_nrf_conf c)\<lparr>nrf_speed := nrf_speed_t_of b\<rparr>\<rparr>),
     r_u8 (\<lambda>b c. c\<lparr>app_nrf_conf := (app_nrf_conf c)\<lparr>nrf_power := nrf_power_t_of b\<rparr>\<rparr>),
     r_u8 (\<lambda>b c. c\<lparr>app_nrf_conf := (app_nrf_conf c)\<lparr>nrf_crc_type := nrf_crc_t_of b\<rparr>\<rparr>),
     r_u8 (\<lambda>b c. c\<lparr>app_nrf_conf := (app_nrf_conf c)\<lparr>nrf_retry_delay := nrf_retr_delay_t_of b\<rparr>\<rparr>),
     r_u8 (\<lambda>b c. c\<lparr>app_nrf_conf := (app_nrf_conf c)\<lparr>nrf_retries := b\<rparr>\<rparr>),
     r_u8 (\<lambda>b c. c\<lparr>app_nrf_conf := (app_nrf_conf c)\<lparr>nrf_channel := b\<rparr>\<rparr>),
     r_bytes 3 (\<lambda>bs c. c\<lparr>app_nrf_conf := (app_nrf_conf c)\<lparr>nrf_address := bs\<rparr>\<rparr>),
     r_u8 (\<lambda>b c. c\<lparr>app_nrf_conf := (app_nrf_conf c)\<lparr>nrf_send_crc_ack := b \<noteq> 0\<rparr>\<rparr>)]"


section \<open>Stores and loads fit\<close>

text \<open>What a field becomes on the wire and back.\<close>

definition quant :: "real \<Rightarrow> real \<Rightarrow> real" where
  "quant s x = fl (fl (of_int (ftrunc (fl (x * s)))) / s)"

definition mc_quantised :: "mc_configuration \<Rightarrow> mc_configuration" where
  "mc_quantised c = \<lparr>
     pwm_mode = mc_pwm_mode_of (mc_pwm_mode_code (pwm_mode c)),
     comm_mode = mc_comm_mode_of (mc_comm_mode_code (comm_mode c)),
     motor_type = mc_motor_type_of (mc_motor_type_code (motor_type c)),
     sensor_mode = mc_sensor_mode_of (mc_sensor_mode_code (sensor_mode c)),
     l_current_max = quant 1000 (l_current_max c), l_current_min = quant 1000 (l_current_min c),
     l_in_current_max = quant 1000 (l_in_current_max c), l_in_current_min = quant 1000 (l_in_current_min c),
     l_abs_current_max = quant 1000 (l_abs_current_max c), l_min_erpm = quant 1000 (l_min_erpm c),
     l_max_erpm = quant 1000 (l_max_erpm c), l_max_erpm_fbrake = quant 1000 (l_max_erpm_fbrake c),
     l_max_erpm_fbrake_cc = quant 1000 (l_max_erpm_fbrake_cc c), l_min_vin = quant 1000 (l_min_vin c),
     l_max_vin = quant 1000 (l_max_vin c), l_battery_cut_start = quant 1000 (l_battery_cut_start c),
     l_battery_cut_end = quant 1000 (l_battery_cut_end c), l_slow_abs_current = l_slow_abs_current c,
     l_rpm_lim_neg_torque = l_rpm_lim_neg_torque c, l_temp_fet_start = quant 1000 (l_temp_fet_start c),
     l_temp_fet_end = quant 1000 (l_temp_fet_end c), l_temp_motor_start = quant 1000 (l_temp_motor_start c),
     l_temp_motor_end = quant 1000 (l_temp_motor_end c), l_min_duty = quant 1000000 (l_min_duty c),
     l_max_duty = quant 1000000 (l_max_duty c), lo_current_max = quant 1000 (l_current_max c),
     lo_current_min = quant 1000 (l_current_min c), lo_in_current_max = quant 1000 (l_in_current_max c),
     lo_in_current_min = quant 1000 (l_in_current_min c), sl_min_erpm = quant 1000 (sl_min_erpm c),
     sl_min_erpm_cycle_int_limit = quant 1000 (sl_min_erpm_cycle_int_limit c),
     sl_max_fullbreak_current_dir_change = quant 1000 (sl_max_fullbreak_current_dir_change c),
     sl_cycle_int_limit = quant 1000 (sl_cycle_int_limit c),
     sl_phase_advance_at_br = quant 1000 (sl_phase_advance_at_br c),
     sl_cycle_int_rpm_br = quant 1000 (sl_cycle_int_rpm_br c),
     sl_bemf_coupling_k = quant 1000 (sl_bemf_coupling_k c), hall_table = hall_table c,
     hall_sl_erpm = quant 1000 (hall_sl_erpm c), foc_current_kp = quant 100000 (foc_current_kp c),
     foc_current_ki = quant 100000 (foc_current_ki c), foc_f_sw = quant 1000 (foc_f_sw c),
     foc_dt_us = quant 1000000 (foc_dt_us c), foc_encoder_offset = quant 1000 (foc_encoder_offset c),
     foc_encoder_inverted = foc_encoder_inverted c, foc_encoder_ratio = quant 1000 (foc_encoder_ratio c),
     foc_motor_l = quant 100000000 (foc_motor_l c), foc_motor_r = quant 100000 (foc_motor_r c),
     foc_motor_flux_linkage = quant 100000 (foc_motor_flux_linkage c),
     foc_observer_gain = quant 1 (foc_observer_gain c), foc_pll_kp = quant 1000 (foc_pll_kp c),
     foc_pll_ki = quant 1000 (foc_pll_ki c), foc_duty_dowmramp_kp = quant 1000 (foc_duty_dowmramp_kp c),
     foc_duty_dowmramp_ki = quant 1000 (foc_duty_dowmramp_ki c),
     foc_openloop_rpm = quant 1000 (foc_openloop_rpm c),
     foc_sl_openloop_hyst = quant 1000 (foc_sl_openloop_hyst c),
     foc_sl_openloop_time = quant 1000 (foc_sl_openloop_time c),
     foc_sl_d_current_duty = quant 1000 (foc_sl_d_current_duty c),
     foc_sl_d_current_factor = quant 1000 (foc_sl_d_current_factor c),
     foc_sensor_mode = mc_foc_sensor_mode_of (mc_foc_sensor_mode_code (foc_sensor_mode c)),
     foc_hall_table = foc_hall_table c, foc_sl_erpm = quant 1000 (foc_sl_erpm c),
     s_pid_kp = quant 1000000 (s_pid_kp c), s_pid_ki = quant 1000000 (s_pid_ki c),
     s_pid_kd = quant 1000000 (s_pid_kd c), s_pid_min_erpm = quant 1000 (s_pid_min_erpm c),
     p_pid_kp = quant 1000000 (p_pid_kp c), p_pid_ki = quant 1000000 (p_pid_ki c),
     p_pid_kd = quant 1000000 (p_pid_kd c), p_pid_ang_div = quant 100000 (p_pid_ang_div c),
     cc_startup_boost_duty = quant 1000000 (cc_startup_boost_duty c),
     cc_min_current = quant 1000 (cc_min_current c), cc_gain = quant 1000000 (cc_gain c),
     cc_ramp_step_max = quant 1000000 (cc_ramp_step_max c), m_fault_stop_time_ms = m_fault_stop_time_ms c,
     m_duty_ramp_step = quant 1000000 (m_duty_ramp_step c),
     m_duty_ramp_step_rpm_lim = quant 1000000 (m_duty_ramp_step_rpm_lim c),
     m_current_backoff_gain = quant 1000000 (m_current_backoff_gain c), m_encoder_counts = m_encoder_counts c,
     m_sensor_port_mode = sensor_port_mode_of (sensor_port_mode_code (m_sensor_port_mode c))\<rparr>"

definition app_quantised :: "app_configuration \<Rightarrow> app_configuration" where
  "app_quantised c = \<lparr>
     controller_id = controller_id c, timeout_msec = timeout_msec c,
     timeout_brake_current = quant 1000 (timeout_brake_current c), send_can_status = send_can_status c,
     send_can_status_rate_hz = ucast (ucast (send_can_status_rate_hz c) :: u16),
     app_to_use = app_use_of (app_use_code (app_to_use c)),
     app_ppm_conf = \<lparr>
        ppm_ctrl_type = ppm_control_type_of (ppm_control_type_code (ppm_ctrl_type (app_ppm_conf c))),
        ppm_pid_max_erpm = quant 1000 (ppm_pid_max_erpm (app_ppm_conf c)),
        ppm_hyst = quant 1000 (ppm_hyst (app_ppm_conf c)),
        ppm_pulse_start = quant 1000 (ppm_pulse_start (app_ppm_conf c)),
        ppm_pulse_end = quant 1000 (ppm_pulse_end (app_ppm_conf c)),
        ppm_median_filter = ppm_median_filter (app_ppm_conf c), ppm_safe_start = ppm_safe_start (app_ppm_conf c),
        ppm_rpm_lim_start = quant 1000 (ppm_rpm_lim_start (app_ppm_conf c)),
        ppm_rpm_lim_end = quant 1000 (ppm_rpm_lim_end (app_ppm_conf c)),
        ppm_multi_esc = ppm_multi_esc (app_ppm_conf c), ppm_tc = ppm_tc (app_ppm_conf c),
        ppm_tc_max_diff = quant 1000 (ppm_tc_max_diff (app_ppm_conf c))\<rparr>,
     app_adc_conf = \<lparr>
        adc_ctrl_type = adc_control_type_of (adc_control_type_code (adc_ctrl_type (app_adc_conf c))),
        adc_hyst = quant 1000 (adc_hyst (app_adc_conf c)),
        adc_voltage_start = quant 1000 (adc_voltage_start (app_adc_conf c)),
        adc_voltage_end = quant 1000 (adc_voltage_end (app_adc_conf c)),
        adc_use_filter = adc_use_filter (app_adc_conf c), adc_safe_start = adc_safe_start (app_adc_conf c),
        adc_cc_button_inverted = adc_cc_button_inverted (app_adc_conf c),
        adc_rev_button_inverted = adc_rev_button_inverted (app_adc_conf c),
        adc_voltage_inverted = adc_voltage_inverted (app_adc_conf c),
        adc_rpm_lim_start = quant 1000 (adc_rpm_lim_start (app_adc_conf c)),
        adc_rpm_lim_end = quant 1000 (adc_rpm_lim_end (app_adc_conf c)),
        adc_multi_esc = adc_multi_esc (app_adc_conf c), adc_tc = adc_tc (app_adc_conf c),
        adc_tc_max_diff = quant 1000 (adc_tc_max_diff (app_adc_conf c)),
        adc_update_rate_hz = ucast (ucast (adc_update_rate_hz (app_adc_conf c)) :: u16)\<rparr>,
     app_uart_baudrate = app_uart_baudrate c,
     app_chuk_conf = \<lparr>
        chuk_ctrl_type = chuk_control_type_of (chuk_control_type_code (chuk_ctrl_type (app_chuk_conf c))),
        chuk_hyst = quant 1000 (chuk_hyst (app_chuk_conf c)),
        chuk_rpm_lim_start = quant 1000 (chuk_rpm_lim_start (app_chuk_conf c)),
        chuk_rpm_lim_end = quant 1000 (chuk_rpm_lim_end (app_chuk_conf c)),
        chuk_ramp_time_pos = quant 1000 (chuk_ramp_time_pos (app_chuk_conf c)),
        chuk_ramp_time_neg = quant 1000 (chuk_ramp_time_neg (app_chuk_conf c)),
        chuk_stick_erpm_per_s_in_cc = quant 1000 (chuk_stick_erpm_per_s_in_cc (app_chuk_conf c)),
        chuk_multi_esc = chuk_multi_esc (app_chuk_conf c), chuk_tc = chuk_tc (app_chuk_conf c),
        chuk_tc_max_diff = quant 1000 (chuk_tc_max_diff (app_chuk_conf c))\<rparr>,
     app_nrf_conf = \<lparr>
        nrf_speed = nrf_speed_t_of (nrf_speed_t_code (nrf_speed (app_nrf_conf c))),
        nrf_power = nrf_power_t_of (nrf_power_t_code (nrf_power (app_nrf_conf c))),
        nrf_crc_type = nrf_crc_t_of (nrf_crc_t_code (nrf_crc_type (app_nrf_conf c))),
        nrf_retry_delay = nrf_retr_delay_t_of (nrf_retr_delay_t_code (nrf_retry_delay (app_nrf_conf c))),
        nrf_retries = nrf_retries (app_nrf_conf c), nrf_channel = nrf_channel (app_nrf_conf c),
        nrf_address = nrf_address (app_nrf_conf c), nrf_send_crc_ack = nrf_send_crc_ack (app_nrf_conf c)\<rparr>\<rparr>"

text \<open>The store \<open>w\<close> and the load \<open>r\<close> agree on a field whose effect on the structure is \<open>u\<close>: the load, on any buffer that has
  the bytes of the store in place, performs \<open>u\<close> and stops where the store stopped.\<close>

definition field_ok :: "writer \<Rightarrow> 'c reader \<Rightarrow> ('c \<Rightarrow> 'c) \<Rightarrow> bool" where
  "field_ok w r u \<longleftrightarrow> (\<exists>b. writes w b \<and>
     (\<forall>bs data ind c. b = Some bs \<longrightarrow> ind + length bs \<le> length data \<longrightarrow> take (length bs) (drop ind data) = bs \<longrightarrow>
        r data ind c = Some (u c, ind + length bs)))"

inductive fields_ok :: "writer list \<Rightarrow> 'c reader list \<Rightarrow> ('c \<Rightarrow> 'c) list \<Rightarrow> bool" where
  fields_Nil: "fields_ok [] [] []"
| fields_Cons: "field_ok w r u \<Longrightarrow> fields_ok ws rs us \<Longrightarrow> fields_ok (w # ws) (r # rs) (u # us)"
| fields_set: "fields_ok ws rs us \<Longrightarrow> fields_ok ws (r_set f # rs) (f # us)"

lemma field_okI:
  assumes "writes w b"
    "\<And>bs data ind c. b = Some bs \<Longrightarrow> ind + length bs \<le> length data \<Longrightarrow> take (length bs) (drop ind data) = bs \<Longrightarrow>
        r data ind c = Some (u c, ind + length bs)"
  shows "field_ok w r u"
  unfolding field_ok_def using assms by blast

lemma field_u8: "field_ok (w_u8 b) (r_u8 f) (f b)"
  by (rule field_okI [OF writes_atoms(1)]) (auto simp: r_u8_def u8c.get_enc)

lemma field_u16: "field_ok (w_u16 n) (r_u16 f) (f n)"
  by (rule field_okI [OF writes_atoms(3)]) (auto simp: r_u16_def u16c.get_enc u16c.length_enc)

lemma field_i32: "field_ok (w_i32 n) (r_i32 f) (f n)"
  by (rule field_okI [OF writes_atoms(4)]) (auto simp: r_i32_def i32c.get_enc i32c.length_enc)

lemma field_u32: "field_ok (w_u32 n) (r_u32 f) (f n)"
  by (rule field_okI [OF writes_atoms(5)]) (auto simp: r_u32_def u32c.get_enc u32c.length_enc)

lemma field_f32: "field_ok (w_f32 x s) (r_f32 s f) (f (quant s x))"
  by (rule field_okI [OF writes_atoms(7)])
    (auto simp: r_f32_def buffer_get_float32_def i32c.get_enc i32c.length_enc quant_def signed_f2i32)

lemma field_bytes: "length bs = n \<Longrightarrow> 0 < n \<Longrightarrow> field_ok (w_bytes bs n) (r_bytes n f) (f bs)"
proof (rule field_okI [where b = "Some bs"])
  assume n: "length bs = n" "0 < n"
  have "arr_put buf ind bs = None" if "\<not> ind + n \<le> length buf" for buf ind
    using that n by (cases "arr_put buf ind bs") (auto simp: arr_put_Some_iff)
  then show "writes (w_bytes bs n) (Some bs)"
    using n by (auto simp: writes_def w_bytes_def memcpy_def arr_put_fits)
qed (auto simp: r_bytes_def)

lemmas field_intros = fields_Nil fields_set fields_Cons field_u8 field_u16 field_i32 field_u32 field_f32 field_bytes

text \<open>A chain of stores followed by the chain of loads performs all effects and ends at the same index.\<close>

lemma fields_roundtrip:
  assumes "fields_ok ws rs us" "put_seq ws buf ind = Some (buf', ind')"
  shows "\<exists>b. ind' = ind + length b \<and> ind' \<le> max ind (length buf) \<and> put_seq ws buf ind = arr_put buf ind b \<and>
    (\<forall>data c j. j + length b \<le> length data \<longrightarrow> take (length b) (drop j data) = b \<longrightarrow>
       get_seq rs data j c = Some (fold (\<lambda>u. u) us c, j + length b))"
  using assms
proof (induction arbitrary: buf ind rule: fields_ok.induct)
  case fields_Nil
  then show ?case by (intro exI [of _ "[]"]) auto
next
  case (fields_Cons w r u ws rs us)
  obtain buf1 ind1 where 1: "w buf ind = Some (buf1, ind1)" "put_seq ws buf1 ind1 = Some (buf', ind')"
    using fields_Cons.prems by (auto split: bind_splits)
  obtain x where x: "writes w x" "\<And>bs data ind c. x = Some bs \<Longrightarrow> ind + length bs \<le> length data \<Longrightarrow>
      take (length bs) (drop ind data) = bs \<Longrightarrow> r data ind c = Some (u c, ind + length bs)"
    using fields_Cons.hyps(1) unfolding field_ok_def by blast
  obtain bs where bs: "x = Some bs" "arr_put buf ind bs = Some (buf1, ind1)"
    using x(1) 1(1) by (cases x) (auto simp: writes_def)
  obtain b where b: "ind' = ind1 + length b" "ind' \<le> max ind1 (length buf1)" "put_seq ws buf1 ind1 = arr_put buf1 ind1 b"
    "\<And>data c j. j + length b \<le> length data \<Longrightarrow> take (length b) (drop j data) = b \<Longrightarrow>
       get_seq rs data j c = Some (fold (\<lambda>u. u) us c, j + length b)"
    using fields_Cons.IH [OF 1(2)] by blast
  have i1: "ind1 = ind + length bs" "ind1 \<le> max ind (length buf)" "length buf1 = length buf"
    using bs(2) arr_put_length [OF bs(2)] by (auto simp: arr_put_Some_iff split: if_splits)
  show ?case
  proof (intro exI [of _ "bs @ b"] conjI allI impI)
    show "put_seq (w # ws) buf ind = arr_put buf ind (bs @ b)"
      using 1(1) b(3) bs(2) by (simp add: arr_put_append)
    fix data c j
    assume j: "j + length (bs @ b) \<le> length data" "take (length (bs @ b)) (drop j data) = bs @ b"
    then have "take (length bs) (drop j data) = bs" "take (length b) (drop (j + length bs) data) = b"
      using take_add [of "length bs" "length b" "drop j data"] by (auto simp: add.commute)
    then show "get_seq (r # rs) data j c = Some (fold (\<lambda>u. u) (u # us) c, j + length (bs @ b))"
      using x(2) [OF bs(1), of j data c] b(4) [of "j + length bs" data] j(1) by (simp add: add.assoc)
  qed (use b i1 in auto)
next
  case (fields_set ws rs us f)
  then show ?case by (fastforce simp: r_set_def)
qed


section \<open>The configurations\<close>

lemma mc_fields:
  assumes "length (hall_table c) = 8" "length (foc_hall_table c) = 8"
  shows "\<exists>us. fields_ok (mcconf_writers c) mcconf_readers us \<and> (\<forall>c0. fold (\<lambda>u. u) us c0 = mc_quantised c)"
  unfolding mcconf_writers_def mcconf_readers_def
  apply (intro exI conjI)
   apply ((rule field_intros assms zero_less_numeral)+)[1]
  apply (simp add: mc_quantised_def)
  done


lemma app_fields:
  assumes "length (nrf_address (app_nrf_conf c)) = 3"
  shows "\<exists>us. fields_ok (appconf_writers c) appconf_readers us \<and> (\<forall>c0. fold (\<lambda>u. u) us c0 = app_quantised c)"
  unfolding appconf_writers_def appconf_readers_def
  apply (intro exI conjI)
   apply ((rule field_intros assms zero_less_numeral)+)[1]
  apply (simp add: app_quantised_def)
  done

text \<open>The bytes the stores leave, where they stand and what the loads make of them.\<close>

lemma fields_transfer:
  assumes "\<exists>us. fields_ok ws rs us \<and> (\<forall>c0. fold (\<lambda>u. u) us c0 = q)" "put_seq ws buf ind = Some (buf', ind')"
  shows "\<exists>b. ind' = ind + length b \<and> arr_put buf ind b = Some (buf', ind') \<and>
    (\<forall>data c0 j. j + length b \<le> length data \<longrightarrow> take (length b) (drop j data) = b \<longrightarrow>
       get_seq rs data j c0 = Some (q, j + length b))"
  using assms fields_roundtrip by metis

end
