(* ===== verification/App.thy ===== *)
theory App
  imports Datatypes
begin

text \<open>
  The application layer of \<open>applications/app.c\<close>: it keeps the configuration of the applications, hands each application its
  part and starts the selected ones at boot. A call of another component is an event.
\<close>

datatype app_event =
    app_ppm_configure ppm_config | app_adc_configure adc_config | app_uartcomm_configure u32
  | app_nunchuk_configure chuk_config | rfhelp_update_conf nrf_config
  | app_ppm_start | app_adc_start bool | app_uartcomm_start | app_nunchuk_start | hw_stop_i2c
  | nrf_driver_init | rfhelp_restart

record app =
  appconf :: app_configuration
  app_events :: "app_event list"

definition app_get_configuration :: "app \<Rightarrow> app_configuration" where
  "app_get_configuration s = appconf s"

definition app_set_configuration :: "app_configuration \<Rightarrow> app \<Rightarrow> app" where
  "app_set_configuration conf s = s\<lparr>appconf := conf, app_events := app_events s @
     [app_ppm_configure (app_ppm_conf conf), app_adc_configure (app_adc_conf conf),
      app_uartcomm_configure (app_uart_baudrate conf), app_nunchuk_configure (app_chuk_conf conf),
      rfhelp_update_conf (app_nrf_conf conf)]\<rparr>"

text \<open>The switch of \<open>app_init\<close>; \<open>APP_CUSTOM\<close> starts nothing unless a custom application is compiled in.\<close>

fun app_starts :: "app_use \<Rightarrow> app_event list" where
  "app_starts APP_PPM = [app_ppm_start]"
| "app_starts APP_ADC = [app_adc_start True]"
| "app_starts APP_UART = [hw_stop_i2c, app_uartcomm_start]"
| "app_starts APP_PPM_UART = [hw_stop_i2c, app_ppm_start, app_uartcomm_start]"
| "app_starts APP_ADC_UART = [hw_stop_i2c, app_adc_start False, app_uartcomm_start]"
| "app_starts APP_NUNCHUK = [app_nunchuk_start]"
| "app_starts APP_NRF = [nrf_driver_init, rfhelp_restart]"
| "app_starts _ = []"

definition app_init :: "app_configuration \<Rightarrow> app \<Rightarrow> app" where
  "app_init conf s = (let s = app_set_configuration conf s in s\<lparr>app_events := app_events s @ app_starts (app_to_use (appconf s))\<rparr>)"

end
