(* ===== verification/Commands.thy ===== *)
theory Commands
  imports App ConfCodec ConfGeneral ConfDetect CommCan FlashHelper
begin

text \<open>
  The command interpreter of \<open>commands.c\<close>: \<open>commands_process_packet\<close> with all its cases, and the functions that send
  packets. It composes the other components: the motor interface, the timeout, the configuration
  storage, the firmware update, the CAN transport and the application layer.

  What is not modelled is in the environment \<open>cmd_env\<close>: the readings, the results of the measurements of \<open>mcpwm_foc.c\<close>, the
  decoded inputs of the applications, and the object representations of the two configurations.
  Calls that leave the modelled part are events. The packet is the caller's buffer and a length; the
  code reads the buffer without comparing against the length, so the buffer is the whole array. An
  access outside an array or a conversion that does not fit makes the operation \<^term>\<open>None\<close>.
\<close>

section \<open>State\<close>

datatype cmd_event =
    Sent u32 bytes | flash_helper_jump_to_bootloader | terminal_process_string bytes | detect_signal
  | Reboot | Can_frames "CANTxFrame list" | app_nunchuk_update_output chuck_data | appdata_call u32 bytes

record cmd_env =
  ce_env :: env
  ce_time :: u32
  ce_world :: world
  ntc_temp :: "nat \<Rightarrow> real"
  mcpwm_foc_measure_res_ind :: "bool \<times> real \<times> real"
  encoder_is_configured :: bool
  mcpwm_foc_encoder_detect :: "real \<Rightarrow> real \<times> real \<times> bool"
  mcpwm_foc_hall_detect :: "real \<Rightarrow> bool \<times> bytes"
  servodec_get_servo :: real
  servodec_get_last_pulse_len :: real
  app_adc_levels :: "real \<times> real \<times> real \<times> real"
  app_nunchuk_get_decoded_chuk :: real
  mc_repr :: "mc_configuration \<Rightarrow> bytes"
  app_repr :: "app_configuration \<Rightarrow> bytes"
  can_send_buffer :: bytes

record commands =
  send_buffer :: bytes
  cmd_send_func :: u32
  appdata_func :: u32
  display_position_mode :: disp_pos_mode
  detect_current :: real
  detect_min_rpm :: real
  detect_low_duty :: real
  cmd_cg :: cg
  cmd_tout :: timeout_state
  cmd_app :: app
  cmd_events :: "cmd_event list"

definition FW_VERSION_MAJOR :: u8 where "FW_VERSION_MAJOR = 2"
definition FW_VERSION_MINOR :: u8 where "FW_VERSION_MINOR = 18"

abbreviation cmd_mc :: "commands \<Rightarrow> mcif" where "cmd_mc s \<equiv> cg_mc (cmd_cg s)"

definition emit :: "cmd_event \<Rightarrow> commands \<Rightarrow> commands" where
  "emit e s = s\<lparr>cmd_events := cmd_events s @ [e]\<rparr>"

definition set_mc :: "mcif \<Rightarrow> commands \<Rightarrow> commands" where
  "set_mc m s = s\<lparr>cmd_cg := (cmd_cg s)\<lparr>cg_mc := m\<rparr>\<rparr>"

text \<open>The firmware update works on the same flash, lock and motor interface.\<close>

definition upd_view :: "commands \<Rightarrow> upd" where
  "upd_view s = \<lparr>upd_flash = ee_flash (cg_ee (cmd_cg s)), upd_sys = cg_sys (cmd_cg s), upd_mc = cg_mc (cmd_cg s)\<rparr>"

definition set_upd :: "upd \<Rightarrow> commands \<Rightarrow> commands" where
  "set_upd u s = s\<lparr>cmd_cg := \<lparr>cg_ee = (cg_ee (cmd_cg s))\<lparr>ee_flash := upd_flash u\<rparr>, cg_sys = upd_sys u, cg_mc = upd_mc u\<rparr>\<rparr>"

section \<open>Sending\<close>

definition commands_set_send_func :: "u32 \<Rightarrow> commands \<Rightarrow> commands" where
  "commands_set_send_func func s = s\<lparr>cmd_send_func := func\<rparr>"

definition commands_send_packet :: "bytes \<Rightarrow> commands \<Rightarrow> commands" where
  "commands_send_packet data s = (if cmd_send_func s \<noteq> 0 then emit (Sent (cmd_send_func s) data) s else s)"

text \<open>The pattern of all replies: \<open>ind = 0\<close>, a chain of stores into \<open>send_buffer\<close>, \<open>commands_send_packet(send_buffer, ind)\<close>.\<close>

definition reply :: "COMM_PACKET_ID \<Rightarrow> writer list \<Rightarrow> commands \<Rightarrow> commands option" where
  "reply pid ws s =
     do { (b, ind) \<leftarrow> put_seq (w_u8 (COMM_PACKET_ID_code pid) # ws) (send_buffer s) 0;
          Some (commands_send_packet (take ind b) (s\<lparr>send_buffer := b\<rparr>)) }"

text \<open>\<open>str\<close> is what \<open>vsnprintf\<close> formats; it keeps 253 characters and a terminating zero.\<close>

definition commands_printf :: "bytes \<Rightarrow> commands \<Rightarrow> commands" where
  "commands_printf str s =
     (let n = length str; buf = COMM_PACKET_ID_code COMM_PRINT # take 253 str @ [0] in
      if n > 0 then commands_send_packet (take (if n < 254 then n + 1 else 255) buf) s else s)"

definition commands_send_samples :: "bytes \<Rightarrow> commands \<Rightarrow> commands" where
  "commands_send_samples data s = commands_send_packet (COMM_PACKET_ID_code COMM_SAMPLE_PRINT # data) s"

definition commands_send_rotor_pos :: "real \<Rightarrow> commands \<Rightarrow> commands option" where
  "commands_send_rotor_pos rotor_pos s =
     do { (b, ind) \<leftarrow> put_seq [w_u8 (COMM_PACKET_ID_code COMM_ROTOR_POSITION), w_f32 rotor_pos 100000] (replicate 5 0) 0;
          Some (commands_send_packet (take ind b) s) }"

definition commands_send_experiment_samples :: "real list \<Rightarrow> commands \<Rightarrow> commands option" where
  "commands_send_experiment_samples samples s =
     (if length samples * 4 + 1 > 256 then Some s
      else do { (b, ind) \<leftarrow> put_seq (w_u8 (COMM_PACKET_ID_code COMM_EXPERIMENT_SAMPLE) # map (\<lambda>x. w_f32 x 10000) samples)
                  (replicate (length samples * 4 + 1) 0) 0;
                Some (commands_send_packet (take ind b) s) })"

definition commands_get_disp_pos_mode :: "commands \<Rightarrow> disp_pos_mode" where
  "commands_get_disp_pos_mode s = display_position_mode s"

definition commands_set_app_data_handler :: "u32 \<Rightarrow> commands \<Rightarrow> commands" where
  "commands_set_app_data_handler func s = s\<lparr>appdata_func := func\<rparr>"

definition commands_send_app_data :: "bytes \<Rightarrow> commands \<Rightarrow> commands option" where
  "commands_send_app_data data s = reply COMM_CUSTOM_APP_DATA [w_bytes data (length data)] s"

section \<open>Commands\<close>

definition motor_packet :: "cmd_env \<Rightarrow> (mcif \<Rightarrow> mcif) \<Rightarrow> commands \<Rightarrow> commands" where
  "motor_packet ce f s = (set_mc (f (cmd_mc s)) s)\<lparr>cmd_tout := timeout_reset (ce_time ce) (cmd_tout s)\<rparr>"

definition flash_reply :: "COMM_PACKET_ID \<Rightarrow> u16 \<times> upd \<Rightarrow> commands \<Rightarrow> commands option" where
  "flash_reply pid r s =
     (let (flash_res, u) = r in
      reply pid [w_u8 (if flash_res = status_code FLASH_COMPLETE then 1 else 0)] (set_upd u s))"

definition get_values :: "cmd_env \<Rightarrow> commands \<Rightarrow> commands option" where
  "get_values ce s =
     (let env = ce_env ce; m = cmd_mc s;
          (avg_m, m) = mc_interface_read_reset_avg_motor_current m;
          (avg_in, m) = mc_interface_read_reset_avg_input_current m;
          t = ntc_temp ce in
      do { am \<leftarrow> avg_m; ai \<leftarrow> avg_in;
           reply COMM_GET_VALUES
             [w_f16 (t 1) 10, w_f16 (t 2) 10, w_f16 (t 3) 10, w_f16 (t 4) 10, w_f16 (t 5) 10, w_f16 (t 6) 10, w_f16 (t 7) 10,
              w_f32 am 100, w_f32 ai 100, w_f16 (mc_interface_get_duty_cycle_now env m) 1000,
              w_f32 (mc_interface_get_rpm env m) 1, w_f16 (input_voltage (now env m)) 10,
              w_f32 (fst (mc_interface_get_amp_hours False m)) 10000,
              w_f32 (fst (mc_interface_get_amp_hours_charged False m)) 10000,
              w_f32 (fst (mc_interface_get_watt_hours False m)) 10000,
              w_f32 (fst (mc_interface_get_watt_hours_charged False m)) 10000,
              w_i32 (word_of_int (fst (mc_interface_get_tachometer_value env False m))),
              w_i32 (word_of_int (fst (mc_interface_get_tachometer_abs_value env False m))),
              w_u8 (mc_fault_code_code (mc_interface_get_fault m))]
             (set_mc m s) })"

definition set_detect :: "cmd_env \<Rightarrow> bytes \<Rightarrow> commands \<Rightarrow> commands option" where
  "set_detect ce data s =
     do { b \<leftarrow> arr_get data 0;
          let mode = disp_pos_mode_of b;
          let f = (\<lambda>m. if motor_type (m_conf m) = MOTOR_TYPE_BLDC then
                   if mode = DISP_POS_MODE_NONE then mc_interface_release_motor (ce_env ce) m
                   else if mode = DISP_POS_MODE_INDUCTANCE then call mcpwm_set_detect m else m
                 else m);
          Some (motor_packet ce f (s\<lparr>display_position_mode := mode\<rparr>)) }"

definition set_mcconf :: "cmd_env \<Rightarrow> bytes \<Rightarrow> commands \<Rightarrow> commands option" where
  "set_mcconf ce data s =
     do { (mcconf, ind) \<leftarrow> get_seq mcconf_readers data 0 (m_conf (cmd_mc s));
          let (ok, g) = conf_general_store_mc_configuration (ce_env ce) (mc_repr ce mcconf) (cmd_cg s);
          let s = s\<lparr>cmd_cg := g\<lparr>cg_mc := mc_interface_set_configuration (ce_env ce) mcconf (cg_mc g)\<rparr>\<rparr>;
          reply COMM_SET_MCCONF [] s }"

definition set_appconf :: "cmd_env \<Rightarrow> bytes \<Rightarrow> commands \<Rightarrow> commands option" where
  "set_appconf ce data s =
     do { (conf, ind) \<leftarrow> get_seq appconf_readers data 0 (app_get_configuration (cmd_app s));
          let (ok, g) = conf_general_store_app_configuration (ce_env ce) (app_repr ce conf) (cmd_cg s);
          let s = s\<lparr>cmd_cg := g, cmd_app := app_set_configuration conf (cmd_app s),
                    cmd_tout := timeout_configure (app_configuration.timeout_msec conf)
                      (app_configuration.timeout_brake_current conf) (cmd_tout s)\<rparr>;
          reply COMM_SET_APPCONF [] s }"

definition get_mcconf :: "COMM_PACKET_ID \<Rightarrow> commands \<Rightarrow> commands option" where
  "get_mcconf pid s =
     reply pid (mcconf_writers (if pid = COMM_GET_MCCONF then m_conf (cmd_mc s)
       else conf_general_get_default_mc_configuration)) s"

definition get_appconf :: "COMM_PACKET_ID \<Rightarrow> commands \<Rightarrow> commands option" where
  "get_appconf pid s =
     reply pid (appconf_writers (if pid = COMM_GET_APPCONF then app_get_configuration (cmd_app s)
       else conf_general_get_default_app_configuration)) s"

text \<open>The measurements configure the field-oriented driver, measure, and configure back.\<close>

definition with_conf :: "cmd_env \<Rightarrow> (mc_configuration \<Rightarrow> mc_configuration) \<Rightarrow> commands \<Rightarrow> commands" where
  "with_conf ce f s =
     (let old = m_conf (cmd_mc s); env = ce_env ce in
      set_mc (mc_interface_set_configuration env old (mc_interface_set_configuration env (f old) (cmd_mc s))) s)"

definition foc_detect_conf :: "mc_configuration \<Rightarrow> mc_configuration" where
  "foc_detect_conf c = c\<lparr>motor_type := MOTOR_TYPE_FOC, foc_f_sw := 10000, foc_current_kp := fl 0.01, foc_current_ki := 10\<rparr>"

definition detect_motor_r_l :: "cmd_env \<Rightarrow> commands \<Rightarrow> commands option" where
  "detect_motor_r_l ce s =
     (let (res, r, l) = mcpwm_foc_measure_res_ind ce in
      reply COMM_DETECT_MOTOR_R_L [w_f32 (if res then r else 0) 1000000, w_f32 (if res then l else 0) 1000]
        (with_conf ce (\<lambda>c. c\<lparr>motor_type := MOTOR_TYPE_FOC\<rparr>) s))"

definition detect_flux_linkage :: "cmd_env \<Rightarrow> bytes \<Rightarrow> commands \<Rightarrow> commands option" where
  "detect_flux_linkage ce data s =
     do { (cur, ind) \<leftarrow> buffer_get_float32 data 1000 0; (min_rpm, ind) \<leftarrow> buffer_get_float32 data 1000 ind;
          (duty, ind) \<leftarrow> buffer_get_float32 data 1000 ind; (resistance, ind) \<leftarrow> buffer_get_float32 data 1000000 ind;
          let ((res, linkage), st) = conf_general_measure_flux_linkage (ce_world ce) cur duty min_rpm resistance
            \<lparr>me_mc = cmd_mc s, me_tout = cmd_tout s, me_time = 0\<rparr>;
          l \<leftarrow> (if res then linkage else Some 0);
          reply COMM_DETECT_MOTOR_FLUX_LINKAGE [w_f32 l 10000000] ((set_mc (me_mc st) s)\<lparr>cmd_tout := me_tout st\<rparr>) }"

definition detect_encoder :: "cmd_env \<Rightarrow> bytes \<Rightarrow> commands \<Rightarrow> commands option" where
  "detect_encoder ce data s =
     (if encoder_is_configured ce then
        do { (cur, ind) \<leftarrow> buffer_get_float32 data 1000 0;
             let (offset, ratio, inverted) = mcpwm_foc_encoder_detect ce cur;
             reply COMM_DETECT_ENCODER [w_f32 offset 1000000, w_f32 ratio 1000000, w_u8 (of_bool inverted)]
               (with_conf ce foc_detect_conf s) }
      else reply COMM_DETECT_ENCODER [w_f32 1001 1000000, w_f32 0 1000000, w_u8 0] s)"

text \<open>Without hall sensors the reply is prepared, over the first bytes of the buffer, and not sent.\<close>

definition detect_hall_foc :: "cmd_env \<Rightarrow> bytes \<Rightarrow> commands \<Rightarrow> commands option" where
  "detect_hall_foc ce data s =
     (if m_sensor_port_mode (m_conf (cmd_mc s)) = SENSOR_PORT_MODE_HALL then
        do { (cur, ind) \<leftarrow> buffer_get_float32 data 1000 0;
             let (res, hall_tab) = mcpwm_foc_hall_detect ce cur;
             reply COMM_DETECT_HALL_FOC [w_bytes hall_tab 8, w_u8 (if res then 0 else 1)] (with_conf ce foc_detect_conf s) }
      else
        do { (b, ind) \<leftarrow> arr_put (send_buffer s) 0 [COMM_PACKET_ID_code COMM_DETECT_HALL_FOC];
             b \<leftarrow> memcpy b 0 (replicate 8 255) 8;
             (b, ind) \<leftarrow> arr_put b (ind + 8) [0];
             Some (s\<lparr>send_buffer := b\<rparr>) })"

definition set_chuck_data :: "bytes \<Rightarrow> commands \<Rightarrow> commands option" where
  "set_chuck_data data s =
     do { x \<leftarrow> arr_get data 0; y \<leftarrow> arr_get data 1; c \<leftarrow> arr_get data 2; z \<leftarrow> arr_get data 3;
          (ax, ind) \<leftarrow> buffer_get_int16 data 4; (ay, ind) \<leftarrow> buffer_get_int16 data ind; (az, ind) \<leftarrow> buffer_get_int16 data ind;
          Some (emit (app_nunchuk_update_output \<lparr>cd_js_x = uint x, cd_js_y = uint y, cd_acc_x = sint ax, cd_acc_y = sint ay,
            cd_acc_z = sint az, cd_bt_c = (c \<noteq> 0), cd_bt_z = (z \<noteq> 0)\<rparr>) s) }"

definition process_command :: "cmd_env \<Rightarrow> COMM_PACKET_ID \<Rightarrow> bytes \<Rightarrow> u32 \<Rightarrow> commands \<Rightarrow> commands option" where
  "process_command ce pid data len s =
     (let env = ce_env ce in
      case pid of
        COMM_FW_VERSION \<Rightarrow> reply COMM_FW_VERSION [w_u8 FW_VERSION_MAJOR, w_u8 FW_VERSION_MINOR] s
      | COMM_JUMP_TO_BOOTLOADER \<Rightarrow> Some (emit flash_helper_jump_to_bootloader s)
      | COMM_ERASE_NEW_APP \<Rightarrow>
          do { (n, ind) \<leftarrow> buffer_get_uint32 data 0;
               flash_reply COMM_ERASE_NEW_APP (flash_helper_erase_new_app env n (upd_view s)) s }
      | COMM_WRITE_NEW_APP_DATA \<Rightarrow>
          do { (offset, ind) \<leftarrow> buffer_get_uint32 data 0;
               r \<leftarrow> flash_helper_write_new_app_data env offset (drop ind data) (len - of_nat ind) (upd_view s);
               flash_reply COMM_WRITE_NEW_APP_DATA r s }
      | COMM_GET_VALUES \<Rightarrow> get_values ce s
      | COMM_SET_DUTY \<Rightarrow>
          do { (v, ind) \<leftarrow> buffer_get_int32 data 0;
               Some (motor_packet ce (mc_interface_set_duty env (fl (fl (of_int (sint v)) / 100000))) s) }
      | COMM_SET_CURRENT \<Rightarrow>
          do { (v, ind) \<leftarrow> buffer_get_int32 data 0;
               Some (motor_packet ce (mc_interface_set_current env (fl (fl (of_int (sint v)) / 1000))) s) }
      | COMM_SET_CURRENT_BRAKE \<Rightarrow>
          do { (v, ind) \<leftarrow> buffer_get_int32 data 0;
               Some (motor_packet ce (mc_interface_set_brake_current env (fl (fl (of_int (sint v)) / 1000))) s) }
      | COMM_SET_RPM \<Rightarrow>
          do { (v, ind) \<leftarrow> buffer_get_int32 data 0;
               Some (motor_packet ce (mc_interface_set_pid_speed env (fl (of_int (sint v)))) s) }
      | COMM_SET_POS \<Rightarrow>
          do { (v, ind) \<leftarrow> buffer_get_int32 data 0;
               Some (motor_packet ce (mc_interface_set_pid_pos env (fl (fl (of_int (sint v)) / 1000000))) s) }
      | COMM_SET_DETECT \<Rightarrow> set_detect ce data s
      | COMM_SET_SERVO_POS \<Rightarrow> Some s
      | COMM_SET_MCCONF \<Rightarrow> set_mcconf ce data s
      | COMM_GET_MCCONF \<Rightarrow> get_mcconf pid s
      | COMM_GET_MCCONF_DEFAULT \<Rightarrow> get_mcconf pid s
      | COMM_SET_APPCONF \<Rightarrow> set_appconf ce data s
      | COMM_GET_APPCONF \<Rightarrow> get_appconf pid s
      | COMM_GET_APPCONF_DEFAULT \<Rightarrow> get_appconf pid s
      | COMM_SAMPLE_PRINT \<Rightarrow>
          do { a \<leftarrow> arr_get data 0; (n, ind) \<leftarrow> buffer_get_uint16 data 1; d \<leftarrow> arr_get data ind;
               Some (set_mc (mc_interface_sample_print_data env (a \<noteq> 0) n d (cmd_mc s)) s) }
      | COMM_TERMINAL_CMD \<Rightarrow>
          do { data \<leftarrow> arr_set data (unat len) 0;
               Some (emit (terminal_process_string (takeWhile (\<lambda>b. b \<noteq> 0) data)) s) }
      | COMM_DETECT_MOTOR_PARAM \<Rightarrow>
          do { (x, ind) \<leftarrow> buffer_get_float32 data 1000 0; (y, ind) \<leftarrow> buffer_get_float32 data 1000 ind;
               (z, ind) \<leftarrow> buffer_get_float32 data 1000 ind;
               Some (emit detect_signal (s\<lparr>detect_current := x, detect_min_rpm := y, detect_low_duty := z\<rparr>)) }
      | COMM_DETECT_MOTOR_R_L \<Rightarrow> detect_motor_r_l ce s
      | COMM_DETECT_MOTOR_FLUX_LINKAGE \<Rightarrow> detect_flux_linkage ce data s
      | COMM_DETECT_ENCODER \<Rightarrow> detect_encoder ce data s
      | COMM_DETECT_HALL_FOC \<Rightarrow> detect_hall_foc ce data s
      | COMM_REBOOT \<Rightarrow> Some (emit Reboot s)
      | COMM_ALIVE \<Rightarrow> Some (s\<lparr>cmd_tout := timeout_reset (ce_time ce) (cmd_tout s)\<rparr>)
      | COMM_GET_DECODED_PPM \<Rightarrow>
          reply COMM_GET_DECODED_PPM [w_f32 (servodec_get_servo ce) 1000000, w_f32 (servodec_get_last_pulse_len ce) 1000000] s
      | COMM_GET_DECODED_ADC \<Rightarrow>
          (let (a, b, c, d) = app_adc_levels ce in
           reply COMM_GET_DECODED_ADC [w_f32 a 1000000, w_f32 b 1000000, w_f32 c 1000000, w_f32 d 1000000] s)
      | COMM_GET_DECODED_CHUK \<Rightarrow> reply COMM_GET_DECODED_CHUK [w_f32 (app_nunchuk_get_decoded_chuk ce) 1000000] s
      | COMM_FORWARD_CAN \<Rightarrow>
          do { c \<leftarrow> arr_get data 0;
               fs \<leftarrow> comm_can_send_buffer (controller_id (app_get_configuration (cmd_app s))) c (drop 1 data) (unat (len - 1)) False
                 (can_send_buffer ce);
               Some (emit (Can_frames fs) s) }
      | COMM_SET_CHUCK_DATA \<Rightarrow> set_chuck_data data s
      | COMM_CUSTOM_APP_DATA \<Rightarrow>
          Some (if appdata_func s \<noteq> 0 then emit (appdata_call (appdata_func s) (take (unat len) data)) s else s)
      | _ \<Rightarrow> Some s)"

definition commands_process_packet :: "cmd_env \<Rightarrow> bytes \<Rightarrow> u32 \<Rightarrow> commands \<Rightarrow> commands option" where
  "commands_process_packet ce data len s =
     (if len = 0 then Some s
      else do { b \<leftarrow> arr_get data 0; process_command ce (COMM_PACKET_ID_of b) (drop 1 data) (len - 1) s })"

text \<open>One round of the detection thread.\<close>

definition detect_thread :: "cmd_env \<Rightarrow> commands \<Rightarrow> commands option" where
  "detect_thread ce s =
     (let (d, st) = conf_general_detect_motor_param (ce_world ce) (detect_current s) (detect_min_rpm s) (detect_low_duty s)
            \<lparr>me_mc = cmd_mc s, me_tout = cmd_tout s, me_time = 0\<rparr>;
          s = (set_mc (me_mc st) s)\<lparr>cmd_tout := me_tout st\<rparr> in
      do { k \<leftarrow> (if det_ok d then bemf_coupling_k d else Some 0);
           reply COMM_DETECT_MOTOR_PARAM
             [w_f32 (if det_ok d then int_limit d else 0) 1000, w_f32 k 1000, w_bytes (hall_table d) 8,
              w_u8 (word_of_int (hall_res d))] s })"


section \<open>Replies\<close>

text \<open>A reply is the identifier and the bytes of its fields.\<close>

lemma reply_sent:
  assumes "reply pid ws s = Some s'" "cmd_send_func s \<noteq> 0"
  shows "\<exists>b ind. put_seq (w_u8 (COMM_PACKET_ID_code pid) # ws) (send_buffer s) 0 = Some (b, ind) \<and>
    cmd_events s' = cmd_events s @ [Sent (cmd_send_func s) (take ind b)] \<and> cmd_cg s' = cmd_cg s \<and> cmd_app s' = cmd_app s \<and> cmd_tout s' = cmd_tout s"
  using assms by (auto simp: reply_def commands_send_packet_def emit_def split: bind_splits)

lemma reply_nil:
  assumes "0 < length (send_buffer s)"
  shows "\<exists>s'. reply pid [] s = Some s' \<and> cmd_cg s' = cmd_cg s \<and> cmd_app s' = cmd_app s \<and> cmd_tout s' = cmd_tout s \<and>
    cmd_events s' = cmd_events s @ (if cmd_send_func s \<noteq> 0 then [Sent (cmd_send_func s) [COMM_PACKET_ID_code pid]] else [])"
  using assms by (cases "send_buffer s") (auto simp: reply_def w_u8_def put_u8_def arr_set_def commands_send_packet_def emit_def)

text \<open>The payload of a configuration reply, and what the loads make of it anywhere.\<close>

lemma reply_fields:
  assumes "\<exists>us. fields_ok ws rs us \<and> (\<forall>c0. fold (\<lambda>u. u) us c0 = q)" "reply pid ws s = Some s'" "cmd_send_func s \<noteq> 0"
  shows "\<exists>payload. cmd_events s' = cmd_events s @ [Sent (cmd_send_func s) (COMM_PACKET_ID_code pid # payload)] \<and>
    (\<forall>rest c0. get_seq rs (payload @ rest) 0 c0 = Some (q, length payload))"
proof -
  obtain b ind where 1: "put_seq (w_u8 (COMM_PACKET_ID_code pid) # ws) (send_buffer s) 0 = Some (b, ind)"
    "cmd_events s' = cmd_events s @ [Sent (cmd_send_func s) (take ind b)]"
    using reply_sent [OF assms(2,3)] by blast
  obtain b1 where b1: "arr_put (send_buffer s) 0 [COMM_PACKET_ID_code pid] = Some (b1, 1)" "put_seq ws b1 1 = Some (b, ind)"
    using 1(1) by (auto simp: w_u8_def put_u8_def arr_set_def split: bind_splits if_splits)
  obtain p where p: "ind = 1 + length p" "arr_put b1 1 p = Some (b, ind)"
    "\<And>data c0 j. j + length p \<le> length data \<Longrightarrow> take (length p) (drop j data) = p \<Longrightarrow> get_seq rs data j c0 = Some (q, j + length p)"
    using fields_transfer [OF assms(1) b1(2)] by blast
  have "take ind b = COMM_PACKET_ID_code pid # p"
  proof -
    have "arr_put (send_buffer s) 0 (COMM_PACKET_ID_code pid # p) = Some (b, ind)"
      using arr_put_append [of "send_buffer s" 0 "[COMM_PACKET_ID_code pid]" p] b1(1) p(2)
      by (simp only: append.simps bind.bind_lunit prod.case)
    then show ?thesis using p(1) unfolding arr_put_Some_iff by auto
  qed
  then show ?thesis using 1(2) p(3) [of 0 "p @ _"] by auto
qed


section \<open>Transfer of the configurations\<close>

text \<open>When the stores are defined: a field of \<open>n\<close> bytes that fits the buffer is stored.\<close>

definition sized :: "nat \<Rightarrow> writer \<Rightarrow> bool" where
  "sized n w \<longleftrightarrow> (\<forall>buf ind. ind + n \<le> length buf \<longrightarrow> (\<exists>buf'. w buf ind = Some (buf', ind + n) \<and> length buf' = length buf))"

lemma sizedE:
  assumes "sized n w" "ind + n \<le> length buf"
  obtains b where "w buf ind = Some (b, ind + n)" "length b = length buf"
  using assms unfolding sized_def by blast

lemma sized_writes: "writes w (Some bs) \<Longrightarrow> sized (length bs) w"
  by (auto simp: sized_def writes_def arr_put_fits)

lemma sized_atoms: "sized 1 (w_u8 b)" "sized 2 (w_u16 n)" "sized 4 (w_i32 m)" "sized 4 (w_u32 m)"
  using sized_writes [OF writes_atoms(1), of b] sized_writes [OF writes_atoms(3), of n]
    sized_writes [OF writes_atoms(4), of m] sized_writes [OF writes_atoms(5), of m]
  by (simp_all add: u16c.length_enc i32c.length_enc u32c.length_enc)

lemma sized_bytes: "length bs = n \<Longrightarrow> sized n (w_bytes bs n)"
  by (auto simp: sized_def w_bytes_def memcpy_def)

lemma f2i32_fl: "\<bar>x\<bar> \<le> 2 ^ 30 \<Longrightarrow> \<exists>n. f2i32 (fl x) = Some n"
proof -
  assume "\<bar>x\<bar> \<le> 2 ^ 30"
  moreover have "is_f32 (2 ^ 30)" unfolding is_f32_def by (intro exI [of _ 1] exI [of _ 30]) (simp add: powr_numeral)
  ultimately have "\<bar>fl x\<bar> \<le> 2 ^ 30" by (rule f32.rnd_abs_le)
  then have "-(2 ^ 30) \<le> ftrunc (fl x)" "ftrunc (fl x) \<le> 2 ^ 30" unfolding ftrunc_def by (auto; linarith)+
  then show ?thesis by (simp add: f2i32_def)
qed

lemma sized_f32: "\<bar>x * s\<bar> \<le> 2 ^ 30 \<Longrightarrow> sized 4 (w_f32 x s)"
proof -
  assume "\<bar>x * s\<bar> \<le> 2 ^ 30"
  then obtain n where n: "f2i32 (fl (x * s)) = Some n" using f2i32_fl by blast
  show ?thesis using sized_writes [of _ "enc32 n"] writes_atoms(7) [of x s] by (simp add: n i32c.length_enc)
qed

lemma sized_f32_fl: "\<bar>q\<bar> \<le> 1 \<Longrightarrow> 0 \<le> s \<Longrightarrow> s \<le> 2 ^ 30 \<Longrightarrow> sized 4 (w_f32 (fl q) s)"
  using f32.rnd_abs_le [of q 1] is_f32_numeral [of num.One] mult_mono [of "\<bar>fl q\<bar>" 1 s "2 ^ 30"]
  by (intro sized_f32) (simp add: abs_mult)

lemma sized_seq: "list_all2 sized ns ws \<Longrightarrow> sized (sum_list ns) (put_seq ws)"
proof (induction rule: list_all2_induct)
  case (Cons n ns w ws)
  show ?case unfolding sized_def
  proof (intro allI impI)
    fix buf :: bytes and ind assume le: "ind + sum_list (n # ns) \<le> length buf"
    then have "ind + n \<le> length buf" by simp
    with Cons.hyps(1) obtain b where b: "w buf ind = Some (b, ind + n)" "length b = length buf" by (rule sizedE)
    then have "(ind + n) + sum_list ns \<le> length b" using le by simp
    with Cons.IH obtain b' where "put_seq ws b (ind + n) = Some (b', ind + n + sum_list ns)" "length b' = length b" by (rule sizedE)
    then show "\<exists>buf'. put_seq (w # ws) buf ind = Some (buf', ind + sum_list (n # ns)) \<and> length buf' = length buf"
      using b by (simp add: add.assoc)
  qed
qed (simp add: sized_def)

lemma reply_defined:
  assumes "\<exists>ns. list_all2 sized ns ws \<and> 1 + sum_list ns \<le> length (send_buffer s)"
  shows "\<exists>s'. reply pid ws s = Some s'"
proof -
  obtain ns where ns: "list_all2 sized ns ws" "1 + sum_list ns \<le> length (send_buffer s)" using assms by blast
  then have "sized (sum_list (1 # ns)) (put_seq (w_u8 (COMM_PACKET_ID_code pid) # ws))"
    by (intro sized_seq list_all2_Cons [THEN iffD2] conjI sized_atoms)
  moreover have "0 + sum_list (1 # ns) \<le> length (send_buffer s)" using ns(2) by simp
  ultimately obtain b where "put_seq (w_u8 (COMM_PACKET_ID_code pid) # ws) (send_buffer s) 0 = Some (b, 0 + sum_list (1 # ns))"
    by (rule sizedE)
  then show ?thesis by (simp add: reply_def)
qed

lemmas real_defaults =
  APPCONF_TIMEOUT_BRAKE_CURRENT_def APPCONF_PPM_PID_MAX_ERPM_def APPCONF_PPM_HYST_def APPCONF_PPM_PULSE_START_def
  APPCONF_PPM_PULSE_END_def APPCONF_PPM_RPM_LIM_START_def APPCONF_PPM_RPM_LIM_END_def APPCONF_PPM_TC_MAX_DIFF_def
  APPCONF_ADC_HYST_def APPCONF_ADC_VOLTAGE_START_def APPCONF_ADC_VOLTAGE_END_def APPCONF_ADC_RPM_LIM_START_def
  APPCONF_ADC_RPM_LIM_END_def APPCONF_ADC_TC_MAX_DIFF_def APPCONF_CHUK_HYST_def APPCONF_CHUK_RPM_LIM_START_def
  APPCONF_CHUK_RPM_LIM_END_def APPCONF_CHUK_RAMP_TIME_POS_def APPCONF_CHUK_RAMP_TIME_NEG_def
  APPCONF_STICK_ERPM_PER_S_IN_CC_def APPCONF_CHUK_TC_MAX_DIFF_def MCCONF_L_CURRENT_MAX_def MCCONF_L_CURRENT_MIN_def
  MCCONF_L_IN_CURRENT_MAX_def MCCONF_L_IN_CURRENT_MIN_def MCCONF_L_MAX_ABS_CURRENT_def MCCONF_L_RPM_MIN_def
  MCCONF_L_RPM_MAX_def MCCONF_L_CURR_MAX_RPM_FBRAKE_def MCCONF_L_CURR_MAX_RPM_FBRAKE_CC_def MCCONF_L_MIN_VOLTAGE_def
  MCCONF_L_MAX_VOLTAGE_def MCCONF_L_BATTERY_CUT_START_def MCCONF_L_BATTERY_CUT_END_def MCCONF_L_LIM_TEMP_FET_START_def
  MCCONF_L_LIM_TEMP_FET_END_def MCCONF_L_LIM_TEMP_MOTOR_START_def MCCONF_L_LIM_TEMP_MOTOR_END_def
  MCCONF_L_MIN_DUTY_def MCCONF_L_MAX_DUTY_def MCCONF_SL_MIN_RPM_def MCCONF_SL_MAX_FB_CURR_DIR_CHANGE_def
  MCCONF_SL_MIN_ERPM_CYCLE_INT_LIMIT_def MCCONF_SL_CYCLE_INT_LIMIT_def MCCONF_SL_PHASE_ADVANCE_AT_BR_def
  MCCONF_SL_CYCLE_INT_BR_def MCCONF_SL_BEMF_COUPLING_K_def MCCONF_HALL_ERPM_def MCCONF_FOC_CURRENT_KP_def
  MCCONF_FOC_CURRENT_KI_def MCCONF_FOC_F_SW_def MCCONF_FOC_DT_US_def MCCONF_FOC_ENCODER_OFFSET_def
  MCCONF_FOC_ENCODER_RATIO_def MCCONF_FOC_PLL_KP_def MCCONF_FOC_PLL_KI_def MCCONF_FOC_MOTOR_L_def
  MCCONF_FOC_MOTOR_R_def MCCONF_FOC_MOTOR_FLUX_LINKAGE_def MCCONF_FOC_OBSERVER_GAIN_def
  MCCONF_FOC_DUTY_DOWNRAMP_KP_def MCCONF_FOC_DUTY_DOWNRAMP_KI_def MCCONF_FOC_OPENLOOP_RPM_def
  MCCONF_FOC_SL_OPENLOOP_HYST_def MCCONF_FOC_SL_OPENLOOP_TIME_def MCCONF_FOC_SL_D_CURRENT_DUTY_def
  MCCONF_FOC_SL_D_CURRENT_FACTOR_def MCCONF_FOC_SL_ERPM_def MCCONF_S_PID_KP_def MCCONF_S_PID_KI_def
  MCCONF_S_PID_KD_def MCCONF_S_PID_MIN_RPM_def MCCONF_P_PID_KP_def MCCONF_P_PID_KI_def MCCONF_P_PID_KD_def
  MCCONF_P_PID_ANG_DIV_def MCCONF_CC_STARTUP_BOOST_DUTY_def MCCONF_CC_MIN_CURRENT_def MCCONF_CC_GAIN_def
  MCCONF_CC_RAMP_STEP_def MCCONF_M_RAMP_STEP_def MCCONF_M_RAMP_STEP_RPM_LIM_def MCCONF_M_CURRENT_BACKOFF_GAIN_def

lemmas sized_intros = list_all2_Cons [THEN iffD2, OF conjI] list_all2_Nil [THEN iffD2, OF refl] sized_atoms sized_bytes

lemma default_mc_sized:
  "\<exists>ns. list_all2 sized ns (mcconf_writers conf_general_get_default_mc_configuration) \<and> 1 + sum_list ns \<le> 1024"
  unfolding mcconf_writers_def default_conf mc_configuration.simps real_defaults
  apply (intro exI conjI)
   apply ((rule sized_intros sized_f32_fl sized_f32 | (simp; fail))+)[1]
  apply simp
  done

lemma default_app_sized:
  "\<exists>ns. list_all2 sized ns (appconf_writers conf_general_get_default_app_configuration) \<and> 1 + sum_list ns \<le> 1024"
  unfolding appconf_writers_def conf_general_get_default_app_configuration_def real_defaults
    app_configuration.simps ppm_config.simps adc_config.simps chuk_config.simps nrf_config.simps
  apply (intro exI conjI)
   apply ((rule sized_intros sized_f32_fl sized_f32 | (simp; fail))+)[1]
  apply simp
  done

section \<open>Properties\<close>

text \<open>C26: The reply to \<open>COMM_GET_MCCONF\<close>, sent back as \<open>COMM_SET_MCCONF\<close> to any controller, in whatever state and with
  whatever follows it in the buffer, is accepted and configures the motor interface with the
  configuration whose scaled fields are cut to the transmitted precision, in all fields but the four
  override limits that the interface recomputes.\<close>

theorem mcconf_transfer:
  assumes "length (mc_configuration.hall_table (m_conf (cmd_mc s))) = 8" "length (foc_hall_table (m_conf (cmd_mc s))) = 8"
    and "cmd_send_func s \<noteq> 0" "len \<noteq> 0" "commands_process_packet ce (13 # junk) len s = Some s1"
  shows "\<exists>payload. cmd_events s1 = cmd_events s @ [Sent (cmd_send_func s) (13 # payload)] \<and>
    (\<forall>ce2 len2 tail t. len2 \<noteq> 0 \<longrightarrow> 0 < length (send_buffer t) \<longrightarrow>
      (\<exists>t'. commands_process_packet ce2 (12 # payload @ tail) len2 t = Some t' \<and>
        base_conf (m_conf (cmd_mc t')) = base_conf (mc_quantised (m_conf (cmd_mc s)))))"
proof -
  have "reply COMM_GET_MCCONF (mcconf_writers (m_conf (cmd_mc s))) s = Some s1"
    using assms(4,5) by (simp add: commands_process_packet_def arr_get_def COMM_PACKET_ID_of_def process_command_def get_mcconf_def)
  from reply_fields [OF mc_fields [OF assms(1,2)] this assms(3)]
  obtain payload where p: "cmd_events s1 = cmd_events s @ [Sent (cmd_send_func s) (13 # payload)]"
    "\<And>tail c0. get_seq mcconf_readers (payload @ tail) 0 c0 = Some (mc_quantised (m_conf (cmd_mc s)), length payload)"
    by auto
  have "\<exists>t'. commands_process_packet ce2 (12 # payload @ tail) len2 t = Some t' \<and>
      base_conf (m_conf (cmd_mc t')) = base_conf (mc_quantised (m_conf (cmd_mc s)))"
    if t: "len2 \<noteq> 0" "0 < length (send_buffer t)" for ce2 len2 tail t
  proof -
    let ?q = "mc_quantised (m_conf (cmd_mc s))"
    let ?g = "snd (conf_general_store_mc_configuration (ce_env ce2) (mc_repr ce2 ?q) (cmd_cg t))"
    let ?t = "t\<lparr>cmd_cg := ?g\<lparr>cg_mc := mc_interface_set_configuration (ce_env ce2) ?q (cg_mc ?g)\<rparr>\<rparr>"
    have "commands_process_packet ce2 (12 # payload @ tail) len2 t = reply COMM_SET_MCCONF [] ?t"
      using t(1) by (simp add: commands_process_packet_def arr_get_def COMM_PACKET_ID_of_def process_command_def
          set_mcconf_def p(2) split_beta Let_def)
    then show ?thesis using reply_nil [of ?t COMM_SET_MCCONF] t(2) set_configuration_base by auto
  qed
  then show ?thesis using p(1) by blast
qed

text \<open>C27: The reply to \<open>COMM_GET_APPCONF\<close>, sent back as \<open>COMM_SET_APPCONF\<close> to any controller, installs the same configuration, with the
  scaled fields cut to the transmitted precision: it is the configuration of the application layer, the timeout
  follows it, and it is what the next start reads from an intact store.\<close>

theorem appconf_transfer:
  assumes "length (nrf_address (app_nrf_conf (appconf (cmd_app s)))) = 3"
    and "cmd_send_func s \<noteq> 0" "len \<noteq> 0" "commands_process_packet ce (16 # junk) len s = Some s1"
  shows "\<exists>payload. cmd_events s1 = cmd_events s @ [Sent (cmd_send_func s) (16 # payload)] \<and>
    (let q = app_quantised (appconf (cmd_app s)) in
     \<forall>ce2 len2 tail t. len2 \<noteq> 0 \<longrightarrow> 0 < length (send_buffer t) \<longrightarrow>
      (\<exists>t'. commands_process_packet ce2 (15 # payload @ tail) len2 t = Some t' \<and>
        app_get_configuration (cmd_app t') = q \<and>
        timeout_state.timeout_msec (cmd_tout t') = app_configuration.timeout_msec q \<and>
        (ee_store_ok conf_tab (cg_ee (cmd_cg t)) \<longrightarrow> length (app_repr ce2 q) = sizeof_app \<longrightarrow>
          (\<forall>buf dflt. length buf = sizeof_app \<longrightarrow>
            conf_general_read_app_configuration dflt (ee_mem (cg_ee (cmd_cg t'))) buf = app_repr ce2 q))))"
proof -
  let ?q = "app_quantised (appconf (cmd_app s))"
  have "reply COMM_GET_APPCONF (appconf_writers (appconf (cmd_app s))) s = Some s1"
    using assms(3,4) by (simp add: commands_process_packet_def arr_get_def COMM_PACKET_ID_of_def process_command_def get_appconf_def
        app_get_configuration_def)
  from reply_fields [OF app_fields [OF assms(1)] this assms(2)]
  obtain payload where p: "cmd_events s1 = cmd_events s @ [Sent (cmd_send_func s) (16 # payload)]"
    "\<And>tail c0. get_seq appconf_readers (payload @ tail) 0 c0 = Some (?q, length payload)"
    by auto
  have "\<exists>t'. commands_process_packet ce2 (15 # payload @ tail) len2 t = Some t' \<and>
      app_get_configuration (cmd_app t') = ?q \<and> timeout_state.timeout_msec (cmd_tout t') = app_configuration.timeout_msec ?q \<and>
      (ee_store_ok conf_tab (cg_ee (cmd_cg t)) \<longrightarrow> length (app_repr ce2 ?q) = sizeof_app \<longrightarrow>
        (\<forall>buf dflt. length buf = sizeof_app \<longrightarrow>
          conf_general_read_app_configuration dflt (ee_mem (cg_ee (cmd_cg t'))) buf = app_repr ce2 ?q))"
    if t: "len2 \<noteq> 0" "0 < length (send_buffer t)" for ce2 len2 tail t
  proof -
    let ?t = "t\<lparr>cmd_cg := snd (conf_general_store_app_configuration (ce_env ce2) (app_repr ce2 ?q) (cmd_cg t)),
      cmd_app := app_set_configuration ?q (cmd_app t),
      cmd_tout := timeout_configure (app_configuration.timeout_msec ?q) (app_configuration.timeout_brake_current ?q) (cmd_tout t)\<rparr>"
    have "commands_process_packet ce2 (15 # payload @ tail) len2 t = reply COMM_SET_APPCONF [] ?t"
      using t(1) by (simp add: commands_process_packet_def arr_get_def COMM_PACKET_ID_of_def process_command_def
          set_appconf_def p(2) split_beta Let_def)
    moreover obtain t' where "reply COMM_SET_APPCONF [] ?t = Some t'" "cmd_cg t' = cmd_cg ?t" "cmd_app t' = cmd_app ?t" "cmd_tout t' = cmd_tout ?t"
      using reply_nil [of ?t COMM_SET_APPCONF] t(2) by auto
    ultimately show ?thesis using store_app_ok [of "cmd_cg t" "app_repr ce2 ?q" "ce_env ce2"]
      by (auto simp: app_set_configuration_def app_get_configuration_def timeout_configure_def simp del: sizeof_app)
  qed
  then show ?thesis unfolding Let_def using p(1) by blast
qed

text \<open>The motor commands a packet can carry.\<close>

definition packet_cmd :: "u8 \<Rightarrow> u32 \<Rightarrow> motor_cmd option" where
  "packet_cmd i n = (let x = fl (of_int (sint n)) in
     if i = 5 then Some (Duty (fl (x / 100000))) else if i = 6 then Some (Current (fl (x / 1000)))
     else if i = 7 then Some (Brake_current (fl (x / 1000))) else if i = 8 then Some (Pid_speed x)
     else if i = 9 then Some (Pid_pos (fl (x / 1000000))) else None)"

lemma motor_packet_runs:
  assumes "packet_cmd i n = Some c" "len \<noteq> 0"
  shows "commands_process_packet ce (i # enc32 n @ tail) len s = Some (motor_packet ce (run_cmd c (ce_env ce)) s)"
proof -
  have g: "buffer_get_int32 (enc32 n @ tail) 0 = Some (n, 4)"
    using i32c.get_enc [of 0 "enc32 n @ tail" n] by (simp add: i32c.length_enc)
  show ?thesis using assms g
    by (auto simp: packet_cmd_def Let_def commands_process_packet_def arr_get_def COMM_PACKET_ID_of_def process_command_def
        split: if_splits)
qed

text \<open>C29: A packet with one of the five motor commands does what its number says, when no fault is being held and no motor is being
  detected: unless the interface is locked the driver in charge gets the decoded request, with a closed lock the interface is unchanged, no
  reply is sent, and for a timeout of at most 429496 ms, beyond which its conversion to ticks wraps, the timeout thread leaves the motor
  alone until the timeout has passed from the time of the packet.\<close>

theorem motor_command_packet:
  assumes "packet_cmd i n = Some c" "len \<noteq> 0" "quiet (ce_env ce)" "m_ignore_iterations (cmd_mc s) = 0"
  shows "\<exists>s'. commands_process_packet ce (i # enc32 n @ tail) len s = Some s' \<and> cmd_events s' = cmd_events s \<and>
    (\<not> m_lock_enabled (cmd_mc s) \<longrightarrow> calls (cmd_mc s') = calls (cmd_mc s) @
       (case driver_of (motor_type (m_conf (cmd_mc s))) of Some d \<Rightarrow> [request c d] | None \<Rightarrow> [])) \<and>
    (m_lock_enabled (cmd_mc s) \<and> \<not> m_lock_override_once (cmd_mc s) \<longrightarrow> cmd_mc s' = cmd_mc s) \<and>
    (\<forall>env t m. unat (timeout_state.timeout_msec (cmd_tout s)) \<le> 429496 \<longrightarrow>
       t \<le> 10 * unat (timeout_state.timeout_msec (cmd_tout s)) \<longrightarrow>
       snd (timeout_thread env (ce_time ce + of_nat t) (cmd_tout s') m) = m)"
proof -
  have "\<not> chVTTimeElapsedSinceX (ce_time ce + of_nat t) (ce_time ce) > MS2ST ms"
    if "unat ms \<le> 429496" "t \<le> 10 * unat ms" for t and ms :: u32
    using that by (simp add: chVTTimeElapsedSinceX_def word_less_nat_alt MS2ST_exact unat_of_nat)
  then show ?thesis
    using motor_packet_runs [OF assms(1,2), of ce tail s] cmds.passes(1) [OF assms(3,4)] cmds.locked [OF assms(3,4)]
    by (simp add: motor_packet_def set_mc_def timeout_thread_def timeout_reset_def)
qed

lemma string_end: "n < length d \<Longrightarrow> takeWhile (\<lambda>b. b \<noteq> 0) (d[n := 0]) = takeWhile (\<lambda>b. b \<noteq> 0) (take n (d :: bytes))"
  by (induction d arbitrary: n) (auto split: nat.split)

text \<open>Packets at the edges: an empty packet and an unknown identifier do nothing; a terminal command passes the
  characters up to the first zero and writes the terminating zero behind the packet, which is outside the
  buffer when the packet fills it; a packet to be forwarded with nothing behind its identifier is
  forwarded with a length that has wrapped around, and the bytes read for it are outside the buffer.\<close>

theorem command_edges:
  assumes "len \<noteq> 0" "35 < i" "length data < 2 ^ 32 - 1"
  shows "commands_process_packet ce data 0 s = Some s \<and>
    commands_process_packet ce (i # data) len s = Some s \<and>
    commands_process_packet ce (19 # data) len s =
      (if unat len \<le> length data
       then Some (emit (terminal_process_string (takeWhile (\<lambda>b. b \<noteq> 0) (take (unat len - 1) data))) s) else None) \<and>
    commands_process_packet ce (33 # data) 1 s = None"
proof (intro conjI)
  have "COMM_PACKET_ID_of i = COMM_PACKET_ID_other i"
    using assms(2) unfolding COMM_PACKET_ID_of_def by (auto simp: word_less_nat_alt)
  then show "commands_process_packet ce (i # data) len s = Some s"
    by (simp add: commands_process_packet_def arr_get_def process_command_def)
  have "unat (len - 1) = unat len - 1" "0 < unat len" using assms(1) by (simp_all add: unat_minus_one unat_gt_0)
  then show "commands_process_packet ce (19 # data) len s =
      (if unat len \<le> length data
       then Some (emit (terminal_process_string (takeWhile (\<lambda>b. b \<noteq> 0) (take (unat len - 1) data))) s) else None)"
    using assms(1) by (auto simp: commands_process_packet_def arr_get_def arr_set_def COMM_PACKET_ID_of_def process_command_def string_end)
  have "comm_can_send_buffer own c (drop 1 data) (unat (0 - 1 :: u32)) False sb = None" for own c sb
  proof -
    have "crc16 (drop 1 data) (unat (0 - 1 :: u32)) = None" using assms(3) by (simp add: crc16_def unsigned_minus_1_eq_mask mask_eq_exp_minus_1)
    moreover have "\<not> unat (0 - 1 :: u32) \<le> 6" by (simp add: unsigned_minus_1_eq_mask mask_eq_exp_minus_1)
    ultimately show ?thesis by (auto simp: comm_can_send_buffer_def split: bind_splits)
  qed
  then show "commands_process_packet ce (33 # data) 1 s = None"
    by (auto simp: commands_process_packet_def arr_get_def COMM_PACKET_ID_of_def process_command_def split: bind_splits)
qed (simp add: commands_process_packet_def)

text \<open>Without hall sensors on the port \<open>COMM_DETECT_HALL_FOC\<close> is never answered: the handler fills \<open>send_buffer\<close> with 255 over the
  identifier it has just stored and returns without sending.\<close>

theorem hall_detection_unanswered:
  assumes "len \<noteq> 0" "10 \<le> length (send_buffer s)" "m_sensor_port_mode (m_conf (cmd_mc s)) \<noteq> SENSOR_PORT_MODE_HALL"
  shows "\<exists>s'. commands_process_packet ce (27 # data) len s = Some s' \<and> cmd_events s' = cmd_events s \<and>
    take 10 (send_buffer s') = replicate 8 255 @ [send_buffer s ! 8, 0]"
proof -
  obtain x xs where s: "send_buffer s = x # xs" using assms(2) by (cases "send_buffer s") auto
  show ?thesis using assms
    by (auto simp: s commands_process_packet_def arr_get_def arr_set_def COMM_PACKET_ID_of_def process_command_def detect_hall_foc_def
        memcpy_def nth_append list_update_append upd_conv_take_nth_drop take_Suc hd_drop_conv_nth)
qed

section \<open>Sample states\<close>

definition ce_rest :: cmd_env where
  "ce_rest = \<lparr>ce_env = rest, ce_time = 0, ce_world = \<lparr>readings_at = \<lambda>_. rest, others = \<lambda>_ m. m\<rparr>, ntc_temp = \<lambda>_. 25,
     mcpwm_foc_measure_res_ind = (False, 0, 0), encoder_is_configured = False, mcpwm_foc_encoder_detect = \<lambda>_. (0, 0, False),
     mcpwm_foc_hall_detect = \<lambda>_. (False, replicate 8 0), servodec_get_servo = 0, servodec_get_last_pulse_len = 0,
     app_adc_levels = (0, 0, 0, 0), app_nunchuk_get_decoded_chuk = 0, mc_repr = \<lambda>_. replicate 308 0,
     app_repr = \<lambda>_. replicate 160 0, can_send_buffer = replicate 8 0\<rparr>"

definition cmd_start :: "ee \<Rightarrow> commands" where
  "cmd_start e = \<lparr>send_buffer = replicate 1024 0, cmd_send_func = 1, appdata_func = 0, display_position_mode = DISP_POS_MODE_NONE,
     detect_current = 0, detect_min_rpm = 0, detect_low_duty = 0, cmd_cg = cg_start e, cmd_tout = timeout_init,
     cmd_app = \<lparr>appconf = conf_general_get_default_app_configuration, app_events = []\<rparr>, cmd_events = []\<rparr>"

lemma cmd_start_simps [simp]:
  "length (send_buffer (cmd_start e)) = 1024" "cmd_send_func (cmd_start e) = 1" "cmd_cg (cmd_start e) = cg_start e"
  "cmd_tout (cmd_start e) = timeout_init" "appconf (cmd_app (cmd_start e)) = conf_general_get_default_app_configuration"
  "cmd_events (cmd_start e) = []" "cg_mc (cg_start e) = mcif_start" "ce_env ce_rest = rest" "ce_time ce_rest = 0"
  "app_repr ce_rest c = replicate 160 0"
  by (simp_all add: cmd_start_def cg_start_def ce_rest_def)

lemma start_conf [simp]: "m_conf mcif_start = conf_general_get_default_mc_configuration"
  by (simp add: mcif_start_def)

lemma spec4: "\<forall>a b c d. P a b c d \<Longrightarrow> P a b c d"
  by blast

theorem mcconf_transfer_witness:
  "\<exists>payload. \<exists>t'. commands_process_packet ce_rest (12 # payload @ []) 1 (cmd_start (power_up full_mem [])) = Some t' \<and>
     base_conf (m_conf (cmd_mc t')) = base_conf (mc_quantised conf_general_get_default_mc_configuration)"
proof -
  let ?s = "cmd_start (power_up full_mem [])"
  obtain s1 where s1: "commands_process_packet ce_rest [13] 1 ?s = Some s1"
    using reply_defined [of "mcconf_writers (m_conf (cmd_mc ?s))" ?s COMM_GET_MCCONF] default_mc_sized
    by (auto simp: commands_process_packet_def arr_get_def COMM_PACKET_ID_of_def process_command_def get_mcconf_def)
  have len: "length (mc_configuration.hall_table (m_conf (cmd_mc ?s))) = 8" "length (foc_hall_table (m_conf (cmd_mc ?s))) = 8"
    by (simp_all add: default_conf)
  have "cmd_send_func ?s \<noteq> 0" "(1 :: u32) \<noteq> 0" by simp_all
  note mcconf_transfer [OF len this s1]
  then show ?thesis
    apply (elim exE conjE)
    apply (drule spec4 [of _ ce_rest 1 "[]" ?s])
    apply force
    done
qed

theorem appconf_transfer_witness:
  "\<exists>e payload t'. conf_general_init (power_up full_mem []) = Some e \<and>
     commands_process_packet ce_rest (15 # payload @ []) 1 (cmd_start e) = Some t' \<and>
     app_get_configuration (cmd_app t') = app_quantised conf_general_get_default_app_configuration \<and>
     conf_general_read_app_configuration [] (ee_mem (cg_ee (cmd_cg t'))) (replicate 160 1) = replicate 160 0"
proof -
  obtain e where e: "conf_general_init (power_up full_mem []) = Some e" "ee_store_ok conf_tab e"
    using init_ok [of "power_up full_mem []"] by (auto simp: power_up_def sample_ok)
  let ?s = "cmd_start e"
  obtain s1 where s1: "commands_process_packet ce_rest [16] 1 ?s = Some s1"
    using reply_defined [of "appconf_writers (appconf (cmd_app ?s))" ?s COMM_GET_APPCONF] default_app_sized
    by (auto simp: commands_process_packet_def arr_get_def COMM_PACKET_ID_of_def process_command_def get_appconf_def
        app_get_configuration_def)
  have len: "length (nrf_address (app_nrf_conf (appconf (cmd_app ?s)))) = 3"
    by (simp add: conf_general_get_default_app_configuration_def)
  have "cmd_send_func ?s \<noteq> 0" "(1 :: u32) \<noteq> 0" by simp_all
  note appconf_transfer [OF len this s1]
  then show ?thesis using e unfolding Let_def
    apply (elim exE conjE)
    apply (drule spec4 [of _ ce_rest 1 "[]" ?s])
    apply force
    done
qed

theorem motor_command_packet_witness:
  "\<exists>s'. commands_process_packet ce_rest (6 # enc32 5000 @ []) 5 (cmd_start (power_up full_mem [])) = Some s' \<and>
     calls (cmd_mc s') = [drv_set_current Mcpwm (fl (fl 5000 / 1000))]"
proof -
  have "sint (5000 :: u32) = 5000" by simp
  then have "packet_cmd 6 5000 = Some (Current (fl (fl 5000 / 1000)))" by (simp add: packet_cmd_def)
  from motor_command_packet [OF this, of 5 ce_rest "cmd_start (power_up full_mem [])" "[]"]
  show ?thesis by (auto simp: mcif_start_def default_conf MCCONF_DEFAULT_MOTOR_TYPE_def)
qed

theorem command_edges_witness:
  "let s = cmd_start (power_up full_mem []) in commands_process_packet ce_rest [36, 1] 2 s = Some s \<and> commands_process_packet ce_rest [19, 104] 2 s = None \<and>
   commands_process_packet ce_rest [19, 104, 0] 2 s = Some (emit (terminal_process_string [104]) s) \<and>
   commands_process_packet ce_rest [33, 7] 1 s = None"
  unfolding Let_def
  using command_edges [of 2 36 "[1]" ce_rest "cmd_start (power_up full_mem [])"] command_edges [of 2 36 "[104]" ce_rest "cmd_start (power_up full_mem [])"]
    command_edges [of 2 36 "[104, 0]" ce_rest "cmd_start (power_up full_mem [])"] command_edges [of 2 36 "[7]" ce_rest "cmd_start (power_up full_mem [])"]
  by simp

theorem hall_detection_unanswered_witness:
  "\<exists>s'. commands_process_packet ce_rest [27, 0, 0, 0, 0] 5
      (set_mc (mcif_start\<lparr>m_conf := (m_conf mcif_start)\<lparr>m_sensor_port_mode := SENSOR_PORT_MODE_ABI\<rparr>\<rparr>) (cmd_start (power_up full_mem []))) = Some s' \<and>
     cmd_events s' = []"
  using hall_detection_unanswered
    [of 5 "set_mc (mcif_start\<lparr>m_conf := (m_conf mcif_start)\<lparr>m_sensor_port_mode := SENSOR_PORT_MODE_ABI\<rparr>\<rparr>) (cmd_start (power_up full_mem []))"
      ce_rest "[0, 0, 0, 0]"]
  by (auto simp: set_mc_def)

end
