(* ===== verification/Svm.thy ===== *)
theory Svm
  imports Utils Buffer
begin

text \<open>
  Space vector modulation, \<open>svm\<close> of \<open>mcpwm_foc.c\<close>: the compare values of the three half bridges for a voltage vector. A
  conversion to \<open>uint32_t\<close> of a value that does not fit is undefined, the subtractions wrap around. For every vector
  in the circle that the current controller keeps to, the values are within the timer period and
  produce the vector up to the resolution of the timer.
\<close>

section \<open>Operations\<close>

definition ONE_BY_SQRT3 :: real where "ONE_BY_SQRT3 = fl 0.57735026919"
definition TWO_BY_SQRT3 :: real where "TWO_BY_SQRT3 = fl (2 * fl 0.57735026919)"
definition SQRT3_BY_2 :: real where "SQRT3_BY_2 = fl 0.86602540378"

definition f2u32 :: "real \<Rightarrow> u32 option" where
  "f2u32 x = (let k = ftrunc x in if 0 \<le> k \<and> k < 2 ^ 32 then Some (word_of_int k) else None)"

definition svm_sector :: "real \<Rightarrow> real \<Rightarrow> nat" where
  "svm_sector alpha beta =
     (if beta \<ge> 0 then
        if alpha \<ge> 0 then (if fl (ONE_BY_SQRT3 * beta) > alpha then 2 else 1)
        else (if fl (- ONE_BY_SQRT3 * beta) > alpha then 3 else 2)
      else
        if alpha \<ge> 0 then (if fl (- ONE_BY_SQRT3 * beta) > alpha then 5 else 6)
        else (if fl (ONE_BY_SQRT3 * beta) > alpha then 4 else 5))"

text \<open>A vector on-time: \<open>(uint32_t)(x * PWMHalfPeriod)\<close>.\<close>

definition on_time :: "real \<Rightarrow> u32 \<Rightarrow> u32 option" where
  "on_time x PWMHalfPeriod = f2u32 (fl (x * fl (of_nat (unat PWMHalfPeriod))))"

definition svm :: "real \<Rightarrow> real \<Rightarrow> u32 \<Rightarrow> (u32 \<times> u32 \<times> u32) option" where
  "svm alpha beta PWMHalfPeriod =
     (let sector = svm_sector alpha beta; p = fl (ONE_BY_SQRT3 * beta) in
      if sector = 1 then
        do { t1 \<leftarrow> on_time (fl (alpha - p)) PWMHalfPeriod;
             t2 \<leftarrow> on_time (fl (TWO_BY_SQRT3 * beta)) PWMHalfPeriod;
             let tA = (PWMHalfPeriod - t1 - t2) div 2; let tB = tA + t1; let tC = tB + t2;
             Some (tA, tB, tC) }
      else if sector = 2 then
        do { t2 \<leftarrow> on_time (fl (alpha + p)) PWMHalfPeriod;
             t3 \<leftarrow> on_time (fl (- alpha + p)) PWMHalfPeriod;
             let tB = (PWMHalfPeriod - t2 - t3) div 2; let tA = tB + t3; let tC = tA + t2;
             Some (tA, tB, tC) }
      else if sector = 3 then
        do { t3 \<leftarrow> on_time (fl (TWO_BY_SQRT3 * beta)) PWMHalfPeriod;
             t4 \<leftarrow> on_time (fl (- alpha - p)) PWMHalfPeriod;
             let tB = (PWMHalfPeriod - t3 - t4) div 2; let tC = tB + t3; let tA = tC + t4;
             Some (tA, tB, tC) }
      else if sector = 4 then
        do { t4 \<leftarrow> on_time (fl (- alpha + p)) PWMHalfPeriod;
             t5 \<leftarrow> on_time (fl (- TWO_BY_SQRT3 * beta)) PWMHalfPeriod;
             let tC = (PWMHalfPeriod - t4 - t5) div 2; let tB = tC + t5; let tA = tB + t4;
             Some (tA, tB, tC) }
      else if sector = 5 then
        do { t5 \<leftarrow> on_time (fl (- alpha - p)) PWMHalfPeriod;
             t6 \<leftarrow> on_time (fl (alpha - p)) PWMHalfPeriod;
             let tC = (PWMHalfPeriod - t5 - t6) div 2; let tA = tC + t5; let tB = tA + t6;
             Some (tA, tB, tC) }
      else
        do { t6 \<leftarrow> on_time (fl (- TWO_BY_SQRT3 * beta)) PWMHalfPeriod;
             t1 \<leftarrow> on_time (fl (alpha + p)) PWMHalfPeriod;
             let tA = (PWMHalfPeriod - t6 - t1) div 2; let tC = tA + t1; let tB = tC + t6;
             Some (tA, tB, tC) })"

section \<open>Rounding errors\<close>

lemma fl_tiny: "\<bar>x\<bar> < 2 powr -126 \<Longrightarrow> \<bar>fl x - x\<bar> \<le> 2 * 2 powr -126"
proof -
  assume x: "\<bar>x\<bar> < 2 powr -126"
  have "is_f32 (2 powr -126)" unfolding is_f32_def by (intro exI [of _ 1] exI [of _ "-126"]) simp
  then have "\<bar>fl x\<bar> \<le> 2 powr -126" using x by (intro f32.rnd_abs_le) auto
  then show ?thesis using x abs_triangle_ineq4 [of "fl x" x] by linarith
qed

lemma powr_tiny: "2 * 2 powr -126 \<le> (1 / 2 ^ 100 / 2 ^ 24 :: real)"
proof -
  have "2 powr -126 = (1 / 2 ^ 126 :: real)" using powr_minus_divide [of "2 :: real" 126] powr_numeral [of "2 :: real"] by simp
  then show ?thesis by simp
qed

lemma fl_abs_error:
  assumes "\<bar>x\<bar> \<le> b" "1 / 2 ^ 100 \<le> b"
  shows "\<bar>fl x - x\<bar> \<le> b / 2 ^ 24"
proof (cases "2 powr -126 \<le> \<bar>x\<bar>")
  case True
  have "\<bar>x\<bar> / 2 ^ 24 \<le> b / 2 ^ 24" using assms(1) by (rule divide_right_mono) simp
  with fl_rel_error [OF True] show ?thesis by (rule order_trans)
next
  case False
  have "1 / 2 ^ 100 / 2 ^ 24 \<le> b / 2 ^ 24" using assms(2) by (rule divide_right_mono) simp
  with powr_tiny fl_tiny [of x] False show ?thesis by (meson not_le order_trans)
qed

lemma fl_within:
  assumes "\<bar>x\<bar> \<le> b" "1 / 2 ^ 100 \<le> b"
  shows "x - b / 2 ^ 24 \<le> fl x" "fl x \<le> x + b / 2 ^ 24"
  using fl_abs_error [OF assms] unfolding abs_le_iff by linarith+

definition s3 :: real where "s3 = 1 / sqrt 3"

lemma s3_bounds: "0.57735026918 \<le> s3" "s3 \<le> 0.57735026920" "s3 * s3 = 1/3"
proof -
  show sq: "s3 * s3 = 1/3" by (simp add: s3_def)
  have p: "0 < s3" by (simp add: s3_def)
  show "0.57735026918 \<le> s3"
  proof (rule ccontr)
    assume "\<not> 0.57735026918 \<le> s3"
    then have "s3 * s3 < 0.57735026918 * 0.57735026918" using p by (intro mult_strict_mono) auto
    then show False using sq by simp
  qed
  show "s3 \<le> 0.57735026920"
  proof (rule ccontr)
    assume "\<not> s3 \<le> 0.57735026920"
    then have "0.57735026920 * 0.57735026920 < s3 * s3" by (intro mult_strict_mono) auto
    then show False using sq by simp
  qed
qed

lemma one_by_sqrt3: "s3 - 1 / 2 ^ 23 \<le> ONE_BY_SQRT3" "ONE_BY_SQRT3 \<le> s3 + 1 / 2 ^ 23"
  using fl_within [of "0.57735026919" 1] s3_bounds(1,2) unfolding ONE_BY_SQRT3_def by simp_all

lemma two_by_sqrt3: "2 * s3 - 1 / 2 ^ 21 \<le> TWO_BY_SQRT3" "TWO_BY_SQRT3 \<le> 2 * s3 + 1 / 2 ^ 21"
proof -
  let ?x = "2 * fl 0.57735026919"
  note e = one_by_sqrt3 [unfolded ONE_BY_SQRT3_def]
  have "\<bar>?x\<bar> \<le> 2" using e s3_bounds(1,2) unfolding abs_le_iff by simp
  then have "?x - 2 / 2 ^ 24 \<le> TWO_BY_SQRT3" "TWO_BY_SQRT3 \<le> ?x + 2 / 2 ^ 24"
    unfolding TWO_BY_SQRT3_def by (rule fl_within; simp)+
  then show "2 * s3 - 1 / 2 ^ 21 \<le> TWO_BY_SQRT3" "TWO_BY_SQRT3 \<le> 2 * s3 + 1 / 2 ^ 21" using e by simp_all
qed

section \<open>Correctness\<close>

declare of_nat_unat [simp del]

text \<open>A time that stands for the fraction \<open>x'\<close> of the period.\<close>

definition close_to :: "u32 \<Rightarrow> real \<Rightarrow> u32 \<Rightarrow> bool" where
  "close_to P x' t \<longleftrightarrow> x' * real (unat P) - 1.1 \<le> real (unat t) \<and> real (unat t) \<le> x' * real (unat P) + 0.1"

lemma real_unat_of_int: "0 \<le> k \<Longrightarrow> k < 2 ^ 32 \<Longrightarrow> real (unat (word_of_int k :: u32)) = of_int k"
  by (simp add: unat_eq_nat_uint uint_word_of_int)

lemma on_time_close:
  assumes "0 \<le> x" "x \<le> 2" "x' - 1 / 2 ^ 20 \<le> x" "x \<le> x' + 1 / 2 ^ 20" "unat P \<le> 65535"
  shows "\<exists>t. on_time x P = Some t \<and> close_to P x' t"
proof -
  let ?P = "real (unat P)" let ?y = "fl (x * ?P)"
  have P: "0 \<le> ?P" "?P \<le> 65535" using assms(5) by simp_all
  have f: "fl ?P = ?P" using fl_of_int [of "int (unat P)"] assms(5) by simp
  have xP: "0 \<le> x * ?P" "x * ?P \<le> 2 * 65535" using assms(1,2) P by (simp, intro mult_mono) auto
  have y: "0 \<le> ?y" "x * ?P - 1 / 100 \<le> ?y" "?y \<le> x * ?P + 1 / 100"
    using fl_pos [OF xP(1)] fl_within [of "x * ?P" 131070] xP by simp_all
  have d: "x' * ?P - 7 / 100 \<le> x * ?P" "x * ?P \<le> x' * ?P + 7 / 100"
  proof -
    have "(x' - 1 / 2 ^ 20) * ?P \<le> x * ?P" "x * ?P \<le> (x' + 1 / 2 ^ 20) * ?P" using assms(3,4) P(1) by (intro mult_right_mono; simp)+
    then show "x' * ?P - 7 / 100 \<le> x * ?P" "x * ?P \<le> x' * ?P + 7 / 100" using P by (simp_all add: algebra_simps)
  qed
  have "?y < 2 ^ 32" using y(3) xP(2) by simp
  then have k: "ftrunc ?y = \<lfloor>?y\<rfloor>" "0 \<le> \<lfloor>?y\<rfloor>" "\<lfloor>?y\<rfloor> < 2 ^ 32" using y(1) by (simp_all add: ftrunc_def floor_less_iff)
  have u: "real (unat (word_of_int \<lfloor>?y\<rfloor> :: u32)) = of_int \<lfloor>?y\<rfloor>"
    by (rule real_unat_of_int [OF k(2,3)])
  have "on_time x P = Some (word_of_int \<lfloor>?y\<rfloor>)" using k by (simp add: on_time_def f f2u32_def)
  moreover have "close_to P x' (word_of_int \<lfloor>?y\<rfloor>)" unfolding close_to_def u
    using y(2,3) d of_int_floor_le [of ?y] real_of_int_floor_add_one_gt [of ?y] by (intro conjI; linarith)
  ultimately show ?thesis by blast
qed

lemma base_times:
  assumes "unat (t1 :: u32) + unat t2 \<le> unat P" "unat P \<le> 65535"
  shows "unat ((P - t1 - t2) div 2) = (unat P - unat t1 - unat t2) div 2"
    and "unat ((P - t1 - t2) div 2 + t1) = (unat P - unat t1 - unat t2) div 2 + unat t1"
    and "unat ((P - t1 - t2) div 2 + t2) = (unat P - unat t1 - unat t2) div 2 + unat t2"
    and "unat ((P - t1 - t2) div 2 + t1 + t2) = (unat P - unat t1 - unat t2) div 2 + unat t1 + unat t2"
    and "unat ((P - t1 - t2) div 2 + t2 + t1) = (unat P - unat t1 - unat t2) div 2 + unat t2 + unat t1"
    and "(unat P - unat t1 - unat t2) div 2 + unat t1 + unat t2 \<le> unat P"
proof -
  have "unat (P - t1) = unat P - unat t1" using assms(1) by (intro unat_sub) (simp add: word_le_nat_alt)
  then have s: "unat (P - t1 - t2) = unat P - unat t1 - unat t2" using assms(1) by (subst unat_sub) (simp_all add: word_le_nat_alt)
  then show b: "unat ((P - t1 - t2) div 2) = (unat P - unat t1 - unat t2) div 2" by (simp add: unat_div)
  have a: "unat (x + y) = unat x + unat y" if "unat x + unat y \<le> 65535" for x y :: u32
    using that by (subst unat_add_lem [THEN iffD1]) simp_all
  show 1: "unat ((P - t1 - t2) div 2 + t1) = (unat P - unat t1 - unat t2) div 2 + unat t1"
    using assms by (subst a) (simp_all add: b)
  show 2: "unat ((P - t1 - t2) div 2 + t2) = (unat P - unat t1 - unat t2) div 2 + unat t2"
    using assms by (subst a) (simp_all add: b)
  show "unat ((P - t1 - t2) div 2 + t1 + t2) = (unat P - unat t1 - unat t2) div 2 + unat t1 + unat t2"
    using assms by (subst a) (simp_all add: 1)
  show "unat ((P - t1 - t2) div 2 + t2 + t1) = (unat P - unat t1 - unat t2) div 2 + unat t2 + unat t1"
    using assms by (subst a) (simp_all add: 2)
  show "(unat P - unat t1 - unat t2) div 2 + unat t1 + unat t2 \<le> unat P" using assms(1) by simp
qed

text \<open>Two adjacent switching vectors with fractions \<open>u'\<close> and \<open>v'\<close> fit into the period.\<close>

lemma close_fit:
  assumes "close_to P u' t1" "close_to P v' t2" "u' + v' \<le> 1"
  shows "unat t1 + unat t2 \<le> unat P"
proof -
  have "(u' + v') * real (unat P) \<le> real (unat P)" using mult_right_mono [OF assms(3), of "real (unat P)"] by simp
  then have "real (unat t1 + unat t2) < real (unat P + 1)" using assms(1,2) unfolding close_to_def by (simp add: algebra_simps)
  then show ?thesis by linarith
qed

text \<open>The inner circle of the hexagon.\<close>

lemma hexagon:
  assumes "alpha\<^sup>2 + beta\<^sup>2 \<le> 3 / 4"
  shows "\<bar>alpha\<bar> + s3 * \<bar>beta\<bar> \<le> 1" "2 * (s3 * \<bar>beta\<bar>) \<le> 1" "\<bar>alpha\<bar> \<le> 1" "\<bar>beta\<bar> \<le> 1"
proof -
  have q: "s3\<^sup>2 = 1/3" using s3_bounds(3) by (simp add: power2_eq_square)
  have "(\<bar>alpha\<bar> + s3 * \<bar>beta\<bar>)\<^sup>2 + (s3 * \<bar>alpha\<bar> - \<bar>beta\<bar>)\<^sup>2 = (1 + s3\<^sup>2) * (alpha\<^sup>2 + beta\<^sup>2)"
    by (simp add: power2_eq_square algebra_simps abs_mult_self_eq)
  then have "(\<bar>alpha\<bar> + s3 * \<bar>beta\<bar>)\<^sup>2 \<le> (1 + 1/3) * (alpha\<^sup>2 + beta\<^sup>2)"
    unfolding q by (metis le_add_same_cancel1 zero_le_power2)
  then have "(\<bar>alpha\<bar> + s3 * \<bar>beta\<bar>)\<^sup>2 \<le> 1\<^sup>2" using assms by simp
  then show "\<bar>alpha\<bar> + s3 * \<bar>beta\<bar> \<le> 1" by (rule power2_le_imp_le) simp
  have "(2 * (s3 * \<bar>beta\<bar>))\<^sup>2 = 4 * s3\<^sup>2 * beta\<^sup>2" by (simp add: power_mult_distrib)
  also have "\<dots> \<le> 1\<^sup>2" using assms unfolding q power_one using zero_le_power2 [of alpha] by linarith
  finally show "2 * (s3 * \<bar>beta\<bar>) \<le> 1" by (rule power2_le_imp_le) simp
  have "alpha\<^sup>2 \<le> 1" "beta\<^sup>2 \<le> 1" using assms zero_le_power2 [of alpha] zero_le_power2 [of beta] by linarith+
  then show "\<bar>alpha\<bar> \<le> 1" "\<bar>beta\<bar> \<le> 1" by (simp_all add: abs_square_le_1)
qed

lemma p_close:
  assumes "\<bar>beta\<bar> \<le> 1"
  shows "s3 * beta - 1 / 2 ^ 22 \<le> fl (ONE_BY_SQRT3 * beta)" "fl (ONE_BY_SQRT3 * beta) \<le> s3 * beta + 1 / 2 ^ 22"
proof -
  have e: "\<bar>ONE_BY_SQRT3 - s3\<bar> \<le> 1 / 2 ^ 23" using one_by_sqrt3 unfolding abs_le_iff by linarith
  have "\<bar>(ONE_BY_SQRT3 - s3) * beta\<bar> \<le> 1 / 2 ^ 23 * 1" unfolding abs_mult using e assms by (intro mult_mono) auto
  then have d: "s3 * beta - 1 / 2 ^ 23 \<le> ONE_BY_SQRT3 * beta" "ONE_BY_SQRT3 * beta \<le> s3 * beta + 1 / 2 ^ 23"
    unfolding abs_le_iff by (simp_all add: algebra_simps)
  have "\<bar>ONE_BY_SQRT3 * beta\<bar> \<le> 1 * 1" unfolding abs_mult using one_by_sqrt3 s3_bounds(1,2) assms by (intro mult_mono) auto
  then have "\<bar>ONE_BY_SQRT3 * beta\<bar> \<le> 1" by simp
  from fl_within [OF this] d
  show "s3 * beta - 1 / 2 ^ 22 \<le> fl (ONE_BY_SQRT3 * beta)" "fl (ONE_BY_SQRT3 * beta) \<le> s3 * beta + 1 / 2 ^ 22" by simp_all
qed

lemma two_close:
  assumes "\<bar>beta\<bar> \<le> 1"
  shows "2 * (s3 * beta) - 1 / 2 ^ 20 \<le> fl (TWO_BY_SQRT3 * beta)" "fl (TWO_BY_SQRT3 * beta) \<le> 2 * (s3 * beta) + 1 / 2 ^ 20"
proof -
  have e: "\<bar>TWO_BY_SQRT3 - 2 * s3\<bar> \<le> 1 / 2 ^ 21" using two_by_sqrt3 unfolding abs_le_iff by linarith
  have "\<bar>(TWO_BY_SQRT3 - 2 * s3) * beta\<bar> \<le> 1 / 2 ^ 21 * 1" unfolding abs_mult using e assms by (intro mult_mono) auto
  then have d: "2 * (s3 * beta) - 1 / 2 ^ 21 \<le> TWO_BY_SQRT3 * beta" "TWO_BY_SQRT3 * beta \<le> 2 * (s3 * beta) + 1 / 2 ^ 21"
    unfolding abs_le_iff by (simp_all add: algebra_simps)
  have "\<bar>TWO_BY_SQRT3 * beta\<bar> \<le> 2 * 1" unfolding abs_mult using two_by_sqrt3 s3_bounds(1,2) assms by (intro mult_mono) auto
  then have "\<bar>TWO_BY_SQRT3 * beta\<bar> \<le> 2" by simp
  from fl_within [OF this] d
  show "2 * (s3 * beta) - 1 / 2 ^ 20 \<le> fl (TWO_BY_SQRT3 * beta)" "fl (TWO_BY_SQRT3 * beta) \<le> 2 * (s3 * beta) + 1 / 2 ^ 20" by simp_all
qed

text \<open>The fractions of the six sectors.\<close>

lemma fraction_close:
  assumes "\<bar>alpha\<bar> \<le> 1" "\<bar>beta\<bar> \<le> 1" "unat P \<le> 65535"
  defines "p \<equiv> fl (ONE_BY_SQRT3 * beta)"
  shows "0 \<le> alpha - p \<Longrightarrow> \<exists>t. on_time (fl (alpha - p)) P = Some t \<and> close_to P (alpha - s3 * beta) t"
    and "0 \<le> alpha + p \<Longrightarrow> \<exists>t. on_time (fl (alpha + p)) P = Some t \<and> close_to P (alpha + s3 * beta) t"
    and "0 \<le> - alpha + p \<Longrightarrow> \<exists>t. on_time (fl (- alpha + p)) P = Some t \<and> close_to P (- alpha + s3 * beta) t"
    and "0 \<le> - alpha - p \<Longrightarrow> \<exists>t. on_time (fl (- alpha - p)) P = Some t \<and> close_to P (- alpha - s3 * beta) t"
    and "0 \<le> beta \<Longrightarrow> \<exists>t. on_time (fl (TWO_BY_SQRT3 * beta)) P = Some t \<and> close_to P (2 * (s3 * beta)) t"
    and "beta \<le> 0 \<Longrightarrow> \<exists>t. on_time (fl (- TWO_BY_SQRT3 * beta)) P = Some t \<and> close_to P (- 2 * (s3 * beta)) t"
proof -
  have p: "s3 * beta - 1 / 2 ^ 22 \<le> p" "p \<le> s3 * beta + 1 / 2 ^ 22" unfolding p_def by (rule p_close [OF assms(2)])+
  have sb: "\<bar>s3 * beta\<bar> \<le> 0.6" unfolding abs_mult using s3_bounds(1,2) assms(2) mult_mono [of "\<bar>s3\<bar>" "0.6" "\<bar>beta\<bar>" 1] by simp
  have step: "\<exists>t. on_time (fl x) P = Some t \<and> close_to P x' t"
    if x: "0 \<le> x" "x' - 1 / 2 ^ 22 \<le> x" "x \<le> x' + 1 / 2 ^ 22" "- 1.6 \<le> x'" "x' \<le> 1.6" for x x'
  proof -
    have "\<bar>x\<bar> \<le> 1.7" using x unfolding abs_le_iff by simp
    note f = fl_within [OF this] fl_pos [OF x(1)]
    show ?thesis using f x assms(3) by (intro on_time_close) simp_all
  qed
  have b: "alpha \<le> 1" "- alpha \<le> 1" "s3 * beta \<le> 0.6" "- (s3 * beta) \<le> 0.6"
    using assms(1) sb unfolding abs_le_iff by simp_all
  show "\<exists>t. on_time (fl (alpha - p)) P = Some t \<and> close_to P (alpha - s3 * beta) t" if "0 \<le> alpha - p"
    using that p b by (intro step) simp_all
  show "\<exists>t. on_time (fl (alpha + p)) P = Some t \<and> close_to P (alpha + s3 * beta) t" if "0 \<le> alpha + p"
    using that p b by (intro step) simp_all
  show "\<exists>t. on_time (fl (- alpha + p)) P = Some t \<and> close_to P (- alpha + s3 * beta) t" if "0 \<le> - alpha + p"
    using that p b by (intro step) simp_all
  show "\<exists>t. on_time (fl (- alpha - p)) P = Some t \<and> close_to P (- alpha - s3 * beta) t" if "0 \<le> - alpha - p"
    using that p b by (intro step) simp_all
  note q = two_close [OF assms(2)]
  have T: "0 \<le> TWO_BY_SQRT3" using two_by_sqrt3 s3_bounds(1) by simp
  show "\<exists>t. on_time (fl (TWO_BY_SQRT3 * beta)) P = Some t \<and> close_to P (2 * (s3 * beta)) t" if "0 \<le> beta"
    using q b fl_pos [of "TWO_BY_SQRT3 * beta"] T that assms(3) by (intro on_time_close) simp_all
  have "fl (- TWO_BY_SQRT3 * beta) = - fl (TWO_BY_SQRT3 * beta)" by (simp add: fl_minus)
  moreover have "fl (TWO_BY_SQRT3 * beta) \<le> 0" if "beta \<le> 0" using T that by (intro f32.rnd_nonpos) (simp add: mult_nonneg_nonpos)
  ultimately show "\<exists>t. on_time (fl (- TWO_BY_SQRT3 * beta)) P = Some t \<and> close_to P (- 2 * (s3 * beta)) t" if "beta \<le> 0"
    using q b that assms(3) by (intro on_time_close) simp_all
qed

lemma svm_correct_aux:
  assumes c1: "close_to P u' t1" and c2: "close_to P v' t2" and "u' + v' \<le> 1" "unat P \<le> 65535"
  defines "b \<equiv> (P - t1 - t2) div 2"
  shows "\<exists>n1 n2 m. unat b = m \<and> unat (b + t1) = m + n1 \<and> unat (b + t2) = m + n2 \<and> unat (b + t1 + t2) = m + n1 + n2 \<and>
     unat (b + t2 + t1) = m + n1 + n2 \<and> m + n1 + n2 \<le> unat P \<and>
     u' * real (unat P) - 1.1 \<le> real n1 \<and> real n1 \<le> u' * real (unat P) + 0.1 \<and>
     v' * real (unat P) - 1.1 \<le> real n2 \<and> real n2 \<le> v' * real (unat P) + 0.1"
  using base_times [OF close_fit [OF c1 c2 assms(3)] assms(4)] c1 c2 unfolding b_def close_to_def
  by (intro exI [of _ "unat t1"] exI [of _ "unat t2"] exI [of _ "(unat P - unat t1 - unat t2) div 2"]) simp

text \<open>The specification: compare values within the period whose vector is the requested one, two ticks off at most in the alpha and
  three in the beta direction. A half bridge is high for the part of the period above its compare value.\<close>

definition produces :: "real \<Rightarrow> real \<Rightarrow> u32 \<Rightarrow> u32 \<times> u32 \<times> u32 \<Rightarrow> bool" where
  "produces alpha beta P = (\<lambda>(tA, tB, tC). tA \<le> P \<and> tB \<le> P \<and> tC \<le> P \<and>
     \<bar>(real (unat tB) + real (unat tC)) / 2 - real (unat tA) - alpha * real (unat P)\<bar> \<le> 2 \<and>
     \<bar>real (unat tC) - real (unat tB) - 2 / sqrt 3 * beta * real (unat P)\<bar> \<le> 3)"

lemma producesI:
  assumes "unat tA \<le> unat P" "unat tB \<le> unat P" "unat tC \<le> unat P"
    and "2 * (alpha * real (unat P)) - 4 \<le> real (unat tB) + real (unat tC) - 2 * real (unat tA)"
    and "real (unat tB) + real (unat tC) - 2 * real (unat tA) \<le> 2 * (alpha * real (unat P)) + 4"
    and "2 * (s3 * beta * real (unat P)) - 3 \<le> real (unat tC) - real (unat tB)"
    and "real (unat tC) - real (unat tB) \<le> 2 * (s3 * beta * real (unat P)) + 3"
  shows "produces alpha beta P (tA, tB, tC)"
proof -
  have s: "2 / sqrt 3 * beta * real (unat P) = 2 * (s3 * beta * real (unat P))" by (simp add: s3_def)
  show ?thesis unfolding produces_def prod.case s abs_le_iff word_le_nat_alt using assms by (intro conjI; simp add: field_simps)
qed

text \<open>One lemma for all sectors: the second vector may come first or last.\<close>

lemma sector_produces:
  fixes alpha beta :: real
  assumes c: "close_to P u' t1" "close_to P v' t2" "u' + v' \<le> 1" "unat P \<le> 65535"
  defines "b \<equiv> (P - t1 - t2) div 2"
  defines "U \<equiv> u' * real (unat P)" and "V \<equiv> v' * real (unat P)" and "X \<equiv> alpha * real (unat P)" and "Y \<equiv> s3 * beta * real (unat P)"
  shows "2 * U + V = 2 * X \<Longrightarrow> V = 2 * Y \<Longrightarrow> produces alpha beta P (b, b + t1, b + t1 + t2)"
    and "U - V = 2 * X \<Longrightarrow> U + V = 2 * Y \<Longrightarrow> produces alpha beta P (b + t2, b, b + t2 + t1)"
    and "- (U + 2 * V) = 2 * X \<Longrightarrow> U = 2 * Y \<Longrightarrow> produces alpha beta P (b + t1 + t2, b, b + t1)"
    and "- (2 * U + V) = 2 * X \<Longrightarrow> - V = 2 * Y \<Longrightarrow> produces alpha beta P (b + t2 + t1, b + t2, b)"
    and "V - U = 2 * X \<Longrightarrow> - (U + V) = 2 * Y \<Longrightarrow> produces alpha beta P (b + t1, b + t1 + t2, b)"
    and "U + 2 * V = 2 * X \<Longrightarrow> - U = 2 * Y \<Longrightarrow> produces alpha beta P (b, b + t2 + t1, b + t2)"
proof -
  obtain n1 n2 m where n: "unat b = m" "unat (b + t1) = m + n1" "unat (b + t2) = m + n2" "unat (b + t1 + t2) = m + n1 + n2"
    "unat (b + t2 + t1) = m + n1 + n2" and le: "m + n1 + n2 \<le> unat P"
    and r: "U - 11 / 10 \<le> real n1" "real n1 \<le> U + 1 / 10" "V - 11 / 10 \<le> real n2" "real n2 \<le> V + 1 / 10"
    using svm_correct_aux [OF c] unfolding b_def U_def V_def by auto
  show "2 * U + V = 2 * X \<Longrightarrow> V = 2 * Y \<Longrightarrow> produces alpha beta P (b, b + t1, b + t1 + t2)"
    "U - V = 2 * X \<Longrightarrow> U + V = 2 * Y \<Longrightarrow> produces alpha beta P (b + t2, b, b + t2 + t1)"
    "- (U + 2 * V) = 2 * X \<Longrightarrow> U = 2 * Y \<Longrightarrow> produces alpha beta P (b + t1 + t2, b, b + t1)"
    "- (2 * U + V) = 2 * X \<Longrightarrow> - V = 2 * Y \<Longrightarrow> produces alpha beta P (b + t2 + t1, b + t2, b)"
    "V - U = 2 * X \<Longrightarrow> - (U + V) = 2 * Y \<Longrightarrow> produces alpha beta P (b + t1, b + t1 + t2, b)"
    "U + 2 * V = 2 * X \<Longrightarrow> - U = 2 * Y \<Longrightarrow> produces alpha beta P (b, b + t2 + t1, b + t2)"
    using le r unfolding X_def Y_def by - (rule producesI; simp add: n)+
qed

lemma svm_sector_cases:
  fixes alpha beta :: real
  defines "p \<equiv> fl (ONE_BY_SQRT3 * beta)"
  shows "svm_sector alpha beta = 1 \<and> 0 \<le> beta \<and> p \<le> alpha \<or> svm_sector alpha beta = 2 \<and> 0 \<le> beta \<and> alpha \<le> p \<and> - p \<le> alpha \<or>
    svm_sector alpha beta = 3 \<and> 0 \<le> beta \<and> alpha \<le> - p \<or> svm_sector alpha beta = 4 \<and> beta \<le> 0 \<and> alpha \<le> p \<or>
    svm_sector alpha beta = 5 \<and> beta \<le> 0 \<and> p \<le> alpha \<and> alpha \<le> - p \<or> svm_sector alpha beta = 6 \<and> beta \<le> 0 \<and> - p \<le> alpha"
proof -
  have neg: "fl (- ONE_BY_SQRT3 * beta) = - p" by (simp add: p_def fl_minus)
  have T: "0 \<le> ONE_BY_SQRT3" using one_by_sqrt3 s3_bounds(1) by simp
  have "0 \<le> beta \<Longrightarrow> 0 \<le> p" "beta \<le> 0 \<Longrightarrow> p \<le> 0"
    using T fl_pos [of "ONE_BY_SQRT3 * beta"] f32.rnd_nonpos [of "ONE_BY_SQRT3 * beta"] by (simp_all add: p_def mult_nonneg_nonpos)
  then show ?thesis unfolding svm_sector_def neg p_def [symmetric]
    by (cases "0 \<le> beta"; cases "0 \<le> alpha"; cases "p > alpha"; cases "- p > alpha") auto
qed

lemma svm_upper:
  assumes "alpha\<^sup>2 + beta\<^sup>2 \<le> 3 / 4" "unat P \<le> 65535" "0 \<le> beta"
    and "svm_sector alpha beta = 1 \<and> fl (ONE_BY_SQRT3 * beta) \<le> alpha \<or> svm_sector alpha beta = 2 \<and> alpha \<le> fl (ONE_BY_SQRT3 * beta) \<and> - fl (ONE_BY_SQRT3 * beta) \<le> alpha \<or> svm_sector alpha beta = 3 \<and> alpha \<le> - fl (ONE_BY_SQRT3 * beta)"
  shows "\<exists>ts. svm alpha beta P = Some ts \<and> produces alpha beta P ts"
proof -
  note h = hexagon [OF assms(1)]
  note f = fraction_close [OF h(3,4) assms(2)] and s = sector_produces [OF _ _ _ assms(2), of _ _ _ _ alpha beta]
  have b: "\<bar>beta\<bar> = beta" using assms(3) by simp
  let ?p = "fl (ONE_BY_SQRT3 * beta)" and ?s = "svm_sector alpha beta"
  have ab: "alpha \<le> \<bar>alpha\<bar>" "- alpha \<le> \<bar>alpha\<bar>" by simp_all
  from assms(4) show ?thesis
  proof (elim disjE conjE)
    assume 1: "?s = 1" "?p \<le> alpha"
    obtain t1 t2 where t: "on_time (fl (alpha - ?p)) P = Some t1" "close_to P (alpha - s3 * beta) t1"
      "on_time (fl (TWO_BY_SQRT3 * beta)) P = Some t2" "close_to P (2 * (s3 * beta)) t2" using f(1,5) 1 assms(3) by auto
    have "alpha - s3 * beta + 2 * (s3 * beta) \<le> 1" using h(1) b ab by simp
    then show ?thesis
      by - (rule exI, rule conjI [rotated], rule s(1) [OF t(2,4)], assumption, simp add: algebra_simps, simp add: algebra_simps, insert t 1(1), simp add: svm_def Let_def)
  next
    assume 2: "?s = 2" "alpha \<le> ?p" "- ?p \<le> alpha"
    obtain t1 t2 where t: "on_time (fl (alpha + ?p)) P = Some t1" "close_to P (alpha + s3 * beta) t1"
      "on_time (fl (- alpha + ?p)) P = Some t2" "close_to P (- alpha + s3 * beta) t2" using f(2,3) 2 assms(3) by auto
    have "alpha + s3 * beta + (- alpha + s3 * beta) \<le> 1" using h(2) b by simp
    then show ?thesis
      by - (rule exI, rule conjI [rotated], rule s(2) [OF t(2,4)], assumption, simp add: algebra_simps, simp add: algebra_simps, insert t 2(1), simp add: svm_def Let_def)
  next
    assume 3: "?s = 3" "alpha \<le> - ?p"
    obtain t1 t2 where t: "on_time (fl (TWO_BY_SQRT3 * beta)) P = Some t1" "close_to P (2 * (s3 * beta)) t1"
      "on_time (fl (- alpha - ?p)) P = Some t2" "close_to P (- alpha - s3 * beta) t2" using f(4,5) 3 assms(3) by auto
    have "2 * (s3 * beta) + (- alpha - s3 * beta) \<le> 1" using h(1) b ab by simp
    then show ?thesis
      by - (rule exI, rule conjI [rotated], rule s(3) [OF t(2,4)], assumption, simp add: algebra_simps, simp add: algebra_simps, insert t 3(1), simp add: svm_def Let_def)
  qed
qed

lemma svm_lower:
  assumes "alpha\<^sup>2 + beta\<^sup>2 \<le> 3 / 4" "unat P \<le> 65535" "beta \<le> 0"
    and "svm_sector alpha beta = 4 \<and> alpha \<le> fl (ONE_BY_SQRT3 * beta) \<or> svm_sector alpha beta = 5 \<and> fl (ONE_BY_SQRT3 * beta) \<le> alpha \<and> alpha \<le> - fl (ONE_BY_SQRT3 * beta) \<or> svm_sector alpha beta = 6 \<and> - fl (ONE_BY_SQRT3 * beta) \<le> alpha"
  shows "\<exists>ts. svm alpha beta P = Some ts \<and> produces alpha beta P ts"
proof -
  note h = hexagon [OF assms(1)]
  note f = fraction_close [OF h(3,4) assms(2)] and s = sector_produces [OF _ _ _ assms(2), of _ _ _ _ alpha beta]
  have b: "\<bar>beta\<bar> = - beta" using assms(3) by simp
  let ?p = "fl (ONE_BY_SQRT3 * beta)" and ?s = "svm_sector alpha beta"
  have ab: "alpha \<le> \<bar>alpha\<bar>" "- alpha \<le> \<bar>alpha\<bar>" by simp_all
  from assms(4) show ?thesis
  proof (elim disjE conjE)
    assume 4: "?s = 4" "alpha \<le> ?p"
    obtain t1 t2 where t: "on_time (fl (- alpha + ?p)) P = Some t1" "close_to P (- alpha + s3 * beta) t1"
      "on_time (fl (- TWO_BY_SQRT3 * beta)) P = Some t2" "close_to P (- 2 * (s3 * beta)) t2" using f(3,6) 4 assms(3) by auto
    have "- alpha + s3 * beta + - 2 * (s3 * beta) \<le> 1" using h(1) b ab by simp
    then show ?thesis
      by - (rule exI, rule conjI [rotated], rule s(4) [OF t(2,4)], assumption, simp add: algebra_simps, simp add: algebra_simps, insert t 4(1), simp add: svm_def Let_def)
  next
    assume 5: "?s = 5" "?p \<le> alpha" "alpha \<le> - ?p"
    obtain t1 t2 where t: "on_time (fl (- alpha - ?p)) P = Some t1" "close_to P (- alpha - s3 * beta) t1"
      "on_time (fl (alpha - ?p)) P = Some t2" "close_to P (alpha - s3 * beta) t2" using f(1,4) 5 assms(3) by auto
    have "- alpha - s3 * beta + (alpha - s3 * beta) \<le> 1" using h(2) b by simp
    then show ?thesis
      by - (rule exI, rule conjI [rotated], rule s(5) [OF t(2,4)], assumption, simp add: algebra_simps, simp add: algebra_simps, insert t 5(1), simp add: svm_def Let_def)
  next
    assume 6: "?s = 6" "- ?p \<le> alpha"
    obtain t1 t2 where t: "on_time (fl (- TWO_BY_SQRT3 * beta)) P = Some t1" "close_to P (- 2 * (s3 * beta)) t1"
      "on_time (fl (alpha + ?p)) P = Some t2" "close_to P (alpha + s3 * beta) t2" using f(2,6) 6 assms(3) by auto
    have "- 2 * (s3 * beta) + (alpha + s3 * beta) \<le> 1" using h(1) b ab by simp
    then show ?thesis
      by - (rule exI, rule conjI [rotated], rule s(6) [OF t(2,4)], assumption, simp add: algebra_simps, simp add: algebra_simps, insert t 6(1), simp add: svm_def Let_def)
  qed
qed

lemma svm_ok: "alpha\<^sup>2 + beta\<^sup>2 \<le> 3 / 4 \<Longrightarrow> unat P \<le> 65535 \<Longrightarrow> \<exists>ts. svm alpha beta P = Some ts \<and> produces alpha beta P ts"
  using svm_sector_cases [of alpha beta] svm_upper [of alpha beta P] svm_lower [of alpha beta P] by blast

text \<open>C16: For every voltage vector within the circle of radius \<open>\<surd>3/2\<close> and every period of the 16-bit timer the conversions are
  defined, none of the unsigned subtractions wraps, the three compare values are within the period, and the
  vector they produce is the requested one up to the resolution of the timer.\<close>

theorem svm_correct:
  assumes "alpha\<^sup>2 + beta\<^sup>2 \<le> 3 / 4" "unat P \<le> 65535"
  shows "\<exists>ts. svm alpha beta P = Some ts \<and> produces alpha beta P ts"
  by (rule svm_ok [OF assms])

declare of_nat_unat [simp]

theorem svm_correct_witness:
  "\<exists>ts. svm (1 / 2) (1 / 2) 4200 = Some ts \<and> produces (1 / 2) (1 / 2) 4200 ts"
  by (rule svm_correct) (simp_all add: power2_eq_square)

end
