(* ===== verification/Trig.thy ===== *)
theory Trig
  imports Svm
begin

text \<open>
  Bounds for the approximations of \<open>utils.c\<close> in binary32: the sine and cosine of \<open>utils_fast_sincos_better\<close> form a vector
  of length at most 1.002 up to rounding, and \<open>utils_saturate_vector_2d\<close> limits the length of a vector. Errors are
  tracked with \<open>near\<close>.
\<close>

section \<open>Error propagation\<close>

definition near :: "real \<Rightarrow> real \<Rightarrow> real \<Rightarrow> bool" where
  "near e x x' \<longleftrightarrow> \<bar>x - x'\<bar> \<le> e"

lemma near_refl: "near 0 x x"
  by (simp add: near_def)

lemma near_mono: "near e x x' \<Longrightarrow> e \<le> f \<Longrightarrow> near f x x'"
  by (simp add: near_def)

lemma near_trans: "near e x y \<Longrightarrow> near f y z \<Longrightarrow> near (e + f) x z"
  unfolding near_def by linarith

lemma near_abs: "near e x x' \<Longrightarrow> \<bar>x'\<bar> \<le> A \<Longrightarrow> \<bar>x\<bar> \<le> A + e"
  unfolding near_def by linarith

lemma near_fl:
  assumes "near e x x'" "\<bar>x'\<bar> \<le> A" "A + e \<le> b" "1 / 2 ^ 100 \<le> b"
  shows "near (e + b / 2 ^ 24) (fl x) x'"
proof -
  have "near (b / 2 ^ 24) (fl x) x"
    using fl_abs_error [of x b] near_abs [OF assms(1,2)] assms(3,4) unfolding near_def by simp
  from near_trans [OF this assms(1)] show ?thesis by (simp add: add.commute)
qed

lemma near_add: "near e x x' \<Longrightarrow> near f y y' \<Longrightarrow> near (e + f) (x + y) (x' + y')"
  unfolding near_def by linarith

lemma near_diff: "near e x x' \<Longrightarrow> near f y y' \<Longrightarrow> near (e + f) (x - y) (x' - y')"
  unfolding near_def by linarith

lemma near_minus: "near e x x' \<Longrightarrow> near e (- x) (- x')"
  unfolding near_def by linarith

lemma near_mult:
  assumes "near e x x'" "near f y y'" "\<bar>x'\<bar> \<le> A" "\<bar>y'\<bar> \<le> B"
  shows "near (e * B + (A + e) * f) (x * y) (x' * y')"
proof -
  have 0: "0 \<le> e" "0 \<le> f" "0 \<le> A" "0 \<le> B" using assms unfolding near_def by linarith+
  have "x * y - x' * y' = (x - x') * y' + x * (y - y')" by (simp add: algebra_simps)
  then have "\<bar>x * y - x' * y'\<bar> \<le> \<bar>x - x'\<bar> * \<bar>y'\<bar> + \<bar>x\<bar> * \<bar>y - y'\<bar>"
    by (metis abs_mult abs_triangle_ineq)
  also have "\<dots> \<le> e * B + (A + e) * f"
    using assms 0 near_abs [OF assms(1,3)] unfolding near_def by (intro add_mono mult_mono) auto
  finally show ?thesis by (simp add: near_def)
qed

section \<open>The exact approximation\<close>

text \<open>\<open>parabola\<close> is the parabola over the angle as a fraction of half a turn, \<open>refined\<close> its refinement.\<close>

definition parabola :: "real \<Rightarrow> real" where "parabola t = 4 * t * (1 - \<bar>t\<bar>)"
definition refined :: "real \<Rightarrow> real" where "refined y = y * (31 / 40 + 9 / 40 * \<bar>y\<bar>)"

lemma g_norm:
  assumes "0 \<le> u" "u \<le> 1/2"
  shows "(refined (4 * u * (1 - u)))\<^sup>2 + (refined (1 - 4 * u\<^sup>2))\<^sup>2 \<le> 1.002"
proof -
  define r where "r = 2 * u - 4 * u\<^sup>2"
  have r: "0 \<le> r" "r \<le> 1/4"
  proof -
    have "0 \<le> 2 * u * (1 - 2 * u)" using assms by (intro mult_nonneg_nonneg) auto
    then show "0 \<le> r" by (simp add: r_def power2_eq_square algebra_simps)
    have "0 \<le> (2 * u - 1/2)\<^sup>2" by simp
    then show "r \<le> 1/4" by (simp add: r_def power2_eq_square algebra_simps)
  qed
  have pos: "0 \<le> 4 * u * (1 - u)" "0 \<le> 1 - 4 * u\<^sup>2"
    using assms mult_mono [of u "1/2" u "1/2"] by (simp_all add: power2_eq_square)
  have "(refined (4 * u * (1 - u)))\<^sup>2 + (refined (1 - 4 * u\<^sup>2))\<^sup>2 = 1 + r\<^sup>2 * (117/400 * r + 81/800 * r\<^sup>2 - 19/400)"
    unfolding refined_def abs_of_nonneg [OF pos(1)] abs_of_nonneg [OF pos(2)] r_def
    by (simp add: power2_eq_square field_simps)
  moreover have r2: "r\<^sup>2 \<le> 1/16" using r mult_mono [of r "1/4" r "1/4"] by (simp add: power2_eq_square)
  moreover have "r\<^sup>2 * (117/400 * r + 81/800 * r\<^sup>2 - 19/400) \<le> 1/16 * (32/1000)"
  proof -
    have "117/400 * r + 81/800 * r\<^sup>2 - 19/400 \<le> 32/1000" using r(2) r2 by linarith
    then have "r\<^sup>2 * (117/400 * r + 81/800 * r\<^sup>2 - 19/400) \<le> r\<^sup>2 * (32/1000)" by (intro mult_left_mono) auto
    also have "\<dots> \<le> 1/16 * (32/1000)" using r2 by (intro mult_right_mono) auto
    finally show ?thesis .
  qed
  ultimately show ?thesis by simp
qed

text \<open>The cosine is the sine a quarter turn on.\<close>

definition ahead :: "real \<Rightarrow> real" where "ahead t = (if t + 1/2 \<le> 1 then t + 1/2 else t - 3/2)"

lemma gh_norm:
  assumes "\<bar>t\<bar> \<le> 1"
  shows "(refined (parabola t))\<^sup>2 + (refined (parabola (ahead t)))\<^sup>2 \<le> 1.002"
proof -
  have ev: "(refined (- y))\<^sup>2 = (refined y)\<^sup>2" for y by (simp add: refined_def power2_eq_square)
  have sq: "(refined y)\<^sup>2 = (refined \<bar>y\<bar>)\<^sup>2" for y using ev [of y] by (cases "0 \<le> y") simp_all
  define u where "u = (if \<bar>t\<bar> \<le> 1/2 then \<bar>t\<bar> else 1 - \<bar>t\<bar>)"
  have u: "0 \<le> u" "u \<le> 1/2" using assms by (auto simp: u_def)
  have "\<bar>parabola t\<bar> = 4 * u * (1 - u)" using assms by (auto simp: parabola_def u_def abs_mult)
  moreover have "\<bar>parabola (ahead t)\<bar> = 1 - 4 * u\<^sup>2"
  proof -
    consider "1/2 < t" | "0 \<le> t" "t \<le> 1/2" | "t < 0" "-1/2 \<le> t" | "t < -1/2" by linarith
    then have "parabola (ahead t) = 1 - 4 * u\<^sup>2 \<or> parabola (ahead t) = - (1 - 4 * u\<^sup>2)" using assms
      by cases (simp_all add: parabola_def ahead_def u_def power2_eq_square algebra_simps)
    moreover have "0 \<le> 1 - 4 * u\<^sup>2" using u mult_mono [of u "1/2" u "1/2"] by (simp add: power2_eq_square)
    ultimately show ?thesis by auto
  qed
  ultimately show ?thesis using g_norm [OF u] sq [of "parabola t"] sq [of "parabola (ahead t)"] by simp
qed

section \<open>Rounding in the approximation\<close>

lemma M_PI_bounds: "3.1415924 \<le> M_PI" "M_PI \<le> 3.1415929" "is_f32 M_PI"
  using fl_within [of "3.14159265358979323846" 4] fl_is_f32 unfolding M_PI_def by simp_all

lemma near_const: "\<bar>x\<bar> \<le> b \<Longrightarrow> 1 / 2 ^ 100 \<le> b \<Longrightarrow> b / 2 ^ 24 \<le> e \<Longrightarrow> near e (fl x) x"
  using fl_abs_error [of x b] by (simp add: near_def)

lemma parabola_terms:
  assumes a: "\<bar>a\<bar> \<le> 63 / 20"
  shows "near (1 / 10 ^ 6) (fl (fl 1.27323954 * a)) (1.27323954 * a)"
    and "near (2 / 10 ^ 6) (fl (fl (fl 0.405284735 * a) * a)) (0.405284735 * a * a)"
proof -
  have b1: "\<bar>1.27323954 * a\<bar> \<le> 41 / 10" "\<bar>0.405284735 * a\<bar> \<le> 13 / 10" using a by (simp_all add: abs_mult)
  have b2: "\<bar>0.405284735 * a * a\<bar> \<le> 41 / 10"
    using mult_mono [OF b1(2) a] by (simp add: abs_mult)
  have "near (2 / 10 ^ 7 * (63 / 20) + (128 / 100 + 2 / 10 ^ 7) * 0) (fl 1.27323954 * a) (1.27323954 * a)"
    using a by (intro near_mult near_refl near_const [of _ 2]) simp_all
  from near_fl [OF this b1(1), of "42 / 10"]
  show "near (1 / 10 ^ 6) (fl (fl 1.27323954 * a)) (1.27323954 * a)" by (rule near_mono) simp_all
  have "near (1 / 10 ^ 7 * (63 / 20) + (1 + 1 / 10 ^ 7) * 0) (fl 0.405284735 * a) (0.405284735 * a)"
    using a by (intro near_mult near_refl near_const [of _ 1]) simp_all
  from near_fl [OF this b1(2), of 2] have "near (44 / 10 ^ 8) (fl (fl 0.405284735 * a)) (0.405284735 * a)"
    by (rule near_mono) simp_all
  from near_mult [OF this near_refl b1(2) a]
  have "near (15 / 10 ^ 7) (fl (fl 0.405284735 * a) * a) (0.405284735 * a * a)" by (rule near_mono) simp_all
  from near_fl [OF this b2, of "42 / 10"]
  show "near (2 / 10 ^ 6) (fl (fl (fl 0.405284735 * a) * a)) (0.405284735 * a * a)" by (rule near_mono) simp_all
qed

lemma near_flI:
  "near e x x' \<Longrightarrow> \<bar>x'\<bar> \<le> A \<Longrightarrow> A + e \<le> b \<Longrightarrow> 1 / 2 ^ 100 \<le> b \<Longrightarrow> e + b / 2 ^ 24 \<le> f \<Longrightarrow> near f (fl x) x'"
  by (rule near_mono [OF near_fl])

lemma turn_constants: "near (2 / 10 ^ 7) 1.27323954 (4 / M_PI)" "near (2 / 10 ^ 7) 0.405284735 (4 / (M_PI * M_PI))"
proof -
  note m = M_PI_bounds(1,2)
  have "3.1415924 * 3.1415924 \<le> M_PI * M_PI" "M_PI * M_PI \<le> 3.1415929 * 3.1415929" using m by (intro mult_mono; simp)+
  then have mm: "9.8696028 \<le> M_PI * M_PI" "M_PI * M_PI \<le> 9.869606" "0 < M_PI * M_PI" by simp_all
  show "near (2 / 10 ^ 7) 1.27323954 (4 / M_PI)" "near (2 / 10 ^ 7) 0.405284735 (4 / (M_PI * M_PI))"
    using m mm unfolding near_def abs_le_iff by (simp_all add: field_simps)
qed

lemma sin_parabola_near:
  assumes "\<bar>a\<bar> \<le> M_PI"
  shows "near (1 / 10 ^ 5) (sin_parabola a) (parabola (a / M_PI))"
proof -
  have a: "\<bar>a\<bar> \<le> 63 / 20" using assms M_PI_bounds by simp
  let ?l = "fl (fl 1.27323954 * a)" and ?q = "fl (fl (fl 0.405284735 * a) * a)"
  let ?x = "4 / M_PI * a" and ?y = "4 / (M_PI * M_PI) * a * a"
  have aa: "\<bar>a * a\<bar> \<le> 10" using mult_mono [OF a a] by (simp add: abs_mult)
  have c: "\<bar>4 / M_PI\<bar> \<le> 2" "\<bar>4 / (M_PI * M_PI)\<bar> \<le> 1" "\<bar>1.27323954 :: real\<bar> \<le> 2" "\<bar>0.405284735 :: real\<bar> \<le> 1"
    using turn_constants unfolding near_def abs_le_iff by simp_all
  have x: "near (2 / 10 ^ 6) ?l ?x"
    using near_trans [OF parabola_terms(1) [OF a] near_mult [OF turn_constants(1) near_refl c(1) a]] by (rule near_mono) simp
  have "near (2 / 10 ^ 7 * 10 + (1 + 2 / 10 ^ 7) * 0) (0.405284735 * (a * a)) (4 / (M_PI * M_PI) * (a * a))"
    by (rule near_mult [OF turn_constants(2) near_refl c(2) aa])
  then have "near (2 / 10 ^ 6) (0.405284735 * a * a) ?y" unfolding mult.assoc by (rule near_mono) simp
  from near_trans [OF parabola_terms(2) [OF a] this] have y: "near (4 / 10 ^ 6) ?q ?y" by (rule near_mono) simp
  have xy: "\<bar>?x\<bar> \<le> 63 / 10" "\<bar>?y\<bar> \<le> 10" using mult_mono [OF c(1) a] mult_mono [OF c(2) aa] by (simp_all add: abs_mult)
  have s: "\<bar>?x + ?y\<bar> \<le> 17" "\<bar>?x - ?y\<bar> \<le> 17" using xy by linarith+
  show ?thesis
  proof (cases "a < 0")
    case True
    have "near (1 / 10 ^ 5) (fl (?l + ?q)) (?x + ?y)"
      by (rule near_flI [OF near_add [OF x y] s(1), of 18]) simp_all
    moreover have "parabola (a / M_PI) = ?x + ?y" using True M_PI_bounds(1) by (simp add: parabola_def abs_divide field_simps)
    ultimately show ?thesis using True by (simp add: sin_parabola_def)
  next
    case False
    have "near (1 / 10 ^ 5) (fl (?l - ?q)) (?x - ?y)"
      by (rule near_flI [OF near_diff [OF x y] s(2), of 18]) simp_all
    moreover have "parabola (a / M_PI) = ?x - ?y" using False M_PI_bounds(1) by (simp add: parabola_def abs_divide field_simps)
    ultimately show ?thesis using False by (simp add: sin_parabola_def)
  qed
qed

lemma h_bound: "\<bar>t\<bar> \<le> 1 \<Longrightarrow> \<bar>parabola t\<bar> \<le> 1"
proof -
  assume t: "\<bar>t\<bar> \<le> 1"
  have "0 \<le> (2 * \<bar>t\<bar> - 1)\<^sup>2" by simp
  then have "4 * \<bar>t\<bar> * (1 - \<bar>t\<bar>) \<le> 1" by (simp add: power2_eq_square algebra_simps)
  then show ?thesis using t by (simp add: parabola_def abs_mult)
qed

lemma h_lipschitz: "\<bar>t\<bar> \<le> 1 \<Longrightarrow> \<bar>t'\<bar> \<le> 1 \<Longrightarrow> near e t t' \<Longrightarrow> near (8 * e) (parabola t) (parabola t')"
proof -
  assume t: "\<bar>t\<bar> \<le> 1" "\<bar>t'\<bar> \<le> 1" "near e t t'"
  have "\<bar>(t - t') * (1 - \<bar>t'\<bar>)\<bar> \<le> e * 1" "\<bar>t * (\<bar>t'\<bar> - \<bar>t\<bar>)\<bar> \<le> 1 * e"
    unfolding abs_mult using t unfolding near_def by (intro mult_mono; linarith)+
  moreover have "t * (1 - \<bar>t\<bar>) - t' * (1 - \<bar>t'\<bar>) = (t - t') * (1 - \<bar>t'\<bar>) + t * (\<bar>t'\<bar> - \<bar>t\<bar>)" by (simp add: algebra_simps)
  ultimately have "\<bar>t * (1 - \<bar>t\<bar>) - t' * (1 - \<bar>t'\<bar>)\<bar> \<le> 2 * e" by linarith
  moreover have "parabola t - parabola t' = 4 * (t * (1 - \<bar>t\<bar>) - t' * (1 - \<bar>t'\<bar>))" by (simp add: parabola_def algebra_simps)
  ultimately show ?thesis unfolding near_def by (simp add: abs_mult)
qed

lemma g_lipschitz: "\<bar>y'\<bar> \<le> 1 \<Longrightarrow> \<bar>y\<bar> \<le> 2 \<Longrightarrow> near e y y' \<Longrightarrow> near (2 * e) (refined y) (refined y')"
proof -
  assume y: "\<bar>y'\<bar> \<le> 1" "\<bar>y\<bar> \<le> 2" "near e y y'"
  have "\<bar>(y - y') * (31 / 40 + 9 / 40 * \<bar>y'\<bar>)\<bar> \<le> e * 1" "\<bar>y * (9 / 40 * (\<bar>y\<bar> - \<bar>y'\<bar>))\<bar> \<le> 2 * (9 / 40 * e)"
    unfolding abs_mult using y unfolding near_def by (intro mult_mono; simp)+
  moreover have "refined y - refined y' = (y - y') * (31 / 40 + 9 / 40 * \<bar>y'\<bar>) + y * (9 / 40 * (\<bar>y\<bar> - \<bar>y'\<bar>))"
    by (simp add: refined_def field_simps)
  ultimately show ?thesis using y(3) unfolding near_def by linarith
qed

text \<open>The refinement of a value close to a point of the parabola.\<close>

lemma sin_refine_near:
  assumes "near (3 / 10 ^ 5) y y'" "\<bar>y'\<bar> \<le> 1"
  shows "near (7 / 10 ^ 5) (sin_refine y) (refined y')"
proof -
  have y: "\<bar>y\<bar> \<le> 101 / 100" using near_abs [OF assms] by simp
  let ?a = "\<bar>y\<bar>"
  have "near 0 (y * ?a) (y * ?a)" "\<bar>y * ?a\<bar> \<le> 103 / 100" using mult_mono [OF y y] by (simp_all add: near_refl abs_mult)
  then have 1: "near (1 / 10 ^ 7) (fl (y * ?a)) (y * ?a)" by (rule near_flI [where b = "103 / 100"]) simp_all
  have d: "\<bar>y * ?a - y\<bar> \<le> 3" using y \<open>\<bar>y * ?a\<bar> \<le> 103 / 100\<close> by linarith
  have 2: "near (3 / 10 ^ 7) (fl (fl (y * ?a) - y)) (y * ?a - y)"
    by (rule near_flI [OF near_diff [OF 1 near_refl] d, of "31 / 10"]) simp_all
  have c: "near (2 / 10 ^ 8) (fl 0.225) 0.225" by (rule near_const [of _ "1/4"]) simp_all
  have 3: "near (2 / 10 ^ 7) (fl 0.225 * fl (fl (y * ?a) - y)) (0.225 * (y * ?a - y))"
    by (rule near_mono [OF near_mult [OF c 2 _ d, of "1/4"]]) simp_all
  have e: "\<bar>0.225 * (y * ?a - y)\<bar> \<le> 7 / 10" using d by (simp add: abs_mult)
  have 4: "near (3 / 10 ^ 7) (fl (fl 0.225 * fl (fl (y * ?a) - y))) (0.225 * (y * ?a - y))"
    by (rule near_flI [OF 3 e, of 1]) simp_all
  have f: "\<bar>0.225 * (y * ?a - y) + y\<bar> \<le> 2" using e y by linarith
  have "near (1 / 10 ^ 6) (fl (fl (fl 0.225 * fl (fl (y * ?a) - y)) + y)) (0.225 * (y * ?a - y) + y)"
    by (rule near_flI [OF near_add [OF 4 near_refl] f, of 3]) simp_all
  moreover have "0.225 * (y * ?a - y) + y = refined y" by (simp add: refined_def field_simps)
  moreover have "sin_refine y = fl (fl (fl 0.225 * fl (fl (y * ?a) - y)) + y)" by (simp add: sin_refine_def)
  ultimately have "near (1 / 10 ^ 6) (sin_refine y) (refined y)" by simp
  from near_trans [OF this g_lipschitz [OF assms(2) _ assms(1)]] show ?thesis
    using y by (auto elim: near_mono)
qed

text \<open>The quarter turn of the cosine, and the wrap-around of the angle.\<close>

lemma two_pi: "fl (2 * M_PI) = 2 * M_PI"
proof -
  obtain m e where m: "M_PI = of_int m * 2 powr of_int e" "\<bar>m\<bar> \<le> 2 ^ 24" "-149 \<le> e" using M_PI_bounds(3) unfolding is_f32_def by blast
  have "2 * M_PI = of_int m * 2 powr of_int (e + 1)" unfolding m(1) by (simp add: powr_add)
  then have "is_f32 (2 * M_PI)" using m(2,3) unfolding is_f32_def by (intro exI [of _ m] exI [of _ "e + 1"]) simp
  then show ?thesis by (rule fl_exact)
qed

lemma is_f32_minus: "is_f32 x \<Longrightarrow> is_f32 (- x)"
  by (metis fl_exact fl_is_f32 fl_minus)

lemma h_near_edge: "\<bar>t\<bar> \<le> 1 \<Longrightarrow> near e t 1 \<or> near e t (- 1) \<Longrightarrow> near (8 * e) (parabola t) 0"
  using h_lipschitz [of t 1 e] h_lipschitz [of t "- 1" e] by (auto simp: parabola_def)

lemma ahead_range: "\<bar>t\<bar> \<le> 1 \<Longrightarrow> \<bar>ahead t\<bar> \<le> 1"
  by (auto simp: ahead_def)

text \<open>Rounding may wrap an angle at a quarter turn that the exact sum would not, and the other way round. The approximation
  vanishes at both ends of the range, so it hardly sees the difference.\<close>

lemma h_near_ahead:
  assumes "\<bar>t\<bar> \<le> 1" "\<bar>r\<bar> \<le> 1" "near (3 / 10 ^ 7) r (t + 1/2) \<or> near (3 / 10 ^ 7) r (t - 3/2)"
  shows "near (1 / 10 ^ 5) (parabola r) (parabola (ahead t))"
proof (cases "near (3 / 10 ^ 7) r (ahead t)")
  case True
  from near_mono [OF h_lipschitz [OF assms(2) ahead_range [OF assms(1)] True]] show ?thesis by simp
next
  case False
  note a = ahead_range [OF assms(1)]
  have "near (3 / 10 ^ 7) r 1 \<or> near (3 / 10 ^ 7) r (- 1)" "near (3 / 10 ^ 7) (ahead t) 1 \<or> near (3 / 10 ^ 7) (ahead t) (- 1)"
    using False assms unfolding near_def ahead_def by (auto simp: abs_le_iff split: if_splits)
  then have "near (3 / 10 ^ 6) (parabola r) 0" "near (3 / 10 ^ 6) (parabola (ahead t)) 0"
    using near_mono [OF h_near_edge [OF assms(2)]] near_mono [OF h_near_edge [OF a]] by simp_all
  from near_trans [OF this(1), of "3 / 10 ^ 6" "parabola (ahead t)"] this(2) show ?thesis
    by (auto simp: near_def elim!: near_mono order_trans)
qed

lemma quarter_turn_near:
  assumes "\<bar>a\<bar> \<le> M_PI"
  shows "\<bar>quarter_turn a\<bar> \<le> M_PI" "near (1 / 10 ^ 5) (parabola (quarter_turn a / M_PI)) (parabola (ahead (a / M_PI)))"
proof -
  have m: "314 / 100 \<le> M_PI" "M_PI \<le> 315 / 100" "is_f32 M_PI" using M_PI_bounds by simp_all
  define b where "b = fl (a + fl (0.5 * M_PI))"
  have "near 0 (0.5 * M_PI) (M_PI / 2)" "\<bar>M_PI / 2\<bar> \<le> 2" using m by (simp_all add: near_def)
  then have "near (12 / 10 ^ 8) (fl (0.5 * M_PI)) (M_PI / 2)" by (rule near_flI [where b = 2]) simp_all
  then have "near (12 / 10 ^ 8) (a + fl (0.5 * M_PI)) (a + M_PI / 2)"
    using near_add [OF near_refl [of a]] by fastforce
  moreover have "\<bar>a + M_PI / 2\<bar> \<le> 48 / 10" using assms m by linarith
  ultimately have b: "near (5 / 10 ^ 7) b (a + M_PI / 2)"
    unfolding b_def by (rule near_flI [where b = 5]) simp_all
  have qt: "quarter_turn a = (if b > M_PI then fl (b - 2 * M_PI) else b)"
    unfolding quarter_turn_def b_def Let_def two_pi ..
  have scale: "near (3 / 10 ^ 7) (x / M_PI) (y / M_PI)" if "near (9 / 10 ^ 7) x y" for x y
  proof -
    have "\<bar>x - y\<bar> \<le> 3 / 10 ^ 7 * M_PI" using that m unfolding near_def by simp
    then show ?thesis using m unfolding near_def by (simp add: diff_divide_distrib [symmetric] abs_divide divide_le_eq)
  qed
  have split: "(a + M_PI / 2) / M_PI = a / M_PI + 1/2" "(a - 3 * M_PI / 2) / M_PI = a / M_PI - 3/2"
    using m by (simp_all add: field_simps)
  have unit: "\<bar>x / M_PI\<bar> \<le> 1" if "\<bar>x\<bar> \<le> M_PI" for x using that m by (simp add: abs_divide divide_le_eq)
  have "\<bar>quarter_turn a\<bar> \<le> M_PI \<and>
    (near (9 / 10 ^ 7) (quarter_turn a) (a + M_PI / 2) \<or> near (9 / 10 ^ 7) (quarter_turn a) (a - 3 * M_PI / 2))"
  proof (cases "b > M_PI")
    case True
    have "near (5 / 10 ^ 7) (b - 2 * M_PI) (a - 3 * M_PI / 2)" using b unfolding near_def abs_le_iff by (simp add: field_simps)
    moreover have "\<bar>a - 3 * M_PI / 2\<bar> \<le> 4" using assms m b True unfolding near_def abs_le_iff by (simp add: field_simps)
    ultimately have r: "near (9 / 10 ^ 7) (fl (b - 2 * M_PI)) (a - 3 * M_PI / 2)" by (rule near_flI [where b = "41 / 10"]) simp_all
    have "- M_PI \<le> fl (b - 2 * M_PI)" using True is_f32_minus [OF m(3)] by (intro f32.rnd_ge) auto
    moreover have "fl (b - 2 * M_PI) \<le> M_PI" using r assms m unfolding near_def abs_le_iff by (simp add: field_simps)
    ultimately show ?thesis using r True by (simp add: qt)
  next
    case False
    have "- M_PI \<le> b" using b assms m unfolding near_def abs_le_iff by (simp add: field_simps)
    then show ?thesis using False b by (simp add: qt near_def)
  qed
  then show q: "\<bar>quarter_turn a\<bar> \<le> M_PI"
    and "near (1 / 10 ^ 5) (parabola (quarter_turn a / M_PI)) (parabola (ahead (a / M_PI)))"
    using h_near_ahead [OF unit [OF assms] unit [of "quarter_turn a"]] scale [of "quarter_turn a", unfolded split] scale split by fastforce+
qed

lemma wrap_rad_range: "wrap_rad angle = Some a \<Longrightarrow> \<bar>a\<bar> \<le> M_PI"
proof -
  assume "wrap_rad angle = Some a"
  then obtain b where b: "add_until (- M_PI) (2 * M_PI) angle = Some b" "sub_until M_PI (2 * M_PI) b = Some a"
    by (auto simp: wrap_rad_def two_pi split: bind_splits)
  have "\<not> b < - M_PI" using while_option_stop [OF b(1) [unfolded add_until_def]] .
  moreover have "- M_PI \<le> a"
  proof (rule while_option_rule [OF _ b(2) [unfolded sub_until_def]])
    show "- M_PI \<le> fl (x - 2 * M_PI)" if "- M_PI \<le> x" "M_PI < x" for x
      using that is_f32_minus [OF M_PI_bounds(3)] by (intro f32.rnd_ge) auto
  qed (use calculation in simp)
  moreover have "\<not> a > M_PI" using while_option_stop [OF b(2) [unfolded sub_until_def]] .
  ultimately show ?thesis by simp
qed

lemma sincos_norm:
  assumes "utils_fast_sincos_better angle = Some (s, c)"
  shows "s\<^sup>2 + c\<^sup>2 \<le> 1.003" "\<bar>s\<bar> \<le> 1.002" "\<bar>c\<bar> \<le> 1.002"
proof -
  obtain a where a: "wrap_rad angle = Some a" and s: "s = sin_refine (sin_parabola a)"
    and c: "c = sin_refine (sin_parabola (quarter_turn a))"
    using assms by (auto simp: utils_fast_sincos_better_def split: bind_splits)
  note r = wrap_rad_range [OF a] and q = quarter_turn_near [OF wrap_rad_range [OF a]]
  let ?t = "a / M_PI"
  have t: "\<bar>?t\<bar> \<le> 1" using r M_PI_bounds by (simp add: abs_divide divide_le_eq)
  note t' = ahead_range [OF t]
  have 1: "near (7 / 10 ^ 5) s (refined (parabola ?t))" unfolding s
    by (rule sin_refine_near [OF near_mono [OF sin_parabola_near [OF r]] h_bound [OF t]]) simp
  have 2: "near (7 / 10 ^ 5) c (refined (parabola (ahead ?t)))" unfolding c
    by (rule sin_refine_near [OF near_mono [OF near_trans [OF sin_parabola_near [OF q(1)] q(2)]] h_bound [OF t']]) simp
  have gb: "\<bar>refined y\<bar> \<le> 1" if "\<bar>y\<bar> \<le> 1" for y
  proof -
    have "\<bar>y\<bar> * (31 / 40 + 9 / 40 * \<bar>y\<bar>) \<le> 1 * 1" using that by (intro mult_mono) auto
    then show ?thesis by (simp add: refined_def abs_mult)
  qed
  have sq: "x\<^sup>2 \<le> y\<^sup>2 + 3 / 10 ^ 4" "\<bar>x\<bar> \<le> 1.002" if "near (7 / 10 ^ 5) x y" "\<bar>y\<bar> \<le> 1" for x y
  proof -
    from that show x: "\<bar>x\<bar> \<le> 1.002" unfolding near_def abs_le_iff by simp
    have "\<bar>x + y\<bar> \<le> 3" using that(2) x unfolding abs_le_iff by simp
    then have "\<bar>(x - y) * (x + y)\<bar> \<le> 7 / 10 ^ 5 * 3" unfolding abs_mult using that unfolding near_def by (intro mult_mono) auto
    moreover have "(x - y) * (x + y) = x\<^sup>2 - y\<^sup>2" by (simp add: power2_eq_square algebra_simps)
    ultimately show "x\<^sup>2 \<le> y\<^sup>2 + 3 / 10 ^ 4" unfolding abs_le_iff by simp
  qed
  note 3 = sq [OF 1 gb [OF h_bound [OF t]]] sq [OF 2 gb [OF h_bound [OF t']]]
  show "\<bar>s\<bar> \<le> 1.002" "\<bar>c\<bar> \<le> 1.002" by (fact 3)+
  show "s\<^sup>2 + c\<^sup>2 \<le> 1.003" using gh_norm [OF t] 3(1,3) by simp
qed

section \<open>Limiting the length of a vector\<close>

lemma fl_scaled:
  assumes "0 \<le> x"
  shows "x * (1 - 1 / 2 ^ 24) - 1 / 2 ^ 120 \<le> fl x" "fl x \<le> x * (1 + 1 / 2 ^ 24) + 1 / 2 ^ 120"
proof -
  have "\<bar>fl x - x\<bar> \<le> x / 2 ^ 24 + 1 / 2 ^ 120"
  proof (cases "2 powr -126 \<le> \<bar>x\<bar>")
    case True
    from fl_rel_error [OF this] show ?thesis using assms by simp
  next
    case False
    then have "\<bar>fl x - x\<bar> \<le> 1 / 2 ^ 100 / 2 ^ 24" using fl_tiny [of x] powr_tiny by simp
    moreover have "0 \<le> x / 2 ^ 24" "1 / 2 ^ 100 / 2 ^ 24 \<le> (1 / 2 ^ 120 :: real)" using assms by simp_all
    ultimately show ?thesis by linarith
  qed
  then show "x * (1 - 1 / 2 ^ 24) - 1 / 2 ^ 120 \<le> fl x" "fl x \<le> x * (1 + 1 / 2 ^ 24) + 1 / 2 ^ 120"
    unfolding abs_le_iff by (simp_all add: algebra_simps)
qed

lemma fl_shrink: "1 / 2 ^ 78 \<le> x \<Longrightarrow> x * (1 - 1 / 2 ^ 23) \<le> fl x"
proof -
  assume x: "1 / 2 ^ 78 \<le> x"
  then have "1 / 2 ^ 78 * (1 / 2 ^ 24) \<le> x * (1 / 2 ^ 24)" by (intro mult_right_mono) auto
  then show ?thesis using fl_scaled(1) [of x] x by (simp add: field_simps)
qed

text \<open>The computed length is not much below the length.\<close>

lemma computed_length:
  assumes "1 / 10 ^ 10 \<le> n" "n\<^sup>2 = x * x + y * y"
  shows "n * (1 - 1 / 2 ^ 20) \<le> fl (sqrt (fl (fl (x * x) + fl (y * y))))"
proof -
  let ?k = "1 - 1 / 2 ^ 23 :: real"
  have n2: "1 / 2 ^ 70 \<le> n\<^sup>2" using mult_mono [OF assms(1,1)] assms(1) by (simp add: power2_eq_square)
  define s where "s = fl (x * x) + fl (y * y)"
  have "n\<^sup>2 * (1 - 1 / 2 ^ 24) - 1 / 2 ^ 119 \<le> s"
    using fl_scaled(1) [of "x * x"] fl_scaled(1) [of "y * y"] unfolding assms(2) s_def by (simp add: algebra_simps)
  moreover have "1 / 2 ^ 119 \<le> n\<^sup>2 * (1 / 2 ^ 24)" using mult_right_mono [OF n2, of "1 / 2 ^ 24"] by simp
  ultimately have s: "n\<^sup>2 * ?k \<le> s" by (simp add: algebra_simps)
  have "n\<^sup>2 * ?k * ?k \<le> s * ?k" using s by (intro mult_right_mono) auto
  moreover have "1 / 2 ^ 78 \<le> s" using s mult_mono [OF n2, of "1/2" ?k] by simp
  ultimately have "(n * ?k)\<^sup>2 \<le> fl s" using fl_shrink [of s] by (simp add: power2_eq_square algebra_simps)
  then have r: "n * ?k \<le> sqrt (fl s)" by (rule real_le_rsqrt)
  then have "n * ?k * ?k \<le> sqrt (fl s) * ?k" by (intro mult_right_mono) auto
  moreover have "1 / 2 ^ 78 \<le> sqrt (fl s)" using r assms(1) by simp
  ultimately have "n * ?k * ?k \<le> fl (sqrt (fl s))" using fl_shrink [of "sqrt (fl s)"] by linarith
  moreover have "n * (1 - 1 / 2 ^ 20) \<le> n * (?k * ?k)" using assms(1) by (intro mult_left_mono order_trans [OF _ assms(1), of 0]) simp_all
  ultimately show ?thesis by (simp add: s_def mult.assoc)
qed

definition fits :: "real \<Rightarrow> bool" where "fits x \<longleftrightarrow> \<bar>x\<bar> \<le> 2 ^ 60"

lemma scaled_component: "0 \<le> f \<Longrightarrow> \<bar>fl (x * f)\<bar> \<le> \<bar>x\<bar> * (f * (1 + 1 / 2 ^ 24)) + 1 / 2 ^ 120"
  using fl_scaled(2) [of "\<bar>x * f\<bar>"] by (simp only: f32.rnd_abs) (simp add: abs_mult algebra_simps)

lemma norm_components:
  assumes "\<bar>x'\<bar> \<le> \<bar>x\<bar> * F + e" "\<bar>y'\<bar> \<le> \<bar>y\<bar> * F + e" "0 \<le> F" "0 \<le> e"
  shows "sqrt (x'\<^sup>2 + y'\<^sup>2) \<le> sqrt (x\<^sup>2 + y\<^sup>2) * F + 2 * e"
proof -
  have "sqrt (x'\<^sup>2 + y'\<^sup>2) \<le> sqrt ((\<bar>x\<bar> * F + e)\<^sup>2 + (\<bar>y\<bar> * F + e)\<^sup>2)"
    using assms power_mono [OF assms(1), of 2] power_mono [OF assms(2), of 2] by simp
  also have "\<dots> \<le> sqrt ((\<bar>x\<bar> * F)\<^sup>2 + (\<bar>y\<bar> * F)\<^sup>2) + sqrt (e\<^sup>2 + e\<^sup>2)" by (rule real_sqrt_sum_squares_triangle_ineq)
  also have "sqrt ((\<bar>x\<bar> * F)\<^sup>2 + (\<bar>y\<bar> * F)\<^sup>2) = sqrt ((x\<^sup>2 + y\<^sup>2) * F\<^sup>2)" by (simp add: power_mult_distrib algebra_simps)
  also have "\<dots> = sqrt (x\<^sup>2 + y\<^sup>2) * F" using assms(3) by (simp add: real_sqrt_mult)
  also have "sqrt (e\<^sup>2 + e\<^sup>2) \<le> 2 * e" using assms(4) by (intro real_le_lsqrt) (auto simp: power2_eq_square)
  finally show ?thesis by simp
qed

lemma saturate_length:
  assumes "utils_saturate_vector_2d x y mx = (b, x', y')" "fits x" "fits y"
  shows "sqrt (x'\<^sup>2 + y'\<^sup>2) \<le> \<bar>mx\<bar> * (1 + 1 / 2 ^ 18) + 1 / 2 ^ 40"
proof -
  define n where "n = sqrt (x\<^sup>2 + y\<^sup>2)"
  define mag0 where "mag0 = fl (sqrt (fl (fl (x * x) + fl (y * y))))"
  define mag where "mag = (if mag0 < fl (1 / 10 ^ 10) then fl (1 / 10 ^ 10) else mag0)"
  have n: "n\<^sup>2 = x * x + y * y" "0 \<le> n" by (simp_all add: n_def power2_eq_square)
  have nb: "n \<le> 2 ^ 62"
    using sqrt_sum_squares_le_sum_abs [of x y] assms(2,3) by (simp add: n_def fits_def)
  have e: "fl (1 / 10 ^ 10) \<ge> 1 / 10 ^ 10 * (1 - 1 / 2 ^ 23)" by (rule fl_shrink) simp
  have mag: "n * (1 - 1 / 2 ^ 20) \<le> mag" "0 < mag"
  proof -
    show "0 < mag" using e by (auto simp: mag_def)
    show "n * (1 - 1 / 2 ^ 20) \<le> mag"
    proof (cases "1 / 10 ^ 10 \<le> n")
      case True
      from computed_length [OF this n(1)] show ?thesis by (auto simp: mag_def mag0_def)
    next
      case False
      then have "n * (1 - 1 / 2 ^ 20) \<le> 1 / 10 ^ 10 * (1 - 1 / 2 ^ 20)" by (intro mult_right_mono) auto
      then show ?thesis using e by (auto simp: mag_def)
    qed
  qed
  show ?thesis
  proof (cases "mag > \<bar>mx\<bar>")
    case False
    then have "x' = x" "y' = y" using assms(1) by (auto simp: utils_saturate_vector_2d_def Let_def mag_def mag0_def split: if_splits)
    moreover have "n \<le> mag * (1 + 1 / 2 ^ 18)" using mag by simp
    moreover have "mag * (1 + 1 / 2 ^ 18) \<le> \<bar>mx\<bar> * (1 + 1 / 2 ^ 18)" using False by (intro mult_right_mono) auto
    ultimately show ?thesis by (simp add: n_def)
  next
    case True
    define f where "f = fl (\<bar>mx\<bar> / mag)"
    have x': "x' = fl (x * f)" "y' = fl (y * f)" using assms(1) True
      by (auto simp: utils_saturate_vector_2d_def Let_def mag_def mag0_def f_def split: if_splits)
    have f0: "0 \<le> f" unfolding f_def using mag(2) by (intro f32.rnd_nonneg) simp
    have f: "f \<le> \<bar>mx\<bar> / mag * (1 + 1 / 2 ^ 24) + 1 / 2 ^ 120" unfolding f_def using mag(2) by (intro fl_scaled) simp
    have "sqrt (x'\<^sup>2 + y'\<^sup>2) \<le> n * (f * (1 + 1 / 2 ^ 24)) + 2 * (1 / 2 ^ 120)"
      unfolding x' n_def using f0 by (intro norm_components scaled_component) auto
    then have 1: "sqrt (x'\<^sup>2 + y'\<^sup>2) \<le> n * f * (1 + 1 / 2 ^ 24) + 2 * (1 / 2 ^ 120)" by (simp only: mult.assoc)
    have 2: "n * f \<le> n * (\<bar>mx\<bar> / mag) * (1 + 1 / 2 ^ 24) + 2 ^ 62 * (1 / 2 ^ 120)"
      using mult_left_mono [OF f n(2)] mult_right_mono [OF nb, of "1 / 2 ^ 120"] by (simp add: algebra_simps)
    have "n / mag \<le> 1 + 1 / 2 ^ 19" using mag by (simp add: divide_le_eq)
    from mult_right_mono [OF this, of "\<bar>mx\<bar>"] have 3: "n * (\<bar>mx\<bar> / mag) \<le> \<bar>mx\<bar> * (1 + 1 / 2 ^ 19)" by (simp add: algebra_simps)
    define p q where "p = n * f" and "q = n * (\<bar>mx\<bar> / mag)"
    show ?thesis using 1 2 3 unfolding p_def [symmetric] q_def [symmetric] by simp
  qed
qed

end
