(* ===== verification/Board.thy ===== *)
theory Board
  imports Utils Datatypes
begin

text \<open>
  What the two motor drivers share: the constants of the board (\<open>hwconf/hw_410.h\<close>; the drivers are modelled for any), the conversion of the
  input voltage, division and truncation of \<open>float\<close> values as operations, and the rules that run an operation backwards.
\<close>

record board =
  V_REG :: real
  VIN_R1 :: real
  VIN_R2 :: real
  CURRENT_AMP_GAIN :: real
  CURRENT_SHUNT_RES :: real

definition hw_410 :: board where
  "hw_410 = \<lparr>V_REG = fl 3.3, VIN_R1 = 39000, VIN_R2 = 2200, CURRENT_AMP_GAIN = 10, CURRENT_SHUNT_RES = fl 0.001\<rparr>"

definition SYSTEM_CORE_CLOCK :: i32 where "SYSTEM_CORE_CLOCK = 168000000"

definition fdiv :: "real \<Rightarrow> real \<Rightarrow> real option" where
  "fdiv x y = (if y = 0 then None else Some (fl (x / y)))"

definition GET_INPUT_VOLTAGE :: "board \<Rightarrow> u16 \<Rightarrow> real" where
  "GET_INPUT_VOLTAGE b adc =
     fl (fl (fl (V_REG b / 4095) * fl (of_nat (unat adc))) * fl (fl (VIN_R1 b + VIN_R2 b) / VIN_R2 b))"

definition truncated :: "real \<Rightarrow> real \<Rightarrow> real \<Rightarrow> real" where
  "truncated x lo hi = snd (utils_truncate_number x lo hi)"

lemma truncated_range: "lo \<le> hi \<Longrightarrow> lo \<le> truncated x lo hi \<and> truncated x lo hi \<le> hi"
  by (auto simp: truncated_def utils_truncate_number_def)

lemma truncated_toward_zero:
  assumes "lo \<le> 0" "0 \<le> hi"
  shows "\<bar>truncated x lo hi\<bar> \<le> \<bar>x\<bar>" "min x 0 \<le> truncated x lo hi" "truncated x lo hi \<le> max x 0"
    "lo \<le> truncated x lo hi" "truncated x lo hi \<le> hi"
  using assms by (auto simp: truncated_def utils_truncate_number_def)

section \<open>Running an operation backwards\<close>

lemma bind_SomeE: "x \<bind> f = Some z \<Longrightarrow> (\<And>y. x = Some y \<Longrightarrow> f y = Some z \<Longrightarrow> P) \<Longrightarrow> P"
  by (cases x) auto

lemma if_SomeE: "(if c then x else y) = Some z \<Longrightarrow> (c \<Longrightarrow> x = Some z \<Longrightarrow> P) \<Longrightarrow> (\<not> c \<Longrightarrow> y = Some z \<Longrightarrow> P) \<Longrightarrow> P"
  by (cases c) auto

lemma Some_SomeE: "Some x = Some z \<Longrightarrow> (z = x \<Longrightarrow> P) \<Longrightarrow> P"
  by auto

lemma pair_SomeE: "Some (a, x) = Some (b, z) \<Longrightarrow> (b = a \<Longrightarrow> z = x \<Longrightarrow> P) \<Longrightarrow> P"
  by auto

lemmas runE = bind_SomeE if_SomeE pair_SomeE Some_SomeE

section \<open>Bounds of rounded values\<close>

lemma is_f32_1: "is_f32 1" and is_f32_0: "is_f32 0"
  using fl_is_f32 [of 1] fl_is_f32 [of 0] by simp_all

lemma fl_le_numeral: "\<bar>x\<bar> \<le> numeral n \<Longrightarrow> (numeral n :: int) \<le> 16777216 \<Longrightarrow> \<bar>fl x\<bar> \<le> numeral n"
  by (intro f32.rnd_abs_le is_f32_numeral)

lemma fl_le_one: "\<bar>x\<bar> \<le> 1 \<Longrightarrow> \<bar>fl x\<bar> \<le> 1"
  by (intro f32.rnd_abs_le is_f32_1)

lemma abs_mult_le: "\<bar>x\<bar> \<le> A \<Longrightarrow> \<bar>y\<bar> \<le> B \<Longrightarrow> \<bar>x * y\<bar> \<le> A * (B :: real)"
  unfolding abs_mult by (intro mult_mono) auto

end
