(* ===== verification/Foc.thy ===== *)
theory Foc
  imports Board Trig Datatypes
begin

text \<open>
  The field-oriented driver, \<open>mcpwm_foc.c\<close>: the motor commands, the injected-conversion interrupt with the current
  controller, the rotor observer, the speed loop of the timer thread, and the calibration.

  The state is the record \<open>foc\<close>, one field per static variable of the file, the static locals of the functions included.
  What an interrupt reads from the converters, the encoder, the hall sensors and the timer is the record \<open>foc_in\<close>; what
  is written to the timers is appended to \<open>foc_events\<close>. An operation is \<^term>\<open>None\<close> where the source divides by zero (the result would be
  infinite or not a number), converts a number that does not fit, reads outside an array, or does not return. The counters are 32-bit
  words and wrap around.
\<close>

section \<open>State\<close>

record motor_state_t =
  ms_id_target :: real
  ms_iq_target :: real
  ms_max_duty :: real
  ms_duty_now :: real
  ms_phase :: real
  ms_i_alpha :: real
  ms_i_beta :: real
  ms_i_abs :: real
  ms_i_abs_filter :: real
  ms_i_bus :: real
  ms_v_bus :: real
  ms_v_alpha :: real
  ms_v_beta :: real
  ms_mod_d :: real
  ms_mod_q :: real
  ms_id :: real
  ms_iq :: real
  ms_id_filter :: real
  ms_iq_filter :: real
  ms_vd :: real
  ms_vq :: real

record mc_sample_t =
  sample_num :: i32
  avg_current_tot :: real
  avg_voltage_tot :: real
  measure_inductance_now :: bool
  measure_inductance_duty :: real

text \<open>Writes to the timers: \<open>duty_regs\<close> are \<open>CCR1\<close>, \<open>CCR2\<close>, \<open>CCR3\<close> of timer 1 under one update lock, \<open>samp_regs\<close> the sampling points, with the period
  in \<open>samp_top_regs\<close>. Forcing the outputs off and running them as PWM are one event each.\<close>

datatype foc_event =
    duty_regs u32 u32 u32 | duty_samp_regs u32 u32 u32 u32 | samp_regs u32 u32 | samp_top_regs u32 u32 u32
  | preload_duty1 bool | preload_duty2 bool | pwm_off | pwm_on | watchdog_reset | mcif_timer_isr

record foc =
  foc_conf :: mc_configuration
  foc_state :: mc_state
  foc_control_mode :: mc_control_mode
  foc_motor_state :: motor_state_t
  foc_curr0_sum :: i32
  foc_curr1_sum :: i32
  foc_curr_samples :: i32
  foc_curr0_offset :: i32
  foc_curr1_offset :: i32
  foc_phase_override :: bool
  foc_phase_now_override :: real
  foc_duty_cycle_set :: real
  foc_id_set :: real
  foc_iq_set :: real
  foc_dccal_done :: bool
  foc_output_on :: bool
  foc_pos_pid_set :: real
  foc_speed_pid_set_rpm :: real
  foc_phase_now_observer :: real
  foc_phase_now_observer_override :: real
  foc_phase_observer_override :: bool
  foc_phase_now_encoder :: real
  foc_phase_now_encoder_no_index :: real
  foc_observer_x1 :: real
  foc_observer_x2 :: real
  foc_pll_phase :: real
  foc_pll_speed :: real
  foc_samples :: mc_sample_t
  foc_tachometer :: i32
  foc_tachometer_abs :: i32
  foc_last_inj_adc_isr_duration :: real
  foc_pos_pid_now :: real
  foc_timer_thd_stop :: bool
  inductance_state :: nat
  phase_before :: real
  duty_filtered :: real
  duty_i_term :: real
  phase_last :: real
  angle_last :: real
  min_rpm_hyst_timer :: real
  min_rpm_timer :: real
  pos_i_term :: real
  pos_prev_error :: real
  pos_dt_int :: real
  speed_i_term :: real
  speed_prev_error :: real
  using_encoder :: bool
  ang_hall_int_prev :: int
  using_hall :: bool
  ang_hall :: real
  ADC_curr_norm_value :: "i32 list"
  foc_events :: "foc_event list"

text \<open>Inputs of one interrupt. The input voltage is converted twice by some branches, each time from the converter.\<close>

record foc_in =
  in_curr0 :: u16
  in_curr1 :: u16
  in_vin :: u16
  in_vin_again :: u16
  in_sens1 :: u16
  in_sens2 :: u16
  in_sens3 :: u16
  in_encoder :: "real option"
  in_index_found :: bool
  in_hall :: "bool \<times> bool \<times> bool"
  in_arr :: u32
  in_tim12_cnt :: u32

definition MCPWM_FOC_INDUCTANCE_SAMPLE_CNT_OFFSET :: u32 where "MCPWM_FOC_INDUCTANCE_SAMPLE_CNT_OFFSET = 10"
definition MCPWM_FOC_INDUCTANCE_SAMPLE_RISE_COMP :: u32 where "MCPWM_FOC_INDUCTANCE_SAMPLE_RISE_COMP = 50"
definition MCPWM_FOC_I_FILTER_CONST :: real where "MCPWM_FOC_I_FILTER_CONST = fl 0.1"

definition ADC_VOLTS :: "board \<Rightarrow> u16 \<Rightarrow> real" where
  "ADC_VOLTS b adc = fl (fl (fl (of_nat (unat adc)) / 4095) * V_REG b)"

abbreviation RADPS_PER_RPM :: real where "RADPS_PER_RPM \<equiv> fl (fl (2 * M_PI) / 60)"
abbreviation DEG_PER_RAD :: real where "DEG_PER_RAD \<equiv> fl (180 / M_PI)"

section \<open>Timer outputs\<close>

definition foc_emit :: "foc_event \<Rightarrow> foc \<Rightarrow> foc" where
  "foc_emit e m = m\<lparr>foc_events := foc_events m @ [e]\<rparr>"

definition TIMER_UPDATE_DUTY :: "u32 \<Rightarrow> u32 \<Rightarrow> u32 \<Rightarrow> foc \<Rightarrow> foc" where
  "TIMER_UPDATE_DUTY duty1 duty2 duty3 = foc_emit (duty_regs duty1 duty3 duty2)"

definition TIMER_UPDATE_SAMP :: "u32 \<Rightarrow> u32 \<Rightarrow> foc \<Rightarrow> foc" where
  "TIMER_UPDATE_SAMP current_samp voltage_samp = foc_emit (samp_regs current_samp voltage_samp)"

definition TIMER_UPDATE_SAMP_TOP :: "u32 \<Rightarrow> u32 \<Rightarrow> u32 \<Rightarrow> foc \<Rightarrow> foc" where
  "TIMER_UPDATE_SAMP_TOP current_samp voltage_samp arr = foc_emit (samp_top_regs current_samp voltage_samp arr)"

definition TIMER_UPDATE_DUTY_CURRENTSAMP :: "u32 \<Rightarrow> u32 \<Rightarrow> u32 \<Rightarrow> u32 \<Rightarrow> foc \<Rightarrow> foc" where
  "TIMER_UPDATE_DUTY_CURRENTSAMP duty1 duty2 duty3 current_samp = foc_emit (duty_samp_regs duty1 duty3 duty2 current_samp)"

definition stop_pwm_hw :: "foc \<Rightarrow> foc" where
  "stop_pwm_hw m = (foc_emit pwm_off m)\<lparr>foc_output_on := False\<rparr>"

definition start_pwm_hw :: "foc \<Rightarrow> foc" where
  "start_pwm_hw m = (foc_emit pwm_on m)\<lparr>foc_output_on := True\<rparr>"

section \<open>Commands\<close>

text \<open>\<open>SYSTEM_CORE_CLOCK / (int)foc_f_sw\<close>: the conversion must fit and be nonzero.\<close>

definition pwm_top :: "mc_configuration \<Rightarrow> u32 option" where
  "pwm_top c = do { f \<leftarrow> f2i32 (foc_f_sw c); if f = 0 then None else Some (word_of_int (c_div (sint SYSTEM_CORE_CLOCK) (sint f))) }"

definition mcpwm_foc_set_configuration :: "mc_configuration \<Rightarrow> foc \<Rightarrow> foc option" where
  "mcpwm_foc_set_configuration configuration m =
     (let m1 = stop_pwm_hw (m\<lparr>foc_conf := configuration, foc_control_mode := CONTROL_MODE_NONE, foc_state := MC_STATE_OFF\<rparr>) in
      do { arr \<leftarrow> pwm_top configuration; Some (TIMER_UPDATE_SAMP_TOP (arr - 2) 5 arr m1) })"

definition foc_run :: "foc \<Rightarrow> foc" where
  "foc_run m = (if foc_state m \<noteq> MC_STATE_RUNNING then m\<lparr>foc_state := MC_STATE_RUNNING\<rparr> else m)"

definition mcpwm_foc_set_duty :: "real \<Rightarrow> foc \<Rightarrow> foc" where
  "mcpwm_foc_set_duty dutyCycle m = foc_run (m\<lparr>foc_control_mode := CONTROL_MODE_DUTY, foc_duty_cycle_set := dutyCycle\<rparr>)"

definition mcpwm_foc_set_duty_noramp :: "real \<Rightarrow> foc \<Rightarrow> foc" where
  "mcpwm_foc_set_duty_noramp dutyCycle = mcpwm_foc_set_duty dutyCycle"

definition mcpwm_foc_set_pid_speed :: "real \<Rightarrow> foc \<Rightarrow> foc" where
  "mcpwm_foc_set_pid_speed rpm m = foc_run (m\<lparr>foc_control_mode := CONTROL_MODE_SPEED, foc_speed_pid_set_rpm := rpm\<rparr>)"

definition mcpwm_foc_set_pid_pos :: "real \<Rightarrow> foc \<Rightarrow> foc" where
  "mcpwm_foc_set_pid_pos pos m = foc_run (m\<lparr>foc_control_mode := CONTROL_MODE_POS, foc_pos_pid_set := pos\<rparr>)"

definition foc_release :: "foc \<Rightarrow> foc" where
  "foc_release m = stop_pwm_hw (m\<lparr>foc_control_mode := CONTROL_MODE_NONE, foc_state := MC_STATE_OFF\<rparr>)"

definition mcpwm_foc_set_current :: "real \<Rightarrow> foc \<Rightarrow> foc" where
  "mcpwm_foc_set_current current m =
     (if \<bar>current\<bar> < cc_min_current (foc_conf m) then foc_release m
      else foc_run (m\<lparr>foc_control_mode := CONTROL_MODE_CURRENT,
                  foc_iq_set := truncated current (lo_current_min (foc_conf m)) (lo_current_max (foc_conf m))\<rparr>))"

definition mcpwm_foc_set_brake_current :: "real \<Rightarrow> foc \<Rightarrow> foc" where
  "mcpwm_foc_set_brake_current current m =
     (if \<bar>current\<bar> < cc_min_current (foc_conf m) then foc_release m
      else foc_run (m\<lparr>foc_control_mode := CONTROL_MODE_CURRENT_BRAKE,
                  foc_iq_set := truncated current (lo_current_min (foc_conf m)) (lo_current_max (foc_conf m))\<rparr>))"

definition mcpwm_foc_stop_pwm :: "foc \<Rightarrow> foc" where
  "mcpwm_foc_stop_pwm = mcpwm_foc_set_current 0"

section \<open>Readings\<close>

definition mcpwm_foc_get_state :: "foc \<Rightarrow> mc_state" where "mcpwm_foc_get_state m = foc_state m"
definition mcpwm_foc_is_dccal_done :: "foc \<Rightarrow> bool" where "mcpwm_foc_is_dccal_done m = foc_dccal_done m"
definition mcpwm_foc_get_duty_cycle_set :: "foc \<Rightarrow> real" where "mcpwm_foc_get_duty_cycle_set m = foc_duty_cycle_set m"
definition mcpwm_foc_get_duty_cycle_now :: "foc \<Rightarrow> real" where "mcpwm_foc_get_duty_cycle_now m = ms_duty_now (foc_motor_state m)"
definition mcpwm_foc_get_pid_pos_set :: "foc \<Rightarrow> real" where "mcpwm_foc_get_pid_pos_set m = foc_pos_pid_set m"
definition mcpwm_foc_get_pid_pos_now :: "foc \<Rightarrow> real" where "mcpwm_foc_get_pid_pos_now m = foc_pos_pid_now m"

definition mcpwm_foc_get_switching_frequency_now :: "foc \<Rightarrow> real" where
  "mcpwm_foc_get_switching_frequency_now m = foc_f_sw (foc_conf m)"

definition mcpwm_foc_get_rpm :: "foc \<Rightarrow> real" where
  "mcpwm_foc_get_rpm m = fl (foc_pll_speed m / RADPS_PER_RPM)"

definition mcpwm_foc_get_tot_current :: "foc \<Rightarrow> real" where
  "mcpwm_foc_get_tot_current m = of_int (SIGN (ms_vq (foc_motor_state m))) * ms_iq (foc_motor_state m)"

definition mcpwm_foc_get_tot_current_filtered :: "foc \<Rightarrow> real" where
  "mcpwm_foc_get_tot_current_filtered m = of_int (SIGN (ms_vq (foc_motor_state m))) * ms_iq_filter (foc_motor_state m)"

definition mcpwm_foc_get_abs_motor_current :: "foc \<Rightarrow> real" where
  "mcpwm_foc_get_abs_motor_current m = ms_i_abs (foc_motor_state m)"

definition mcpwm_foc_get_abs_motor_current_filtered :: "foc \<Rightarrow> real" where
  "mcpwm_foc_get_abs_motor_current_filtered m = ms_i_abs_filter (foc_motor_state m)"

definition mcpwm_foc_get_tot_current_directional :: "foc \<Rightarrow> real" where
  "mcpwm_foc_get_tot_current_directional m = ms_iq (foc_motor_state m)"

definition mcpwm_foc_get_tot_current_directional_filtered :: "foc \<Rightarrow> real" where
  "mcpwm_foc_get_tot_current_directional_filtered m = ms_iq_filter (foc_motor_state m)"

definition mcpwm_foc_get_tot_current_in :: "foc \<Rightarrow> real" where
  "mcpwm_foc_get_tot_current_in m = ms_i_bus (foc_motor_state m)"

definition mcpwm_foc_get_tot_current_in_filtered :: "foc \<Rightarrow> real" where
  "mcpwm_foc_get_tot_current_in_filtered m = ms_i_bus (foc_motor_state m)"

definition mcpwm_foc_get_tachometer_value :: "bool \<Rightarrow> foc \<Rightarrow> i32 \<times> foc" where
  "mcpwm_foc_get_tachometer_value reset m = (foc_tachometer m, if reset then m\<lparr>foc_tachometer := 0\<rparr> else m)"

definition mcpwm_foc_get_tachometer_abs_value :: "bool \<Rightarrow> foc \<Rightarrow> i32 \<times> foc" where
  "mcpwm_foc_get_tachometer_abs_value reset m = (foc_tachometer_abs m, if reset then m\<lparr>foc_tachometer_abs := 0\<rparr> else m)"

definition mcpwm_foc_get_phase :: "foc \<Rightarrow> real" where
  "mcpwm_foc_get_phase m = utils_norm_angle (fl (ms_phase (foc_motor_state m) * DEG_PER_RAD))"

definition mcpwm_foc_get_phase_observer :: "foc \<Rightarrow> real" where
  "mcpwm_foc_get_phase_observer m = utils_norm_angle (fl (foc_phase_now_observer m * DEG_PER_RAD))"

definition mcpwm_foc_get_phase_encoder :: "foc \<Rightarrow> real" where
  "mcpwm_foc_get_phase_encoder m = utils_norm_angle (fl (foc_phase_now_encoder m * DEG_PER_RAD))"

definition mcpwm_foc_get_vd :: "foc \<Rightarrow> real" where "mcpwm_foc_get_vd m = ms_vd (foc_motor_state m)"
definition mcpwm_foc_get_vq :: "foc \<Rightarrow> real" where "mcpwm_foc_get_vq m = ms_vq (foc_motor_state m)"

definition mcpwm_foc_get_last_inj_adc_isr_duration :: "foc \<Rightarrow> real" where
  "mcpwm_foc_get_last_inj_adc_isr_duration m = foc_last_inj_adc_isr_duration m"

section \<open>Rotor position and speed\<close>

definition observer_update :: "mc_configuration \<Rightarrow> real \<Rightarrow> real \<Rightarrow> real \<Rightarrow> real \<Rightarrow> real \<Rightarrow> real \<times> real \<Rightarrow> (real \<times> real) \<times> real" where
  "observer_update c v_alpha v_beta i_alpha i_beta dt = (\<lambda>(x1, x2).
     (let L = fl (fl (3 / 2) * foc_motor_l c); R = fl (fl (3 / 2) * foc_motor_r c);
          gam = foc_observer_gain c; linkage = foc_motor_flux_linkage c;
          Lia = fl (L * i_alpha); Lib = fl (L * i_beta);
          d1 = fl (x1 - Lia); d2 = fl (x2 - Lib);
          k1 = fl (fl (linkage * linkage) - fl (fl (d1 * d1) + fl (d2 * d2)));
          x1_dot = fl (fl (fl (- R * i_alpha) + v_alpha) + fl (fl (fl (gam / 2) * d1) * k1));
          x2_dot = fl (fl (fl (- R * i_beta) + v_beta) + fl (fl (fl (gam / 2) * d2) * k1));
          y1 = fl (x1 + fl (x1_dot * dt)); y2 = fl (x2 + fl (x2_dot * dt));
          z1 = (if \<bar>y1\<bar> > fl (10 ^ 20) then 0 else y1); z2 = (if \<bar>y2\<bar> > fl (10 ^ 20) then 0 else y2) in
      ((z1, z2), utils_fast_atan2 (fl (z2 - fl (L * i_beta))) (fl (z1 - fl (L * i_alpha))))))"

definition pll_run :: "mc_configuration \<Rightarrow> real \<Rightarrow> real \<Rightarrow> real \<times> real \<Rightarrow> (real \<times> real) option" where
  "pll_run c phase dt = (\<lambda>(phase_var, speed_var).
     do { delta_theta \<leftarrow> utils_norm_angle_rad (fl (phase - phase_var));
          p \<leftarrow> utils_norm_angle_rad (fl (phase_var + fl (fl (speed_var + fl (foc_pll_kp c * delta_theta)) * dt)));
          Some (p, fl (speed_var + fl (fl (foc_pll_ki c * delta_theta) * dt))) })"

text \<open>The hysteresis of both position sensors: leave the sensor 5 \% above the threshold, return 5 \% below.\<close>

definition sensor_hyst :: "mc_configuration \<Rightarrow> bool \<Rightarrow> real \<Rightarrow> bool" where
  "sensor_hyst c use_sensor rpm_abs =
     (let hyst = fl (foc_sl_erpm c * fl 0.05) in
      if use_sensor then \<not> rpm_abs > fl (foc_sl_erpm c + hyst) else rpm_abs < fl (foc_sl_erpm c - hyst))"

definition rpm_of :: "real \<Rightarrow> real" where "rpm_of speed = \<bar>fl (speed / RADPS_PER_RPM)\<bar>"

definition correct_encoder :: "real \<Rightarrow> real \<Rightarrow> real \<Rightarrow> foc \<Rightarrow> real \<times> foc" where
  "correct_encoder obs_angle enc_angle speed m =
     (let u = sensor_hyst (foc_conf m) (using_encoder m) (rpm_of speed) in
      (if u then enc_angle else obs_angle, m\<lparr>using_encoder := u\<rparr>))"

definition read_hall :: "bool \<times> bool \<times> bool \<Rightarrow> nat" where
  "read_hall = (\<lambda>(h1, h2, h3). (of_bool h1 OR push_bit 1 (of_bool h2)) OR push_bit 2 (of_bool h3))"

definition hall_angle :: "int \<Rightarrow> real" where
  "hall_angle k = fl (fl (fl (fl (of_int k / 200) * 360) * M_PI) / 180)"

text \<open>The angle at a transition between two hall sensor angles.\<close>

definition ang_avg :: "int \<Rightarrow> int \<Rightarrow> int" where
  "ang_avg now prev =
     (let d = \<bar>now - prev\<bar>;
          a = (if d < 100 then (now + prev) div 2 else if d \<noteq> 100 then (now + prev) div 2 + 100 else d) in
      a mod 200)"

text \<open>The interpolated angle for a valid sensor value: \<open>prev\<close> and \<open>ah0\<close> are the sensor value and the angle of the last time.\<close>

definition hall_interpolate :: "int \<Rightarrow> int \<Rightarrow> real \<Rightarrow> real \<Rightarrow> real \<Rightarrow> real \<Rightarrow> real \<Rightarrow> real option" where
  "hall_interpolate ang_hall_int prev ah0 angle rpm_abs speed dt =
     (let ang_hall_now = hall_angle ang_hall_int;
          ah = (if prev < 0 then
                  (let prev' = ang_hall_int in if prev' = -2 then angle else hall_angle ang_hall_int)
                else if ang_hall_int \<noteq> prev then hall_angle (ang_avg ang_hall_int prev)
                else ah0) in
      do { ah' \<leftarrow> (if rpm_abs < 100 then Some ang_hall_now
                  else do { d \<leftarrow> utils_angle_difference_rad ah ang_hall_now;
                            Some (if \<bar>d\<bar> < fl (fl (2 * M_PI) / 12) then fl (ah + fl (speed * dt))
                                  else fl (ah - fl (d / 100))) });
           utils_norm_angle_rad ah' })"

definition correct_hall :: "bool \<times> bool \<times> bool \<Rightarrow> real \<Rightarrow> real \<Rightarrow> real \<Rightarrow> foc \<Rightarrow> (real \<times> foc) option" where
  "correct_hall halls angle speed dt m =
     (let rpm_abs = rpm_of speed; u = sensor_hyst (foc_conf m) (using_hall m) rpm_abs; m1 = m\<lparr>using_hall := u\<rparr> in
      if u then
        do { entry \<leftarrow> arr_get (foc_hall_table (foc_conf m)) (read_hall halls);
             let ang_hall_int = uint entry;
             if ang_hall_int < 201 then
               do { ah \<leftarrow> hall_interpolate ang_hall_int (ang_hall_int_prev m1) (ang_hall m1) angle rpm_abs speed dt;
                    Some (ah, m1\<lparr>ang_hall_int_prev := ang_hall_int, ang_hall := ah\<rparr>) }
             else
               Some (if foc_phase_observer_override m1 \<and> foc_state m1 = MC_STATE_RUNNING
                     then foc_phase_now_observer_override m1 else angle,
                     m1\<lparr>ang_hall_int_prev := -1\<rparr>) }
      else Some (angle, m1\<lparr>ang_hall_int_prev := -2\<rparr>))"

section \<open>The current controller\<close>

definition saturated :: "real \<Rightarrow> real \<Rightarrow> real \<Rightarrow> real \<times> real" where
  "saturated x y mx = snd (utils_saturate_vector_2d x y mx)"

text \<open>The compensation of the dead time: the signs of the three phase currents that are set.\<close>

definition deadtime_comp :: "mc_configuration \<Rightarrow> real \<Rightarrow> real \<Rightarrow> real \<Rightarrow> real \<Rightarrow> real \<times> real" where
  "deadtime_comp cf c s id_target iq_target =
     (let i_alpha_set = fl (fl (c * id_target) - fl (s * iq_target));
          i_beta_set = fl (fl (c * iq_target) + fl (s * id_target));
          ia_set = i_alpha_set;
          ib_set = fl (fl (- 0.5 * i_alpha_set) + fl (SQRT3_BY_2 * i_beta_set));
          ic_set = fl (fl (- 0.5 * i_alpha_set) - fl (SQRT3_BY_2 * i_beta_set));
          sg = (\<lambda>x. of_int (SIGN x) :: real);
          mod_alpha_set_sgn = fl (fl (fl (fl (2 / 3) * sg ia_set) - fl (fl (1 / 3) * sg ib_set)) - fl (fl (1 / 3) * sg ic_set));
          mod_beta_set_sgn = fl (fl (ONE_BY_SQRT3 * sg ib_set) - fl (ONE_BY_SQRT3 * sg ic_set));
          mod_comp_fact = fl (fl (foc_dt_us cf * fl (1 / 10 ^ 6)) * foc_f_sw cf) in
      (fl (mod_alpha_set_sgn * mod_comp_fact), fl (mod_beta_set_sgn * mod_comp_fact)))"

text \<open>The computation: the motor state and the compare values.\<close>

definition current_loop :: "u32 \<Rightarrow> real \<Rightarrow> mc_configuration \<Rightarrow> motor_state_t \<Rightarrow> (motor_state_t \<times> u32 \<times> u32 \<times> u32) option" where
  "current_loop arr dt cf st =
      do { (s, c) \<leftarrow> utils_fast_sincos_better (ms_phase st);
           let i_d = fl (fl (c * ms_i_alpha st) + fl (s * ms_i_beta st));
           let i_q = fl (fl (c * ms_i_beta st) - fl (s * ms_i_alpha st));
           let id_filter = UTILS_LP_FAST (ms_id_filter st) i_d MCPWM_FOC_I_FILTER_CONST;
           let iq_filter = UTILS_LP_FAST (ms_iq_filter st) i_q MCPWM_FOC_I_FILTER_CONST;
           let Ierr_d = fl (ms_id_target st - i_d);
           let Ierr_q = fl (ms_iq_target st - i_q);
           let Vd = fl (ms_vd st + fl (Ierr_d * foc_current_kp cf));
           let Vq = fl (ms_vq st + fl (Ierr_q * foc_current_kp cf));
           let vd = fl (ms_vd st + fl (Ierr_d * fl (foc_current_ki cf * dt)));
           let vq = fl (ms_vq st + fl (Ierr_q * fl (foc_current_ki cf * dt)));
           let max_duty = truncated \<bar>ms_max_duty st\<bar> 0 (l_max_duty cf);
           mod_d \<leftarrow> fdiv Vd (fl (fl (2 / 3) * ms_v_bus st));
           mod_q \<leftarrow> fdiv Vq (fl (fl (2 / 3) * ms_v_bus st));
           let (mod_d, mod_q) = saturated mod_d mod_q (fl (SQRT3_BY_2 * max_duty));
           let (vd, vq) = saturated vd vq (fl (fl (fl (fl (2 / 3) * max_duty) * SQRT3_BY_2) * ms_v_bus st));
           let i_bus = fl (fl (mod_d * i_d) + fl (mod_q * i_q));
           let i_abs = fl (sqrt (fl (fl (i_d * i_d) + fl (i_q * i_q))));
           let i_abs_filter = fl (sqrt (fl (fl (id_filter * id_filter) + fl (iq_filter * iq_filter))));
           let mod_alpha = fl (fl (c * mod_d) - fl (s * mod_q));
           let mod_beta = fl (fl (c * mod_q) + fl (s * mod_d));
           let (mod_alpha_comp, mod_beta_comp) = deadtime_comp cf c s (ms_id_target st) (ms_iq_target st);
           let v_alpha = fl (fl (fl (mod_alpha - mod_alpha_comp) * fl (2 / 3)) * ms_v_bus st);
           let v_beta = fl (fl (fl (mod_beta - mod_beta_comp) * fl (2 / 3)) * ms_v_bus st);
           (duty1, duty2, duty3) \<leftarrow> svm (- mod_alpha) (- mod_beta) arr;
           Some (st\<lparr>
               ms_id := i_d, ms_iq := i_q, ms_id_filter := id_filter, ms_iq_filter := iq_filter, ms_vd := vd, ms_vq := vq,
               ms_mod_d := mod_d, ms_mod_q := mod_q, ms_i_bus := i_bus, ms_i_abs := i_abs, ms_i_abs_filter := i_abs_filter,
               ms_v_alpha := v_alpha, ms_v_beta := v_beta\<rparr>, duty1, duty2, duty3) }"

definition control_current :: "u32 \<Rightarrow> real \<Rightarrow> foc \<Rightarrow> foc option" where
  "control_current arr dt m =
     do { (st, duty1, duty2, duty3) \<leftarrow> current_loop arr dt (foc_conf m) (foc_motor_state m);
          let m1 = TIMER_UPDATE_DUTY duty1 duty2 duty3 (m\<lparr>foc_motor_state := st\<rparr>);
          Some (if \<not> foc_output_on m1 then start_pwm_hw m1 else m1) }"

section \<open>Position and speed control\<close>

definition run_pid_control_pos :: "foc_in \<Rightarrow> real \<Rightarrow> real \<Rightarrow> real \<Rightarrow> foc \<Rightarrow> foc option" where
  "run_pid_control_pos i angle_now angle_set dt m =
     (let cf = foc_conf m in
      if foc_control_mode m \<noteq> CONTROL_MODE_POS then Some (m\<lparr>pos_i_term := 0, pos_prev_error := 0\<rparr>)
      else
        do { e \<leftarrow> utils_angle_difference angle_set angle_now;
             let error = (if in_encoder i \<noteq> None \<and> foc_encoder_inverted cf then - e else e);
             let p_term = fl (error * p_pid_kp cf);
             let i_term = fl (pos_i_term m + fl (error * fl (p_pid_ki cf * dt)));
             let dt_int = fl (pos_dt_int m + dt);
             (d_term, dt_int') \<leftarrow>
               (if error = pos_prev_error m then Some (0, dt_int)
                else do { k \<leftarrow> fdiv (p_pid_kd cf) dt_int; Some (fl (fl (error - pos_prev_error m) * k), 0) });
             let i_term' = truncated i_term (-1) 1;
             let out = truncated (fl (fl (p_term + i_term') + d_term)) (-1) 1;
             let iq = (if in_encoder i \<noteq> None \<and> \<not> in_index_found i then fl (fl 0.4 * lo_current_max cf)
                       else fl (out * lo_current_max cf));
             Some (m\<lparr>pos_i_term := i_term', pos_prev_error := error, pos_dt_int := dt_int', foc_iq_set := iq\<rparr>) })"

definition run_pid_control_speed :: "board \<Rightarrow> u16 \<Rightarrow> real \<Rightarrow> foc \<Rightarrow> foc option" where
  "run_pid_control_speed b vin dt m =
     (let cf = foc_conf m in
      if foc_control_mode m \<noteq> CONTROL_MODE_SPEED then Some (m\<lparr>speed_i_term := 0, speed_prev_error := 0\<rparr>)
      else if \<bar>foc_speed_pid_set_rpm m\<bar> < s_pid_min_erpm cf then Some (m\<lparr>speed_i_term := 0, speed_prev_error := 0\<rparr>)
      else
        do { scale \<leftarrow> fdiv 1 (GET_INPUT_VOLTAGE b vin);
             let error = fl (foc_speed_pid_set_rpm m - mcpwm_foc_get_rpm m);
             let p_term = fl (fl (error * s_pid_kp cf) * scale);
             let i_term = fl (speed_i_term m + fl (fl (error * fl (s_pid_ki cf * dt)) * scale));
             kd \<leftarrow> fdiv (s_pid_kd cf) dt;
             let d_term = fl (fl (fl (error - speed_prev_error m) * kd) * scale);
             let i_term' = truncated i_term (-1) 1;
             let out = truncated (fl (fl (p_term + i_term') + d_term)) (-1) 1;
             Some (m\<lparr>speed_i_term := i_term', speed_prev_error := error, foc_iq_set := fl (out * lo_current_max cf)\<rparr>) })"

section \<open>The injected-conversion interrupt\<close>

definition phase_current :: "board \<Rightarrow> i32 \<Rightarrow> real" where
  "phase_current b cnt =
     fl (fl (fl (of_int (sint cnt)) * fl (V_REG b / 4095)) / fl (CURRENT_SHUNT_RES b * CURRENT_AMP_GAIN b))"

text \<open>One step of the inductance measurement: pulses on pairs of phases, each followed by a sample.\<close>

definition add_sample :: "real \<Rightarrow> real \<Rightarrow> foc \<Rightarrow> foc" where
  "add_sample i v m = (let sm = foc_samples m in m\<lparr>foc_samples := sm\<lparr>avg_current_tot := fl (avg_current_tot sm + i),
     avg_voltage_tot := fl (avg_voltage_tot sm + v), sample_num := sample_num sm + 1\<rparr>\<rparr>)"

definition inductance_step :: "board \<Rightarrow> foc_in \<Rightarrow> real \<Rightarrow> real \<Rightarrow> foc \<Rightarrow> foc option" where
  "inductance_step b i ia ib m =
     do { duty_cnt \<leftarrow> f2u32 (fl (fl (of_nat (unat (in_arr i))) * measure_inductance_duty (foc_samples m)));
          let samp_time = duty_cnt - MCPWM_FOC_INDUCTANCE_SAMPLE_CNT_OFFSET;
          let v = GET_INPUT_VOLTAGE b (in_vin i);
          let k = inductance_state m;
          if k = 9 then
            Some (let m1 = TIMER_UPDATE_SAMP (in_arr i - 2) 5 (stop_pwm_hw (add_sample (- fl (ia + ib)) v m)) in
                  m1\<lparr>inductance_state := 0, foc_samples := (foc_samples m1)\<lparr>measure_inductance_now := False\<rparr>\<rparr>)
          else
            Some (let m1 =
              (if k = 0 then start_pwm_hw (TIMER_UPDATE_DUTY_CURRENTSAMP 0 0 0 samp_time m)
               else if k = 2 then TIMER_UPDATE_DUTY duty_cnt 0 duty_cnt m
               else if k = 3 then
                 foc_emit (preload_duty1 True) (TIMER_UPDATE_DUTY 0 0 0 (foc_emit (preload_duty1 False) (add_sample (- ib) v m)))
               else if k = 5 then TIMER_UPDATE_DUTY 0 duty_cnt duty_cnt m
               else if k = 6 then
                 foc_emit (preload_duty2 True) (TIMER_UPDATE_DUTY 0 0 0 (foc_emit (preload_duty2 False) (add_sample (- ia) v m)))
               else if k = 8 then TIMER_UPDATE_DUTY 0 0 duty_cnt m
               else m) in m1\<lparr>inductance_state := inductance_state m1 + 1\<rparr>) }"

definition encoder_phase :: "mc_configuration \<Rightarrow> real \<Rightarrow> real" where
  "encoder_phase cf enc_ang =
     (let p = (if foc_encoder_inverted cf then fl (360 - enc_ang) else enc_ang);
          p' = fl (fl (p * foc_encoder_ratio cf) - foc_encoder_offset cf) in
      fl (utils_norm_angle p' * fl (M_PI / 180)))"

text \<open>What the running motor is asked for: whether the duty cycle is controlled, and which one.\<close>

definition duty_request :: "foc \<Rightarrow> bool \<times> real" where
  "duty_request m =
     (if foc_control_mode m = CONTROL_MODE_CURRENT_BRAKE \<and> \<bar>duty_filtered m\<bar> < fl 0.03 then (True, 0)
      else if foc_control_mode m = CONTROL_MODE_SPEED \<and> \<bar>foc_speed_pid_set_rpm m\<bar> < s_pid_min_erpm (foc_conf m) then (True, 0)
      else (foc_control_mode m = CONTROL_MODE_DUTY, foc_duty_cycle_set m))"

text \<open>Duty cycle control: the q-axis current to set, with the limit of the modulation and the integrator in the state.\<close>

definition duty_control :: "board \<Rightarrow> u16 \<Rightarrow> real \<Rightarrow> real \<Rightarrow> foc \<Rightarrow> (real \<times> foc) option" where
  "duty_control b vin dt duty_set m =
     (let st = foc_motor_state m; cf = foc_conf m in
      if \<bar>duty_set\<bar> < fl (\<bar>ms_duty_now st\<bar> - fl 0.05) \<or> of_int (SIGN (ms_vq st)) * ms_iq st < lo_current_min cf then
        do { scale \<leftarrow> fdiv 1 (GET_INPUT_VOLTAGE b vin);
             let error = fl (duty_set - ms_duty_now st);
             let p_term = fl (fl (error * foc_duty_dowmramp_kp cf) * scale);
             let i_term = truncated (fl (duty_i_term m + fl (fl (error * fl (foc_duty_dowmramp_ki cf * dt)) * scale))) (-1) 1;
             let out = truncated (fl (p_term + i_term)) (-1) 1;
             Some (fl (out * lo_current_max cf), m\<lparr>duty_i_term := i_term\<rparr>) }
      else
        Some (if duty_set > 0 then lo_current_max cf else - lo_current_max cf,
              m\<lparr>duty_i_term := 0, foc_motor_state := st\<lparr>ms_max_duty := duty_set\<rparr>\<rparr>))"

definition braking_current :: "real \<Rightarrow> real \<Rightarrow> real" where
  "braking_current phase_diff iq = (if phase_diff > 0 then - \<bar>iq\<bar> else if phase_diff = 0 then 0 else \<bar>iq\<bar>)"

text \<open>The position sensor gives the phase; the d-axis current is chosen with it.\<close>

definition set_phase :: "real \<Rightarrow> foc \<Rightarrow> foc" where
  "set_phase p m = m\<lparr>foc_motor_state := (foc_motor_state m)\<lparr>ms_phase := p\<rparr>\<rparr>"

definition sensor_phase_running :: "foc_in \<Rightarrow> real \<Rightarrow> real \<Rightarrow> foc \<Rightarrow> (real \<times> foc) option" where
  "sensor_phase_running i dt id_set m =
     (let cf = foc_conf m; st = foc_motor_state m; id0 = (if \<not> foc_phase_override m then 0 else id_set) in
      case foc_sensor_mode cf of
        FOC_SENSOR_MODE_ENCODER \<Rightarrow>
          Some (if in_index_found i
                then (let (p, m1) = correct_encoder (foc_phase_now_observer m) (foc_phase_now_encoder m) (foc_pll_speed m) m in
                      (id0, set_phase p m1))
                else (id0, set_phase (foc_phase_now_encoder_no_index m) m))
      | FOC_SENSOR_MODE_HALL \<Rightarrow>
          do { (p, m1) \<leftarrow> correct_hall (in_hall i) (foc_phase_now_observer m) (foc_pll_speed m) dt m;
               Some (id0, set_phase p (m1\<lparr>foc_phase_now_observer := p\<rparr>)) }
      | FOC_SENSOR_MODE_SENSORLESS \<Rightarrow>
          Some (if \<not> foc_phase_override m then
                  (if \<bar>ms_duty_now st\<bar> < foc_sl_d_current_duty cf
                   then utils_map \<bar>ms_duty_now st\<bar> 0 (foc_sl_d_current_duty cf)
                          (fl (\<bar>ms_iq_target st\<bar> * foc_sl_d_current_factor cf)) 0
                   else 0)
                else id_set,
                set_phase (if foc_phase_observer_override m then foc_phase_now_observer_override m
                           else foc_phase_now_observer m) m)
      | mc_foc_sensor_mode_other _ \<Rightarrow> Some (id_set, m))"

definition sensor_phase_undriven :: "foc_in \<Rightarrow> real \<Rightarrow> foc \<Rightarrow> foc option" where
  "sensor_phase_undriven i dt m =
     (case foc_sensor_mode (foc_conf m) of
        FOC_SENSOR_MODE_ENCODER \<Rightarrow>
          Some (let (p, m1) = correct_encoder (foc_phase_now_observer m) (foc_phase_now_encoder m) (foc_pll_speed m) m in
                set_phase p m1)
      | FOC_SENSOR_MODE_HALL \<Rightarrow>
          do { (p, m1) \<leftarrow> correct_hall (in_hall i) (foc_phase_now_observer m) (foc_pll_speed m) dt m;
               Some (set_phase p (m1\<lparr>foc_phase_now_observer := p\<rparr>)) }
      | FOC_SENSOR_MODE_SENSORLESS \<Rightarrow> Some (set_phase (foc_phase_now_observer m) m)
      | mc_foc_sensor_mode_other _ \<Rightarrow> Some m)"

definition limit_currents :: "mc_configuration \<Rightarrow> real \<Rightarrow> real \<Rightarrow> real \<Rightarrow> real \<times> real" where
  "limit_currents cf mod_q id_set iq_set =
     (let iq1 = truncated iq_set (lo_current_min cf) (lo_current_max cf);
          (id2, iq2) = saturated id_set iq1 (lo_current_max cf);
          iq3 = (if mod_q > fl 0.001 then
                   truncated iq2 (fl (lo_in_current_min cf / mod_q)) (fl (lo_in_current_max cf / mod_q))
                 else if mod_q < - fl 0.001 then
                   truncated iq2 (fl (lo_in_current_max cf / mod_q)) (fl (lo_in_current_min cf / mod_q))
                 else iq2) in
      (id2, iq3))"

definition observe :: "real \<Rightarrow> foc \<Rightarrow> foc" where
  "observe dt m =
     (let st = foc_motor_state m;
          ((x1, x2), p) = observer_update (foc_conf m) (ms_v_alpha st) (ms_v_beta st) (ms_i_alpha st) (ms_i_beta st) dt
            (foc_observer_x1 m, foc_observer_x2 m) in
      m\<lparr>foc_observer_x1 := x1, foc_observer_x2 := x2, foc_phase_now_observer := p\<rparr>)"

text \<open>The branch of the running motor: the measured currents, the requested current, the phase, the limits, the controller.\<close>

definition clarke_input :: "real \<Rightarrow> real \<Rightarrow> foc \<Rightarrow> foc" where
  "clarke_input ia ib m =
     (let cf = foc_conf m; st = foc_motor_state m in
      m\<lparr>foc_motor_state := st\<lparr>ms_i_alpha := ia, ms_i_beta := fl (fl (ONE_BY_SQRT3 * ia) + fl (TWO_BY_SQRT3 * ib)),
          ms_max_duty := l_max_duty cf\<rparr>,
        duty_filtered := truncated (UTILS_LP_FAST (duty_filtered m) (ms_duty_now st) (fl 0.1)) (-1) 1\<rparr>)"

definition requested_current :: "board \<Rightarrow> u16 \<Rightarrow> real \<Rightarrow> real \<Rightarrow> foc \<Rightarrow> (real \<times> foc) option" where
  "requested_current b vin dt phase_diff m =
     (let (control_duty, duty_set) = duty_request m in
      if control_duty then duty_control b vin dt duty_set m
      else Some (if foc_control_mode m = CONTROL_MODE_CURRENT_BRAKE then braking_current phase_diff (foc_iq_set m)
                 else foc_iq_set m, m))"

definition set_targets :: "real \<times> real \<Rightarrow> foc \<Rightarrow> foc" where
  "set_targets t m = m\<lparr>foc_motor_state := (foc_motor_state m)\<lparr>ms_id_target := fst t, ms_iq_target := snd t\<rparr>\<rparr>"

definition running_step :: "board \<Rightarrow> foc_in \<Rightarrow> real \<Rightarrow> real \<Rightarrow> real \<Rightarrow> real \<Rightarrow> foc \<Rightarrow> foc option" where
  "running_step b i dt ia ib phase_diff m =
     do { (iq, m2) \<leftarrow> requested_current b (in_vin_again i) dt phase_diff (clarke_input ia ib m);
          (id', m4) \<leftarrow> sensor_phase_running i dt (foc_id_set m) (if \<not> foc_phase_override m2 then observe dt m2 else m2);
          let m5 = (if foc_phase_override m4 then set_phase (foc_phase_now_override m4) m4 else m4);
          control_current (in_arr i) dt (set_targets (limit_currents (foc_conf m) (ms_mod_q (foc_motor_state m5)) id' iq) m5) }"

text \<open>The branch of the undriven motor, which tracks the back EMF.\<close>

definition undriven_step :: "board \<Rightarrow> foc_in \<Rightarrow> real \<Rightarrow> foc \<Rightarrow> foc option" where
  "undriven_step b i dt m =
     (let st = foc_motor_state m; k = fl (fl (VIN_R1 b + VIN_R2 b) / VIN_R2 b);
          Va = fl (ADC_VOLTS b (in_sens1 i) * k); Vb = fl (ADC_VOLTS b (in_sens3 i) * k); Vc = fl (ADC_VOLTS b (in_sens2 i) * k);
          v_alpha = fl (fl (fl (fl (2 / 3) * Va) - fl (fl (1 / 3) * Vb)) - fl (fl (1 / 3) * Vc));
          v_beta = fl (fl (ONE_BY_SQRT3 * Vb) - fl (ONE_BY_SQRT3 * Vc)) in
      do { (s, c) \<leftarrow> utils_fast_sincos_better (ms_phase st);
           let vd = fl (fl (c * v_alpha) + fl (s * v_beta));
           let vq = fl (fl (c * v_beta) - fl (s * v_alpha));
           mod_d \<leftarrow> fdiv vd (fl (fl (2 / 3) * ms_v_bus st));
           mod_q \<leftarrow> fdiv vq (fl (fl (2 / 3) * ms_v_bus st));
           sensor_phase_undriven i dt (observe dt (m\<lparr>foc_motor_state := st\<lparr>
             ms_v_alpha := v_alpha, ms_v_beta := v_beta, ms_vd := vd, ms_vq := vq, ms_mod_d := mod_d, ms_mod_q := mod_q,
             ms_i_alpha := 0, ms_i_beta := 0, ms_id := 0, ms_iq := 0, ms_id_filter := 0, ms_iq_filter := 0,
             ms_i_bus := 0, ms_i_abs := 0, ms_i_abs_filter := 0\<rparr>\<rparr>)) })"

text \<open>What follows both branches: the duty cycle, the speed, the tachometer and the position.\<close>

definition update_duty_now :: "foc \<Rightarrow> foc" where
  "update_duty_now m =
     (let st = foc_motor_state m in
      m\<lparr>foc_motor_state := st\<lparr>ms_duty_now :=
        fl (of_int (SIGN (ms_vq st)) * fl (sqrt (fl (fl (ms_mod_d st * ms_mod_d st) + fl (ms_mod_q st * ms_mod_q st)))) / SQRT3_BY_2)\<rparr>\<rparr>)"

definition update_tachometer :: "foc \<Rightarrow> foc option" where
  "update_tachometer m =
     (let phase = ms_phase (foc_motor_state m) in
      do { d \<leftarrow> utils_angle_difference_rad phase (phase_last m);
           k \<leftarrow> f2i32 (fl (fl (d * DEG_PER_RAD) / 60));
           Some (if k \<noteq> 0 then m\<lparr>foc_tachometer := foc_tachometer m + k,
                   foc_tachometer_abs := foc_tachometer_abs m + (if 0 \<le> sint k then k else - k), phase_last := phase\<rparr> else m) })"

definition track_position :: "foc_in \<Rightarrow> foc \<Rightarrow> foc option" where
  "track_position i m =
     (let cf = foc_conf m;
          angle_now = (case in_encoder i of Some enc_ang \<Rightarrow> enc_ang | None \<Rightarrow> fl (ms_phase (foc_motor_state m) * DEG_PER_RAD)) in
      if p_pid_ang_div cf > fl 0.98 \<and> p_pid_ang_div cf < fl 1.02 then Some (m\<lparr>foc_pos_pid_now := angle_now\<rparr>)
      else do { d \<leftarrow> utils_angle_difference angle_now (angle_last m);
                q \<leftarrow> fdiv d (p_pid_ang_div cf);
                Some (m\<lparr>angle_last := angle_now, foc_pos_pid_now := utils_norm_angle (fl (foc_pos_pid_now m + q))\<rparr>) })"

definition finish_isr :: "foc_in \<Rightarrow> real \<Rightarrow> foc \<Rightarrow> foc option" where
  "finish_isr i dt m =
     (let m1 = update_duty_now m in
      do { (p, v) \<leftarrow> pll_run (foc_conf m1) (ms_phase (foc_motor_state m1)) dt (foc_pll_phase m1, foc_pll_speed m1);
           m2 \<leftarrow> update_tachometer (m1\<lparr>foc_pll_phase := p, foc_pll_speed := v\<rparr>);
           m3 \<leftarrow> track_position i m2;
           m4 \<leftarrow> (if foc_state m3 = MC_STATE_RUNNING then run_pid_control_pos i (foc_pos_pid_now m3) (foc_pos_pid_set m3) dt m3 else Some m3);
           Some ((foc_emit mcif_timer_isr m4)\<lparr>foc_last_inj_adc_isr_duration := fl (fl (of_nat (unat (in_tim12_cnt i))) / 10000000)\<rparr>) })"

text \<open>The sums of the samples grow until the next calibration clears them. They are words here and wrap where the signed sums of C overflow.\<close>

definition read_currents :: "board \<Rightarrow> foc_in \<Rightarrow> foc \<Rightarrow> (real \<times> real) \<times> foc" where
  "read_currents b i m =
     (let curr0 = ucast (in_curr0 i) :: i32; curr1 = ucast (in_curr1 i) :: i32;
          n0 = curr0 - foc_curr0_offset m; n1 = curr1 - foc_curr1_offset m in
      ((phase_current b n0, phase_current b n1),
       m\<lparr>foc_curr0_sum := foc_curr0_sum m + curr0, foc_curr1_sum := foc_curr1_sum m + curr1,
         foc_curr_samples := foc_curr_samples m + 1, ADC_curr_norm_value := [n0, n1, - (n0 + n1)]\<rparr>))"

text \<open>The bus voltage and the angle of the encoder.\<close>

definition read_sensors :: "board \<Rightarrow> foc_in \<Rightarrow> foc \<Rightarrow> foc" where
  "read_sensors b i m =
     (let m1 = m\<lparr>foc_motor_state := (foc_motor_state m)\<lparr>ms_v_bus := GET_INPUT_VOLTAGE b (in_vin i)\<rparr>\<rparr> in
      case in_encoder i of None \<Rightarrow> m1
      | Some enc_ang \<Rightarrow> m1\<lparr>foc_phase_now_encoder := encoder_phase (foc_conf m1) enc_ang\<rparr>)"

definition mcpwm_foc_adc_inj_int_handler :: "board \<Rightarrow> foc_in \<Rightarrow> foc \<Rightarrow> foc option" where
  "mcpwm_foc_adc_inj_int_handler b i m =
     do { let m0 = foc_emit watchdog_reset m;
          dt \<leftarrow> fdiv 1 (fl (foc_f_sw (foc_conf m) / 2));
          let ((ia, ib), m1) = read_currents b i m0;
          if measure_inductance_now (foc_samples m1) then inductance_step b i ia ib m1
          else
            do { let m3 = read_sensors b i m1;
                 phase_diff \<leftarrow> utils_angle_difference_rad (ms_phase (foc_motor_state m3)) (phase_before m3);
                 let m4 = m3\<lparr>phase_before := ms_phase (foc_motor_state m3)\<rparr>;
                 m5 \<leftarrow> (if foc_state m4 = MC_STATE_RUNNING then running_step b i dt ia ib phase_diff m4 else undriven_step b i dt m4);
                 finish_isr i dt m5 } }"

section \<open>The timer thread\<close>

text \<open>The minimum speed of the observer at low speed: the open-loop angle, its hysteresis and its timer.\<close>

definition open_loop :: "real \<Rightarrow> real \<Rightarrow> foc \<Rightarrow> foc option" where
  "open_loop dt min_rads m =
     (let cf = foc_conf m; duty = ms_duty_now (foc_motor_state m);
          add_min_speed = (if duty > 0 then fl (min_rads * dt) else fl (- min_rads * dt)) in
      do { no_index \<leftarrow> utils_norm_angle_rad (fl (foc_phase_now_encoder_no_index m + add_min_speed));
           let hyst1 = (if \<bar>foc_pll_speed m\<bar> < min_rads then fl (min_rpm_hyst_timer m + dt)
                        else if min_rpm_hyst_timer m > 0 then fl (min_rpm_hyst_timer m - dt) else min_rpm_hyst_timer m);
           let brake = (foc_control_mode m = CONTROL_MODE_CURRENT_BRAKE \<or> \<bar>duty\<bar> < fl 0.001);
           let hyst2 = (if brake then 0 else hyst1);
           let timer1 = (if hyst2 > foc_sl_openloop_hyst cf \<and> min_rpm_timer m \<le> fl 0.0001 then foc_sl_openloop_time cf else min_rpm_timer m);
           let m1 = m\<lparr>foc_phase_now_encoder_no_index := no_index\<rparr>;
           if timer1 > 0 then
             do { p \<leftarrow> utils_norm_angle_rad (fl (foc_phase_now_observer_override m + add_min_speed));
                  Some (m1\<lparr>foc_phase_now_observer_override := p, foc_phase_observer_override := True,
                           min_rpm_timer := fl (timer1 - dt), min_rpm_hyst_timer := 0\<rparr>) }
           else Some (m1\<lparr>foc_phase_now_observer_override := foc_phase_now_observer m, foc_phase_observer_override := False,
                         min_rpm_timer := timer1, min_rpm_hyst_timer := hyst2\<rparr>) })"

definition take_samples :: "foc \<Rightarrow> foc" where
  "take_samples m =
     (let st = foc_motor_state m in
      if foc_state m = MC_STATE_RUNNING
      then add_sample (fl (sqrt (fl (fl (ms_id st * ms_id st) + fl (ms_iq st * ms_iq st)))))
                      (fl (sqrt (fl (fl (ms_vd st * ms_vd st) + fl (ms_vq st * ms_vq st))))) m
      else m)"

text \<open>One iteration; \<open>utils_map\<close> divides by \<open>lo_current_max\<close>. A stopped thread returns.\<close>

definition foc_timer_thread :: "board \<Rightarrow> u16 \<Rightarrow> foc \<Rightarrow> foc option" where
  "foc_timer_thread b vin m =
     (if foc_timer_thd_stop m then Some (m\<lparr>foc_timer_thd_stop := False\<rparr>)
      else if lo_current_max (foc_conf m) = 0 then None
      else
        (let cf = foc_conf m;
             openloop_rpm = utils_map \<bar>ms_iq_target (foc_motor_state m)\<bar> 0 (lo_current_max cf) 0 (foc_openloop_rpm cf);
             dt = fl 0.001;
             min_rads = fl (fl (fl (openloop_rpm * 2) * M_PI) / 60) in
         do { m1 \<leftarrow> open_loop dt min_rads m;
              run_pid_control_speed b vin dt (take_samples m1) }))"

section \<open>Calibration, initialisation\<close>

text \<open>\<open>do_dc_cal\<close> waits for 4000 interrupts and takes the mean of the two current samples. The interrupts during the wait are
  an argument; when they end before the count the wait goes on forever.\<close>

primrec wait_samples :: "board \<Rightarrow> foc_in list \<Rightarrow> foc \<Rightarrow> foc option" where
  "wait_samples b [] m = (if foc_curr_samples m <s 4000 then None else Some m)"
| "wait_samples b (i # ins) m =
     (if foc_curr_samples m <s 4000 then do { m1 \<leftarrow> mcpwm_foc_adc_inj_int_handler b i m; wait_samples b ins m1 } else Some m)"

definition do_dc_cal :: "board \<Rightarrow> foc_in list \<Rightarrow> foc \<Rightarrow> foc option" where
  "do_dc_cal b ins m =
     do { m1 \<leftarrow> wait_samples b ins (m\<lparr>foc_curr0_sum := 0, foc_curr1_sum := 0, foc_curr_samples := 0\<rparr>);
          Some (m1\<lparr>foc_curr0_offset := word_of_int (c_div (sint (foc_curr0_sum m1)) (sint (foc_curr_samples m1))),
                   foc_curr1_offset := word_of_int (c_div (sint (foc_curr1_sum m1)) (sint (foc_curr_samples m1))),
                   foc_dccal_done := True\<rparr>) }"

definition motor_state_zero :: motor_state_t where
  "motor_state_zero = \<lparr>ms_id_target = 0, ms_iq_target = 0, ms_max_duty = 0, ms_duty_now = 0, ms_phase = 0, ms_i_alpha = 0,
     ms_i_beta = 0, ms_i_abs = 0, ms_i_abs_filter = 0, ms_i_bus = 0, ms_v_bus = 0, ms_v_alpha = 0, ms_v_beta = 0, ms_mod_d = 0,
     ms_mod_q = 0, ms_id = 0, ms_iq = 0, ms_id_filter = 0, ms_iq_filter = 0, ms_vd = 0, ms_vq = 0\<rparr>"

definition mc_sample_zero :: mc_sample_t where
  "mc_sample_zero = \<lparr>sample_num = 0, avg_current_tot = 0, avg_voltage_tot = 0, measure_inductance_now = False,
     measure_inductance_duty = 0\<rparr>"

definition foc_init_vars :: "mc_configuration \<Rightarrow> foc \<Rightarrow> foc" where
  "foc_init_vars configuration m = m\<lparr>foc_conf := configuration, foc_state := MC_STATE_OFF, foc_control_mode := CONTROL_MODE_NONE,
     foc_curr0_sum := 0, foc_curr1_sum := 0, foc_curr_samples := 0, foc_dccal_done := False, foc_phase_override := False,
     foc_phase_now_override := 0, foc_duty_cycle_set := 0, foc_id_set := 0, foc_iq_set := 0, foc_output_on := False,
     foc_pos_pid_set := 0, foc_speed_pid_set_rpm := 0, foc_phase_now_observer := 0, foc_phase_now_observer_override := 0,
     foc_phase_observer_override := False, foc_phase_now_encoder := 0, foc_phase_now_encoder_no_index := 0,
     foc_observer_x1 := 0, foc_observer_x2 := 0, foc_pll_phase := 0, foc_pll_speed := 0, foc_tachometer := 0,
     foc_tachometer_abs := 0, foc_last_inj_adc_isr_duration := 0, foc_pos_pid_now := 0, foc_motor_state := motor_state_zero,
     foc_samples := mc_sample_zero\<rparr>"

text \<open>\<open>mcpwm_foc_init\<close>: the period of the timer is given as an argument, since the register holds 16 bits of it.\<close>

definition mcpwm_foc_init :: "board \<Rightarrow> u32 \<Rightarrow> foc_in list \<Rightarrow> mc_configuration \<Rightarrow> foc \<Rightarrow> foc option" where
  "mcpwm_foc_init b arr ins configuration m =
     do { _ \<leftarrow> pwm_top configuration;
          m1 \<leftarrow> do_dc_cal b ins (TIMER_UPDATE_SAMP (arr - 2) 5 (stop_pwm_hw (foc_init_vars configuration m)));
          Some (m1\<lparr>foc_timer_thd_stop := False\<rparr>) }"

end
