(* ===== verification/FocControl.thy ===== *)
theory FocControl
  imports Foc
begin

text \<open>
  The current controller of \<open>mcpwm_foc.c\<close>: the angle loops of \<open>utils.c\<close> end for every angle below a million radians, and within the ratings the
  controller gives \<open>svm\<close> a vector within its circle, so that it always has compare values within the period of the timer.
\<close>

section \<open>The angle loops end\<close>

lemma turn_bounds: "6 \<le> 2 * M_PI" "2 * M_PI \<le> 7" "3 \<le> M_PI" "M_PI \<le> 22 / 7"
  using M_PI_bounds by simp_all

lemma fl_close: "\<bar>x\<bar> \<le> 2000000 \<Longrightarrow> \<bar>fl x - x\<bar> \<le> 1 / 8"
  using fl_abs_error [of x "2000000"] by simp

lemma add_until_total:
  assumes "\<bar>x\<bar> \<le> 1000000" "1 \<le> h" "2 \<le> p" "p \<le> 1000"
  shows "\<exists>y. add_until (- h) p x = Some y \<and> \<bar>y\<bar> \<le> 1000000"
proof -
  let ?f = "\<lambda>x. nat \<lfloor>- x\<rfloor>" and ?P = "\<lambda>x :: real. \<bar>x\<bar> \<le> 1000000"
  have step: "?P (fl (x + p)) \<and> ?f (fl (x + p)) < ?f x" if "?P x" "x < - h" for x
  proof -
    have "\<bar>x + p\<bar> \<le> 2000000" using that assms by linarith
    then have "x + 1 \<le> fl (x + p)" "fl (x + p) \<le> x + p + 1" using fl_close [of "x + p"] assms unfolding abs_le_iff by linarith+
    then show ?thesis using that assms by (auto simp: abs_le_iff) linarith+
  qed
  obtain y where y: "add_until (- h) p x = Some y"
    using measure_while_option_Some [where P = ?P and f = ?f and b = "\<lambda>x. x < - h" and c = "\<lambda>x. fl (x + p)"] step assms(1)
    unfolding add_until_def by blast
  moreover have "?P y"
    by (rule while_option_rule [where P = ?P, OF _ y [unfolded add_until_def] assms(1)]) (use step in blast)
  ultimately show ?thesis by blast
qed

lemma sub_until_total:
  assumes "\<bar>x\<bar> \<le> 1000000" "1 \<le> h" "2 \<le> p" "p \<le> 1000"
  shows "\<exists>y. sub_until h p x = Some y"
proof -
  let ?f = "\<lambda>x. nat \<lfloor>x\<rfloor>" and ?P = "\<lambda>x :: real. \<bar>x\<bar> \<le> 1000000"
  have step: "?P (fl (x - p)) \<and> ?f (fl (x - p)) < ?f x" if "?P x" "x > h" for x
  proof -
    have "\<bar>x - p\<bar> \<le> 2000000" using that assms by linarith
    then have "fl (x - p) \<le> x - 1" "x - p - 1 \<le> fl (x - p)" using fl_close [of "x - p"] assms unfolding abs_le_iff by linarith+
    then show ?thesis using that assms by (auto simp: abs_le_iff) linarith+
  qed
  then show ?thesis
    using measure_while_option_Some [where P = ?P and f = ?f and b = "\<lambda>x. x > h" and c = "\<lambda>x. fl (x - p)"] assms(1)
    unfolding sub_until_def by blast
qed

lemma turns_total:
  assumes "\<bar>x\<bar> \<le> 1000000" "1 \<le> h" "2 \<le> p" "p \<le> 1000"
  shows "\<exists>y. add_until (- h) p x \<bind> sub_until h p = Some y"
proof -
  obtain y where y: "add_until (- h) p x = Some y" "\<bar>y\<bar> \<le> 1000000" using add_until_total [OF assms] by blast
  then show ?thesis using sub_until_total [OF y(2) assms(2-4)] by simp
qed

lemma wrap_rad_total: "\<bar>x\<bar> \<le> 1000000 \<Longrightarrow> \<exists>y. wrap_rad x = Some y \<and> \<bar>y\<bar> \<le> M_PI"
  using turns_total [of x M_PI "2 * M_PI"] turn_bounds wrap_rad_range [of x] unfolding wrap_rad_def two_pi by auto

lemma angle_difference_total: "\<bar>fl (a - b)\<bar> \<le> 1000000 \<Longrightarrow> \<exists>d. utils_angle_difference a b = Some d"
  using turns_total [of "fl (a - b)" 180 360] unfolding utils_angle_difference_def by auto

lemma norm_angle_rad_is_wrap: "utils_norm_angle_rad = wrap_rad"
  by (simp add: fun_eq_iff utils_norm_angle_rad_def wrap_rad_def)

lemma angle_difference_rad_is_wrap: "utils_angle_difference_rad a b = wrap_rad (fl (a - b))"
  by (simp add: utils_angle_difference_rad_def wrap_rad_def)

lemma sincos_total: "\<bar>x\<bar> \<le> 1000000 \<Longrightarrow> \<exists>s c. utils_fast_sincos_better x = Some (s, c)"
  using wrap_rad_total [of x] unfolding utils_fast_sincos_better_def by auto

section \<open>The current controller\<close>

lemma fl_crude: "\<bar>x\<bar> \<le> b \<Longrightarrow> 1 \<le> b \<Longrightarrow> \<bar>fl x\<bar> \<le> 2 * b"
proof -
  assume x: "\<bar>x\<bar> \<le> b" "1 \<le> b"
  then have "\<bar>fl x - x\<bar> \<le> b / 2 ^ 24" by (intro fl_abs_error) auto
  moreover have "b / 2 ^ 24 \<le> b" using x by simp
  ultimately show ?thesis using x by linarith
qed

lemma rotate_near:
  assumes "\<bar>c\<bar> \<le> 1.002" "\<bar>s\<bar> \<le> 1.002" "\<bar>d\<bar> \<le> 1" "\<bar>q\<bar> \<le> 1"
  shows "near (1 / 10 ^ 6) (fl (fl (c * d) - fl (s * q))) (c * d - s * q)"
    and "near (1 / 10 ^ 6) (fl (fl (c * q) + fl (s * d))) (c * q + s * d)"
proof -
  have p: "near (1 / 10 ^ 7) (fl (x * y)) (x * y)" "\<bar>x * y\<bar> \<le> 1.002" if "\<bar>x\<bar> \<le> 1.002" "\<bar>y\<bar> \<le> 1" for x y :: real
  proof -
    show xy: "\<bar>x * y\<bar> \<le> 1.002" using mult_mono [OF that] by (simp add: abs_mult)
    show "near (1 / 10 ^ 7) (fl (x * y)) (x * y)" using near_refl xy by (rule near_flI [where b = "1.002"]) simp_all
  qed
  have b: "\<bar>c * d - s * q\<bar> \<le> 2.1" "\<bar>c * q + s * d\<bar> \<le> 2.1"
    using p(2) [OF assms(1,3)] p(2) [OF assms(2,4)] p(2) [OF assms(1,4)] p(2) [OF assms(2,3)] unfolding abs_le_iff by simp_all
  show "near (1 / 10 ^ 6) (fl (fl (c * d) - fl (s * q))) (c * d - s * q)"
    by (rule near_flI [OF near_diff [OF p(1) p(1)] b(1), of 3]) (use assms in simp_all)
  show "near (1 / 10 ^ 6) (fl (fl (c * q) + fl (s * d))) (c * q + s * d)"
    by (rule near_flI [OF near_add [OF p(1) p(1)] b(2), of 3]) (use assms in simp_all)
qed

lemma near_square: "near e x x' \<Longrightarrow> \<bar>x'\<bar> \<le> A \<Longrightarrow> x\<^sup>2 \<le> x'\<^sup>2 + e * (2 * A + e)"
proof -
  assume x: "near e x x'" "\<bar>x'\<bar> \<le> A"
  have "\<bar>(x - x') * (x + x')\<bar> \<le> e * (2 * A + e)" unfolding abs_mult
    using x unfolding near_def by (intro mult_mono) linarith+
  moreover have "(x - x') * (x + x') = x\<^sup>2 - x'\<^sup>2" by (simp add: power2_eq_square algebra_simps)
  ultimately show ?thesis unfolding abs_le_iff by linarith
qed

text \<open>The modulation that the controller gives to \<open>svm\<close> is within its circle.\<close>

lemma modulation_in_circle:
  assumes sc: "utils_fast_sincos_better p = Some (s, c)"
    and n: "sqrt (d\<^sup>2 + q\<^sup>2) \<le> 0.858"
  shows "(fl (fl (c * d) - fl (s * q)))\<^sup>2 + (fl (fl (c * q) + fl (s * d)))\<^sup>2 \<le> 3 / 4"
proof -
  have d2: "d\<^sup>2 + q\<^sup>2 \<le> 0.858\<^sup>2" using n by (rule sqrt_le_D)
  then have "d\<^sup>2 + q\<^sup>2 \<le> 1" by (simp add: power2_eq_square)
  then have "d\<^sup>2 \<le> 1" "q\<^sup>2 \<le> 1" using zero_le_power2 [of q] zero_le_power2 [of d] by linarith+
  then have dq: "\<bar>d\<bar> \<le> 1" "\<bar>q\<bar> \<le> 1" by (simp_all add: abs_square_le_1)
  note b = sincos_norm(2,3) [OF sc]
  have e: "\<bar>c * d - s * q\<bar> \<le> 3" "\<bar>c * q + s * d\<bar> \<le> 3"
    using mult_mono [OF b(2) dq(1)] mult_mono [OF b(1) dq(2)] mult_mono [OF b(2) dq(2)] mult_mono [OF b(1) dq(1)]
    unfolding abs_mult [symmetric] abs_le_iff by simp_all
  have "(c * d - s * q)\<^sup>2 + (c * q + s * d)\<^sup>2 = (s\<^sup>2 + c\<^sup>2) * (d\<^sup>2 + q\<^sup>2)"
    by (simp add: power2_eq_square algebra_simps)
  also have "\<dots> \<le> 1.003 * 0.858\<^sup>2" using sincos_norm(1) [OF sc] d2 by (intro mult_mono) auto
  finally show ?thesis
    using near_square [OF rotate_near(1) [OF b(2,1) dq] e(1)] near_square [OF rotate_near(2) [OF b(2,1) dq] e(2)] by (simp add: power2_eq_square)
qed

text \<open>The ratings under which the controller is analysed, far beyond those of the hardware: no intermediate result overflows.\<close>

definition within_ratings :: "real \<Rightarrow> foc \<Rightarrow> bool" where
  "within_ratings dt m \<longleftrightarrow> (let st = foc_motor_state m; cf = foc_conf m in
     \<bar>ms_phase st\<bar> \<le> 1000000 \<and> 1 / 100 \<le> ms_v_bus st \<and> ms_v_bus st \<le> 1000 \<and>
     \<bar>ms_i_alpha st\<bar> \<le> 10000 \<and> \<bar>ms_i_beta st\<bar> \<le> 10000 \<and> \<bar>ms_id_target st\<bar> \<le> 10000 \<and> \<bar>ms_iq_target st\<bar> \<le> 10000 \<and>
     \<bar>ms_vd st\<bar> \<le> 10000 \<and> \<bar>ms_vq st\<bar> \<le> 10000 \<and> \<bar>foc_current_kp cf\<bar> \<le> 10000 \<and> \<bar>fl (foc_current_ki cf * dt)\<bar> \<le> 10000 \<and>
     0 \<le> l_max_duty cf \<and> l_max_duty cf \<le> 99 / 100)"

lemma current_bounded:
  assumes "\<bar>c\<bar> \<le> 1.002" "\<bar>s\<bar> \<le> 1.002" "\<bar>x\<bar> \<le> 10000" "\<bar>y\<bar> \<le> 10000"
  shows "\<bar>fl (fl (c * x) + fl (s * y))\<bar> \<le> 90000" "\<bar>fl (fl (c * x) - fl (s * y))\<bar> \<le> 90000"
proof -
  have p: "\<bar>fl (a * b)\<bar> \<le> 22000" if "\<bar>a\<bar> \<le> 1.002" "\<bar>b\<bar> \<le> 10000" for a b
    using mult_mono [OF that] fl_crude [of "a * b" 11000] by (simp add: abs_mult)
  have "\<bar>fl (c * x) + fl (s * y)\<bar> \<le> 44000" "\<bar>fl (c * x) - fl (s * y)\<bar> \<le> 44000"
    using p [OF assms(1,3)] p [OF assms(2,4)] by linarith+
  then show "\<bar>fl (fl (c * x) + fl (s * y))\<bar> \<le> 90000" "\<bar>fl (fl (c * x) - fl (s * y))\<bar> \<le> 90000"
    using fl_crude [of _ 44000] by force+
qed

lemma voltage_bounded:
  assumes "\<bar>i\<bar> \<le> 90000" "\<bar>t\<bar> \<le> 10000" "\<bar>v\<bar> \<le> 10000" "\<bar>k\<bar> \<le> 10000"
  shows "\<bar>fl (v + fl (fl (t - i) * k))\<bar> \<le> 10000000000"
proof -
  have "\<bar>fl (t - i)\<bar> \<le> 200000" using fl_crude [of "t - i" 100000] assms by force
  then have "\<bar>fl (t - i) * k\<bar> \<le> 2000000000" using mult_mono [OF _ assms(4), of "\<bar>fl (t - i)\<bar>" 200000] by (simp add: abs_mult)
  then have "\<bar>fl (fl (t - i) * k)\<bar> \<le> 4000000000" using fl_crude [of "fl (t - i) * k" 2000000000] by simp
  then show ?thesis using fl_crude [of "v + fl (fl (t - i) * k)" 5000000000] assms(3) by force
qed

lemma bus_fraction:
  assumes "1 / 100 \<le> v"
  shows "1 / 200 \<le> fl (fl (2 / 3) * v)"
proof -
  have "66 / 100 \<le> fl (2 / 3)" using fl_within [of "2/3" 1] by simp
  then have "66 / 100 * (1 / 100) \<le> fl (2 / 3) * v" using assms by (intro mult_mono) auto
  then show ?thesis using fl_shrink [of "fl (2 / 3) * v"] by simp
qed

lemma modulation_fits:
  assumes "\<bar>V\<bar> \<le> 10000000000" "1 / 200 \<le> D"
  shows "fdiv V D = Some (fl (V / D))" "fits (fl (V / D))"
proof -
  show "fdiv V D = Some (fl (V / D))" using assms by (simp add: fdiv_def)
  have "\<bar>V / D\<bar> \<le> 10000000000 / (1 / 200)" unfolding abs_divide using assms by (intro frac_le) auto
  then show "fits (fl (V / D))" using fl_crude [of "V / D" 2000000000000] by (simp add: fits_def)
qed

lemma max_duty_range:
  assumes "0 \<le> l" "l \<le> 99 / 100"
  shows "0 \<le> truncated \<bar>x\<bar> 0 l" "truncated \<bar>x\<bar> 0 l \<le> 99 / 100"
  using assms by (auto simp: truncated_def utils_truncate_number_def)

lemma saturated_length:
  "saturated x y mx = (x', y') \<Longrightarrow> fits x \<Longrightarrow> fits y \<Longrightarrow> sqrt (x'\<^sup>2 + y'\<^sup>2) \<le> \<bar>mx\<bar> * (1 + 1 / 2 ^ 18) + 1 / 2 ^ 40"
  unfolding saturated_def using saturate_length [of x y mx] by (metis prod.collapse)

lemma sqrt3_by_2: "0.86602 \<le> SQRT3_BY_2" "SQRT3_BY_2 \<le> 0.86603"
  using fl_within [of "0.86602540378" 1] unfolding SQRT3_BY_2_def by simp_all

lemma prod_range: "0 \<le> a \<Longrightarrow> a \<le> A \<Longrightarrow> 0 \<le> b \<Longrightarrow> b \<le> B \<Longrightarrow> 0 \<le> a * b \<and> a * b \<le> A * (B :: real)"
  by (simp add: mult_mono)

lemma modulation_limit:
  assumes "0 \<le> d" "d \<le> 99 / 100"
  shows "\<bar>fl (SQRT3_BY_2 * d)\<bar> * (1 + 1 / 2 ^ 18) + 1 / 2 ^ 40 \<le> 0.858"
proof -
  have "0 \<le> SQRT3_BY_2 * d" "SQRT3_BY_2 * d \<le> 0.86603 * (99 / 100)"
    using prod_range [OF _ sqrt3_by_2(2) assms] sqrt3_by_2 by simp_all
  then have "0 \<le> fl (SQRT3_BY_2 * d)" "fl (SQRT3_BY_2 * d) \<le> 0.8574"
    using fl_within [of "SQRT3_BY_2 * d" 1] f32.rnd_nonneg [of "SQRT3_BY_2 * d"] by simp_all
  then show ?thesis by simp
qed

lemma voltage_limit:
  assumes "0 \<le> d" "d \<le> 99 / 100" "1 / 100 \<le> v"
  shows "\<bar>fl (fl (fl (fl (2 / 3) * d) * SQRT3_BY_2) * v)\<bar> * (1 + 1 / 2 ^ 18) + 1 / 2 ^ 40 \<le> 0.6 * v"
proof -
  have t: "0 \<le> fl (2 / 3)" "fl (2 / 3) \<le> 0.667" using fl_within [of "2/3" 1] by simp_all
  have 1: "0 \<le> fl (2 / 3) * d" "fl (2 / 3) * d \<le> 0.667 * (99 / 100)" using prod_range [OF t assms(1,2)] by simp_all
  then have 2: "0 \<le> fl (fl (2 / 3) * d)" "fl (fl (2 / 3) * d) \<le> 0.661"
    using fl_within [of "fl (2 / 3) * d" 1] f32.rnd_nonneg by simp_all
  have 3: "0 \<le> fl (fl (2 / 3) * d) * SQRT3_BY_2" "fl (fl (2 / 3) * d) * SQRT3_BY_2 \<le> 0.661 * 0.86603"
    using prod_range [OF 2 _ sqrt3_by_2(2)] sqrt3_by_2 by simp_all
  define w where "w = fl (fl (fl (2 / 3) * d) * SQRT3_BY_2)"
  have w: "0 \<le> w" "w \<le> 0.573" unfolding w_def using 3 fl_within [of "fl (fl (2 / 3) * d) * SQRT3_BY_2" 1] f32.rnd_nonneg by simp_all
  have wv: "0 \<le> w * v" "w * v \<le> 0.573 * v" using prod_range [OF w _ order_refl, of v] assms(3) by simp_all
  have "0 \<le> fl (w * v)" "fl (w * v) \<le> w * v * (1 + 1 / 2 ^ 24) + 1 / 2 ^ 120"
    using f32.rnd_nonneg [OF wv(1)] fl_scaled(2) [OF wv(1)] .
  moreover define z where "z = w * v"
  ultimately show ?thesis using wv assms(3) unfolding w_def [symmetric] z_def [symmetric] by simp
qed

text \<open>The maximum duty cycle of the moment: what the running branch stored, cut at the configured maximum.\<close>

definition duty_limit :: "foc \<Rightarrow> real" where
  "duty_limit m = min \<bar>ms_max_duty (foc_motor_state m)\<bar> (l_max_duty (foc_conf m))"

lemma truncated_abs: "0 \<le> l \<Longrightarrow> truncated \<bar>x\<bar> 0 l = min \<bar>x\<bar> l"
  by (auto simp: truncated_def utils_truncate_number_def)

lemma fl_prod_le:
  assumes "0 \<le> a" "a \<le> A" "0 \<le> b" "b \<le> B" "A * B * (1 + 1 / 2 ^ 24) + 1 / 2 ^ 120 \<le> C"
  shows "0 \<le> fl (a * b) \<and> fl (a * b) \<le> C"
proof -
  have p: "0 \<le> a * b" "a * b \<le> A * B" using prod_range [OF assms(1-4)] by simp_all
  then have "a * b * (1 + 1 / 2 ^ 24) \<le> A * B * (1 + 1 / 2 ^ 24)" by (intro mult_right_mono) auto
  then show ?thesis using f32.rnd_nonneg [OF p(1)] fl_scaled(2) [OF p(1)] assms(5) by linarith
qed

lemma modulation_of_duty:
  assumes "0 \<le> d"
  shows "\<bar>fl (SQRT3_BY_2 * d)\<bar> * (1 + 1 / 2 ^ 18) + 1 / 2 ^ 40 \<le> 0.86604 * d + 1 / 2 ^ 39"
proof -
  have "0 \<le> fl (SQRT3_BY_2 * d) \<and> fl (SQRT3_BY_2 * d) \<le> 0.866031 * d + 1 / 2 ^ 120"
    using sqrt3_by_2 assms by (intro fl_prod_le [OF _ sqrt3_by_2(2) assms order_refl]) simp_all
  then show ?thesis using assms by simp
qed

lemma voltage_of_duty:
  assumes "0 \<le> d" "0 \<le> v" "v \<le> 1000"
  shows "\<bar>fl (fl (fl (fl (2 / 3) * d) * SQRT3_BY_2) * v)\<bar> * (1 + 1 / 2 ^ 18) + 1 / 2 ^ 40 \<le> 0.5774 * (d * v) + 1 / 2 ^ 39"
proof -
  have t: "0 \<le> fl (2 / 3)" "fl (2 / 3) \<le> 0.66667" using fl_within [of "2/3" 1] by simp_all
  have 1: "0 \<le> fl (fl (2 / 3) * d) \<and> fl (fl (2 / 3) * d) \<le> 0.666671 * d + 1 / 2 ^ 120"
    using assms(1) by (intro fl_prod_le [OF t assms(1) order_refl]) simp
  have 2: "0 \<le> fl (fl (fl (2 / 3) * d) * SQRT3_BY_2) \<and> fl (fl (fl (2 / 3) * d) * SQRT3_BY_2) \<le> 0.577359 * d + 1 / 2 ^ 118"
    using assms(1) sqrt3_by_2 by (intro fl_prod_le [OF conjunct1 [OF 1] conjunct2 [OF 1] _ sqrt3_by_2(2)]) (simp_all add: algebra_simps)
  define w where "w = fl (fl (fl (2 / 3) * d) * SQRT3_BY_2)"
  have p: "0 \<le> w * v" "w * v \<le> 0.577359 * (d * v) + 1 / 2 ^ 108"
  proof -
    have "w * v \<le> (0.577359 * d + 1 / 2 ^ 118) * v" using 2 assms(2) unfolding w_def by (intro mult_right_mono) auto
    then show "w * v \<le> 0.577359 * (d * v) + 1 / 2 ^ 108" using assms(3) by (simp add: algebra_simps)
  qed (use 2 assms(2) w_def in simp)
  have "0 \<le> fl (w * v)" "fl (w * v) \<le> 0.57736 * (d * v) + 1 / 2 ^ 107"
    using f32.rnd_nonneg [OF p(1)] fl_scaled(2) [OF p(1)] p(2) mult_nonneg_nonneg [OF assms(1,2)] by simp_all
  then show ?thesis using mult_nonneg_nonneg [OF assms(1,2)] unfolding w_def by simp
qed

text \<open>The outcome of one run of the current controller.\<close>

definition drives :: "u32 \<Rightarrow> foc \<Rightarrow> foc \<Rightarrow> bool" where
  "drives arr m m' \<longleftrightarrow>
     (\<exists>d1 d2 d3. d1 \<le> arr \<and> d2 \<le> arr \<and> d3 \<le> arr \<and>
        foc_events m' = foc_events m @ duty_regs d1 d2 d3 # (if foc_output_on m then [] else [pwm_on])) \<and>
     foc_output_on m' \<and>
     sqrt ((ms_mod_d (foc_motor_state m'))\<^sup>2 + (ms_mod_q (foc_motor_state m'))\<^sup>2) \<le> 0.858 \<and>
     sqrt ((ms_vd (foc_motor_state m'))\<^sup>2 + (ms_vq (foc_motor_state m'))\<^sup>2) \<le> 0.6 * ms_v_bus (foc_motor_state m) \<and>
     sqrt ((ms_mod_d (foc_motor_state m'))\<^sup>2 + (ms_mod_q (foc_motor_state m'))\<^sup>2) \<le> 0.86604 * duty_limit m + 1 / 2 ^ 39 \<and>
     sqrt ((ms_vd (foc_motor_state m'))\<^sup>2 + (ms_vq (foc_motor_state m'))\<^sup>2)
       \<le> 0.5774 * (duty_limit m * ms_v_bus (foc_motor_state m)) + 1 / 2 ^ 39"

lemma control_current_drives:
  assumes r: "within_ratings dt m" and arr: "unat arr \<le> 65535"
  shows "\<exists>m'. control_current arr dt m = Some m' \<and> drives arr m m'"
proof -
  let ?st = "foc_motor_state m" and ?cf = "foc_conf m"
  note r' = r [unfolded within_ratings_def Let_def]
  obtain s c where sc: "utils_fast_sincos_better (ms_phase ?st) = Some (s, c)" using sincos_total r' by blast
  note n = sincos_norm(2,3) [OF sc]
  define i_d i_q where "i_d = fl (fl (c * ms_i_alpha ?st) + fl (s * ms_i_beta ?st))"
    and "i_q = fl (fl (c * ms_i_beta ?st) - fl (s * ms_i_alpha ?st))"
  have i: "\<bar>i_d\<bar> \<le> 90000" "\<bar>i_q\<bar> \<le> 90000" unfolding i_d_def i_q_def using r' by (intro current_bounded n; simp)+
  define D where "D = fl (fl (2 / 3) * ms_v_bus ?st)"
  have D: "1 / 200 \<le> D" unfolding D_def using r' by (intro bus_fraction) simp
  define Vd Vq where "Vd = fl (ms_vd ?st + fl (fl (ms_id_target ?st - i_d) * foc_current_kp ?cf))"
    and "Vq = fl (ms_vq ?st + fl (fl (ms_iq_target ?st - i_q) * foc_current_kp ?cf))"
  have V: "\<bar>Vd\<bar> \<le> 10000000000" "\<bar>Vq\<bar> \<le> 10000000000"
    unfolding Vd_def Vq_def using r' by (intro voltage_bounded i; simp)+
  define vd vq where "vd = fl (ms_vd ?st + fl (fl (ms_id_target ?st - i_d) * fl (foc_current_ki ?cf * dt)))"
    and "vq = fl (ms_vq ?st + fl (fl (ms_iq_target ?st - i_q) * fl (foc_current_ki ?cf * dt)))"
  have v: "fits vd" "fits vq" unfolding vd_def vq_def fits_def
    using r' by (intro order_trans [OF voltage_bounded [OF i(1)]] order_trans [OF voltage_bounded [OF i(2)]]; simp)+
  define md where "md = truncated \<bar>ms_max_duty ?st\<bar> 0 (l_max_duty ?cf)"
  have md: "0 \<le> md" "md \<le> 99 / 100" unfolding md_def using r' by (intro max_duty_range; simp)+
  obtain d q where dq: "saturated (fl (Vd / D)) (fl (Vq / D)) (fl (SQRT3_BY_2 * md)) = (d, q)" by fastforce
  obtain vd' vq' where v': "saturated vd vq (fl (fl (fl (fl (2 / 3) * md) * SQRT3_BY_2) * ms_v_bus ?st)) = (vd', vq')" by fastforce
  have dl: "md = duty_limit m" unfolding md_def duty_limit_def using r' by (intro truncated_abs) simp
  have mods: "sqrt (d\<^sup>2 + q\<^sup>2) \<le> 0.858" "sqrt (d\<^sup>2 + q\<^sup>2) \<le> 0.86604 * duty_limit m + 1 / 2 ^ 39"
    using saturated_length [OF dq modulation_fits(2) [OF V(1) D] modulation_fits(2) [OF V(2) D]] modulation_limit [OF md] modulation_of_duty [OF md(1)]
    unfolding dl by (meson order_trans)+
  have bus: "1 / 100 \<le> ms_v_bus ?st" "0 \<le> ms_v_bus ?st" "ms_v_bus ?st \<le> 1000" using r' by simp_all
  have volts: "sqrt (vd'\<^sup>2 + vq'\<^sup>2) \<le> 0.6 * ms_v_bus ?st" "sqrt (vd'\<^sup>2 + vq'\<^sup>2) \<le> 0.5774 * (duty_limit m * ms_v_bus ?st) + 1 / 2 ^ 39"
    using saturated_length [OF v' v] voltage_limit [OF md, of "ms_v_bus ?st"] voltage_of_duty [OF md(1), of "ms_v_bus ?st"] bus
    unfolding dl by (meson order_trans)+
  obtain ca cb where comp: "deadtime_comp ?cf c s (ms_id_target ?st) (ms_iq_target ?st) = (ca, cb)" by fastforce
  obtain d1 d2 d3 where ts: "svm (- fl (fl (c * d) - fl (s * q))) (- fl (fl (c * q) + fl (s * d))) arr = Some (d1, d2, d3)"
    and le: "d1 \<le> arr" "d2 \<le> arr" "d3 \<le> arr"
    using svm_ok [OF _ arr, of "- fl (fl (c * d) - fl (s * q))" "- fl (fl (c * q) + fl (s * d))"]
      modulation_in_circle [OF sc mods(1)] by (auto simp: produces_def)
  show ?thesis
    unfolding drives_def control_current_def current_loop_def
    by (simp only: Let_def sc bind.bind_lunit prod.case i_d_def [symmetric] i_q_def [symmetric] Vd_def [symmetric] Vq_def [symmetric]
       vd_def [symmetric] vq_def [symmetric] D_def [symmetric] md_def [symmetric] modulation_fits(1) [OF V(1) D]
       modulation_fits(1) [OF V(2) D] dq v' comp ts option.inject)
     (use mods volts in \<open>simp add: TIMER_UPDATE_DUTY_def foc_emit_def start_pwm_hw_def le\<close>)
qed

lemma current_loop_frame:
  assumes "current_loop arr dt cf st = Some (st', d)"
  shows "ms_phase st' = ms_phase st" "ms_duty_now st' = ms_duty_now st"
  using assms unfolding current_loop_def Let_def
  by (auto simp: bind_eq_Some_conv case_prod_unfold)

lemma output_on_id: "foc_output_on m \<Longrightarrow> m\<lparr>foc_output_on := True\<rparr> = m"
  by (cases m) simp

lemma control_current_frame:
  assumes "control_current arr dt m = Some m'"
  obtains st evs where "m' = m\<lparr>foc_motor_state := st, foc_events := foc_events m @ evs, foc_output_on := True\<rparr>"
    "ms_phase st = ms_phase (foc_motor_state m)" "ms_duty_now st = ms_duty_now (foc_motor_state m)"
proof -
  obtain st d1 d2 d3 where l: "current_loop arr dt (foc_conf m) (foc_motor_state m) = Some (st, d1, d2, d3)"
    and m': "m' = (let m1 = TIMER_UPDATE_DUTY d1 d2 d3 (m\<lparr>foc_motor_state := st\<rparr>) in if \<not> foc_output_on m1 then start_pwm_hw m1 else m1)"
    using assms unfolding control_current_def bind_eq_Some_conv by (auto simp: Let_def)
  note st = current_loop_frame [OF l]
  show ?thesis
  proof (cases "foc_output_on m")
    case True
    then have "m' = m\<lparr>foc_motor_state := st, foc_events := foc_events m @ [duty_regs d1 d3 d2], foc_output_on := True\<rparr>"
      unfolding m' by (simp add: TIMER_UPDATE_DUTY_def foc_emit_def output_on_id)
    then show ?thesis using st by (rule that)
  next
    case False
    then have "m' = m\<lparr>foc_motor_state := st, foc_events := foc_events m @ [duty_regs d1 d3 d2, pwm_on], foc_output_on := True\<rparr>"
      unfolding m' by (simp add: TIMER_UPDATE_DUTY_def foc_emit_def start_pwm_hw_def)
    then show ?thesis using st by (rule that)
  qed
qed

end
