(* ===== verification/FocInvariant.thy ===== *)
theory FocInvariant
  imports FocControl
begin

text \<open>
  The state machine of the field-oriented driver: what every operation keeps, runs of the driver as a step relation over commands, interrupts and
  the timer thread, an invariant of all of them, and the calibration of the current offsets.
\<close>

section \<open>The invariant of the driver\<close>

definition unit_range :: "real \<Rightarrow> bool" where "unit_range x \<longleftrightarrow> \<bar>x\<bar> \<le> 1"
definition hall_range :: "int \<Rightarrow> bool" where "hall_range k \<longleftrightarrow> -2 \<le> k \<and> k \<le> 200"

definition foc_inv :: "foc \<Rightarrow> bool" where
  "foc_inv m \<longleftrightarrow>
     foc_state m \<in> {MC_STATE_OFF, MC_STATE_RUNNING} \<and> (foc_state m = MC_STATE_RUNNING \<longleftrightarrow> foc_control_mode m \<noteq> CONTROL_MODE_NONE) \<and>
     (foc_output_on m \<longrightarrow> foc_state m = MC_STATE_RUNNING \<or> 0 < inductance_state m) \<and> inductance_state m \<le> 9 \<and>
     unit_range (pos_i_term m) \<and> unit_range (speed_i_term m) \<and> unit_range (duty_i_term m) \<and> unit_range (duty_filtered m) \<and>
     hall_range (ang_hall_int_prev m)"

text \<open>A step that leaves the state machine alone and assigns only values in range.\<close>

definition assigns :: "('v \<Rightarrow> bool) \<Rightarrow> 'v \<Rightarrow> 'v \<Rightarrow> bool" where "assigns P x y \<longleftrightarrow> y = x \<or> P y"

lemma assigns_simps [simp]: "assigns P x x" "P y \<Longrightarrow> assigns P x y"
  by (simp_all add: assigns_def)

definition current_sums :: "foc \<Rightarrow> i32 \<times> i32 \<times> i32" where
  "current_sums m = (foc_curr0_sum m, foc_curr1_sum m, foc_curr_samples m)"

abbreviation calibration :: "foc \<Rightarrow> bool \<times> i32 \<times> i32" where
  "calibration m \<equiv> (foc_dccal_done m, foc_curr0_offset m, foc_curr1_offset m)"

definition keeps :: "foc \<Rightarrow> foc \<Rightarrow> bool" where
  "keeps m m' \<longleftrightarrow> foc_state m' = foc_state m \<and> foc_control_mode m' = foc_control_mode m \<and> foc_output_on m' = foc_output_on m \<and>
     inductance_state m' = inductance_state m \<and> foc_conf m' = foc_conf m \<and> current_sums m' = current_sums m \<and> calibration m' = calibration m \<and>
     assigns unit_range (pos_i_term m) (pos_i_term m') \<and> assigns unit_range (speed_i_term m) (speed_i_term m') \<and>
     assigns unit_range (duty_i_term m) (duty_i_term m') \<and> assigns unit_range (duty_filtered m) (duty_filtered m') \<and>
     assigns hall_range (ang_hall_int_prev m) (ang_hall_int_prev m')"

lemma keeps_inv: "keeps m m' \<Longrightarrow> foc_inv m \<Longrightarrow> foc_inv m'"
  unfolding keeps_def foc_inv_def assigns_def by (elim conjE) (simp only:, metis (lifting))

lemma keeps_state: "keeps m m' \<Longrightarrow> foc_state m' = foc_state m"
  by (simp add: keeps_def current_sums_def)

lemma keeps_refl [simp]: "keeps m m"
  by (simp add: keeps_def current_sums_def)

lemma assigns_trans: "assigns P x y \<Longrightarrow> assigns P y z \<Longrightarrow> assigns P x z"
  by (auto simp: assigns_def)

lemma keeps_trans [trans]: "keeps m m' \<Longrightarrow> keeps m' m'' \<Longrightarrow> keeps m m''"
  unfolding keeps_def by (elim conjE, intro conjI) (auto elim: assigns_trans)

named_theorems foc_keeps

lemma truncated_unit [simp]: "unit_range (truncated x (-1) 1)" "unit_range 0"
  using truncated_range [of "-1" 1 x] by (auto simp: unit_range_def)

lemma keeps_observe [foc_keeps]: "keeps m (observe dt m)"
  by (simp add: keeps_def current_sums_def observe_def Let_def case_prod_unfold)

lemma keeps_set_phase [foc_keeps]: "keeps m (set_phase p m)"
  by (simp add: keeps_def current_sums_def set_phase_def)

lemma keeps_correct_encoder [foc_keeps]: "correct_encoder a b v m = (p, m') \<Longrightarrow> keeps m m'"
  by (auto simp: keeps_def current_sums_def correct_encoder_def Let_def)

lemma hall_range_simps [simp]: "hall_range (-1)" "hall_range (-2)" "uint (w :: u8) < 201 \<Longrightarrow> hall_range (uint w)"
  using order_trans [OF _ uint_ge_0 [of w], of "-2"] by (simp_all add: hall_range_def)

lemma keeps_correct_hall [foc_keeps]: "correct_hall h a v dt m = Some (p, m') \<Longrightarrow> keeps m m'"
  unfolding correct_hall_def Let_def
  by (elim runE) (simp_all add: keeps_def current_sums_def)

lemma keeps_duty_control [foc_keeps]: "duty_control b v dt d m = Some (iq, m') \<Longrightarrow> keeps m m'"
  unfolding duty_control_def Let_def by (elim runE) (simp_all add: keeps_def current_sums_def)

lemma keeps_observer_phase [foc_keeps]: "keeps m (m\<lparr>foc_phase_now_observer := p\<rparr>)"
  by (simp add: keeps_def current_sums_def)

lemma keeps_motor_state [foc_keeps]: "keeps m (m\<lparr>foc_motor_state := st\<rparr>)"
  by (simp add: keeps_def current_sums_def)

lemma keeps_sensor_running [foc_keeps]: "sensor_phase_running i dt x m = Some (y, m') \<Longrightarrow> keeps m m'"
  unfolding sensor_phase_running_def Let_def
  by (auto simp: bind_eq_Some_conv split: mc_foc_sensor_mode.split_asm if_split_asm prod.split_asm
      intro: foc_keeps keeps_trans [OF keeps_correct_encoder keeps_set_phase]
        keeps_trans [OF keeps_correct_hall keeps_trans [OF keeps_observer_phase keeps_set_phase]])

lemma keeps_sensor_undriven [foc_keeps]: "sensor_phase_undriven i dt m = Some m' \<Longrightarrow> keeps m m'"
  unfolding sensor_phase_undriven_def Let_def
  by (auto simp: bind_eq_Some_conv split: mc_foc_sensor_mode.split_asm if_split_asm prod.split_asm
      intro: foc_keeps keeps_trans [OF keeps_correct_encoder keeps_set_phase]
        keeps_trans [OF keeps_correct_hall keeps_trans [OF keeps_observer_phase keeps_set_phase]])

lemma keeps_pid_pos [foc_keeps]: "run_pid_control_pos i a s dt m = Some m' \<Longrightarrow> keeps m m'"
  unfolding run_pid_control_pos_def Let_def case_prod_unfold by (elim runE) (simp_all add: keeps_def current_sums_def)

lemma keeps_pid_speed [foc_keeps]: "run_pid_control_speed b v dt m = Some m' \<Longrightarrow> keeps m m'"
  unfolding run_pid_control_speed_def Let_def by (elim runE) (simp_all add: keeps_def current_sums_def)

lemma keeps_update_duty [foc_keeps]: "keeps m (update_duty_now m)"
  by (simp add: update_duty_now_def Let_def keeps_motor_state)

lemma keeps_pll [foc_keeps]: "keeps m (m\<lparr>foc_pll_phase := p, foc_pll_speed := v\<rparr>)"
  by (simp add: keeps_def current_sums_def)

lemma keeps_tachometer [foc_keeps]: "update_tachometer m = Some m' \<Longrightarrow> keeps m m'"
  unfolding update_tachometer_def Let_def by (elim runE) (simp_all add: keeps_def current_sums_def)

lemma keeps_track_position [foc_keeps]: "track_position i m = Some m' \<Longrightarrow> keeps m m'"
  unfolding track_position_def Let_def
  by (elim runE) (simp_all add: keeps_def current_sums_def)

lemma keeps_finish [foc_keeps]:
  assumes "finish_isr i dt m = Some m'"
  shows "keeps m m'"
proof -
  obtain p v m2 m3 m4 where s:
    "update_tachometer ((update_duty_now m)\<lparr>foc_pll_phase := p, foc_pll_speed := v\<rparr>) = Some m2" "track_position i m2 = Some m3"
    "(if foc_state m3 = MC_STATE_RUNNING then run_pid_control_pos i (foc_pos_pid_now m3) (foc_pos_pid_set m3) dt m3 else Some m3) = Some m4"
    "m' = (foc_emit mcif_timer_isr m4)\<lparr>foc_last_inj_adc_isr_duration := fl (fl (of_nat (unat (in_tim12_cnt i))) / 10000000)\<rparr>"
    using assms unfolding finish_isr_def Let_def by (auto simp: bind_eq_Some_conv)
  note keeps_update_duty [of m]
  also note keeps_pll [where p = p and v = v]
  also note keeps_tachometer [OF s(1)]
  also note keeps_track_position [OF s(2)]
  also have "keeps m3 m4" using s(3) by (auto split: if_split_asm intro: foc_keeps)
  also have "keeps m4 m'" unfolding s(4) by (simp add: keeps_def current_sums_def foc_emit_def)
  finally show ?thesis .
qed

text \<open>The running branch turns the outputs on.\<close>

lemma keeps_clarke [foc_keeps]: "keeps m (clarke_input ia ib m)"
  by (simp add: clarke_input_def keeps_def current_sums_def Let_def)

lemma keeps_requested [foc_keeps]: "requested_current b v dt pd m = Some (iq, m') \<Longrightarrow> keeps m m'"
  unfolding requested_current_def Let_def case_prod_unfold by (elim if_SomeE pair_SomeE) (simp_all add: keeps_duty_control)

lemma running_parts:
  assumes "running_step b i dt ia ib pd m = Some m'"
  obtains iq m2 x m4 m5 where "requested_current b (in_vin_again i) dt pd (clarke_input ia ib m) = Some (iq, m2)"
    "sensor_phase_running i dt (foc_id_set m) (if \<not> foc_phase_override m2 then observe dt m2 else m2) = Some (x, m4)"
    "m5 = (if foc_phase_override m4 then set_phase (foc_phase_now_override m4) m4 else m4)"
    "control_current (in_arr i) dt (set_targets (limit_currents (foc_conf m) (ms_mod_q (foc_motor_state m5)) x iq) m5) = Some m'"
proof -
  from assms obtain p where p: "requested_current b (in_vin_again i) dt pd (clarke_input ia ib m) = Some p"
    and r: "(\<lambda>(iq, m2). do { (id', m4) \<leftarrow> sensor_phase_running i dt (foc_id_set m) (if \<not> foc_phase_override m2 then observe dt m2 else m2);
      let m5 = (if foc_phase_override m4 then set_phase (foc_phase_now_override m4) m4 else m4);
      control_current (in_arr i) dt (set_targets (limit_currents (foc_conf m) (ms_mod_q (foc_motor_state m5)) id' iq) m5) }) p = Some m'"
    unfolding running_step_def by (rule bind_SomeE)
  obtain iq m2 where p': "p = (iq, m2)" by (cases p)
  from r obtain q where q: "sensor_phase_running i dt (foc_id_set m) (if \<not> foc_phase_override m2 then observe dt m2 else m2) = Some q"
    and r': "(\<lambda>(id', m4). let m5 = (if foc_phase_override m4 then set_phase (foc_phase_now_override m4) m4 else m4) in
      control_current (in_arr i) dt (set_targets (limit_currents (foc_conf m) (ms_mod_q (foc_motor_state m5)) id' iq) m5)) q = Some m'"
    unfolding p' prod.case by (rule bind_SomeE)
  obtain x m4 where "q = (x, m4)" by (cases q)
  with p p' q r' show ?thesis by (intro that [of iq m2 x m4, OF _ _ refl]) (simp_all only: prod.case Let_def)
qed

lemma running_step_keeps:
  assumes "running_step b i dt ia ib pd m = Some m'"
  shows "\<exists>m1. keeps m m1 \<and> m' = m1\<lparr>foc_output_on := True\<rparr>"
proof -
  obtain iq m2 x m4 m5 where r: "requested_current b (in_vin_again i) dt pd (clarke_input ia ib m) = Some (iq, m2)"
    "sensor_phase_running i dt (foc_id_set m) (if \<not> foc_phase_override m2 then observe dt m2 else m2) = Some (x, m4)"
    "m5 = (if foc_phase_override m4 then set_phase (foc_phase_now_override m4) m4 else m4)"
    "control_current (in_arr i) dt (set_targets (limit_currents (foc_conf m) (ms_mod_q (foc_motor_state m5)) x iq) m5) = Some m'"
    using assms by (rule running_parts)
  note keeps_clarke [of m ia ib]
  also note keeps_requested [OF r(1)]
  also have "keeps m2 (if \<not> foc_phase_override m2 then observe dt m2 else m2)" by (simp add: keeps_observe)
  also note keeps_sensor_running [OF r(2)]
  also have "keeps m4 m5" unfolding r(3) by (simp add: keeps_set_phase)
  finally have k: "keeps m m5" .
  obtain st evs where m': "m' = (set_targets (limit_currents (foc_conf m) (ms_mod_q (foc_motor_state m5)) x iq) m5)
      \<lparr>foc_motor_state := st, foc_events := foc_events (set_targets (limit_currents (foc_conf m) (ms_mod_q (foc_motor_state m5)) x iq) m5) @ evs, foc_output_on := True\<rparr>"
    using r(4) by (rule control_current_frame)
  have "keeps m (m5\<lparr>foc_motor_state := st, foc_events := foc_events m5 @ evs\<rparr>)" using k by (simp add: keeps_def current_sums_def)
  then show ?thesis unfolding m' set_targets_def by (intro exI [of _ "m5\<lparr>foc_motor_state := st, foc_events := foc_events m5 @ evs\<rparr>"]) simp
qed

lemma undriven_step_keeps: "undriven_step b i dt m = Some m' \<Longrightarrow> keeps m m'"
  unfolding undriven_step_def Let_def case_prod_unfold
  by (elim bind_SomeE) (blast intro: keeps_trans keeps_motor_state keeps_observe keeps_sensor_undriven)

lemma inductance_step_inv:
  assumes "inductance_step b i ia ib m = Some m'" "foc_inv m"
  shows "foc_inv m'" "foc_state m' = foc_state m"
  using assms unfolding inductance_step_def Let_def
  by (elim bind_SomeE if_SomeE Some_SomeE;
      auto simp: foc_inv_def add_sample_def stop_pwm_hw_def start_pwm_hw_def foc_emit_def TIMER_UPDATE_DUTY_def TIMER_UPDATE_SAMP_def
        TIMER_UPDATE_DUTY_CURRENTSAMP_def Let_def)+

lemma foc_isr_split:
  assumes "mcpwm_foc_adc_inj_int_handler b i m = Some m'"
  defines "m1 \<equiv> snd (read_currents b i (foc_emit watchdog_reset m))"
  obtains (measuring) ia ib where "inductance_step b i ia ib m1 = Some m'"
  | (normal) m4 m5 dt ia ib pd where "keeps m1 m4"
      "(if foc_state m4 = MC_STATE_RUNNING then running_step b i dt ia ib pd m4 else undriven_step b i dt m4) = Some m5"
      "finish_isr i dt m5 = Some m'"
proof -
  have a: "keeps m1 ((read_sensors b i m1)\<lparr>phase_before := p\<rparr>)" for p
    by (auto simp: read_sensors_def Let_def keeps_def current_sums_def split: option.split)
  from assms(1) show ?thesis
    unfolding mcpwm_foc_adc_inj_int_handler_def Let_def case_prod_unfold m1_def [symmetric]
    apply -
    apply (erule bind_SomeE)
    apply (erule if_SomeE)
     apply (erule measuring)
    apply (erule bind_SomeE, erule bind_SomeE)
    apply (rule normal [OF a])
     apply assumption+
    done
qed

text \<open>Every interrupt adds the two samples to the sums and leaves the offsets alone.\<close>

lemma isr_sums:
  assumes "mcpwm_foc_adc_inj_int_handler b i m = Some m'"
  shows "current_sums m' = (foc_curr0_sum m + ucast (in_curr0 i), foc_curr1_sum m + ucast (in_curr1 i), foc_curr_samples m + 1)"
    "calibration m' = calibration m"
proof -
  let ?m1 = "snd (read_currents b i (foc_emit watchdog_reset m))"
  have 1: "current_sums ?m1 = (foc_curr0_sum m + ucast (in_curr0 i), foc_curr1_sum m + ucast (in_curr1 i), foc_curr_samples m + 1)"
    "calibration ?m1 = calibration m"
    by (simp_all add: current_sums_def read_currents_def Let_def foc_emit_def)
  from assms have "current_sums m' = current_sums ?m1 \<and> calibration m' = calibration ?m1"
  proof (cases rule: foc_isr_split)
    case (measuring ia ib)
    then show ?thesis unfolding inductance_step_def Let_def
      by (elim bind_SomeE if_SomeE Some_SomeE)
         (simp_all add: current_sums_def add_sample_def stop_pwm_hw_def start_pwm_hw_def foc_emit_def TIMER_UPDATE_DUTY_def
           TIMER_UPDATE_SAMP_def TIMER_UPDATE_DUTY_CURRENTSAMP_def Let_def)
  next
    case (normal m4 m5 dt ia ib pd)
    have "current_sums m5 = current_sums m4 \<and> calibration m5 = calibration m4"
    proof (cases "foc_state m4 = MC_STATE_RUNNING")
      case True
      then have "running_step b i dt ia ib pd m4 = Some m5" using normal(2) by simp
      from running_step_keeps [OF this] show ?thesis by (auto simp: keeps_def current_sums_def)
    next
      case False
      then show ?thesis using normal(2) undriven_step_keeps by (simp add: keeps_def current_sums_def)
    qed
    then show ?thesis using normal(1) keeps_finish [OF normal(3)] by (simp add: keeps_def current_sums_def)
  qed
  then show "current_sums m' = (foc_curr0_sum m + ucast (in_curr0 i), foc_curr1_sum m + ucast (in_curr1 i), foc_curr_samples m + 1)"
    "calibration m' = calibration m" using 1 by simp_all
qed

lemma isr_inv:
  assumes "mcpwm_foc_adc_inj_int_handler b i m = Some m'" "foc_inv m"
  shows "foc_inv m' \<and> foc_state m' = foc_state m"
proof -
  let ?m1 = "snd (read_currents b i (foc_emit watchdog_reset m))"
  have 1: "foc_inv ?m1" "foc_state ?m1 = foc_state m"
    using assms(2) by (auto simp: read_currents_def Let_def foc_emit_def foc_inv_def)
  from assms(1) show ?thesis
  proof (cases rule: foc_isr_split)
    case (measuring ia ib)
    then show ?thesis using inductance_step_inv [OF measuring 1(1)] 1(2) by simp
  next
    case (normal m4 m5 dt ia ib pd)
    have 4: "foc_inv m4" "foc_state m4 = foc_state m" using keeps_inv [OF normal(1) 1(1)] normal(1) 1(2) by (auto simp: keeps_def current_sums_def)
    have "foc_inv m5 \<and> foc_state m5 = foc_state m"
    proof (cases "foc_state m4 = MC_STATE_RUNNING")
      case True
      then obtain m6 where m6: "keeps m4 m6" "m5 = m6\<lparr>foc_output_on := True\<rparr>" using running_step_keeps normal(2) by (metis (full_types))
      then show ?thesis using keeps_inv [OF m6(1) 4(1)] 4(2) True by (auto simp: keeps_def current_sums_def foc_inv_def)
    next
      case False
      then have "keeps m4 m5" using normal(2) undriven_step_keeps by simp
      then show ?thesis using keeps_inv [OF _ 4(1)] 4(2) by (auto simp: keeps_def current_sums_def)
    qed
    then show ?thesis using keeps_inv [OF keeps_finish [OF normal(3)]] keeps_state [OF keeps_finish [OF normal(3)]] by simp
  qed
qed

lemma keeps_open_loop: "open_loop dt r m = Some m' \<Longrightarrow> keeps m m'"
  unfolding open_loop_def Let_def by (elim runE) (simp_all add: keeps_def current_sums_def)

lemma keeps_take_samples: "keeps m (take_samples m)"
  by (simp add: take_samples_def add_sample_def Let_def keeps_def current_sums_def)

lemma keeps_timer_thread: "foc_timer_thread b vin m = Some m' \<Longrightarrow> keeps m m'"
  unfolding foc_timer_thread_def Let_def
  by (elim runE) (simp add: keeps_def current_sums_def, simp, rule keeps_trans [OF keeps_open_loop keeps_trans [OF keeps_take_samples keeps_pid_speed]])

section \<open>Calibration\<close>

lemma sint_small: "k < 2 ^ 31 \<Longrightarrow> sint (of_nat k :: i32) = int k"
proof -
  assume k: "k < 2 ^ 31"
  then have "int k < 2 ^ 31" by (simp flip: of_nat_power)
  then have "signed_take_bit 31 (int k) = int k" by (intro signed_take_bit_int_eq_self) auto
  then show ?thesis using sint_sbintrunc' [of "int k", where 'a = 32] by simp
qed

lemma samples_less: "k \<le> 4000 \<Longrightarrow> ((of_nat k :: i32) <s 4000) = (k < 4000)"
  using sint_small [of k] sint_small [of 4000] by (simp add: word_sless_alt)

definition first_samples :: "(foc_in \<Rightarrow> u16) \<Rightarrow> nat \<Rightarrow> foc_in list \<Rightarrow> nat" where
  "first_samples f n ins = sum_list (map (\<lambda>i. unat (f i)) (take n ins))"

lemma wait_samples_sums:
  assumes "wait_samples b ins m = Some m'" "current_sums m = (of_nat s0, of_nat s1, of_nat k)" "k \<le> 4000"
  shows "4000 - k \<le> length ins \<and> current_sums m' =
     (of_nat (s0 + first_samples in_curr0 (4000 - k) ins), of_nat (s1 + first_samples in_curr1 (4000 - k) ins), of_nat 4000)"
  using assms
proof (induction ins arbitrary: m s0 s1 k)
  case Nil
  then have "\<not> foc_curr_samples m <s 4000" "foc_curr_samples m = of_nat k" by (simp_all add: current_sums_def split: if_split_asm)
  then have "k = 4000" using samples_less [of k] Nil(3) by auto
  then show ?case using Nil by (simp add: first_samples_def split: if_split_asm)
next
  case (Cons i ins)
  have k: "foc_curr_samples m = of_nat k" using Cons(3) by (simp add: current_sums_def)
  show ?case
  proof (cases "k < 4000")
    case True
    then obtain m1 where m1: "mcpwm_foc_adc_inj_int_handler b i m = Some m1" "wait_samples b ins m1 = Some m'"
      using Cons(2) k samples_less [of k] by (auto elim!: bind_SomeE)
    have "current_sums m1 = (of_nat (s0 + unat (in_curr0 i)), of_nat (s1 + unat (in_curr1 i)), of_nat (Suc k))"
      using isr_sums(1) [OF m1(1)] Cons(3) by (simp add: current_sums_def add.commute)
    from Cons.IH [OF m1(2) this] True have "4000 - Suc k \<le> length ins" "current_sums m' =
      (of_nat (s0 + unat (in_curr0 i) + first_samples in_curr0 (4000 - Suc k) ins), of_nat (s1 + unat (in_curr1 i) + first_samples in_curr1 (4000 - Suc k) ins), of_nat 4000)"
      by simp_all
    moreover have "4000 - k = Suc (4000 - Suc k)" using True by simp
    ultimately show ?thesis by (simp only: first_samples_def take_Suc_Cons list.map sum_list.Cons) simp
  next
    case False
    then show ?thesis using Cons(2,3,4) k samples_less [of k] by (simp add: first_samples_def split: if_split_asm)
  qed
qed

lemma first_samples_bound: "first_samples f n ins \<le> n * 65535"
proof -
  have "sum_list (map (\<lambda>i. unat (f i)) ys) \<le> length ys * 65535" for ys
  proof (induction ys)
    case (Cons y ys)
    moreover have "unat (f y) < 2 ^ LENGTH(16)" by (rule unsigned_less)
    ultimately show ?case by simp
  qed simp
  from this [of "take n ins"] have "first_samples f n ins \<le> length (take n ins) * 65535" unfolding first_samples_def .
  also have "\<dots> \<le> n * 65535" by simp
  finally show ?thesis .
qed

text \<open>The calibration takes the mean, rounded down, of the samples of exactly the first 4000 interrupts after it clears the sums; whatever the
  converters return, the 32-bit sums do not overflow.\<close>

theorem dc_cal_is_mean:
  assumes "do_dc_cal b ins m = Some m'"
  shows "4000 \<le> length ins \<and> foc_dccal_done m' \<and>
     sint (foc_curr0_offset m') = int (sum_list (map (\<lambda>i. unat (in_curr0 i)) (take 4000 ins)) div 4000) \<and>
     sint (foc_curr1_offset m') = int (sum_list (map (\<lambda>i. unat (in_curr1 i)) (take 4000 ins)) div 4000)"
proof -
  obtain m1 where w: "wait_samples b ins (m\<lparr>foc_curr0_sum := 0, foc_curr1_sum := 0, foc_curr_samples := 0\<rparr>) = Some m1"
    and m': "m' = m1\<lparr>foc_curr0_offset := word_of_int (c_div (sint (foc_curr0_sum m1)) (sint (foc_curr_samples m1))),
      foc_curr1_offset := word_of_int (c_div (sint (foc_curr1_sum m1)) (sint (foc_curr_samples m1))), foc_dccal_done := True\<rparr>"
    using assms unfolding do_dc_cal_def by (elim bind_SomeE) simp
  have s: "4000 \<le> length ins" "foc_curr0_sum m1 = of_nat (first_samples in_curr0 4000 ins)" "foc_curr1_sum m1 = of_nat (first_samples in_curr1 4000 ins)"
    "foc_curr_samples m1 = of_nat 4000"
    using wait_samples_sums [OF w, of 0 0 0] by (simp_all add: current_sums_def)
  have mean: "sint (word_of_int (c_div (sint (of_nat (first_samples f 4000 ins) :: i32)) (sint (of_nat 4000 :: i32))) :: i32) = int (first_samples f 4000 ins div 4000)" for f
  proof -
    have b: "first_samples f 4000 ins < 2 ^ 31" using first_samples_bound [of f 4000 ins] by simp
    have c: "c_div (int (first_samples f 4000 ins)) (int 4000) = int (first_samples f 4000 ins div 4000)" by (simp add: c_div_def sgn_if zdiv_int)
    have r: "sint (of_nat (first_samples f 4000 ins div 4000) :: i32) = int (first_samples f 4000 ins div 4000)"
      using b by (intro sint_small) (meson div_le_dividend le_less_trans)
    have n: "sint (of_nat 4000 :: i32) = int 4000" by (rule sint_small) simp
    show ?thesis unfolding sint_small [OF b] n c of_int_of_nat_eq r ..
  qed
  show ?thesis using s(1) mean [of in_curr0] mean [of in_curr1] unfolding m' by (simp add: s(2-4) first_samples_def)
qed

text \<open>A calibrated driver: offsets that are values of the converters, so that no difference of a sample and an offset overflows.\<close>

definition calibrated :: "foc \<Rightarrow> bool" where
  "calibrated m \<longleftrightarrow> foc_dccal_done m \<and> sint (foc_curr0_offset m) \<in> {0..65535} \<and> sint (foc_curr1_offset m) \<in> {0..65535}"

lemma calibrated_eq: "calibration m' = calibration m \<Longrightarrow> calibrated m' = calibrated m"
  by (simp add: calibrated_def)

lemma dc_cal_calibrates: "do_dc_cal b ins m = Some m' \<Longrightarrow> calibrated m'"
proof -
  assume d: "do_dc_cal b ins m = Some m'"
  have "first_samples f 4000 ins div 4000 \<le> 65535" for f using first_samples_bound [of f 4000 ins] by simp
  then have "int (first_samples f 4000 ins div 4000) \<in> {0..65535}" for f by (metis (full_types) atLeastAtMost_iff of_nat_0_le_iff of_nat_le_iff of_nat_numeral)
  from this [of in_curr0] this [of in_curr1] dc_cal_is_mean [OF d] show ?thesis
    unfolding calibrated_def first_samples_def by metis
qed

lemma wait_samples_inv: "wait_samples b ins m = Some m' \<Longrightarrow> foc_inv m \<Longrightarrow> foc_inv m'"
proof (induction ins arbitrary: m)
  case (Cons i ins)
  then show ?case using isr_inv by (auto elim!: bind_SomeE split: if_split_asm)
qed (simp split: if_split_asm)

lemma init_vars_inv: "foc_inv m \<Longrightarrow> foc_inv (foc_init_vars c m)"
  by (simp add: foc_inv_def foc_init_vars_def)

lemma init_inv:
  assumes "mcpwm_foc_init b arr ins c m = Some m'" "foc_inv (foc_init_vars c m)"
  shows "foc_inv m'" "calibrated m'"
proof -
  let ?m0 = "TIMER_UPDATE_SAMP (arr - 2) 5 (stop_pwm_hw (foc_init_vars c m))"
  obtain m1 where d: "do_dc_cal b ins ?m0 = Some m1" and m': "m' = m1\<lparr>foc_timer_thd_stop := False\<rparr>"
    using assms(1) unfolding mcpwm_foc_init_def by (elim bind_SomeE) simp
  obtain m2 where w: "wait_samples b ins (?m0\<lparr>foc_curr0_sum := 0, foc_curr1_sum := 0, foc_curr_samples := 0\<rparr>) = Some m2"
    and m1: "foc_inv m1 = foc_inv m2"
    using d unfolding do_dc_cal_def by (elim bind_SomeE) (auto simp: foc_inv_def)
  have "foc_inv (?m0\<lparr>foc_curr0_sum := 0, foc_curr1_sum := 0, foc_curr_samples := 0\<rparr>)"
    using assms(2) by (auto simp: foc_inv_def stop_pwm_hw_def foc_emit_def TIMER_UPDATE_SAMP_def)
  then have "foc_inv m1" using wait_samples_inv [OF w] m1 by blast
  then show "foc_inv m'" by (auto simp: m' foc_inv_def)
  show "calibrated m'" using dc_cal_calibrates [OF d] by (simp add: m' calibrated_def)
qed

section \<open>Runs of the driver\<close>

text \<open>A step is a command, a change of the configuration, the start of an inductance pulse sequence, an interrupt, an iteration of
  the timer thread, the request of \<open>mcpwm_foc_deinit\<close> to end that thread or another initialisation with its calibration, in any order. The limits in
  the configuration change at any time.\<close>

inductive foc_step :: "board \<Rightarrow> foc \<Rightarrow> foc \<Rightarrow> bool" for b where
  step_duty: "foc_step b m (mcpwm_foc_set_duty d m)"
| step_speed: "foc_step b m (mcpwm_foc_set_pid_speed r m)"
| step_pos: "foc_step b m (mcpwm_foc_set_pid_pos p m)"
| step_current: "foc_step b m (mcpwm_foc_set_current c m)"
| step_brake: "foc_step b m (mcpwm_foc_set_brake_current c m)"
| step_configuration: "mcpwm_foc_set_configuration c m = Some m' \<Longrightarrow> foc_step b m m'"
| step_limits: "foc_step b m (m\<lparr>foc_conf := c\<rparr>)"
| step_inductance: "foc_step b m (m\<lparr>foc_samples := (foc_samples m)\<lparr>measure_inductance_duty := d, measure_inductance_now := True\<rparr>\<rparr>)"
| step_isr: "mcpwm_foc_adc_inj_int_handler b i m = Some m' \<Longrightarrow> foc_step b m m'"
| step_timer: "foc_timer_thread b vin m = Some m' \<Longrightarrow> foc_step b m m'"
| step_deinit: "foc_step b m (m\<lparr>foc_timer_thd_stop := True\<rparr>)"
| step_init: "mcpwm_foc_init b arr ins c m = Some m' \<Longrightarrow> foc_step b m m'"

inductive foc_reaches :: "board \<Rightarrow> foc \<Rightarrow> foc \<Rightarrow> bool" for b m0 where
  reach_init: "foc_reaches b m0 m0"
| reach_step: "foc_reaches b m0 m \<Longrightarrow> foc_step b m m' \<Longrightarrow> foc_reaches b m0 m'"

lemma command_inv:
  assumes "foc_inv m"
  shows "foc_inv (mcpwm_foc_set_duty d m)" "foc_inv (mcpwm_foc_set_pid_speed r m)" "foc_inv (mcpwm_foc_set_pid_pos p m)"
    "foc_inv (mcpwm_foc_set_current c m)" "foc_inv (mcpwm_foc_set_brake_current c m)"
  using assms
  by (auto simp: foc_inv_def mcpwm_foc_set_duty_def mcpwm_foc_set_pid_speed_def mcpwm_foc_set_pid_pos_def mcpwm_foc_set_current_def
      mcpwm_foc_set_brake_current_def foc_run_def foc_release_def stop_pwm_hw_def foc_emit_def)

lemma configuration_inv: "mcpwm_foc_set_configuration c m = Some m' \<Longrightarrow> foc_inv m \<Longrightarrow> foc_inv m'"
  by (auto simp: foc_inv_def mcpwm_foc_set_configuration_def bind_eq_Some_conv stop_pwm_hw_def foc_emit_def TIMER_UPDATE_SAMP_TOP_def)

lemma foc_step_inv: "foc_step b m m' \<Longrightarrow> foc_inv m \<Longrightarrow> foc_inv m'"
proof (induction rule: foc_step.induct)
  case (step_isr i m m')
  then show ?case using isr_inv by blast
next
  case (step_timer vin m m')
  then show ?case using keeps_inv keeps_timer_thread by blast
next
  case (step_init arr ins c m m')
  then show ?case using init_inv(1) init_vars_inv by blast
qed (simp_all add: command_inv configuration_inv, auto simp: foc_inv_def)

lemma foc_step_calibrated: "foc_step b m m' \<Longrightarrow> foc_inv m \<Longrightarrow> calibrated m \<Longrightarrow> calibrated m'"
proof (induction rule: foc_step.induct)
  case (step_isr i m m')
  then show ?case using calibrated_eq [OF isr_sums(2)] by blast
next
  case (step_timer vin m m')
  then show ?case using keeps_timer_thread calibrated_eq [of m' m] by (auto simp: keeps_def)
next
  case (step_init arr ins c m m')
  then show ?case using init_inv(2) init_vars_inv by blast
next
  case (step_configuration c m m')
  then show ?case by (auto simp: calibrated_def mcpwm_foc_set_configuration_def bind_eq_Some_conv stop_pwm_hw_def foc_emit_def TIMER_UPDATE_SAMP_TOP_def)
qed (auto simp: calibrated_def mcpwm_foc_set_duty_def mcpwm_foc_set_pid_speed_def mcpwm_foc_set_pid_pos_def mcpwm_foc_set_current_def
      mcpwm_foc_set_brake_current_def foc_run_def foc_release_def stop_pwm_hw_def foc_emit_def)

lemma foc_reaches_inv: "foc_reaches b m0 m \<Longrightarrow> foc_inv m0 \<Longrightarrow> foc_inv m"
  by (induction rule: foc_reaches.induct) (auto intro: foc_step_inv)

lemma foc_reaches_calibrated: "foc_reaches b m0 m \<Longrightarrow> foc_inv m0 \<Longrightarrow> calibrated m0 \<Longrightarrow> calibrated m"
  by (induction rule: foc_reaches.induct) (blast intro: foc_step_calibrated foc_reaches_inv)+

text \<open>The static variables before the first initialisation.\<close>

definition foc_boot :: "mc_configuration \<Rightarrow> foc" where
  "foc_boot c = \<lparr>foc_conf = c, foc_state = MC_STATE_OFF, foc_control_mode = CONTROL_MODE_DUTY, foc_motor_state = motor_state_zero,
     foc_curr0_sum = 0, foc_curr1_sum = 0, foc_curr_samples = 0, foc_curr0_offset = 0, foc_curr1_offset = 0,
     foc_phase_override = False, foc_phase_now_override = 0, foc_duty_cycle_set = 0, foc_id_set = 0, foc_iq_set = 0,
     foc_dccal_done = False, foc_output_on = False, foc_pos_pid_set = 0, foc_speed_pid_set_rpm = 0, foc_phase_now_observer = 0,
     foc_phase_now_observer_override = 0, foc_phase_observer_override = False, foc_phase_now_encoder = 0,
     foc_phase_now_encoder_no_index = 0, foc_observer_x1 = 0, foc_observer_x2 = 0, foc_pll_phase = 0, foc_pll_speed = 0,
     foc_samples = mc_sample_zero, foc_tachometer = 0, foc_tachometer_abs = 0, foc_last_inj_adc_isr_duration = 0,
     foc_pos_pid_now = 0, foc_timer_thd_stop = False, inductance_state = 0, phase_before = 0, duty_filtered = 0, duty_i_term = 0,
     phase_last = 0, angle_last = 0, min_rpm_hyst_timer = 0, min_rpm_timer = 0, pos_i_term = 0, pos_prev_error = 0, pos_dt_int = 0,
     speed_i_term = 0, speed_prev_error = 0, using_encoder = True, ang_hall_int_prev = -1, using_hall = True, ang_hall = 0,
     ADC_curr_norm_value = [0, 0, 0], foc_events = []\<rparr>"

lemma boot_inv: "foc_inv (foc_init_vars c (foc_boot c'))"
  by (simp add: foc_inv_def foc_init_vars_def foc_boot_def unit_range_def)

lemma release_frame: "foc_output_on (foc_release m) = False" "foc_state (foc_release m) = MC_STATE_OFF"
  by (simp_all add: foc_release_def stop_pwm_hw_def foc_emit_def)

end
