(* ===== verification/FocLimits.thy ===== *)
theory FocLimits
  imports FocInvariant
begin

text \<open>
  The limits of the currents: whatever the control mode and the position sensor ask for, the targets that reach the current controller respect
  the limits of the motor current and of the battery current.
\<close>

section \<open>Limits of the current targets\<close>

lemma saturated_cases:
  assumes "saturated x y mx = (x', y')"
  obtains "x' = x" "y' = y" | f where "0 \<le> f" "f \<le> 1" "x' = fl (x * f)" "y' = fl (y * f)"
proof -
  define mag0 where "mag0 = fl (sqrt (fl (fl (x * x) + fl (y * y))))"
  define mag where "mag = (if mag0 < fl (1 / 10 ^ 10) then fl (1 / 10 ^ 10) else mag0)"
  have s: "(x', y') = (if mag > \<bar>mx\<bar> then (fl (x * fl (\<bar>mx\<bar> / mag)), fl (y * fl (\<bar>mx\<bar> / mag))) else (x, y))"
    using assms unfolding saturated_def utils_saturate_vector_2d_def Let_def mag_def mag0_def by (auto split: if_split_asm)
  show ?thesis
  proof (cases "mag > \<bar>mx\<bar>")
    case True
    then have "0 \<le> \<bar>mx\<bar> / mag" "\<bar>mx\<bar> / mag \<le> 1" by auto
    then show ?thesis using s True by (intro that(2) [of "fl (\<bar>mx\<bar> / mag)"] f32.rnd_nonneg f32.rnd_le is_f32_1) auto
  next
    case False
    then show ?thesis using s that(1) by simp
  qed
qed

lemma fl_scaled_between:
  assumes "lo \<le> y" "y \<le> hi" "lo \<le> 0" "0 \<le> hi" "is_f32 lo" "is_f32 hi" "0 \<le> f" "f \<le> 1"
  shows "lo \<le> fl (y * f)" "fl (y * f) \<le> hi"
proof -
  have "lo \<le> y * f \<and> y * f \<le> hi"
  proof (cases "0 \<le> y")
    case True
    have "0 \<le> y * f" "y * f \<le> y" using True assms(7,8) by (simp_all add: mult_left_le)
    then show ?thesis using assms by linarith
  next
    case False
    have "0 \<le> - y * f" "- y * f \<le> - y" using False assms(7,8) mult_left_le [of f "- y"] mult_nonneg_nonneg [of "- y" f] by auto
    then show ?thesis using assms by simp
  qed
  then show "lo \<le> fl (y * f)" "fl (y * f) \<le> hi" using assms(5,6) by (blast intro: f32.rnd_le f32.rnd_ge)+
qed

lemma saturated_between:
  assumes "saturated x y mx = (x', y')" "lo \<le> y" "y \<le> hi" "lo \<le> 0" "0 \<le> hi" "is_f32 lo" "is_f32 hi"
  shows "lo \<le> y' \<and> y' \<le> hi"
  using assms(1) by (cases rule: saturated_cases) (use assms(2-) fl_scaled_between [OF assms(2-)] in auto)

text \<open>The limits of the motor and of the battery current.\<close>

definition limits_ok :: "mc_configuration \<Rightarrow> bool" where
  "limits_ok cf \<longleftrightarrow> lo_current_min cf \<le> 0 \<and> 0 \<le> lo_current_max cf \<and> is_f32 (lo_current_min cf) \<and> is_f32 (lo_current_max cf) \<and>
     fits (lo_current_min cf) \<and> fits (lo_current_max cf) \<and> lo_in_current_min cf \<le> 0 \<and> 0 \<le> lo_in_current_max cf"

definition battery_ok :: "mc_configuration \<Rightarrow> real \<Rightarrow> real \<Rightarrow> bool" where
  "battery_ok cf mod_q iq \<longleftrightarrow> (fl 0.001 < \<bar>mod_q\<bar> \<longrightarrow>
     lo_in_current_min cf * (1 + 1 / 2 ^ 24) - \<bar>mod_q\<bar> / 2 ^ 120 \<le> mod_q * iq \<and>
     mod_q * iq \<le> lo_in_current_max cf * (1 + 1 / 2 ^ 24) + \<bar>mod_q\<bar> / 2 ^ 120)"

lemma quotient_bounds:
  assumes "0 < m" "0 \<le> h" "l \<le> 0" "fl (l / m) \<le> x" "x \<le> fl (h / m)"
  shows "l * (1 + 1 / 2 ^ 24) - m / 2 ^ 120 \<le> m * x" "m * x \<le> h * (1 + 1 / 2 ^ 24) + m / 2 ^ 120"
proof -
  have h: "fl (h / m) \<le> h / m * (1 + 1 / 2 ^ 24) + 1 / 2 ^ 120" "fl (- l / m) \<le> - l / m * (1 + 1 / 2 ^ 24) + 1 / 2 ^ 120"
    using assms by (intro fl_scaled; simp add: divide_nonpos_pos)+
  have "m * x \<le> m * (h / m * (1 + 1 / 2 ^ 24) + 1 / 2 ^ 120)" using h(1) assms by (intro mult_left_mono) auto
  then show "m * x \<le> h * (1 + 1 / 2 ^ 24) + m / 2 ^ 120" using assms(1) by (simp add: algebra_simps)
  have "m * - x \<le> m * (- l / m * (1 + 1 / 2 ^ 24) + 1 / 2 ^ 120)"
    using h(2) assms fl_minus [of "l / m"] by (intro mult_left_mono) auto
  then show "l * (1 + 1 / 2 ^ 24) - m / 2 ^ 120 \<le> m * x" using assms(1) by (simp add: algebra_simps)
qed

lemma limit_currents_ok:
  assumes l: "limit_currents cf mod_q x y = (x', y')" and ok: "limits_ok cf"
  shows "lo_current_min cf \<le> y'" "y' \<le> lo_current_max cf" "battery_ok cf mod_q y'"
    "fits x \<Longrightarrow> sqrt (x'\<^sup>2 + y'\<^sup>2) \<le> lo_current_max cf * (1 + 1 / 2 ^ 18) + 1 / 2 ^ 40"
proof -
  note ok' = ok [unfolded limits_ok_def]
  define y1 where "y1 = truncated y (lo_current_min cf) (lo_current_max cf)"
  have y1: "lo_current_min cf \<le> y1" "y1 \<le> lo_current_max cf" unfolding y1_def using truncated_toward_zero(4,5) ok' by auto
  obtain x2 y2 where s: "saturated x y1 (lo_current_max cf) = (x2, y2)" by fastforce
  have y2: "lo_current_min cf \<le> y2 \<and> y2 \<le> lo_current_max cf" using saturated_between [OF s y1] ok' by blast
  define lo hi where "lo = (if mod_q > 0 then fl (lo_in_current_min cf / mod_q) else fl (lo_in_current_max cf / mod_q))"
    and "hi = (if mod_q > 0 then fl (lo_in_current_max cf / mod_q) else fl (lo_in_current_min cf / mod_q))"
  have lh: "lo \<le> 0" "0 \<le> hi" unfolding lo_def hi_def using ok'
    by (auto intro!: f32.rnd_nonneg f32.rnd_nonpos simp: divide_le_0_iff zero_le_divide_iff)
  have pos: "0 < fl 0.001" using fl_within [of "0.001" "1/500"] by simp
  have xy': "x' = x2" "y' = (if \<bar>mod_q\<bar> > fl 0.001 then truncated y2 lo hi else y2)"
    using l s pos unfolding limit_currents_def y1_def lo_def hi_def by (auto split: if_split_asm)
  show "lo_current_min cf \<le> y'" "y' \<le> lo_current_max cf"
    using xy'(2) y2 truncated_toward_zero(2,3) [OF lh, of y2] ok' by (auto split: if_split_asm)
  have ab: "\<bar>y'\<bar> \<le> \<bar>y2\<bar>" using xy'(2) truncated_toward_zero(1) [OF lh, of y2] by auto
  show "battery_ok cf mod_q y'"
    unfolding battery_ok_def
  proof
    assume big: "fl 0.001 < \<bar>mod_q\<bar>"
    then have y': "lo \<le> y'" "y' \<le> hi" using xy'(2) truncated_toward_zero(4,5) [OF lh, of y2] by auto
    show "lo_in_current_min cf * (1 + 1 / 2 ^ 24) - \<bar>mod_q\<bar> / 2 ^ 120 \<le> mod_q * y' \<and>
          mod_q * y' \<le> lo_in_current_max cf * (1 + 1 / 2 ^ 24) + \<bar>mod_q\<bar> / 2 ^ 120"
    proof (cases "mod_q > 0")
      case True
      then show ?thesis using quotient_bounds [of mod_q "lo_in_current_max cf" "lo_in_current_min cf" y'] y' ok'
        unfolding lo_def hi_def by auto
    next
      case False
      then have m: "0 < - mod_q" using big pos by auto
      have f: "fl (z / - mod_q) = - fl (z / mod_q)" for z using fl_minus [of "z / mod_q"] by simp
      show ?thesis using quotient_bounds [OF m, of "lo_in_current_max cf" "lo_in_current_min cf" "- y'"] y' ok' False m
        unfolding lo_def hi_def f by auto
    qed
  qed
  assume x: "fits x"
  have "fits y1" using y1 ok' unfolding fits_def abs_le_iff by linarith
  from saturated_length [OF s x this] have "sqrt (x2\<^sup>2 + y2\<^sup>2) \<le> lo_current_max cf * (1 + 1 / 2 ^ 18) + 1 / 2 ^ 40" using ok' by simp
  moreover have "sqrt (x'\<^sup>2 + y'\<^sup>2) \<le> sqrt (x2\<^sup>2 + y2\<^sup>2)" using ab xy'(1) by (simp add: abs_le_square_iff)
  ultimately show "sqrt (x'\<^sup>2 + y'\<^sup>2) \<le> lo_current_max cf * (1 + 1 / 2 ^ 18) + 1 / 2 ^ 40" by linarith
qed

section \<open>The targets of a running motor\<close>

definition modulation_q :: "foc \<Rightarrow> real" where "modulation_q m = ms_mod_q (foc_motor_state m)"

lemma modulation_simps [simp]:
  "modulation_q (set_phase p m) = modulation_q m" "modulation_q (observe dt m) = modulation_q m"
  "modulation_q (m\<lparr>foc_phase_now_observer := p\<rparr>) = modulation_q m"
  by (simp_all add: modulation_q_def set_phase_def observe_def Let_def case_prod_unfold)

lemma modulation_correct_encoder [simp]: "modulation_q (snd (correct_encoder a b v m)) = modulation_q m"
  by (simp add: modulation_q_def correct_encoder_def Let_def)

lemma modulation_correct_hall: "correct_hall h a v dt m = Some (p, m') \<Longrightarrow> modulation_q m' = modulation_q m"
  unfolding correct_hall_def Let_def by (elim runE) (simp_all add: modulation_q_def)

lemma modulation_duty_control: "duty_control b v dt d m = Some (iq, m') \<Longrightarrow> modulation_q m' = modulation_q m"
  unfolding duty_control_def Let_def by (elim runE) (simp_all add: modulation_q_def)

lemma modulation_sensor_running: "sensor_phase_running i dt x m = Some (y, m') \<Longrightarrow> modulation_q m' = modulation_q m"
  unfolding sensor_phase_running_def Let_def
  by (auto simp: case_prod_unfold bind_eq_Some_conv dest!: modulation_correct_hall split: mc_foc_sensor_mode.split_asm if_split_asm)

text \<open>What the interrupt leaves alone after the targets are set.\<close>

definition targets :: "foc \<Rightarrow> real \<times> real" where
  "targets m = (ms_id_target (foc_motor_state m), ms_iq_target (foc_motor_state m))"

lemma targets_current_loop:
  "current_loop arr dt cf st = Some (st', d) \<Longrightarrow> ms_id_target st' = ms_id_target st \<and> ms_iq_target st' = ms_iq_target st"
  unfolding current_loop_def Let_def by (auto simp: bind_eq_Some_conv case_prod_unfold)

lemma targets_control_current: "control_current arr dt m = Some m' \<Longrightarrow> targets m' = targets m"
  unfolding control_current_def Let_def case_prod_unfold
  by (elim runE) (auto simp: targets_def TIMER_UPDATE_DUTY_def foc_emit_def start_pwm_hw_def
      dest!: targets_current_loop)

lemma targets_finish: "finish_isr i dt m = Some m' \<Longrightarrow> targets m' = targets m"
  unfolding finish_isr_def Let_def case_prod_unfold update_tachometer_def track_position_def run_pid_control_pos_def
  by (elim runE) (simp_all add: targets_def update_duty_now_def foc_emit_def Let_def)

lemma modulation_requested: "requested_current b v dt pd m = Some (iq, m') \<Longrightarrow> modulation_q m' = modulation_q m"
  unfolding requested_current_def Let_def case_prod_unfold by (elim if_SomeE pair_SomeE) (simp_all add: modulation_duty_control)

lemma running_step_targets:
  assumes "running_step b i dt ia ib pd m = Some m'"
  shows "\<exists>x y. targets m' = limit_currents (foc_conf m) (modulation_q m) x y"
proof -
  obtain iq m2 x m4 m5 where r: "requested_current b (in_vin_again i) dt pd (clarke_input ia ib m) = Some (iq, m2)"
    "sensor_phase_running i dt (foc_id_set m) (if \<not> foc_phase_override m2 then observe dt m2 else m2) = Some (x, m4)"
    "m5 = (if foc_phase_override m4 then set_phase (foc_phase_now_override m4) m4 else m4)"
    "control_current (in_arr i) dt (set_targets (limit_currents (foc_conf m) (ms_mod_q (foc_motor_state m5)) x iq) m5) = Some m'"
    using assms by (rule running_parts)
  have "modulation_q m2 = modulation_q m" using modulation_requested [OF r(1)] by (simp add: clarke_input_def Let_def modulation_q_def)
  then have "modulation_q m5 = modulation_q m" using modulation_sensor_running [OF r(2)] unfolding r(3) by (simp split: if_split_asm)
  then have "targets m' = limit_currents (foc_conf m) (modulation_q m) x iq"
    using targets_control_current [OF r(4)] by (simp add: targets_def modulation_q_def set_targets_def)
  then show ?thesis by blast
qed

lemma running_isr:
  assumes h: "mcpwm_foc_adc_inj_int_handler b i m = Some m'" and run: "foc_state m = MC_STATE_RUNNING"
    and meas: "\<not> measure_inductance_now (foc_samples m)"
  obtains m4 m5 dt ia ib pd where "foc_conf m4 = foc_conf m" "modulation_q m4 = modulation_q m" "running_step b i dt ia ib pd m4 = Some m5"
    "finish_isr i dt m5 = Some m'"
proof -
  define m1 where "m1 = snd (read_currents b i (foc_emit watchdog_reset m))"
  have s: "foc_samples m1 = foc_samples m"
    by (simp add: m1_def read_currents_def foc_emit_def Let_def)
  have f: "foc_conf (read_sensors b i m1) = foc_conf m" "modulation_q (read_sensors b i m1) = modulation_q m" "foc_state (read_sensors b i m1) = foc_state m"
    by (auto simp: read_sensors_def m1_def read_currents_def foc_emit_def Let_def modulation_q_def split: option.split)
  then have g: "foc_conf ((read_sensors b i m1)\<lparr>phase_before := p\<rparr>) = foc_conf m"
    "modulation_q ((read_sensors b i m1)\<lparr>phase_before := p\<rparr>) = modulation_q m"
    "foc_state ((read_sensors b i m1)\<lparr>phase_before := p\<rparr>) = MC_STATE_RUNNING" for p using run by (simp_all add: modulation_q_def)
  from h show ?thesis
    unfolding mcpwm_foc_adc_inj_int_handler_def Let_def case_prod_unfold m1_def [symmetric] s g(3)
    by (elim bind_SomeE if_SomeE) (use meas in blast, erule (1) that [OF g(1,2)], simp)
qed

end
