(* ===== verification/FocTotal.thy ===== *)
theory FocTotal
  imports FocLimits ConfDefault
begin

text \<open>
  The interrupt returns: under ratings far beyond those of the hardware no loop runs forever, nothing is divided by zero and no
  conversion overflows, in every control mode and with every position sensor.
\<close>

section \<open>Bounds that survive rounding\<close>

lemma abs_add_le: "\<bar>x\<bar> \<le> A \<Longrightarrow> \<bar>y\<bar> \<le> B \<Longrightarrow> \<bar>x + y\<bar> \<le> A + (B :: real)" by linarith
lemma abs_diff_le: "\<bar>x\<bar> \<le> A \<Longrightarrow> \<bar>y\<bar> \<le> B \<Longrightarrow> \<bar>x - y\<bar> \<le> A + (B :: real)" by linarith

lemma ratio_le_one:
  assumes "\<bar>u\<bar> \<le> v"
  shows "\<bar>fl (fl u / fl v)\<bar> \<le> 1"
proof -
  have "\<bar>fl u\<bar> \<le> fl v" using fl_mono [OF assms] f32.rnd_abs [of u] by simp
  then have "\<bar>fl u / fl v\<bar> \<le> 1" unfolding abs_divide using divide_le_eq_1_pos [of "\<bar>fl v\<bar>" "\<bar>fl u\<bar>"] by (cases "fl v = 0") auto
  then show ?thesis by (rule fl_le_one)
qed

lemma atan2_bound: "\<bar>utils_fast_atan2 y x\<bar> \<le> 5"
proof -
  define a where "a = fl (\<bar>y\<bar> + fl (1 / 10 ^ 10))"
  have a: "0 \<le> a" unfolding a_def by (intro f32.rnd_nonneg add_nonneg_nonneg) (auto intro: f32.rnd_nonneg)
  define r where "r = (if x \<ge> 0 then fl (fl (x - a) / fl (x + a)) else fl (fl (x + a) / fl (a - x)))"
  have r: "\<bar>r\<bar> \<le> 1" unfolding r_def using a by (auto intro!: ratio_le_one)
  define k where "k = fl (fl (fl 0.1963 * fl (r * r)) - fl 0.9817)"
  have "\<bar>fl (fl 0.1963 * fl (r * r))\<bar> \<le> 1"
    using abs_mult_le [OF fl_le_one fl_le_one, of "0.1963" "r * r"] abs_mult_le [OF r r] by (intro fl_le_one) simp
  then have k: "\<bar>k\<bar> \<le> 2" unfolding k_def using fl_le_one [of "0.9817"] by (intro fl_le_numeral abs_diff_le [THEN order_trans]) auto
  have q: "\<bar>fl (k * r)\<bar> \<le> 2" using abs_mult_le [OF k r] by (intro fl_le_numeral) auto
  have m: "\<bar>M_PI\<bar> \<le> 4" using turn_bounds by simp
  have c: "\<bar>fl (M_PI / 4)\<bar> \<le> 3" "\<bar>fl (fl (3 * M_PI) / 4)\<bar> \<le> 3"
    using m fl_le_numeral [of "3 * M_PI" "num.Bit0 (num.Bit0 num.One)"] fl_le_numeral [of "3 * M_PI" "num.Bit0 (num.Bit1 (num.Bit1 num.One))"]
    by (intro fl_le_numeral; simp)+
  have "\<bar>fl (fl (k * r) + fl (M_PI / 4))\<bar> \<le> 5" "\<bar>fl (fl (k * r) + fl (fl (3 * M_PI) / 4))\<bar> \<le> 5"
    using q c by (intro fl_le_numeral; linarith)+
  then show ?thesis
    unfolding utils_fast_atan2_def Let_def a_def [symmetric] r_def [symmetric] k_def [symmetric] by auto
qed

lemma observe_phase: "\<bar>foc_phase_now_observer (observe dt m)\<bar> \<le> 5"
  by (simp add: observe_def observer_update_def Let_def case_prod_unfold atan2_bound)

section \<open>The position sensors\<close>

text \<open>Angles that the loops of \<open>utils.c\<close> reduce.\<close>

lemma wrap_diff_total:
  assumes "\<bar>a\<bar> \<le> 10000" "\<bar>b\<bar> \<le> 10000"
  shows "\<exists>d. wrap_rad (fl (a - b)) = Some d \<and> \<bar>d\<bar> \<le> M_PI"
proof -
  have "\<bar>fl (a - b)\<bar> \<le> 200000" using assms by (intro fl_le_numeral) auto
  then show ?thesis by (intro wrap_rad_total) simp
qed

lemma read_hall_range: "read_hall h < 8"
  by (cases h) (auto simp: read_hall_def of_bool_def push_bit_eq_mult)

lemma hall_angle_bound: "0 \<le> k \<Longrightarrow> k \<le> 255 \<Longrightarrow> \<bar>hall_angle k\<bar> \<le> 100"
proof -
  assume k: "0 \<le> k" "k \<le> 255"
  have m: "\<bar>M_PI\<bar> \<le> 4" using turn_bounds by simp
  have "\<bar>fl (of_int k / 200)\<bar> \<le> 2" using k by (intro fl_le_numeral) auto
  then have "\<bar>fl (fl (of_int k / 200) * 360)\<bar> \<le> 720" using abs_mult_le [of "fl (of_int k / 200)" 2 360 360] by (intro fl_le_numeral) auto
  then have "\<bar>fl (fl (fl (of_int k / 200) * 360) * M_PI)\<bar> \<le> 2880" using abs_mult_le [OF _ m] by (intro fl_le_numeral) force+
  then show ?thesis unfolding hall_angle_def by (intro fl_le_numeral) auto
qed

lemma hall_interpolate_total:
  assumes "0 \<le> k" "k < 201" "prev \<le> 200" "\<bar>ah0\<bar> \<le> 10000" "\<bar>fl (speed * dt)\<bar> \<le> 10000" "\<bar>angle\<bar> \<le> 10000"
  shows "\<exists>a. hall_interpolate k prev ah0 angle rpm speed dt = Some a \<and> \<bar>a\<bar> \<le> 10000"
proof -
  define ah where "ah = (if prev < 0 then (let prev' = k in if prev' = -2 then angle else hall_angle k)
    else if k \<noteq> prev then hall_angle (ang_avg k prev) else ah0)"
  have now: "\<bar>hall_angle k\<bar> \<le> 100" using assms by (intro hall_angle_bound) auto
  have "0 \<le> ang_avg k prev" "ang_avg k prev \<le> 255" by (simp_all add: ang_avg_def Let_def order.strict_implies_order [OF order.strict_trans2 [OF pos_mod_bound]])
  then have ah: "\<bar>ah\<bar> \<le> 10000" unfolding ah_def using now assms(4,6) hall_angle_bound [of "ang_avg k prev"] by auto
  obtain d where d: "utils_angle_difference_rad ah (hall_angle k) = Some d" "\<bar>d\<bar> \<le> M_PI"
    unfolding angle_difference_rad_is_wrap using wrap_diff_total [OF ah, of "hall_angle k"] now by auto
  define ah' where "ah' = (if rpm < 100 then hall_angle k else if \<bar>d\<bar> < fl (fl (2 * M_PI) / 12) then fl (ah + fl (speed * dt)) else fl (ah - fl (d / 100)))"
  have "\<bar>fl (d / 100)\<bar> \<le> 1" using d(2) turn_bounds by (intro fl_le_one) auto
  then have "\<bar>ah'\<bar> \<le> 200000" unfolding ah'_def using now ah assms(5) by (auto intro!: fl_le_numeral)
  then obtain a where "utils_norm_angle_rad ah' = Some a" "\<bar>a\<bar> \<le> M_PI" using wrap_rad_total [of ah'] unfolding norm_angle_rad_is_wrap by auto
  moreover have "hall_interpolate k prev ah0 angle rpm speed dt = utils_norm_angle_rad ah'"
    unfolding hall_interpolate_def Let_def ah_def [unfolded Let_def, symmetric] ah'_def using d(1) by simp
  ultimately show ?thesis using turn_bounds by auto
qed

definition angle_ok :: "real \<Rightarrow> bool" where "angle_ok x \<longleftrightarrow> \<bar>x\<bar> \<le> 10000"

definition phases_ok :: "foc \<Rightarrow> bool" where
  "phases_ok m \<longleftrightarrow> angle_ok (ms_phase (foc_motor_state m)) \<and> angle_ok (foc_phase_now_encoder m) \<and> angle_ok (foc_phase_now_encoder_no_index m) \<and>
     angle_ok (foc_phase_now_override m) \<and> angle_ok (foc_phase_now_observer_override m) \<and> angle_ok (foc_phase_now_observer m) \<and> angle_ok (ang_hall m) \<and>
     length (foc_hall_table (foc_conf m)) = 8 \<and> ang_hall_int_prev m \<le> 200"

lemma correct_hall_total:
  assumes "phases_ok m" "angle_ok (fl (speed * dt))"
  shows "\<exists>p m'. correct_hall h (foc_phase_now_observer m) speed dt m = Some (p, m') \<and> angle_ok p"
proof -
  let ?e = "foc_hall_table (foc_conf m) ! read_hall h"
  note a = assms [unfolded phases_ok_def angle_ok_def]
  have e: "arr_get (foc_hall_table (foc_conf m)) (read_hall h) = Some ?e" using a read_hall_range [of h] by (simp add: arr_get_def)
  have "\<exists>p. hall_interpolate (uint ?e) (ang_hall_int_prev m) (ang_hall m) (foc_phase_now_observer m) (rpm_of speed) speed dt = Some p \<and> \<bar>p\<bar> \<le> 10000"
    if "uint ?e < 201" using a that by (intro hall_interpolate_total) auto
  then show ?thesis using a unfolding correct_hall_def Let_def e angle_ok_def by (auto simp: angle_ok_def)
qed

text \<open>The loops that follow the current controller depend on these variables.\<close>

definition tracking :: "foc \<Rightarrow> (real \<times> real \<times> real \<times> real) \<times> (real \<times> real \<times> real \<times> real) \<times> mc_configuration \<times> mc_state" where
  "tracking m = ((foc_pll_phase m, foc_pll_speed m, phase_last m, angle_last m),
     (foc_pos_pid_now m, foc_pos_pid_set m, pos_dt_int m, pos_prev_error m), foc_conf m, foc_state m)"

lemma tracking_simps [simp]:
  "tracking (set_phase p m) = tracking m" "tracking (observe dt m) = tracking m" "tracking (m\<lparr>foc_phase_now_observer := q\<rparr>) = tracking m"
  "tracking (snd (correct_encoder a b v m)) = tracking m" "tracking (m\<lparr>foc_motor_state := st\<rparr>) = tracking m"
  "tracking (m\<lparr>foc_motor_state := st, foc_events := ev, foc_output_on := oo\<rparr>) = tracking m"
  by (simp_all add: tracking_def set_phase_def observe_def correct_encoder_def Let_def case_prod_unfold)

lemma tracking_correct_hall: "correct_hall h a v dt m = Some (p, m') \<Longrightarrow> tracking m' = tracking m \<and> foc_motor_state m' = foc_motor_state m"
  unfolding correct_hall_def Let_def by (elim runE) (simp_all add: tracking_def)

lemma tracking_duty_control:
  "duty_control b v dt d m = Some (iq, m') \<Longrightarrow> tracking m' = tracking m \<and>
     (\<exists>md. foc_motor_state m' = (foc_motor_state m)\<lparr>ms_max_duty := md\<rparr>) \<and> phases_ok m' = phases_ok m \<and> foc_phase_override m' = foc_phase_override m"
  unfolding duty_control_def Let_def
  by (elim runE) (auto simp: tracking_def phases_ok_def intro: exI [of _ d] exI [of _ "ms_max_duty (foc_motor_state m)"])

lemma encoder_motor_state [simp]: "foc_motor_state (snd (correct_encoder a b v m)) = foc_motor_state m"
  "foc_phase_override (snd (correct_encoder a b v m)) = foc_phase_override m"
  "foc_phase_now_override (snd (correct_encoder a b v m)) = foc_phase_now_override m"
  by (simp_all add: correct_encoder_def Let_def)

lemma correct_encoder_fst: "fst (correct_encoder a b v m) = a \<or> fst (correct_encoder a b v m) = b"
  by (simp add: correct_encoder_def Let_def)

section \<open>The running branch\<close>

text \<open>The d-axis current that the sensorless mode injects.\<close>

lemma injected_bound:
  assumes "\<bar>x\<bar> < d" "1 / 1000 \<le> d" "d \<le> 10" "\<bar>om\<bar> \<le> 100000"
  shows "\<bar>utils_map \<bar>x\<bar> 0 d om 0\<bar> \<le> 10000000000"
proof -
  have x: "\<bar>fl (\<bar>x\<bar> - 0)\<bar> \<le> 10" using assms by (intro fl_le_numeral) auto
  have o: "\<bar>fl (0 - om)\<bar> \<le> 100000" using assms by (intro fl_le_numeral) auto
  have p: "\<bar>fl (fl (\<bar>x\<bar> - 0) * fl (0 - om))\<bar> \<le> 1000000" using abs_mult_le [OF x o] by (intro fl_le_numeral) auto
  have d: "1 / 2000 \<le> fl (d - 0)" using fl_shrink [of d] assms by simp
  have "\<bar>fl (fl (\<bar>x\<bar> - 0) * fl (0 - om)) / fl (d - 0)\<bar> \<le> 1000000 / (1 / 2000)"
    unfolding abs_divide using p d by (intro frac_le) auto
  then have "\<bar>fl (fl (fl (\<bar>x\<bar> - 0) * fl (0 - om)) / fl (d - 0))\<bar> \<le> 4000000000" using fl_crude [of _ 2000000000] by force
  then have "\<bar>fl (fl (fl (\<bar>x\<bar> - 0) * fl (0 - om)) / fl (d - 0)) + om\<bar> \<le> 5000000000" using assms(4) by linarith
  then show ?thesis unfolding utils_map_def using fl_crude [of _ 5000000000] by force
qed

definition sensorless_ok :: "foc \<Rightarrow> bool" where
  "sensorless_ok m \<longleftrightarrow> (foc_sl_d_current_duty (foc_conf m) \<le> 0 \<or> 1 / 1000 \<le> foc_sl_d_current_duty (foc_conf m)) \<and> foc_sl_d_current_duty (foc_conf m) \<le> 10 \<and>
     \<bar>foc_sl_d_current_factor (foc_conf m)\<bar> \<le> 10 \<and> \<bar>ms_iq_target (foc_motor_state m)\<bar> \<le> 10000"

lemma sensor_running_total:
  assumes "phases_ok m" "angle_ok (fl (foc_pll_speed m * dt))" "sensorless_ok m" "\<bar>x\<bar> \<le> 10000000000"
  shows "\<exists>y m' p. sensor_phase_running i dt x m = Some (y, m') \<and> \<bar>y\<bar> \<le> 10000000000 \<and> tracking m' = tracking m \<and>
     foc_motor_state m' = (foc_motor_state m)\<lparr>ms_phase := p\<rparr> \<and> angle_ok p \<and> foc_phase_now_override m' = foc_phase_now_override m"
proof -
  note a = assms(1) [unfolded phases_ok_def]
  have st: "st = st\<lparr>ms_phase := ms_phase st\<rparr>" for st :: motor_state_t by simp
  show ?thesis
  proof (cases "foc_sensor_mode (foc_conf m)")
    case FOC_SENSOR_MODE_SENSORLESS
    have "\<bar>fl (\<bar>ms_iq_target (foc_motor_state m)\<bar> * foc_sl_d_current_factor (foc_conf m))\<bar> \<le> 100000"
      using abs_mult_le [of "\<bar>ms_iq_target (foc_motor_state m)\<bar>" 10000 "foc_sl_d_current_factor (foc_conf m)" 10] assms(3)
      unfolding sensorless_ok_def by (intro fl_le_numeral) auto
    then have u: "\<bar>utils_map \<bar>ms_duty_now (foc_motor_state m)\<bar> 0 (foc_sl_d_current_duty (foc_conf m))
        (fl (\<bar>ms_iq_target (foc_motor_state m)\<bar> * foc_sl_d_current_factor (foc_conf m))) 0\<bar> \<le> 10000000000"
      if "\<bar>ms_duty_now (foc_motor_state m)\<bar> < foc_sl_d_current_duty (foc_conf m)"
      using injected_bound [OF that] assms(3) order.strict_trans1 [OF abs_ge_zero that] unfolding sensorless_ok_def by fastforce
    let ?p = "if foc_phase_observer_override m then foc_phase_now_observer_override m else foc_phase_now_observer m"
    obtain y where y: "sensor_phase_running i dt x m = Some (y, set_phase ?p m)" "\<bar>y\<bar> \<le> 10000000000"
      using FOC_SENSOR_MODE_SENSORLESS u assms(4) by (auto simp: sensor_phase_running_def Let_def)
    then show ?thesis using a by (intro exI [of _ y] exI [of _ "set_phase ?p m"] exI [of _ ?p]) (simp add: set_phase_def tracking_def)
  next
    case FOC_SENSOR_MODE_ENCODER
    then show ?thesis using assms(4) a correct_encoder_fst [of "foc_phase_now_observer m" "foc_phase_now_encoder m" "foc_pll_speed m" m]
      by (auto simp: sensor_phase_running_def case_prod_unfold set_phase_def tracking_def correct_encoder_def Let_def intro!: exI)
  next
    case FOC_SENSOR_MODE_HALL
    obtain p m' where h: "correct_hall (in_hall i) (foc_phase_now_observer m) (foc_pll_speed m) dt m = Some (p, m')" "angle_ok p"
      using correct_hall_total [OF assms(1,2)] by blast
    have "foc_phase_now_override m' = foc_phase_now_override m"
      using h(1) unfolding correct_hall_def Let_def by (elim runE) simp_all
    then show ?thesis using FOC_SENSOR_MODE_HALL assms(4) h tracking_correct_hall [OF h(1)]
      by (auto simp: sensor_phase_running_def set_phase_def tracking_def intro!: exI)
  next
    case (mc_foc_sensor_mode_other k)
    then show ?thesis using assms(4) a st by (auto simp: sensor_phase_running_def intro!: exI)
  qed
qed

definition drive_ok :: "foc \<Rightarrow> bool" where
  "drive_ok m \<longleftrightarrow> (let st = foc_motor_state m; cf = foc_conf m in
     \<bar>ms_vd st\<bar> \<le> 10000 \<and> \<bar>ms_vq st\<bar> \<le> 10000 \<and> \<bar>foc_current_kp cf\<bar> \<le> 10000 \<and>
     \<bar>foc_current_ki cf\<bar> \<le> 1000000 \<and> 0 \<le> l_max_duty cf \<and> l_max_duty cf \<le> 99 / 100 \<and> limits_ok cf \<and>
     lo_current_max cf \<le> 5000 \<and> - 5000 \<le> lo_current_min cf \<and> \<bar>foc_id_set m\<bar> \<le> 10000000000)"

lemma clarke_bound:
  assumes "\<bar>ia\<bar> \<le> 1000" "\<bar>ib\<bar> \<le> 1000"
  shows "\<bar>fl (fl (ONE_BY_SQRT3 * ia) + fl (TWO_BY_SQRT3 * ib))\<bar> \<le> 3000"
proof -
  have c: "\<bar>ONE_BY_SQRT3\<bar> \<le> 1" "\<bar>TWO_BY_SQRT3\<bar> \<le> 2" using one_by_sqrt3 two_by_sqrt3 s3_bounds(1,2) unfolding abs_le_iff by simp_all
  have "\<bar>fl (ONE_BY_SQRT3 * ia)\<bar> \<le> 1000" "\<bar>fl (TWO_BY_SQRT3 * ib)\<bar> \<le> 2000"
    using abs_mult_le [OF c(1) assms(1)] abs_mult_le [OF c(2) assms(2)] by (intro fl_le_numeral; simp)+
  then show ?thesis by (intro fl_le_numeral) auto
qed

lemma limited_targets:
  assumes "limit_currents cf q x y = (x', y')" "limits_ok cf" "\<bar>x\<bar> \<le> 10000000000" "lo_current_max cf \<le> 5000" "- 5000 \<le> lo_current_min cf"
  shows "\<bar>x'\<bar> \<le> 10000" "\<bar>y'\<bar> \<le> 10000"
proof -
  note l = limit_currents_ok [OF assms(1,2)]
  show "\<bar>y'\<bar> \<le> 10000" using l(1,2) assms(4,5) by auto
  have "fits x" using assms(3) by (simp add: fits_def)
  then have "sqrt (x'\<^sup>2 + y'\<^sup>2) \<le> lo_current_max cf * (1 + 1 / 2 ^ 18) + 1 / 2 ^ 40" by (rule l(4))
  then have "sqrt (x'\<^sup>2 + y'\<^sup>2) \<le> 10000" using assms(4) by simp
  then show "\<bar>x'\<bar> \<le> 10000" using real_sqrt_ge_abs1 [of x' y'] by (rule order_trans [rotated])
qed

text \<open>What the steps before the current controller leave alone in the motor state.\<close>

definition electrical :: "foc \<Rightarrow> (real \<times> real \<times> real) \<times> (real \<times> real \<times> real)" where
  "electrical m = (let st = foc_motor_state m in
     ((ms_v_bus st, ms_vd st, ms_vq st), (ms_i_alpha st, ms_i_beta st, ms_iq_target st)))"

lemma duty_control_total: "GET_INPUT_VOLTAGE b v \<noteq> 0 \<Longrightarrow> \<exists>iq m'. duty_control b v dt d m = Some (iq, m')"
  unfolding duty_control_def Let_def fdiv_def by simp

lemma electrical_observe [simp]: "electrical (observe dt m) = electrical m"
  by (simp add: electrical_def observe_def Let_def case_prod_unfold)

lemma requested_total:
  assumes "GET_INPUT_VOLTAGE b v \<noteq> 0"
  shows "\<exists>iq m'. requested_current b v dt pd m = Some (iq, m') \<and> tracking m' = tracking m \<and> electrical m' = electrical m \<and>
     phases_ok m' = phases_ok m"
proof (cases "fst (duty_request m)")
  case True
  obtain iq m' where d: "duty_control b v dt (snd (duty_request m)) m = Some (iq, m')"
    using assms duty_control_total by blast
  then show ?thesis using True tracking_duty_control [OF d]
    by (auto simp: requested_current_def case_prod_unfold electrical_def Let_def)
next
  case False
  then show ?thesis by (simp add: requested_current_def case_prod_unfold)
qed

lemma phases_observe: "phases_ok m \<Longrightarrow> phases_ok (observe dt m)"
  using observe_phase [of dt m] by (auto simp: phases_ok_def angle_ok_def observe_def Let_def case_prod_unfold)

text \<open>Targets that come out of the limits, from a request of the d axis that the arithmetic can square.\<close>

definition limited_request :: "foc \<Rightarrow> foc \<Rightarrow> bool" where
  "limited_request m m' \<longleftrightarrow> (\<exists>x y. fits x \<and> targets m' = limit_currents (foc_conf m) (modulation_q m) x y)"

lemma limited_request_ok:
  assumes "limited_request m m'" "limits_ok (foc_conf m)"
  shows "lo_current_min (foc_conf m) \<le> ms_iq_target (foc_motor_state m')" "ms_iq_target (foc_motor_state m') \<le> lo_current_max (foc_conf m)"
    "battery_ok (foc_conf m) (ms_mod_q (foc_motor_state m)) (ms_iq_target (foc_motor_state m'))"
    "sqrt ((ms_id_target (foc_motor_state m'))\<^sup>2 + (ms_iq_target (foc_motor_state m'))\<^sup>2) \<le> lo_current_max (foc_conf m) * (1 + 1 / 2 ^ 18) + 1 / 2 ^ 40"
proof -
  obtain x y where x: "fits x" and "limit_currents (foc_conf m) (modulation_q m) x y = (ms_id_target (foc_motor_state m'), ms_iq_target (foc_motor_state m'))"
    using assms(1) unfolding limited_request_def targets_def by metis
  note l = limit_currents_ok [OF this(2) assms(2)]
  from l(1-3) l(4) [OF x] show "lo_current_min (foc_conf m) \<le> ms_iq_target (foc_motor_state m')" "ms_iq_target (foc_motor_state m') \<le> lo_current_max (foc_conf m)"
    "battery_ok (foc_conf m) (ms_mod_q (foc_motor_state m)) (ms_iq_target (foc_motor_state m'))"
    "sqrt ((ms_id_target (foc_motor_state m'))\<^sup>2 + (ms_iq_target (foc_motor_state m'))\<^sup>2) \<le> lo_current_max (foc_conf m) * (1 + 1 / 2 ^ 18) + 1 / 2 ^ 40"
    by (simp_all add: modulation_q_def)
qed

lemma running_step_total:
  assumes ph: "phases_ok m" "angle_ok (fl (foc_pll_speed m * dt))" "sensorless_ok m" and dr: "drive_ok m"
    and bus: "1 / 100 \<le> ms_v_bus (foc_motor_state m)" "ms_v_bus (foc_motor_state m) \<le> 1000" and dt: "0 < dt" "dt \<le> 1 / 100"
    and c: "\<bar>ia\<bar> \<le> 1000" "\<bar>ib\<bar> \<le> 1000" and v: "GET_INPUT_VOLTAGE b (in_vin_again i) \<noteq> 0" and arr: "unat (in_arr i) \<le> 65535"
  shows "\<exists>m'. running_step b i dt ia ib pd m = Some m' \<and> tracking m' = tracking m \<and> angle_ok (ms_phase (foc_motor_state m')) \<and>
     limited_request m m'"
proof -
  let ?m1 = "clarke_input ia ib m"
  obtain iq m2 where 2: "requested_current b (in_vin_again i) dt pd ?m1 = Some (iq, m2)"
    "tracking m2 = tracking ?m1" "electrical m2 = electrical ?m1" "phases_ok m2 = phases_ok ?m1" using requested_total [OF v] by blast
  have 1: "tracking ?m1 = tracking m" "phases_ok ?m1" "electrical ?m1 = ((ms_v_bus (foc_motor_state m), ms_vd (foc_motor_state m), ms_vq (foc_motor_state m)),
      (ia, fl (fl (ONE_BY_SQRT3 * ia) + fl (TWO_BY_SQRT3 * ib)), ms_iq_target (foc_motor_state m)))"
    using ph(1) by (simp_all add: clarke_input_def Let_def tracking_def phases_ok_def electrical_def)
  define m3 where "m3 = (if \<not> foc_phase_override m2 then observe dt m2 else m2)"
  have 3: "tracking m3 = tracking m" "phases_ok m3" "electrical m3 = electrical ?m1"
    using 1 2 phases_observe by (simp_all add: m3_def)
  have "foc_pll_speed m3 = foc_pll_speed m" "foc_conf m3 = foc_conf m" using 3(1) by (auto simp: tracking_def)
  moreover from this have "sensorless_ok m3" using ph(3) 3(3) 1(3) by (simp add: sensorless_ok_def electrical_def Let_def)
  moreover have "\<bar>foc_id_set m\<bar> \<le> 10000000000" using dr by (simp add: drive_ok_def Let_def)
  ultimately obtain x m4 p where 4: "sensor_phase_running i dt (foc_id_set m) m3 = Some (x, m4)" "\<bar>x\<bar> \<le> 10000000000"
    "tracking m4 = tracking m3" "foc_motor_state m4 = (foc_motor_state m3)\<lparr>ms_phase := p\<rparr>" "angle_ok p" "foc_phase_now_override m4 = foc_phase_now_override m3"
    using sensor_running_total [OF 3(2)] ph(2) by metis
  define m5 where "m5 = (if foc_phase_override m4 then set_phase (foc_phase_now_override m4) m4 else m4)"
  have 5: "tracking m5 = tracking m" "electrical m5 = electrical ?m1" "angle_ok (ms_phase (foc_motor_state m5))"
    using 4 3 by (auto simp: m5_def electrical_def set_phase_def phases_ok_def tracking_def Let_def)
  obtain x' y' where l: "limit_currents (foc_conf m) (ms_mod_q (foc_motor_state m5)) x iq = (x', y')" by fastforce
  note d = dr [unfolded drive_ok_def Let_def]
  have xy: "\<bar>x'\<bar> \<le> 10000" "\<bar>y'\<bar> \<le> 10000" using limited_targets [OF l _ 4(2)] d by auto
  have cf: "foc_conf m5 = foc_conf m" using 5(1) by (simp add: tracking_def)
  have "\<bar>fl (foc_current_ki (foc_conf m) * dt)\<bar> \<le> 10000"
    using abs_mult_le [of "foc_current_ki (foc_conf m)" 1000000 dt "1 / 100"] d dt by (intro fl_le_numeral) auto
  then have "within_ratings dt (set_targets (x', y') m5)"
    using bus 5(2,3) 1(3) d cf xy c clarke_bound [OF c] unfolding within_ratings_def set_targets_def electrical_def angle_ok_def Let_def by simp
  then obtain m' where m': "control_current (in_arr i) dt (set_targets (x', y') m5) = Some m'" using control_current_drives arr by blast
  have "running_step b i dt ia ib pd m = Some m'"
    unfolding running_step_def using 2(1) 4(1) l m' by (simp add: m3_def [symmetric] m5_def [symmetric])
  moreover have "tracking m' = tracking m \<and> ms_phase (foc_motor_state m') = ms_phase (foc_motor_state m5)"
    using m' by (rule control_current_frame) (use 5(1) in \<open>simp add: set_targets_def\<close>)
  moreover have "modulation_q m5 = modulation_q m"
    using modulation_requested [OF 2(1)] modulation_sensor_running [OF 4(1)] by (simp add: m5_def m3_def clarke_input_def Let_def modulation_q_def set_phase_def observe_def case_prod_unfold split: if_split_asm)
  then have "targets m' = limit_currents (foc_conf m) (modulation_q m) x iq"
    using targets_control_current [OF m'] l by (simp add: targets_def modulation_q_def set_targets_def)
  then have "limited_request m m'" unfolding limited_request_def using 4(2) by (intro exI [of _ x] exI [of _ iq]) (simp add: fits_def)
  ultimately show ?thesis using 5(3) by auto
qed

section \<open>The undriven branch and the rest of the interrupt\<close>

lemma sensor_undriven_total:
  assumes "phases_ok m" "angle_ok (fl (foc_pll_speed m * dt))"
  shows "\<exists>m'. sensor_phase_undriven i dt m = Some m' \<and> tracking m' = tracking m \<and> angle_ok (ms_phase (foc_motor_state m'))"
proof (cases "foc_sensor_mode (foc_conf m)")
  case FOC_SENSOR_MODE_HALL
  obtain p m' where h: "correct_hall (in_hall i) (foc_phase_now_observer m) (foc_pll_speed m) dt m = Some (p, m')" "angle_ok p"
    using correct_hall_total [OF assms] by blast
  then show ?thesis using FOC_SENSOR_MODE_HALL tracking_correct_hall [OF h(1)]
    by (auto simp: sensor_phase_undriven_def set_phase_def tracking_def)
next
  case FOC_SENSOR_MODE_ENCODER
  then show ?thesis using assms(1) correct_encoder_fst [of "foc_phase_now_observer m" "foc_phase_now_encoder m" "foc_pll_speed m" m]
    by (auto simp: sensor_phase_undriven_def case_prod_unfold set_phase_def tracking_def correct_encoder_def Let_def phases_ok_def)
qed (use assms(1) in \<open>auto simp: sensor_phase_undriven_def set_phase_def tracking_def phases_ok_def\<close>)

lemma undriven_step_total:
  assumes "phases_ok m" "angle_ok (fl (foc_pll_speed m * dt))" "1 / 100 \<le> ms_v_bus (foc_motor_state m)"
  shows "\<exists>m'. undriven_step b i dt m = Some m' \<and> tracking m' = tracking m \<and> angle_ok (ms_phase (foc_motor_state m'))"
proof -
  obtain s c where sc: "utils_fast_sincos_better (ms_phase (foc_motor_state m)) = Some (s, c)"
    using assms(1) sincos_total [of "ms_phase (foc_motor_state m)"] by (auto simp: phases_ok_def angle_ok_def)
  have D: "fl (fl (2 / 3) * ms_v_bus (foc_motor_state m)) \<noteq> 0" using bus_fraction [OF assms(3)] by simp
  have "\<exists>m1. undriven_step b i dt m = sensor_phase_undriven i dt (observe dt m1) \<and> tracking m1 = tracking m \<and> phases_ok m1"
    unfolding undriven_step_def Let_def sc using D assms(1)
    by (auto simp: fdiv_def tracking_def phases_ok_def intro!: exI [of _ "m\<lparr>foc_motor_state := _\<rparr>"])
  then obtain m1 where m1: "undriven_step b i dt m = sensor_phase_undriven i dt (observe dt m1)" "tracking m1 = tracking m" "phases_ok m1" by blast
  have "foc_pll_speed (observe dt m1) = foc_pll_speed m" using m1(2) tracking_simps(2) [of dt m1] by (simp add: tracking_def)
  then show ?thesis using sensor_undriven_total [OF phases_observe [OF m1(3)], of dt dt i] assms(2) m1 by simp
qed

definition tracking_ok :: "foc \<Rightarrow> bool" where
  "tracking_ok m \<longleftrightarrow> angle_ok (foc_pll_phase m) \<and> angle_ok (phase_last m) \<and> angle_ok (angle_last m) \<and> angle_ok (foc_pos_pid_now m) \<and>
     angle_ok (foc_pos_pid_set m) \<and> \<bar>foc_pll_speed m\<bar> \<le> 1000000 \<and> \<bar>foc_pll_kp (foc_conf m)\<bar> \<le> 10000 \<and>
     p_pid_ang_div (foc_conf m) \<noteq> 0 \<and> 0 \<le> pos_dt_int m"

lemma pll_total:
  assumes "angle_ok p" "angle_ok q" "\<bar>v\<bar> \<le> 1000000" "\<bar>foc_pll_kp c\<bar> \<le> 10000" "0 < dt" "dt \<le> 1 / 100"
  shows "\<exists>r. pll_run c p dt (q, v) = Some r"
proof -
  obtain d where d: "wrap_rad (fl (p - q)) = Some d" "\<bar>d\<bar> \<le> 4" using wrap_diff_total [of p q] assms(1,2) turn_bounds unfolding angle_ok_def by force
  have "\<bar>fl (foc_pll_kp c * d)\<bar> \<le> 400000" using abs_mult_le [OF assms(4) d(2)] by (intro fl_le_numeral) auto
  then have "\<bar>fl (v + fl (foc_pll_kp c * d))\<bar> \<le> 2000000" using assms(3) by (intro fl_le_numeral) auto
  then have "\<bar>fl (fl (v + fl (foc_pll_kp c * d)) * dt)\<bar> \<le> 20000" using abs_mult_le [of _ 2000000 dt "1 / 100"] assms(5,6) by (intro fl_le_numeral) force+
  then have "\<bar>fl (q + fl (fl (v + fl (foc_pll_kp c * d)) * dt))\<bar> \<le> 200000" using assms(2) unfolding angle_ok_def by (intro fl_le_numeral) auto
  then obtain r where "wrap_rad (fl (q + fl (fl (v + fl (foc_pll_kp c * d)) * dt))) = Some r"
    using wrap_rad_total [of "fl (q + fl (fl (v + fl (foc_pll_kp c * d)) * dt))"] by auto
  then show ?thesis using d(1) by (simp add: pll_run_def norm_angle_rad_is_wrap)
qed

lemma deg_per_rad: "\<bar>DEG_PER_RAD\<bar> \<le> 60"
  using turn_bounds by (intro fl_le_numeral) (auto simp: abs_divide divide_le_eq)

lemma tachometer_total:
  assumes "angle_ok (ms_phase (foc_motor_state m))" "angle_ok (phase_last m)"
  shows "\<exists>m'. update_tachometer m = Some m' \<and> foc_conf m' = foc_conf m \<and> foc_state m' = foc_state m \<and> angle_last m' = angle_last m \<and>
     foc_pos_pid_now m' = foc_pos_pid_now m \<and> foc_pos_pid_set m' = foc_pos_pid_set m \<and> pos_dt_int m' = pos_dt_int m \<and>
     foc_motor_state m' = foc_motor_state m"
proof -
  obtain d where d: "wrap_rad (fl (ms_phase (foc_motor_state m) - phase_last m)) = Some d" "\<bar>d\<bar> \<le> 4"
    using wrap_diff_total [of "ms_phase (foc_motor_state m)" "phase_last m"] assms turn_bounds unfolding angle_ok_def by force
  have "\<bar>fl (d * DEG_PER_RAD)\<bar> \<le> 240" using abs_mult_le [OF d(2) deg_per_rad] by (intro fl_le_numeral) auto
  then have "\<bar>fl (fl (d * DEG_PER_RAD) / 60)\<bar> \<le> 4" by (intro fl_le_numeral) auto
  then have "\<bar>ftrunc (fl (fl (d * DEG_PER_RAD) / 60))\<bar> \<le> 4" unfolding ftrunc_def by (auto simp: abs_le_iff) linarith+
  then have "\<exists>k. f2i32 (fl (fl (d * DEG_PER_RAD) / 60)) = Some k" unfolding f2i32_def by auto
  then show ?thesis using d(1) by (auto simp: update_tachometer_def Let_def angle_difference_rad_is_wrap)
qed

lemma norm_angle_bound: "\<bar>utils_norm_angle x\<bar> \<le> 720"
  unfolding utils_norm_angle_def Let_def using fmodf_bounds [of 360 x] by (auto intro!: fl_le_numeral)

lemma track_position_total:
  assumes "angle_ok (ms_phase (foc_motor_state m))" "angle_ok (angle_last m)" "p_pid_ang_div (foc_conf m) \<noteq> 0" "\<And>e. in_encoder i = Some e \<Longrightarrow> angle_ok e"
  shows "\<exists>m'. track_position i m = Some m' \<and> foc_conf m' = foc_conf m \<and> foc_state m' = foc_state m \<and> \<bar>foc_pos_pid_now m'\<bar> \<le> 700000 \<and>
     foc_pos_pid_set m' = foc_pos_pid_set m \<and> pos_dt_int m' = pos_dt_int m"
proof -
  define a where "a = (case in_encoder i of Some enc_ang \<Rightarrow> enc_ang | None \<Rightarrow> fl (ms_phase (foc_motor_state m) * DEG_PER_RAD))"
  have "\<bar>fl (ms_phase (foc_motor_state m) * DEG_PER_RAD)\<bar> \<le> 600000"
    using abs_mult_le [OF _ deg_per_rad, of "ms_phase (foc_motor_state m)" 10000] assms(1) unfolding angle_ok_def by (intro fl_le_numeral) auto
  then have a: "\<bar>a\<bar> \<le> 600000" unfolding a_def using assms(4) by (auto simp: angle_ok_def split: option.split)
  then have "\<bar>fl (a - angle_last m)\<bar> \<le> 700000" using assms(2) unfolding angle_ok_def by (intro fl_le_numeral) auto
  then obtain d where d: "utils_angle_difference a (angle_last m) = Some d" using angle_difference_total [of a "angle_last m"] by auto
  show ?thesis
  proof (cases "p_pid_ang_div (foc_conf m) > fl 0.98 \<and> p_pid_ang_div (foc_conf m) < fl 1.02")
    case True
    then show ?thesis using a unfolding track_position_def Let_def a_def [symmetric] by (simp only: if_True) simp
  next
    case False
    have "\<bar>utils_norm_angle z\<bar> \<le> 700000" for z using norm_angle_bound [of z] by simp
    then show ?thesis using False d assms(3) unfolding track_position_def Let_def a_def [symmetric] by (simp only: if_False d) (simp add: fdiv_def)
  qed
qed

lemma pid_pos_total:
  assumes "\<bar>a\<bar> \<le> 700000" "angle_ok s" "0 \<le> pos_dt_int m" "1 / 10000000 \<le> dt"
  shows "\<exists>m'. run_pid_control_pos i a s dt m = Some m'"
proof -
  have "\<bar>fl (s - a)\<bar> \<le> 800000" using assms(1,2) unfolding angle_ok_def by (intro fl_le_numeral) auto
  then obtain d where d: "utils_angle_difference s a = Some d" using angle_difference_total [of s a] by auto
  have "1 / 2 ^ 78 \<le> pos_dt_int m + dt" using assms(3,4) by simp
  then have n: "fl (pos_dt_int m + dt) \<noteq> 0" using fl_shrink [of "pos_dt_int m + dt"] assms(3,4) by (simp add: field_simps)
  show ?thesis unfolding run_pid_control_pos_def Let_def d fdiv_def using n by (cases "foc_control_mode m = CONTROL_MODE_POS") (simp_all split: prod.split)
qed

lemma finish_total:
  assumes ph: "angle_ok (ms_phase (foc_motor_state m))" and tr: "tracking_ok m" and e: "\<And>e. in_encoder i = Some e \<Longrightarrow> angle_ok e"
    and dt: "1 / 10000000 \<le> dt" "dt \<le> 1 / 100"
  shows "\<exists>m'. finish_isr i dt m = Some m'"
proof -
  note t = tr [unfolded tracking_ok_def]
  let ?m1 = "update_duty_now m"
  have m1: "ms_phase (foc_motor_state ?m1) = ms_phase (foc_motor_state m)" "tracking ?m1 = tracking m" by (simp_all add: update_duty_now_def Let_def)
  obtain p v where p: "pll_run (foc_conf ?m1) (ms_phase (foc_motor_state ?m1)) dt (foc_pll_phase ?m1, foc_pll_speed ?m1) = Some (p, v)"
    using pll_total [of "ms_phase (foc_motor_state ?m1)" "foc_pll_phase ?m1" "foc_pll_speed ?m1" "foc_conf ?m1" dt] m1 ph t dt
    by (fastforce simp: tracking_def)
  let ?m1' = "?m1\<lparr>foc_pll_phase := p, foc_pll_speed := v\<rparr>"
  obtain m2 where m2: "update_tachometer ?m1' = Some m2" "foc_conf m2 = foc_conf m" "foc_state m2 = foc_state m" "angle_last m2 = angle_last m"
    "foc_pos_pid_now m2 = foc_pos_pid_now m" "foc_pos_pid_set m2 = foc_pos_pid_set m" "pos_dt_int m2 = pos_dt_int m"
    "ms_phase (foc_motor_state m2) = ms_phase (foc_motor_state m)"
    using tachometer_total [of ?m1'] m1 ph t by (auto simp: tracking_def)
  obtain m3 where m3: "track_position i m2 = Some m3" "foc_pos_pid_set m3 = foc_pos_pid_set m" "pos_dt_int m3 = pos_dt_int m"
    "\<bar>foc_pos_pid_now m3\<bar> \<le> 700000"
    using track_position_total [OF _ _ _ e, of m2] m2 ph t by auto
  obtain m4 where "(if foc_state m3 = MC_STATE_RUNNING then run_pid_control_pos i (foc_pos_pid_now m3) (foc_pos_pid_set m3) dt m3 else Some m3) = Some m4"
    using pid_pos_total [OF m3(4), of "foc_pos_pid_set m3" m3 dt i] m3 t dt by (cases "foc_state m3 = MC_STATE_RUNNING") auto
  then show ?thesis unfolding finish_isr_def Let_def p using m2(1) m3(1) by simp
qed

section \<open>The whole interrupt\<close>

definition isr_ok :: "board \<Rightarrow> foc_in \<Rightarrow> foc \<Rightarrow> bool" where
  "isr_ok b i m \<longleftrightarrow>
     1000 \<le> foc_f_sw (foc_conf m) \<and> foc_f_sw (foc_conf m) \<le> 1000000 \<and> unat (in_arr i) \<le> 65535 \<and>
     0 \<le> measure_inductance_duty (foc_samples m) \<and> measure_inductance_duty (foc_samples m) \<le> 1 \<and>
     1 / 100 \<le> GET_INPUT_VOLTAGE b (in_vin i) \<and> GET_INPUT_VOLTAGE b (in_vin i) \<le> 1000 \<and> GET_INPUT_VOLTAGE b (in_vin_again i) \<noteq> 0 \<and>
     \<bar>fst (fst (read_currents b i m))\<bar> \<le> 1000 \<and> \<bar>snd (fst (read_currents b i m))\<bar> \<le> 1000 \<and>
     (\<forall>e. in_encoder i = Some e \<longrightarrow> angle_ok e) \<and> angle_ok (phase_before m) \<and>
     phases_ok m \<and> sensorless_ok m \<and> drive_ok m \<and> tracking_ok m"

lemma period_bounds:
  assumes "1000 \<le> f" "f \<le> 1000000"
  shows "\<exists>dt. fdiv 1 (fl (f / 2)) = Some dt \<and> 1 / 10000000 \<le> dt \<and> dt \<le> 1 / 100"
proof -
  have h: "400 \<le> fl (f / 2)" "\<bar>fl (f / 2)\<bar> \<le> 500000" using assms fl_within [of "f / 2" 500000] by (simp, intro fl_le_numeral) auto
  then have q: "1 / 500000 \<le> 1 / fl (f / 2)" "1 / fl (f / 2) \<le> 1 / 400" by (auto simp: field_simps)
  define z where "z = 1 / fl (f / 2)"
  have "fl z \<le> 1 / 100" "1 / 10000000 \<le> fl z"
    using q fl_within [of z "1 / 400"] fl_shrink [of z] unfolding z_def [symmetric] by simp_all
  then show ?thesis using h by (simp add: fdiv_def z_def)
qed

lemma inductance_total:
  assumes "0 \<le> measure_inductance_duty (foc_samples m)" "measure_inductance_duty (foc_samples m) \<le> 1" "unat (in_arr i) \<le> 65535"
  shows "\<exists>m'. inductance_step b i ia ib m = Some m'"
proof -
  let ?a = "fl (real (unat (in_arr i)))" and ?d = "measure_inductance_duty (foc_samples m)"
  have a: "0 \<le> ?a" "\<bar>?a\<bar> \<le> 65535" 
    using assms(3) by (intro f32.rnd_nonneg of_nat_0_le_iff, intro fl_le_numeral) (simp_all del: of_nat_unat)
  have "0 \<le> fl (?a * ?d)" using a assms(1) by (intro f32.rnd_nonneg) simp
  moreover have "\<bar>fl (?a * ?d)\<bar> \<le> 65535" using abs_mult_le [OF a(2), of ?d 1] assms(1,2) by (intro fl_le_numeral) auto
  ultimately have "0 \<le> ftrunc (fl (?a * ?d))" "ftrunc (fl (?a * ?d)) < 2 ^ 32" unfolding ftrunc_def by (auto simp: floor_less_iff)
  then obtain w where "f2u32 (fl (?a * ?d)) = Some w" by (auto simp: f2u32_def Let_def)
  then show ?thesis by (simp add: inductance_step_def Let_def)
qed

lemma read_currents_watchdog: "fst (read_currents b i (foc_emit e m)) = fst (read_currents b i m)"
  by (simp add: read_currents_def foc_emit_def Let_def)

lemma encoder_phase_bound: "angle_ok (encoder_phase c e)"
proof -
  have k: "\<bar>fl (M_PI / 180)\<bar> \<le> 1" using turn_bounds by (intro fl_le_one) auto
  show ?thesis unfolding encoder_phase_def Let_def angle_ok_def
    by (intro fl_le_numeral order_trans [OF abs_mult_le [OF norm_angle_bound k]]) simp_all
qed

lemma isr_total_lemma:
  assumes ok: "isr_ok b i m"
  shows "\<exists>m'. mcpwm_foc_adc_inj_int_handler b i m = Some m' \<and>
     (foc_state m = MC_STATE_RUNNING \<and> \<not> measure_inductance_now (foc_samples m) \<longrightarrow> limited_request m m')"
proof -
  note o = ok [unfolded isr_ok_def]
  obtain dt where dt: "fdiv 1 (fl (foc_f_sw (foc_conf m) / 2)) = Some dt" "1 / 10000000 \<le> dt" "dt \<le> 1 / 100" using period_bounds o by blast
  define m1 where "m1 = snd (read_currents b i (foc_emit watchdog_reset m))"
  obtain ia ib where c: "read_currents b i (foc_emit watchdog_reset m) = ((ia, ib), m1)" "\<bar>ia\<bar> \<le> 1000" "\<bar>ib\<bar> \<le> 1000"
    using o read_currents_watchdog [of b i watchdog_reset m] unfolding m1_def by (metis prod.collapse)
  have s: "foc_samples m1 = foc_samples m" by (simp add: m1_def read_currents_def foc_emit_def Let_def)
  define m3 where "m3 = read_sensors b i m1"
  have m3: "phases_ok m3" "sensorless_ok m3" "drive_ok m3" "tracking m3 = tracking m" "phase_before m3 = phase_before m"
    "ms_phase (foc_motor_state m3) = ms_phase (foc_motor_state m)" "ms_v_bus (foc_motor_state m3) = GET_INPUT_VOLTAGE b (in_vin i)"
    using o encoder_phase_bound unfolding m3_def m1_def phases_ok_def sensorless_ok_def drive_ok_def Let_def tracking_def
    by (auto simp: read_sensors_def read_currents_def foc_emit_def Let_def split: option.split)
  obtain pd where pd: "utils_angle_difference_rad (ms_phase (foc_motor_state m3)) (phase_before m3) = Some pd"
    using wrap_diff_total [of "ms_phase (foc_motor_state m3)" "phase_before m3"] o m3(5,6) unfolding angle_difference_rad_is_wrap phases_ok_def angle_ok_def by auto
  define m4 where "m4 = m3\<lparr>phase_before := ms_phase (foc_motor_state m3)\<rparr>"
  have m4: "phases_ok m4" "sensorless_ok m4" "drive_ok m4" "tracking m4 = tracking m"
    "1 / 100 \<le> ms_v_bus (foc_motor_state m4)" "ms_v_bus (foc_motor_state m4) \<le> 1000"
    using m3 o unfolding m4_def phases_ok_def sensorless_ok_def drive_ok_def Let_def tracking_def by simp_all
  have "\<bar>foc_pll_speed m4\<bar> \<le> 1000000" using m4(4) o by (simp add: tracking_def tracking_ok_def)
  then have sp: "angle_ok (fl (foc_pll_speed m4 * dt))"
    using abs_mult_le [of "foc_pll_speed m4" 1000000 dt "1 / 100"] dt(2,3) unfolding angle_ok_def by (intro fl_le_numeral) auto
  obtain m5 where m5: "(if foc_state m4 = MC_STATE_RUNNING then running_step b i dt ia ib pd m4 else undriven_step b i dt m4) = Some m5"
    "tracking m5 = tracking m" "angle_ok (ms_phase (foc_motor_state m5))" "foc_state m4 = MC_STATE_RUNNING \<longrightarrow> limited_request m4 m5"
    using running_step_total [OF m4(1) sp m4(2,3,5,6) _ dt(3) c(2,3), of b i pd] undriven_step_total [OF m4(1) sp m4(5), of b i] m4(4) dt(2) o
    by (cases "foc_state m4 = MC_STATE_RUNNING") auto
  have "tracking_ok m5" using m5(2) o by (simp add: tracking_def tracking_ok_def)
  then obtain m' where f: "finish_isr i dt m5 = Some m'" using finish_total [OF m5(3) _ _ dt(2,3), of i] o by auto
  have "foc_conf m4 = foc_conf m" "foc_state m4 = foc_state m" using m4(4) by (simp_all add: tracking_def)
  moreover have "modulation_q m4 = modulation_q m"
    by (auto simp: m4_def m3_def m1_def read_sensors_def read_currents_def foc_emit_def Let_def modulation_q_def split: option.split)
  ultimately have "foc_state m = MC_STATE_RUNNING \<longrightarrow> limited_request m m'" using m5(4) targets_finish [OF f] by (simp add: limited_request_def)
  then show ?thesis
    using f inductance_total [of m1 i b ia ib] o s dt(1) c(1) pd m5(1)
    unfolding mcpwm_foc_adc_inj_int_handler_def Let_def by (auto simp: m3_def [symmetric] m4_def [symmetric])
qed

section \<open>A concrete motor\<close>

definition sample_motor :: foc where
  "sample_motor = mcpwm_foc_set_duty (1 / 10)
     (foc_init_vars conf_general_get_default_mc_configuration (foc_boot conf_general_get_default_mc_configuration))"

definition sample_in :: foc_in where
  "sample_in = \<lparr>in_curr0 = 0, in_curr1 = 0, in_vin = 1000, in_vin_again = 1000, in_sens1 = 0, in_sens2 = 0, in_sens3 = 0,
     in_encoder = None, in_index_found = False, in_hall = (True, False, False), in_arr = 8400, in_tim12_cnt = 0\<rparr>"

lemma sample_voltage: "10 \<le> GET_INPUT_VOLTAGE hw_410 1000" "GET_INPUT_VOLTAGE hw_410 1000 \<le> 20"
proof -
  have v: "3.29 \<le> fl 3.3" "fl 3.3 \<le> 3.31" using fl_within [of "3.3" 4] by simp_all
  define a where "a = fl (fl 3.3 / 4095)"
  have a: "0.0008 \<le> a" "a \<le> 0.00081" unfolding a_def using v fl_within [of "fl 3.3 / 4095" 1] fl_shrink [of "fl 3.3 / 4095"] by simp_all
  define x where "x = fl (a * 1000)"
  have x: "0.79 \<le> x" "x \<le> 0.82" unfolding x_def using a fl_within [of "a * 1000" 1] by simp_all
  define k where "k = fl (41200 / 2200)"
  have k: "18.7 \<le> k" "k \<le> 18.8" unfolding k_def using fl_within [of "41200 / 2200" 20] by simp_all
  have "0.79 * 18.7 \<le> x * k" "x * k \<le> 0.82 * 18.8" using x k by (intro mult_mono; simp)+
  then have "10 \<le> fl (x * k)" "fl (x * k) \<le> 20" using fl_within [of "x * k" 20] by simp_all
  moreover have "GET_INPUT_VOLTAGE hw_410 1000 = fl (x * k)"
    unfolding GET_INPUT_VOLTAGE_def hw_410_def x_def a_def k_def by simp
  ultimately show "10 \<le> GET_INPUT_VOLTAGE hw_410 1000" "GET_INPUT_VOLTAGE hw_410 1000 \<le> 20" by simp_all
qed

lemma sample_phase_current: "phase_current b 0 = 0"
  by (simp add: phase_current_def)

lemma fl_between: "l \<le> x \<Longrightarrow> x \<le> h \<Longrightarrow> is_f32 l \<Longrightarrow> is_f32 h \<Longrightarrow> l \<le> fl x \<and> fl x \<le> h"
  by (blast intro: f32.rnd_le f32.rnd_ge)

lemma sample_isr_ok: "isr_ok hw_410 sample_in sample_motor"
proof -
  have d: "0 \<le> fl (95 / 100)" "fl (95 / 100) \<le> 99 / 100" "0 \<le> fl (3 / 100)" "fl (3 / 100) \<le> 1"
    using fl_within [of "95 / 100" 1] fl_within [of "3 / 100" 1] by simp_all
  have f: "is_f32 60" "is_f32 (- 60)" "is_f32 20" using is_f32_numeral is_f32_minus by simp_all
  show ?thesis
    unfolding isr_ok_def phases_ok_def sensorless_ok_def drive_ok_def tracking_ok_def limits_ok_def
    using sample_voltage d f
    by (simp add: sample_motor_def sample_in_def mcpwm_foc_set_duty_def foc_run_def foc_init_vars_def foc_boot_def motor_state_zero_def
        mc_sample_zero_def conf_general_get_default_mc_configuration_def read_currents_def sample_phase_current angle_ok_def fits_def Let_def
        MCCONF_FOC_F_SW_def MCCONF_FOC_SL_D_CURRENT_DUTY_def MCCONF_FOC_SL_D_CURRENT_FACTOR_def MCCONF_FOC_CURRENT_KP_def MCCONF_FOC_CURRENT_KI_def
        MCCONF_L_MAX_DUTY_def MCCONF_L_CURRENT_MAX_def MCCONF_L_CURRENT_MIN_def MCCONF_L_IN_CURRENT_MAX_def MCCONF_L_IN_CURRENT_MIN_def
        MCCONF_FOC_PLL_KP_def MCCONF_P_PID_ANG_DIV_def)
qed

section \<open>Properties\<close>

lemma sample_inv: "foc_inv sample_motor"
  unfolding sample_motor_def by (rule command_inv [OF boot_inv])

text \<open>C3: Within the ratings the current controller always produces compare values, they are within the period of the timer, the outputs are
  on afterwards, and the modulation and the voltage integrators are limited by the maximum duty cycle of the moment (the smaller of the stored and
  the configured one): the length of the modulation is at most half the root of three times that duty cycle, the length of the integrators at most a
  third of the root of three times the duty cycle and the bus voltage, up to rounding; in any case they are below 0.858 and 0.6 of the bus
  voltage, within the circle of the space vector modulation.\<close>

theorem control_current_safe:
  assumes "within_ratings dt m" "unat arr \<le> 65535"
  shows "\<exists>m'. control_current arr dt m = Some m' \<and> drives arr m m'"
  by (rule control_current_drives [OF assms])

lemma sample_ratings: "within_ratings (1 / 10000) (sample_motor\<lparr>foc_motor_state := motor_state_zero\<lparr>ms_v_bus := 15, ms_iq_target := 10\<rparr>\<rparr>)"
proof -
  have "0 \<le> fl (95 / 100)" "fl (95 / 100) \<le> 99 / 100" "\<bar>fl (1 / 200)\<bar> \<le> 1" "\<bar>fl (3 / 100)\<bar> \<le> 1"
    using fl_within [of "95 / 100" 1] by (simp_all add: fl_le_one)
  then show ?thesis
    unfolding within_ratings_def
    by (simp add: sample_motor_def mcpwm_foc_set_duty_def foc_run_def foc_init_vars_def foc_boot_def motor_state_zero_def
        conf_general_get_default_mc_configuration_def Let_def MCCONF_FOC_CURRENT_KP_def MCCONF_FOC_CURRENT_KI_def MCCONF_L_MAX_DUTY_def)
qed

theorem control_current_safe_witness:
  "\<exists>m'. control_current 8400 (1 / 10000) (sample_motor\<lparr>foc_motor_state := motor_state_zero\<lparr>ms_v_bus := 15, ms_iq_target := 10\<rparr>\<rparr>) = Some m' \<and>
     drives 8400 (sample_motor\<lparr>foc_motor_state := motor_state_zero\<lparr>ms_v_bus := 15, ms_iq_target := 10\<rparr>\<rparr>) m'"
  by (rule control_current_safe [OF sample_ratings]) simp

text \<open>C15: The injected-conversion interrupt returns, running, undriven or measuring the inductance, in every control mode and with every
  position sensor, and keeps the invariant of the driver: within ratings far beyond those of the hardware no angle loop runs forever, nothing is
  divided by zero, no conversion overflows and the compare values exist.\<close>

theorem isr_returns:
  assumes "isr_ok b i m" "foc_inv m"
  shows "\<exists>m'. mcpwm_foc_adc_inj_int_handler b i m = Some m' \<and> foc_inv m' \<and> foc_state m' = foc_state m"
  using isr_total_lemma [OF assms(1)] isr_inv [OF _ assms(2), of b i] by blast

theorem isr_returns_witness:
  "\<exists>m'. mcpwm_foc_adc_inj_int_handler hw_410 sample_in sample_motor = Some m' \<and> foc_inv m' \<and> foc_state m' = MC_STATE_RUNNING"
proof -
  have "foc_state sample_motor = MC_STATE_RUNNING" by (simp add: sample_motor_def mcpwm_foc_set_duty_def foc_run_def)
  then show ?thesis using isr_returns [OF sample_isr_ok sample_inv] by simp
qed

text \<open>C13: Within the ratings, in every control mode and with every position sensor, whatever was commanded, the interrupt of the running motor
  returns with targets for the current controller that respect the limits of the motor current: the torque current is between the minimum and the
  maximum, the length of the vector of both targets is at most the maximum, and the power from and to the battery, the product of the torque
  current with the modulation, is within the limits of the input current, the last two up to rounding.\<close>

theorem targets_limited:
  assumes "isr_ok b i m" "foc_state m = MC_STATE_RUNNING" "\<not> measure_inductance_now (foc_samples m)"
  shows "\<exists>m'. mcpwm_foc_adc_inj_int_handler b i m = Some m' \<and>
         lo_current_min (foc_conf m) \<le> ms_iq_target (foc_motor_state m') \<and> ms_iq_target (foc_motor_state m') \<le> lo_current_max (foc_conf m) \<and>
         sqrt ((ms_id_target (foc_motor_state m'))\<^sup>2 + (ms_iq_target (foc_motor_state m'))\<^sup>2)
           \<le> lo_current_max (foc_conf m) * (1 + 1 / 2 ^ 18) + 1 / 2 ^ 40 \<and>
         battery_ok (foc_conf m) (ms_mod_q (foc_motor_state m)) (ms_iq_target (foc_motor_state m'))"
proof -
  have "limits_ok (foc_conf m)" using assms(1) by (simp add: isr_ok_def drive_ok_def Let_def)
  then show ?thesis using isr_total_lemma [OF assms(1)] assms(2,3) limited_request_ok by blast
qed

theorem targets_limited_witness:
  "\<exists>m'. mcpwm_foc_adc_inj_int_handler hw_410 sample_in sample_motor = Some m' \<and>
     - 60 \<le> ms_iq_target (foc_motor_state m') \<and> ms_iq_target (foc_motor_state m') \<le> 60 \<and>
     sqrt ((ms_id_target (foc_motor_state m'))\<^sup>2 + (ms_iq_target (foc_motor_state m'))\<^sup>2) \<le> 61"
proof -
  have s: "foc_state sample_motor = MC_STATE_RUNNING" "\<not> measure_inductance_now (foc_samples sample_motor)"
    "lo_current_min (foc_conf sample_motor) = - 60" "lo_current_max (foc_conf sample_motor) = 60"
    by (simp_all add: sample_motor_def mcpwm_foc_set_duty_def foc_run_def foc_init_vars_def mc_sample_zero_def
        conf_general_get_default_mc_configuration_def MCCONF_L_CURRENT_MAX_def MCCONF_L_CURRENT_MIN_def)
  have "60 * (1 + 1 / 2 ^ 18) + 1 / 2 ^ 40 \<le> (61 :: real)" by simp
  then show ?thesis using targets_limited [OF sample_isr_ok s(1,2)] unfolding s(3,4) by (meson order_trans)
qed

end
