(* ===== verification/FocStart.thy ===== *)
theory FocStart
  imports FocTotal
begin

text \<open>
  The start of the field-oriented driver: \<open>mcpwm_foc_init\<close> returns once 4000 interrupts of the resting motor have been served, with the mean of their
  samples as the offsets, and the states of the driver from there on.
\<close>

section \<open>Interrupts of the resting motor\<close>

text \<open>A sensorless configuration within the ratings, and a conversion with a supply voltage and no encoder.\<close>

definition rest_conf :: "mc_configuration \<Rightarrow> bool" where
  "rest_conf c \<longleftrightarrow> foc_sensor_mode c = FOC_SENSOR_MODE_SENSORLESS \<and> 1000 \<le> foc_f_sw c \<and> foc_f_sw c \<le> 1000000 \<and>
     \<bar>foc_pll_kp c\<bar> \<le> 10000 \<and> \<bar>foc_pll_ki c\<bar> \<le> 20000 \<and> fl 0.98 < p_pid_ang_div c \<and> p_pid_ang_div c < fl 1.02"

definition rest_in :: "board \<Rightarrow> foc_in \<Rightarrow> bool" where
  "rest_in b i \<longleftrightarrow> 1 / 100 \<le> GET_INPUT_VOLTAGE b (in_vin i) \<and> in_encoder i = None"

text \<open>The driver after \<open>n\<close> of these interrupts: the speed that the PLL has found grows by at most 240 rad/s with each of them.\<close>

definition resting :: "mc_configuration \<Rightarrow> nat \<Rightarrow> foc \<Rightarrow> bool" where
  "resting c n m \<longleftrightarrow> foc_conf m = c \<and> foc_state m = MC_STATE_OFF \<and> \<not> measure_inductance_now (foc_samples m) \<and>
     angle_ok (ms_phase (foc_motor_state m)) \<and> angle_ok (phase_before m) \<and> angle_ok (foc_pll_phase m) \<and> angle_ok (phase_last m) \<and>
     \<bar>foc_pll_speed m\<bar> \<le> real (240 * n)"

lemma undriven_rest:
  assumes "angle_ok (ms_phase (foc_motor_state m))" "1 / 100 \<le> ms_v_bus (foc_motor_state m)" "foc_sensor_mode (foc_conf m) = FOC_SENSOR_MODE_SENSORLESS"
  shows "\<exists>m'. undriven_step b i dt m = Some m' \<and> tracking m' = tracking m \<and> angle_ok (ms_phase (foc_motor_state m')) \<and>
     foc_samples m' = foc_samples m \<and> phase_before m' = phase_before m"
proof -
  obtain s c where sc: "utils_fast_sincos_better (ms_phase (foc_motor_state m)) = Some (s, c)"
    using assms(1) sincos_total [of "ms_phase (foc_motor_state m)"] by (auto simp: angle_ok_def)
  have D: "fl (fl (2 / 3) * ms_v_bus (foc_motor_state m)) \<noteq> 0" using bus_fraction [OF assms(2)] by simp
  have f: "foc_samples (observe dt m1) = foc_samples m1 \<and> phase_before (observe dt m1) = phase_before m1 \<and> foc_conf (observe dt m1) = foc_conf m1" for m1
    by (simp add: observe_def Let_def case_prod_unfold)
  have "\<exists>m1. undriven_step b i dt m = Some (set_phase (foc_phase_now_observer (observe dt m1)) (observe dt m1)) \<and> tracking m1 = tracking m \<and>
      foc_samples m1 = foc_samples m \<and> phase_before m1 = phase_before m"
    unfolding undriven_step_def Let_def sc sensor_phase_undriven_def using D assms(3) f
    by (auto simp: fdiv_def tracking_def intro!: exI [of _ "m\<lparr>foc_motor_state := _\<rparr>"])
  then obtain m1 where m1: "undriven_step b i dt m = Some (set_phase (foc_phase_now_observer (observe dt m1)) (observe dt m1))"
    "tracking m1 = tracking m" "foc_samples m1 = foc_samples m" "phase_before m1 = phase_before m" by blast
  then show ?thesis using observe_phase [of dt m1] f [of m1] by (simp add: set_phase_def angle_ok_def)
qed

lemma pll_rest:
  assumes "rest_conf c" "angle_ok p" "angle_ok q" "\<bar>v\<bar> \<le> real (240 * n)" "n < 4000" "0 < dt" "dt \<le> 1 / 400"
  shows "\<exists>q' v'. pll_run c p dt (q, v) = Some (q', v') \<and> angle_ok q' \<and> \<bar>v'\<bar> \<le> real (240 * Suc n)"
proof -
  note c = assms(1) [unfolded rest_conf_def]
  obtain d where d: "wrap_rad (fl (p - q)) = Some d" "\<bar>d\<bar> \<le> 22 / 7"
    using wrap_diff_total [of p q] assms(2,3) turn_bounds unfolding angle_ok_def by force
  have v: "\<bar>v\<bar> \<le> 960000" using assms(4,5) by simp
  have "\<bar>fl (foc_pll_kp c * d)\<bar> \<le> 40000" using abs_mult_le [OF _ d(2), of "foc_pll_kp c" 10000] c by (intro fl_le_numeral) auto
  then have "\<bar>fl (v + fl (foc_pll_kp c * d))\<bar> \<le> 1000000" using v by (intro fl_le_numeral) auto
  then have "\<bar>fl (fl (v + fl (foc_pll_kp c * d)) * dt)\<bar> \<le> 2500" using abs_mult_le [of _ 1000000 dt "1 / 400"] assms(6,7) by (intro fl_le_numeral) force+
  then have "\<bar>fl (q + fl (fl (v + fl (foc_pll_kp c * d)) * dt))\<bar> \<le> 20000" using assms(3) unfolding angle_ok_def by (intro fl_le_numeral) auto
  then obtain r where r: "wrap_rad (fl (q + fl (fl (v + fl (foc_pll_kp c * d)) * dt))) = Some r" "\<bar>r\<bar> \<le> M_PI"
    using wrap_rad_total [of "fl (q + fl (fl (v + fl (foc_pll_kp c * d)) * dt))"] by auto
  have "\<bar>fl (foc_pll_ki c * d)\<bar> \<le> 64000" using abs_mult_le [OF _ d(2), of "foc_pll_ki c" 20000] c by (intro fl_le_numeral) auto
  then have s: "\<bar>fl (fl (foc_pll_ki c * d) * dt)\<bar> \<le> 160" using abs_mult_le [of _ 64000 dt "1 / 400"] assms(6,7) by (intro fl_le_numeral) force+
  have g: "is_f32 (real (240 * Suc n))" using is_f32_of_int [of "int (240 * Suc n)"] assms(5) by simp
  have "\<bar>v + fl (fl (foc_pll_ki c * d) * dt)\<bar> \<le> real (240 * Suc n)" using s assms(4) by simp
  then have "\<bar>fl (v + fl (fl (foc_pll_ki c * d) * dt))\<bar> \<le> real (240 * Suc n)"
    using f32.rnd_le [OF _ g] f32.rnd_ge [OF _ is_f32_minus [OF g]] unfolding abs_le_iff by (metis minus_le_iff)
  then show ?thesis using d(1) r turn_bounds by (simp add: pll_run_def norm_angle_rad_is_wrap angle_ok_def)
qed

lemma finish_rest:
  assumes "rest_conf (foc_conf m)" "rest_in b i" "resting (foc_conf m) n m" "n < 4000" "0 < dt" "dt \<le> 1 / 400"
  shows "\<exists>m'. finish_isr i dt m = Some m' \<and> resting (foc_conf m) (Suc n) m'"
proof -
  note r = assms(3) [unfolded resting_def] and c = assms(1) [unfolded rest_conf_def]
  let ?m1 = "update_duty_now m"
  have m1: "ms_phase (foc_motor_state ?m1) = ms_phase (foc_motor_state m)" "foc_conf ?m1 = foc_conf m" "foc_pll_phase ?m1 = foc_pll_phase m"
    "foc_pll_speed ?m1 = foc_pll_speed m" "phase_last ?m1 = phase_last m" "foc_state ?m1 = foc_state m" "foc_samples ?m1 = foc_samples m"
    "phase_before ?m1 = phase_before m"
    by (simp_all add: update_duty_now_def Let_def)
  obtain q v where p: "pll_run (foc_conf m) (ms_phase (foc_motor_state m)) dt (foc_pll_phase m, foc_pll_speed m) = Some (q, v)" "angle_ok q"
    "\<bar>v\<bar> \<le> real (240 * Suc n)"
    using pll_rest [OF assms(1), of "ms_phase (foc_motor_state m)" "foc_pll_phase m" "foc_pll_speed m" n dt] r assms(4-6) by blast
  let ?m1' = "?m1\<lparr>foc_pll_phase := q, foc_pll_speed := v\<rparr>"
  obtain m2 where m2: "update_tachometer ?m1' = Some m2" using tachometer_total [of ?m1'] m1 r by auto
  then have "m2 = ?m1'\<lparr>foc_tachometer := foc_tachometer m2, foc_tachometer_abs := foc_tachometer_abs m2, phase_last := phase_last m2\<rparr> \<and>
      (phase_last m2 = phase_last m \<or> phase_last m2 = ms_phase (foc_motor_state m))"
    unfolding update_tachometer_def Let_def by (elim bind_SomeE) (auto simp: m1)
  then obtain t ta pl where m2': "m2 = ?m1'\<lparr>foc_tachometer := t, foc_tachometer_abs := ta, phase_last := pl\<rparr>" "angle_ok pl" using r by metis
  show ?thesis
    unfolding finish_isr_def Let_def m1 p(1) using c r assms(2) p(2,3) m1
    by (simp add: m2) (simp add: m2' track_position_def rest_in_def resting_def foc_emit_def)
qed

lemma rest_period:
  assumes "1000 \<le> f" "f \<le> 1000000"
  shows "\<exists>dt. fdiv 1 (fl (f / 2)) = Some dt \<and> 0 < dt \<and> dt \<le> 1 / 400"
proof -
  have h: "500 \<le> fl (f / 2)" using assms by (intro f32.rnd_ge is_f32_numeral) simp_all
  then have q: "0 < 1 / fl (f / 2)" "1 / fl (f / 2) \<le> 1 / 500" by (auto simp: field_simps)
  obtain dt where dt: "fdiv 1 (fl (f / 2)) = Some dt" "1 / 10000000 \<le> dt" using period_bounds [OF assms] by blast
  moreover have "dt = fl (1 / fl (f / 2))" using dt(1) h by (simp add: fdiv_def)
  moreover define z where "z = 1 / fl (f / 2)"
  have "fl z \<le> 1 / 400" using q fl_within [of z "1 / 500"] unfolding z_def [symmetric] by simp
  ultimately show ?thesis by (auto simp: z_def)
qed

lemma isr_rest:
  assumes "rest_conf c" "rest_in b i" "resting c n m" "n < 4000"
  shows "\<exists>m'. mcpwm_foc_adc_inj_int_handler b i m = Some m' \<and> resting c (Suc n) m'"
proof -
  note c = assms(1) [unfolded rest_conf_def] and i = assms(2) [unfolded rest_in_def] and r = assms(3) [unfolded resting_def]
  obtain dt where dt: "fdiv 1 (fl (foc_f_sw c / 2)) = Some dt" "0 < dt" "dt \<le> 1 / 400" using rest_period c by blast
  define m1 where "m1 = snd (read_currents b i (foc_emit watchdog_reset m))"
  obtain ia ib where ci: "read_currents b i (foc_emit watchdog_reset m) = ((ia, ib), m1)" unfolding m1_def by (metis prod.collapse)
  define m4 where "m4 = (read_sensors b i m1)\<lparr>phase_before := ms_phase (foc_motor_state (read_sensors b i m1))\<rparr>"
  have m3: "ms_phase (foc_motor_state (read_sensors b i m1)) = ms_phase (foc_motor_state m)" "phase_before (read_sensors b i m1) = phase_before m"
    and s: "\<not> measure_inductance_now (foc_samples m1)"
    and m4: "resting c n m4" "ms_v_bus (foc_motor_state m4) = GET_INPUT_VOLTAGE b (in_vin i)"
    using r i by (simp_all add: m4_def m1_def read_sensors_def read_currents_def foc_emit_def Let_def resting_def)
  obtain pd where pd: "utils_angle_difference_rad (ms_phase (foc_motor_state m)) (phase_before m) = Some pd"
    using wrap_diff_total [of "ms_phase (foc_motor_state m)" "phase_before m"] r unfolding angle_difference_rad_is_wrap angle_ok_def by auto
  note r4 = m4(1) [unfolded resting_def]
  obtain m5 where m5: "undriven_step b i dt m4 = Some m5" "tracking m5 = tracking m4" "angle_ok (ms_phase (foc_motor_state m5))"
    "foc_samples m5 = foc_samples m4" "phase_before m5 = phase_before m4"
    using undriven_rest [of m4 b i dt] r4 m4(2) c i by auto
  have "resting c n m5" "foc_conf m5 = c" using r4 m5 by (auto simp: resting_def tracking_def)
  then obtain m' where "finish_isr i dt m5 = Some m'" "resting c (Suc n) m'" using finish_rest [of m5 b i n dt] assms dt by auto
  moreover have "mcpwm_foc_adc_inj_int_handler b i m = finish_isr i dt m5"
    unfolding mcpwm_foc_adc_inj_int_handler_def Let_def ci using r r4 s dt(1) pd m5(1) m3 by (simp add: m4_def)
  ultimately show ?thesis by simp
qed

lemma wait_rest:
  assumes "rest_conf c" "\<forall>i \<in> set ins. rest_in b i" "resting c n m" "foc_curr_samples m = of_nat n" "n \<le> 4000" "4000 \<le> n + length ins"
  shows "\<exists>m'. wait_samples b ins m = Some m'"
  using assms(2-)
proof (induction ins arbitrary: m n)
  case Nil
  then show ?case using samples_less [of n] by simp
next
  case (Cons i ins)
  show ?case
  proof (cases "n < 4000")
    case True
    obtain m1 where m1: "mcpwm_foc_adc_inj_int_handler b i m = Some m1" "resting c (Suc n) m1" using isr_rest [OF assms(1) _ Cons(3) True, of b i] Cons(2) by auto
    then have "foc_curr_samples m1 = of_nat (Suc n)" using isr_sums(1) [OF m1(1)] Cons(4) by (simp add: current_sums_def)
    then show ?thesis using Cons.IH [OF _ m1(2)] Cons(2,6) True m1(1) Cons(4) samples_less [of n] by simp
  next
    case False
    then show ?thesis using Cons(4,5) samples_less [of n] by simp
  qed
qed

section \<open>The initialisation\<close>

text \<open>The initialisation does not reset the static variables of the interrupt.\<close>

lemma init_total:
  assumes "rest_conf c" "\<forall>i \<in> set ins. rest_in b i" "4000 \<le> length ins" "angle_ok (phase_before m)" "angle_ok (phase_last m)"
  shows "\<exists>m'. mcpwm_foc_init b arr ins c m = Some m'"
proof -
  note c = assms(1) [unfolded rest_conf_def]
  have f: "1000 \<le> ftrunc (foc_f_sw c)" "ftrunc (foc_f_sw c) \<le> 1000000" using c unfolding ftrunc_def by (auto simp: le_floor_iff floor_le_iff)
  then have "sint (word_of_int (ftrunc (foc_f_sw c)) :: i32) = ftrunc (foc_f_sw c)" by (simp add: sint_sbintrunc' signed_take_bit_int_eq_self)
  then have "(word_of_int (ftrunc (foc_f_sw c)) :: i32) \<noteq> 0" using f by auto
  then have p: "\<exists>k. pwm_top c = Some k" using f by (simp add: pwm_top_def f2i32_def Let_def)
  define m0 where "m0 = TIMER_UPDATE_SAMP (arr - 2) 5 (stop_pwm_hw (foc_init_vars c m))"
  have "resting c 0 (m0\<lparr>foc_curr0_sum := 0, foc_curr1_sum := 0, foc_curr_samples := 0\<rparr>)"
    using assms(4,5) by (simp add: m0_def resting_def angle_ok_def foc_init_vars_def stop_pwm_hw_def foc_emit_def TIMER_UPDATE_SAMP_def mc_sample_zero_def motor_state_zero_def)
  then obtain m1 where "wait_samples b ins (m0\<lparr>foc_curr0_sum := 0, foc_curr1_sum := 0, foc_curr_samples := 0\<rparr>) = Some m1"
    using wait_rest [OF assms(1,2), of 0 "m0\<lparr>foc_curr0_sum := 0, foc_curr1_sum := 0, foc_curr_samples := 0\<rparr>"] assms(3) by auto
  then show ?thesis using p by (auto simp: mcpwm_foc_init_def do_dc_cal_def m0_def [symmetric])
qed

lemma boot_total:
  "\<exists>m0. mcpwm_foc_init hw_410 8400 (replicate 4000 sample_in) conf_general_get_default_mc_configuration
     (foc_boot conf_general_get_default_mc_configuration) = Some m0"
proof (rule init_total)
  show "rest_conf conf_general_get_default_mc_configuration"
    using fl_within [of "0.98" 1] fl_within [of "1.02" 2]
    by (simp add: rest_conf_def conf_general_get_default_mc_configuration_def MCCONF_FOC_SENSOR_MODE_def MCCONF_FOC_F_SW_def MCCONF_FOC_PLL_KP_def
        MCCONF_FOC_PLL_KI_def MCCONF_P_PID_ANG_DIV_def)
  show "\<forall>i \<in> set (replicate 4000 sample_in). rest_in hw_410 i"
    using sample_voltage by (simp add: rest_in_def sample_in_def)
qed (simp_all add: foc_boot_def angle_ok_def)

section \<open>Properties\<close>

text \<open>C14: Once the initialisation has returned, in every state reachable by commands, changes of the configuration, inductance
  measurements, interrupts, iterations of the timer thread and further initialisations in any order, the driver is calibrated with offsets in
  the range of the 16-bit samples, it is off or running, it has a control mode exactly when it runs, the outputs are switched only while it
  runs or an inductance pulse sequence is under way, and the integrators of the position, speed and duty-cycle controllers are within their
  limits.\<close>

theorem foc_states:
  assumes "mcpwm_foc_init b arr ins c (foc_boot c') = Some m0" "foc_reaches b m0 m"
  shows "foc_dccal_done m \<and> sint (foc_curr0_offset m) \<in> {0..65535} \<and> sint (foc_curr1_offset m) \<in> {0..65535} \<and>
         (foc_state m = MC_STATE_OFF \<and> foc_control_mode m = CONTROL_MODE_NONE \<or>
          foc_state m = MC_STATE_RUNNING \<and> foc_control_mode m \<noteq> CONTROL_MODE_NONE) \<and>
         (foc_output_on m \<longrightarrow> foc_state m = MC_STATE_RUNNING \<or> 0 < inductance_state m) \<and> inductance_state m \<le> 9 \<and>
         \<bar>pos_i_term m\<bar> \<le> 1 \<and> \<bar>speed_i_term m\<bar> \<le> 1 \<and> \<bar>duty_i_term m\<bar> \<le> 1 \<and> \<bar>duty_filtered m\<bar> \<le> 1"
proof -
  note i = init_inv [OF assms(1) boot_inv]
  show ?thesis using foc_reaches_inv [OF assms(2) i(1)] foc_reaches_calibrated [OF assms(2) i]
    unfolding foc_inv_def unit_range_def calibrated_def by auto
qed

theorem foc_states_witness:
  "\<exists>m0. mcpwm_foc_init hw_410 8400 (replicate 4000 sample_in) conf_general_get_default_mc_configuration
      (foc_boot conf_general_get_default_mc_configuration) = Some m0 \<and>
     foc_dccal_done (mcpwm_foc_set_duty (1 / 10) m0) \<and> foc_state (mcpwm_foc_set_duty (1 / 10) m0) = MC_STATE_RUNNING"
proof -
  obtain m0 where m0: "mcpwm_foc_init hw_410 8400 (replicate 4000 sample_in) conf_general_get_default_mc_configuration
      (foc_boot conf_general_get_default_mc_configuration) = Some m0" using boot_total by blast
  have "foc_dccal_done (mcpwm_foc_set_duty (1 / 10) m0)" using foc_states [OF m0 reach_step [OF reach_init step_duty]] by blast
  then show ?thesis using m0 by (auto simp: mcpwm_foc_set_duty_def foc_run_def)
qed

end
