(* ===== verification/Encoder.thy ===== *)
theory Encoder
  imports Utils Buffer
begin

text \<open>
  The rotor position sensors of \<open>encoder.c\<close>: an incremental encoder counted by a timer, with an index pulse, and an
  AS5047P magnetic sensor read over a software SPI in a timer interrupt.

  The state is the record \<open>encoder\<close>: the static variables, the counter and the period of the timer, and the
  accesses to the pins. The data pin is a function from the number of the clock pulse to its level.
\<close>

section \<open>State\<close>

datatype encoder_mode = ENCODER_MODE_NONE | ENCODER_MODE_ABI | ENCODER_MODE_AS5047P_SPI

datatype encoder_event = enc_pads_input | enc_tim_deinit | enc_tim_encoder | enc_exti_setup | enc_tim_base u32 | spi_cs bool | spi_sck bool

record encoder =
  index_found :: bool
  enc_counts :: u32
  enc_mode :: encoder_mode
  last_enc_angle :: real
  enc_angle :: real
  enc_tim_cnt :: u32
  enc_tim_arr :: u32
  enc_events :: "encoder_event list"

definition AS5047_SAMPLE_RATE_HZ :: u32 where "AS5047_SAMPLE_RATE_HZ = 20000"

definition encoder_start :: encoder where
  "encoder_start = \<lparr>index_found = False, enc_counts = 10000, enc_mode = ENCODER_MODE_NONE, last_enc_angle = 0, enc_angle = 0,
     enc_tim_cnt = 0, enc_tim_arr = 0, enc_events = []\<rparr>"

definition enc_emit :: "encoder_event list \<Rightarrow> encoder \<Rightarrow> encoder" where
  "enc_emit es s = s\<lparr>enc_events := enc_events s @ es\<rparr>"

section \<open>Operations\<close>

text \<open>\<open>TIM_DeInit\<close> clears the counter.\<close>

definition encoder_deinit :: "encoder \<Rightarrow> encoder" where
  "encoder_deinit s = (enc_emit [enc_tim_deinit, enc_pads_input] s)\<lparr>enc_tim_cnt := 0, index_found := False,
     enc_mode := ENCODER_MODE_NONE, last_enc_angle := 0\<rparr>"

definition TIM_SetAutoreload :: "u32 \<Rightarrow> encoder \<Rightarrow> encoder" where
  "TIM_SetAutoreload arr s = s\<lparr>enc_tim_arr := arr\<rparr>"

definition encoder_init_abi :: "u32 \<Rightarrow> encoder \<Rightarrow> encoder" where
  "encoder_init_abi counts s =
     (let s1 = s\<lparr>index_found := False, enc_counts := counts\<rparr>;
          s2 = TIM_SetAutoreload (counts - 1) (enc_emit [enc_tim_encoder] s1) in
      (enc_emit [enc_exti_setup] s2)\<lparr>enc_mode := ENCODER_MODE_ABI\<rparr>)"

definition encoder_init_as5047p_spi :: "encoder \<Rightarrow> encoder" where
  "encoder_init_as5047p_spi s =
     (enc_emit [enc_tim_base (168000000 div 2 div AS5047_SAMPLE_RATE_HZ - 1)] s)\<lparr>enc_mode := ENCODER_MODE_AS5047P_SPI, index_found := True\<rparr>"

definition encoder_is_configured :: "encoder \<Rightarrow> bool" where
  "encoder_is_configured s \<longleftrightarrow> enc_mode s \<noteq> ENCODER_MODE_NONE"

text \<open>The angle is a static variable of the function. Without counts the quotient is infinite or not a number.\<close>

definition encoder_read_deg :: "encoder \<Rightarrow> (real \<times> encoder) option" where
  "encoder_read_deg s =
     (case enc_mode s of
        ENCODER_MODE_ABI \<Rightarrow>
          if enc_counts s = 0 then None
          else Some (let a = fl (fl (fl (of_nat (unat (enc_tim_cnt s))) * 360) / fl (of_nat (unat (enc_counts s)))) in
                     (a, s\<lparr>enc_angle := a\<rparr>))
      | ENCODER_MODE_AS5047P_SPI \<Rightarrow> Some (last_enc_angle s, s\<lparr>enc_angle := last_enc_angle s\<rparr>)
      | ENCODER_MODE_NONE \<Rightarrow> Some (enc_angle s, s))"

definition encoder_reset :: "encoder \<Rightarrow> encoder" where
  "encoder_reset s = s\<lparr>enc_tim_cnt := 0, index_found := True\<rparr>"

text \<open>The software SPI: the sensor is sampled after the rising edge of the clock, most significant bit first. Nothing is sent: the
  output pin is commented out in the source.\<close>

definition spi_shift :: "u16 \<Rightarrow> bool \<Rightarrow> u16" where
  "spi_shift recieve level = push_bit 1 recieve OR of_bool level"

definition spi_word :: "(nat \<Rightarrow> bool) \<Rightarrow> nat \<Rightarrow> u16" where
  "spi_word miso i = foldl spi_shift 0 (map (\<lambda>b. miso (16 * i + b)) [0..<16])"

definition spi_begin :: "encoder \<Rightarrow> encoder" where "spi_begin = enc_emit [spi_cs False]"
definition spi_end :: "encoder \<Rightarrow> encoder" where "spi_end = enc_emit [spi_cs True]"

fun spi_transfer :: "(nat \<Rightarrow> bool) \<Rightarrow> u16 list option \<Rightarrow> u16 list option \<Rightarrow> nat \<Rightarrow> encoder \<Rightarrow> (u16 list option \<times> encoder) option" where
  "spi_transfer miso in_buf out_buf 0 s = Some (in_buf, s)"
| "spi_transfer miso in_buf out_buf (Suc i) s =
     do { (in1, s1) \<leftarrow> spi_transfer miso in_buf out_buf i s;
          _ \<leftarrow> (case out_buf of None \<Rightarrow> Some 0xFFFF | Some out \<Rightarrow> arr_get out i);
          let s2 = enc_emit (concat (replicate 16 [spi_sck True, spi_sck False])) s1;
          in2 \<leftarrow> (case in1 of None \<Rightarrow> Some None | Some buf \<Rightarrow> map_option Some (arr_set buf i (spi_word miso i)));
          Some (in2, s2) }"

definition spi_exchange :: "(nat \<Rightarrow> bool) \<Rightarrow> u16 \<Rightarrow> encoder \<Rightarrow> (u16 \<times> encoder) option" where
  "spi_exchange miso x s =
     do { (rx, s1) \<leftarrow> spi_transfer miso (Some [0]) (Some [x]) 1 s; Some (hd (the rx), s1) }"

definition encoder_tim_isr :: "(nat \<Rightarrow> bool) \<Rightarrow> encoder \<Rightarrow> encoder option" where
  "encoder_tim_isr miso s =
     do { (rx, s1) \<leftarrow> spi_transfer miso (Some [0]) None 1 (spi_begin s);
          let pos = hd (the rx) AND 0x3FFF;
          Some ((spi_end s1)\<lparr>last_enc_angle := fl (fl (fl (of_nat (unat pos)) * 360) / 16384)\<rparr>) }"

definition encoder_set_counts :: "u32 \<Rightarrow> encoder \<Rightarrow> encoder" where
  "encoder_set_counts counts s =
     (if counts \<noteq> enc_counts s then (TIM_SetAutoreload (counts - 1) (s\<lparr>enc_counts := counts\<rparr>))\<lparr>index_found := False\<rparr> else s)"

definition encoder_index_found :: "encoder \<Rightarrow> bool" where
  "encoder_index_found s = index_found s"

section \<open>The received word\<close>

text \<open>The shift register holds the last samples, the latest in bit 0.\<close>

lemma bit_spi_shift: "bit (spi_shift r b) n \<longleftrightarrow> n < 16 \<and> (if n = 0 then b else bit r (n - 1))"
  unfolding spi_shift_def bit_or_iff bit_push_bit_iff by (cases "n < 16") (auto simp: bit_simps)

lemma bit_spi_fold:
  "bit (foldl spi_shift r bs) n \<longleftrightarrow> n < 16 \<and> (if n < length bs then rev bs ! n else bit r (n - length bs))"
proof (induction bs arbitrary: n rule: rev_induct)
  case Nil
  then show ?case using bit_imp_le_length [of r n] by auto
next
  case (snoc b bs)
  show ?case by (cases n) (auto simp: bit_spi_shift snoc.IH)
qed

lemma spi_word_bits:
  assumes "\<And>b. b < 16 \<Longrightarrow> miso (16 * i + b) = bit w (15 - b)"
  shows "spi_word miso i = w"
proof (rule bit_word_eqI)
  fix n assume n: "n < LENGTH(16)"
  then have "rev (map (\<lambda>b. miso (16 * i + b)) [0..<16]) ! n = miso (16 * i + (15 - n))" using nth_upt [of 0 "15 - n" 16] by (simp add: rev_nth)
  then show "bit (spi_word miso i) n = bit w n"
    using n assms [of "15 - n"] by (simp add: spi_word_def bit_spi_fold)
qed

text \<open>C23: What the magnetic sensor shifts out, most significant bit first, is the angle that is read after the interrupt, exactly: the lower 14
  bits of the word in steps of 360 / 16384 degrees, whatever the two upper bits are. No rounding takes place, and the angle is below
  a full turn.\<close>

theorem spi_angle_exact:
  assumes "enc_mode s = ENCODER_MODE_AS5047P_SPI" "\<And>b. b < 16 \<Longrightarrow> miso b = bit (w :: u16) (15 - b)"
  shows "\<exists>s1 s2 a. encoder_tim_isr miso s = Some s1 \<and> encoder_read_deg s1 = Some (a, s2) \<and>
    a = real (unat (take_bit 14 w)) * 360 / 16384 \<and> 0 \<le> a \<and> a < 360 \<and>
    enc_events s1 = enc_events s @ [spi_cs False] @ concat (replicate 16 [spi_sck True, spi_sck False]) @ [spi_cs True]"
proof -
  let ?p = "take_bit 14 w"
  have mask: "w AND 0x3FFF = ?p" by (simp add: take_bit_eq_mask mask_eq_exp_minus_1)
  have p: "unat ?p < 16384" using take_bit_nat_less_exp [of 14 "unat w"] by (simp add: unsigned_take_bit_eq)
  define k where "k = int (unat ?p)"
  have k: "0 \<le> k" "k < 16384" "of_nat (unat ?p) = (of_int k :: real)" using p unfolding k_def by - (linarith, linarith, simp)
  have 1: "fl (of_int k) = of_int k" using k(1,2) by (intro fl_of_int) simp
  have 2: "fl (of_int k * 360) = of_int (k * 360)" using fl_of_int [of "k * 360"] k(1,2) by simp
  have 3: "fl (of_int (k * 360) / 2 ^ 14) = of_int (k * 360) / 2 ^ 14" using k(1,2) by (intro fl_dyadic) simp_all
  have w: "spi_word miso 0 = w" using assms(2) by (intro spi_word_bits) simp
  let ?a = "of_int (k * 360) / 2 ^ 14 :: real"
  let ?es = "[spi_cs False] @ concat (replicate 16 [spi_sck True, spi_sck False]) @ [spi_cs True]"
  let ?s = "s\<lparr>last_enc_angle := ?a, enc_events := enc_events s @ ?es\<rparr>"
  have run: "encoder_tim_isr miso s = Some ?s"
    using 1 2 3 k(3) by (simp add: encoder_tim_isr_def w mask arr_set_def spi_begin_def spi_end_def enc_emit_def)
  have "0 \<le> ?a" "?a < 360" using k(1,2) by simp_all
  moreover have "?a = real (unat ?p) * 360 / 16384" unfolding k(3) by simp
  moreover have "encoder_read_deg ?s = Some (?a, ?s\<lparr>enc_angle := ?a\<rparr>)" using assms(1) by (simp add: encoder_read_deg_def)
  moreover have "enc_events ?s = enc_events s @ ?es" by simp
  ultimately show ?thesis using run by blast
qed

text \<open>The counted angle is within a turn while the counter is below the number of counts. \<open>encoder_set_counts\<close> does not clear the
  counter: with fewer counts than the counter already has, the angle is beyond a turn.\<close>

lemma abi_angle_in_turn:
  assumes "enc_mode s = ENCODER_MODE_ABI" "enc_tim_cnt s < enc_counts s" "unat (enc_counts s) \<le> 46603"
  shows "\<exists>a. encoder_read_deg s = Some (a, s\<lparr>enc_angle := a\<rparr>) \<and> 0 \<le> a \<and> a \<le> 360"
proof -
  define c n where "c = int (unat (enc_tim_cnt s))" and "n = int (unat (enc_counts s))"
  have lt: "0 \<le> c" "c < n" "n \<le> 46603" using assms(2,3) unfolding c_def n_def word_less_nat_alt by linarith+
  have 1: "fl (of_int c) = of_int c" "fl (of_int n) = of_int n" using lt by (simp_all add: fl_of_int)
  have 2: "fl (of_int c * 360) = of_int (c * 360)" using fl_of_int [of "c * 360"] lt by simp
  have le: "of_int (c * 360) / of_int n \<le> (360 :: real)" using lt by (simp add: divide_simps mult_right_mono)
  have "fl (of_int (c * 360) / of_int n) \<le> 360" using fl_mono [OF le] by simp
  moreover have "0 \<le> fl (of_int (c * 360) / of_int n)" using lt by (intro fl_pos) simp
  moreover have "enc_counts s \<noteq> 0" using assms(2) by auto
  ultimately show ?thesis using 1 2 assms(1) by (simp add: encoder_read_deg_def Let_def c_def n_def)
qed

lemma set_counts_keeps_counter:
  "encoder_read_deg (encoder_set_counts 4096 (encoder_start\<lparr>enc_mode := ENCODER_MODE_ABI, enc_tim_cnt := 8192\<rparr>)) =
     Some (720, (encoder_set_counts 4096 (encoder_start\<lparr>enc_mode := ENCODER_MODE_ABI, enc_tim_cnt := 8192\<rparr>))\<lparr>enc_angle := 720\<rparr>)"
  by (simp add: encoder_read_deg_def encoder_set_counts_def encoder_start_def TIM_SetAutoreload_def)

theorem spi_angle_exact_witness:
  "\<exists>s1 s2 a. encoder_tim_isr (\<lambda>b. b mod 16 \<in> {0, 2, 5}) (encoder_init_as5047p_spi encoder_start) = Some s1 \<and>
    encoder_read_deg s1 = Some (a, s2) \<and> a = 9216 * 360 / 16384"
proof -
  have "(b mod 16 \<in> {0, 2, 5}) = bit (0xA400 :: u16) (15 - b)" if "b < 16" for b :: nat
  proof -
    have "b \<in> set [0..<16]" using that by simp
    then show ?thesis by (simp add: upt_rec) (elim disjE; simp)
  qed
  from spi_angle_exact [OF _ this, of "encoder_init_as5047p_spi encoder_start"] show ?thesis
    by (auto simp: encoder_init_as5047p_spi_def enc_emit_def take_bit_eq_mask mask_eq_exp_minus_1)
qed

end
