(* ===== verification/ServoDec.thy ===== *)
theory ServoDec
  imports Timeout
begin

text \<open>
  The decoder of servo pulses, \<open>servo_dec.c\<close>: the interrupt of the input capture unit turns the width of a pulse into a position between
  -1 and 1, with a tolerance at both ends and an optional median filter.

  The state is the record \<open>servodec\<close>, the static locals of the interrupt included. \<open>done_calls\<close> counts the calls of the function
  pointer. A division by a zero pulse range is \<^term>\<open>None\<close>.
\<close>

section \<open>State and operations\<close>

definition SERVO_NUM :: nat where "SERVO_NUM = 1"
definition TIMER_FREQ :: real where "TIMER_FREQ = 1000000"

record servodec =
  servo_last_update_time :: u32
  servo_pos :: "real list"
  pulse_start :: real
  pulse_end :: real
  last_len_received :: "real list"
  use_median_filter :: bool
  servo_c1 :: real
  servo_c2 :: real
  done_func :: bool
  done_calls :: nat

definition servodec_boot :: servodec where
  "servodec_boot = \<lparr>servo_last_update_time = 0, servo_pos = replicate SERVO_NUM 0, pulse_start = 1, pulse_end = 2,
     last_len_received = replicate SERVO_NUM 0, use_median_filter = False, servo_c1 = 0.5, servo_c2 = 0.5, done_func = False, done_calls = 0\<rparr>"

text \<open>The length inside the pulse range, -1 for a pulse that is too long or too short.\<close>

definition servo_len :: "real \<Rightarrow> real \<Rightarrow> real \<Rightarrow> real" where
  "servo_len len0 start len_set =
     (if len0 > len_set then (if len0 < fl (len_set * fl 1.2) then len_set else -1)
      else if len0 < 0 then (if fl (len0 + start) > fl (start * fl 0.8) then 0 else -1)
      else len0)"

definition servo_scale :: "real \<Rightarrow> real \<Rightarrow> real" where
  "servo_scale len len_set = fl (fl (fl (len * 2) - len_set) / len_set)"

definition icuwidthcb :: "u32 \<Rightarrow> u32 \<Rightarrow> servodec \<Rightarrow> servodec option" where
  "icuwidthcb width t s =
     (let l = fl (fl (of_nat (unat width)) / fl (TIMER_FREQ / 1000));
          s0 = s\<lparr>last_len_received := (last_len_received s)[0 := l]\<rparr>;
          len_set = fl (pulse_end s - pulse_start s);
          len = servo_len (fl (l - pulse_start s)) (pulse_start s) len_set in
      if len \<ge> 0 then
        if len_set = 0 then None
        else
          let c = servo_scale len len_set;
              s1 = (if use_median_filter s
                    then s0\<lparr>servo_c2 := servo_c1 s, servo_c1 := c, servo_pos := (servo_pos s)[0 := utils_middle_of_3 c (servo_c1 s) (servo_c2 s)]\<rparr>
                    else s0\<lparr>servo_pos := (servo_pos s)[0 := c]\<rparr>) in
          Some (s1\<lparr>servo_last_update_time := t, done_calls := done_calls s + (if done_func s then 1 else 0)\<rparr>)
      else Some s0)"

definition servodec_init :: "bool \<Rightarrow> servodec \<Rightarrow> servodec" where
  "servodec_init d_func s = s\<lparr>servo_pos := replicate SERVO_NUM 0, last_len_received := replicate SERVO_NUM 0, done_func := d_func\<rparr>"

definition servodec_set_pulse_options :: "real \<Rightarrow> real \<Rightarrow> bool \<Rightarrow> servodec \<Rightarrow> servodec" where
  "servodec_set_pulse_options start end_ms median_filter s = s\<lparr>pulse_start := start, pulse_end := end_ms, use_median_filter := median_filter\<rparr>"

text \<open>A negative index is not rejected.\<close>

definition servodec_get_servo :: "int \<Rightarrow> servodec \<Rightarrow> real option" where
  "servodec_get_servo servo_num s =
     (if servo_num < int SERVO_NUM then (if servo_num < 0 then None else arr_get (servo_pos s) (nat servo_num)) else Some 0)"

definition servodec_get_time_since_update :: "u32 \<Rightarrow> servodec \<Rightarrow> u32" where
  "servodec_get_time_since_update t s = chVTTimeElapsedSinceX t (servo_last_update_time s) div (CH_CFG_ST_FREQUENCY div 1000)"

definition servodec_get_last_pulse_len :: "int \<Rightarrow> servodec \<Rightarrow> real option" where
  "servodec_get_last_pulse_len servo_num s =
     (if servo_num < int SERVO_NUM then (if servo_num < 0 then None else arr_get (last_len_received s) (nat servo_num)) else Some 0)"

section \<open>Positions\<close>

lemma is_f32_double: "is_f32 r \<Longrightarrow> is_f32 (r * 2)"
proof -
  assume "is_f32 r"
  then obtain m e where "r = of_int m * 2 powr of_int e" "\<bar>m\<bar> \<le> 2 ^ 24" "e \<ge> -149" unfolding is_f32_def by auto
  then show ?thesis unfolding is_f32_def by (intro exI [of _ m] exI [of _ "e + 1"]) (simp add: powr_add)
qed

lemma is_f32_abs: "is_f32 r \<Longrightarrow> is_f32 \<bar>r\<bar>"
  using fl_is_f32 [of "\<bar>r\<bar>"] by (simp add: f32.rnd_abs fl_exact)

text \<open>The scaled length of a pulse within the range is a position, whatever the rounding, and the scaling is monotone.\<close>

lemma servo_scale_range:
  assumes "is_f32 r" "r \<noteq> 0" "0 \<le> x" "x \<le> r \<or> x = 0"
  shows "\<bar>servo_scale x r\<bar> \<le> 1"
proof -
  have x: "\<bar>fl (x * 2) - r\<bar> \<le> \<bar>r\<bar>"
  proof (cases "x = 0")
    case False
    then have r: "0 < r" "0 \<le> x * 2" "x * 2 \<le> r * 2" using assms(3,4) by simp_all
    have "0 \<le> fl (x * 2)" "fl (x * 2) \<le> r * 2"
      using r by (intro f32.rnd_nonneg f32.rnd_le is_f32_double assms(1); simp)+
    then show ?thesis using r(1) by (simp add: abs_le_iff)
  qed simp
  have "\<bar>fl (fl (x * 2) - r)\<bar> \<le> \<bar>r\<bar>" using x is_f32_abs [OF assms(1)] by (rule f32.rnd_abs_le)
  then have "\<bar>fl (fl (x * 2) - r) / r\<bar> \<le> 1" using assms(2) by (simp add: abs_divide divide_le_eq)
  then show ?thesis unfolding servo_scale_def by (rule f32.rnd_abs_le) (use fl_is_f32 [of 1] in simp)
qed

lemma servo_scale_mono: "x \<le> y \<Longrightarrow> 0 < r \<Longrightarrow> servo_scale x r \<le> servo_scale y r"
  unfolding servo_scale_def by (intro fl_mono divide_right_mono) (auto intro!: fl_mono)

lemma servo_len_range: "0 \<le> servo_len x start r \<Longrightarrow> servo_len x start r \<le> r \<or> servo_len x start r = 0"
  unfolding servo_len_def by (simp split: if_split_asm)

lemma servo_len_mono:
  "x \<le> y \<Longrightarrow> 0 \<le> servo_len x start r \<Longrightarrow> 0 \<le> servo_len y start r \<Longrightarrow> servo_len x start r \<le> servo_len y start r"
  by (auto simp: servo_len_def split: if_splits)

lemma middle_of_3_range: "\<bar>a\<bar> \<le> m \<Longrightarrow> \<bar>b\<bar> \<le> m \<Longrightarrow> \<bar>c\<bar> \<le> m \<Longrightarrow> \<bar>utils_middle_of_3 a b c\<bar> \<le> (m :: real)"
  by (simp add: utils_middle_of_3_def)

text \<open>The invariant: one position and one length are kept, and every position, also those of the median filter, is between -1 and 1.\<close>

definition servo_ok :: "servodec \<Rightarrow> bool" where
  "servo_ok s \<longleftrightarrow> length (servo_pos s) = SERVO_NUM \<and> length (last_len_received s) = SERVO_NUM \<and>
     (\<forall>x \<in> set (servo_pos s). \<bar>x\<bar> \<le> 1) \<and> \<bar>servo_c1 s\<bar> \<le> 1 \<and> \<bar>servo_c2 s\<bar> \<le> 1"

lemma servo_ok_boot: "servo_ok servodec_boot"
  by (simp add: servo_ok_def servodec_boot_def SERVO_NUM_def)

lemma pulse_ok:
  assumes "servo_ok s" "fl (pulse_end s - pulse_start s) \<noteq> 0"
  shows "\<exists>s'. icuwidthcb w t s = Some s' \<and> servo_ok s' \<and> pulse_start s' = pulse_start s \<and> pulse_end s' = pulse_end s"
proof -
  let ?r = "fl (pulse_end s - pulse_start s)"
  let ?x = "fl (fl (fl (of_nat (unat w)) / fl (TIMER_FREQ / 1000)) - pulse_start s)"
  have "\<bar>servo_scale (servo_len ?x (pulse_start s) ?r) ?r\<bar> \<le> 1" if "0 \<le> servo_len ?x (pulse_start s) ?r"
    using servo_scale_range [OF fl_is_f32 assms(2) that servo_len_range [OF that]] .
  with assms show ?thesis
    by (auto simp: icuwidthcb_def Let_def servo_ok_def SERVO_NUM_def length_Suc_conv middle_of_3_range)
qed

primrec servo_pulses :: "(u32 \<times> u32) list \<Rightarrow> servodec \<Rightarrow> servodec option" where
  "servo_pulses [] s = Some s"
| "servo_pulses (p # ps) s = do { s1 \<leftarrow> icuwidthcb (fst p) (snd p) s; servo_pulses ps s1 }"

lemma pulses_ok:
  assumes "servo_ok s" "fl (pulse_end s - pulse_start s) \<noteq> 0"
  shows "\<exists>s'. servo_pulses ps s = Some s' \<and> servo_ok s'"
  using assms
proof (induction ps arbitrary: s)
  case (Cons p ps)
  from pulse_ok [OF Cons.prems, of "fst p" "snd p"] obtain s1 where s1: "icuwidthcb (fst p) (snd p) s = Some s1"
    "servo_ok s1" "pulse_start s1 = pulse_start s" "pulse_end s1 = pulse_end s" by blast
  with Cons.IH [of s1] Cons.prems(2) show ?case by simp
qed simp

text \<open>C40: Decoding of servo pulses: after any sequence of pulses of any width, with limits that differ, the position that is read is
  between -1 and 1, with and without the median filter; and without the filter, of two pulses that are both accepted, the longer one never gives
  the lower position when the range is positive.\<close>

theorem servo_decoding:
  assumes "servo_ok s" "fl (pulse_end s - pulse_start s) \<noteq> 0"
  shows "(\<exists>s' x. servo_pulses ps s = Some s' \<and> servo_ok s' \<and> servodec_get_servo 0 s' = Some x \<and> \<bar>x\<bar> \<le> 1) \<and>
    (\<forall>w v s1 s2. 0 < fl (pulse_end s - pulse_start s) \<and> \<not> use_median_filter s \<and> unat w \<le> unat v \<and>
       icuwidthcb w t s = Some s1 \<and> icuwidthcb v t s = Some s2 \<and> done_calls s < done_calls s1 \<and> done_calls s < done_calls s2 \<longrightarrow>
       servo_pos s1 ! 0 \<le> servo_pos s2 ! 0)"
proof (intro conjI allI impI)
  obtain s' where "servo_pulses ps s = Some s'" "servo_ok s'" using pulses_ok [OF assms] by blast
  then show "\<exists>s' x. servo_pulses ps s = Some s' \<and> servo_ok s' \<and> servodec_get_servo 0 s' = Some x \<and> \<bar>x\<bar> \<le> 1"
    by (auto simp: servo_ok_def servodec_get_servo_def arr_get_def SERVO_NUM_def)
next
  fix w v s1 s2
  assume a: "0 < fl (pulse_end s - pulse_start s) \<and> \<not> use_median_filter s \<and> unat w \<le> unat v \<and>
       icuwidthcb w t s = Some s1 \<and> icuwidthcb v t s = Some s2 \<and> done_calls s < done_calls s1 \<and> done_calls s < done_calls s2"
  let ?x = "\<lambda>w. fl (fl (fl (of_nat (unat (w :: u32))) / fl (TIMER_FREQ / 1000)) - pulse_start s)"
  have x: "?x w \<le> ?x v"
    using a by (intro fl_mono diff_right_mono divide_right_mono of_nat_mono) (simp_all add: TIMER_FREQ_def)
  have acc: "0 \<le> servo_len (?x w) (pulse_start s) (fl (pulse_end s - pulse_start s))"
      "0 \<le> servo_len (?x v) (pulse_start s) (fl (pulse_end s - pulse_start s))"
    using a by (auto simp: icuwidthcb_def Let_def split: if_splits)
  have "0 < length (servo_pos s)" using assms(1) by (simp add: servo_ok_def SERVO_NUM_def)
  then show "servo_pos s1 ! 0 \<le> servo_pos s2 ! 0"
    using a acc servo_scale_mono [OF servo_len_mono [OF x acc], of "fl (pulse_end s - pulse_start s)"]
    by (auto simp: icuwidthcb_def Let_def)
qed

theorem servo_decoding_witness:
  "\<exists>s' x. servo_pulses [(1500, 10), (700, 20), (2050, 30)] servodec_boot = Some s' \<and> servodec_get_servo 0 s' = Some x \<and> \<bar>x\<bar> \<le> 1"
proof -
  have "fl (pulse_end servodec_boot - pulse_start servodec_boot) \<noteq> 0" by (simp add: servodec_boot_def)
  from servo_decoding [OF servo_ok_boot this] show ?thesis by blast
qed

end
