(* ===== verification/AppOutput.thy ===== *)
theory AppOutput
  imports CommCan
begin

text \<open>
  What the input applications \<open>app_ppm.c\<close>, \<open>app_adc.c\<close> and \<open>app_nunchuk.c\<close> do with a decoded throttle: the soft limit of the speed,
  the traction control between several controllers on the CAN bus, and the commands to the own motor and to the other controllers.

  An iteration of an application acts on the motor interface, the timeout and the CAN bus, the record \<open>app_out\<close>. \<open>out_cmds\<close> is
  the history of the motor commands that were given, whether or not \<open>mc_interface.c\<close> let them through. The system time and the
  table of status messages are read once per iteration; an iteration is much shorter than the age limit of the messages.
\<close>

section \<open>State\<close>

record app_io =
  io_env :: env
  io_time :: u32
  io_msgs :: "can_status_msg list"

record app_out =
  out_mc :: mcif
  out_tout :: timeout_state
  out_frames :: "CANTxFrame list"
  out_cmds :: "motor_cmd list"

text \<open>The part of the three configurations that the output depends on.\<close>

record drive_conf =
  dc_rpm_lim_start :: real
  dc_rpm_lim_end :: real
  dc_multi_esc :: bool
  dc_tc :: bool
  dc_tc_max_diff :: real

datatype input_action = Set_current real | Set_brake real | Set_duty real | Set_speed real

definition MAX_CAN_AGE :: real where "MAX_CAN_AGE = fl 0.1"

section \<open>Commands to the own motor and to the others\<close>

definition out_cmd :: "app_io \<Rightarrow> motor_cmd \<Rightarrow> app_out \<Rightarrow> app_out" where
  "out_cmd io c x = x\<lparr>out_mc := run_cmd c (io_env io) (out_mc x), out_cmds := out_cmds x @ [c]\<rparr>"

definition out_reset_timeout :: "app_io \<Rightarrow> app_out \<Rightarrow> app_out" where
  "out_reset_timeout io x = x\<lparr>out_tout := timeout_reset (io_time io) (out_tout x)\<rparr>"

definition UTILS_AGE_S :: "u32 \<Rightarrow> u32 \<Rightarrow> real" where
  "UTILS_AGE_S t x = fl (fl (of_nat (unat (chVTTimeElapsedSinceX t x))) / fl (of_nat (unat CH_CFG_ST_FREQUENCY)))"

text \<open>The controllers seen recently.\<close>

definition recent :: "app_io \<Rightarrow> can_status_msg list" where
  "recent io = filter (\<lambda>m. csm_id m \<ge> 0 \<and> UTILS_AGE_S (io_time io) (csm_rx_time m) < MAX_CAN_AGE) (take CAN_STATUS_MSGS_TO_STORE (io_msgs io))"

definition out_send :: "CANTxFrame option \<Rightarrow> app_out \<Rightarrow> app_out option" where
  "out_send f x = map_option (\<lambda>fr. x\<lparr>out_frames := out_frames x @ [fr]\<rparr>) f"

primrec send_each :: "(u8 \<Rightarrow> CANTxFrame option) \<Rightarrow> can_status_msg list \<Rightarrow> app_out \<Rightarrow> app_out option" where
  "send_each f [] x = Some x"
| "send_each f (m # ms) x = do { x1 \<leftarrow> out_send (f (word_of_int (csm_id m))) x; send_each f ms x1 }"

text \<open>Braking is sent to all controllers, whether or not several are configured.\<close>

definition brake_all :: "app_io \<Rightarrow> real \<Rightarrow> app_out \<Rightarrow> app_out option" where
  "brake_all io current x = send_each (\<lambda>i. comm_can_set_current_brake i current) (recent io) (out_cmd io (Brake_current current) x)"

definition send_duty_now :: "app_io \<Rightarrow> app_out \<Rightarrow> app_out option" where
  "send_duty_now io x = send_each (\<lambda>i. comm_can_set_duty i (mc_interface_get_duty_cycle_now (io_env io) (out_mc x))) (recent io) x"

section \<open>Speed limit and traction control\<close>

definition rpm_lowest :: "drive_conf \<Rightarrow> app_io \<Rightarrow> real \<Rightarrow> real" where
  "rpm_lowest dc io rpm_local =
     (if dc_multi_esc dc then foldl (\<lambda>low m. if \<bar>csm_rpm m\<bar> < \<bar>low\<bar> then csm_rpm m else low) rpm_local (recent io) else rpm_local)"

definition soft_rpm_limit :: "drive_conf \<Rightarrow> real \<Rightarrow> real \<Rightarrow> real \<Rightarrow> real" where
  "soft_rpm_limit dc cc_min rpm current =
     (if rpm > dc_rpm_lim_end dc \<and> current > 0 then cc_min
      else if rpm > dc_rpm_lim_start dc \<and> current > 0 then utils_map rpm (dc_rpm_lim_start dc) (dc_rpm_lim_end dc) current cc_min
      else if rpm < - dc_rpm_lim_end dc \<and> current < 0 then cc_min
      else if rpm < - dc_rpm_lim_start dc \<and> current < 0
      then - utils_map (- rpm) (dc_rpm_lim_start dc) (dc_rpm_lim_end dc) (- current) cc_min
      else current)"

text \<open>\<open>utils_map\<close> divides by \<open>tc_max_diff\<close>.\<close>

definition tc_current :: "drive_conf \<Rightarrow> real \<Rightarrow> real \<Rightarrow> real \<Rightarrow> real option" where
  "tc_current dc cc_min current rpm_diff =
     (if dc_tc_max_diff dc = 0 then None
      else Some (let c = utils_map rpm_diff 0 (dc_tc_max_diff dc) current 0 in if c < cc_min then 0 else c))"

primrec traction_send :: "drive_conf \<Rightarrow> real \<Rightarrow> real \<Rightarrow> real \<Rightarrow> bool \<Rightarrow> can_status_msg list \<Rightarrow> real \<Rightarrow> app_out \<Rightarrow> (real \<times> app_out) option" where
  "traction_send dc cc_min current low is_reverse [] current_out x = Some (current_out, x)"
| "traction_send dc cc_min current low is_reverse (m # ms) current_out x =
     do { c \<leftarrow> (if dc_tc dc then tc_current dc cc_min current (fl ((if is_reverse then - csm_rpm m else csm_rpm m) - low)) else Some current_out);
          x1 \<leftarrow> out_send (comm_can_set_current (word_of_int (csm_id m)) (if is_reverse then - c else c)) x;
          traction_send dc cc_min current low is_reverse ms c x1 }"

text \<open>The current to the own motor, after the others got theirs. All values are positive in the direction of travel.\<close>

definition traction :: "drive_conf \<Rightarrow> app_io \<Rightarrow> real \<Rightarrow> real \<Rightarrow> real \<Rightarrow> bool \<Rightarrow> real \<Rightarrow> app_out \<Rightarrow> app_out option" where
  "traction dc io cc_min rpm_local low is_reverse current x =
     do { (c, x1) \<leftarrow> (if dc_multi_esc dc then
             do { (c1, x1) \<leftarrow> traction_send dc cc_min current low is_reverse (recent io) current x;
                  c2 \<leftarrow> (if dc_tc dc then tc_current dc cc_min current (fl (rpm_local - low)) else Some c1);
                  Some (c2, x1) }
           else Some (current, x));
          Some (out_cmd io (Current (if is_reverse then - c else c)) x1) }"

definition drive_current :: "drive_conf \<Rightarrow> app_io \<Rightarrow> real \<Rightarrow> app_out \<Rightarrow> app_out option" where
  "drive_current dc io current0 x =
     (let cc_min = cc_min_current (m_conf (out_mc x));
          rpm_local = mc_interface_get_rpm (io_env io) (out_mc x);
          low = rpm_lowest dc io rpm_local;
          current = soft_rpm_limit dc cc_min low current0 in
      if current < 0 then traction dc io cc_min (- rpm_local) (- low) True (- current) x
      else traction dc io cc_min rpm_local low False current x)"

text \<open>The command that the mode switch of an application gives itself, and what follows the switch.\<close>

definition pre_output :: "app_io \<Rightarrow> input_action \<Rightarrow> app_out \<Rightarrow> app_out" where
  "pre_output io a x = (case a of Set_duty d \<Rightarrow> out_cmd io (Duty d) x | Set_speed r \<Rightarrow> out_cmd io (Pid_speed r) x | _ \<Rightarrow> x)"

definition post_output :: "drive_conf \<Rightarrow> app_io \<Rightarrow> input_action \<Rightarrow> app_out \<Rightarrow> app_out option" where
  "post_output dc io a x =
     (case a of Set_brake c \<Rightarrow> brake_all io c x | Set_current c \<Rightarrow> drive_current dc io c x
      | _ \<Rightarrow> if dc_multi_esc dc then send_duty_now io x else Some x)"

text \<open>The requests for a throttle between -1 and 1, shared by the applications for pulses and for the ADC.\<close>

definition throttle_current :: "mc_configuration \<Rightarrow> real \<Rightarrow> real" where
  "throttle_current mc v = (if v \<ge> 0 then fl (v * l_current_max mc) else fl (v * \<bar>l_current_min mc\<bar>))"

definition throttle_or_brake :: "mc_configuration \<Rightarrow> real \<Rightarrow> input_action" where
  "throttle_or_brake mc v = (if v \<ge> 0 then Set_current (fl (v * l_current_max mc)) else Set_brake \<bar>fl (v * l_current_min mc)\<bar>)"

definition throttle_duty :: "mc_configuration \<Rightarrow> real \<Rightarrow> real" where
  "throttle_duty mc v = utils_map v (-1) 1 (- l_max_duty mc) (l_max_duty mc)"

text \<open>The dead band around the centre; with a width of one the rescaling divides by zero.\<close>

definition app_deadband :: "real \<Rightarrow> real \<Rightarrow> real option" where
  "app_deadband value hyst = (if hyst = 1 \<and> \<not> \<bar>value\<bar> < hyst then None else Some (utils_deadband value hyst 1))"

section \<open>Mean value filters\<close>

definition RPM_FILTER_SAMPLES :: nat where "RPM_FILTER_SAMPLES = 8"

record mean_filter =
  filter_buffer :: "real list"
  filter_ptr :: nat

definition mean_filter_zero :: "nat \<Rightarrow> mean_filter" where
  "mean_filter_zero n = \<lparr>filter_buffer = replicate n 0, filter_ptr = 0\<rparr>"

text \<open>The mean of the last \<open>n\<close> values: store, advance the pointer, sum the buffer from its start.\<close>

definition filter_mean :: "nat \<Rightarrow> real \<Rightarrow> mean_filter \<Rightarrow> (real \<times> mean_filter) option" where
  "filter_mean n v f =
     do { buf \<leftarrow> arr_set (filter_buffer f) (filter_ptr f) v;
          let p = (if filter_ptr f + 1 \<ge> n then 0 else filter_ptr f + 1);
          Some (fl (foldl (\<lambda>acc y. fl (acc + y)) 0 (take n buf) / of_nat n), \<lparr>filter_buffer = buf, filter_ptr = p\<rparr>) }"

definition mean_filter_ok :: "nat \<Rightarrow> mean_filter \<Rightarrow> bool" where
  "mean_filter_ok n f \<longleftrightarrow> length (filter_buffer f) = n \<and> filter_ptr f < n"

lemma f32_0: "is_f32 0" and f32_1: "is_f32 1"
  using fl_is_f32 [of 0] fl_is_f32 [of 1] by simp_all

lemma filter_mean_ok:
  assumes "mean_filter_ok n f" "is_f32 v"
  shows "\<exists>y f'. filter_mean n v f = Some (y, f') \<and> mean_filter_ok n f' \<and> is_f32 y"
  using assms by (auto simp: filter_mean_def mean_filter_ok_def arr_set_def fl_is_f32)

section \<open>Applications act through the motor interface\<close>

text \<open>Without another controller on the bus nothing is converted for a frame.\<close>

lemma post_output_progress:
  assumes "recent io = []" "dc_tc dc \<longrightarrow> dc_tc_max_diff dc \<noteq> 0"
  shows "post_output dc io a x \<noteq> None"
  using assms by (auto simp: post_output_def brake_all_def send_duty_now_def drive_current_def traction_def tc_current_def Let_def
      split: input_action.split)

text \<open>An effect of the environment \<open>env\<close>: the motor interface is changed by the motor commands in the history, and by
  nothing else.\<close>

definition commanded :: "env \<Rightarrow> app_out \<Rightarrow> app_out \<Rightarrow> bool" where
  "commanded env x y \<longleftrightarrow> (\<exists>cs. out_cmds y = out_cmds x @ cs \<and> out_mc y = fold (\<lambda>c. run_cmd c env) cs (out_mc x))"

lemma commanded_refl [simp]: "commanded env x x"
  unfolding commanded_def by (intro exI [of _ "[]"]) simp

lemma commanded_trans: "commanded env x y \<Longrightarrow> commanded env y z \<Longrightarrow> commanded env x z"
proof -
  assume "commanded env x y" "commanded env y z"
  then obtain cs ds where "out_cmds y = out_cmds x @ cs" "out_mc y = fold (\<lambda>c. run_cmd c env) cs (out_mc x)"
    "out_cmds z = out_cmds y @ ds" "out_mc z = fold (\<lambda>c. run_cmd c env) ds (out_mc y)" by (auto simp: commanded_def)
  then show ?thesis unfolding commanded_def by (intro exI [of _ "cs @ ds"]) simp
qed

lemma commanded_same: "out_mc y = out_mc x \<Longrightarrow> out_cmds y = out_cmds x \<Longrightarrow> commanded env x y"
  unfolding commanded_def by (intro exI [of _ "[]"]) simp

lemma commanded_cmd [simp]: "commanded (io_env io) x (out_cmd io c x)"
  unfolding commanded_def out_cmd_def by (intro exI [of _ "[c]"]) simp

lemma commanded_cmd_then: "commanded (io_env io) (out_cmd io c x) y \<Longrightarrow> commanded (io_env io) x y"
  by (rule commanded_trans [OF commanded_cmd])

lemma send_frame: "out_send f x = Some y \<Longrightarrow> out_mc y = out_mc x \<and> out_cmds y = out_cmds x \<and> out_tout y = out_tout x"
  by (auto simp: out_send_def)

lemma send_each_frame: "send_each f ms x = Some y \<Longrightarrow> out_mc y = out_mc x \<and> out_cmds y = out_cmds x \<and> out_tout y = out_tout x"
  by (induction ms arbitrary: x) (auto simp: bind_eq_Some_conv dest: send_frame)

lemma traction_send_frame:
  "traction_send dc cm current low bk ms c x = Some (d, y) \<Longrightarrow> out_mc y = out_mc x \<and> out_cmds y = out_cmds x \<and> out_tout y = out_tout x"
  by (induction ms arbitrary: c x) (auto simp: bind_eq_Some_conv dest: send_frame)

lemma brake_all_cmds: "brake_all io c x = Some y \<Longrightarrow> commanded (io_env io) x y \<and> out_cmds y = out_cmds x @ [Brake_current c]"
  unfolding brake_all_def by (auto dest!: send_each_frame simp: out_cmd_def commanded_def intro!: exI [of _ "[Brake_current c]"])

lemma traction_cmds:
  assumes "traction dc io cm rl low bk current x = Some y"
  shows "commanded (io_env io) x y"
proof -
  from assms obtain c x1 where x1: "out_mc x1 = out_mc x" "out_cmds x1 = out_cmds x" and y: "y = out_cmd io (Current c) x1"
    unfolding traction_def by (auto simp: bind_eq_Some_conv split: if_splits dest: traction_send_frame)
  show ?thesis unfolding y by (rule commanded_trans [OF commanded_same [OF x1] commanded_cmd])
qed

lemma post_output_cmds: "post_output dc io a x = Some y \<Longrightarrow> commanded (io_env io) x y"
  by (auto simp: post_output_def drive_current_def Let_def send_duty_now_def dest: brake_all_cmds traction_cmds send_each_frame
      split: input_action.splits if_splits intro: commanded_same)

lemma pre_output_cmds [simp]: "commanded (io_env io) x (pre_output io a x)"
  by (simp add: pre_output_def split: input_action.splits)

primrec app_runs :: "('i \<Rightarrow> 's \<times> app_out \<Rightarrow> ('s \<times> app_out) option) \<Rightarrow> 'i list \<Rightarrow> 's \<times> app_out \<Rightarrow> ('s \<times> app_out) option" where
  "app_runs f [] c = Some c"
| "app_runs f (i # is) c = do { c1 \<leftarrow> f i c; app_runs f is c1 }"

text \<open>Interleavings of the thread of an application with the timer thread of the motor interface, which runs every millisecond and counts
  down the hold time after a fault.\<close>

datatype 'i turn = App_turn 'i | Timer_round env

primrec app_turns :: "('i \<Rightarrow> 's \<times> app_out \<Rightarrow> ('s \<times> app_out) option) \<Rightarrow> 'i turn list \<Rightarrow> 's \<times> app_out \<Rightarrow> ('s \<times> app_out) option" where
  "app_turns f [] c = Some c"
| "app_turns f (t # ts) c =
     (case t of App_turn i \<Rightarrow> do { c1 \<leftarrow> f i c; app_turns f ts c1 }
      | Timer_round env \<Rightarrow> app_turns f ts (fst c, (snd c)\<lparr>out_mc := timer_thread env (out_mc (snd c))\<rparr>))"

fun is_round :: "'i turn \<Rightarrow> bool" where
  "is_round (App_turn i) = False"
| "is_round (Timer_round env) = True"

definition rounds :: "'i turn list \<Rightarrow> nat" where "rounds ts = length (filter is_round ts)"

text \<open>No motor is being detected when the application runs, and no new fault occurs in a round of the timer thread.\<close>

fun undisturbed :: "('i \<Rightarrow> app_io) \<Rightarrow> mc_configuration \<Rightarrow> 'i turn \<Rightarrow> bool" where
  "undisturbed io_of c (App_turn i) = quiet (io_env (io_of i))"
| "undisturbed io_of c (Timer_round env) = calm c env"

lemma undisturbed_cong: "l_temp_fet_end c = l_temp_fet_end c' \<Longrightarrow> undisturbed io_of c t = undisturbed io_of c' t"
  using calm_cong [of c c'] by (cases t) auto

text \<open>The contract of an input application: a step is an effect of its environment. While the hold time after a fault runs,
  or while the interface is locked, no sequence of steps reaches the driver, whatever the inputs are; the hold time ends with the rounds of
  the timer thread and not before.\<close>

locale input_app =
  fixes app_step :: "'i \<Rightarrow> 's \<times> app_out \<Rightarrow> ('s \<times> app_out) option"
    and io_of :: "'i \<Rightarrow> app_io"
  assumes step_commands: "app_step i (s, x) = Some (s', x') \<Longrightarrow> commanded (io_env (io_of i)) x x'"
begin

lemma held_fold:
  assumes "quiet env" "m_ignore_iterations mc \<noteq> 0 \<or> m_lock_enabled mc \<and> \<not> m_lock_override_once mc"
  shows "fold (\<lambda>c. run_cmd c env) cs mc = mc"
proof -
  have "run_cmd c env mc = mc" for c
    using assms by (cases "m_ignore_iterations mc = 0") (auto simp: cmds.ignored cmds.locked)
  then show ?thesis by (induction cs) simp_all
qed

lemma held_runs:
  assumes "app_runs app_step is (s, x) = Some (s', x')" "\<forall>i \<in> set is. quiet (io_env (io_of i))"
    and "m_ignore_iterations (out_mc x) \<noteq> 0 \<or> m_lock_enabled (out_mc x) \<and> \<not> m_lock_override_once (out_mc x)"
  shows "out_mc x' = out_mc x"
  using assms
proof (induction "is" arbitrary: s x)
  case (Cons i js)
  then obtain s1 x1 where 1: "app_step i (s, x) = Some (s1, x1)" "app_runs app_step js (s1, x1) = Some (s', x')"
    by (auto simp: bind_eq_Some_conv)
  from step_commands [OF 1(1)] have "out_mc x1 = out_mc x" using held_fold Cons.prems(2,3) by (auto simp: commanded_def)
  with Cons.IH [OF 1(2)] Cons.prems(2,3) show ?case by simp
qed simp

lemma held_turns:
  assumes "app_turns app_step ts (s, x) = Some (s', x')" "\<forall>t \<in> set ts. undisturbed io_of (m_conf (out_mc x)) t"
    and "int (rounds ts) < m_ignore_iterations (out_mc x)"
  shows "calls (out_mc x') = calls (out_mc x) \<and> m_fault_now (out_mc x') = m_fault_now (out_mc x) \<and>
    m_ignore_iterations (out_mc x') = m_ignore_iterations (out_mc x) - int (rounds ts)"
  using assms
proof (induction ts arbitrary: s x)
  case (Cons t ts)
  show ?case
  proof (cases t)
    case (App_turn i)
    then obtain s1 x1 where 1: "app_step i (s, x) = Some (s1, x1)" "app_turns app_step ts (s1, x1) = Some (s', x')"
      using Cons.prems(1) by (auto simp: bind_eq_Some_conv)
    have "m_ignore_iterations (out_mc x) \<noteq> 0" using Cons.prems(3) by auto
    then have "out_mc x1 = out_mc x"
      using held_runs [of "[i]" s x s1 x1] 1(1) Cons.prems(2) App_turn by simp
    with Cons.IH [OF 1(2)] Cons.prems(2,3) App_turn show ?thesis by (simp add: rounds_def)
  next
    case (Timer_round env)
    let ?m = "out_mc x" and ?m1 = "timer_thread env (out_mc x)"
    have c: "calm (m_conf ?m) env" "0 < m_ignore_iterations ?m" using Cons.prems(2,3) Timer_round by (auto simp: rounds_def)
    note w = tick_waiting [OF c]
    have "\<forall>t \<in> set ts. undisturbed io_of (m_conf ?m1) t" using Cons.prems(2) by (simp add: undisturbed_cong [OF w(4)])
    with Cons.IH [of s "x\<lparr>out_mc := ?m1\<rparr>"] Cons.prems(1,3) w(1-3) Timer_round show ?thesis by (simp add: rounds_def)
  qed
qed (simp add: rounds_def)

end

end
