(* ===== verification/AppPpm.thy ===== *)
theory AppPpm
  imports AppOutput ServoDec
begin

text \<open>
  The application that drives the motor from a servo pulse, \<open>app_ppm.c\<close>. Its thread wakes up at every decoded pulse and every 2 ms; an
  iteration takes what the decoder and the other components hold at that time. The state is the record \<open>ppm\<close>, with the static
  local of the safe start.
\<close>

section \<open>State\<close>

definition MIN_PULSES_WITHOUT_POWER :: i32 where "MIN_PULSES_WITHOUT_POWER = 50"

datatype ppm_event = Ppm_thread_created | Ppm_signal | Ppm_timer u32

record ppm =
  ppm_is_running :: bool
  ppm_conf :: ppm_config
  pulses_without_power :: i32
  pulses_without_power_before :: i32
  ppm_events :: "ppm_event list"

record ppm_in =
  ppm_io :: app_io
  ppm_servo :: servodec

section \<open>Configuration, start and the two sources of wake-ups\<close>

definition ppm_pulse_options :: "ppm \<Rightarrow> servodec \<Rightarrow> servodec" where
  "ppm_pulse_options p = servodec_set_pulse_options (ppm_pulse_start (ppm_conf p)) (ppm_pulse_end (ppm_conf p)) (ppm_median_filter (ppm_conf p))"

definition app_ppm_configure :: "ppm_config \<Rightarrow> ppm \<times> servodec \<Rightarrow> ppm \<times> servodec" where
  "app_ppm_configure conf = (\<lambda>(p, sv). (let p1 = p\<lparr>ppm_conf := conf, pulses_without_power := 0\<rparr> in
     (p1, if ppm_is_running p1 then ppm_pulse_options p1 sv else sv)))"

definition app_ppm_start :: "ppm \<Rightarrow> ppm" where
  "app_ppm_start p = p\<lparr>ppm_events := ppm_events p @ [Ppm_thread_created, Ppm_timer (MS2ST 1)]\<rparr>"

definition servodec_func :: "u32 \<Rightarrow> timeout_state \<Rightarrow> ppm \<Rightarrow> timeout_state \<times> ppm" where
  "servodec_func t tout p = (timeout_reset t tout, p\<lparr>ppm_events := ppm_events p @ [Ppm_signal]\<rparr>)"

definition ppm_update :: "ppm \<Rightarrow> ppm" where
  "ppm_update p = p\<lparr>ppm_events := ppm_events p @ [Ppm_timer (MS2ST 2), Ppm_signal]\<rparr>"

definition ppm_thread_start :: "ppm \<times> servodec \<Rightarrow> ppm \<times> servodec" where
  "ppm_thread_start = (\<lambda>(p, sv). (p\<lparr>ppm_is_running := True\<rparr>, servodec_init True (ppm_pulse_options p sv)))"

section \<open>An iteration of the thread\<close>

text \<open>A timeout, pulses that stopped, or a fault: the safe start begins again.\<close>

definition ppm_reset :: "ppm_in \<Rightarrow> app_out \<Rightarrow> bool" where
  "ppm_reset i x \<longleftrightarrow> timeout_has_timeout (out_tout x) \<or>
     servodec_get_time_since_update (io_time (ppm_io i)) (ppm_servo i) > timeout_get_timeout_msec (out_tout x) \<or>
     mc_interface_get_fault (out_mc x) \<noteq> FAULT_CODE_NONE"

definition ppm_value :: "ppm_config \<Rightarrow> real \<Rightarrow> real option" where
  "ppm_value c servo_val =
     app_deadband (if ppm_ctrl_type c \<in> {PPM_CTRL_TYPE_CURRENT_NOREV, PPM_CTRL_TYPE_DUTY_NOREV, PPM_CTRL_TYPE_PID_NOREV}
                   then fl (fl (servo_val + 1) / 2) else servo_val) (ppm_hyst c)"

definition ppm_action :: "ppm_config \<Rightarrow> mc_configuration \<Rightarrow> real \<Rightarrow> input_action option" where
  "ppm_action c mc v =
     (case ppm_ctrl_type c of
        PPM_CTRL_TYPE_CURRENT \<Rightarrow> Some (Set_current (throttle_current mc v))
      | PPM_CTRL_TYPE_CURRENT_NOREV \<Rightarrow> Some (Set_current (throttle_current mc v))
      | PPM_CTRL_TYPE_CURRENT_NOREV_BRAKE \<Rightarrow> Some (throttle_or_brake mc v)
      | PPM_CTRL_TYPE_DUTY \<Rightarrow> Some (Set_duty (throttle_duty mc v))
      | PPM_CTRL_TYPE_DUTY_NOREV \<Rightarrow> Some (Set_duty (throttle_duty mc v))
      | PPM_CTRL_TYPE_PID \<Rightarrow> Some (Set_speed (fl (v * ppm_pid_max_erpm c)))
      | PPM_CTRL_TYPE_PID_NOREV \<Rightarrow> Some (Set_speed (fl (v * ppm_pid_max_erpm c)))
      | _ \<Rightarrow> None)"

definition ppm_rest :: "ppm_config \<Rightarrow> real \<Rightarrow> bool" where
  "ppm_rest c v \<longleftrightarrow> (if ppm_ctrl_type c = PPM_CTRL_TYPE_CURRENT_NOREV_BRAKE then v < fl 0.001 else \<bar>v\<bar> < fl 0.001)"

definition ppm_drive_conf :: "ppm_config \<Rightarrow> drive_conf" where
  "ppm_drive_conf c = \<lparr>dc_rpm_lim_start = ppm_rpm_lim_start c, dc_rpm_lim_end = ppm_rpm_lim_end c, dc_multi_esc = ppm_multi_esc c,
     dc_tc = ppm_tc c, dc_tc_max_diff = ppm_tc_max_diff c\<rparr>"

text \<open>The counting of the safe start. It is complete or not wanted: the result says whether the motor may be driven.\<close>

definition ppm_count :: "bool \<Rightarrow> ppm \<Rightarrow> ppm" where
  "ppm_count at_rest p = (if at_rest then p\<lparr>pulses_without_power := pulses_without_power p + 1\<rparr> else p)"

definition ppm_gated :: "ppm \<Rightarrow> bool" where
  "ppm_gated p \<longleftrightarrow> pulses_without_power p <s MIN_PULSES_WITHOUT_POWER \<and> ppm_safe_start (ppm_conf p)"

definition ppm_hold :: "ppm \<Rightarrow> ppm" where
  "ppm_hold p =
     (let n = (if pulses_without_power p = pulses_without_power_before p then 0 else pulses_without_power p) in
      p\<lparr>pulses_without_power := n, pulses_without_power_before := n\<rparr>)"

definition ppm_step :: "ppm_in \<Rightarrow> ppm \<times> app_out \<Rightarrow> (ppm \<times> app_out) option" where
  "ppm_step i = (\<lambda>(p, x).
     if ppm_reset i x then Some (p\<lparr>pulses_without_power := 0\<rparr>, x)
     else
       do { servo_val \<leftarrow> servodec_get_servo 0 (ppm_servo i);
            v \<leftarrow> ppm_value (ppm_conf p) servo_val;
            case ppm_action (ppm_conf p) (m_conf (out_mc x)) v of
              None \<Rightarrow> Some (p, x)
            | Some a \<Rightarrow>
                let p1 = ppm_count (ppm_rest (ppm_conf p) v) p in
                if ppm_gated p1
                then Some (ppm_hold p1, out_cmd (ppm_io i) (Brake_current (timeout_get_brake_current (out_tout x))) x)
                else do { x1 \<leftarrow> post_output (ppm_drive_conf (ppm_conf p)) (ppm_io i) a (pre_output (ppm_io i) a x); Some (p1, x1) } })"

interpretation ppm: input_app ppm_step ppm_io
proof
  show "commanded (io_env (ppm_io i)) x x'" if "ppm_step i (s, x) = Some (s', x')" for i s x s' x'
    using that by (auto simp: ppm_step_def bind_eq_Some_conv Let_def split: if_splits option.splits
        dest!: post_output_cmds intro: commanded_trans [OF pre_output_cmds])
qed

section \<open>Safe start\<close>

text \<open>A run of the thread: before each iteration the other components may have changed everything but the state of the
  application. The result lists the motor commands of each iteration.\<close>

type_synonym ppm_wakeup = "ppm_in \<times> app_out"

definition new_cmds :: "app_out \<Rightarrow> app_out \<Rightarrow> motor_cmd list" where
  "new_cmds x x' = drop (length (out_cmds x)) (out_cmds x')"

primrec ppm_run :: "ppm_wakeup list \<Rightarrow> ppm \<Rightarrow> (ppm \<times> motor_cmd list list) option" where
  "ppm_run [] p = Some (p, [])"
| "ppm_run (e # es) p =
     do { (p1, x1) \<leftarrow> ppm_step (fst e) (p, snd e); (p2, css) \<leftarrow> ppm_run es p1; Some (p2, new_cmds (snd e) x1 # css) }"

lemma ppm_run_snoc:
  "ppm_run (es @ [e]) p =
     do { (p1, css) \<leftarrow> ppm_run es p; (p2, x1) \<leftarrow> ppm_step (fst e) (p1, snd e); Some (p2, css @ [new_cmds (snd e) x1]) }"
  by (induction es arbitrary: p) (simp_all add: split_def)

text \<open>The brake that the timeout is configured with at the time of an iteration.\<close>

definition configured_brake :: "app_out \<Rightarrow> motor_cmd" where
  "configured_brake x = Brake_current (timeout_get_brake_current (out_tout x))"

definition is_reset :: "ppm_wakeup \<Rightarrow> bool" where "is_reset e \<longleftrightarrow> ppm_reset (fst e) (snd e)"

definition at_rest :: "ppm_config \<Rightarrow> ppm_wakeup \<Rightarrow> bool" where
  "at_rest c e \<longleftrightarrow> \<not> is_reset e \<and>
     (case servodec_get_servo 0 (ppm_servo (fst e)) of Some s \<Rightarrow> (case ppm_value c s of Some v \<Rightarrow> ppm_rest c v | None \<Rightarrow> False) | None \<Rightarrow> False)"

definition rest_tail :: "ppm_config \<Rightarrow> nat \<Rightarrow> ppm_wakeup list \<Rightarrow> bool" where
  "rest_tail c n es \<longleftrightarrow> n \<le> length es \<and> (\<forall>e \<in> set (drop (length es - n) es). at_rest c e)"

definition started :: "ppm_config \<Rightarrow> ppm_wakeup list \<Rightarrow> bool" where
  "started c es \<longleftrightarrow> (\<exists>pre mid post. es = pre @ mid @ post \<and> length mid = 50 \<and> (\<forall>e \<in> set mid. at_rest c e) \<and> (\<forall>e \<in> set post. \<not> is_reset e))"

lemma rest_tail_0 [simp]: "rest_tail c 0 es"
  by (simp add: rest_tail_def)

lemma rest_tail_snoc: "rest_tail c n es \<Longrightarrow> at_rest c e \<Longrightarrow> rest_tail c (Suc n) (es @ [e])"
  by (auto simp: rest_tail_def Suc_diff_le)

lemma started_tail: "rest_tail c 50 es \<Longrightarrow> started c es"
  unfolding started_def rest_tail_def
  by (intro exI [of _ "take (length es - 50) es"] exI [of _ "drop (length es - 50) es"] exI [of _ "[]"]) simp

lemma started_snoc: "started c es \<Longrightarrow> \<not> is_reset e \<Longrightarrow> started c (es @ [e])"
  unfolding started_def by (elim exE conjE) (rule exI, rule exI, rule_tac x = "post @ [e]" in exI, auto)

text \<open>The counter is a signed 32-bit number: below its maximum it counts, at the maximum it becomes negative.\<close>

lemma sint_count: "sint (n + 1 :: i32) = sint n + 1 \<or> sint (n + 1 :: i32) < 0 \<and> sint n = 2 ^ 31 - 1"
proof -
  have r: "- (2 ^ 31) \<le> sint n" "sint n < 2 ^ 31" using sint_greater_eq [of n] sint_less [of n] by simp_all
  have e: "sint (n + 1) = signed_take_bit 31 (sint n + 1)"
    using sint_word_ariths(1) [of n 1] by simp
  show ?thesis
  proof (cases "sint n = 2 ^ 31 - 1")
    case True
    then have "sint (n + 1) = signed_take_bit 31 (2 ^ 31)" using e by simp
    then show ?thesis using True by (simp add: signed_take_bit_eq_take_bit_shift take_bit_eq_mod)
  next
    case False
    then show ?thesis using e r by (simp add: signed_take_bit_int_eq_self)
  qed
qed

definition ppm_controls :: "ppm_config \<Rightarrow> bool" where
  "ppm_controls c \<longleftrightarrow> ppm_ctrl_type c \<in> {PPM_CTRL_TYPE_CURRENT, PPM_CTRL_TYPE_CURRENT_NOREV, PPM_CTRL_TYPE_CURRENT_NOREV_BRAKE,
     PPM_CTRL_TYPE_DUTY, PPM_CTRL_TYPE_DUTY_NOREV, PPM_CTRL_TYPE_PID, PPM_CTRL_TYPE_PID_NOREV}"

lemma ppm_action_controls: "ppm_action c mc v \<noteq> None \<longleftrightarrow> ppm_controls c"
  by (simp add: ppm_action_def ppm_controls_def split: ppm_control_type.split)

definition safe_start_inv :: "ppm_config \<Rightarrow> ppm_wakeup list \<Rightarrow> ppm \<Rightarrow> bool" where
  "safe_start_inv c es p \<longleftrightarrow> ppm_conf p = c \<and> (ppm_controls c \<or> pulses_without_power p = 0) \<and>
     (if sint (pulses_without_power p) < 50
      then (pulses_without_power p = 0 \<or> pulses_without_power p = pulses_without_power_before p) \<and>
           rest_tail c (nat (sint (pulses_without_power p))) es
      else started c es)"

lemma gated_sint: "ppm_gated p \<longleftrightarrow> sint (pulses_without_power p) < 50 \<and> ppm_safe_start (ppm_conf p)"
  by (simp add: ppm_gated_def MIN_PULSES_WITHOUT_POWER_def word_sless_alt)

text \<open>An iteration at rest counts one more of them, and the fiftieth one in a row completes the start.\<close>

lemma safe_start_count:
  assumes "safe_start_inv c es p" "at_rest c e"
  shows "if sint (pulses_without_power p + 1) < 50 then rest_tail c (nat (sint (pulses_without_power p + 1))) (es @ [e]) else started c (es @ [e])"
proof -
  let ?n = "pulses_without_power p"
  show ?thesis
  proof (cases "sint ?n < 50")
    case small: True
    then have s: "sint (?n + 1) = sint ?n + 1" using sint_count [of ?n] by auto
    have t: "rest_tail c (nat (sint ?n)) es" using assms(1) small by (simp add: safe_start_inv_def)
    have "rest_tail c (nat (sint ?n + 1)) (es @ [e])"
    proof (cases "sint ?n < 0")
      case False
      then have "nat (sint ?n + 1) = Suc (nat (sint ?n))" by simp
      then show ?thesis using rest_tail_snoc [OF t assms(2)] by simp
    qed simp
    then show ?thesis using started_tail [of c "es @ [e]"] small unfolding s by (cases "sint ?n = 49") auto
  next
    case False
    then have "started c (es @ [e])" using assms started_snoc by (simp add: safe_start_inv_def at_rest_def)
    then show ?thesis using sint_count [of ?n] False by auto
  qed
qed

lemma hold_inv:
  assumes "ppm_conf p = c" "ppm_controls c" "sint (pulses_without_power p) < 50"
    "pulses_without_power p = 0 \<or> pulses_without_power p = pulses_without_power_before p \<or> rest_tail c (nat (sint (pulses_without_power p))) es"
  shows "safe_start_inv c es (ppm_hold p)"
  using assms by (auto simp: safe_start_inv_def ppm_hold_def Let_def)

lemma count_fields:
  "ppm_conf (ppm_count r p) = ppm_conf p" "pulses_without_power_before (ppm_count r p) = pulses_without_power_before p"
  "pulses_without_power (ppm_count r p) = (if r then pulses_without_power p + 1 else pulses_without_power p)"
  by (simp_all add: ppm_count_def)

lemma new_cmds_out [simp]: "new_cmds x (out_cmd io c x) = [c]" "new_cmds x x = []"
  by (simp_all add: new_cmds_def out_cmd_def)

text \<open>One iteration keeps the invariant, and drives the motor only when the start is complete.\<close>

lemma safe_start_controls:
  assumes "safe_start_inv c es p" "ppm_safe_start c" "ppm_controls c" "\<not> is_reset e" "r \<Longrightarrow> at_rest c e"
  shows "if ppm_gated (ppm_count r p) then safe_start_inv c (es @ [e]) (ppm_hold (ppm_count r p))
    else safe_start_inv c (es @ [e]) (ppm_count r p) \<and> started c (es @ [e])"
proof (cases r)
  case True
  have "at_rest c e" using True assms(5) by simp
  from safe_start_count [OF assms(1) this] assms(1-3) show ?thesis
    using hold_inv [of "ppm_count r p" c "es @ [e]"] True
    by (auto simp: gated_sint count_fields safe_start_inv_def split: if_split_asm)
next
  case False
  then show ?thesis using assms hold_inv [of "ppm_count r p" c "es @ [e]"] started_snoc [of c es e]
    by (auto simp: gated_sint count_fields safe_start_inv_def split: if_split_asm)
qed

lemma safe_start_step:
  assumes "safe_start_inv c es p" "ppm_safe_start c" "ppm_step i (p, x) = Some (p', x')"
  shows "safe_start_inv c (es @ [(i, x)]) p' \<and> (started c (es @ [(i, x)]) \<or> set (new_cmds x x') \<subseteq> {configured_brake x})"
proof (cases "ppm_reset i x")
  case True
  then show ?thesis using assms by (auto simp: ppm_step_def safe_start_inv_def)
next
  case False
  let ?e = "(i, x)"
  have c: "ppm_conf p = c" and nr: "\<not> is_reset ?e" using assms(1) False by (simp_all add: safe_start_inv_def is_reset_def)
  from assms(3) False obtain sv v where v: "servodec_get_servo 0 (ppm_servo i) = Some sv" "ppm_value c sv = Some v"
    and st: "(case ppm_action c (m_conf (out_mc x)) v of None \<Rightarrow> Some (p, x) | Some a \<Rightarrow>
        let p1 = ppm_count (ppm_rest c v) p in
        if ppm_gated p1 then Some (ppm_hold p1, out_cmd (ppm_io i) (Brake_current (timeout_get_brake_current (out_tout x))) x)
        else do { x1 \<leftarrow> post_output (ppm_drive_conf c) (ppm_io i) a (pre_output (ppm_io i) a x); Some (p1, x1) }) = Some (p', x')"
    unfolding ppm_step_def prod.case c by (auto simp: bind_eq_Some_conv)
  have r: "ppm_rest c v \<Longrightarrow> at_rest c ?e" using v nr by (simp add: at_rest_def)
  show ?thesis
  proof (cases "ppm_action c (m_conf (out_mc x)) v")
    case None
    then have "\<not> ppm_controls c" "p' = p" "x' = x" using ppm_action_controls [of c "m_conf (out_mc x)" v] st by auto
    then show ?thesis using assms(1) by (simp add: safe_start_inv_def)
  next
    case (Some a)
    then have "ppm_controls c" using ppm_action_controls [of c "m_conf (out_mc x)" v] by auto
    from safe_start_controls [OF assms(1,2) this nr r] show ?thesis
      using st Some by (auto simp: Let_def bind_eq_Some_conv configured_brake_def split: if_split_asm)
  qed
qed

lemma safe_start_run:
  assumes "ppm_conf p = c" "ppm_safe_start c" "pulses_without_power p = 0" "ppm_run es p = Some (p', css)"
  shows "safe_start_inv c es p' \<and> length css = length es \<and>
    (\<forall>j < length es. started c (take (Suc j) es) \<or> set (css ! j) \<subseteq> {configured_brake (snd (es ! j))})"
  using assms(4)
proof (induction es arbitrary: p' css rule: rev_induct)
  case Nil
  then show ?case using assms(1,3) by (simp add: safe_start_inv_def)
next
  case (snoc e es)
  then obtain p1 css1 x1 where 1: "ppm_run es p = Some (p1, css1)" "ppm_step (fst e) (p1, snd e) = Some (p', x1)"
    "css = css1 @ [new_cmds (snd e) x1]" by (auto simp: ppm_run_snoc bind_eq_Some_conv)
  note IH = snoc.IH [OF 1(1)]
  have "safe_start_inv c es p1" using IH by simp
  from safe_start_step [OF this assms(2) 1(2)] IH 1(3) show ?case by (auto simp: nth_append less_Suc_eq)
qed

text \<open>C20: Safe start of the pulse application: from a fresh configuration on, whatever the pulses, the other components and the CAN bus
  do between the iterations, an iteration gives the motor of this controller a command other than braking with the brake current of the timeout, as
  it is configured at that moment, only after fifty iterations in a row with the throttle at rest and no timeout, fault or loss of pulses from the
  first of them on; a throttle that asks for another brake current is held back too.\<close>

theorem ppm_safe_start_holds:
  assumes "ppm_safe_start conf" "ppm_run es (fst (app_ppm_configure conf (p, sd))) = Some (p', css)"
    and "j < length es" "cmd \<in> set (css ! j)" "cmd \<noteq> configured_brake (snd (es ! j))"
  shows "\<exists>pre mid post. take (Suc j) es = pre @ mid @ post \<and> length mid = 50 \<and> (\<forall>e \<in> set mid. at_rest conf e) \<and>
    (\<forall>e \<in> set (mid @ post). \<not> is_reset e)"
proof -
  have "ppm_conf (fst (app_ppm_configure conf (p, sd))) = conf" "pulses_without_power (fst (app_ppm_configure conf (p, sd))) = 0"
    by (simp_all add: app_ppm_configure_def Let_def)
  from safe_start_run [OF this(1) assms(1) this(2) assms(2)] assms(3-5) have "started conf (take (Suc j) es)" by blast
  then obtain pre mid post where s: "take (Suc j) es = pre @ mid @ post" "length mid = 50" "\<forall>e \<in> set mid. at_rest conf e"
    "\<forall>e \<in> set post. \<not> is_reset e" unfolding started_def by blast
  then have "\<forall>e \<in> set (mid @ post). \<not> is_reset e" by (auto simp: at_rest_def)
  with s(1-3) show ?thesis by blast
qed

section \<open>Example\<close>

definition ppm_sample_conf :: ppm_config where
  "ppm_sample_conf = \<lparr>ppm_ctrl_type = PPM_CTRL_TYPE_CURRENT, ppm_pid_max_erpm = 15000, ppm_hyst = fl 0.15, ppm_pulse_start = 1, ppm_pulse_end = 2,
     ppm_median_filter = False, ppm_safe_start = True, ppm_rpm_lim_start = 150000, ppm_rpm_lim_end = 200000, ppm_multi_esc = False,
     ppm_tc = False, ppm_tc_max_diff = 3000\<rparr>"

definition ppm_boot :: ppm where
  "ppm_boot = \<lparr>ppm_is_running = True, ppm_conf = ppm_sample_conf, pulses_without_power = 0, pulses_without_power_before = 0, ppm_events = []\<rparr>"

definition sample_wakeup :: ppm_wakeup where
  "sample_wakeup = (\<lparr>ppm_io = \<lparr>io_env = rest, io_time = 0, io_msgs = []\<rparr>, ppm_servo = servodec_boot\<rparr>,
     \<lparr>out_mc = mcif_start, out_tout = timeout_init, out_frames = [], out_cmds = []\<rparr>)"

lemma sample_step:
  assumes "ppm_conf p = ppm_sample_conf"
  shows "ppm_step (fst sample_wakeup) (p, snd sample_wakeup) =
    (let p1 = ppm_count True p in
     if ppm_gated p1 then Some (ppm_hold p1, out_cmd (ppm_io (fst sample_wakeup)) (Brake_current 0) (snd sample_wakeup))
     else Some (p1, out_cmd (ppm_io (fst sample_wakeup)) (Current 0) (snd sample_wakeup)))"
proof -
  have "fl (1 / 2 ^ 10) = 1 / 2 ^ 10" using fl_dyadic [of 1 10] by simp
  then have "0 < fl (3 / 20)" "0 < fl (1 / 1000)"
    using fl_mono [of "1 / 2 ^ 10" "3 / 20"] fl_mono [of "1 / 2 ^ 10" "1 / 1000"] by simp_all
  then show ?thesis
    using assms
    by (simp add: ppm_step_def sample_wakeup_def ppm_reset_def timeout_has_timeout_def timeout_init_def servodec_get_time_since_update_def
      servodec_boot_def timeout_get_timeout_msec_def mc_interface_get_fault_def mcif_start_def servodec_get_servo_def SERVO_NUM_def
      arr_get_def ppm_value_def app_deadband_def utils_deadband_def ppm_sample_conf_def chVTTimeElapsedSinceX_def ppm_action_def
      ppm_rest_def throttle_current_def timeout_get_brake_current_def post_output_def pre_output_def drive_current_def ppm_drive_conf_def
      soft_rpm_limit_def traction_def rpm_lowest_def Let_def)
qed

lemma sample_holds:
  assumes "k < 49"
  shows "ppm_step (fst sample_wakeup) (ppm_boot\<lparr>pulses_without_power := of_nat k, pulses_without_power_before := of_nat k\<rparr>, snd sample_wakeup) =
    Some (ppm_boot\<lparr>pulses_without_power := of_nat (Suc k), pulses_without_power_before := of_nat (Suc k)\<rparr>,
      out_cmd (ppm_io (fst sample_wakeup)) (Brake_current 0) (snd sample_wakeup))"
proof -
  have "k \<in> set [0..<49]" using assms by simp
  then show ?thesis
    by (simp add: upt_rec) (elim disjE; simp add: sample_step ppm_boot_def ppm_count_def ppm_gated_def ppm_hold_def MIN_PULSES_WITHOUT_POWER_def ppm_sample_conf_def word_sless_alt Let_def)
qed

lemma replicate_snoc: "replicate (Suc k) y = replicate k y @ [y]"
  by (induction k) simp_all

lemma sample_run:
  "k \<le> 49 \<Longrightarrow> ppm_run (replicate k sample_wakeup) ppm_boot =
    Some (ppm_boot\<lparr>pulses_without_power := of_nat k, pulses_without_power_before := of_nat k\<rparr>, replicate k [Brake_current 0])"
proof (induction k)
  case 0
  then show ?case by (simp add: ppm_boot_def)
next
  case (Suc k)
  show ?case unfolding replicate_snoc using Suc sample_holds [of k] by (simp add: ppm_run_snoc del: of_nat_Suc)
qed

theorem ppm_safe_start_holds_witness:
  "\<exists>pre mid post. replicate 50 sample_wakeup = pre @ mid @ post \<and> length mid = 50 \<and> (\<forall>e \<in> set mid. at_rest ppm_sample_conf e) \<and>
    (\<forall>e \<in> set (mid @ post). \<not> is_reset e)"
proof -
  let ?es = "replicate 50 sample_wakeup" and ?p = "fst (app_ppm_configure ppm_sample_conf (ppm_boot, servodec_boot))"
  have p: "?p = ppm_boot" by (simp add: app_ppm_configure_def ppm_boot_def Let_def)
  have "?es = replicate 49 sample_wakeup @ [sample_wakeup]" by (simp add: numeral_eq_Suc)
  then have "ppm_run ?es ?p = Some (ppm_boot\<lparr>pulses_without_power := 50, pulses_without_power_before := 49\<rparr>, replicate 49 [Brake_current 0] @ [[Current 0]])"
    using sample_run [of 49] unfolding p
    by (simp add: ppm_run_snoc sample_step ppm_boot_def ppm_count_def ppm_gated_def MIN_PULSES_WITHOUT_POWER_def word_sless_alt Let_def
      del: replicate.simps)
  from ppm_safe_start_holds [OF _ this, of 49 "Current 0"] show ?thesis by (auto simp: ppm_sample_conf_def nth_append configured_brake_def)
qed

end
