(* ===== verification/AppAdc.thy ===== *)
theory AppAdc
  imports AppOutput
begin

text \<open>
  The application that drives the motor from two analog inputs and up to two buttons, \<open>app_adc.c\<close>. An iteration of its thread follows a
  sleep of \<open>CH_CFG_ST_FREQUENCY / update_rate_hz\<close> ticks. The state is the record \<open>adc_app\<close>, with the mean value filters and the other
  static locals of the thread; the converter and the pins are inputs of an iteration.
\<close>

section \<open>State\<close>

definition MIN_MS_WITHOUT_POWER :: real where "MIN_MS_WITHOUT_POWER = 500"
definition FILTER_SAMPLES :: nat where "FILTER_SAMPLES = 5"

record adc_app =
  adc_conf :: adc_config
  ms_without_power :: real
  decoded_level :: real
  read_voltage :: real
  decoded_level2 :: real
  read_voltage2 :: real
  use_rx_tx_as_buttons :: bool
  adc_filter1 :: mean_filter
  adc_filter2 :: mean_filter
  ms_without_power_before :: int
  was_pid :: bool
  adc_rpm_filter :: mean_filter
  pid_rpm :: real

record adc_in =
  adc_io :: app_io
  in_ext :: u16
  in_ext2 :: u16
  pad_tx :: bool
  pad_rx :: bool
  pad_icu :: bool

definition app_adc_configure :: "adc_config \<Rightarrow> adc_app \<Rightarrow> adc_app" where
  "app_adc_configure conf a = a\<lparr>adc_conf := conf, ms_without_power := 0\<rparr>"

definition app_adc_start :: "bool \<Rightarrow> adc_app \<Rightarrow> adc_app" where
  "app_adc_start use_rx_tx a = a\<lparr>use_rx_tx_as_buttons := use_rx_tx\<rparr>"

definition app_adc_get_decoded_level :: "adc_app \<Rightarrow> real" where "app_adc_get_decoded_level a = decoded_level a"
definition app_adc_get_voltage :: "adc_app \<Rightarrow> real" where "app_adc_get_voltage a = read_voltage a"
definition app_adc_get_decoded_level2 :: "adc_app \<Rightarrow> real" where "app_adc_get_decoded_level2 a = decoded_level2 a"
definition app_adc_get_voltage2 :: "adc_app \<Rightarrow> real" where "app_adc_get_voltage2 a = read_voltage2 a"

section \<open>Inputs\<close>

definition adc_volts :: "u16 \<Rightarrow> real" where
  "adc_volts v = fl (fl (of_nat (unat v) / 4095) * fl 3.3)"

text \<open>The level between 0 and 1 of a voltage. With equal limits \<open>utils_map\<close> divides by zero.\<close>

definition adc_level :: "adc_config \<Rightarrow> real \<Rightarrow> real option" where
  "adc_level c v =
     (if adc_voltage_start c = adc_voltage_end c then None
      else Some (let l = snd (utils_truncate_number (utils_map v (adc_voltage_start c) (adc_voltage_end c) 0 1) 0 1) in
                 if adc_voltage_inverted c then fl (1 - l) else l))"

definition adc_read1 :: "u16 \<Rightarrow> adc_app \<Rightarrow> adc_app option" where
  "adc_read1 raw a =
     do { (v, f) \<leftarrow> (if adc_use_filter (adc_conf a) then filter_mean FILTER_SAMPLES (adc_volts raw) (adc_filter1 a) else Some (adc_volts raw, adc_filter1 a));
          l \<leftarrow> adc_level (adc_conf a) v;
          Some (a\<lparr>read_voltage := adc_volts raw, adc_filter1 := f, decoded_level := l\<rparr>) }"

definition adc_read2 :: "u16 \<Rightarrow> adc_app \<Rightarrow> adc_app option" where
  "adc_read2 raw a =
     do { (v, f) \<leftarrow> (if adc_use_filter (adc_conf a) then filter_mean FILTER_SAMPLES (adc_volts raw) (adc_filter2 a) else Some (adc_volts raw, adc_filter2 a));
          l \<leftarrow> adc_level (adc_conf a) v;
          Some (a\<lparr>read_voltage2 := adc_volts raw, adc_filter2 := f, decoded_level2 := l\<rparr>) }"

text \<open>The buttons pull their pins low. With one pin its meaning depends on the mode.\<close>

definition adc_buttons :: "adc_in \<Rightarrow> adc_app \<Rightarrow> bool \<times> bool" where
  "adc_buttons i a =
     (let c = adc_conf a in
      if use_rx_tx_as_buttons a then ((\<not> pad_tx i) \<noteq> adc_cc_button_inverted c, (\<not> pad_rx i) \<noteq> adc_rev_button_inverted c)
      else if adc_ctrl_type c \<in> {ADC_CTRL_TYPE_CURRENT_REV_BUTTON, ADC_CTRL_TYPE_CURRENT_NOREV_BRAKE_BUTTON, ADC_CTRL_TYPE_DUTY_REV_BUTTON}
      then (False, (\<not> pad_icu i) \<noteq> adc_rev_button_inverted c)
      else ((\<not> pad_icu i) \<noteq> adc_cc_button_inverted c, False))"

definition adc_power :: "adc_config \<Rightarrow> bool \<Rightarrow> real \<Rightarrow> real \<Rightarrow> real" where
  "adc_power c rev_button pwr brake =
     (case adc_ctrl_type c of
        ADC_CTRL_TYPE_CURRENT_REV_CENTER \<Rightarrow> fl (fl (pwr * 2) - 1)
      | ADC_CTRL_TYPE_CURRENT_NOREV_BRAKE_CENTER \<Rightarrow> fl (fl (pwr * 2) - 1)
      | ADC_CTRL_TYPE_DUTY_REV_CENTER \<Rightarrow> fl (fl (pwr * 2) - 1)
      | ADC_CTRL_TYPE_CURRENT_NOREV_BRAKE_ADC \<Rightarrow> (if brake > fl 0.01 then - brake else pwr)
      | ADC_CTRL_TYPE_CURRENT_REV_BUTTON \<Rightarrow> (if rev_button then - pwr else pwr)
      | ADC_CTRL_TYPE_CURRENT_NOREV_BRAKE_BUTTON \<Rightarrow> (if rev_button then - pwr else pwr)
      | ADC_CTRL_TYPE_DUTY_REV_BUTTON \<Rightarrow> (if rev_button then - pwr else pwr)
      | _ \<Rightarrow> pwr)"

definition adc_action :: "adc_config \<Rightarrow> mc_configuration \<Rightarrow> real \<Rightarrow> input_action option" where
  "adc_action c mc v =
     (case adc_ctrl_type c of
        ADC_CTRL_TYPE_CURRENT \<Rightarrow> Some (Set_current (throttle_current mc v))
      | ADC_CTRL_TYPE_CURRENT_REV_CENTER \<Rightarrow> Some (Set_current (throttle_current mc v))
      | ADC_CTRL_TYPE_CURRENT_REV_BUTTON \<Rightarrow> Some (Set_current (throttle_current mc v))
      | ADC_CTRL_TYPE_CURRENT_NOREV_BRAKE_CENTER \<Rightarrow> Some (throttle_or_brake mc v)
      | ADC_CTRL_TYPE_CURRENT_NOREV_BRAKE_BUTTON \<Rightarrow> Some (throttle_or_brake mc v)
      | ADC_CTRL_TYPE_CURRENT_NOREV_BRAKE_ADC \<Rightarrow> Some (throttle_or_brake mc v)
      | ADC_CTRL_TYPE_DUTY \<Rightarrow> Some (Set_duty (throttle_duty mc v))
      | ADC_CTRL_TYPE_DUTY_REV_CENTER \<Rightarrow> Some (Set_duty (throttle_duty mc v))
      | ADC_CTRL_TYPE_DUTY_REV_BUTTON \<Rightarrow> Some (Set_duty (throttle_duty mc v))
      | _ \<Rightarrow> None)"

definition adc_rest :: "adc_config \<Rightarrow> real \<Rightarrow> bool" where
  "adc_rest c v \<longleftrightarrow>
     (if adc_ctrl_type c \<in> {ADC_CTRL_TYPE_CURRENT_NOREV_BRAKE_CENTER, ADC_CTRL_TYPE_CURRENT_NOREV_BRAKE_BUTTON, ADC_CTRL_TYPE_CURRENT_NOREV_BRAKE_ADC}
      then v < fl 0.001 else \<bar>v\<bar> < fl 0.001)"

definition adc_drive_conf :: "adc_config \<Rightarrow> drive_conf" where
  "adc_drive_conf c = \<lparr>dc_rpm_lim_start = adc_rpm_lim_start c, dc_rpm_lim_end = adc_rpm_lim_end c, dc_multi_esc = adc_multi_esc c,
     dc_tc = adc_tc c, dc_tc_max_diff = adc_tc_max_diff c\<rparr>"

section \<open>An iteration of the thread\<close>

definition adc_sleep_time :: "adc_config \<Rightarrow> u32 option" where
  "adc_sleep_time c =
     (if adc_update_rate_hz c = 0 then None
      else Some (let t = CH_CFG_ST_FREQUENCY div adc_update_rate_hz c in if t = 0 then 1 else t))"

definition adc_count :: "u32 \<Rightarrow> bool \<Rightarrow> adc_app \<Rightarrow> adc_app" where
  "adc_count sleep_time at_rest a =
     (if at_rest
      then a\<lparr>ms_without_power := fl (ms_without_power a + fl (fl (1000 * fl (of_nat (unat sleep_time))) / fl (of_nat (unat CH_CFG_ST_FREQUENCY))))\<rparr>
      else a)"

definition adc_gated :: "adc_app \<Rightarrow> bool" where
  "adc_gated a \<longleftrightarrow> ms_without_power a < MIN_MS_WITHOUT_POWER \<and> adc_safe_start (adc_conf a)"

text \<open>The previous value is kept as an integer: its fraction is cut off.\<close>

definition adc_hold :: "adc_app \<Rightarrow> adc_app" where
  "adc_hold a =
     (let ms = (if ms_without_power a = of_int (ms_without_power_before a) then 0 else ms_without_power a) in
      a\<lparr>ms_without_power := ms, ms_without_power_before := ftrunc ms\<rparr>)"

definition adc_brake :: "adc_in \<Rightarrow> adc_config \<Rightarrow> app_out \<Rightarrow> app_out option" where
  "adc_brake i c x =
     (let b = timeout_get_brake_current (out_tout x); x1 = out_cmd (adc_io i) (Brake_current b) x in
      if adc_multi_esc c then send_each (\<lambda>n. comm_can_set_current_brake n b) (recent (adc_io i)) x1 else Some x1)"

text \<open>Speed control on the button: the speed of the moment it was pressed is kept.\<close>

definition adc_cruise :: "adc_in \<Rightarrow> real \<Rightarrow> adc_app \<Rightarrow> app_out \<Rightarrow> (adc_app \<times> app_out) option" where
  "adc_cruise i rpm_filtered a x =
     (let a1 = (if \<not> was_pid a then a\<lparr>was_pid := True, pid_rpm := rpm_filtered\<rparr> else a);
          x1 = out_cmd (adc_io i) (Pid_speed (pid_rpm a1)) x in
      do { x2 \<leftarrow> (if adc_multi_esc (adc_conf a) then send_duty_now (adc_io i) x1 else Some x1); Some (a1, x2) })"

definition adc_drive :: "adc_in \<Rightarrow> bool \<Rightarrow> real \<Rightarrow> input_action \<Rightarrow> adc_app \<Rightarrow> app_out \<Rightarrow> (adc_app \<times> app_out) option" where
  "adc_drive i cc_button pwr act a x =
     (let x1 = out_reset_timeout (adc_io i) (pre_output (adc_io i) act x) in
      do { (rpm_filtered, f) \<leftarrow> filter_mean RPM_FILTER_SAMPLES (mc_interface_get_rpm (io_env (adc_io i)) (out_mc x1)) (adc_rpm_filter a);
           let a1 = a\<lparr>adc_rpm_filter := f\<rparr>;
           if (case act of Set_current _ \<Rightarrow> True | Set_brake _ \<Rightarrow> True | _ \<Rightarrow> False) \<and> cc_button \<and> \<bar>pwr\<bar> < fl 0.001
           then adc_cruise i rpm_filtered a1 x1
           else do { x2 \<leftarrow> post_output (adc_drive_conf (adc_conf a)) (adc_io i) act x1; Some (a1\<lparr>was_pid := False\<rparr>, x2) } })"

text \<open>The first half of an iteration: the sleep, the inputs, the throttle. The second half: what is done with it.\<close>

definition adc_decode :: "adc_in \<Rightarrow> app_out \<Rightarrow> adc_app \<Rightarrow> (u32 \<times> bool \<times> real \<times> adc_app) option" where
  "adc_decode i x a =
     do { sleep_time \<leftarrow> adc_sleep_time (adc_conf a);
          let a0 = (if mc_interface_get_fault (out_mc x) \<noteq> FAULT_CODE_NONE then a\<lparr>ms_without_power := 0\<rparr> else a);
          a1 \<leftarrow> adc_read1 (in_ext i) a0;
          a2 \<leftarrow> adc_read2 (in_ext2 i) a1;
          let (cc_button, rev_button) = adc_buttons i a2;
          pwr \<leftarrow> app_deadband (adc_power (adc_conf a) rev_button (decoded_level a2) (decoded_level2 a2)) (adc_hyst (adc_conf a));
          Some (sleep_time, cc_button, pwr, a2) }"

definition adc_react :: "adc_in \<Rightarrow> u32 \<Rightarrow> bool \<Rightarrow> real \<Rightarrow> adc_app \<times> app_out \<Rightarrow> (adc_app \<times> app_out) option" where
  "adc_react i sleep_time cc_button pwr = (\<lambda>(a, x).
     case adc_action (adc_conf a) (m_conf (out_mc x)) pwr of
       None \<Rightarrow> Some (a, x)
     | Some act \<Rightarrow>
         let a1 = adc_count sleep_time (adc_rest (adc_conf a) pwr) a in
         if adc_gated a1 then do { x1 \<leftarrow> adc_brake i (adc_conf a) x; Some (adc_hold a1, x1) }
         else adc_drive i cc_button pwr act a1 x)"

definition adc_step :: "adc_in \<Rightarrow> adc_app \<times> app_out \<Rightarrow> (adc_app \<times> app_out) option" where
  "adc_step i = (\<lambda>(a, x). do { (sleep_time, cc_button, pwr, a1) \<leftarrow> adc_decode i x a; adc_react i sleep_time cc_button pwr (a1, x) })"

section \<open>The application acts through the motor interface\<close>

lemma reset_timeout_same [simp]: "out_mc (out_reset_timeout io x) = out_mc x" "out_cmds (out_reset_timeout io x) = out_cmds x"
  by (simp_all add: out_reset_timeout_def)

lemma drive_commands: "adc_drive i cc p act a x = Some (a', x') \<Longrightarrow> commanded (io_env (adc_io i)) x x'"
proof -
  let ?x = "out_reset_timeout (adc_io i) (pre_output (adc_io i) act x)"
  assume "adc_drive i cc p act a x = Some (a', x')"
  then have "commanded (io_env (adc_io i)) ?x x'"
    by (auto simp: adc_drive_def adc_cruise_def Let_def bind_eq_Some_conv send_duty_now_def split: if_split_asm
        dest!: send_each_frame post_output_cmds intro: commanded_trans [OF commanded_cmd commanded_same])
  moreover have "commanded (io_env (adc_io i)) x ?x" by (rule commanded_trans [OF pre_output_cmds commanded_same]) simp_all
  ultimately show ?thesis by (metis commanded_trans)
qed

lemma brake_commands: "adc_brake i c x = Some x' \<Longrightarrow> commanded (io_env (adc_io i)) x x'"
  by (auto simp: adc_brake_def Let_def split: if_split_asm dest!: send_each_frame intro: commanded_trans [OF commanded_cmd commanded_same])

interpretation adc: input_app adc_step adc_io
proof
  show "commanded (io_env (adc_io i)) x x'" if "adc_step i (s, x) = Some (s', x')" for i s x s' x'
    using that by (auto simp: adc_step_def adc_react_def bind_eq_Some_conv Let_def split: if_split_asm option.split_asm
        dest: drive_commands brake_commands)
qed

section \<open>Well-typed states\<close>

text \<open>The types of the state: arrays of their declared lengths with pointers inside them, float values that a float can hold, levels
  between 0 and 1, and a time that is not negative.\<close>

definition level_ok :: "real \<Rightarrow> bool" where "level_ok x \<longleftrightarrow> is_f32 x \<and> 0 \<le> x \<and> x \<le> 1"

definition adc_typed :: "adc_app \<Rightarrow> bool" where
  "adc_typed a \<longleftrightarrow> mean_filter_ok FILTER_SAMPLES (adc_filter1 a) \<and> mean_filter_ok FILTER_SAMPLES (adc_filter2 a) \<and>
     mean_filter_ok RPM_FILTER_SAMPLES (adc_rpm_filter a) \<and> level_ok (decoded_level a) \<and> level_ok (decoded_level2 a) \<and>
     is_f32 (read_voltage a) \<and> is_f32 (read_voltage2 a) \<and> is_f32 (ms_without_power a) \<and> 0 \<le> ms_without_power a \<and> is_f32 (pid_rpm a)"

definition adc_conf_ok :: "adc_config \<Rightarrow> bool" where
  "adc_conf_ok c \<longleftrightarrow> adc_update_rate_hz c \<noteq> 0 \<and> adc_voltage_start c \<noteq> adc_voltage_end c \<and> adc_hyst c \<noteq> 1 \<and>
     (adc_tc c \<longrightarrow> adc_tc_max_diff c \<noteq> 0)"

lemma adc_level_ok:
  assumes "adc_voltage_start c \<noteq> adc_voltage_end c"
  shows "\<exists>l. adc_level c v = Some l \<and> level_ok l"
proof -
  have "level_ok (snd (utils_truncate_number (utils_map v (adc_voltage_start c) (adc_voltage_end c) 0 1) 0 1))"
    by (auto simp: level_ok_def utils_truncate_number_def utils_map_def fl_is_f32 f32_0 f32_1)
  moreover have "level_ok (fl (1 - l))" if "level_ok l" for l
    using that by (auto simp: level_ok_def fl_is_f32 intro!: f32.rnd_nonneg f32.rnd_le f32_1)
  ultimately show ?thesis using assms by (auto simp: adc_level_def Let_def)
qed

lemma adc_volts_f32: "is_f32 (adc_volts v)"
  by (simp add: adc_volts_def fl_is_f32)

lemma adc_read_ok:
  assumes "adc_typed a" "adc_conf_ok (adc_conf a)"
  shows "\<exists>a'. adc_read1 v a = Some a' \<and> adc_typed a' \<and> adc_conf a' = adc_conf a \<and> ms_without_power a' = ms_without_power a"
    and "\<exists>a'. adc_read2 v a = Some a' \<and> adc_typed a' \<and> adc_conf a' = adc_conf a \<and> ms_without_power a' = ms_without_power a"
proof -
  have m: "mean_filter_ok FILTER_SAMPLES (adc_filter1 a)" "mean_filter_ok FILTER_SAMPLES (adc_filter2 a)"
    and c: "adc_voltage_start (adc_conf a) \<noteq> adc_voltage_end (adc_conf a)"
    using assms by (simp_all add: adc_typed_def adc_conf_ok_def)
  obtain y1 f1 y2 f2 where f: "filter_mean FILTER_SAMPLES (adc_volts v) (adc_filter1 a) = Some (y1, f1)" "mean_filter_ok FILTER_SAMPLES f1"
      "filter_mean FILTER_SAMPLES (adc_volts v) (adc_filter2 a) = Some (y2, f2)" "mean_filter_ok FILTER_SAMPLES f2"
    using filter_mean_ok [OF m(1) adc_volts_f32] filter_mean_ok [OF m(2) adc_volts_f32] by metis
  show "\<exists>a'. adc_read1 v a = Some a' \<and> adc_typed a' \<and> adc_conf a' = adc_conf a \<and> ms_without_power a' = ms_without_power a"
    using assms(1) f adc_level_ok [OF c, of y1] adc_level_ok [OF c, of "adc_volts v"]
    by (auto simp: adc_read1_def adc_typed_def adc_volts_f32)
  show "\<exists>a'. adc_read2 v a = Some a' \<and> adc_typed a' \<and> adc_conf a' = adc_conf a \<and> ms_without_power a' = ms_without_power a"
    using assms(1) f adc_level_ok [OF c, of y2] adc_level_ok [OF c, of "adc_volts v"]
    by (auto simp: adc_read2_def adc_typed_def adc_volts_f32)
qed

lemma adc_decode_ok:
  assumes "adc_typed a" "adc_conf_ok (adc_conf a)"
  shows "\<exists>st cc p a'. adc_decode i x a = Some (st, cc, p, a') \<and> adc_typed a' \<and> adc_conf a' = adc_conf a"
proof -
  let ?a = "if mc_interface_get_fault (out_mc x) \<noteq> FAULT_CODE_NONE then a\<lparr>ms_without_power := 0\<rparr> else a"
  have a: "adc_typed ?a" "adc_conf ?a = adc_conf a" using assms(1) by (simp_all add: adc_typed_def f32_0)
  obtain a1 where 1: "adc_read1 (in_ext i) ?a = Some a1" "adc_typed a1" "adc_conf a1 = adc_conf a"
    using adc_read_ok(1) [OF a(1)] a(2) assms(2) by metis
  obtain a2 where 2: "adc_read2 (in_ext2 i) a1 = Some a2" "adc_typed a2" "adc_conf a2 = adc_conf a"
    using adc_read_ok(2) [OF 1(2)] 1(3) assms(2) by metis
  have st: "\<exists>st. adc_sleep_time (adc_conf a) = Some st" and db: "app_deadband v (adc_hyst (adc_conf a)) \<noteq> None" for v
    using assms(2) by (simp_all add: adc_conf_ok_def adc_sleep_time_def app_deadband_def)
  then obtain st where st: "adc_sleep_time (adc_conf a) = Some st" by blast
  from db obtain p where "app_deadband (adc_power (adc_conf a) (snd (adc_buttons i a2)) (decoded_level a2) (decoded_level2 a2)) (adc_hyst (adc_conf a)) = Some p"
    by blast
  then show ?thesis using 1(1) 2 st unfolding adc_decode_def by (simp add: split_def)
qed

text \<open>Preservation: counting, holding and driving keep the types.\<close>

lemma adc_count_typed: "adc_typed a \<Longrightarrow> adc_typed (adc_count st r a)"
proof -
  have "0 \<le> fl (fl (1000 * fl (of_nat (unat st))) / fl (of_nat (unat CH_CFG_ST_FREQUENCY)))"
    by (intro f32.rnd_nonneg mult_nonneg_nonneg divide_nonneg_nonneg of_nat_0_le_iff) simp
  then have "0 \<le> fl (y + fl (fl (1000 * fl (of_nat (unat st))) / fl (of_nat (unat CH_CFG_ST_FREQUENCY))))" if "0 \<le> y" for y
    using that by - (rule f32.rnd_nonneg, rule add_nonneg_nonneg)
  then show "adc_typed a \<Longrightarrow> adc_typed (adc_count st r a)" unfolding adc_count_def by (auto simp: adc_typed_def fl_is_f32)
qed

lemma adc_hold_typed: "adc_typed a \<Longrightarrow> adc_typed (adc_hold a)"
  by (simp add: adc_typed_def adc_hold_def Let_def f32_0)

lemma adc_drive_typed: "adc_typed a \<Longrightarrow> adc_drive i cc p act a x = Some (a', x') \<Longrightarrow> adc_typed a' \<and> adc_conf a' = adc_conf a"
  by (auto simp: adc_drive_def adc_cruise_def filter_mean_def mean_filter_ok_def adc_typed_def arr_set_Some_iff fl_is_f32
      RPM_FILTER_SAMPLES_def bind_eq_Some_conv Let_def split: if_split_asm)

lemma adc_count_conf [simp]: "adc_conf (adc_count st r a) = adc_conf a" "adc_conf (adc_hold a) = adc_conf a"
  by (simp_all add: adc_count_def adc_hold_def Let_def)

lemma adc_react_typed:
  "adc_typed a \<Longrightarrow> adc_react i st cc p (a, x) = Some (a', x') \<Longrightarrow> adc_typed a' \<and> adc_conf a' = adc_conf a"
  by (auto simp: adc_react_def Let_def bind_eq_Some_conv split: option.split_asm if_split_asm
      dest: adc_drive_typed [OF adc_count_typed] intro: adc_hold_typed adc_count_typed)

text \<open>Progress.\<close>

lemma adc_drive_progress:
  assumes "adc_typed a" "adc_conf_ok (adc_conf a)" "recent (adc_io i) = []"
  shows "adc_drive i cc p act a x \<noteq> None"
proof -
  let ?x = "out_reset_timeout (adc_io i) (pre_output (adc_io i) act x)"
  have "length (filter_buffer (adc_rpm_filter a)) = RPM_FILTER_SAMPLES" "filter_ptr (adc_rpm_filter a) < RPM_FILTER_SAMPLES"
    using assms(1) by (simp_all add: adc_typed_def mean_filter_ok_def)
  moreover have "post_output (adc_drive_conf (adc_conf a)) (adc_io i) act ?x \<noteq> None"
    using assms(2,3) by (intro post_output_progress) (simp_all add: adc_conf_ok_def adc_drive_conf_def)
  ultimately show ?thesis using assms(3)
    by (auto simp: adc_drive_def adc_cruise_def filter_mean_def arr_set_def send_duty_now_def Let_def)
qed

lemma adc_react_progress:
  assumes "adc_typed a" "adc_conf_ok (adc_conf a)" "recent (adc_io i) = []"
  shows "adc_react i st cc p (a, x) \<noteq> None"
  using assms adc_drive_progress [OF adc_count_typed [OF assms(1)]]
  by (auto simp: adc_react_def adc_brake_def Let_def split: option.split)

lemma adc_step_preserves:
  assumes "adc_typed a" "adc_conf_ok (adc_conf a)" "adc_step i (a, x) = Some (a', x')"
  shows "adc_typed a'" "adc_conf a' = adc_conf a"
proof -
  obtain st cc p a1 where d: "adc_decode i x a = Some (st, cc, p, a1)" "adc_typed a1" "adc_conf a1 = adc_conf a"
    using adc_decode_ok [OF assms(1,2), of i x] by blast
  then have "adc_react i st cc p (a1, x) = Some (a', x')" using assms(3) by (simp add: adc_step_def)
  from adc_react_typed [OF d(2) this] d(3) show "adc_typed a'" "adc_conf a' = adc_conf a" by simp_all
qed

lemma adc_step_progress:
  assumes "adc_typed a" "adc_conf_ok (adc_conf a)" "recent (adc_io i) = []"
  shows "adc_step i (a, x) \<noteq> None"
proof -
  obtain st cc p a1 where d: "adc_decode i x a = Some (st, cc, p, a1)" "adc_typed a1" "adc_conf a1 = adc_conf a"
    using adc_decode_ok [OF assms(1,2), of i x] by blast
  then show ?thesis using adc_react_progress [OF d(2) _ assms(3)] assms(2) by (simp add: adc_step_def)
qed

text \<open>C21: Type soundness of the ADC application, for a configuration with an update rate that is not zero, two voltage limits that differ, a hysteresis
  that is not one and, with traction control, a maximum speed difference that is not zero: in every run, whatever the converters, the buttons,
  the motor and the bus give, the state keeps its types: the filters index inside their arrays, the levels are numbers between 0 and 1 that a
  float holds, the time without power is not negative. And with such a configuration every iteration is defined when no other controller has sent a status
  recently, so that no command has to be converted for the bus.\<close>

theorem adc_type_soundness:
  assumes "adc_typed a" "adc_conf_ok (adc_conf a)"
  shows "(\<forall>a' x'. app_runs adc_step is (a, x) = Some (a', x') \<longrightarrow> adc_typed a' \<and> adc_conf a' = adc_conf a) \<and>
    ((\<forall>i \<in> set is. recent (adc_io i) = []) \<longrightarrow> app_runs adc_step is (a, x) \<noteq> None)"
  using assms
proof (induction "is" arbitrary: a x)
  case Nil
  then show ?case unfolding app_runs.simps by blast
next
  case (Cons i js)
  show ?case
  proof (cases "adc_step i (a, x)")
    case None
    then have "recent (adc_io i) \<noteq> []" using adc_step_progress [OF Cons.prems] by blast
    then show ?thesis unfolding app_runs.simps None bind.bind_lzero by simp
  next
    case (Some c)
    obtain a1 x1 where c: "c = (a1, x1)" by (rule prod.exhaust)
    note p = adc_step_preserves [OF Cons.prems Some [unfolded c]]
    have "adc_conf_ok (adc_conf a1)" using p(2) Cons.prems(2) by simp
    from Cons.IH [OF p(1) this, of x1] show ?thesis unfolding app_runs.simps Some c bind.bind_lunit p(2) set_simps by blast
  qed
qed

section \<open>Example\<close>

definition adc_sample_conf :: adc_config where
  "adc_sample_conf = \<lparr>adc_ctrl_type = ADC_CTRL_TYPE_CURRENT, adc_hyst = fl 0.15, adc_voltage_start = fl 0.9, adc_voltage_end = 3,
     adc_use_filter = True, adc_safe_start = True, adc_cc_button_inverted = False, adc_rev_button_inverted = False,
     adc_voltage_inverted = False, adc_rpm_lim_start = 150000, adc_rpm_lim_end = 200000, adc_multi_esc = False, adc_tc = False,
     adc_tc_max_diff = 3000, adc_update_rate_hz = 500\<rparr>"

definition adc_boot :: adc_app where
  "adc_boot = \<lparr>adc_conf = adc_sample_conf, ms_without_power = 0, decoded_level = 0, read_voltage = 0, decoded_level2 = 0,
     read_voltage2 = 0, use_rx_tx_as_buttons = False, adc_filter1 = mean_filter_zero FILTER_SAMPLES, adc_filter2 = mean_filter_zero FILTER_SAMPLES,
     ms_without_power_before = 0, was_pid = False, adc_rpm_filter = mean_filter_zero RPM_FILTER_SAMPLES, pid_rpm = 0\<rparr>"

lemma adc_boot_typed: "adc_typed adc_boot" "adc_conf_ok (adc_conf adc_boot)"
proof -
  show "adc_typed adc_boot"
    by (simp add: adc_typed_def adc_boot_def mean_filter_ok_def mean_filter_zero_def FILTER_SAMPLES_def RPM_FILTER_SAMPLES_def level_ok_def f32_0)
  have "fl (9 / 10) \<le> 1" "fl (3 / 20) \<le> 1 / 2"
    using fl_mono [of "9 / 10" 1] fl_mono [of "3 / 20" "1 / 2"] fl_dyadic [of 1 1] by simp_all
  then show "adc_conf_ok (adc_conf adc_boot)" by (auto simp: adc_conf_ok_def adc_boot_def adc_sample_conf_def)
qed

theorem adc_type_soundness_witness:
  "\<exists>a' x'. app_runs adc_step (replicate 20 \<lparr>adc_io = \<lparr>io_env = rest, io_time = 0, io_msgs = []\<rparr>, in_ext = 4095, in_ext2 = 0,
      pad_tx = True, pad_rx = True, pad_icu = True\<rparr>)
    (adc_boot, \<lparr>out_mc = mcif_start, out_tout = timeout_init, out_frames = [], out_cmds = []\<rparr>) = Some (a', x') \<and> adc_typed a'"
  using adc_type_soundness [OF adc_boot_typed, of "replicate 20 \<lparr>adc_io = \<lparr>io_env = rest, io_time = 0, io_msgs = []\<rparr>, in_ext = 4095, in_ext2 = 0,
      pad_tx = True, pad_rx = True, pad_icu = True\<rparr>" "\<lparr>out_mc = mcif_start, out_tout = timeout_init, out_frames = [], out_cmds = []\<rparr>"]
  by (auto simp: recent_def)

text \<open>The safe start compares the time with its integer part of the iteration before. When an iteration is not a whole number of
  milliseconds, as at 400 Hz, an iteration with the throttle not at rest does not start it again.\<close>

lemma adc_hold_fraction:
  "adc_hold (adc_boot\<lparr>ms_without_power := 2.5, ms_without_power_before := 2\<rparr>) = adc_boot\<lparr>ms_without_power := 2.5, ms_without_power_before := 2\<rparr>"
  by (simp add: adc_hold_def ftrunc_def Let_def)

end
