(* ===== verification/AppNunchuk.thy ===== *)
theory AppNunchuk
  imports AppOutput
begin

text \<open>
  The application for a hand controller with a joystick, \<open>app_nunchuk.c\<close>: a thread that reads the controller over I2C, and the output
  thread that runs every millisecond on its data, which other components can also provide.

  The state is the record \<open>chuk\<close> with the static locals of both threads. A transfer on the bus is an input: whether it succeeded, and the
  received bytes.
\<close>

section \<open>State\<close>

datatype led_ext = LED_EXT_NORMAL | LED_EXT_BRAKE | LED_EXT_TURN_LEFT | LED_EXT_TURN_RIGHT | LED_EXT_BRAKE_TURN_LEFT
  | LED_EXT_BRAKE_TURN_RIGHT | LED_EXT_BATT

datatype chuk_event = Chuk_thread_created | Output_thread_created | Led_state led_ext | Led_reversed bool | Restore_i2c

definition OUTPUT_ITERATION_TIME_MS :: real where "OUTPUT_ITERATION_TIME_MS = 1"
definition MAX_CURR_DIFFERENCE :: real where "MAX_CURR_DIFFERENCE = 5"

record chuk =
  chuck_d :: chuck_data
  chuck_error :: int
  chuk_conf :: chuk_config
  output_running :: bool
  last_buffer :: bytes
  ck_is_reverse :: bool
  was_z :: bool
  prev_current :: real
  ck_was_pid :: bool
  ck_rpm_filter :: mean_filter
  ck_pid_rpm :: real
  chuk_events :: "chuk_event list"

definition chuk_emit :: "chuk_event \<Rightarrow> chuk \<Rightarrow> chuk" where
  "chuk_emit e c = c\<lparr>chuk_events := chuk_events c @ [e]\<rparr>"

definition app_nunchuk_configure :: "chuk_config \<Rightarrow> chuk \<Rightarrow> chuk" where
  "app_nunchuk_configure conf c = c\<lparr>chuk_conf := conf\<rparr>"

definition app_nunchuk_start :: "chuk \<Rightarrow> chuk" where
  "app_nunchuk_start c = chuk_emit Chuk_thread_created (c\<lparr>chuck_d := (chuck_d c)\<lparr>cd_js_y := 128\<rparr>\<rparr>)"

definition app_nunchuk_get_decoded_chuk :: "chuk \<Rightarrow> real" where
  "app_nunchuk_get_decoded_chuk c = fl (fl (fl (of_int (cd_js_y (chuck_d c))) - 128) / 128)"

definition app_nunchuk_update_output :: "u32 \<Rightarrow> chuck_data \<Rightarrow> timeout_state \<times> chuk \<Rightarrow> timeout_state \<times> chuk" where
  "app_nunchuk_update_output t data = (\<lambda>(tout, c).
     (let c1 = (if \<not> output_running c
                then chuk_emit Output_thread_created (c\<lparr>output_running := True, chuck_d := (chuck_d c)\<lparr>cd_js_y := 128\<rparr>\<rparr>) else c) in
      (timeout_reset t tout, c1\<lparr>chuck_d := data\<rparr>)))"

section \<open>Reading the controller\<close>

definition low2 :: "nat \<Rightarrow> u8 \<Rightarrow> u8" where "low2 k b = drop_bit k b AND 3"

definition nunchuk_decode :: "bytes \<Rightarrow> chuck_data option" where
  "nunchuk_decode rx =
     do { b0 \<leftarrow> arr_get rx 0; b1 \<leftarrow> arr_get rx 1; b2 \<leftarrow> arr_get rx 2; b3 \<leftarrow> arr_get rx 3; b4 \<leftarrow> arr_get rx 4; b5 \<leftarrow> arr_get rx 5;
          let acc = (\<lambda>b k. push_bit 2 (uint b) OR uint (low2 k b5));
          Some \<lparr>cd_js_x = uint b0, cd_js_y = uint b1, cd_acc_x = acc b2 2, cd_acc_y = acc b3 4, cd_acc_z = acc b4 6,
            cd_bt_c = (drop_bit 1 b5 AND 1 = 0), cd_bt_z = (b5 AND 1 = 0)\<rparr> }"

text \<open>One iteration of the thread on the bus: three writes and a read, each only after the one before succeeded. Unchanged data are
  not passed on, so that a frozen controller runs into the timeout.\<close>

definition chuk_thread :: "bool list \<Rightarrow> bytes \<Rightarrow> u32 \<Rightarrow> timeout_state \<times> chuk \<Rightarrow> (timeout_state \<times> chuk) option" where
  "chuk_thread oks rx t = (\<lambda>(tout, c).
     if list_all id oks then
       do { let same = (last_buffer c = take 6 rx);
            let c1 = c\<lparr>last_buffer := take 6 rx\<rparr>;
            (tout2, c2) \<leftarrow> (if \<not> same then do { d \<leftarrow> nunchuk_decode rx; Some (app_nunchuk_update_output t d (tout, c1\<lparr>chuck_error := 0\<rparr>)) }
                           else Some (tout, c1));
            Some (tout2, if timeout_has_timeout tout2 then c2\<lparr>chuck_error := 1\<rparr> else c2) }
     else Some (tout, chuk_emit Restore_i2c (c\<lparr>chuck_error := 2\<rparr>)))"

section \<open>The output thread\<close>

definition chuk_drive_conf :: "chuk_config \<Rightarrow> drive_conf" where
  "chuk_drive_conf c = \<lparr>dc_rpm_lim_start = chuk_rpm_lim_start c, dc_rpm_lim_end = chuk_rpm_lim_end c, dc_multi_esc = chuk_multi_esc c,
     dc_tc = chuk_tc c, dc_tc_max_diff = chuk_tc_max_diff c\<rparr>"

text \<open>The direction changes when the lower button is pressed while nearly no current flows.\<close>

definition chuk_direction :: "real \<Rightarrow> chuk \<Rightarrow> chuk" where
  "chuk_direction current_now c =
     (let z = cd_bt_z (chuck_d c);
          r = (if z \<and> \<not> was_z c \<and> chuk_ctrl_type (chuk_conf c) = CHUK_CTRL_TYPE_CURRENT \<and> \<bar>current_now\<bar> < MAX_CURR_DIFFERENCE
               then \<not> ck_is_reverse c else ck_is_reverse c) in
      chuk_emit (Led_reversed r) (c\<lparr>ck_is_reverse := r, was_z := z\<rparr>))"

definition chuk_led :: "real \<Rightarrow> real \<Rightarrow> led_ext" where
  "chuk_led out_val x_axis =
     (if out_val < - fl 0.001
      then (if x_axis < - fl 0.4 then LED_EXT_BRAKE_TURN_LEFT else if x_axis > fl 0.4 then LED_EXT_BRAKE_TURN_RIGHT else LED_EXT_BRAKE)
      else (if x_axis < - fl 0.4 then LED_EXT_TURN_LEFT else if x_axis > fl 0.4 then LED_EXT_TURN_RIGHT else LED_EXT_NORMAL))"

text \<open>Speed control on the upper button; the stick changes the speed that is kept. \<^term>\<open>None\<close> when the motor turns too fast the
  other way, in which case nothing is done.\<close>

definition cruise_rpm :: "mc_configuration \<Rightarrow> real \<Rightarrow> real \<Rightarrow> chuk \<Rightarrow> (real \<times> bool)" where
  "cruise_rpm mc rpm_filtered out_val c =
     (let step = fl (fl (out_val * chuk_stick_erpm_per_s_in_cc (chuk_conf c)) / fl (OUTPUT_ITERATION_TIME_MS * 1000));
          pid = ck_pid_rpm c in
      if \<not> ck_was_pid c then
        (if (ck_is_reverse c \<and> rpm_filtered > 0) \<or> (\<not> ck_is_reverse c \<and> rpm_filtered < 0)
         then (if \<bar>rpm_filtered\<bar> > s_pid_min_erpm mc then (rpm_filtered, False) else (0, True))
         else (rpm_filtered, True))
      else if ck_is_reverse c then (fl ((if pid > 0 then 0 else pid) - step), True)
      else (fl ((if pid < 0 then 0 else pid) + step), True))"

definition chuk_cruise :: "app_io \<Rightarrow> real \<Rightarrow> real \<Rightarrow> real \<Rightarrow> chuk \<Rightarrow> app_out \<Rightarrow> (chuk \<times> app_out) option" where
  "chuk_cruise io current_now rpm_filtered out_val c x =
     (let (rpm, ok) = cruise_rpm (m_conf (out_mc x)) rpm_filtered out_val c; c1 = c\<lparr>ck_pid_rpm := rpm\<rparr> in
      if \<not> ok then Some (c1, x)
      else
        let x1 = out_cmd io (Pid_speed rpm) x in
        do { x2 \<leftarrow> (if chuk_multi_esc (chuk_conf c) then send_duty_now io x1 else Some x1);
             Some (c1\<lparr>ck_was_pid := True, prev_current := current_now\<rparr>, x2) })"

text \<open>The lowest speed and the highest current of all controllers, in the direction of travel.\<close>

definition chuk_lowest :: "app_io \<Rightarrow> chuk \<Rightarrow> real \<Rightarrow> real" where
  "chuk_lowest io c rpm_local =
     (if chuk_multi_esc (chuk_conf c)
      then foldl (\<lambda>low m. let r = (if ck_is_reverse c then - csm_rpm m else csm_rpm m) in if r < low then r else low) rpm_local (recent io)
      else rpm_local)"

definition chuk_highest :: "app_io \<Rightarrow> chuk \<Rightarrow> real \<Rightarrow> real" where
  "chuk_highest io c current_now =
     (if chuk_multi_esc (chuk_conf c)
      then foldl (\<lambda>high m. let i = (if csm_duty m < 0 then - csm_current m else csm_current m) in if \<bar>i\<bar> > \<bar>high\<bar> then i else high)
        current_now (recent io)
      else current_now)"

text \<open>The ramp. The goal moves one step towards the request, then two steps towards the measured current if it is far from it.\<close>

definition ramp_step :: "mc_configuration \<Rightarrow> real \<Rightarrow> real" where
  "ramp_step mc ramp_time =
     fl (fl (OUTPUT_ITERATION_TIME_MS * fl (l_current_max mc + \<bar>l_current_min mc\<bar>)) / fl (ramp_time * 1000))"

definition ramp_goal :: "bool \<Rightarrow> real \<Rightarrow> real \<Rightarrow> real \<Rightarrow> real \<Rightarrow> real \<Rightarrow> real" where
  "ramp_goal is_reverse step out_val highest current prev =
     (let goal = utils_step_towards prev current step;
          measured = (if is_reverse then - highest else highest);
          goal2 = (if \<bar>fl (goal - measured)\<bar> > MAX_CURR_DIFFERENCE then utils_step_towards goal measured (fl (2 * step)) else goal) in
      if (\<not> goal < prev \<or> goal2 < goal) \<and> \<bar>out_val\<bar> > fl 0.001 then goal2 else goal)"

definition chuk_ramp :: "mc_configuration \<Rightarrow> real \<Rightarrow> real \<Rightarrow> real \<Rightarrow> chuk \<Rightarrow> real" where
  "chuk_ramp mc out_val highest current c =
     (let ramp_time = (if \<bar>current\<bar> > \<bar>prev_current c\<bar> then chuk_ramp_time_pos (chuk_conf c) else chuk_ramp_time_neg (chuk_conf c)) in
      if ramp_time > fl 0.01 then ramp_goal (ck_is_reverse c) (ramp_step mc ramp_time) out_val highest current (prev_current c) else current)"

definition chuk_drive :: "app_io \<Rightarrow> real \<Rightarrow> real \<Rightarrow> chuk \<Rightarrow> app_out \<Rightarrow> (chuk \<times> app_out) option" where
  "chuk_drive io current_now out_val c x =
     (let mc = m_conf (out_mc x);
          rpm = mc_interface_get_rpm (io_env io) (out_mc x);
          rpm_local = (if ck_is_reverse c then - rpm else rpm);
          low = chuk_lowest io c rpm_local;
          current = chuk_ramp mc out_val (chuk_highest io c current_now) (throttle_current mc out_val) c;
          c1 = c\<lparr>prev_current := current\<rparr> in
      if current < 0 then do { x1 \<leftarrow> brake_all io current x; Some (c1, x1) }
      else do { x1 \<leftarrow> traction (chuk_drive_conf (chuk_conf c)) io (cc_min_current mc) rpm_local low (ck_is_reverse c)
                         (soft_rpm_limit (chuk_drive_conf (chuk_conf c)) (cc_min_current mc) low current) x;
                Some (c1, x1) })"

definition chuk_active :: "app_io \<Rightarrow> real \<Rightarrow> chuk \<times> app_out \<Rightarrow> (chuk \<times> app_out) option" where
  "chuk_active io current_now = (\<lambda>(c0, x).
     do { let c = chuk_direction current_now c0;
          out_val \<leftarrow> app_deadband (app_nunchuk_get_decoded_chuk c) (chuk_hyst (chuk_conf c));
          let c1 = chuk_emit (Led_state (chuk_led out_val (fl (fl (fl (of_int (cd_js_x (chuck_d c))) - 128) / 128)))) c;
          (rpm_filtered, f) \<leftarrow> filter_mean RPM_FILTER_SAMPLES (mc_interface_get_rpm (io_env io) (out_mc x)) (ck_rpm_filter c1);
          let c2 = c1\<lparr>ck_rpm_filter := f\<rparr>;
          if cd_bt_c (chuck_d c2) then chuk_cruise io current_now rpm_filtered out_val c2 x
          else chuk_drive io current_now out_val (c2\<lparr>ck_was_pid := False\<rparr>) x })"

definition chuk_step :: "app_io \<Rightarrow> chuk \<times> app_out \<Rightarrow> (chuk \<times> app_out) option" where
  "chuk_step io = (\<lambda>(c, x).
     if timeout_has_timeout (out_tout x) \<or> chuck_error c \<noteq> 0 \<or> chuk_ctrl_type (chuk_conf c) = CHUK_CTRL_TYPE_NONE then Some (c, x)
     else if cd_bt_c (chuck_d c) \<and> cd_bt_z (chuck_d c) then Some (chuk_emit (Led_state LED_EXT_BATT) c, x)
     else chuk_active io (mc_interface_get_tot_current_directional_filtered (io_env io) (out_mc x)) (c, x))"

lemma chuk_drive_commands: "chuk_drive io cn ov c x = Some (c', x') \<Longrightarrow> commanded (io_env io) x x'"
  by (auto simp: chuk_drive_def Let_def bind_eq_Some_conv split: if_split_asm dest: brake_all_cmds traction_cmds)

lemma chuk_cruise_commands: "chuk_cruise io cn rf ov c x = Some (c', x') \<Longrightarrow> commanded (io_env io) x x'"
  by (auto simp: chuk_cruise_def Let_def bind_eq_Some_conv send_duty_now_def split: if_split_asm prod.split_asm
      dest!: send_each_frame intro: commanded_trans [OF commanded_cmd commanded_same])

interpretation nunchuk: input_app chuk_step "\<lambda>io. io"
proof
  show "commanded (io_env io) x x'" if "chuk_step io (s, x) = Some (s', x')" for io s x s' x'
    using that by (auto simp: chuk_step_def chuk_active_def bind_eq_Some_conv Let_def split: if_split_asm
        dest: chuk_drive_commands chuk_cruise_commands)
qed

section \<open>The received bytes\<close>

text \<open>What a controller sends for a position of the stick, 10-bit accelerations and two buttons.\<close>

definition nunchuk_encode :: "chuck_data \<Rightarrow> bytes" where
  "nunchuk_encode d =
     [word_of_int (cd_js_x d), word_of_int (cd_js_y d), word_of_int (cd_acc_x d div 4), word_of_int (cd_acc_y d div 4), word_of_int (cd_acc_z d div 4),
      word_of_int (cd_acc_z d mod 4 * 64 + cd_acc_y d mod 4 * 16 + cd_acc_x d mod 4 * 4 + (if cd_bt_c d then 0 else 2) + (if cd_bt_z d then 0 else 1))]"

lemma uint_low2: "uint (low2 k b) = uint b div 2 ^ k mod 4"
proof -
  have "uint (take_bit 2 (drop_bit k b)) = take_bit 2 (drop_bit k (uint b))" by (simp add: unsigned_take_bit_eq unsigned_drop_bit_eq bintr_uint)
  moreover have "low2 k b = take_bit 2 (drop_bit k b)" by (simp add: low2_def take_bit_eq_mask mask_eq_exp_minus_1)
  ultimately show ?thesis by (simp only: take_bit_eq_mod drop_bit_eq_div) simp
qed

lemma join_low2: "push_bit 2 (a div 4) OR a mod 4 = (a :: int)"
proof -
  have "push_bit 2 (drop_bit 2 a) OR take_bit 2 a = a" by (rule bit_eqI) (auto simp: bit_simps not_less dest!: le_Suc_ex)
  then show ?thesis by (simp add: drop_bit_eq_div take_bit_eq_mod)
qed

definition chuck_data_ok :: "chuck_data \<Rightarrow> bool" where
  "chuck_data_ok d \<longleftrightarrow> cd_js_x d \<in> {0..<256} \<and> cd_js_y d \<in> {0..<256} \<and> cd_acc_x d \<in> {0..<1024} \<and> cd_acc_y d \<in> {0..<1024} \<and>
     cd_acc_z d \<in> {0..<1024}"

lemma uint_byte: "0 \<le> k \<Longrightarrow> k < 256 \<Longrightarrow> uint (word_of_int k :: u8) = k"
  by (simp add: uint_word_of_int)

lemma digit:
  fixes r q :: int
  shows "0 \<le> r \<Longrightarrow> r < 4 \<Longrightarrow> (4 * q + r) div 4 = q" "0 \<le> r \<Longrightarrow> r < 4 \<Longrightarrow> (4 * q + r) mod 4 = r"
    "0 \<le> r \<Longrightarrow> r < 16 \<Longrightarrow> (16 * q + r) div 16 = q" "0 \<le> r \<Longrightarrow> r < 64 \<Longrightarrow> (64 * q + r) div 64 = q"
  by simp_all

lemma last_byte:
  fixes x y z c b :: int
  assumes "x \<in> {0..<4}" "y \<in> {0..<4}" "z \<in> {0..<4}" "c \<in> {0, 2}" "b \<in> {0, 1}"
  defines "w \<equiv> word_of_int (z * 64 + y * 16 + x * 4 + c + b) :: u8"
  shows "uint (low2 2 w) = x" "uint (low2 4 w) = y" "uint (low2 6 w) = z" "drop_bit 1 w AND 1 = 0 \<longleftrightarrow> c = 0" "w AND 1 = 0 \<longleftrightarrow> b = 0"
proof -
  have u: "uint w = z * 64 + y * 16 + x * 4 + c + b" unfolding w_def by (rule uint_byte) (use assms in auto)
  show "uint (low2 2 w) = x" "uint (low2 4 w) = y" "uint (low2 6 w) = z"
    unfolding uint_low2 u
  proof -
    let ?r = "c + b"
    have cb: "0 \<le> ?r" "?r < 4" using assms(4,5) by auto
    have e: "z * 64 + y * 16 + x * 4 + c + b = 4 * (4 * (4 * z + y) + x) + ?r" "z * 64 + y * 16 + x * 4 + c + b = 16 * (4 * z + y) + (4 * x + ?r)"
      "z * 64 + y * 16 + x * 4 + c + b = 64 * z + (16 * y + 4 * x + ?r)" by simp_all
    have d: "(4 * (4 * (4 * z + y) + x) + ?r) div 4 = 4 * (4 * z + y) + x" "(16 * (4 * z + y) + (4 * x + ?r)) div 16 = 4 * z + y"
      "(64 * z + (16 * y + 4 * x + ?r)) div 64 = z"
      by (rule digit; use assms(1-3) cb in auto)+
    have p: "(2 :: int) ^ 2 = 4" "(2 :: int) ^ 4 = 16" "(2 :: int) ^ 6 = 64" by simp_all
    show "(z * 64 + y * 16 + x * 4 + c + b) div 2 ^ 2 mod 4 = x" unfolding p e(1) d(1) by (rule digit) (use assms(1) in auto)
    show "(z * 64 + y * 16 + x * 4 + c + b) div 2 ^ 4 mod 4 = y" unfolding p e(2) d(2) by (rule digit) (use assms(2) in auto)
    show "(z * 64 + y * 16 + x * 4 + c + b) div 2 ^ 6 mod 4 = z" unfolding p e(3) d(3) using assms(3) by auto
  qed
  have "w AND 1 = 0 \<longleftrightarrow> even (uint w)" for w :: u8 using bit_uint_iff [of w 0] by (simp add: and_one_eq mod_2_eq_odd bit_0)
  note ev = this
  then show "w AND 1 = 0 \<longleftrightarrow> b = 0" using assms(4,5) by (auto simp: u)
  have "drop_bit 1 w AND 1 = 0 \<longleftrightarrow> even (uint w div 2)" unfolding ev by (simp add: uint_div drop_bit_eq_div)
  moreover have "uint w div 2 = 2 * (16 * z + 4 * y + x) + c div 2" using assms(4,5) unfolding u by auto
  ultimately show "drop_bit 1 w AND 1 = 0 \<longleftrightarrow> c = 0" using assms(4) by auto
qed

lemma nunchuk_roundtrip:
  assumes "chuck_data_ok d"
  shows "nunchuk_decode (nunchuk_encode d) = Some d"
proof -
  have r: "0 \<le> cd_js_x d" "cd_js_x d < 256" "0 \<le> cd_js_y d" "cd_js_y d < 256" "0 \<le> cd_acc_x d div 4" "cd_acc_x d div 4 < 256"
    "0 \<le> cd_acc_y d div 4" "cd_acc_y d div 4 < 256" "0 \<le> cd_acc_z d div 4" "cd_acc_z d div 4 < 256"
    using assms by (auto simp: chuck_data_ok_def)
  let ?c = "if cd_bt_c d then 0 else 2 :: int" and ?b = "if cd_bt_z d then 0 else 1 :: int"
  have m: "cd_acc_x d mod 4 \<in> {0..<4}" "cd_acc_y d mod 4 \<in> {0..<4}" "cd_acc_z d mod 4 \<in> {0..<4}" "?c \<in> {0, 2}" "?b \<in> {0, 1}" by simp_all
  let ?w = "word_of_int (cd_acc_z d mod 4 * 64 + cd_acc_y d mod 4 * 16 + cd_acc_x d mod 4 * 4 + ?c + ?b) :: u8"
  have get: "arr_get (nunchuk_encode d) 0 = Some (word_of_int (cd_js_x d))" "arr_get (nunchuk_encode d) 1 = Some (word_of_int (cd_js_y d))"
    "arr_get (nunchuk_encode d) 2 = Some (word_of_int (cd_acc_x d div 4))" "arr_get (nunchuk_encode d) 3 = Some (word_of_int (cd_acc_y d div 4))"
    "arr_get (nunchuk_encode d) 4 = Some (word_of_int (cd_acc_z d div 4))" "arr_get (nunchuk_encode d) 5 = Some ?w"
    unfolding nunchuk_encode_def arr_get_def by (simp_all del: of_int_add of_int_mult)
  show ?thesis
    unfolding nunchuk_decode_def get bind.bind_lunit Let_def last_byte [OF m] uint_byte [OF r(1,2)] uint_byte [OF r(3,4)]
      uint_byte [OF r(5,6)] uint_byte [OF r(7,8)] uint_byte [OF r(9,10)] join_low2
    by (cases d) simp
qed

section \<open>The ramp\<close>

lemma step_towards_range:
  assumes "is_f32 v" "0 \<le> s"
  shows "fl (v - s) \<le> utils_step_towards v g s" "utils_step_towards v g s \<le> fl (v + s)"
proof -
  have "fl (v - s) \<le> v" "v \<le> fl (v + s)" using assms by (simp_all add: f32.rnd_le f32.rnd_ge)
  then show "fl (v - s) \<le> utils_step_towards v g s" "utils_step_towards v g s \<le> fl (v + s)" by (auto simp: utils_step_towards_def)
qed

lemma step_towards_f32: "is_f32 v \<Longrightarrow> is_f32 g \<Longrightarrow> is_f32 (utils_step_towards v g s)"
  by (simp add: utils_step_towards_def fl_is_f32)

text \<open>The current of the next iteration is at most one and then two ramp steps away.\<close>

definition within_ramp :: "real \<Rightarrow> real \<Rightarrow> real \<Rightarrow> bool" where
  "within_ramp step prev current \<longleftrightarrow> fl (fl (prev - step) - fl (2 * step)) \<le> current \<and> current \<le> fl (fl (prev + step) + fl (2 * step))"

lemma ramp_goal_bounded:
  assumes "is_f32 prev" "is_f32 current" "0 \<le> step"
  shows "within_ramp step prev (ramp_goal bk step ov highest current prev)"
proof -
  let ?g = "utils_step_towards prev current step" and ?m = "if bk then - highest else highest" and ?t = "fl (2 * step)"
  note g = step_towards_range [OF assms(1,3), of current]
  have t: "0 \<le> ?t" using assms(3) by (simp add: f32.rnd_nonneg)
  note g2 = step_towards_range [OF step_towards_f32 [OF assms(1,2)] t, of step ?m]
  have lo: "fl (fl (prev - step) - ?t) \<le> fl (?g - ?t)" and hi: "fl (?g + ?t) \<le> fl (fl (prev + step) + ?t)"
    using g by (auto intro: fl_mono)
  have "fl (fl (prev - step) - ?t) \<le> ?g" "?g \<le> fl (fl (prev + step) + ?t)"
    using g t f32.rnd_le [of "fl (prev - step) - ?t" "fl (prev - step)"] f32.rnd_ge [of "fl (prev + step)" "fl (prev + step) + ?t"]
    by (auto simp: fl_is_f32 intro: order_trans)
  then show ?thesis using lo hi g2 unfolding within_ramp_def ramp_goal_def Let_def by auto
qed

lemma ramp_step_nonneg: "0 < t \<Longrightarrow> 0 \<le> l_current_max mc \<Longrightarrow> 0 \<le> ramp_step mc t"
  unfolding ramp_step_def OUTPUT_ITERATION_TIME_MS_def
  by (intro f32.rnd_nonneg divide_nonneg_nonneg mult_nonneg_nonneg) (auto intro: f32.rnd_nonneg)

lemma chuk_direction_frame [simp]:
  "prev_current (chuk_direction i c) = prev_current c" "chuk_conf (chuk_direction i c) = chuk_conf c" "chuck_d (chuk_direction i c) = chuck_d c"
  by (simp_all add: chuk_direction_def chuk_emit_def Let_def)

lemma chuk_ramp_bounded:
  assumes "is_f32 (prev_current c)" "0 \<le> l_current_max mc" "fl 0.01 < chuk_ramp_time_pos (chuk_conf c)" "fl 0.01 < chuk_ramp_time_neg (chuk_conf c)"
    "is_f32 current"
  shows "\<exists>t \<in> {chuk_ramp_time_pos (chuk_conf c), chuk_ramp_time_neg (chuk_conf c)}.
    within_ramp (ramp_step mc t) (prev_current c) (chuk_ramp mc ov highest current c)"
proof -
  have "0 \<le> fl 0.01" by (simp add: f32.rnd_nonneg)
  then have "0 < chuk_ramp_time_pos (chuk_conf c)" "0 < chuk_ramp_time_neg (chuk_conf c)" using assms(3,4) by linarith+
  then show ?thesis
    using assms(3,4) ramp_goal_bounded [OF assms(1,5) ramp_step_nonneg [OF _ assms(2)]] unfolding chuk_ramp_def Let_def by auto
qed


section \<open>Example\<close>

definition chuk_sample :: chuk where
  "chuk_sample = \<lparr>chuck_d = \<lparr>cd_js_x = 128, cd_js_y = 200, cd_acc_x = 0, cd_acc_y = 0, cd_acc_z = 0, cd_bt_c = False, cd_bt_z = False\<rparr>,
     chuck_error = 0, chuk_conf = \<lparr>chuk_ctrl_type = CHUK_CTRL_TYPE_CURRENT, chuk_hyst = 0, chuk_rpm_lim_start = 150000,
       chuk_rpm_lim_end = 200000, chuk_ramp_time_pos = 1, chuk_ramp_time_neg = 1, chuk_stick_erpm_per_s_in_cc = 3000, chuk_multi_esc = False,
       chuk_tc = False, chuk_tc_max_diff = 3000\<rparr>,
     output_running = True, last_buffer = replicate 6 0, ck_is_reverse = False, was_z = False, prev_current = 0, ck_was_pid = False,
     ck_rpm_filter = mean_filter_zero RPM_FILTER_SAMPLES, ck_pid_rpm = 0, chuk_events = []\<rparr>"

definition app_out_sample :: app_out where
  "app_out_sample = \<lparr>out_mc = mcif_start, out_tout = timeout_init, out_frames = [], out_cmds = []\<rparr>"

lemma chuk_drive_progress: "recent io = [] \<Longrightarrow> \<not> chuk_multi_esc (chuk_conf c) \<Longrightarrow> chuk_drive io cn ov c x \<noteq> None"
  by (simp add: chuk_drive_def brake_all_def traction_def chuk_drive_conf_def Let_def)

definition app_io_sample :: app_io where "app_io_sample = \<lparr>io_env = rest, io_time = 0, io_msgs = []\<rparr>"

lemma chuk_sample_step:
  assumes "\<not> timeout_has_timeout (out_tout x)"
  shows "\<exists>c' x'. chuk_step app_io_sample (chuk_sample, x) = Some (c', x')"
proof -
  have drv: "\<exists>a b. chuk_drive app_io_sample cn ov c x = Some (a, b)" if "\<not> chuk_multi_esc (chuk_conf c)" for cn ov c x
    using chuk_drive_progress [of app_io_sample c cn ov x] that by (auto simp: recent_def app_io_sample_def)
  show ?thesis using assms
    by (simp add: chuk_step_def chuk_active_def chuk_sample_def app_deadband_def
        chuk_direction_def chuk_emit_def filter_mean_def mean_filter_zero_def RPM_FILTER_SAMPLES_def arr_set_def Let_def) (rule drv, simp)
qed


end
