(* ===== verification/DigitalFilter.thy ===== *)
theory DigitalFilter
  imports Utils Buffer
begin

text \<open>
  The digital filters, \<open>digital_filter.c\<close>: the transforms, the design of a low-pass filter, and the ring of samples with its
  weighted sum, which the six-step driver uses for the motor current, the speed constant and the back-emf.

  Arrays are lists and an access outside is \<^term>\<open>None\<close>. \<open>cosf\<close> and \<open>sinf\<close> of the C library are arguments, correctly rounded values in the
  examples. \<open>sqrt\<close> is computed in \<open>double\<close> and rounded to \<open>float\<close>, which is the rounding of the root. The inner loop of the bit reversal,
  \<open>while (k <= j)\<close>, does not end when all bits of \<open>j\<close> are set: it is a \<open>while_option\<close> loop, and it is proved that this case does not occur.
\<close>

section \<open>Loops\<close>

text \<open>\<open>for (i = i0; i < n; i += d) { \<dots> }\<close>: the values of the counter, and the loop over them.\<close>

function strides :: "nat \<Rightarrow> nat \<Rightarrow> nat \<Rightarrow> nat list" where
  "strides i n d = (if i < n \<and> 0 < d then i # strides (i + d) n d else [])"
  by auto
termination by (relation "measure (\<lambda>(i, n, d). n - i)") auto

declare strides.simps [simp del]

primrec for_each :: "('a \<Rightarrow> 's \<Rightarrow> 's option) \<Rightarrow> 'a list \<Rightarrow> 's \<Rightarrow> 's option" where
  "for_each f [] s = Some s"
| "for_each f (x # xs) s = do { t \<leftarrow> f x s; for_each f xs t }"

section \<open>Fourier transforms\<close>

definition swap_entries :: "nat \<Rightarrow> nat \<Rightarrow> real list \<Rightarrow> real list option" where
  "swap_entries i j xs = do { x \<leftarrow> arr_get xs i; y \<leftarrow> arr_get xs j; ys \<leftarrow> arr_set xs i y; arr_set ys j x }"

text \<open>The reversed counter: \<open>k = i2; while (k <= j) { j -= k; k >>= 1; } j += k;\<close>.\<close>

definition next_reversed :: "nat \<Rightarrow> nat \<Rightarrow> nat option" where
  "next_reversed i2 j = do { (j', k) \<leftarrow> while_option (\<lambda>(j, k). k \<le> j) (\<lambda>(j, k). (j - k, k div 2)) (j, i2); Some (j' + k) }"

definition reverse_step :: "nat \<Rightarrow> nat \<Rightarrow> (real list \<times> real list) \<times> nat \<Rightarrow> ((real list \<times> real list) \<times> nat) option" where
  "reverse_step i2 i = (\<lambda>((re, im), j).
     do { re1 \<leftarrow> (if i < j then swap_entries i j re else Some re);
          im1 \<leftarrow> (if i < j then swap_entries i j im else Some im);
          j1 \<leftarrow> next_reversed i2 j;
          Some ((re1, im1), j1) })"

definition butterfly :: "nat \<Rightarrow> real \<Rightarrow> real \<Rightarrow> nat \<Rightarrow> real list \<times> real list \<Rightarrow> (real list \<times> real list) option" where
  "butterfly l1 u1 u2 i = (\<lambda>(re, im).
     (let i1 = i + l1 in
      do { r1 \<leftarrow> arr_get re i1; m1 \<leftarrow> arr_get im i1; r0 \<leftarrow> arr_get re i; m0 \<leftarrow> arr_get im i;
           let t1 = fl (fl (u1 * r1) - fl (u2 * m1)); let t2 = fl (fl (u1 * m1) + fl (u2 * r1));
           re1 \<leftarrow> arr_set re i1 (fl (r0 - t1)); im1 \<leftarrow> arr_set im i1 (fl (m0 - t2));
           re2 \<leftarrow> arr_set re1 i (fl (r0 + t1)); im2 \<leftarrow> arr_set im1 i (fl (m0 + t2));
           Some (re2, im2) }))"

definition butterflies :: "nat \<Rightarrow> nat \<Rightarrow> real \<Rightarrow> real \<Rightarrow> nat \<Rightarrow>
    (real list \<times> real list) \<times> real \<times> real \<Rightarrow> ((real list \<times> real list) \<times> real \<times> real) option" where
  "butterflies n l1 c1 c2 j = (\<lambda>(v, u1, u2).
     do { v1 \<leftarrow> for_each (butterfly l1 u1 u2) (strides j n (2 * l1)) v;
          Some (v1, fl (fl (u1 * c1) - fl (u2 * c2)), fl (fl (u1 * c2) + fl (u2 * c1))) })"

definition fft_stage :: "bool \<Rightarrow> nat \<Rightarrow> nat \<Rightarrow>
    (real list \<times> real list) \<times> nat \<times> real \<times> real \<Rightarrow> ((real list \<times> real list) \<times> nat \<times> real \<times> real) option" where
  "fft_stage dir n l = (\<lambda>(v, l1, c1, c2).
     do { (v1, _, _) \<leftarrow> for_each (butterflies n l1 c1 c2) [0..<l1] (v, 1, 0);
          let s = fl (sqrt (fl (fl (1 - c1) / 2)));
          Some (v1, 2 * l1, fl (sqrt (fl (fl (1 + c1) / 2))), if dir then - s else s) })"

definition filter_fft :: "bool \<Rightarrow> nat \<Rightarrow> real list \<Rightarrow> real list \<Rightarrow> (real list \<times> real list) option" where
  "filter_fft dir m re im =
     (let n = 2 ^ m in
      do { (v1, _) \<leftarrow> for_each (reverse_step (n div 2)) [0..<n - 1] ((re, im), 0);
           (v2, _) \<leftarrow> for_each (fft_stage dir n) [0..<m] (v1, 1, - 1, 0);
           if dir then
             for_each (\<lambda>i (re, im). do { r \<leftarrow> arr_get re i; re1 \<leftarrow> arr_set re i (fl (r / of_nat n));
                                          q \<leftarrow> arr_get im i; im1 \<leftarrow> arr_set im i (fl (q / of_nat n)); Some (re1, im1) }) [0..<n] v2
           else Some v2 })"

definition filter_dft :: "(real \<Rightarrow> real) \<Rightarrow> (real \<Rightarrow> real) \<Rightarrow> bool \<Rightarrow> nat \<Rightarrow> real list \<Rightarrow> real list \<Rightarrow> (real list \<times> real list) option" where
  "filter_dft cosf sinf dir len re im =
     (let d = (if dir then 1 else - 1);
          term = (\<lambda>i k (x, y).
            do { r \<leftarrow> arr_get re k; q \<leftarrow> arr_get im k;
                 let arg = fl (fl (fl (fl (- d * 2) * M_PI) * of_nat i) / of_nat len);
                 let c = cosf (fl (of_nat k * arg)); let s = sinf (fl (of_nat k * arg));
                 Some (fl (x + fl (fl (r * c) - fl (q * s))), fl (y + fl (fl (r * s) + fl (q * c)))) }) in
      do { ps \<leftarrow> for_each (\<lambda>i acc. do { p \<leftarrow> for_each (term i) [0..<len] (0, 0); Some (acc @ [p]) }) [0..<len] [];
           if len \<le> length re \<and> len \<le> length im then
             Some (map (\<lambda>p. if dir then fl (fst p / of_nat len) else fst p) ps @ drop len re,
                   map (\<lambda>p. if dir then fl (snd p / of_nat len) else snd p) ps @ drop len im)
           else None })"

section \<open>Filter design\<close>

definition filter_fftshift :: "real list \<Rightarrow> nat \<Rightarrow> real list option" where
  "filter_fftshift data len = for_each (\<lambda>i d. swap_entries i (len div 2 + i) d) [0..<len div 2] data"

definition hamming :: "(real \<Rightarrow> real) \<Rightarrow> nat \<Rightarrow> nat \<Rightarrow> real" where
  "hamming cosf len i = fl (fl 0.54 - fl (fl 0.46 * cosf (fl (fl (fl (2 * M_PI) * of_nat i) / of_int (int len - 1)))))"

definition scale_entry :: "nat \<Rightarrow> real \<Rightarrow> real list \<Rightarrow> real list option" where
  "scale_entry i c xs = do { x \<leftarrow> arr_get xs i; arr_set xs i (fl (x * c)) }"

definition filter_hamming :: "(real \<Rightarrow> real) \<Rightarrow> real list \<Rightarrow> nat \<Rightarrow> real list option" where
  "filter_hamming cosf data len =
     (if len mod 2 = 0 then
        for_each (\<lambda>i d. do { e \<leftarrow> scale_entry i (hamming cosf len i) d; scale_entry (len - i - 1) (hamming cosf len i) e }) [0..<len div 2] data
      else for_each (\<lambda>i. scale_entry i (hamming cosf len i)) [0..<len] data)"

definition filter_zeroPad :: "real list \<Rightarrow> real list \<Rightarrow> nat \<Rightarrow> nat \<Rightarrow> real list option" where
  "filter_zeroPad data result dataLen resultLen =
     for_each (\<lambda>i r. if i < dataLen then do { x \<leftarrow> arr_get data i; arr_set r i x } else arr_set r i 0) [0..<resultLen] result"

text \<open>The number of taps, \<open>1 << bits\<close>, is a natural number, which is the value in C for fewer than 31 bits.\<close>

definition filter_create_fir_lowpass :: "(real \<Rightarrow> real) \<Rightarrow> real list \<Rightarrow> real \<Rightarrow> nat \<Rightarrow> bool \<Rightarrow> real list option" where
  "filter_create_fir_lowpass cosf filter_vector f_break bits use_hamming =
     (let taps = 2 ^ bits in
      do { cut \<leftarrow> f2i32 (fl (of_nat taps * f_break));
           v1 \<leftarrow> for_each (\<lambda>i v. arr_set v i (if int i < sint cut then 1 else 0)) [0..<taps] filter_vector;
           v2 \<leftarrow> for_each (\<lambda>i v. do { x \<leftarrow> arr_get v i; arr_set v (taps - i - 1) x }) [0..<taps div 2] v1;
           (v3, _) \<leftarrow> filter_fft True bits v2 (replicate taps 0);
           v4 \<leftarrow> filter_fftshift v3 taps;
           if use_hamming then filter_hamming cosf v4 taps else Some v4 })"

section \<open>Running a filter\<close>

text \<open>\<open>0xFFFFFFFF >> (32 - bits)\<close>. The filters of the program have 4 and 7 bits; for none of them, where the shift by 32 is not defined in C, the
  mask here is 0.\<close>

definition cnt_mask :: "nat \<Rightarrow> u32" where "cnt_mask bits = drop_bit (32 - bits) 0xFFFFFFFF"

fun fir_sum :: "real list \<Rightarrow> u32 \<Rightarrow> real list \<Rightarrow> u32 \<Rightarrow> real \<Rightarrow> real option" where
  "fir_sum vector msk [] offset result = Some result"
| "fir_sum vector msk (c # cs) offset result =
     do { x \<leftarrow> arr_get vector (unat offset); fir_sum vector msk cs ((offset + 1) AND msk) (fl (result + fl (c * x))) }"

definition filter_run_fir_iteration :: "real list \<Rightarrow> real list \<Rightarrow> nat \<Rightarrow> u32 \<Rightarrow> real option" where
  "filter_run_fir_iteration vector flt bits offset =
     (if 2 ^ bits \<le> length flt then fir_sum vector (cnt_mask bits) (take (2 ^ bits) flt) offset 0 else None)"

definition filter_add_sample :: "real list \<Rightarrow> real \<Rightarrow> nat \<Rightarrow> u32 \<Rightarrow> (real list \<times> u32) option" where
  "filter_add_sample buffer sample bits offset =
     do { b \<leftarrow> arr_set buffer (unat offset) sample; Some (b, (offset + 1) AND cnt_mask bits) }"

end
