(* ===== verification/FilterCorrect.thy ===== *)
theory FilterCorrect
  imports DigitalFilter
begin

text \<open>
  The ring of samples of \<open>digital_filter.c\<close> refines a sliding window over which the filter is a weighted sum, and the design of a filter returns:
  the loop of the bit reversal always ends, with the reversed counter, and every access is inside the arrays.
\<close>

section \<open>The sliding window\<close>

text \<open>The samples of a ring, the oldest first.\<close>

definition window :: "real list \<Rightarrow> u32 \<Rightarrow> real list" where
  "window buffer offset = drop (unat offset) buffer @ take (unat offset) buffer"

definition ring_ok :: "nat \<Rightarrow> real list \<Rightarrow> u32 \<Rightarrow> bool" where
  "ring_ok bits buffer offset \<longleftrightarrow> length buffer = 2 ^ bits \<and> unat offset < 2 ^ bits"

lemma cnt_mask_eq: "bits \<le> 32 \<Longrightarrow> cnt_mask bits = mask bits"
proof -
  assume "bits \<le> 32"
  have "drop_bit (32 - bits) (0xFFFFFFFF :: u32) = mask bits"
  proof (rule bit_word_eqI)
    fix n
    assume "n < LENGTH(32)"
    have e: "(0xFFFFFFFF :: u32) = mask 32" by (simp add: mask_eq_exp_minus_1)
    show "bit (drop_bit (32 - bits) (0xFFFFFFFF :: u32)) n = bit (mask bits :: u32) n"
      unfolding e using \<open>bits \<le> 32\<close> by (auto simp: bit_simps)
  qed
  then show ?thesis by (simp add: cnt_mask_def)
qed

lemma next_offset:
  assumes "bits < 32" "unat offset < 2 ^ bits"
  shows "unat ((offset + 1) AND cnt_mask bits) = (unat offset + 1) mod 2 ^ bits"
proof -
  have "(2 :: nat) ^ bits < 2 ^ 32" using assms(1) by (intro power_strict_increasing) auto
  then have "unat (offset + 1) = unat offset + 1" using assms(2) by (simp add: unat_word_ariths)
  moreover have "(offset + 1) AND cnt_mask bits = take_bit bits (offset + 1)" using assms(1) by (simp add: cnt_mask_eq take_bit_eq_mask)
  ultimately show ?thesis by (simp add: unsigned_take_bit_eq) (simp add: take_bit_eq_mod)
qed

lemma fir_sum_window:
  assumes "bits < 32"
  shows "ring_ok bits buffer offset \<Longrightarrow> length cs \<le> 2 ^ bits - k \<Longrightarrow> k \<le> 2 ^ bits \<Longrightarrow>
    unat offset = (unat start + k) mod 2 ^ bits \<Longrightarrow> unat start < 2 ^ bits \<Longrightarrow>
    fir_sum buffer (cnt_mask bits) cs offset r =
      Some (foldl (\<lambda>r (c, x). fl (r + fl (c * x))) r (zip cs (drop k (window buffer start))))"
proof (induction cs arbitrary: offset r k)
  case (Cons c cs)
  let ?n = "2 ^ bits :: nat"
  have n: "length buffer = ?n" "unat offset < ?n" using Cons.prems(1) by (simp_all add: ring_ok_def)
  have k: "k < ?n" using Cons.prems(2,3) by (cases "k = ?n") auto
  have w: "length (window buffer start) = ?n" using n(1) Cons.prems(5) by (simp add: window_def)
  have el: "window buffer start ! k = buffer ! unat offset"
    using n(1) Cons.prems(4,5) k by (simp add: window_def nth_append mod_if less_diff_conv) (metis add.commute diff_diff_left le_add_diff_inverse)
  have off: "unat ((offset + 1) AND cnt_mask bits) = (unat start + Suc k) mod ?n"
    using next_offset [OF assms n(2)] Cons.prems(4) by (simp add: mod_simps)
  then have "ring_ok bits buffer ((offset + 1) AND cnt_mask bits)" using n(1) by (simp add: ring_ok_def)
  from Cons.IH [OF this _ _ off Cons.prems(5)] k Cons.prems(2)
  have "fir_sum buffer (cnt_mask bits) cs ((offset + 1) AND cnt_mask bits) r' =
      Some (foldl (\<lambda>r (c, x). fl (r + fl (c * x))) r' (zip cs (drop (Suc k) (window buffer start))))" for r' by simp
  moreover have "drop k (window buffer start) = window buffer start ! k # drop (Suc k) (window buffer start)"
    using w k by (simp add: Cons_nth_drop_Suc)
  ultimately show ?case using n el by (simp add: arr_get_def)
qed simp

definition weighted_sum :: "real list \<Rightarrow> real list \<Rightarrow> real" where
  "weighted_sum cs xs = foldl (\<lambda>r (c, x). fl (r + fl (c * x))) 0 (zip cs xs)"

lemma add_sample_ring:
  assumes "bits < 32" "ring_ok bits buffer offset"
  shows "\<exists>buffer' offset'. filter_add_sample buffer x bits offset = Some (buffer', offset') \<and> ring_ok bits buffer' offset' \<and>
    window buffer' offset' = tl (window buffer offset) @ [x]"
proof -
  let ?n = "2 ^ bits :: nat" and ?o = "unat offset"
  have n: "length buffer = ?n" "?o < ?n" using assms(2) by (simp_all add: ring_ok_def)
  define off where "off = (offset + 1) AND cnt_mask bits"
  have off: "unat off = (?o + 1) mod ?n" unfolding off_def by (rule next_offset [OF assms(1) n(2)])
  have a: "filter_add_sample buffer x bits offset = Some (buffer[?o := x], off)" using n by (simp add: filter_add_sample_def arr_set_def off_def)
  have t: "tl (window buffer offset) = drop (Suc ?o) buffer @ take ?o buffer" using n by (simp add: window_def tl_append2 drop_Suc tl_drop)
  have "window (buffer[?o := x]) off = tl (window buffer offset) @ [x]"
  proof (cases "?o + 1 = ?n")
    case True
    then have "unat off = 0" using off by simp
    moreover have "buffer[?o := x] = take ?o buffer @ [x]" using n True by (simp add: upd_conv_take_nth_drop)
    ultimately show ?thesis unfolding t using n True by (simp add: window_def)
  next
    case False
    then have "unat off = Suc ?o" using off n by simp
    then show ?thesis unfolding t using n by (simp add: window_def take_Suc_conv_app_nth)
  qed
  then show ?thesis using a n off by (simp add: ring_ok_def)
qed

lemma run_window:
  assumes "bits < 32" "ring_ok bits buffer offset" "length flt = 2 ^ bits"
  shows "filter_run_fir_iteration buffer flt bits offset = Some (weighted_sum flt (window buffer offset))"
  using fir_sum_window [OF assms(1,2), of flt 0 offset 0] assms(2,3)
  by (simp add: filter_run_fir_iteration_def weighted_sum_def ring_ok_def)

text \<open>C24: The ring refines a sliding window. Adding a sample never stores outside the buffer and replaces the oldest sample of the window, at the wrap-around of
  the index too, and the filter is then the weighted sum of its coefficients with the window, oldest sample first.\<close>

theorem filter_refines_window:
  assumes "bits < 32" "ring_ok bits buffer offset" "length flt = 2 ^ bits"
  shows "\<exists>buffer' offset'. filter_add_sample buffer x bits offset = Some (buffer', offset') \<and> ring_ok bits buffer' offset' \<and>
    window buffer' offset' = tl (window buffer offset) @ [x] \<and>
    filter_run_fir_iteration buffer' flt bits offset' = Some (weighted_sum flt (tl (window buffer offset) @ [x]))"
proof -
  obtain buffer' offset' where a: "filter_add_sample buffer x bits offset = Some (buffer', offset')" "ring_ok bits buffer' offset'"
    "window buffer' offset' = tl (window buffer offset) @ [x]" using add_sample_ring [OF assms(1,2)] by blast
  have "filter_run_fir_iteration buffer' flt bits offset' = Some (weighted_sum flt (tl (window buffer offset) @ [x]))"
    using run_window [OF assms(1) a(2) assms(3)] unfolding a(3) .
  with a show ?thesis by blast
qed

theorem filter_refines_window_witness:
  "\<exists>buffer' offset'. filter_add_sample [1, 2, 3, 4] 5 2 3 = Some (buffer', offset') \<and> ring_ok 2 buffer' offset' \<and>
    window buffer' offset' = [1, 2, 3, 5] \<and> filter_run_fir_iteration buffer' [0, 0, 0, 1] 2 offset' = Some 5"
  using filter_refines_window [of 2 "[1, 2, 3, 4]" 3 "[0, 0, 0, 1]" 5] by (simp add: ring_ok_def window_def weighted_sum_def)

section \<open>Bit reversal\<close>

text \<open>The number whose \<open>m\<close> bits are those of \<open>i\<close> in reverse.\<close>

fun bitrev :: "nat \<Rightarrow> nat \<Rightarrow> nat" where
  "bitrev 0 i = 0"
| "bitrev (Suc m) i = (i mod 2) * 2 ^ m + bitrev m (i div 2)"

lemma bitrev_less: "bitrev m i < 2 ^ m"
proof (induction m arbitrary: i)
  case (Suc m)
  show ?case using Suc [of "i div 2"] by (cases "even i") (simp_all add: odd_iff_mod_2_eq_one)
qed simp

lemma next_reversed_unfold:
  "next_reversed k j = (if k \<le> j then next_reversed (k div 2) (j - k) else Some (j + k))"
  unfolding next_reversed_def by (subst while_option_unfold) simp

text \<open>The loop ends with the reversal of the next number.\<close>

lemma next_reversed_bitrev: "i + 1 < 2 ^ Suc m \<Longrightarrow> next_reversed (2 ^ m) (bitrev (Suc m) i) = Some (bitrev (Suc m) (i + 1))"
proof (induction m arbitrary: i)
  case 0
  then have "i = 0" by simp
  then show ?case by (subst next_reversed_unfold) simp
next
  case (Suc m)
  show ?case
  proof (cases "even i")
    case True
    then have e: "i mod 2 = 0" "(i + 1) mod 2 = 1" "(i + 1) div 2 = i div 2" by presburger+
    then show ?thesis using bitrev_less [of "Suc m" "i div 2"] by (subst next_reversed_unfold) (simp del: bitrev.simps(2) add: bitrev.simps(2) [of "Suc m"])
  next
    case False
    then have o: "i mod 2 = 1" "(i + 1) mod 2 = 0" "(i + 1) div 2 = i div 2 + 1" by presburger+
    have "i div 2 + 1 < 2 ^ Suc m" using Suc.prems False by (auto elim!: oddE)
    from Suc.IH [OF this] show ?thesis using o by (subst next_reversed_unfold) (simp del: bitrev.simps(2) add: bitrev.simps(2) [of "Suc m"])
  qed
qed

section \<open>The design of a filter returns\<close>

lemma for_each_total:
  assumes "P s" "\<And>x s. x \<in> set xs \<Longrightarrow> P s \<Longrightarrow> \<exists>s'. f x s = Some s' \<and> P s'"
  shows "\<exists>s'. for_each f xs s = Some s' \<and> P s'"
  using assms
proof (induction xs arbitrary: s)
  case (Cons x xs)
  obtain s1 where "f x s = Some s1" "P s1" using Cons.prems(2) [of x s] Cons.prems(1) by auto
  with Cons.IH [OF this(2)] Cons.prems(2) show ?case by simp
qed simp

lemma for_each_upt_total:
  assumes "P 0 s" "\<And>i s. i < n \<Longrightarrow> P i s \<Longrightarrow> \<exists>s'. f i s = Some s' \<and> P (Suc i) s'"
  shows "\<exists>s'. for_each f [0..<n] s = Some s' \<and> P n s'"
  using assms(2)
proof (induction n)
  case 0
  then show ?case using assms(1) by simp
next
  case (Suc n)
  have app: "for_each f (xs @ [x]) s = for_each f xs s \<bind> f x" for xs x s by (induction xs arbitrary: s) simp_all
  obtain s1 where s1: "for_each f [0..<n] s = Some s1" "P n s1" using Suc.IH Suc.prems by (metis less_SucI)
  obtain s2 where "f n s1 = Some s2" "P (Suc n) s2" using Suc.prems [of n s1] s1(2) by auto
  then show ?case using s1(1) by (simp add: app)
qed

definition pair_len :: "nat \<Rightarrow> real list \<times> real list \<Rightarrow> bool" where
  "pair_len n v \<longleftrightarrow> length (fst v) = n \<and> length (snd v) = n"

lemma swap_total: "i < length xs \<Longrightarrow> j < length xs \<Longrightarrow> \<exists>ys. swap_entries i j xs = Some ys \<and> length ys = length xs"
  by (simp add: swap_entries_def arr_get_def arr_set_def)

lemma strides_less: "x \<in> set (strides i n d) \<Longrightarrow> x < n \<and> i \<le> x \<and> d dvd x - i"
proof (induction i n d rule: strides.induct)
  case (1 i n d)
  have "x \<in> set (if i < n \<and> 0 < d then i # strides (i + d) n d else [])" using "1.prems" by (subst (asm) strides.simps)
  then have h: "i < n" "0 < d" "x = i \<or> x \<in> set (strides (i + d) n d)" by (simp_all split: if_split_asm)
  show ?case
  proof (cases "x = i")
    case False
    then have "x \<in> set (strides (i + d) n d)" using h(3) by blast
    from "1.IH" [OF conjI [OF h(1,2)] this] have r: "x < n" "i + d \<le> x" "d dvd x - (i + d)" by blast+
    have "x - i = (x - (i + d)) + d" using r(2) by linarith
    then have "d dvd x - i" using dvd_add [OF r(3) dvd_refl] by simp
    then show ?thesis using r(1,2) by simp
  qed (use h in simp)
qed

text \<open>A butterfly of stage \<open>l\<close> stays inside \<open>n = 2\<^sup>m\<close> entries.\<close>

lemma butterfly_index:
  assumes "l < m" "j < 2 ^ l" "x \<in> set (strides j (2 ^ m) (2 * 2 ^ l))"
  shows "x + 2 ^ l < 2 ^ m"
proof -
  have x: "x < 2 ^ m" "j \<le> x" "2 ^ Suc l dvd x - j" using strides_less [OF assms(3)] by simp_all
  obtain q where q: "x - j = 2 ^ Suc l * q" using x(3) by (elim dvdE)
  have m: "(2 :: nat) ^ m = 2 ^ Suc l * 2 ^ (m - Suc l)"
    unfolding power_add [symmetric] using assms(1) by (metis Suc_leI le_add_diff_inverse)
  then have "2 ^ Suc l * q < 2 ^ Suc l * 2 ^ (m - Suc l)" using q x(1) by (metis diff_le_self le_less_trans)
  then have "q + 1 \<le> 2 ^ (m - Suc l)" by simp
  then have "2 ^ Suc l * (q + 1) \<le> 2 ^ Suc l * 2 ^ (m - Suc l)" by (rule mult_le_mono2)
  then have "2 ^ Suc l * q + 2 ^ Suc l \<le> 2 ^ m" using m by simp
  then show ?thesis using q x(2) assms(2) by simp
qed

lemma butterfly_total:
  assumes "pair_len n v" "i + l1 < n"
  shows "\<exists>v'. butterfly l1 u1 u2 i v = Some v' \<and> pair_len n v'"
  using assms by (auto simp: butterfly_def pair_len_def arr_get_def arr_set_def Let_def case_prod_unfold)

lemma filter_fft_total:
  assumes "length re = 2 ^ m" "length im = 2 ^ m"
  shows "\<exists>v. filter_fft dir m re im = Some v \<and> pair_len (2 ^ m) v"
proof -
  let ?n = "2 ^ m :: nat"
  have "\<exists>s. for_each (reverse_step (?n div 2)) [0..<?n - 1] ((re, im), 0) = Some s \<and> pair_len ?n (fst s) \<and> snd s = bitrev m (?n - 1)"
  proof (rule for_each_upt_total [where P = "\<lambda>i s. pair_len ?n (fst s) \<and> snd s = bitrev m i"])
    have "bitrev m 0 = 0" by (induction m) simp_all
    then show "pair_len ?n (fst ((re, im), 0 :: nat)) \<and> snd ((re, im), 0 :: nat) = bitrev m 0" using assms by (simp add: pair_len_def)
  next
    fix i s assume h: "i < ?n - 1" "pair_len ?n (fst s) \<and> snd s = bitrev m i"
    obtain k where k: "m = Suc k" using h(1) by (cases m) auto
    have "i + 1 < 2 ^ Suc k" using h(1) k by simp
    from next_reversed_bitrev [OF this] have nr: "next_reversed (?n div 2) (bitrev m i) = Some (bitrev m (Suc i))" by (simp add: k del: bitrev.simps)
    obtain rs is' j where s: "s = ((rs, is'), j)" by (metis prod.collapse)
    have "i < ?n" "bitrev m i < ?n" using h(1) bitrev_less by auto
    then show "\<exists>s'. reverse_step (?n div 2) i s = Some s' \<and> pair_len ?n (fst s') \<and> snd s' = bitrev m (Suc i)"
      using h(2) swap_total [of i rs "bitrev m i"] swap_total [of i is' "bitrev m i"] unfolding s
      by (auto simp: reverse_step_def nr pair_len_def)
  qed
  then obtain v1 j where 1: "for_each (reverse_step (?n div 2)) [0..<?n - 1] ((re, im), 0) = Some (v1, j)" "pair_len ?n v1" by force
  have "\<exists>s. for_each (fft_stage dir ?n) [0..<m] (v1, 1, - 1, 0) = Some s \<and> pair_len ?n (fst s) \<and> fst (snd s) = 2 ^ m"
  proof (rule for_each_upt_total [where P = "\<lambda>l s. pair_len ?n (fst s) \<and> fst (snd s) = 2 ^ l"])
    fix l and s :: "(real list \<times> real list) \<times> nat \<times> real \<times> real"
    assume l: "l < m" "pair_len ?n (fst s) \<and> fst (snd s) = 2 ^ l"
    obtain v l1 c1 c2 where s: "s = (v, l1, c1, c2)" by (cases s) auto
    have "\<exists>w. for_each (butterflies ?n l1 c1 c2) [0..<l1] (v, 1, 0) = Some w \<and> pair_len ?n (fst w)"
    proof (rule for_each_total)
      fix j and w :: "(real list \<times> real list) \<times> real \<times> real"
      assume j: "j \<in> set [0..<l1]" "pair_len ?n (fst w)"
      have "\<exists>w'. for_each (butterfly l1 (fst (snd w)) (snd (snd w))) (strides j ?n (2 * l1)) (fst w) = Some w' \<and> pair_len ?n w'"
      proof (rule for_each_total)
        fix x u assume x: "x \<in> set (strides j ?n (2 * l1))" "pair_len ?n u"
        have "x + l1 < ?n" using butterfly_index [of l m j x] j(1) l s x(1) by simp
        then show "\<exists>u'. butterfly l1 (fst (snd w)) (snd (snd w)) x u = Some u' \<and> pair_len ?n u'" by (rule butterfly_total [OF x(2)])
      qed (rule j(2))
      then show "\<exists>w'. butterflies ?n l1 c1 c2 j w = Some w' \<and> pair_len ?n (fst w')" by (auto simp: butterflies_def case_prod_unfold)
    qed (use l s in simp)
    then show "\<exists>s'. fft_stage dir ?n l s = Some s' \<and> pair_len ?n (fst s') \<and> fst (snd s') = 2 ^ Suc l"
      using l s by (auto simp: fft_stage_def Let_def)
  qed (use 1(2) in simp)
  then obtain v2 x where 2: "for_each (fft_stage dir ?n) [0..<m] (v1, 1, - 1, 0) = Some (v2, x)" "pair_len ?n v2" by force
  have "\<exists>v. for_each (\<lambda>i (re, im). do { r \<leftarrow> arr_get re i; re1 \<leftarrow> arr_set re i (fl (r / of_nat ?n));
      q \<leftarrow> arr_get im i; im1 \<leftarrow> arr_set im i (fl (q / of_nat ?n)); Some (re1, im1) }) [0..<?n] v2 = Some v \<and> pair_len ?n v"
    by (rule for_each_total, rule 2(2)) (auto simp: pair_len_def arr_get_def arr_set_def)
  then show ?thesis using 1(1) 2 by (cases v2; cases dir) (auto simp: filter_fft_def Let_def)
qed

lemma length_2: "length xs = 2 ^ bits \<Longrightarrow> 0 < bits \<Longrightarrow> i < 2 ^ bits div 2 \<Longrightarrow> 2 ^ bits div 2 + i < length xs"
  by (cases bits) auto

lemma scale_total: "i < length xs \<Longrightarrow> \<exists>ys. scale_entry i c xs = Some ys \<and> length ys = length xs"
  by (simp add: scale_entry_def arr_get_def arr_set_def)

text \<open>C25: Filter design returns. For a power of two of at least two taps and a cut-off below half a million taps the design of the low-pass ends and stays inside its
  arrays: the inner loop of the bit reversal always ends, because it is entered with the reversed value of a counter that is not all ones, and the butterflies, the shift
  and the window index the taps only.\<close>

theorem filter_design_returns:
  assumes "0 < bits" "length filter_vector = 2 ^ bits" "\<bar>2 ^ bits * f_break\<bar> \<le> 2 ^ 20"
  shows "\<exists>c. filter_create_fir_lowpass cosf filter_vector f_break bits hamming_on = Some c \<and> length c = 2 ^ bits"
proof -
  let ?n = "2 ^ bits :: nat"
  have f: "\<bar>fl (2 ^ bits * f_break)\<bar> \<le> 2 ^ 20" by (rule f32.rnd_abs_le [OF assms(3)]) (simp add: is_f32_numeral)
  have "\<bar>of_int (ftrunc (fl (2 ^ bits * f_break)))\<bar> \<le> (1048576 :: real)" using ftrunc_abs [of "fl (2 ^ bits * f_break)"] f by simp
  then have "\<bar>ftrunc (fl (2 ^ bits * f_break))\<bar> \<le> 1048576" by linarith
  then obtain cut where cut: "f2i32 (fl (2 ^ bits * f_break)) = Some cut" by (auto simp: f2i32_def abs_le_iff)
  have "\<exists>v. for_each (\<lambda>i v. arr_set v i (if int i < sint cut then 1 else 0 :: real)) [0..<?n] filter_vector = Some v \<and> length v = ?n"
    by (rule for_each_total) (simp_all add: assms(2) arr_set_def)
  then obtain v1 where 1: "for_each (\<lambda>i v. arr_set v i (if int i < sint cut then 1 else 0 :: real)) [0..<?n] filter_vector = Some v1" "length v1 = ?n" by blast
  have "\<exists>v. for_each (\<lambda>i v. do { x \<leftarrow> arr_get v i; arr_set v (?n - i - 1) x }) [0..<?n div 2] v1 = Some v \<and> length v = ?n"
    by (rule for_each_total) (auto simp: 1(2) arr_set_def arr_get_def)
  then obtain v2 where 2: "for_each (\<lambda>i v. do { x \<leftarrow> arr_get v i; arr_set v (?n - i - 1) x }) [0..<?n div 2] v1 = Some v2" "length v2 = ?n" by blast
  obtain v3 w where 3: "filter_fft True bits v2 (replicate ?n 0) = Some (v3, w)" "length v3 = ?n"
    using filter_fft_total [OF 2(2), of "replicate ?n 0" True] by (auto simp: pair_len_def)
  have "\<exists>v. filter_fftshift v3 ?n = Some v \<and> length v = ?n"
    unfolding filter_fftshift_def
  proof (rule for_each_total)
    fix i and d :: "real list" assume "i \<in> set [0..<?n div 2]" "length d = ?n"
    then show "\<exists>s'. swap_entries i (?n div 2 + i) d = Some s' \<and> length s' = ?n" using swap_total [of i d "?n div 2 + i"] length_2 [of d bits i] assms(1) by auto
  qed (rule 3(2))
  then obtain v4 where 4: "filter_fftshift v3 ?n = Some v4" "length v4 = ?n" by blast
  have "\<exists>c. filter_hamming cosf v4 ?n = Some c \<and> length c = ?n"
  proof -
    have "\<exists>c. for_each (\<lambda>i d. do { e \<leftarrow> scale_entry i (hamming cosf ?n i) d; scale_entry (?n - i - 1) (hamming cosf ?n i) e }) [0..<?n div 2] v4 = Some c \<and> length c = ?n"
      by (rule for_each_total) (auto simp: 4(2) scale_entry_def arr_get_def arr_set_def)
    then show ?thesis using assms(1) by (simp add: filter_hamming_def)
  qed
  then show ?thesis using cut 1(1) 2(1) 3(1) 4 by (auto simp: filter_create_fir_lowpass_def Let_def)
qed

theorem filter_design_returns_witness:
  "\<exists>c. filter_create_fir_lowpass (\<lambda>_. 0) (replicate 128 7) (1 / 50) 7 True = Some c \<and> length c = 128"
  using filter_design_returns [of 7 "replicate 128 7" "1 / 50"] by simp

end
