(* ===== verification/Bldc.thy ===== *)
theory Bldc
  imports Board DigitalFilter Svm
begin

text \<open>
  The six-step driver, \<open>mcpwm.c\<close>: its state, the settings of the half bridges and of the timers, the commands, the readings and the hall
  sensor tables. The interrupts and the threads are in \<open>BldcIsr\<close>.

  The state is the record \<open>bldc\<close>, one field per static variable of the file, the static locals of the functions included. What the peripherals show at
  the moment (converted samples, hall sensors, encoder, elapsed time) is the field \<open>bl_env\<close>, which the environment sets before every step. The
  settings of the output channels and the compare values are the record \<open>outputs\<close>: a setting is written to a preload register
  (\<open>out_next\<close>) and becomes active with the commutation event \<open>TIM_EventSource_COM\<close>, as \<open>TIM_CCPreloadControl\<close> has set up the timer. The counter of timer 1, which
  \<open>update_timer_attempt\<close> reads, is a sequence of arbitrary values. The lock around the copies of \<open>timer_struct\<close> is not modelled: a step is atomic.
  An operation is \<^term>\<open>None\<close> where the source divides by zero, converts a number that does not fit, or accesses an array outside.
\<close>

section \<open>State\<close>

record mc_timer_struct =
  tm_updated :: bool
  tm_top :: u32
  tm_duty :: u32
  tm_val_sample :: u32
  tm_curr1_sample :: u32
  tm_curr2_sample :: u32

datatype oc_mode = Forced_InActive | OCMode_Inactive | OCMode_PWM1 | OCMode_PWM2

text \<open>A channel: its mode, the high side enabled (\<open>CCx\<close>), the low side enabled (\<open>CCxN\<close>).\<close>

datatype channel = channel oc_mode bool bool

record bridge =
  ch1 :: channel
  ch2 :: channel
  ch3 :: channel

text \<open>The registers: \<open>ARR\<close> and \<open>CCR1\<close> to \<open>CCR3\<close> (equal) of timer 1, \<open>CCR1\<close> of timer 8, \<open>CCR4\<close> of timer 1, \<open>CCR2\<close> of timer 8.\<close>

record outputs =
  out_next :: bridge
  out_active :: bridge
  reg_arr :: u32
  reg_duty :: u32
  reg_val_sample :: u32
  reg_curr1_sample :: u32
  reg_curr2_sample :: u32
  tim1_cnt :: "nat \<Rightarrow> u32"
  tim2_cnt :: u32

record fir =
  fir_coeffs :: "real list"
  fir_samples :: "real list"
  fir_index :: u32

record rotor_detect =
  det_step :: int
  det_now :: int
  det_currents :: "real list"
  det_voltages :: "real list"
  det_diff :: "real list"
  det_avg :: "real list"
  det_avg_samples :: "real list"

text \<open>The two times are \<^term>\<open>None\<close> when they are infinite (at standstill, or with a minimum speed of zero); a comparison with them is then false.\<close>

record rpm_dep_t =
  cycle_int_limit :: real
  cycle_int_limit_running :: real
  cycle_int_limit_max :: real
  comm_time_sum :: "real option"
  comm_time_sum_min_rpm :: "real option"
  comms :: i32
  time_at_comm :: u32

record bl_in =
  bl_vin :: u16
  bl_sens1 :: u16
  bl_sens2 :: u16
  bl_sens3 :: u16
  bl_adc_curr1 :: u16
  bl_adc_curr2 :: u16
  bl_inj_curr0 :: u16
  bl_inj_curr1 :: u16
  bl_inj_curr0_2 :: u16
  bl_inj_curr1_2 :: u16
  bl_hall :: "bool \<times> bool \<times> bool"
  bl_encoder :: "real option"
  bl_elapsed :: u32
  bl_tim12_cnt :: u32

datatype bl_event = bl_watchdog_reset | bl_mc_timer_isr

record bldc =
  bl_conf :: mc_configuration
  bl_comm_step :: int
  bl_direction :: bool
  bl_dutycycle_set :: real
  bl_dutycycle_now :: real
  bl_rpm_now :: real
  bl_speed_pid_set_rpm :: real
  bl_pos_pid_set_pos :: real
  bl_current_set :: real
  bl_tachometer :: i32
  bl_tachometer_abs :: i32
  bl_tachometer_for_direction :: i32
  bl_curr0_sum :: i32
  bl_curr1_sum :: i32
  bl_curr_start_samples :: i32
  bl_curr0_offset :: i32
  bl_curr1_offset :: i32
  bl_state :: mc_state
  bl_control_mode :: mc_control_mode
  bl_last_current_sample :: real
  bl_last_current_sample_filtered :: real
  bl_detect :: rotor_detect
  bl_switching_frequency_now :: real
  bl_ignore_iterations :: int
  bl_timer :: mc_timer_struct
  bl_curr_samp_volt :: nat
  bl_hall_to_phase_table :: "int list"
  bl_cycles_running :: u32
  bl_slow_ramping_cycles :: u32
  bl_has_commutated :: bool
  bl_rpm_dep :: rpm_dep_t
  bl_cycle_integrator_sum :: real
  bl_cycle_integrator_iterations :: real
  bl_pwm_cycles_sum :: real
  bl_pwm_cycles :: i32
  bl_last_pwm_cycles_sum :: real
  bl_last_pwm_cycles_sums :: "real list"
  bl_dccal_done :: bool
  bl_sensorless_now :: bool
  bl_hall_detect_table :: "i32 list list"
  bl_kv_fir :: fir
  bl_amp_fir :: fir
  bl_curr_fir :: fir
  bl_last_adc_isr_duration :: real
  bl_last_inj_adc_isr_duration :: real
  bl_vzero :: int
  bl_timer_thd_stop :: bool
  bl_rpm_thd_stop :: bool
  bl_speed_pid :: "real \<times> real"
  bl_pos_pid :: "real \<times> real"
  bl_rpm_p1 :: real
  bl_cnt_tmp :: int
  bl_comm_step_prev :: int
  bl_prev_tot_sample :: real
  bl_direction_before :: bool
  bl_cycle_integrator :: real
  bl_cycle_sum :: real
  bl_limit_delay :: nat
  bl_last_step :: int
  bl_curr_norm :: "int \<times> int \<times> int"
  bl_out :: outputs
  bl_env :: bl_in
  bl_events :: "bl_event list"

record bl_board = board +
  CURR1_DOUBLE_SAMPLE :: bool
  CURR2_DOUBLE_SAMPLE :: bool
  WS2811_ENABLE :: bool

definition bl_hw_410 :: bl_board where
  "bl_hw_410 = board.extend hw_410 \<lparr>CURR1_DOUBLE_SAMPLE = False, CURR2_DOUBLE_SAMPLE = False, WS2811_ENABLE = False\<rparr>"

definition MCPWM_SWITCH_FREQUENCY_MIN :: real where "MCPWM_SWITCH_FREQUENCY_MIN = 3000"
definition MCPWM_SWITCH_FREQUENCY_MAX :: real where "MCPWM_SWITCH_FREQUENCY_MAX = 40000"
definition MCPWM_SWITCH_FREQUENCY_DC_MOTOR :: real where "MCPWM_SWITCH_FREQUENCY_DC_MOTOR = 25000"
definition MCPWM_RPM_TIMER_FREQ :: real where "MCPWM_RPM_TIMER_FREQ = 1000000"
definition MCPWM_PID_TIME_K :: real where "MCPWM_PID_TIME_K = fl 0.001"
definition MCPWM_CMD_STOP_TIME :: int where "MCPWM_CMD_STOP_TIME = 0"

definition KV_FIR_TAPS_BITS :: nat where "KV_FIR_TAPS_BITS = 7"
definition AMP_FIR_TAPS_BITS :: nat where "AMP_FIR_TAPS_BITS = 7"
definition CURR_FIR_TAPS_BITS :: nat where "CURR_FIR_TAPS_BITS = 4"

definition f2u16 :: "real \<Rightarrow> u32 option" where
  "f2u16 x = (let k = ftrunc x in if 0 \<le> k \<and> k < 2 ^ 16 then Some (word_of_int k) else None)"

definition of_u32 :: "u32 \<Rightarrow> real" where "of_u32 w = fl (of_nat (unat w))"

definition IS_DETECTING :: "bldc \<Rightarrow> bool" where "IS_DETECTING m \<longleftrightarrow> bl_state m = MC_STATE_DETECTING"

section \<open>Half bridges\<close>

fun set_channel :: "nat \<Rightarrow> channel \<Rightarrow> bridge \<Rightarrow> bridge" where
  "set_channel (Suc 0) c b = b\<lparr>ch1 := c\<rparr>"
| "set_channel (Suc (Suc 0)) c b = b\<lparr>ch2 := c\<rparr>"
| "set_channel (Suc (Suc (Suc 0))) c b = b\<lparr>ch3 := c\<rparr>"
| "set_channel _ c b = b"

definition write_channels :: "(nat \<times> channel) list \<Rightarrow> bldc \<Rightarrow> bldc" where
  "write_channels cs m = m\<lparr>bl_out := (bl_out m)\<lparr>out_next := foldl (\<lambda>b (n, c). set_channel n c b) (out_next (bl_out m)) cs\<rparr>\<rparr>"

text \<open>\<open>TIM_GenerateEvent(TIM1, TIM_EventSource_COM)\<close>.\<close>

definition commutation_event :: "bldc \<Rightarrow> bldc" where
  "commutation_event m = m\<lparr>bl_out := (bl_out m)\<lparr>out_active := out_next (bl_out m)\<rparr>\<rparr>"

definition all_channels :: "channel \<Rightarrow> (nat \<times> channel) list" where
  "all_channels c = [(1, c), (2, c), (3, c)]"

definition ch_zero :: channel where "ch_zero = channel OCMode_Inactive True False"
definition ch_off :: channel where "ch_off = channel Forced_InActive True False"
definition ch_brake :: channel where "ch_brake = channel Forced_InActive True True"

text \<open>The phases of a commutation step: the undriven, the positive and the negative one.\<close>

definition step_phases :: "bool \<Rightarrow> int \<Rightarrow> (nat \<times> nat \<times> nat) option" where
  "step_phases direction next_step =
     (if next_step = 1 then Some (if direction then (1, 2, 3) else (1, 3, 2))
      else if next_step = 2 then Some (if direction then (2, 1, 3) else (3, 1, 2))
      else if next_step = 3 then Some (if direction then (3, 1, 2) else (2, 1, 3))
      else if next_step = 4 then Some (if direction then (1, 3, 2) else (1, 2, 3))
      else if next_step = 5 then Some (if direction then (2, 3, 1) else (3, 2, 1))
      else if next_step = 6 then Some (if direction then (3, 2, 1) else (2, 3, 1))
      else None)"

definition positive_channel :: "mc_pwm_mode \<Rightarrow> bool \<Rightarrow> channel" where
  "positive_channel mode detecting =
     channel OCMode_PWM1 True (if \<not> detecting \<and> mode = PWM_MODE_NONSYNCHRONOUS_HISW then False else True)"

definition negative_channel :: "mc_pwm_mode \<Rightarrow> bool \<Rightarrow> channel" where
  "negative_channel mode detecting =
     channel (if \<not> detecting \<and> mode = PWM_MODE_BIPOLAR then OCMode_PWM2 else OCMode_Inactive) True True"

definition set_next_comm_step :: "int \<Rightarrow> bldc \<Rightarrow> bldc" where
  "set_next_comm_step next_step m =
     (if motor_type (bl_conf m) = MOTOR_TYPE_DC then
        write_channels
          ((2, ch_zero) # (if bl_direction m then [(1, channel OCMode_PWM1 True True), (3, channel OCMode_Inactive True True)]
                           else [(3, channel OCMode_PWM1 True True), (1, channel OCMode_Inactive True True)])) m
      else case step_phases (bl_direction m) next_step of
          Some (float_ph, high_ph, low_ph) \<Rightarrow>
            write_channels [(float_ph, ch_zero), (high_ph, positive_channel (pwm_mode (bl_conf m)) (IS_DETECTING m)),
              (low_ph, negative_channel (pwm_mode (bl_conf m)) (IS_DETECTING m))] m
        | None \<Rightarrow> write_channels (all_channels ch_off) m)"

section \<open>Timer settings\<close>

text \<open>Where the converters sample the voltage and the two currents, and which currents are taken from the voltage-synchronised samples.\<close>

definition sample_pos_bipolar :: "int \<Rightarrow> bool \<Rightarrow> u32 \<Rightarrow> u32 \<Rightarrow> (u32 \<times> u32 \<times> nat) option" where
  "sample_pos_bipolar step direction duty pwm_top =
     (let samp_neg = pwm_top - 2; samp_pos = duty + (pwm_top - duty) div 2; samp_zero = pwm_top - 2 in
      if step = 1 then Some (if direction then (samp_zero, samp_neg, 2) else (samp_zero, samp_pos, 0))
      else if step = 2 then Some (if direction then (samp_pos, samp_neg, 2) else (samp_pos, samp_zero, 0))
      else if step = 3 then Some (if direction then (samp_pos, samp_zero, 0) else (samp_pos, samp_neg, 2))
      else if step = 4 then Some (if direction then (samp_zero, samp_pos, 0) else (samp_zero, samp_neg, 2))
      else if step = 5 then Some (if direction then (samp_neg, samp_pos, 1) else (samp_neg, samp_zero, 1))
      else if step = 6 then Some (if direction then (samp_neg, samp_zero, 1) else (samp_neg, samp_pos, 1))
      else None)"

definition samp_volt :: "int \<Rightarrow> bool \<Rightarrow> nat" where
  "samp_volt step direction =
     (if step = 1 then (if direction then 3 else 1)
      else if step = 2 then 2
      else if step = 3 then 2
      else if step = 4 then (if direction then 1 else 3)
      else if step = 5 then (if direction then 1 else 3)
      else if step = 6 then (if direction then 3 else 1)
      else 0)"

definition sample_pos_unipolar :: "bl_board \<Rightarrow> int \<Rightarrow> bool \<Rightarrow> u32 \<Rightarrow> u32 \<Rightarrow> u32 \<times> u32 \<times> nat" where
  "sample_pos_unipolar b step direction duty pwm_top =
     (let c = duty + (pwm_top - duty) div 2;
          curr = (if c > pwm_top - 70 then pwm_top - 70 else c) in
      if duty > pwm_top div 2 then
        (let double = CURR1_DOUBLE_SAMPLE b \<and> (step = 2 \<or> step = 3) \<or>
               CURR2_DOUBLE_SAMPLE b \<and> (if direction then step = 4 \<or> step = 5 else step = 1 \<or> step = 6) in
         (if double then duty + 90 else curr, if double then pwm_top - 230 else curr, samp_volt step direction))
      else (curr, curr, 0))"

definition update_adc_sample_pos :: "bl_board \<Rightarrow> mc_timer_struct \<Rightarrow> bldc \<Rightarrow> (mc_timer_struct \<times> bldc) option" where
  "update_adc_sample_pos b t m =
     (let pwm_top = tm_top t; cf = bl_conf m in
      do { mx \<leftarrow> f2u32 (fl (of_u32 pwm_top * l_max_duty cf));
           let duty = (if tm_duty t > mx then mx else tm_duty t);
           let (val, curr1, curr2, volt) =
             (if motor_type cf = MOTOR_TYPE_DC then
                (if duty > 1000 then (duty div 2, pwm_top - 10, pwm_top - 10, 0) else (duty + 800, pwm_top - 10, pwm_top - 10, 1))
              else if IS_DETECTING m then (duty div 2, (pwm_top - duty) div 2 + duty, (pwm_top - duty) div 2 + duty, 0)
              else if pwm_mode cf = PWM_MODE_BIPOLAR then
                (case sample_pos_bipolar (bl_comm_step m) (bl_direction m) duty pwm_top of
                   Some (c1, c2, v) \<Rightarrow> (pwm_top div 4, c1, c2, v)
                 | None \<Rightarrow> (pwm_top div 4, tm_curr1_sample t, tm_curr2_sample t, 0))
              else (let (c1, c2, v) = sample_pos_unipolar b (bl_comm_step m) (bl_direction m) duty pwm_top in (duty div 2, c1, c2, v)));
           Some (t\<lparr>tm_val_sample := val, tm_curr1_sample := curr1, tm_curr2_sample := curr2\<rparr>, m\<lparr>bl_curr_samp_volt := volt\<rparr>) })"

text \<open>Reading the counter of timer 1 takes the next value of the sequence. \<open>TIM1->ARR - 500\<close> wraps around.\<close>

definition update_timer_attempt :: "bldc \<Rightarrow> bldc" where
  "update_timer_attempt m =
     (let t = bl_timer m; h = bl_out m; c0 = tim1_cnt h 0; c1 = tim1_cnt h 1 in
      if tm_updated t then m
      else if \<not> c0 > 10 then m\<lparr>bl_out := h\<lparr>tim1_cnt := (\<lambda>n. tim1_cnt h (Suc n))\<rparr>\<rparr>
      else if \<not> c1 < reg_arr h - 500 then m\<lparr>bl_out := h\<lparr>tim1_cnt := (\<lambda>n. tim1_cnt h (Suc (Suc n)))\<rparr>\<rparr>
      else m\<lparr>bl_timer := t\<lparr>tm_updated := True\<rparr>,
             bl_out := h\<lparr>tim1_cnt := (\<lambda>n. tim1_cnt h (Suc (Suc n))), reg_arr := tm_top t, reg_duty := tm_duty t, reg_val_sample := tm_val_sample t,
               reg_curr1_sample := tm_curr1_sample t, reg_curr2_sample := tm_curr2_sample t\<rparr>\<rparr>)"

definition set_next_timer_settings :: "mc_timer_struct \<Rightarrow> bldc \<Rightarrow> bldc" where
  "set_next_timer_settings settings m = update_timer_attempt (m\<lparr>bl_timer := settings\<lparr>tm_updated := False\<rparr>\<rparr>)"

text \<open>\<open>SYSTEM_CORE_CLOCK / (int)switching_frequency_now\<close>.\<close>

definition timer_top :: "real \<Rightarrow> u32 option" where
  "timer_top f = do { k \<leftarrow> f2i32 f; if k = 0 then None else Some (word_of_int (c_div (sint SYSTEM_CORE_CLOCK) (sint k))) }"

definition apply_timer :: "bl_board \<Rightarrow> mc_timer_struct \<Rightarrow> bldc \<Rightarrow> bldc option" where
  "apply_timer b t m = do { (t1, m1) \<leftarrow> update_adc_sample_pos b t m; Some (set_next_timer_settings t1 m1) }"

definition set_switching_frequency :: "bl_board \<Rightarrow> real \<Rightarrow> bldc \<Rightarrow> bldc option" where
  "set_switching_frequency b frequency m =
     (let m1 = m\<lparr>bl_switching_frequency_now := frequency\<rparr> in
      do { tp \<leftarrow> timer_top frequency; apply_timer b ((bl_timer m1)\<lparr>tm_top := tp\<rparr>) m1 })"

definition bl_stop_pwm_hw :: "bl_board \<Rightarrow> bldc \<Rightarrow> bldc option" where
  "bl_stop_pwm_hw b m = set_switching_frequency b MCPWM_SWITCH_FREQUENCY_MAX (commutation_event (write_channels (all_channels ch_off) m))"

definition full_brake_hw :: "bl_board \<Rightarrow> bldc \<Rightarrow> bldc option" where
  "full_brake_hw b m = set_switching_frequency b MCPWM_SWITCH_FREQUENCY_MAX (commutation_event (write_channels (all_channels ch_brake) m))"

definition stop_pwm_ll :: "bl_board \<Rightarrow> bldc \<Rightarrow> bldc option" where
  "stop_pwm_ll b m = bl_stop_pwm_hw b (m\<lparr>bl_state := MC_STATE_OFF, bl_ignore_iterations := MCPWM_CMD_STOP_TIME\<rparr>)"

definition full_brake_ll :: "bl_board \<Rightarrow> bldc \<Rightarrow> bldc option" where
  "full_brake_ll b m = full_brake_hw b (m\<lparr>bl_state := MC_STATE_FULL_BRAKE, bl_ignore_iterations := MCPWM_CMD_STOP_TIME\<rparr>)"

section \<open>Commutation\<close>

definition c_rem :: "int \<Rightarrow> int \<Rightarrow> int" where "c_rem x y = x - y * c_div x y"

definition arr_set_int :: "'a list \<Rightarrow> int \<Rightarrow> 'a \<Rightarrow> 'a list option" where
  "arr_set_int xs k v = (if 0 \<le> k then arr_set xs (nat k) v else None)"

definition arr_at :: "'a list \<Rightarrow> int \<Rightarrow> 'a option" where
  "arr_at xs k = (if 0 \<le> k then arr_get xs (nat k) else None)"

definition tacho_diff :: "int \<Rightarrow> int \<Rightarrow> int" where
  "tacho_diff step last_step =
     (let d = c_rem (step - last_step) 6 in if d > 3 then d - 6 else if d < -2 then d + 6 else d)"

definition update_rpm_tacho :: "bldc \<Rightarrow> bldc" where
  "update_rpm_tacho m =
     (let step = bl_comm_step m - 1; d = tacho_diff step (bl_last_step m); w = word_of_int d;
          m1 = m\<lparr>bl_last_step := step\<rparr>;
          m2 = (if d \<noteq> 0 then m1\<lparr>bl_rpm_dep := (bl_rpm_dep m1)\<lparr>comms := comms (bl_rpm_dep m1) + w,
                  time_at_comm := time_at_comm (bl_rpm_dep m1) + tim2_cnt (bl_out m1)\<rparr>,
                  bl_out := (bl_out m1)\<lparr>tim2_cnt := 0\<rparr>\<rparr> else m1) in
      m2\<lparr>bl_tachometer_for_direction := bl_tachometer_for_direction m2 + w, bl_tachometer_abs := bl_tachometer_abs m2 + w,
         bl_tachometer := (if bl_direction m2 then bl_tachometer m2 + w else bl_tachometer m2 - w)\<rparr>)"

definition mcpwm_get_rpm :: "bldc \<Rightarrow> real" where
  "mcpwm_get_rpm m = (if bl_direction m then bl_rpm_now m else - bl_rpm_now m)"

definition update_sensor_mode :: "bldc \<Rightarrow> bldc" where
  "update_sensor_mode m =
     m\<lparr>bl_sensorless_now := (sensor_mode (bl_conf m) = SENSOR_MODE_SENSORLESS \<or>
        sensor_mode (bl_conf m) = SENSOR_MODE_HYBRID \<and> \<bar>mcpwm_get_rpm m\<bar> > hall_sl_erpm (bl_conf m))\<rparr>"

text \<open>The loops \<open>while (comm_step > 6) comm_step -= 6;\<close> and \<open>while (comm_step < 1) comm_step += 6;\<close>.\<close>

function step_down :: "int \<Rightarrow> int" where "step_down s = (if s > 6 then step_down (s - 6) else s)"
  by auto
termination by (relation "measure nat") auto

function step_up :: "int \<Rightarrow> int" where "step_up s = (if s < 1 then step_up (s + 6) else s)"
  by auto
termination by (relation "measure (\<lambda>s. nat (1 - s))") auto

declare step_down.simps [simp del] step_up.simps [simp del]

definition finish_commutation :: "bl_board \<Rightarrow> bldc \<Rightarrow> bldc option" where
  "finish_commutation b m =
     do { m1 \<leftarrow> apply_timer b (bl_timer m) ((commutation_event m)\<lparr>bl_has_commutated := True\<rparr>);
          Some (update_sensor_mode m1) }"

definition commutate :: "bl_board \<Rightarrow> int \<Rightarrow> bldc \<Rightarrow> bldc option" where
  "commutate b steps m =
     do { css \<leftarrow> arr_set_int (bl_last_pwm_cycles_sums m) (bl_comm_step m - 1) (bl_pwm_cycles_sum m);
          let m1 = m\<lparr>bl_last_pwm_cycles_sum := bl_pwm_cycles_sum m, bl_last_pwm_cycles_sums := css, bl_pwm_cycles_sum := 0, bl_pwm_cycles := 0\<rparr>;
          if motor_type (bl_conf m1) = MOTOR_TYPE_BLDC \<and> bl_sensorless_now m1 then
            (let m2 = update_rpm_tacho (m1\<lparr>bl_comm_step := step_up (step_down (bl_comm_step m1 + steps))\<rparr>) in
             if bl_state m2 \<noteq> MC_STATE_RUNNING then Some (update_sensor_mode m2)
             else finish_commutation b (set_next_comm_step (bl_comm_step m2) m2))
          else finish_commutation b m1 }"

text \<open>The hall sensors give a number from 0 to 7, and the table the commutation step.\<close>

definition bl_read_hall :: "bldc \<Rightarrow> nat" where
  "bl_read_hall m = (let (h1, h2, h3) = bl_hall (bl_env m) in (of_bool h1 OR push_bit 1 (of_bool h2)) OR push_bit 2 (of_bool h3))"

definition mcpwm_read_hall_phase :: "bldc \<Rightarrow> int option" where
  "mcpwm_read_hall_phase m = arr_get (bl_hall_to_phase_table m) (bl_read_hall m + (if bl_direction m then 8 else 0))"

definition fwd_to_rev :: "int list" where "fwd_to_rev = [- 1, 1, 6, 5, 4, 3, 2]"

definition hall_entry :: "int list \<Rightarrow> nat \<Rightarrow> int list \<Rightarrow> int list option" where
  "hall_entry table i hp =
     do { ind_now \<leftarrow> arr_get table i;
          hp1 \<leftarrow> arr_set hp (8 + i) ind_now;
          r \<leftarrow> (if ind_now < 1 then Some ind_now else arr_at fwd_to_rev ind_now);
          arr_set hp1 i r }"

definition mcpwm_init_hall_table :: "int list \<Rightarrow> bldc \<Rightarrow> bldc option" where
  "mcpwm_init_hall_table table m =
     do { hp \<leftarrow> for_each (hall_entry table) [0..<8] (bl_hall_to_phase_table m); Some (m\<lparr>bl_hall_to_phase_table := hp\<rparr>) }"

section \<open>Duty cycle\<close>

definition switching_frequency :: "mc_configuration \<Rightarrow> bool \<Rightarrow> real \<Rightarrow> real" where
  "switching_frequency cf detecting dutyCycle =
     (if motor_type cf = MOTOR_TYPE_DC then MCPWM_SWITCH_FREQUENCY_DC_MOTOR
      else if detecting \<or> pwm_mode cf = PWM_MODE_BIPOLAR then MCPWM_SWITCH_FREQUENCY_MAX
      else fl (fl (MCPWM_SWITCH_FREQUENCY_MIN * fl (1 - \<bar>dutyCycle\<bar>)) + fl (MCPWM_SWITCH_FREQUENCY_MAX * \<bar>dutyCycle\<bar>)))"

definition duty_compare :: "mc_configuration \<Rightarrow> bool \<Rightarrow> u32 \<Rightarrow> real \<Rightarrow> u32 option" where
  "duty_compare cf detecting pwm_top d =
     (if motor_type cf = MOTOR_TYPE_BLDC \<and> pwm_mode cf = PWM_MODE_BIPOLAR \<and> \<not> detecting
      then f2u16 (fl (fl (fl (of_u32 pwm_top / 2) * d) + fl (of_u32 pwm_top / 2)))
      else f2u16 (fl (of_u32 pwm_top * d)))"

definition set_duty_cycle_hw :: "bl_board \<Rightarrow> real \<Rightarrow> bldc \<Rightarrow> bldc option" where
  "set_duty_cycle_hw b dutyCycle m =
     (let cf = bl_conf m; t = bl_timer m; d = truncated dutyCycle (l_min_duty cf) (l_max_duty cf);
          f = switching_frequency cf (IS_DETECTING m) d in
      do { duty \<leftarrow> duty_compare cf (IS_DETECTING m) (tm_top t) d;
           tp \<leftarrow> timer_top f;
           apply_timer b (t\<lparr>tm_duty := duty, tm_top := tp\<rparr>) (m\<lparr>bl_switching_frequency_now := f\<rparr>) })"

text \<open>What follows the new duty cycle: a motor that does not run is started.\<close>

definition start_motor :: "bl_board \<Rightarrow> bldc \<Rightarrow> bldc option" where
  "start_motor b m =
     (if motor_type (bl_conf m) = MOTOR_TYPE_DC then
        (let m1 = m\<lparr>bl_state := MC_STATE_RUNNING\<rparr> in commutate b 1 (set_next_comm_step (bl_comm_step m1) m1))
      else if bl_sensorless_now m then
        (if bl_state m = MC_STATE_OFF then
           (let m1 = m\<lparr>bl_state := MC_STATE_RUNNING\<rparr> in
            if \<bar>bl_rpm_now m1\<bar> < sl_min_erpm (bl_conf m1) then commutate b 1 m1 else Some m1)
         else if bl_state m = MC_STATE_FULL_BRAKE then
           (if \<bar>bl_rpm_now m\<bar> < sl_min_erpm (bl_conf m) \<and>
               bl_last_current_sample_filtered m < sl_max_fullbreak_current_dir_change (bl_conf m)
            then commutate b 1 (m\<lparr>bl_state := MC_STATE_RUNNING\<rparr>) else Some m)
         else Some m)
      else if bl_state m \<noteq> MC_STATE_RUNNING then
        do { let m1 = m\<lparr>bl_state := MC_STATE_RUNNING\<rparr>;
             step \<leftarrow> mcpwm_read_hall_phase m1;
             let m2 = m1\<lparr>bl_comm_step := step\<rparr>;
             commutate b 1 (set_next_comm_step (bl_comm_step m2) m2) }
      else Some m)"

definition set_duty_cycle_ll :: "bl_board \<Rightarrow> real \<Rightarrow> bldc \<Rightarrow> bldc option" where
  "set_duty_cycle_ll b dutyCycle m =
     (let cf = bl_conf m;
          (d, m1) = (if dutyCycle \<ge> l_min_duty cf then (dutyCycle, m\<lparr>bl_direction := True\<rparr>)
                     else if dutyCycle \<le> - l_min_duty cf then (- dutyCycle, m\<lparr>bl_direction := False\<rparr>)
                     else (dutyCycle, m));
          max_erpm_fbrake = (if bl_control_mode m1 = CONTROL_MODE_CURRENT \<or> bl_control_mode m1 = CONTROL_MODE_CURRENT_BRAKE
                             then l_max_erpm_fbrake_cc cf else l_max_erpm_fbrake cf);
          continue = (\<lambda>d. do { m2 \<leftarrow> set_duty_cycle_hw b d m1; start_motor b m2 }) in
      if d < l_min_duty cf then
        (case bl_state m1 of
           MC_STATE_RUNNING \<Rightarrow> if \<bar>bl_rpm_now m1\<bar> > max_erpm_fbrake then continue (l_min_duty cf) else full_brake_ll b m1
         | MC_STATE_DETECTING \<Rightarrow> stop_pwm_ll b m1
         | _ \<Rightarrow> Some m1)
      else if d > l_max_duty cf then continue (l_max_duty cf)
      else continue d)"

text \<open>A spinning motor keeps running so that it is ramped down before the full brake.\<close>

definition brake_or_ramp_down :: "bl_board \<Rightarrow> bldc \<Rightarrow> bldc option" where
  "brake_or_ramp_down b m =
     (if (if motor_type (bl_conf m) = MOTOR_TYPE_DC then \<bar>bl_dutycycle_now m\<bar> > fl 0.1
          else \<bar>bl_rpm_now m\<bar> > l_max_erpm_fbrake (bl_conf m))
      then Some (m\<lparr>bl_state := MC_STATE_RUNNING\<rparr>) else full_brake_ll b m)"

definition set_duty_cycle_hl :: "bl_board \<Rightarrow> real \<Rightarrow> bldc \<Rightarrow> bldc option" where
  "set_duty_cycle_hl b dutyCycle m =
     (let cf = bl_conf m; d = truncated dutyCycle (- l_max_duty cf) (l_max_duty cf) in
      if bl_state m = MC_STATE_DETECTING then stop_pwm_ll b m
      else
        (let m1 = m\<lparr>bl_dutycycle_set := d\<rparr> in
         if bl_state m1 \<noteq> MC_STATE_RUNNING then
           if \<bar>d\<bar> \<ge> l_min_duty cf then
             (let m2 = (if \<bar>bl_dutycycle_now m1\<bar> < l_min_duty cf
                        then m1\<lparr>bl_dutycycle_now := of_int (SIGN d) * l_min_duty cf\<rparr> else m1) in
              set_duty_cycle_ll b (bl_dutycycle_now m2) m2)
           else brake_or_ramp_down b m1
         else Some m1))"

section \<open>Commands\<close>

definition mcpwm_stop_pwm :: "bl_board \<Rightarrow> bldc \<Rightarrow> bldc option" where
  "mcpwm_stop_pwm b m = stop_pwm_ll b (m\<lparr>bl_control_mode := CONTROL_MODE_NONE\<rparr>)"

definition mcpwm_set_duty :: "bl_board \<Rightarrow> real \<Rightarrow> bldc \<Rightarrow> bldc option" where
  "mcpwm_set_duty b dutyCycle m = set_duty_cycle_hl b dutyCycle (m\<lparr>bl_control_mode := CONTROL_MODE_DUTY\<rparr>)"

definition mcpwm_set_duty_noramp :: "bl_board \<Rightarrow> real \<Rightarrow> bldc \<Rightarrow> bldc option" where
  "mcpwm_set_duty_noramp b dutyCycle m =
     (let m1 = m\<lparr>bl_control_mode := CONTROL_MODE_DUTY\<rparr> in
      if bl_state m1 \<noteq> MC_STATE_RUNNING then set_duty_cycle_hl b dutyCycle m1
      else set_duty_cycle_ll b dutyCycle (m1\<lparr>bl_dutycycle_set := dutyCycle, bl_dutycycle_now := dutyCycle\<rparr>))"

definition mcpwm_set_pid_speed :: "real \<Rightarrow> bldc \<Rightarrow> bldc" where
  "mcpwm_set_pid_speed rpm m = m\<lparr>bl_control_mode := CONTROL_MODE_SPEED, bl_speed_pid_set_rpm := rpm\<rparr>"

definition mcpwm_set_pid_pos :: "bl_board \<Rightarrow> real \<Rightarrow> bldc \<Rightarrow> bldc option" where
  "mcpwm_set_pid_pos b pos m =
     (let m1 = m\<lparr>bl_control_mode := CONTROL_MODE_POS, bl_pos_pid_set_pos := pos\<rparr> in
      if bl_state m1 \<noteq> MC_STATE_RUNNING then set_duty_cycle_hl b (l_min_duty (bl_conf m1)) m1 else Some m1)"

definition mcpwm_set_current :: "bl_board \<Rightarrow> real \<Rightarrow> bldc \<Rightarrow> bldc option" where
  "mcpwm_set_current b current m =
     (let cf = bl_conf m in
      if \<bar>current\<bar> < cc_min_current cf then mcpwm_stop_pwm b m
      else
        (let c = truncated current (lo_current_min cf) (lo_current_max cf);
             m1 = m\<lparr>bl_control_mode := CONTROL_MODE_CURRENT, bl_current_set := c\<rparr> in
         if bl_state m1 \<noteq> MC_STATE_RUNNING then set_duty_cycle_hl b (of_int (SIGN c) * l_min_duty cf) m1 else Some m1))"

definition mcpwm_set_brake_current :: "bl_board \<Rightarrow> real \<Rightarrow> bldc \<Rightarrow> bldc option" where
  "mcpwm_set_brake_current b current m =
     (let cf = bl_conf m in
      if \<bar>current\<bar> < cc_min_current cf then mcpwm_stop_pwm b m
      else
        (let c = truncated current (- \<bar>lo_current_min cf\<bar>) \<bar>lo_current_min cf\<bar>;
             m1 = m\<lparr>bl_control_mode := CONTROL_MODE_CURRENT_BRAKE, bl_current_set := c\<rparr> in
         if bl_state m1 \<noteq> MC_STATE_RUNNING \<and> bl_state m1 \<noteq> MC_STATE_FULL_BRAKE then brake_or_ramp_down b m1 else Some m1))"

text \<open>The argument is the answer of \<open>mc_interface_try_input\<close>.\<close>

definition mcpwm_set_detect :: "bl_board \<Rightarrow> int \<Rightarrow> bldc \<Rightarrow> bldc option" where
  "mcpwm_set_detect b try_input m =
     (if try_input \<noteq> 0 then Some m
      else do { m1 \<leftarrow> bl_stop_pwm_hw b (m\<lparr>bl_control_mode := CONTROL_MODE_NONE\<rparr>);
                m2 \<leftarrow> set_switching_frequency b MCPWM_SWITCH_FREQUENCY_MAX m1;
                Some (m2\<lparr>bl_state := MC_STATE_DETECTING, bl_detect := (bl_detect m2)\<lparr>det_currents := replicate 6 0,
                  det_avg := replicate 6 0, det_avg_samples := replicate 6 0\<rparr>\<rparr>) })"

definition mcpwm_set_configuration :: "bl_board \<Rightarrow> mc_configuration \<Rightarrow> bldc \<Rightarrow> bldc option" where
  "mcpwm_set_configuration b configuration m =
     do { m1 \<leftarrow> mcpwm_stop_pwm b m;
          m2 \<leftarrow> mcpwm_init_hall_table (map sint (hall_table configuration)) (m1\<lparr>bl_conf := configuration\<rparr>);
          Some (update_sensor_mode m2) }"

section \<open>Readings\<close>

definition mcpwm_get_comm_step :: "bldc \<Rightarrow> int" where "mcpwm_get_comm_step m = bl_comm_step m"
definition mcpwm_get_duty_cycle_set :: "bldc \<Rightarrow> real" where "mcpwm_get_duty_cycle_set m = bl_dutycycle_set m"
definition mcpwm_get_duty_cycle_now :: "bldc \<Rightarrow> real" where "mcpwm_get_duty_cycle_now m = bl_dutycycle_now m"
definition mcpwm_get_switching_frequency_now :: "bldc \<Rightarrow> real" where "mcpwm_get_switching_frequency_now m = bl_switching_frequency_now m"
definition mcpwm_get_state :: "bldc \<Rightarrow> mc_state" where "mcpwm_get_state m = bl_state m"
definition mcpwm_get_tot_current :: "bldc \<Rightarrow> real" where "mcpwm_get_tot_current m = bl_last_current_sample m"
definition mcpwm_get_tot_current_filtered :: "bldc \<Rightarrow> real" where "mcpwm_get_tot_current_filtered m = bl_last_current_sample_filtered m"
definition mcpwm_get_comm_mode :: "bldc \<Rightarrow> mc_comm_mode" where "mcpwm_get_comm_mode m = comm_mode (bl_conf m)"
definition mcpwm_get_last_adc_isr_duration :: "bldc \<Rightarrow> real" where "mcpwm_get_last_adc_isr_duration m = bl_last_adc_isr_duration m"
definition mcpwm_get_last_inj_adc_isr_duration :: "bldc \<Rightarrow> real" where "mcpwm_get_last_inj_adc_isr_duration m = bl_last_inj_adc_isr_duration m"
definition mcpwm_get_rpm_dep :: "bldc \<Rightarrow> rpm_dep_t" where "mcpwm_get_rpm_dep m = bl_rpm_dep m"
definition mcpwm_is_dccal_done :: "bldc \<Rightarrow> bool" where "mcpwm_is_dccal_done m = bl_dccal_done m"

definition mcpwm_get_kv :: "bl_board \<Rightarrow> bldc \<Rightarrow> real option" where
  "mcpwm_get_kv b m = fdiv (bl_rpm_now m) (fl (GET_INPUT_VOLTAGE (board.truncate b) (bl_vin (bl_env m)) * \<bar>bl_dutycycle_now m\<bar>))"

definition run_fir :: "nat \<Rightarrow> fir \<Rightarrow> real option" where
  "run_fir bits f = filter_run_fir_iteration (fir_samples f) (fir_coeffs f) bits (fir_index f)"

definition add_fir :: "nat \<Rightarrow> real \<Rightarrow> fir \<Rightarrow> fir option" where
  "add_fir bits x f = do { (s, i) \<leftarrow> filter_add_sample (fir_samples f) x bits (fir_index f); Some (f\<lparr>fir_samples := s, fir_index := i\<rparr>) }"

definition mcpwm_get_kv_filtered :: "bldc \<Rightarrow> real option" where "mcpwm_get_kv_filtered m = run_fir KV_FIR_TAPS_BITS (bl_kv_fir m)"

definition mcpwm_get_tot_current_directional :: "bldc \<Rightarrow> real" where
  "mcpwm_get_tot_current_directional m = (if bl_dutycycle_now m > 0 then bl_last_current_sample m else - bl_last_current_sample m)"

definition mcpwm_get_tot_current_directional_filtered :: "bldc \<Rightarrow> real" where
  "mcpwm_get_tot_current_directional_filtered m =
     (if bl_dutycycle_now m > 0 then bl_last_current_sample_filtered m else - bl_last_current_sample_filtered m)"

definition mcpwm_get_tot_current_in :: "bldc \<Rightarrow> real" where
  "mcpwm_get_tot_current_in m = fl (bl_last_current_sample m * \<bar>bl_dutycycle_now m\<bar>)"

definition mcpwm_get_tot_current_in_filtered :: "bldc \<Rightarrow> real" where
  "mcpwm_get_tot_current_in_filtered m = fl (bl_last_current_sample_filtered m * \<bar>bl_dutycycle_now m\<bar>)"

definition mcpwm_get_tachometer_value :: "bool \<Rightarrow> bldc \<Rightarrow> i32 \<times> bldc" where
  "mcpwm_get_tachometer_value reset m = (bl_tachometer m, if reset then m\<lparr>bl_tachometer := 0\<rparr> else m)"

definition mcpwm_get_tachometer_abs_value :: "bool \<Rightarrow> bldc \<Rightarrow> i32 \<times> bldc" where
  "mcpwm_get_tachometer_abs_value reset m = (bl_tachometer_abs m, if reset then m\<lparr>bl_tachometer_abs := 0\<rparr> else m)"

definition mcpwm_set_comm_mode :: "mc_comm_mode \<Rightarrow> bldc \<Rightarrow> bldc" where
  "mcpwm_set_comm_mode mode m = m\<lparr>bl_conf := (bl_conf m)\<lparr>comm_mode := mode\<rparr>\<rparr>"

definition mcpwm_read_reset_avg_cycle_integrator :: "bldc \<Rightarrow> (real \<times> bldc) option" where
  "mcpwm_read_reset_avg_cycle_integrator m =
     do { res \<leftarrow> fdiv (bl_cycle_integrator_sum m) (bl_cycle_integrator_iterations m);
          Some (res, m\<lparr>bl_cycle_integrator_sum := 0, bl_cycle_integrator_iterations := 0\<rparr>) }"

definition detect_mean :: "rotor_detect \<Rightarrow> nat \<Rightarrow> real option" where
  "detect_mean d k = do { x \<leftarrow> arr_get (det_avg d) k; n \<leftarrow> arr_get (det_avg_samples d) k; fdiv x n }"

definition mcpwm_get_detect_pos :: "(real \<Rightarrow> real) \<Rightarrow> bldc \<Rightarrow> (real \<times> bldc) option" where
  "mcpwm_get_detect_pos asinf m =
     (let d = bl_detect m in
      do { a0 \<leftarrow> detect_mean d 0; a1 \<leftarrow> detect_mean d 1; a2 \<leftarrow> detect_mean d 2;
           a3 \<leftarrow> detect_mean d 3; a4 \<leftarrow> detect_mean d 4; a5 \<leftarrow> detect_mean d 5;
           let s0 = fl (a0 + a3); let s1 = fl (a1 + a4); let s2 = fl (a2 + a5);
           let offset = fl (fl (fl (s0 + s1) + s2) / 3);
           let v0 = fl (s0 - offset); let v1 = fl (s1 - offset); let v2 = fl (s2 - offset);
           let amp = fl (sqrt (fl (fl (fl (fl (v0 * v0) + fl (v1 * v1)) + fl (v2 * v2)) / fl 1.5)));
           w0 \<leftarrow> fdiv v0 amp; w1 \<leftarrow> fdiv v1 amp; w2 \<leftarrow> fdiv v2 amp;
           let ph = fl (fl (asinf w0 * 180) / M_PI);
           Some (utils_norm_angle (if w1 < w2 then fl (180 - ph) else ph),
                 m\<lparr>bl_detect := d\<lparr>det_avg := replicate 6 0, det_avg_samples := replicate 6 0\<rparr>\<rparr>) })"

section \<open>Detection of the hall sensor table\<close>

definition mcpwm_reset_hall_detect_table :: "bldc \<Rightarrow> bldc" where
  "mcpwm_reset_hall_detect_table m = m\<lparr>bl_hall_detect_table := replicate 8 (replicate 7 0)\<rparr>"

definition hall_row :: "i32 list \<Rightarrow> (int \<times> int) option" where
  "hall_row row = for_each (\<lambda>j (samples, res).
     do { c \<leftarrow> arr_get row j;
          Some (if sint c > samples then (sint c, if sint c > 15 then int j else res) else (samples, res)) }) [1..<7] (0, - 1)"

definition hall_tally :: "int \<Rightarrow> int \<times> int list \<times> int \<Rightarrow> (int \<times> int list \<times> int) option" where
  "hall_tally t = (\<lambda>(invalid_samp_num, nums, tot_nums).
     if t = - 1 then Some (invalid_samp_num + 1, nums, tot_nums)
     else do { n \<leftarrow> arr_at nums t;
               if n = 0 then do { nums1 \<leftarrow> arr_set_int nums t 1; Some (invalid_samp_num, nums1, tot_nums + 1) }
               else Some (invalid_samp_num, nums, tot_nums) })"

text \<open>The result code and the table, whose old contents stay when nothing is written.\<close>

definition mcpwm_get_hall_detect_result :: "bl_board \<Rightarrow> int list \<Rightarrow> bldc \<Rightarrow> (int \<times> int list) option" where
  "mcpwm_get_hall_detect_result b table m =
     (if WS2811_ENABLE b then Some (- 2, table)
      else if m_sensor_port_mode (bl_conf m) \<noteq> SENSOR_PORT_MODE_HALL then Some (- 3, table)
      else do { tbl \<leftarrow> for_each (\<lambda>i t. do { row \<leftarrow> arr_get (bl_hall_detect_table m) i; (_, res) \<leftarrow> hall_row row; arr_set t i res }) [0..<8] table;
                (invalid, _, tot) \<leftarrow> for_each hall_tally (take 8 tbl) (0, replicate 7 0, 0);
                Some (if invalid = 2 \<and> tot = 6 then 0 else - 1, tbl) })"

end
