(* ===== verification/BldcIsr.thy ===== *)
theory BldcIsr
  imports Bldc
begin

text \<open>
  The interrupts and the threads of the six-step driver \<open>mcpwm.c\<close>: the current samples (\<open>mcpwm_adc_inj_int_handler\<close>), the commutation and the
  ramping of the duty cycle (\<open>mcpwm_adc_int_handler\<close>), the two PID controllers, the speed and the timer thread, the calibration and the initialisation. One iteration of a
  thread is one step.
\<close>

section \<open>Controllers\<close>

definition input_voltage :: "bl_board \<Rightarrow> bldc \<Rightarrow> real" where
  "input_voltage b m = GET_INPUT_VOLTAGE (board.truncate b) (bl_vin (bl_env m))"

definition vin_sens :: "bldc \<Rightarrow> int" where "vin_sens m = uint (bl_vin (bl_env m))"

definition bl_run_pid_control_speed :: "bl_board \<Rightarrow> bldc \<Rightarrow> bldc option" where
  "bl_run_pid_control_speed b m =
     (let cf = bl_conf m; rpm_set = bl_speed_pid_set_rpm m; (i_term, prev_error) = bl_speed_pid m in
      if bl_control_mode m \<noteq> CONTROL_MODE_SPEED then Some (m\<lparr>bl_speed_pid := (bl_dutycycle_now m, 0)\<rparr>)
      else if \<bar>rpm_set\<bar> < s_pid_min_erpm cf then mcpwm_set_duty b 0 (m\<lparr>bl_speed_pid := (bl_dutycycle_now m, 0)\<rparr>)
      else
        do { scale \<leftarrow> fdiv 1 (input_voltage b m);
             let error = fl (rpm_set - mcpwm_get_rpm m);
             let p_term = fl (fl (error * s_pid_kp cf) * scale);
             let i = truncated (fl (i_term + fl (fl (error * fl (s_pid_ki cf * MCPWM_PID_TIME_K)) * scale))) (- 1) 1;
             let d_term = fl (fl (fl (error - prev_error) * fl (s_pid_kd cf / MCPWM_PID_TIME_K)) * scale);
             let out = fl (fl (p_term + i) + d_term);
             let out1 = (if \<bar>out\<bar> < l_min_duty cf then of_int (SIGN out) * l_min_duty cf else out);
             let (out2, i2) = (if rpm_set > 0 \<and> out1 < 0 then (l_min_duty cf, 0)
                               else if rpm_set < 0 \<and> out1 > 0 then (- l_min_duty cf, 0) else (out1, i));
             set_duty_cycle_hl b out2 (m\<lparr>bl_speed_pid := (i2, error)\<rparr>) })"

definition bl_run_pid_control_pos :: "real \<Rightarrow> real \<Rightarrow> bldc \<Rightarrow> bldc option" where
  "bl_run_pid_control_pos enc dt m =
     (let cf = bl_conf m; (i_term, prev_error) = bl_pos_pid m in
      if bl_control_mode m \<noteq> CONTROL_MODE_POS then Some (m\<lparr>bl_pos_pid := (0, 0)\<rparr>)
      else
        do { error \<leftarrow> utils_angle_difference enc (bl_pos_pid_set_pos m);
             let p_term = fl (error * p_pid_kp cf);
             let i = truncated (fl (i_term + fl (error * fl (p_pid_ki cf * dt)))) (- 1) 1;
             kd \<leftarrow> fdiv (p_pid_kd cf) dt;
             let d_term = fl (fl (error - prev_error) * kd);
             let out = truncated (fl (fl (p_term + i) + d_term)) (- 1) 1;
             Some (m\<lparr>bl_pos_pid := (i, error), bl_current_set := fl (out * lo_current_max cf)\<rparr>) })"

section \<open>Current samples\<close>

definition half_sum :: "int \<Rightarrow> int \<Rightarrow> int" where "half_sum x y = ftrunc (fl (fl (of_int (x + y)) / 2))"

text \<open>Normalised currents of the three phases, and the sums for the calibration.\<close>

definition norm_currents :: "bl_board \<Rightarrow> bldc \<Rightarrow> bldc" where
  "norm_currents b m =
     (let e = bl_env m; v = bl_curr_samp_volt m; o0 = sint (bl_curr0_offset m); o1 = sint (bl_curr1_offset m);
          curr0 = uint (if v = 1 \<or> v = 3 then bl_adc_curr1 e else bl_inj_curr0 e);
          curr1 = uint (if v = 2 \<or> v = 3 then bl_adc_curr2 e else bl_inj_curr1 e);
          n0 = curr0 - o0; n1 = curr1 - o1; n0_2 = uint (bl_inj_curr0_2 e) - o0; n1_2 = uint (bl_inj_curr1_2 e) - o1;
          twice = (pwm_mode (bl_conf m) \<noteq> PWM_MODE_BIPOLAR \<and> motor_type (bl_conf m) = MOTOR_TYPE_BLDC);
          s = bl_comm_step m; (s0, s1) = (if bl_direction m then (3, 4) else (2, 1));
          c0 = (if twice \<and> CURR1_DOUBLE_SAMPLE b \<and> s = s0 then half_sum n0 n0_2 else n0);
          c1 = (if twice \<and> CURR2_DOUBLE_SAMPLE b \<and> \<not> (CURR1_DOUBLE_SAMPLE b \<and> s = s0) \<and> s = s1 then half_sum n1 n1_2 else n1) in
      m\<lparr>bl_curr0_sum := bl_curr0_sum m + word_of_int curr0, bl_curr1_sum := bl_curr1_sum m + word_of_int curr1,
        bl_curr_start_samples := bl_curr_start_samples m + 1, bl_curr_norm := (c0, c1, - (c0 + c1))\<rparr>)"

definition step_current :: "bool \<Rightarrow> int \<Rightarrow> int \<times> int \<times> int \<Rightarrow> int" where
  "step_current direction step = (\<lambda>(c0, c1, c2).
     if direction then
       (if step = 1 then - c1 else if step = 2 then - c1 else if step = 3 then c0
        else if step = 4 then c1 else if step = 5 then - c0 else if step = 6 then - c0 else 0)
     else
       (if step = 1 then c1 else if step = 2 then c0 else if step = 3 then - c1
        else if step = 4 then - c1 else if step = 5 then - c0 else if step = 6 then - c0 else 0))"

definition fint :: "int \<Rightarrow> real" where "fint k = fl (of_int k)"

definition total_current :: "bldc \<Rightarrow> real \<times> bldc" where
  "total_current m =
     (if motor_type (bl_conf m) = MOTOR_TYPE_DC then
        (if bl_direction m then (- fint (uint (bl_adc_curr2 (bl_env m)) - sint (bl_curr1_offset m)), m)
         else (- fint (uint (bl_adc_curr1 (bl_env m)) - sint (bl_curr0_offset m)), m))
      else if bl_state m = MC_STATE_FULL_BRAKE then
        (let (n0, n1, n2) = bl_curr_norm m; c0 = fint n0; c1 = fint n1; c2 = fint n2 in
         (fl (sqrt (fl (fl (fl (fl (c0 * c0) + fl (c1 * c1)) + fl (c2 * c2)) / fl 1.5))), m))
      else
        (let s = fint (step_current (bl_direction m) (bl_comm_step m) (bl_curr_norm m)) in
         (if bl_comm_step m \<noteq> bl_comm_step_prev m then bl_prev_tot_sample m else s,
          m\<lparr>bl_comm_step_prev := bl_comm_step m, bl_prev_tot_sample := s\<rparr>)))"

text \<open>Rotor detection: a pulse of one step, a sample, the next step.\<close>

definition detect_sample :: "bl_board \<Rightarrow> bldc \<Rightarrow> bldc option" where
  "detect_sample b m =
     (let d = bl_detect m; e = bl_env m; k = det_step d; (n0, n1, n2) = bl_curr_norm m;
          a = \<bar>fint n0\<bar>; c = \<bar>fint n1\<bar>; s = bl_comm_step m; vzero = vin_sens m div 2 in
      do { cs \<leftarrow> arr_set_int (det_currents d) k (if a > c then a else c);
           cur \<leftarrow> arr_at cs k;
           bef \<leftarrow> arr_at cs (if k > 0 then k - 1 else 5);
           df \<leftarrow> arr_set_int (det_diff d) k (fl (bef - cur));
           vs \<leftarrow> (if s = 1 \<or> s = 4 then arr_set_int (det_voltages d) k (fint (uint (bl_sens1 e) - vzero))
                  else if s = 2 \<or> s = 5 then arr_set_int (det_voltages d) k (fint (uint (bl_sens2 e) - vzero))
                  else if s = 3 \<or> s = 6 then arr_set_int (det_voltages d) k (fint (uint (bl_sens3 e) - vzero))
                  else Some (det_voltages d));
           av \<leftarrow> arr_at (det_avg d) k; avs \<leftarrow> arr_set_int (det_avg d) k (fl (av + cur));
           n \<leftarrow> arr_at (det_avg_samples d) k; ns \<leftarrow> arr_set_int (det_avg_samples d) k (fl (n + 1));
           bl_stop_pwm_hw b (m\<lparr>bl_detect := d\<lparr>det_currents := cs, det_diff := df, det_voltages := vs, det_avg := avs, det_avg_samples := ns\<rparr>\<rparr>) })"

definition detect_pulse :: "bl_board \<Rightarrow> bldc \<Rightarrow> bldc option" where
  "detect_pulse b m =
     do { m1 \<leftarrow> set_duty_cycle_hw b (fl 0.2) (m\<lparr>bl_detect := (bl_detect m)\<lparr>det_now := 5\<rparr>\<rparr>);
          let k = (if det_step (bl_detect m1) + 1 > 5 then 0 else det_step (bl_detect m1) + 1);
          let m2 = m1\<lparr>bl_detect := (bl_detect m1)\<lparr>det_step := k\<rparr>, bl_comm_step := k + 1\<rparr>;
          Some (commutation_event (set_next_comm_step (bl_comm_step m2) m2)) }"

definition rotor_detection :: "bl_board \<Rightarrow> bldc \<Rightarrow> bldc option" where
  "rotor_detection b m =
     do { m1 \<leftarrow> (if det_now (bl_detect m) = 4 then detect_sample b m else Some m);
          let m2 = (if det_now (bl_detect m1) \<noteq> 0 then m1\<lparr>bl_detect := (bl_detect m1)\<lparr>det_now := det_now (bl_detect m1) - 1\<rparr>\<rparr> else m1);
          if IS_DETECTING m2 \<and> det_now (bl_detect m2) = 0 then detect_pulse b m2 else Some m2 }"

definition bl_phase_current :: "bl_board \<Rightarrow> mc_configuration \<Rightarrow> real \<Rightarrow> real option" where
  "bl_phase_current b cf tot =
     do { c \<leftarrow> fdiv (fl (tot * fl (V_REG b / 4095))) (fl (CURRENT_SHUNT_RES b * CURRENT_AMP_GAIN b));
          Some (if \<bar>c\<bar> > fl (l_abs_current_max cf * fl 1.2) then fl (of_int (SIGN c) * l_abs_current_max cf * fl 1.2) else c) }"

definition mcpwm_adc_inj_int_handler :: "bl_board \<Rightarrow> bldc \<Rightarrow> bldc option" where
  "mcpwm_adc_inj_int_handler b m =
     do { let (tot, m1) = total_current (norm_currents b m);
          m2 \<leftarrow> (if motor_type (bl_conf m1) = MOTOR_TYPE_DC then Some m1 else rotor_detection b m1);
          c \<leftarrow> bl_phase_current b (bl_conf m2) tot;
          fir1 \<leftarrow> add_fir CURR_FIR_TAPS_BITS c (bl_curr_fir m2);
          flt \<leftarrow> run_fir CURR_FIR_TAPS_BITS fir1;
          Some (m2\<lparr>bl_last_current_sample := c, bl_curr_fir := fir1, bl_last_current_sample_filtered := flt,
                   bl_last_inj_adc_isr_duration := fl (fl (of_nat (unat (bl_tim12_cnt (bl_env m2)))) / 10000000)\<rparr>) }"

section \<open>Commutation\<close>

definition count_cycles :: "bldc \<Rightarrow> bldc" where
  "count_cycles m =
     (let m1 = (if bl_state m = MC_STATE_RUNNING \<and> bl_direction m = bl_direction_before m then m\<lparr>bl_cycles_running := bl_cycles_running m + 1\<rparr>
                else m\<lparr>bl_cycles_running := 0, bl_has_commutated := False\<rparr>) in
      m1\<lparr>bl_direction_before := bl_direction m1\<rparr>)"

text \<open>The voltages of the phases against the virtual ground, with phases 2 and 3 exchanged in reverse.\<close>

definition phase_voltages :: "bldc \<Rightarrow> int \<times> int \<times> int" where
  "phase_voltages m =
     (let e = bl_env m; l1 = uint (bl_sens1 e); l2 = uint (bl_sens2 e); l3 = uint (bl_sens3 e) in
      if bl_direction m then (l1, l2, l3) else (l1, l3, l2))"

definition virtual_ground :: "bldc \<Rightarrow> int" where
  "virtual_ground m =
     (let e = bl_env m in
      if bl_has_commutated m \<and> \<bar>bl_dutycycle_now m\<bar> > fl 0.2 then vin_sens m div 2
      else (uint (bl_sens1 e) + uint (bl_sens2 e) + uint (bl_sens3 e)) div 3)"

definition bemf_amplitude :: "bldc \<Rightarrow> real" where
  "bemf_amplitude m =
     (if bl_has_commutated m then fl (\<bar>bl_dutycycle_now m\<bar> * fint (vin_sens m))
      else (let (r1, r2, r3) = phase_voltages m; p1 = r1 - bl_vzero m; p2 = r2 - bl_vzero m; p3 = r3 - bl_vzero m in
        fl (fl (sqrt (fint (p1 * p1 + p2 * p2 + p3 * p3))) * fl (sqrt 2))))"

text \<open>The back-emf of the undriven phase, with the sign of the step, and its raw voltage.\<close>

definition open_phase :: "bldc \<Rightarrow> int \<times> int" where
  "open_phase m =
     (let (r1, r2, r3) = phase_voltages m; v = bl_vzero m; s = bl_comm_step m in
      if s = 1 then (r1 - v, r1) else if s = 2 then (- (r2 - v), r2) else if s = 3 then (r3 - v, r3)
      else if s = 4 then (- (r1 - v), r1) else if s = 5 then (r2 - v, r2) else if s = 6 then (- (r3 - v), r3) else (0, 0))"

definition VDIV_CORR :: "bl_board \<Rightarrow> real" where
  "VDIV_CORR b = fl (fl (VIN_R2 b / fl (VIN_R2 b + VIN_R1 b)) / fl (fl 2.2 / fl (fl 2.2 + 33)))"

definition bemf_unit :: "bl_board \<Rightarrow> real" where "bemf_unit b = fl (fl 0.0005 * VDIV_CORR b)"

definition stuck :: "bl_board \<Rightarrow> bldc \<Rightarrow> bldc option" where
  "stuck b m =
     (if (case comm_time_sum_min_rpm (bl_rpm_dep m) of Some t \<Rightarrow> bl_pwm_cycles_sum m \<ge> t | None \<Rightarrow> False) \<and> bl_state m = MC_STATE_RUNNING then
        do { m1 \<leftarrow> (if comm_mode (bl_conf m) = COMM_MODE_INTEGRATE then commutate b 2 m
                    else if comm_mode (bl_conf m) = COMM_MODE_DELAY then commutate b 1 m else Some m);
             Some (m1\<lparr>bl_cycle_integrator := 0\<rparr>) }
      else Some m)"

definition count_hall_sample :: "int \<Rightarrow> bldc \<Rightarrow> bldc option" where
  "count_hall_sample v_diff m =
     (if v_diff < 50 then
        do { row \<leftarrow> arr_get (bl_hall_detect_table m) (bl_read_hall m);
             c \<leftarrow> arr_at row (bl_comm_step m);
             row1 \<leftarrow> arr_set_int row (bl_comm_step m) (c + 1);
             tbl \<leftarrow> arr_set (bl_hall_detect_table m) (bl_read_hall m) row1;
             Some (m\<lparr>bl_hall_detect_table := tbl\<rparr>) }
      else Some m)"

definition integrate_bemf :: "int \<Rightarrow> int \<Rightarrow> bldc \<Rightarrow> bldc option" where
  "integrate_bemf v_diff raw m =
     (if v_diff > 0 then
        do { k \<leftarrow> f2i32 (fl (fl (fl (1 - \<bar>bl_dutycycle_now m\<bar>) * fint (vin_sens m)) * fl 0.3));
             let mn = (if sint k > vin_sens m div 4 then vin_sens m div 4 else sint k);
             if bl_pwm_cycles_sum m > fl (bl_last_pwm_cycles_sum m / 2) \<or> \<not> bl_has_commutated m \<or> (raw > mn \<and> raw < vin_sens m - mn) then
               do { q \<leftarrow> fdiv (fint v_diff) (bl_switching_frequency_now m);
                    Some (m\<lparr>bl_cycle_integrator := fl (bl_cycle_integrator m + q)\<rparr>) }
             else Some m }
      else Some m)"

definition commutate_integrate :: "bl_board \<Rightarrow> bldc \<Rightarrow> bldc option" where
  "commutate_integrate b m =
     (let d = bl_rpm_dep m;
          limit = fl ((if bl_has_commutated m then cycle_int_limit_running d else cycle_int_limit d) * bemf_unit b) in
      if bl_cycle_integrator m \<ge> fl (cycle_int_limit_max d * bemf_unit b) \<or> bl_cycle_integrator m \<ge> limit then
        do { m1 \<leftarrow> commutate b 1 m; Some (m1\<lparr>bl_cycle_integrator := 0\<rparr>) }
      else Some m)"

definition delay_over :: "bldc \<Rightarrow> bool option" where
  "delay_over m =
     (let cf = bl_conf m in
      if sl_cycle_int_rpm_br cf = 0 then None
      else Some (case comm_time_sum (bl_rpm_dep m) of None \<Rightarrow> False
             | Some t \<Rightarrow> bl_cycle_sum m \<ge> utils_map \<bar>bl_rpm_now m\<bar> 0 (sl_cycle_int_rpm_br cf) (fl (t / 2)) (fl (fl (t / 2) * sl_phase_advance_at_br cf))))"

definition commutate_delay :: "bl_board \<Rightarrow> int \<Rightarrow> bldc \<Rightarrow> bldc option" where
  "commutate_delay b v_diff m =
     (if v_diff > 0 then
        do { q \<leftarrow> fdiv MCPWM_SWITCH_FREQUENCY_MAX (bl_switching_frequency_now m);
             let m1 = m\<lparr>bl_cycle_sum := fl (bl_cycle_sum m + q)\<rparr>;
             over \<leftarrow> delay_over m1;
             if over then
               do { m2 \<leftarrow> commutate b 1 m1;
                    u \<leftarrow> fdiv 1 (bemf_unit b);
                    Some (m2\<lparr>bl_cycle_integrator_sum := fl (bl_cycle_integrator_sum m2 + fl (bl_cycle_integrator m2 * u)),
                             bl_cycle_integrator_iterations := fl (bl_cycle_integrator_iterations m2 + 1),
                             bl_cycle_integrator := 0, bl_cycle_sum := 0\<rparr>) }
             else Some m1 }
      else Some (m\<lparr>bl_cycle_integrator := 0, bl_cycle_sum := 0\<rparr>))"

definition track_bemf :: "bl_board \<Rightarrow> bldc \<Rightarrow> bldc option" where
  "track_bemf b m =
     (if bl_state m = MC_STATE_RUNNING \<and> sint (bl_pwm_cycles m) \<ge> 2 \<or> bl_state m = MC_STATE_OFF then
        do { let (v, raw) = open_phase m;
             m1 \<leftarrow> count_hall_sample v m;
             let v1 = (if \<bar>v\<bar> < 10 then 0 else v);
             m2 \<leftarrow> integrate_bemf v1 raw m1;
             if comm_mode (bl_conf m2) = COMM_MODE_INTEGRATE then commutate_integrate b m2
             else if comm_mode (bl_conf m2) = COMM_MODE_DELAY then commutate_delay b v1 m2 else Some m2 }
      else Some (m\<lparr>bl_cycle_integrator := 0\<rparr>))"

definition commutate_sensorless :: "bl_board \<Rightarrow> bldc \<Rightarrow> bldc option" where
  "commutate_sensorless b m =
     do { m1 \<leftarrow> stuck b m;
          m2 \<leftarrow> track_bemf b m1;
          q \<leftarrow> fdiv MCPWM_SWITCH_FREQUENCY_MAX (bl_switching_frequency_now m2);
          Some (m2\<lparr>bl_pwm_cycles_sum := fl (bl_pwm_cycles_sum m2 + q), bl_pwm_cycles := bl_pwm_cycles m2 + 1\<rparr>) }"

definition commutate_now :: "bl_board \<Rightarrow> bldc \<Rightarrow> bldc option" where
  "commutate_now b m = commutate b 0 (set_next_comm_step (bl_comm_step m) m)"

definition commutate_hall :: "bl_board \<Rightarrow> bldc \<Rightarrow> bldc option" where
  "commutate_hall b m =
     do { hall_phase \<leftarrow> mcpwm_read_hall_phase m;
          if bl_comm_step m \<noteq> hall_phase then
            (let m1 = update_rpm_tacho (m\<lparr>bl_comm_step := hall_phase\<rparr>) in
             if bl_state m1 = MC_STATE_RUNNING then commutate_now b m1 else Some m1)
          else if bl_state m = MC_STATE_RUNNING \<and> \<not> bl_has_commutated m then commutate_now b m
          else Some m }"

definition bldc_step :: "bl_board \<Rightarrow> bldc \<Rightarrow> bldc option" where
  "bldc_step b m =
     do { let m1 = update_timer_attempt (m\<lparr>bl_vzero := virtual_ground m\<rparr>);
          f \<leftarrow> add_fir AMP_FIR_TAPS_BITS (bemf_amplitude m1) (bl_amp_fir m1);
          let m2 = m1\<lparr>bl_amp_fir := f\<rparr>;
          if bl_sensorless_now m2 then commutate_sensorless b m2 else commutate_hall b m2 }"

definition dc_step :: "bl_board \<Rightarrow> bldc \<Rightarrow> bldc option" where
  "dc_step b m =
     do { let amp = (if bl_has_commutated m then fl (bl_dutycycle_now m * fint (vin_sens m))
                     else fint (uint (bl_sens3 (bl_env m)) - uint (bl_sens1 (bl_env m))));
          f \<leftarrow> add_fir AMP_FIR_TAPS_BITS amp (bl_amp_fir m);
          let m1 = m\<lparr>bl_amp_fir := f\<rparr>;
          if bl_state m1 = MC_STATE_RUNNING \<and> \<not> bl_has_commutated m1 then commutate_now b m1 else Some m1 }"

section \<open>Ramping and limits\<close>

definition slow_ramp :: "real \<times> bldc \<Rightarrow> real \<times> bldc" where
  "slow_ramp = (\<lambda>(s, m). if bl_slow_ramping_cycles m \<noteq> 0
     then (fl (s * fl 0.1), m\<lparr>bl_slow_ramping_cycles := bl_slow_ramping_cycles m - 1\<rparr>) else (s, m))"

definition current_step :: "bldc \<Rightarrow> real \<Rightarrow> real \<Rightarrow> (real \<times> bldc) option" where
  "current_step m error voltage_scale =
     (let cf = bl_conf m in
      do { s \<leftarrow> fdiv (truncated (fl (fl (error * cc_gain cf) * voltage_scale)) (- cc_ramp_step_max cf) (cc_ramp_step_max cf))
                     (fl (bl_switching_frequency_now m / 1000));
           Some (slow_ramp (s, m)) })"

text \<open>The new duty cycle of each control mode, before the limits.\<close>

definition ramp_current :: "real \<Rightarrow> real \<Rightarrow> bldc \<Rightarrow> (real \<times> bldc) option" where
  "ramp_current ramp_step voltage_scale m =
     (let cf = bl_conf m; cur = bl_last_current_sample m; mx = l_max_duty cf; mn = l_min_duty cf; now = bl_dutycycle_now m;
          start_boost = fl (cc_startup_boost_duty cf * voltage_scale) in
      do { (s, m1) \<leftarrow> current_step m (fl (bl_current_set m - (if bl_direction m then cur else - cur))) voltage_scale;
           let d1 = (if \<bar>now\<bar> < start_boost
                     then utils_step_towards now (if bl_current_set m > 0 then start_boost else - start_boost) ramp_step else fl (now + s));
           let d2 = truncated d1 (- mx) mx;
           let d3 = (if \<bar>d2\<bar> < mn then (if d2 < 0 \<and> bl_current_set m > 0 then mn else if d2 > 0 \<and> bl_current_set m < 0 then - mn else d2) else d2);
           Some (d3, m1\<lparr>bl_dutycycle_set := (if d3 \<ge> 0 then mn else - mn)\<rparr>) })"

definition ramp_brake :: "real \<Rightarrow> bldc \<Rightarrow> (real \<times> bldc) option" where
  "ramp_brake voltage_scale m =
     (let cf = bl_conf m; mx = l_max_duty cf; mn = l_min_duty cf; now = bl_dutycycle_now m in
      do { (s, m1) \<leftarrow> current_step m (fl (- \<bar>bl_current_set m\<bar> - bl_last_current_sample m)) voltage_scale;
           let d1 = truncated (fl (now + of_int (SIGN now) * s)) (- mx) mx;
           Some (if \<bar>d1\<bar> < mn then
                   (let d2 = (if \<bar>bl_rpm_now m\<bar> < l_max_erpm_fbrake_cc cf then 0 else of_int (SIGN d1) * mn) in (d2, m1\<lparr>bl_dutycycle_set := d2\<rparr>))
                 else (d1, m1)) })"

definition ramp_target :: "real \<Rightarrow> real \<Rightarrow> bldc \<Rightarrow> (real \<times> bldc) option" where
  "ramp_target ramp_step voltage_scale m =
     (if bl_control_mode m = CONTROL_MODE_CURRENT \<or> bl_control_mode m = CONTROL_MODE_POS then ramp_current ramp_step voltage_scale m
      else if bl_control_mode m = CONTROL_MODE_CURRENT_BRAKE then ramp_brake voltage_scale m
      else Some (utils_step_towards (bl_dutycycle_now m) (bl_dutycycle_set m) ramp_step, m))"

definition limit_toward :: "real \<Rightarrow> real \<Rightarrow> bldc \<Rightarrow> bldc" where
  "limit_toward goal s m = m\<lparr>bl_dutycycle_now := utils_step_towards (bl_dutycycle_now m) goal s, bl_limit_delay := 1\<rparr>"

definition apply_limits :: "real \<Rightarrow> real \<Rightarrow> bldc \<Rightarrow> bldc" where
  "apply_limits ramp_step_no_lim d m =
     (let cf = bl_conf m; cur = bl_last_current_sample m; cur_in = fl (cur * \<bar>bl_dutycycle_now m\<bar>); rpm = mcpwm_get_rpm m;
          full = (if bl_direction m then l_max_duty cf else - l_max_duty cf);
          backoff = (\<lambda>x. fl (fl (ramp_step_no_lim * \<bar>fl x\<bar>) * m_current_backoff_gain cf));
          allowed = (l_rpm_lim_neg_torque cf \<or> bl_last_current_sample_filtered m > -1);
          slow = (\<lambda>m. m\<lparr>bl_slow_ramping_cycles := 500\<rparr>) in
      if cur > lo_current_max cf then limit_toward 0 (backoff (cur - lo_current_max cf)) m
      else if cur < lo_current_min cf then limit_toward full (backoff (cur - lo_current_min cf)) m
      else if cur_in > lo_in_current_max cf then limit_toward 0 (backoff (cur_in - lo_in_current_max cf)) m
      else if cur_in < lo_in_current_min cf then limit_toward full (backoff (cur_in - lo_in_current_min cf)) m
      else if rpm > l_max_erpm cf then
        (if allowed \<and> bl_dutycycle_now m \<le> d then slow (limit_toward 0 (m_duty_ramp_step_rpm_lim cf) m) else m)
      else if rpm < l_min_erpm cf then
        (if allowed \<and> bl_dutycycle_now m \<ge> d then slow (limit_toward 0 (m_duty_ramp_step_rpm_lim cf) m) else m)
      else m)"

definition take_duty :: "real \<Rightarrow> bldc \<Rightarrow> bldc" where
  "take_duty d m = (if bl_limit_delay m > 0 then m\<lparr>bl_limit_delay := bl_limit_delay m - 1\<rparr> else m\<lparr>bl_dutycycle_now := d\<rparr>)"

text \<open>A motor to be reversed starts again at the minimum duty cycle, and only when it is slow enough.\<close>

definition restart_duty :: "bldc \<Rightarrow> bldc" where
  "restart_duty m =
     (let mn = l_min_duty (bl_conf m) in
      if \<bar>bl_dutycycle_now m\<bar> < mn then
        (if bl_dutycycle_set m \<ge> mn then m\<lparr>bl_dutycycle_now := mn\<rparr>
         else if bl_dutycycle_set m \<le> - mn then m\<lparr>bl_dutycycle_now := - mn\<rparr> else m)
      else m)"

definition hold_direction :: "real \<Rightarrow> bldc \<Rightarrow> bldc" where
  "hold_direction rpm m =
     (let cf = bl_conf m; mn = l_min_duty cf in
      if bl_dutycycle_now m \<ge> mn \<and> rpm < - l_max_erpm_fbrake cf then m\<lparr>bl_dutycycle_now := - mn\<rparr>
      else if bl_dutycycle_now m \<le> - mn \<and> rpm > l_max_erpm_fbrake cf then m\<lparr>bl_dutycycle_now := mn\<rparr>
      else m)"

text \<open>The rate of the ramp; the interrupt reads the input voltage once, at its beginning.\<close>

definition ramp_duty :: "real \<Rightarrow> bldc \<Rightarrow> bldc option" where
  "ramp_duty voltage m =
     do { voltage_scale \<leftarrow> fdiv 20 voltage;
          no_lim \<leftarrow> fdiv (m_duty_ramp_step (bl_conf m)) (fl (bl_switching_frequency_now m / 1000));
          let rpm = mcpwm_get_rpm m;
          let (ramp_step, m1) = slow_ramp (no_lim, m);
          (d, m2) \<leftarrow> ramp_target ramp_step voltage_scale m1;
          Some (hold_direction rpm (restart_duty (take_duty d (apply_limits no_lim d m2)))) }"

section \<open>The interrupt of the converters\<close>

definition bl_emit :: "bl_event \<Rightarrow> bldc \<Rightarrow> bldc" where "bl_emit e m = m\<lparr>bl_events := bl_events m @ [e]\<rparr>"

definition control_duty :: "bl_board \<Rightarrow> bldc \<Rightarrow> bldc option" where
  "control_duty b m =
     (if bl_state m = MC_STATE_RUNNING \<and> bl_has_commutated m then
        do { m1 \<leftarrow> ramp_duty (input_voltage b m) m; set_duty_cycle_ll b (bl_dutycycle_now m1) m1 }
      else Some m)"

definition mcpwm_adc_int_handler :: "bl_board \<Rightarrow> bldc \<Rightarrow> bldc option" where
  "mcpwm_adc_int_handler b m =
     do { let m1 = count_cycles (bl_emit bl_watchdog_reset (update_timer_attempt m));
          m2 \<leftarrow> (if motor_type (bl_conf m1) = MOTOR_TYPE_BLDC then bldc_step b m1 else dc_step b m1);
          m3 \<leftarrow> control_duty b m2;
          let m4 = bl_emit bl_mc_timer_isr m3;
          m5 \<leftarrow> (case bl_encoder (bl_env m4) of None \<Rightarrow> Some m4
                 | Some enc \<Rightarrow> do { dt \<leftarrow> fdiv 1 (bl_switching_frequency_now m4); bl_run_pid_control_pos enc dt m4 });
          Some (m5\<lparr>bl_last_adc_isr_duration := fl (fl (of_nat (unat (bl_tim12_cnt (bl_env m5)))) / 10000000)\<rparr>) }"

section \<open>Threads\<close>

text \<open>The speed from the commutations since the last iteration, or from the time since the last commutation. A timer at zero gives an infinite speed,
  which is not below the present one.\<close>

definition measure_rpm :: "bldc \<Rightarrow> bldc option" where
  "measure_rpm m =
     (let d = bl_rpm_dep m in
      if comms d \<noteq> 0 then
        do { rpm \<leftarrow> fdiv (fl (fl (fint (sint (comms d)) * MCPWM_RPM_TIMER_FREQ) * 60)) (fl (of_u32 (time_at_comm d) * 6));
             Some (m\<lparr>bl_rpm_dep := d\<lparr>comms := 0, time_at_comm := 0\<rparr>, bl_rpm_now := rpm\<rparr>) }
      else
        (case fdiv (fl (MCPWM_RPM_TIMER_FREQ * 60)) (fl (of_u32 (tim2_cnt (bl_out m)) * 6)) of
           None \<Rightarrow> Some m
         | Some rpm_tmp \<Rightarrow> Some (if \<bar>rpm_tmp\<bar> < \<bar>bl_rpm_now m\<bar> then m\<lparr>bl_rpm_now := rpm_tmp\<rparr> else m)))"

definition commutation_time :: "real \<Rightarrow> real option" where
  "commutation_time rpm = fdiv MCPWM_SWITCH_FREQUENCY_MAX (fl (fl (rpm / 60) * 6))"

definition update_rpm_dep :: "bldc \<Rightarrow> bldc option" where
  "update_rpm_dep m =
     (let cf = bl_conf m; d = bl_rpm_dep m; rpm_abs = \<bar>bl_rpm_now m\<bar>; lim = sl_cycle_int_limit cf;
          coupling = fl (fint (vin_sens m) * sl_bemf_coupling_k cf) in
      do { q \<leftarrow> fdiv coupling (if rpm_abs > sl_min_erpm cf then rpm_abs else sl_min_erpm cf);
           let r0 = fl (lim + q);
           r1 \<leftarrow> (if sl_cycle_int_rpm_br cf = 0 then None
                  else Some (utils_map rpm_abs 0 (sl_cycle_int_rpm_br cf) r0 (fl (r0 * sl_phase_advance_at_br cf))));
           qm \<leftarrow> fdiv coupling (sl_min_erpm_cycle_int_limit cf);
           let mx = fl (lim + qm);
           let r2 = (if r1 < 1 then 1 else r1);
           let r3 = (if r2 > mx then mx else r2);
           Some (m\<lparr>bl_rpm_dep := d\<lparr>cycle_int_limit := lim, cycle_int_limit_running := r3, cycle_int_limit_max := mx,
             comm_time_sum := commutation_time rpm_abs, comm_time_sum_min_rpm := commutation_time (sl_min_erpm cf)\<rparr>\<rparr>) })"

definition rpm_thread :: "bl_board \<Rightarrow> bldc \<Rightarrow> bldc option" where
  "rpm_thread b m =
     (if bl_rpm_thd_stop m then Some (m\<lparr>bl_rpm_thd_stop := False\<rparr>)
      else
        do { m1 \<leftarrow> measure_rpm m;
             let rpm = fl (fl (bl_rpm_now m1 + bl_rpm_p1 m1) / 2);
             m2 \<leftarrow> update_rpm_dep (m1\<lparr>bl_rpm_now := rpm, bl_rpm_p1 := rpm\<rparr>);
             bl_run_pid_control_speed b m2 })"

text \<open>The relative difference of the longest and the shortest commutation; with no time in any step it is not a number, and the comparison false.\<close>

definition uneven_commutations :: "bldc \<Rightarrow> bool" where
  "uneven_commutations m =
     (let (mn, mx) = foldl (\<lambda>(mn, mx) x. (if x < mn then x else mn, if x > mx then x else mx)) (fl 9999999999999, 0) (bl_last_pwm_cycles_sums m) in
      case fdiv (fl (mx - mn)) (fl (fl (mx + mn) / 2)) of None \<Rightarrow> False | Some q \<Rightarrow> q > fl 1.2)"

definition track_direction :: "real \<Rightarrow> bldc \<Rightarrow> real \<times> bldc" where
  "track_direction amp m =
     (if motor_type (bl_conf m) = MOTOR_TYPE_DC then
        (if amp > 0 then (amp, m\<lparr>bl_direction := False\<rparr>) else (- amp, m\<lparr>bl_direction := True\<rparr>))
      else
        (amp,
         if bl_sensorless_now m then
           (if uneven_commutations m then
              (if sint (bl_tachometer_for_direction m) > 12 then m\<lparr>bl_direction := \<not> bl_direction m, bl_tachometer_for_direction := 0\<rparr> else m)
            else m\<lparr>bl_tachometer_for_direction := 0\<rparr>)
         else if sint (bl_tachometer_for_direction m) < -3 then m\<lparr>bl_direction := \<not> bl_direction m, bl_tachometer_for_direction := 0\<rparr>
         else if sint (bl_tachometer_for_direction m) > 0 then m\<lparr>bl_tachometer_for_direction := 0\<rparr>
         else m))"

definition follow_bemf :: "bldc \<Rightarrow> bldc option" where
  "follow_bemf m =
     (if bl_state m = MC_STATE_OFF then
        do { a \<leftarrow> run_fir AMP_FIR_TAPS_BITS (bl_amp_fir m);
             let (amp, m1) = track_direction a m;
             q \<leftarrow> fdiv (if bl_direction m1 then amp else - amp) (fint (vin_sens m1));
             Some (m1\<lparr>bl_dutycycle_now := truncated q (- l_max_duty (bl_conf m1)) (l_max_duty (bl_conf m1))\<rparr>) }
      else Some (m\<lparr>bl_tachometer_for_direction := 0\<rparr>))"

definition sample_kv :: "bl_board \<Rightarrow> bldc \<Rightarrow> bldc option" where
  "sample_kv b m =
     (if bl_state m = MC_STATE_RUNNING \<or> bl_state m = MC_STATE_OFF \<and> bl_dutycycle_now m \<ge> l_min_duty (bl_conf m) then
        do { kv \<leftarrow> mcpwm_get_kv b m; f \<leftarrow> add_fir KV_FIR_TAPS_BITS kv (bl_kv_fir m); Some (m\<lparr>bl_kv_fir := f\<rparr>) }
      else Some m)"

definition bl_timer_thread :: "bl_board \<Rightarrow> bldc \<Rightarrow> bldc option" where
  "bl_timer_thread b m =
     (if bl_timer_thd_stop m then Some (m\<lparr>bl_timer_thd_stop := False\<rparr>)
      else
        do { m1 \<leftarrow> follow_bemf m;
             let c = bl_cnt_tmp m1 + 1;
             if c \<ge> 10 then sample_kv b (m1\<lparr>bl_cnt_tmp := 0\<rparr>) else Some (m1\<lparr>bl_cnt_tmp := c\<rparr>) })"

section \<open>Calibration, initialisation\<close>

text \<open>A step of the environment: new readings, and time passes on the speed timer.\<close>

definition env_step :: "bl_in \<Rightarrow> bldc \<Rightarrow> bldc" where
  "env_step i m = m\<lparr>bl_env := i, bl_out := (bl_out m)\<lparr>tim2_cnt := tim2_cnt (bl_out m) + bl_elapsed i\<rparr>\<rparr>"

datatype bl_irq = Inj_irq bl_in | Adc_irq bl_in

fun bl_interrupt :: "bl_board \<Rightarrow> bl_irq \<Rightarrow> bldc \<Rightarrow> bldc option" where
  "bl_interrupt b (Inj_irq i) m = mcpwm_adc_inj_int_handler b (env_step i m)"
| "bl_interrupt b (Adc_irq i) m = mcpwm_adc_int_handler b (env_step i m)"

text \<open>\<open>do_dc_cal\<close> waits for 4000 samples. The interrupts during the wait are an argument; when they end before, the wait does not. The
  wait for the end of a fault of the gate driver before it reads only a pin.\<close>

primrec bl_wait_samples :: "bl_board \<Rightarrow> bl_irq list \<Rightarrow> bldc \<Rightarrow> bldc option" where
  "bl_wait_samples b [] m = (if sint (bl_curr_start_samples m) < 4000 then None else Some m)"
| "bl_wait_samples b (i # is') m =
     (if sint (bl_curr_start_samples m) < 4000 then do { m1 \<leftarrow> bl_interrupt b i m; bl_wait_samples b is' m1 } else Some m)"

definition bl_do_dc_cal :: "bl_board \<Rightarrow> bl_irq list \<Rightarrow> bldc \<Rightarrow> bldc option" where
  "bl_do_dc_cal b irqs m =
     do { m1 \<leftarrow> bl_wait_samples b irqs (m\<lparr>bl_curr0_sum := 0, bl_curr1_sum := 0, bl_curr_start_samples := 0\<rparr>);
          Some (m1\<lparr>bl_curr0_offset := word_of_int (c_div (sint (bl_curr0_sum m1)) (sint (bl_curr_start_samples m1))),
                   bl_curr1_offset := word_of_int (c_div (sint (bl_curr1_sum m1)) (sint (bl_curr_start_samples m1))),
                   bl_dccal_done := True\<rparr>) }"

definition rpm_dep_zero :: rpm_dep_t where
  "rpm_dep_zero = \<lparr>cycle_int_limit = 0, cycle_int_limit_running = 0, cycle_int_limit_max = 0, comm_time_sum = Some 0,
     comm_time_sum_min_rpm = Some 0, comms = 0, time_at_comm = 0\<rparr>"

text \<open>The static variables before \<open>mcpwm_init\<close>, with the timers stopped; a configuration stands for the pointer, which is null.\<close>

definition fir_zero :: "nat \<Rightarrow> fir" where
  "fir_zero bits = \<lparr>fir_coeffs = replicate (2 ^ bits) 0, fir_samples = replicate (2 ^ bits) 0, fir_index = 0\<rparr>"

definition detect_zero :: rotor_detect where
  "detect_zero = \<lparr>det_step = 0, det_now = 0, det_currents = replicate 6 0, det_voltages = replicate 6 0, det_diff = replicate 6 0,
     det_avg = replicate 6 0, det_avg_samples = replicate 6 0\<rparr>"

definition outputs_zero :: outputs where
  "outputs_zero = (let br = \<lparr>ch1 = ch_off, ch2 = ch_off, ch3 = ch_off\<rparr> in
     \<lparr>out_next = br, out_active = br, reg_arr = 0, reg_duty = 0, reg_val_sample = 0, reg_curr1_sample = 0, reg_curr2_sample = 0,
      tim1_cnt = (\<lambda>_. 0), tim2_cnt = 0\<rparr>)"

definition bl_static :: "mc_configuration \<Rightarrow> bl_in \<Rightarrow> bldc" where
  "bl_static cf i =
     \<lparr>bl_conf = cf, bl_comm_step = 0, bl_direction = False, bl_dutycycle_set = 0, bl_dutycycle_now = 0, bl_rpm_now = 0,
      bl_speed_pid_set_rpm = 0, bl_pos_pid_set_pos = 0, bl_current_set = 0, bl_tachometer = 0, bl_tachometer_abs = 0,
      bl_tachometer_for_direction = 0, bl_curr0_sum = 0, bl_curr1_sum = 0, bl_curr_start_samples = 0, bl_curr0_offset = 0,
      bl_curr1_offset = 0, bl_state = MC_STATE_OFF, bl_control_mode = CONTROL_MODE_DUTY, bl_last_current_sample = 0,
      bl_last_current_sample_filtered = 0, bl_detect = detect_zero, bl_switching_frequency_now = 0, bl_ignore_iterations = 0,
      bl_timer = \<lparr>tm_updated = False, tm_top = 0, tm_duty = 0, tm_val_sample = 0, tm_curr1_sample = 0, tm_curr2_sample = 0\<rparr>,
      bl_curr_samp_volt = 0, bl_hall_to_phase_table = replicate 16 0, bl_cycles_running = 0, bl_slow_ramping_cycles = 0,
      bl_has_commutated = False, bl_rpm_dep = rpm_dep_zero, bl_cycle_integrator_sum = 0, bl_cycle_integrator_iterations = 0,
      bl_pwm_cycles_sum = 0, bl_pwm_cycles = 0, bl_last_pwm_cycles_sum = 0, bl_last_pwm_cycles_sums = replicate 6 0,
      bl_dccal_done = False, bl_sensorless_now = False, bl_hall_detect_table = replicate 8 (replicate 7 0),
      bl_kv_fir = fir_zero KV_FIR_TAPS_BITS, bl_amp_fir = fir_zero AMP_FIR_TAPS_BITS, bl_curr_fir = fir_zero CURR_FIR_TAPS_BITS,
      bl_last_adc_isr_duration = 0, bl_last_inj_adc_isr_duration = 0, bl_vzero = 0, bl_timer_thd_stop = False, bl_rpm_thd_stop = False,
      bl_speed_pid = (0, 0), bl_pos_pid = (0, 0), bl_rpm_p1 = 0, bl_cnt_tmp = 0, bl_comm_step_prev = 1, bl_prev_tot_sample = 0,
      bl_direction_before = True, bl_cycle_integrator = 0, bl_cycle_sum = 0, bl_limit_delay = 0, bl_last_step = 0,
      bl_curr_norm = (0, 0, 0), bl_out = outputs_zero, bl_env = i, bl_events = []\<rparr>"

definition bl_in_zero :: bl_in where
  "bl_in_zero = \<lparr>bl_vin = 0, bl_sens1 = 0, bl_sens2 = 0, bl_sens3 = 0, bl_adc_curr1 = 0, bl_adc_curr2 = 0, bl_inj_curr0 = 0, bl_inj_curr1 = 0,
     bl_inj_curr0_2 = 0, bl_inj_curr1_2 = 0, bl_hall = (False, False, False), bl_encoder = None, bl_elapsed = 0, bl_tim12_cnt = 0\<rparr>"

definition bl_init_vars :: "mc_configuration \<Rightarrow> bldc \<Rightarrow> bldc" where
  "bl_init_vars configuration m = update_sensor_mode (m\<lparr>bl_conf := configuration, bl_comm_step := 1,
     bl_detect := (bl_detect m)\<lparr>det_step := 0\<rparr>, bl_direction := True, bl_rpm_now := 0, bl_dutycycle_set := 0, bl_dutycycle_now := 0,
     bl_speed_pid_set_rpm := 0, bl_pos_pid_set_pos := 0, bl_current_set := 0, bl_tachometer := 0, bl_tachometer_abs := 0,
     bl_tachometer_for_direction := 0, bl_state := MC_STATE_OFF, bl_control_mode := CONTROL_MODE_NONE, bl_last_current_sample := 0,
     bl_last_current_sample_filtered := 0, bl_switching_frequency_now := MCPWM_SWITCH_FREQUENCY_MAX, bl_ignore_iterations := 0,
     bl_curr_samp_volt := 0, bl_cycles_running := 0, bl_slow_ramping_cycles := 0, bl_has_commutated := False,
     bl_rpm_dep := rpm_dep_zero, bl_cycle_integrator_sum := 0, bl_cycle_integrator_iterations := 0, bl_pwm_cycles_sum := 0,
     bl_pwm_cycles := 0, bl_last_pwm_cycles_sum := 0, bl_last_pwm_cycles_sums := replicate 6 0, bl_dccal_done := False,
     bl_hall_detect_table := replicate 8 (replicate 7 0)\<rparr>)"

definition init_fir :: "(real \<Rightarrow> real) \<Rightarrow> real \<Rightarrow> nat \<Rightarrow> fir \<Rightarrow> fir option" where
  "init_fir cosf fcut bits f = do { c \<leftarrow> filter_create_fir_lowpass cosf (fir_coeffs f) fcut bits True; Some (f\<lparr>fir_coeffs := c\<rparr>) }"

text \<open>The set-up of timers 1 and 8, as far as the driver reads or drives them: the period, the compare values, PWM on all channels until \<open>stop_pwm_hw\<close>.\<close>

definition init_timers :: "bldc \<Rightarrow> bldc option" where
  "init_timers m =
     do { arr \<leftarrow> timer_top (bl_switching_frequency_now m);
          let c = channel OCMode_PWM1 True True;
          let br = \<lparr>ch1 = c, ch2 = c, ch3 = c\<rparr>;
          Some (m\<lparr>bl_out := (bl_out m)\<lparr>out_next := br, out_active := br, reg_arr := arr, reg_duty := arr div 2, reg_val_sample := 500,
            reg_curr1_sample := arr div 2, reg_curr2_sample := 500\<rparr>\<rparr>) }"

definition mcpwm_init :: "bl_board \<Rightarrow> (real \<Rightarrow> real) \<Rightarrow> bl_irq list \<Rightarrow> mc_configuration \<Rightarrow> bldc \<Rightarrow> bldc option" where
  "mcpwm_init b cosf irqs configuration m =
     do { m1 \<leftarrow> mcpwm_init_hall_table (map sint (hall_table configuration)) (bl_init_vars configuration m);
          kv \<leftarrow> init_fir cosf (fl 0.02) KV_FIR_TAPS_BITS (bl_kv_fir m1);
          amp \<leftarrow> init_fir cosf (fl 0.02) AMP_FIR_TAPS_BITS (bl_amp_fir m1);
          cur \<leftarrow> init_fir cosf (fl 0.15) CURR_FIR_TAPS_BITS (bl_curr_fir m1);
          m2 \<leftarrow> init_timers (m1\<lparr>bl_kv_fir := kv, bl_amp_fir := amp, bl_curr_fir := cur\<rparr>);
          m3 \<leftarrow> bl_stop_pwm_hw b m2;
          let arr = reg_arr (bl_out m3);
          m4 \<leftarrow> apply_timer b ((bl_timer m3)\<lparr>tm_top := arr, tm_duty := arr div 2\<rparr>) m3;
          m5 \<leftarrow> bl_do_dc_cal b irqs m4;
          Some (m5\<lparr>bl_timer_thd_stop := False, bl_rpm_thd_stop := False, bl_tachometer := 0, bl_tachometer_abs := 0\<rparr>) }"

end
