(* ===== verification/BldcSteps.thy ===== *)
theory BldcSteps
  imports BldcIsr ConfDefault
begin

text \<open>
  The commutation of the six-step driver: the bridges are driven as the comments of \<open>mcpwm.c\<close> tabulate, the field turns by a sixth
  of a turn per step, a hall sensor table commutates backwards with the opposite field, and the tachometer counts the steps. What a sensor
  outside the table does is stated too.
\<close>

section \<open>The field of a step\<close>

text \<open>What a channel does to its phase: drives it high, drives it low, or leaves it open.\<close>

definition phase_drive :: "channel \<Rightarrow> int" where
  "phase_drive c = (case c of channel mode hi lo \<Rightarrow>
     (case mode of OCMode_PWM1 \<Rightarrow> 1 | OCMode_PWM2 \<Rightarrow> - 1 | _ \<Rightarrow> if lo then - 1 else 0))"

definition field :: "bldc \<Rightarrow> int \<times> int \<times> int" where
  "field m = (let b = out_active (bl_out m) in (phase_drive (ch1 b), phase_drive (ch2 b), phase_drive (ch3 b)))"

definition driven :: "int \<Rightarrow> bldc \<Rightarrow> bldc" where
  "driven s m = commutation_event (set_next_comm_step s m)"

text \<open>The tables of the comments, forwards and in reverse.\<close>

definition forward_table :: "(int \<times> int \<times> int) list" where
  "forward_table = [(0, 1, - 1), (1, 0, - 1), (1, - 1, 0), (0, - 1, 1), (- 1, 0, 1), (- 1, 1, 0)]"

definition reverse_table :: "(int \<times> int \<times> int) list" where
  "reverse_table = [(0, - 1, 1), (1, - 1, 0), (1, 0, - 1), (0, 1, - 1), (- 1, 1, 0), (- 1, 0, 1)]"

text \<open>A sixth of a turn, for phases a third of a turn apart.\<close>

definition turn :: "int \<times> int \<times> int \<Rightarrow> int \<times> int \<times> int" where "turn = (\<lambda>(x, y, z). (- z, - x, - y))"
definition turn_back :: "int \<times> int \<times> int \<Rightarrow> int \<times> int \<times> int" where "turn_back = (\<lambda>(x, y, z). (- y, - z, - x))"
definition opposite :: "int \<times> int \<times> int \<Rightarrow> int \<times> int \<times> int" where "opposite = (\<lambda>(x, y, z). (- x, - y, - z))"

definition next_step :: "int \<Rightarrow> int" where "next_step s = step_up (step_down (s + 1))"

lemma step_down_mod: "step_down s = (if s > 6 then (s - 1) mod 6 + 1 else s)"
proof (induction s rule: step_down.induct)
  case (1 s)
  show ?case
  proof (cases "s > 6")
    case True
    have "(s - 6 - 1) mod 6 = (s - 1) mod 6" by (metis diff_diff_eq diff_right_commute mod_mult_self4 minus_mod_self2)
    then show ?thesis using 1 True by (subst step_down.simps) auto
  qed (subst step_down.simps, simp)
qed

lemma step_up_mod: "step_up s = (if s < 1 then (s - 1) mod 6 + 1 else s)"
proof (induction s rule: step_up.induct)
  case (1 s)
  show ?case
  proof (cases "s < 1")
    case True
    have "(s + 6 - 1) mod 6 = (s - 1) mod 6" by (metis add_diff_eq diff_add_eq mod_add_self2)
    then show ?thesis using 1 True by (subst step_up.simps) auto
  qed (subst step_up.simps, simp)
qed

text \<open>The two loops wrap a step into the range from 1 to 6.\<close>

lemma wrap_step: "step_up (step_down s) = (s - 1) mod 6 + 1"
  by (auto simp: step_down_mod step_up_mod)

lemma wrap_step_range: "1 \<le> step_up (step_down s)" "step_up (step_down s) \<le> 6"
  using pos_mod_bound [of 6 "s - 1"] by (auto simp: wrap_step simp del: pos_mod_bound)

lemma six_cases: "1 \<le> s \<Longrightarrow> s \<le> 6 \<Longrightarrow> s = 1 \<or> s = 2 \<or> s = 3 \<or> s = 4 \<or> s = 5 \<or> s = (6 :: int)"
  by presburger

lemmas field_simps = field_def driven_def set_next_comm_step_def step_phases_def write_channels_def commutation_event_def phase_drive_def
  positive_channel_def negative_channel_def ch_zero_def Let_def

lemma field_of_step:
  assumes "motor_type (bl_conf m) \<noteq> MOTOR_TYPE_DC" "1 \<le> s" "s \<le> 6"
  shows "field (driven s m) = (if bl_direction m then forward_table else reverse_table) ! nat (s - 1)"
  using six_cases [OF assms(2,3)] assms(1)
  by (elim disjE; cases "bl_direction m"; simp add: field_simps forward_table_def reverse_table_def numeral_eq_Suc)

lemma next_step_range: "1 \<le> next_step s" "next_step s \<le> 6"
  by (simp_all add: next_step_def wrap_step_range)

lemma table_turns:
  assumes "1 \<le> s" "s \<le> 6"
  shows "forward_table ! nat (next_step s - 1) = turn (forward_table ! nat (s - 1))"
    and "reverse_table ! nat (next_step s - 1) = turn_back (reverse_table ! nat (s - 1))"
  using six_cases [OF assms]
  by (auto simp: next_step_def wrap_step forward_table_def reverse_table_def turn_def turn_back_def numeral_eq_Suc)

lemma table_one_open: "1 \<le> s \<Longrightarrow> s \<le> 6 \<Longrightarrow> (case forward_table ! nat (s - 1) of (x, y, z) \<Rightarrow> {x, y, z} = {- 1, 0, 1})"
  "1 \<le> s \<Longrightarrow> s \<le> 6 \<Longrightarrow> (case reverse_table ! nat (s - 1) of (x, y, z) \<Rightarrow> {x, y, z} = {- 1, 0, 1})"
  by (auto dest!: six_cases simp: forward_table_def reverse_table_def numeral_eq_Suc)

text \<open>The state of the examples.\<close>

definition example :: bldc where
  "example = (bl_static conf_general_get_default_mc_configuration bl_in_zero)\<lparr>bl_comm_step := 1, bl_direction := True\<rparr>"

lemma example_fields [simp]: "motor_type (bl_conf example) = MOTOR_TYPE_BLDC" "bl_comm_step example = 1" "bl_direction example" "bl_last_step example = 0"
  "\<not> bl_sensorless_now example" "bl_state example = MC_STATE_OFF" "length (bl_hall_to_phase_table example) = 16"
  "bl_hall (bl_env example) = (False, False, False)"
  by (simp_all add: example_def bl_static_def bl_in_zero_def conf_general_get_default_mc_configuration_def MCCONF_DEFAULT_MOTOR_TYPE_def)

text \<open>C18: Six-step commutation. Once the commutation event has made the settings of a step active, the three phases are driven as the tables of the comments say, in
  both directions and every PWM mode: one phase high, one low, one open. The next step turns the field by a sixth of a turn, forwards or
  backwards as the direction is.\<close>

theorem six_step_commutation:
  assumes "motor_type (bl_conf m) \<noteq> MOTOR_TYPE_DC" "1 \<le> s" "s \<le> 6"
  shows "field (driven s m) = (if bl_direction m then forward_table else reverse_table) ! nat (s - 1) \<and>
    (case field (driven s m) of (x, y, z) \<Rightarrow> {x, y, z} = {- 1, 0, 1}) \<and>
    field (driven (next_step s) m) = (if bl_direction m then turn else turn_back) (field (driven s m))"
  using field_of_step [OF assms] field_of_step [OF assms(1) next_step_range] table_turns [OF assms(2,3)] table_one_open [OF assms(2,3)]
  by (simp_all split: if_split)

theorem six_step_commutation_witness:
  "field (driven 3 example) = (1, - 1, 0) \<and> field (driven (next_step 3) example) = turn (1, - 1, 0)"
  using six_step_commutation [of example 3] by (simp add: forward_table_def)

section \<open>Hall sensors\<close>

definition hall_rev :: "int \<Rightarrow> int" where "hall_rev p = (if p < 1 then p else fwd_to_rev ! nat p)"

definition hall_phases :: "int list \<Rightarrow> int list" where "hall_phases table = map hall_rev table @ table"

lemma for_each_append: "for_each f (xs @ ys) s = do { t \<leftarrow> for_each f xs s; for_each f ys t }"
  by (induction xs arbitrary: s) simp_all

lemma hall_entry_eq:
  assumes "i < 8" "length table = 8" "length hp = 16"
  shows "hall_entry table i hp = (if table ! i \<le> 6 then Some (hp[8 + i := table ! i, i := hall_rev (table ! i)]) else None)"
  using assms by (auto simp: hall_entry_def hall_rev_def arr_get_def arr_set_def arr_at_def fwd_to_rev_def nat_less_iff)

lemma for_each_hall:
  assumes "length table = 8"
  shows "length hp = 16 \<Longrightarrow> set is' \<subseteq> {..<8} \<Longrightarrow> for_each (hall_entry table) is' hp =
    (if \<forall>i \<in> set is'. table ! i \<le> 6 then Some (foldl (\<lambda>hp i. hp[8 + i := table ! i, i := hall_rev (table ! i)]) hp is') else None)"
  by (induction is' arbitrary: hp) (auto simp: hall_entry_eq [OF _ assms])

lemma all_below_8: "(\<forall>x \<in> set table. P x) \<longleftrightarrow> (\<forall>i \<in> set [0..<8]. P (table ! i))" if "length table = 8"
  using that by (auto simp: all_set_conv_all_nth)

lemma list_of_8: "length xs = 8 \<Longrightarrow> \<exists>a b c d e f g h. xs = [a, b, c, d, e, f, g, h]"
  by (simp add: length_Suc_conv numeral_eq_Suc) blast

lemma list_of_16: assumes "length xs = 16" shows "\<exists>ys zs. xs = ys @ zs \<and> length ys = 8 \<and> length zs = 8"
proof -
  have "xs = take 8 xs @ drop 8 xs" "length (take 8 xs) = 8" "length (drop 8 xs) = 8" using assms by simp_all
  then show ?thesis by blast
qed

lemma init_hall_table_eq:
  assumes "length table = 8" "length (bl_hall_to_phase_table m) = 16"
  shows "mcpwm_init_hall_table table m =
    (if \<forall>p \<in> set table. p \<le> 6 then Some (m\<lparr>bl_hall_to_phase_table := hall_phases table\<rparr>) else None)"
proof -
  let ?f = "\<lambda>hp i. hp[8 + i := table ! i, i := hall_rev (table ! i)]" and ?hp = "bl_hall_to_phase_table m"
  obtain xs ys where hp: "?hp = xs @ ys" "length xs = 8" "length ys = 8" using list_of_16 [OF assms(2)] by blast
  have "foldl ?f ?hp [0..<8] = hall_phases table"
    using list_of_8 [OF assms(1)] list_of_8 [OF hp(2)] list_of_8 [OF hp(3)] unfolding hp(1)
    by (elim exE) (simp add: hall_phases_def upt_rec nth_append numeral_eq_Suc)
  moreover have "set [0..<8] \<subseteq> {..<8 :: nat}" by auto
  ultimately show ?thesis
    using for_each_hall [OF assms(1,2), of "[0..<8]"] all_below_8 [OF assms(1), of "\<lambda>p. p \<le> 6"] by (simp add: mcpwm_init_hall_table_def)
qed

lemma read_hall_less: "bl_read_hall m < 8"
  by (auto simp: bl_read_hall_def Let_def split: prod.split)

lemma read_hall_update [simp]: "bl_read_hall (m\<lparr>bl_hall_to_phase_table := hp\<rparr>) = bl_read_hall m"
  "bl_read_hall (m\<lparr>bl_direction := d\<rparr>) = bl_read_hall m" "bl_read_hall (m\<lparr>bl_state := st\<rparr>) = bl_read_hall m"
  by (simp_all add: bl_read_hall_def)

lemma hall_phases_nth:
  assumes "length table = 8" "h < 8"
  shows "hall_phases table ! h = hall_rev (table ! h)" "hall_phases table ! (h + 8) = table ! h"
  using assms by (simp_all add: hall_phases_def nth_append)

lemma hall_phase_eq:
  assumes "length table = 8" "bl_hall_to_phase_table m = hall_phases table"
  shows "mcpwm_read_hall_phase m = Some (if bl_direction m then table ! bl_read_hall m else hall_rev (table ! bl_read_hall m))"
  using assms hall_phases_nth [OF assms(1) read_hall_less [of m]] read_hall_less [of m]
  by (simp add: mcpwm_read_hall_phase_def arr_get_def hall_phases_def)

lemma hall_rev_range: "1 \<le> p \<Longrightarrow> p \<le> 6 \<Longrightarrow> 1 \<le> hall_rev p \<and> hall_rev p \<le> 6"
  by (auto dest!: six_cases simp: hall_rev_def fwd_to_rev_def numeral_eq_Suc)

lemma reverse_is_opposite: "1 \<le> p \<Longrightarrow> p \<le> 6 \<Longrightarrow> reverse_table ! nat (hall_rev p - 1) = opposite (forward_table ! nat (p - 1))"
  by (auto dest!: six_cases simp: hall_rev_def fwd_to_rev_def reverse_table_def forward_table_def opposite_def numeral_eq_Suc)

text \<open>C19: Hall sensors. A sensor table is accepted exactly when no entry is above six, and then for every reading with an entry in the table the motor
  commutates to that entry forwards, and in reverse to the step with exactly the opposite field, so that the torque changes its sign.\<close>

theorem hall_table_reverses:
  assumes "length table = 8" "length (bl_hall_to_phase_table m) = 16" "motor_type (bl_conf m) \<noteq> MOTOR_TYPE_DC"
  shows "(mcpwm_init_hall_table table m \<noteq> None \<longleftrightarrow> (\<forall>p \<in> set table. p \<le> 6)) \<and>
    (\<forall>m1. mcpwm_init_hall_table table m = Some m1 \<and> 1 \<le> table ! bl_read_hall m \<longrightarrow>
      (\<exists>q. mcpwm_read_hall_phase (m1\<lparr>bl_direction := True\<rparr>) = Some (table ! bl_read_hall m) \<and>
           mcpwm_read_hall_phase (m1\<lparr>bl_direction := False\<rparr>) = Some q \<and>
           field (driven q (m1\<lparr>bl_direction := False\<rparr>)) = opposite (field (driven (table ! bl_read_hall m) (m1\<lparr>bl_direction := True\<rparr>)))))"
proof (intro conjI allI impI)
  show "mcpwm_init_hall_table table m \<noteq> None \<longleftrightarrow> (\<forall>p \<in> set table. p \<le> 6)" by (simp add: init_hall_table_eq [OF assms(1,2)])
next
  fix m1
  let ?p = "table ! bl_read_hall m"
  assume h: "mcpwm_init_hall_table table m = Some m1 \<and> 1 \<le> ?p"
  then have m1: "m1 = m\<lparr>bl_hall_to_phase_table := hall_phases table\<rparr>" and le: "?p \<le> 6"
    using nth_mem [of "bl_read_hall m" table] read_hall_less [of m] assms(1) by (auto simp: init_hall_table_eq [OF assms(1,2)] split: if_split_asm)
  have r: "1 \<le> hall_rev ?p" "hall_rev ?p \<le> 6" using hall_rev_range le h by blast+
  show "\<exists>q. mcpwm_read_hall_phase (m1\<lparr>bl_direction := True\<rparr>) = Some ?p \<and> mcpwm_read_hall_phase (m1\<lparr>bl_direction := False\<rparr>) = Some q \<and>
      field (driven q (m1\<lparr>bl_direction := False\<rparr>)) = opposite (field (driven ?p (m1\<lparr>bl_direction := True\<rparr>)))"
    using hall_phase_eq [OF assms(1), of "m1\<lparr>bl_direction := True\<rparr>"] hall_phase_eq [OF assms(1), of "m1\<lparr>bl_direction := False\<rparr>"]
      field_of_step [of "m1\<lparr>bl_direction := False\<rparr>", OF _ r] field_of_step [of "m1\<lparr>bl_direction := True\<rparr>" ?p] reverse_is_opposite [of ?p] assms(3) h le m1
    by (intro exI [of _ "hall_rev ?p"]) simp
qed

theorem hall_table_reverses_witness:
  "\<exists>m m1 q. bl_hall (bl_env m) = (True, True, False) \<and> mcpwm_init_hall_table [- 1, 1, 3, 2, 5, 6, 4, - 1] m = Some m1 \<and>
     mcpwm_read_hall_phase (m1\<lparr>bl_direction := True\<rparr>) = Some 2 \<and> mcpwm_read_hall_phase (m1\<lparr>bl_direction := False\<rparr>) = Some q \<and>
     field (driven q (m1\<lparr>bl_direction := False\<rparr>)) = opposite (field (driven 2 (m1\<lparr>bl_direction := True\<rparr>)))"
proof -
  let ?m = "example\<lparr>bl_env := bl_in_zero\<lparr>bl_hall := (True, True, False)\<rparr>\<rparr>" and ?t = "[- 1, 1, 3, 2, 5, 6, 4, - 1] :: int list"
  have h: "bl_read_hall ?m = 3" by (simp add: bl_read_hall_def)
  have l: "length ?t = 8" "length (bl_hall_to_phase_table ?m) = 16" "motor_type (bl_conf ?m) \<noteq> MOTOR_TYPE_DC" by simp_all
  have "mcpwm_init_hall_table ?t ?m \<noteq> None" using hall_table_reverses [OF l] by simp
  then obtain m1 where m1: "mcpwm_init_hall_table ?t ?m = Some m1" by blast
  have e: "?t ! bl_read_hall ?m = 2" by (simp add: h)
  show ?thesis using hall_table_reverses [OF l] m1 unfolding e by (intro exI [of _ ?m] exI [of _ m1]) auto
qed

text \<open>A reading without an entry, as the two that cannot occur with connected sensors, makes the running motor write in front of an array.\<close>

lemma commutate_below: "bl_comm_step m < 1 \<Longrightarrow> commutate b k m = None"
  by (simp add: commutate_def arr_set_int_def)

lemma set_next_comm_step_fields [simp]:
  "bl_comm_step (set_next_comm_step s m) = bl_comm_step m" "bl_state (set_next_comm_step s m) = bl_state m"
  "bl_conf (set_next_comm_step s m) = bl_conf m" "bl_direction (set_next_comm_step s m) = bl_direction m"
  by (simp_all add: set_next_comm_step_def write_channels_def split: option.split)

lemma update_rpm_tacho_fields [simp]: "bl_comm_step (update_rpm_tacho m) = bl_comm_step m" "bl_state (update_rpm_tacho m) = bl_state m"
  by (simp_all add: update_rpm_tacho_def Let_def)

text \<open>A hall sensor reading outside the table (a broken or unplugged sensor) is undefined behaviour: both the commutation of the running motor and its start
  store the time of the last step at a negative index.\<close>

theorem hall_reading_invalid:
  assumes "mcpwm_read_hall_phase m = Some p" "p < 1" "bl_comm_step m \<noteq> p" "\<not> bl_sensorless_now m" "motor_type (bl_conf m) = MOTOR_TYPE_BLDC"
  shows "(bl_state m = MC_STATE_RUNNING \<longrightarrow> commutate_hall b m = None) \<and> (bl_state m \<noteq> MC_STATE_RUNNING \<longrightarrow> start_motor b m = None)"
  using assms by (simp add: commutate_hall_def start_motor_def commutate_now_def commutate_below mcpwm_read_hall_phase_def Let_def)

theorem hall_reading_invalid_witness:
  "start_motor bl_hw_410 (example\<lparr>bl_hall_to_phase_table := hall_phases [- 1, 1, 3, 2, 5, 6, 4, - 1]\<rparr>) = None"
  using hall_reading_invalid [of "example\<lparr>bl_hall_to_phase_table := hall_phases [- 1, 1, 3, 2, 5, 6, 4, - 1]\<rparr>" "- 1"]
    hall_phase_eq [of "[- 1, 1, 3, 2, 5, 6, 4, - 1]" "example\<lparr>bl_hall_to_phase_table := hall_phases [- 1, 1, 3, 2, 5, 6, 4, - 1]\<rparr>"]
  by (simp add: bl_read_hall_def)

section \<open>The tachometer\<close>

text \<open>A change of the step between two backwards and three forwards is recovered from the steps before and after.\<close>

lemma tacho_diff_eq:
  assumes "1 \<le> s" "s \<le> 6" "- 2 \<le> d" "d \<le> 3"
  shows "tacho_diff (step_up (step_down (s + d)) - 1) (s - 1) = d"
proof -
  have "d = -2 \<or> d = -1 \<or> d = 0 \<or> d = 1 \<or> d = 2 \<or> d = 3" using assms(3,4) by presburger
  then show ?thesis using six_cases [OF assms(1,2)]
    by (elim disjE) (simp_all add: wrap_step tacho_diff_def c_rem_def c_div_def)
qed

definition advance :: "int \<Rightarrow> bldc \<Rightarrow> bldc" where
  "advance d m = update_rpm_tacho (m\<lparr>bl_comm_step := step_up (step_down (bl_comm_step m + d))\<rparr>)"

definition tacho_synced :: "bldc \<Rightarrow> bool" where
  "tacho_synced m \<longleftrightarrow> 1 \<le> bl_comm_step m \<and> bl_comm_step m \<le> 6 \<and> bl_last_step m = bl_comm_step m - 1"

lemma advance_fields:
  assumes "tacho_synced m" "- 2 \<le> d" "d \<le> 3"
  shows "tacho_synced (advance d m)" "bl_direction (advance d m) = bl_direction m"
    "bl_tachometer (advance d m) = bl_tachometer m + word_of_int (if bl_direction m then d else - d)"
    "bl_tachometer_abs (advance d m) = bl_tachometer_abs m + word_of_int d"
    "comms (bl_rpm_dep (advance d m)) = comms (bl_rpm_dep m) + word_of_int d"
  using assms tacho_diff_eq [of "bl_comm_step m" d] wrap_step_range [of "bl_comm_step m + d"]
  by (auto simp: advance_def tacho_synced_def update_rpm_tacho_def Let_def)

text \<open>C36: The tachometer. Over any sequence of step changes of up to three steps forwards and two backwards each, the tachometer moves by exactly their sum, in the
  direction of the motor; so do the commutations the speed is measured with and \<open>tachometer_abs\<close>, which therefore also counts down.\<close>

theorem tachometer_exact:
  assumes "tacho_synced m" "\<forall>d \<in> set ds. - 2 \<le> d \<and> d \<le> 3"
  shows "let m1 = foldl (\<lambda>m d. advance d m) m ds; n = sum_list ds in
    bl_tachometer m1 = bl_tachometer m + word_of_int (if bl_direction m then n else - n) \<and>
    bl_tachometer_abs m1 = bl_tachometer_abs m + word_of_int n \<and>
    comms (bl_rpm_dep m1) = comms (bl_rpm_dep m) + word_of_int n"
  using assms
proof (induction ds arbitrary: m)
  case (Cons d ds)
  then have "- 2 \<le> d" "d \<le> 3" by auto
  note f = advance_fields [OF Cons.prems(1) this]
  show ?case using Cons.IH [OF f(1)] Cons.prems(2) f by (auto simp: Let_def algebra_simps)
qed simp

theorem tachometer_exact_witness:
  "let m1 = foldl (\<lambda>m d. advance d m) example [1, 1, - 2, 3] in bl_tachometer m1 = 3 \<and> bl_tachometer_abs m1 = 3"
  using tachometer_exact [of example "[1, 1, - 2, 3]"] by (simp add: tacho_synced_def Let_def example_def bl_static_def)

end
