(* ===== verification/BldcInvariant.thy ===== *)
theory BldcInvariant
  imports BldcSteps
begin

text \<open>
  The states of the six-step driver and its bridges, over commands, interrupts and threads in any order: when the driver is off all phases
  are open, and a full brake shorts all phases, except that a rotor detection that was under way when the brake was commanded opens them again.
\<close>

section \<open>What the operations change\<close>

text \<open>The state without the timer settings: changes of the sampling points, the period and the compare values do not show.\<close>

definition timer_zero :: mc_timer_struct where
  "timer_zero = \<lparr>tm_updated = False, tm_top = 0, tm_duty = 0, tm_val_sample = 0, tm_curr1_sample = 0, tm_curr2_sample = 0\<rparr>"

definition plain :: "bldc \<Rightarrow> bldc" where
  "plain m = m\<lparr>bl_timer := timer_zero, bl_curr_samp_volt := 0, bl_switching_frequency_now := 0,
     bl_out := (bl_out m)\<lparr>reg_arr := 0, reg_duty := 0, reg_val_sample := 0, reg_curr1_sample := 0, reg_curr2_sample := 0, tim1_cnt := (\<lambda>_. 0)\<rparr>\<rparr>"

definition bridge_of :: "bldc \<Rightarrow> bridge \<times> bridge" where
  "bridge_of m = (out_next (bl_out m), out_active (bl_out m))"

lemma plain_sel:
  "bl_state (plain m) = bl_state m" "bl_detect (plain m) = bl_detect m" "bridge_of (plain m) = bridge_of m" "bl_conf (plain m) = bl_conf m"
  "bl_comm_step (plain m) = bl_comm_step m" "bl_direction (plain m) = bl_direction m" "bl_sensorless_now (plain m) = bl_sensorless_now m"
  "bl_has_commutated (plain m) = bl_has_commutated m" "bl_dutycycle_now (plain m) = bl_dutycycle_now m"
  by (simp_all add: plain_def bridge_of_def)

lemma plain_eqD:
  assumes "plain m' = plain m"
  shows "bl_state m' = bl_state m" "bl_detect m' = bl_detect m" "bridge_of m' = bridge_of m" "bl_conf m' = bl_conf m"
    "bl_comm_step m' = bl_comm_step m" "bl_direction m' = bl_direction m" "bl_sensorless_now m' = bl_sensorless_now m"
    "bl_has_commutated m' = bl_has_commutated m" "bl_dutycycle_now m' = bl_dutycycle_now m"
  using plain_sel [of m'] plain_sel [of m] unfolding assms by simp_all

lemma plain_update_timer_attempt: "plain (update_timer_attempt m) = plain m"
  by (simp add: update_timer_attempt_def plain_def Let_def)

lemma plain_set_next_timer_settings: "plain (set_next_timer_settings t m) = plain m"
  unfolding set_next_timer_settings_def plain_update_timer_attempt by (simp add: plain_def)

lemma plain_update_adc_sample_pos: "update_adc_sample_pos b t m = Some (t', m') \<Longrightarrow> plain m' = plain m"
  unfolding update_adc_sample_pos_def Let_def by (elim bind_SomeE) (auto simp: plain_def split: prod.split_asm)

lemma plain_apply_timer: "apply_timer b t m = Some m' \<Longrightarrow> plain m' = plain m"
  unfolding apply_timer_def
  by (elim bind_SomeE) (auto simp: plain_set_next_timer_settings dest: plain_update_adc_sample_pos)

lemma plain_frequency: "plain (m\<lparr>bl_switching_frequency_now := f\<rparr>) = plain m"
  by (simp add: plain_def)

lemma plain_set_switching_frequency: "set_switching_frequency b f m = Some m' \<Longrightarrow> plain m' = plain m"
  unfolding set_switching_frequency_def Let_def by (elim bind_SomeE) (drule plain_apply_timer, simp add: plain_frequency)

lemma plain_set_duty_cycle_hw: "set_duty_cycle_hw b d m = Some m' \<Longrightarrow> plain m' = plain m"
  unfolding set_duty_cycle_hw_def Let_def by (elim bind_SomeE) (drule plain_apply_timer, simp add: plain_frequency)

section \<open>States and bridges\<close>

definition all_off :: bridge where "all_off = \<lparr>ch1 = ch_off, ch2 = ch_off, ch3 = ch_off\<rparr>"
definition all_brake :: bridge where "all_brake = \<lparr>ch1 = ch_brake, ch2 = ch_brake, ch3 = ch_brake\<rparr>"

text \<open>The flag tells whether a rotor detection may be, or may have been, under way.\<close>

definition bl_inv :: "bool \<Rightarrow> bldc \<Rightarrow> bool" where
  "bl_inv D m \<longleftrightarrow>
     fst (bridge_of m) = snd (bridge_of m) \<and>
     (bl_state m = MC_STATE_OFF \<longrightarrow> snd (bridge_of m) = all_off) \<and>
     (bl_state m = MC_STATE_FULL_BRAKE \<longrightarrow> snd (bridge_of m) = all_brake \<or> D \<and> snd (bridge_of m) = all_off) \<and>
     (\<not> D \<longrightarrow> bl_state m \<noteq> MC_STATE_DETECTING \<and> det_now (bl_detect m) = 0)"

lemma bl_inv_plain:
  assumes "plain m' = plain m" "bl_inv D m"
  shows "bl_inv D m'"
  using assms(2) by (simp add: bl_inv_def plain_eqD [OF assms(1)])

lemma bl_inv_fields: "bl_state m' = bl_state m \<Longrightarrow> bl_detect m' = bl_detect m \<Longrightarrow> bridge_of m' = bridge_of m \<Longrightarrow> bl_inv D m \<Longrightarrow> bl_inv D m'"
  by (simp add: bl_inv_def)

lemma bl_inv_running: "bl_inv D m \<Longrightarrow> bl_state m' = MC_STATE_RUNNING \<Longrightarrow> bl_detect m' = bl_detect m \<Longrightarrow> fst (bridge_of m') = snd (bridge_of m') \<Longrightarrow> bl_inv D m'"
  by (auto simp: bl_inv_def)

lemma set_channel_simps: "set_channel 1 c b = b\<lparr>ch1 := c\<rparr>" "set_channel 2 c b = b\<lparr>ch2 := c\<rparr>" "set_channel 3 c b = b\<lparr>ch3 := c\<rparr>"
  by (simp_all add: numeral_eq_Suc)

lemma bridge_commutation: "bridge_of (commutation_event m) = (fst (bridge_of m), fst (bridge_of m))"
  by (simp add: bridge_of_def commutation_event_def)

lemma bridge_write: "fst (bridge_of (write_channels (all_channels c) m)) = \<lparr>ch1 = c, ch2 = c, ch3 = c\<rparr>"
  by (cases "out_next (bl_out m)") (simp add: bridge_of_def write_channels_def all_channels_def set_channel_simps del: One_nat_def)

lemma write_all_off: "bridge_of (commutation_event (write_channels (all_channels ch_off) m)) = (all_off, all_off)"
  "bridge_of (commutation_event (write_channels (all_channels ch_brake) m)) = (all_brake, all_brake)"
  by (simp_all add: bridge_commutation bridge_write all_off_def all_brake_def)

lemma commutation_fields:
  "bl_state (commutation_event (write_channels cs m)) = bl_state m" "bl_detect (commutation_event (write_channels cs m)) = bl_detect m"
  "bl_conf (commutation_event (write_channels cs m)) = bl_conf m" "bl_comm_step (commutation_event (write_channels cs m)) = bl_comm_step m"
  by (simp_all add: commutation_event_def write_channels_def)

text \<open>Stopping and braking.\<close>

lemma stop_pwm_hw_eff:
  assumes "bl_stop_pwm_hw b m = Some m'"
  shows "bridge_of m' = (all_off, all_off)" "bl_state m' = bl_state m" "bl_detect m' = bl_detect m" "bl_conf m' = bl_conf m" "bl_comm_step m' = bl_comm_step m"
  using plain_eqD [OF plain_set_switching_frequency [OF assms [unfolded bl_stop_pwm_hw_def]]] by (simp_all add: write_all_off commutation_fields)

lemma full_brake_hw_eff:
  assumes "full_brake_hw b m = Some m'"
  shows "bridge_of m' = (all_brake, all_brake)" "bl_state m' = bl_state m" "bl_detect m' = bl_detect m" "bl_conf m' = bl_conf m" "bl_comm_step m' = bl_comm_step m"
  using plain_eqD [OF plain_set_switching_frequency [OF assms [unfolded full_brake_hw_def]]] by (simp_all add: write_all_off commutation_fields)

lemma inv_stop_pwm_ll: "stop_pwm_ll b m = Some m' \<Longrightarrow> (\<not> D \<longrightarrow> det_now (bl_detect m) = 0) \<Longrightarrow> bl_inv D m'"
  unfolding stop_pwm_ll_def by (frule stop_pwm_hw_eff(1); frule stop_pwm_hw_eff(2); drule stop_pwm_hw_eff(3)) (auto simp: bl_inv_def)

lemma inv_full_brake_ll: "full_brake_ll b m = Some m' \<Longrightarrow> (\<not> D \<longrightarrow> det_now (bl_detect m) = 0) \<Longrightarrow> bl_inv D m'"
  unfolding full_brake_ll_def by (frule full_brake_hw_eff(1); frule full_brake_hw_eff(2); drule full_brake_hw_eff(3)) (auto simp: bl_inv_def)

section \<open>Operations keep the invariant\<close>

named_theorems bl_keeps

lemma inv_irrelevant [simp]:
  "bl_inv D (m\<lparr>bl_conf := x0\<rparr>) = bl_inv D m"
  "bl_inv D (m\<lparr>bl_comm_step := x1\<rparr>) = bl_inv D m"
  "bl_inv D (m\<lparr>bl_direction := x2\<rparr>) = bl_inv D m"
  "bl_inv D (m\<lparr>bl_dutycycle_set := x3\<rparr>) = bl_inv D m"
  "bl_inv D (m\<lparr>bl_dutycycle_now := x4\<rparr>) = bl_inv D m"
  "bl_inv D (m\<lparr>bl_rpm_now := x5\<rparr>) = bl_inv D m"
  "bl_inv D (m\<lparr>bl_speed_pid_set_rpm := x6\<rparr>) = bl_inv D m"
  "bl_inv D (m\<lparr>bl_pos_pid_set_pos := x7\<rparr>) = bl_inv D m"
  "bl_inv D (m\<lparr>bl_current_set := x8\<rparr>) = bl_inv D m"
  "bl_inv D (m\<lparr>bl_control_mode := x9\<rparr>) = bl_inv D m"
  "bl_inv D (m\<lparr>bl_last_current_sample := x10\<rparr>) = bl_inv D m"
  "bl_inv D (m\<lparr>bl_last_current_sample_filtered := x11\<rparr>) = bl_inv D m"
  "bl_inv D (m\<lparr>bl_switching_frequency_now := x12\<rparr>) = bl_inv D m"
  "bl_inv D (m\<lparr>bl_hall_to_phase_table := x13\<rparr>) = bl_inv D m"
  "bl_inv D (m\<lparr>bl_cycles_running := x14\<rparr>) = bl_inv D m"
  "bl_inv D (m\<lparr>bl_slow_ramping_cycles := x15\<rparr>) = bl_inv D m"
  "bl_inv D (m\<lparr>bl_has_commutated := x16\<rparr>) = bl_inv D m"
  "bl_inv D (m\<lparr>bl_rpm_dep := x17\<rparr>) = bl_inv D m"
  "bl_inv D (m\<lparr>bl_cycle_integrator_sum := x18\<rparr>) = bl_inv D m"
  "bl_inv D (m\<lparr>bl_cycle_integrator_iterations := x19\<rparr>) = bl_inv D m"
  "bl_inv D (m\<lparr>bl_pwm_cycles_sum := x20\<rparr>) = bl_inv D m"
  "bl_inv D (m\<lparr>bl_pwm_cycles := x21\<rparr>) = bl_inv D m"
  "bl_inv D (m\<lparr>bl_hall_detect_table := x22\<rparr>) = bl_inv D m"
  "bl_inv D (m\<lparr>bl_kv_fir := x23\<rparr>) = bl_inv D m"
  "bl_inv D (m\<lparr>bl_amp_fir := x24\<rparr>) = bl_inv D m"
  "bl_inv D (m\<lparr>bl_curr_fir := x25\<rparr>) = bl_inv D m"
  "bl_inv D (m\<lparr>bl_last_adc_isr_duration := x26\<rparr>) = bl_inv D m"
  "bl_inv D (m\<lparr>bl_last_inj_adc_isr_duration := x27\<rparr>) = bl_inv D m"
  "bl_inv D (m\<lparr>bl_vzero := x28\<rparr>) = bl_inv D m"
  "bl_inv D (m\<lparr>bl_timer_thd_stop := x29\<rparr>) = bl_inv D m"
  "bl_inv D (m\<lparr>bl_rpm_thd_stop := x30\<rparr>) = bl_inv D m"
  "bl_inv D (m\<lparr>bl_speed_pid := x31\<rparr>) = bl_inv D m"
  "bl_inv D (m\<lparr>bl_pos_pid := x32\<rparr>) = bl_inv D m"
  "bl_inv D (m\<lparr>bl_rpm_p1 := x33\<rparr>) = bl_inv D m"
  "bl_inv D (m\<lparr>bl_cnt_tmp := x34\<rparr>) = bl_inv D m"
  "bl_inv D (m\<lparr>bl_comm_step_prev := x35\<rparr>) = bl_inv D m"
  "bl_inv D (m\<lparr>bl_prev_tot_sample := x36\<rparr>) = bl_inv D m"
  "bl_inv D (m\<lparr>bl_direction_before := x37\<rparr>) = bl_inv D m"
  "bl_inv D (m\<lparr>bl_cycle_integrator := x38\<rparr>) = bl_inv D m"
  "bl_inv D (m\<lparr>bl_cycle_sum := x39\<rparr>) = bl_inv D m"
  "bl_inv D (m\<lparr>bl_limit_delay := x40\<rparr>) = bl_inv D m"
  "bl_inv D (m\<lparr>bl_curr_norm := x41\<rparr>) = bl_inv D m"
  "bl_inv D (m\<lparr>bl_env := x42\<rparr>) = bl_inv D m"
  "bl_inv D (m\<lparr>bl_events := x43\<rparr>) = bl_inv D m"
  "bl_inv D (m\<lparr>bl_tachometer := x44\<rparr>) = bl_inv D m"
  "bl_inv D (m\<lparr>bl_tachometer_abs := x45\<rparr>) = bl_inv D m"
  "bl_inv D (m\<lparr>bl_tachometer_for_direction := x46\<rparr>) = bl_inv D m"
  "bl_inv D (m\<lparr>bl_sensorless_now := x47\<rparr>) = bl_inv D m"
  "bl_inv D (m\<lparr>bl_curr0_sum := x48\<rparr>) = bl_inv D m"
  "bl_inv D (m\<lparr>bl_curr1_sum := x49\<rparr>) = bl_inv D m"
  "bl_inv D (m\<lparr>bl_curr_start_samples := x50\<rparr>) = bl_inv D m"
  by (simp_all add: bl_inv_def bridge_of_def)

lemma inv_det: "bl_inv D m \<Longrightarrow> \<not> D \<Longrightarrow> det_now (bl_detect m) = 0"
  by (simp add: bl_inv_def)

lemma inv_run: "bl_inv D m \<Longrightarrow> bl_inv D (m\<lparr>bl_state := MC_STATE_RUNNING\<rparr>)"
  by (simp add: bl_inv_def bridge_of_def)

text \<open>A commutation of a motor that does not run, which only counts, or of any motor else.\<close>

lemma plain_commute_sensor: "bridge_of (update_sensor_mode m) = bridge_of m" "bl_state (update_sensor_mode m) = bl_state m"
  "bl_detect (update_sensor_mode m) = bl_detect m" "bl_conf (update_sensor_mode m) = bl_conf m" "bl_comm_step (update_sensor_mode m) = bl_comm_step m"
  by (simp_all add: update_sensor_mode_def bridge_of_def)

lemma finish_commutation_eff:
  assumes "finish_commutation b m = Some m'"
  shows "bridge_of m' = (fst (bridge_of m), fst (bridge_of m))" "bl_state m' = bl_state m" "bl_detect m' = bl_detect m"
    "bl_conf m' = bl_conf m" "bl_comm_step m' = bl_comm_step m" "bl_has_commutated m'"
proof -
  let ?n = "(commutation_event m)\<lparr>bl_has_commutated := True\<rparr>"
  obtain n where n: "apply_timer b (bl_timer m) ?n = Some n" and m': "m' = update_sensor_mode n"
    using assms unfolding finish_commutation_def by (elim runE)
  have "bridge_of ?n = bridge_of (commutation_event m)" by (simp add: bridge_of_def)
  then have f: "bridge_of ?n = (fst (bridge_of m), fst (bridge_of m))" by (simp add: bridge_commutation)
  note e = plain_eqD [OF plain_apply_timer [OF n]]
  show "bridge_of m' = (fst (bridge_of m), fst (bridge_of m))" unfolding m' plain_commute_sensor e f ..
  show "bl_state m' = bl_state m" "bl_detect m' = bl_detect m" "bl_conf m' = bl_conf m" "bl_comm_step m' = bl_comm_step m"
    unfolding m' plain_commute_sensor e by (simp_all add: commutation_event_def)
  show "bl_has_commutated m'" unfolding m' using e(8) by (simp add: update_sensor_mode_def)
qed

lemma update_rpm_tacho_eff:
  "bridge_of (update_rpm_tacho m) = bridge_of m" "bl_detect (update_rpm_tacho m) = bl_detect m" "bl_conf (update_rpm_tacho m) = bl_conf m"
  by (simp_all add: update_rpm_tacho_def bridge_of_def Let_def)

lemma set_next_comm_step_eff:
  "snd (bridge_of (set_next_comm_step s m)) = snd (bridge_of m)" "bl_detect (set_next_comm_step s m) = bl_detect m"
  by (simp_all add: set_next_comm_step_def write_channels_def bridge_of_def split: option.split)

text \<open>A commutation leaves the state; it makes the bridges the preloaded ones, unless the motor does not run and is sensorless.\<close>

lemma commutate_eff:
  assumes "commutate b k m = Some m'"
  shows "bl_state m' = bl_state m \<and> bl_detect m' = bl_detect m \<and> bl_conf m' = bl_conf m \<and>
    (bl_state m = MC_STATE_RUNNING \<longrightarrow> fst (bridge_of m') = snd (bridge_of m')) \<and>
    (bl_state m \<noteq> MC_STATE_RUNNING \<longrightarrow> bridge_of m' = bridge_of m \<or> bridge_of m' = (fst (bridge_of m), fst (bridge_of m)))"
proof -
  obtain css where css: "arr_set_int (bl_last_pwm_cycles_sums m) (bl_comm_step m - 1) (bl_pwm_cycles_sum m) = Some css"
    using assms unfolding commutate_def by (elim bind_SomeE)
  define m1 where "m1 = m\<lparr>bl_last_pwm_cycles_sum := bl_pwm_cycles_sum m, bl_last_pwm_cycles_sums := css, bl_pwm_cycles_sum := 0, bl_pwm_cycles := 0\<rparr>"
  define m2 where "m2 = update_rpm_tacho (m1\<lparr>bl_comm_step := step_up (step_down (bl_comm_step m1 + k))\<rparr>)"
  have f1: "bl_state m1 = bl_state m" "bl_detect m1 = bl_detect m" "bridge_of m1 = bridge_of m" "bl_conf m1 = bl_conf m"
    by (simp_all add: m1_def bridge_of_def)
  have f2: "bl_state m2 = bl_state m" "bl_detect m2 = bl_detect m" "bridge_of m2 = bridge_of m" "bl_conf m2 = bl_conf m"
    unfolding m2_def update_rpm_tacho_eff by (simp_all add: f1 bridge_of_def) (simp_all add: m1_def)
  have c: "(if motor_type (bl_conf m1) = MOTOR_TYPE_BLDC \<and> bl_sensorless_now m1 then
            (if bl_state m2 \<noteq> MC_STATE_RUNNING then Some (update_sensor_mode m2) else finish_commutation b (set_next_comm_step (bl_comm_step m2) m2))
          else finish_commutation b m1) = Some m'"
    using assms unfolding commutate_def css Option.bind_lunit Let_def m2_def m1_def .
  consider "bl_state m \<noteq> MC_STATE_RUNNING" "m' = update_sensor_mode m2"
    | "bl_state m = MC_STATE_RUNNING" "finish_commutation b (set_next_comm_step (bl_comm_step m2) m2) = Some m'"
    | "finish_commutation b m1 = Some m'"
  proof (cases "motor_type (bl_conf m1) = MOTOR_TYPE_BLDC \<and> bl_sensorless_now m1")
    case True
    note c' = c [unfolded if_P [OF True]]
    show ?thesis
    proof (cases "bl_state m2 = MC_STATE_RUNNING")
      case r: True
      have "finish_commutation b (set_next_comm_step (bl_comm_step m2) m2) = Some m'" using c' r by simp
      then show ?thesis using that(2) r f2(1) by simp
    next
      case r: False
      then have "m' = update_sensor_mode m2" using c' by simp
      then show ?thesis using that(1) r f2(1) by simp
    qed
  next
    case False
    then show ?thesis using c that(3) by (simp only: if_False)
  qed
  then show ?thesis
  proof cases
    case 1
    then show ?thesis by (simp add: plain_commute_sensor f2)
  next
    case 2
    then show ?thesis using finish_commutation_eff [OF 2(2)] by (simp add: f2 set_next_comm_step_eff)
  next
    case 3
    then show ?thesis using finish_commutation_eff [OF 3] f1 by simp
  qed
qed

lemma inv_commutate [bl_keeps]:
  assumes "commutate b k m = Some m'" "bl_inv D m"
  shows "bl_inv D m'"
proof (cases "bl_state m = MC_STATE_RUNNING")
  case True
  then show ?thesis using commutate_eff [OF assms(1)] by (intro bl_inv_running [OF assms(2)]) auto
next
  case False
  have "fst (bridge_of m) = snd (bridge_of m)" using assms(2) by (simp add: bl_inv_def)
  then have "bridge_of m' = bridge_of m" using False commutate_eff [OF assms(1)] by (metis prod.collapse)
  then show ?thesis using commutate_eff [OF assms(1)] by (intro bl_inv_fields [OF _ _ _ assms(2)]) auto
qed

lemma inv_commutate_running:
  assumes "commutate b k (set_next_comm_step s m) = Some m'" "bl_inv D m" "bl_state m = MC_STATE_RUNNING"
  shows "bl_inv D m'"
  using commutate_eff [OF assms(1)] assms(3) by (intro bl_inv_running [OF assms(2)]) (auto simp: set_next_comm_step_eff)

lemma inv_brake [bl_keeps]: "full_brake_ll b m = Some m' \<Longrightarrow> bl_inv D m \<Longrightarrow> bl_inv D m'"
  by (blast intro: inv_full_brake_ll inv_det)

lemma inv_stop [bl_keeps]: "stop_pwm_ll b m = Some m' \<Longrightarrow> bl_inv D m \<Longrightarrow> bl_inv D m'"
  by (blast intro: inv_stop_pwm_ll inv_det)

lemma inv_hw [bl_keeps]: "set_duty_cycle_hw b d m = Some m' \<Longrightarrow> bl_inv D m \<Longrightarrow> bl_inv D m'"
  by (blast intro: bl_inv_plain plain_set_duty_cycle_hw)

lemma inv_freq [bl_keeps]: "set_switching_frequency b f m = Some m' \<Longrightarrow> bl_inv D m \<Longrightarrow> bl_inv D m'"
  by (blast intro: bl_inv_plain plain_set_switching_frequency)

lemma inv_start_motor [bl_keeps]:
  assumes "start_motor b m = Some m'" "bl_inv D m"
  shows "bl_inv D m'"
proof -
  have r: "bl_inv D (m\<lparr>bl_state := MC_STATE_RUNNING\<rparr>)" "bl_state (m\<lparr>bl_state := MC_STATE_RUNNING\<rparr>) = MC_STATE_RUNNING"
    using inv_run [OF assms(2)] by simp_all
  have r2: "bl_inv D (m\<lparr>bl_state := MC_STATE_RUNNING, bl_comm_step := s\<rparr>)" "bl_state (m\<lparr>bl_state := MC_STATE_RUNNING, bl_comm_step := s\<rparr>) = MC_STATE_RUNNING" for s
    using r(1) by simp_all
  show ?thesis using assms(1) unfolding start_motor_def Let_def
    by (elim runE) (use assms(2) inv_commutate_running [OF _ r] inv_commutate_running [OF _ r2] inv_commutate [OF _ r(1)] r(1) in \<open>blast+\<close>)
qed

lemma inv_ll [bl_keeps]:
  assumes "set_duty_cycle_ll b d m = Some m'" "bl_inv D m"
  shows "bl_inv D m'"
proof -
  define p where "p = (if d \<ge> l_min_duty (bl_conf m) then (d, m\<lparr>bl_direction := True\<rparr>)
                     else if d \<le> - l_min_duty (bl_conf m) then (- d, m\<lparr>bl_direction := False\<rparr>) else (d, m))"
  have i: "bl_inv D (snd p)" using assms(2) by (simp add: p_def)
  have go: "bl_inv D m'" if "(do { m2 \<leftarrow> set_duty_cycle_hw b e (snd p); start_motor b m2 }) = Some m'" for e
    using that by (elim bind_SomeE) (blast intro: inv_start_motor inv_hw i)
  show ?thesis using assms(1) unfolding set_duty_cycle_ll_def Let_def p_def [symmetric] case_prod_unfold
    by (elim if_SomeE) (use i go in \<open>auto split: mc_state.split_asm if_split_asm intro: inv_brake inv_stop\<close>)
qed

lemma inv_ramp_down [bl_keeps]: "brake_or_ramp_down b m = Some m' \<Longrightarrow> bl_inv D m \<Longrightarrow> bl_inv D m'"
  unfolding brake_or_ramp_down_def by (elim if_SomeE Some_SomeE) (simp_all add: inv_run inv_brake)

lemma inv_hl [bl_keeps]: "set_duty_cycle_hl b d m = Some m' \<Longrightarrow> bl_inv D m \<Longrightarrow> bl_inv D m'"
  unfolding set_duty_cycle_hl_def Let_def
  by (elim if_SomeE Some_SomeE; (erule inv_stop inv_ll inv_ramp_down)?; simp)

lemma inv_stop_pwm [bl_keeps]: "mcpwm_stop_pwm b m = Some m' \<Longrightarrow> bl_inv D m \<Longrightarrow> bl_inv D m'"
  unfolding mcpwm_stop_pwm_def by (erule inv_stop) simp

lemma inv_set_duty [bl_keeps]: "mcpwm_set_duty b d m = Some m' \<Longrightarrow> bl_inv D m \<Longrightarrow> bl_inv D m'"
  unfolding mcpwm_set_duty_def by (erule inv_hl) simp

lemma inv_noramp [bl_keeps]: "mcpwm_set_duty_noramp b d m = Some m' \<Longrightarrow> bl_inv D m \<Longrightarrow> bl_inv D m'"
  unfolding mcpwm_set_duty_noramp_def Let_def by (elim if_SomeE; erule inv_hl inv_ll; simp)

lemma inv_set_pid_pos [bl_keeps]: "mcpwm_set_pid_pos b p m = Some m' \<Longrightarrow> bl_inv D m \<Longrightarrow> bl_inv D m'"
  unfolding mcpwm_set_pid_pos_def Let_def by (elim if_SomeE Some_SomeE; (erule inv_hl)?; simp)

lemma inv_set_current [bl_keeps]: "mcpwm_set_current b c m = Some m' \<Longrightarrow> bl_inv D m \<Longrightarrow> bl_inv D m'"
  unfolding mcpwm_set_current_def Let_def by (elim if_SomeE Some_SomeE; (erule inv_stop_pwm inv_hl)?; simp)

lemma inv_set_brake_current [bl_keeps]: "mcpwm_set_brake_current b c m = Some m' \<Longrightarrow> bl_inv D m \<Longrightarrow> bl_inv D m'"
  unfolding mcpwm_set_brake_current_def Let_def by (elim if_SomeE Some_SomeE; (erule inv_stop_pwm inv_ramp_down)?; simp)

lemma inv_set_configuration [bl_keeps]: "mcpwm_set_configuration b c m = Some m' \<Longrightarrow> bl_inv D m \<Longrightarrow> bl_inv D m'"
  unfolding mcpwm_set_configuration_def mcpwm_init_hall_table_def
  by (elim bind_SomeE) (auto dest!: inv_stop_pwm simp: update_sensor_mode_def)

lemma inv_set_detect:
  assumes "mcpwm_set_detect b r m = Some m'" "bl_inv True m"
  shows "bl_inv True m'"
proof (cases "r = 0")
  case True
  then obtain m1 m2 where 1: "bl_stop_pwm_hw b (m\<lparr>bl_control_mode := CONTROL_MODE_NONE\<rparr>) = Some m1"
      "set_switching_frequency b MCPWM_SWITCH_FREQUENCY_MAX m1 = Some m2" and
    m': "m' = m2\<lparr>bl_state := MC_STATE_DETECTING, bl_detect := (bl_detect m2)\<lparr>det_currents := replicate 6 0, det_avg := replicate 6 0, det_avg_samples := replicate 6 0\<rparr>\<rparr>"
    using assms(1) unfolding mcpwm_set_detect_def by (elim if_SomeE bind_SomeE Some_SomeE) auto
  have "bridge_of m2 = (all_off, all_off)" using stop_pwm_hw_eff(1) [OF 1(1)] plain_eqD(3) [OF plain_set_switching_frequency [OF 1(2)]] by simp
  then show ?thesis unfolding m' by (simp add: bl_inv_def bridge_of_def)
qed (use assms in \<open>simp add: mcpwm_set_detect_def\<close>)

section \<open>Interrupts and threads keep the invariant\<close>

lemma inv_total_current [bl_keeps]: "total_current m = (c, m') \<Longrightarrow> bl_inv D m \<Longrightarrow> bl_inv D m'"
  by (auto simp: total_current_def Let_def split: if_split_asm prod.split_asm)

lemma inv_norm_currents [bl_keeps]: "bl_inv D (norm_currents b m) = bl_inv D m"
  by (simp add: norm_currents_def Let_def split: prod.split)

lemma bl_inv_stopped:
  assumes "bl_inv True m" "bl_state m' = bl_state m" "bridge_of m' = (all_off, all_off)"
  shows "bl_inv True m'"
  using assms by (simp add: bl_inv_def)

lemma bl_inv_detect: "bl_inv True (m\<lparr>bl_detect := d\<rparr>) = bl_inv True m"
  by (simp add: bl_inv_def bridge_of_def)

lemma inv_detect_sample:
  assumes "detect_sample b m = Some m'" "bl_inv True m"
  shows "bl_inv True m'"
proof -
  obtain d where "bl_stop_pwm_hw b (m\<lparr>bl_detect := d\<rparr>) = Some m'"
    using assms(1) unfolding detect_sample_def Let_def case_prod_unfold by (elim bind_SomeE)
  then show ?thesis using stop_pwm_hw_eff [of b "m\<lparr>bl_detect := d\<rparr>" m'] by (intro bl_inv_stopped [OF assms(2)]) auto
qed

lemma inv_detect_pulse:
  assumes "detect_pulse b m = Some m'" "IS_DETECTING m"
  shows "bl_inv True m'"
proof -
  obtain m1 where 1: "set_duty_cycle_hw b (fl 0.2) (m\<lparr>bl_detect := (bl_detect m)\<lparr>det_now := 5\<rparr>\<rparr>) = Some m1"
    "\<exists>k. m' = commutation_event (set_next_comm_step (k + 1) (m1\<lparr>bl_detect := (bl_detect m1)\<lparr>det_step := k\<rparr>, bl_comm_step := k + 1\<rparr>))"
    using assms(1) unfolding detect_pulse_def by (elim bind_SomeE) (auto simp: Let_def simp del: if_split)
  have "bl_state m1 = MC_STATE_DETECTING" using plain_eqD(1) [OF plain_set_duty_cycle_hw [OF 1(1)]] assms(2) by (simp add: IS_DETECTING_def)
  then have "bl_state m' = MC_STATE_DETECTING" using 1(2) by (auto simp: commutation_event_def)
  moreover have "fst (bridge_of m') = snd (bridge_of m')" using 1(2) by (auto simp: bridge_commutation)
  ultimately show ?thesis by (simp add: bl_inv_def)
qed

lemma inv_rotor_detection [bl_keeps]:
  assumes "rotor_detection b m = Some m'" "bl_inv D m"
  shows "bl_inv D m'"
proof (cases D)
  case True
  obtain m1 where 1: "(if det_now (bl_detect m) = 4 then detect_sample b m else Some m) = Some m1"
    and 2: "(let m2 = (if det_now (bl_detect m1) \<noteq> 0 then m1\<lparr>bl_detect := (bl_detect m1)\<lparr>det_now := det_now (bl_detect m1) - 1\<rparr>\<rparr> else m1) in
          if IS_DETECTING m2 \<and> det_now (bl_detect m2) = 0 then detect_pulse b m2 else Some m2) = Some m'"
    using assms(1) unfolding rotor_detection_def by (elim bind_SomeE)
  have "bl_inv True m1" using 1 assms(2) True inv_detect_sample by (auto split: if_split_asm)
  then have m2: "bl_inv True (if det_now (bl_detect m1) \<noteq> 0 then m1\<lparr>bl_detect := (bl_detect m1)\<lparr>det_now := det_now (bl_detect m1) - 1\<rparr>\<rparr> else m1)"
    by (simp add: bl_inv_detect)
  show ?thesis unfolding eqTrueI [OF True] using 2 unfolding Let_def by (elim if_SomeE Some_SomeE) (use m2 inv_detect_pulse in blast)+
next
  case False
  then show ?thesis using assms by (simp add: rotor_detection_def bl_inv_def IS_DETECTING_def Let_def)
qed

lemma inv_inj [bl_keeps]:
  assumes "mcpwm_adc_inj_int_handler b m = Some m'" "bl_inv D m"
  shows "bl_inv D m'"
proof -
  obtain c m1 where t: "total_current (norm_currents b m) = (c, m1)" by fastforce
  then have i: "bl_inv D m1" using inv_total_current assms(2) inv_norm_currents by blast
  show ?thesis using assms(1) i unfolding mcpwm_adc_inj_int_handler_def t Let_def prod.case
    by (elim bind_SomeE if_SomeE Some_SomeE) (auto dest: inv_rotor_detection)
qed

lemma inv_attempt [bl_keeps]: "bl_inv D m \<Longrightarrow> bl_inv D (update_timer_attempt m)"
  by (rule bl_inv_plain [OF plain_update_timer_attempt])

lemma inv_emit [simp]: "bl_inv D (bl_emit e m) = bl_inv D m"
  by (simp add: bl_emit_def)

lemma inv_tacho [simp]: "bl_inv D (update_rpm_tacho m) = bl_inv D m"
  by (simp add: bl_inv_def update_rpm_tacho_eff)

lemma inv_count_cycles [simp]: "bl_inv D (count_cycles m) = bl_inv D m"
  by (simp add: count_cycles_def Let_def)

lemma inv_stuck [bl_keeps]: "stuck b m = Some m' \<Longrightarrow> bl_inv D m \<Longrightarrow> bl_inv D m'"
  unfolding stuck_def by (elim if_SomeE bind_SomeE Some_SomeE) (auto dest: inv_commutate)

lemma inv_count_hall_sample [bl_keeps]: "count_hall_sample v m = Some m' \<Longrightarrow> bl_inv D m \<Longrightarrow> bl_inv D m'"
  unfolding count_hall_sample_def by (elim if_SomeE bind_SomeE Some_SomeE) simp_all

lemma inv_integrate_bemf [bl_keeps]: "integrate_bemf v r m = Some m' \<Longrightarrow> bl_inv D m \<Longrightarrow> bl_inv D m'"
  unfolding integrate_bemf_def Let_def by (elim if_SomeE bind_SomeE Some_SomeE) simp_all

lemma inv_commutate_integrate [bl_keeps]: "commutate_integrate b m = Some m' \<Longrightarrow> bl_inv D m \<Longrightarrow> bl_inv D m'"
  unfolding commutate_integrate_def Let_def by (elim if_SomeE bind_SomeE Some_SomeE) (auto dest: inv_commutate)

lemma inv_commutate_delay [bl_keeps]:
  assumes "commutate_delay b v m = Some m'" "bl_inv D m"
  shows "bl_inv D m'"
proof -
  have c: "bl_inv D m2" if "commutate b k (m\<lparr>bl_cycle_sum := x\<rparr>) = Some m2" for k x m2
    using inv_commutate [OF that] assms(2) by simp
  show ?thesis using assms unfolding commutate_delay_def Let_def by (elim if_SomeE bind_SomeE Some_SomeE) (auto dest: c)
qed

lemma inv_track_bemf [bl_keeps]: "track_bemf b m = Some m' \<Longrightarrow> bl_inv D m \<Longrightarrow> bl_inv D m'"
  unfolding track_bemf_def Let_def case_prod_unfold
  by (elim if_SomeE bind_SomeE Some_SomeE) (auto dest: inv_count_hall_sample inv_integrate_bemf inv_commutate_integrate inv_commutate_delay)

lemma inv_commutate_sensorless [bl_keeps]: "commutate_sensorless b m = Some m' \<Longrightarrow> bl_inv D m \<Longrightarrow> bl_inv D m'"
  unfolding commutate_sensorless_def by (elim bind_SomeE Some_SomeE) (auto dest: inv_stuck inv_track_bemf)

lemma inv_commutate_now [bl_keeps]: "commutate_now b m = Some m' \<Longrightarrow> bl_inv D m \<Longrightarrow> bl_state m = MC_STATE_RUNNING \<Longrightarrow> bl_inv D m'"
  unfolding commutate_now_def by (rule inv_commutate_running)

lemma inv_commutate_hall [bl_keeps]: "commutate_hall b m = Some m' \<Longrightarrow> bl_inv D m \<Longrightarrow> bl_inv D m'"
  unfolding commutate_hall_def Let_def
  by (elim bind_SomeE if_SomeE Some_SomeE; (erule inv_commutate_now)?) simp_all

lemma inv_bldc_step [bl_keeps]:
  assumes "bldc_step b m = Some m'" "bl_inv D m"
  shows "bl_inv D m'"
proof -
  have i: "bl_inv D (update_timer_attempt (m\<lparr>bl_vzero := virtual_ground m\<rparr>))" by (rule inv_attempt) (simp add: assms(2))
  show ?thesis using assms(1) unfolding bldc_step_def Let_def
    by (elim bind_SomeE if_SomeE) (erule inv_commutate_sensorless inv_commutate_hall, simp add: i)+
qed

lemma inv_dc_step [bl_keeps]: "dc_step b m = Some m' \<Longrightarrow> bl_inv D m \<Longrightarrow> bl_inv D m'"
  unfolding dc_step_def Let_def by (elim bind_SomeE if_SomeE Some_SomeE; (erule inv_commutate_now)?) simp_all

lemma inv_slow_ramp: "slow_ramp (s, m) = (s', m') \<Longrightarrow> bl_inv D m' = bl_inv D m"
  by (auto simp: slow_ramp_def split: if_split_asm)

lemma inv_current_step: "current_step m e v = Some (s, m') \<Longrightarrow> bl_inv D m' = bl_inv D m"
  unfolding current_step_def Let_def by (elim bind_SomeE) (auto dest: inv_slow_ramp)

lemma current_stepE:
  assumes "(do { (s, m1) \<leftarrow> current_step m e v; f s m1 }) = Some z"
  obtains s m1 where "f s m1 = Some z" "bl_inv D m1 = bl_inv D m"
  using assms by (elim bind_SomeE) (auto split: prod.split_asm dest: inv_current_step)

lemma inv_ramp_current: "ramp_current r v m = Some (d, m') \<Longrightarrow> bl_inv D m' = bl_inv D m"
  unfolding ramp_current_def Let_def by (erule current_stepE [where D = D]) (elim pair_SomeE, simp)

lemma inv_ramp_brake: "ramp_brake v m = Some (d, m') \<Longrightarrow> bl_inv D m' = bl_inv D m"
  unfolding ramp_brake_def Let_def if_distrib [of Some] by (erule current_stepE [where D = D]) (elim if_SomeE pair_SomeE; simp)

lemma inv_ramp_target: "ramp_target r v m = Some (d, m') \<Longrightarrow> bl_inv D m' = bl_inv D m"
  unfolding ramp_target_def by (elim if_SomeE pair_SomeE) (simp_all add: inv_ramp_current inv_ramp_brake)

lemma inv_limits [simp]: "bl_inv D (hold_direction r m) = bl_inv D m" "bl_inv D (restart_duty m) = bl_inv D m"
  "bl_inv D (take_duty d m) = bl_inv D m" "bl_inv D (limit_toward g s m) = bl_inv D m"
  by (simp_all add: hold_direction_def restart_duty_def take_duty_def limit_toward_def Let_def)

lemma inv_apply_limits [simp]: "bl_inv D (apply_limits n d m) = bl_inv D m"
  by (simp add: apply_limits_def Let_def)

lemma inv_ramp_duty [bl_keeps]:
  assumes "ramp_duty v m = Some m'" "bl_inv D m"
  shows "bl_inv D m'"
proof -
  obtain n vs p where 1: "ramp_target (fst (slow_ramp (n, m))) vs (snd (slow_ramp (n, m))) = Some p"
    and m': "m' = hold_direction (mcpwm_get_rpm m) (restart_duty (take_duty (fst p) (apply_limits n (fst p) (snd p))))"
    using assms(1) unfolding ramp_duty_def Let_def case_prod_unfold by (elim bind_SomeE Some_SomeE)
  have "bl_inv D (snd (slow_ramp (n, m)))" using inv_slow_ramp [of n m "fst (slow_ramp (n, m))" "snd (slow_ramp (n, m))" D] assms(2) by simp
  then have "bl_inv D (snd p)" using inv_ramp_target [of _ _ _ "fst p" "snd p"] 1 by simp
  then show ?thesis unfolding m' by simp
qed

lemma inv_control_duty [bl_keeps]: "control_duty b m = Some m' \<Longrightarrow> bl_inv D m \<Longrightarrow> bl_inv D m'"
  unfolding control_duty_def by (elim if_SomeE bind_SomeE Some_SomeE) (auto dest: inv_ramp_duty inv_ll)

lemma inv_pid_pos [bl_keeps]: "bl_run_pid_control_pos e dt m = Some m' \<Longrightarrow> bl_inv D m \<Longrightarrow> bl_inv D m'"
  unfolding bl_run_pid_control_pos_def Let_def case_prod_unfold by (elim if_SomeE bind_SomeE Some_SomeE) simp_all

lemma inv_pid_speed [bl_keeps]: "bl_run_pid_control_speed b m = Some m' \<Longrightarrow> bl_inv D m \<Longrightarrow> bl_inv D m'"
  unfolding bl_run_pid_control_speed_def Let_def case_prod_unfold
  by (elim if_SomeE bind_SomeE Some_SomeE; (erule inv_set_duty inv_hl)?) simp_all

lemma inv_adc [bl_keeps]:
  assumes "mcpwm_adc_int_handler b m = Some m'" "bl_inv D m"
  shows "bl_inv D m'"
proof -
  let ?m1 = "count_cycles (bl_emit bl_watchdog_reset (update_timer_attempt m))"
  obtain m2 m3 m5 where 2: "(if motor_type (bl_conf ?m1) = MOTOR_TYPE_BLDC then bldc_step b ?m1 else dc_step b ?m1) = Some m2"
    and 3: "control_duty b m2 = Some m3"
    and 5: "(case bl_encoder (bl_env (bl_emit bl_mc_timer_isr m3)) of None \<Rightarrow> Some (bl_emit bl_mc_timer_isr m3)
       | Some enc \<Rightarrow> do { dt \<leftarrow> fdiv 1 (bl_switching_frequency_now (bl_emit bl_mc_timer_isr m3)); bl_run_pid_control_pos enc dt (bl_emit bl_mc_timer_isr m3) }) = Some m5"
    and m': "\<exists>d. m' = m5\<lparr>bl_last_adc_isr_duration := d\<rparr>"
    using assms(1) unfolding mcpwm_adc_int_handler_def Let_def by (elim bind_SomeE Some_SomeE) blast
  have "bl_inv D ?m1" using inv_attempt [OF assms(2)] by simp
  then have "bl_inv D m2" using 2 by (auto split: if_split_asm dest: inv_bldc_step inv_dc_step)
  then have "bl_inv D (bl_emit bl_mc_timer_isr m3)" using inv_control_duty [OF 3] by simp
  then have "bl_inv D m5" using 5 by (auto split: option.split_asm elim!: bind_SomeE dest: inv_pid_pos)
  then show ?thesis using m' by auto
qed

lemma inv_rpm_thread [bl_keeps]:
  assumes "rpm_thread b m = Some m'" "bl_inv D m"
  shows "bl_inv D m'"
proof -
  have 1: "bl_inv D n' = bl_inv D n" if "measure_rpm n = Some n'" for n n'
    using that unfolding measure_rpm_def Let_def by (elim if_SomeE bind_SomeE) (auto split: option.split_asm if_split_asm)
  have 2: "bl_inv D n' = bl_inv D n" if "update_rpm_dep n = Some n'" for n n'
    using that unfolding update_rpm_dep_def Let_def by (elim bind_SomeE Some_SomeE) simp
  show ?thesis using assms unfolding rpm_thread_def Let_def
    by (elim if_SomeE bind_SomeE Some_SomeE) (auto dest!: 1 2 inv_pid_speed)
qed

lemma inv_timer_thread [bl_keeps]:
  assumes "bl_timer_thread b m = Some m'" "bl_inv D m"
  shows "bl_inv D m'"
proof -
  have 1: "bl_inv D n' = bl_inv D n" if "follow_bemf n = Some n'" for n n'
    using that unfolding follow_bemf_def Let_def case_prod_unfold
    by (elim if_SomeE bind_SomeE Some_SomeE) (simp_all add: track_direction_def)
  have 2: "bl_inv D n' = bl_inv D n" if "sample_kv b n = Some n'" for n n'
    using that unfolding sample_kv_def by (elim if_SomeE bind_SomeE Some_SomeE) simp_all
  show ?thesis using assms unfolding bl_timer_thread_def Let_def
    by (elim if_SomeE bind_SomeE Some_SomeE) (auto dest!: 1 2)
qed

section \<open>Runs\<close>

text \<open>A step: a command, an interrupt or an iteration of a thread, with whatever the peripherals show then. The flag allows rotor detection.\<close>

inductive bl_step :: "bl_board \<Rightarrow> bool \<Rightarrow> bldc \<Rightarrow> bldc \<Rightarrow> bool" for b :: bl_board and D :: bool where
  step_set_duty: "mcpwm_set_duty b d (env_step i m) = Some m' \<Longrightarrow> bl_step b D m m'"
| step_set_duty_noramp: "mcpwm_set_duty_noramp b d (env_step i m) = Some m' \<Longrightarrow> bl_step b D m m'"
| step_set_pid_speed: "mcpwm_set_pid_speed rpm (env_step i m) = m' \<Longrightarrow> bl_step b D m m'"
| step_set_pid_pos: "mcpwm_set_pid_pos b pos (env_step i m) = Some m' \<Longrightarrow> bl_step b D m m'"
| step_set_current: "mcpwm_set_current b c (env_step i m) = Some m' \<Longrightarrow> bl_step b D m m'"
| step_set_brake_current: "mcpwm_set_brake_current b c (env_step i m) = Some m' \<Longrightarrow> bl_step b D m m'"
| step_stop_pwm: "mcpwm_stop_pwm b (env_step i m) = Some m' \<Longrightarrow> bl_step b D m m'"
| step_set_configuration: "mcpwm_set_configuration b cf (env_step i m) = Some m' \<Longrightarrow> bl_step b D m m'"
| step_set_comm_mode: "mcpwm_set_comm_mode mode m = m' \<Longrightarrow> bl_step b D m m'"
| step_set_detect: "D \<Longrightarrow> mcpwm_set_detect b r (env_step i m) = Some m' \<Longrightarrow> bl_step b D m m'"
| step_reset_hall: "mcpwm_reset_hall_detect_table m = m' \<Longrightarrow> bl_step b D m m'"
| step_tachometer: "mcpwm_get_tachometer_value rst m = (k, m') \<Longrightarrow> bl_step b D m m'"
| step_tachometer_abs: "mcpwm_get_tachometer_abs_value rst m = (k, m') \<Longrightarrow> bl_step b D m m'"
| step_integrator: "mcpwm_read_reset_avg_cycle_integrator m = Some (x, m') \<Longrightarrow> bl_step b D m m'"
| step_detect_pos: "mcpwm_get_detect_pos asinf m = Some (x, m') \<Longrightarrow> bl_step b D m m'"
| step_interrupt: "bl_interrupt b irq m = Some m' \<Longrightarrow> bl_step b D m m'"
| step_rpm_thread: "rpm_thread b (env_step i m) = Some m' \<Longrightarrow> bl_step b D m m'"
| step_timer_thread: "bl_timer_thread b (env_step i m) = Some m' \<Longrightarrow> bl_step b D m m'"

lemma inv_env_step [simp]: "bl_inv D (env_step i m) = bl_inv D m"
  by (simp add: env_step_def bl_inv_def bridge_of_def)

lemma inv_readings [bl_keeps]:
  "mcpwm_get_tachometer_value rst m = (k, m1) \<Longrightarrow> bl_inv D m \<Longrightarrow> bl_inv D m1"
  "mcpwm_get_tachometer_abs_value rst m = (k, m1) \<Longrightarrow> bl_inv D m \<Longrightarrow> bl_inv D m1"
  "mcpwm_read_reset_avg_cycle_integrator m = Some (x, m1) \<Longrightarrow> bl_inv D m \<Longrightarrow> bl_inv D m1"
  by (auto simp: mcpwm_get_tachometer_value_def mcpwm_get_tachometer_abs_value_def mcpwm_read_reset_avg_cycle_integrator_def
      split: if_split_asm elim!: bind_SomeE)

lemma inv_detect_pos [bl_keeps]: "mcpwm_get_detect_pos f m = Some (x, m1) \<Longrightarrow> bl_inv D m \<Longrightarrow> bl_inv D m1"
  unfolding mcpwm_get_detect_pos_def Let_def by (elim bind_SomeE pair_SomeE) (simp add: bl_inv_def bridge_of_def)

lemma inv_interrupt [bl_keeps]: "bl_interrupt b irq m = Some m' \<Longrightarrow> bl_inv D m \<Longrightarrow> bl_inv D m'"
  by (cases irq) (auto dest: inv_inj inv_adc)

lemma inv_step: "bl_step b D m m' \<Longrightarrow> bl_inv D m \<Longrightarrow> bl_inv D m'"
proof (induction rule: bl_step.induct)
  case (step_set_detect r i m m')
  then show ?case using inv_set_detect [of b r "env_step i m" m'] by (cases D) auto
next
  case (step_set_pid_speed rpm i m m')
  then show ?case by (auto simp: mcpwm_set_pid_speed_def)
next
  case (step_set_comm_mode mode m m')
  then show ?case by (auto simp: mcpwm_set_comm_mode_def)
next
  case (step_reset_hall m m')
  then show ?case by (auto simp: mcpwm_reset_hall_detect_table_def)
qed (erule bl_keeps, simp)+

text \<open>C7: The states of the six-step driver. From a state that satisfies the invariant, such as the one after the start, over commands, interrupts and iterations of the threads in any order, with any readings: whenever the driver is off, all phases are
  open; whenever it brakes fully, all phases are shorted to ground, unless a rotor detection has been requested, which can open them again.\<close>

theorem bldc_states:
  assumes "bl_inv D m" "(bl_step b D)\<^sup>*\<^sup>* m m'"
  shows "out_active (bl_out m') = out_next (bl_out m') \<and>
    (bl_state m' = MC_STATE_OFF \<longrightarrow> out_active (bl_out m') = all_off) \<and>
    (bl_state m' = MC_STATE_FULL_BRAKE \<longrightarrow> out_active (bl_out m') = all_brake \<or> D \<and> out_active (bl_out m') = all_off) \<and>
    (bl_state m' = MC_STATE_DETECTING \<longrightarrow> D)"
proof -
  have "bl_inv D m'" using assms(2,1) by (induction rule: rtranclp_induct) (auto dest: inv_step)
  then show ?thesis by (auto simp: bl_inv_def bridge_of_def)
qed

lemma inv_example: "bl_inv False example"
  by (simp add: bl_inv_def bridge_of_def example_def bl_static_def outputs_zero_def all_off_def detect_zero_def Let_def)

theorem bldc_states_witness:
  "\<exists>m'. (bl_step bl_hw_410 False)\<^sup>*\<^sup>* example m' \<and> bl_state m' = MC_STATE_OFF \<and> bl_control_mode m' = CONTROL_MODE_SPEED \<and> out_active (bl_out m') = all_off"
proof -
  let ?m = "env_step (bl_env example) example"
  have "bl_step bl_hw_410 False example (mcpwm_set_pid_speed 1000 ?m)" by (rule step_set_pid_speed [OF refl])
  then have s: "(bl_step bl_hw_410 False)\<^sup>*\<^sup>* example (mcpwm_set_pid_speed 1000 ?m)" by (rule r_into_rtranclp)
  have o: "bl_state (mcpwm_set_pid_speed 1000 ?m) = MC_STATE_OFF" "bl_control_mode (mcpwm_set_pid_speed 1000 ?m) = CONTROL_MODE_SPEED"
    by (simp_all add: mcpwm_set_pid_speed_def env_step_def)
  with bldc_states [OF inv_example s] s show ?thesis by blast
qed

end
