(* ===== verification/BldcTotal.thy ===== *)
theory BldcTotal
  imports BldcInvariant FilterCorrect
begin

text \<open>
  The two interrupts of the six-step driver return: with a sane configuration, a sensor table whose readings have an entry, and a supply
  voltage, no access is outside an array, nothing is divided by zero and every conversion fits, whatever the currents and voltages are. On the way the bounds of the
  duty cycle, of the switching frequency and of the compare values are established.
\<close>

section \<open>Well-formed states\<close>

definition fir_ok :: "nat \<Rightarrow> fir \<Rightarrow> bool" where
  "fir_ok bits f \<longleftrightarrow> length (fir_samples f) = 2 ^ bits \<and> length (fir_coeffs f) = 2 ^ bits \<and> unat (fir_index f) < 2 ^ bits"

definition detect_ok :: "rotor_detect \<Rightarrow> bool" where
  "detect_ok d \<longleftrightarrow> 0 \<le> det_step d \<and> det_step d \<le> 5 \<and> length (det_currents d) = 6 \<and> length (det_voltages d) = 6 \<and>
     length (det_diff d) = 6 \<and> length (det_avg d) = 6 \<and> length (det_avg_samples d) = 6"

definition bl_conf_ok :: "mc_configuration \<Rightarrow> bool" where
  "bl_conf_ok cf \<longleftrightarrow> 0 < l_min_duty cf \<and> l_min_duty cf \<le> l_max_duty cf \<and> l_max_duty cf \<le> 1 \<and> sl_cycle_int_rpm_br cf \<noteq> 0 \<and>
     0 \<le> m_duty_ramp_step cf \<and> 0 \<le> m_duty_ramp_step_rpm_lim cf \<and> 0 \<le> m_current_backoff_gain cf"

definition freq_ok :: "real \<Rightarrow> bool" where "freq_ok f \<longleftrightarrow> 2900 \<le> f \<and> f \<le> 41000"
definition top_ok :: "u32 \<Rightarrow> bool" where "top_ok t \<longleftrightarrow> 4000 \<le> unat t \<and> unat t \<le> 58000"

text \<open>A step of the commutation that the sensor table gives for a reading.\<close>

definition step_ok :: "int \<Rightarrow> bool" where "step_ok s \<longleftrightarrow> 1 \<le> s \<and> s \<le> 6"

definition hall_index :: "bool \<times> bool \<times> bool \<Rightarrow> nat" where
  "hall_index = (\<lambda>(h1, h2, h3). (of_bool h1 OR push_bit 1 (of_bool h2)) OR push_bit 2 (of_bool h3))"

definition readings_ok :: "bl_board \<Rightarrow> bl_in \<Rightarrow> int list \<Rightarrow> bool" where
  "readings_ok b i table \<longleftrightarrow> length table = 16 \<and> step_ok (table ! hall_index (bl_hall i)) \<and> step_ok (table ! (hall_index (bl_hall i) + 8)) \<and>
     GET_INPUT_VOLTAGE (board.truncate b) (bl_vin i) \<noteq> 0 \<and> (case bl_encoder i of None \<Rightarrow> True | Some e \<Rightarrow> \<bar>e\<bar> \<le> 360)"

definition bl_board_ok :: "bl_board \<Rightarrow> bool" where
  "bl_board_ok b \<longleftrightarrow> fl (CURRENT_SHUNT_RES b * CURRENT_AMP_GAIN b) \<noteq> 0 \<and> bemf_unit b \<noteq> 0"

text \<open>Everything but the timer settings, and the timer settings.\<close>

definition bl_base :: "bldc \<Rightarrow> bool" where
  "bl_base m \<longleftrightarrow> bl_conf_ok (bl_conf m) \<and> step_ok (bl_comm_step m) \<and> \<bar>bl_dutycycle_now m\<bar> \<le> 1 \<and> \<bar>bl_dutycycle_set m\<bar> \<le> 1 \<and>
     length (bl_last_pwm_cycles_sums m) = 6 \<and> fir_ok KV_FIR_TAPS_BITS (bl_kv_fir m) \<and> fir_ok AMP_FIR_TAPS_BITS (bl_amp_fir m) \<and>
     fir_ok CURR_FIR_TAPS_BITS (bl_curr_fir m) \<and> detect_ok (bl_detect m) \<and> length (bl_hall_detect_table m) = 8 \<and>
     (\<forall>row \<in> set (bl_hall_detect_table m). length row = 7) \<and> \<bar>bl_pos_pid_set_pos m\<bar> \<le> 360"

definition bl_wf :: "bldc \<Rightarrow> bool" where
  "bl_wf m \<longleftrightarrow> bl_base m \<and> freq_ok (bl_switching_frequency_now m) \<and> top_ok (tm_top (bl_timer m))"

text \<open>An operation returns a well-formed state, and leaves the configuration, the sensor table and the readings.\<close>

definition same_inputs :: "bldc \<Rightarrow> bldc \<Rightarrow> bool" where
  "same_inputs m m' \<longleftrightarrow> bl_conf m' = bl_conf m \<and> bl_hall_to_phase_table m' = bl_hall_to_phase_table m \<and> bl_env m' = bl_env m"

definition returns :: "bl_board \<Rightarrow> bldc \<Rightarrow> bldc option \<Rightarrow> bool" where
  "returns b m r \<longleftrightarrow> (\<exists>m'. r = Some m' \<and> bl_wf m' \<and> same_inputs m m')"

definition ready :: "bl_board \<Rightarrow> bldc \<Rightarrow> bool" where
  "ready b m \<longleftrightarrow> bl_board_ok b \<and> bl_wf m \<and> readings_ok b (bl_env m) (bl_hall_to_phase_table m)"

lemma same_inputs_refl [simp]: "same_inputs m m" by (simp add: same_inputs_def)

lemma same_inputs_trans [trans]: "same_inputs m m' \<Longrightarrow> same_inputs m' m'' \<Longrightarrow> same_inputs m m''"
  by (simp add: same_inputs_def)

lemma ready_same: "ready b m \<Longrightarrow> same_inputs m m' \<Longrightarrow> bl_wf m' \<Longrightarrow> ready b m'"
  by (simp add: ready_def same_inputs_def)

lemma returns_bind:
  assumes "returns b m r" "ready b m" "\<And>m'. r = Some m' \<Longrightarrow> ready b m' \<Longrightarrow> same_inputs m m' \<Longrightarrow> returns b m' (f m')"
  shows "returns b m (r \<bind> f)"
proof -
  obtain m' where m': "r = Some m'" "bl_wf m'" "same_inputs m m'" using assms(1) by (auto simp: returns_def)
  from assms(3) [OF m'(1) ready_same [OF assms(2) m'(3,2)] m'(3)] show ?thesis
    using m'(1,3) by (auto simp: returns_def intro: same_inputs_trans)
qed

lemma returns_from: "same_inputs m m1 \<Longrightarrow> returns b m1 r \<Longrightarrow> returns b m r"
  by (auto simp: returns_def intro: same_inputs_trans)

lemma returns_Some: "ready b m' \<Longrightarrow> same_inputs m m' \<Longrightarrow> returns b m (Some m')"
  by (simp add: returns_def ready_def)

lemma base_plain: "plain m' = plain m \<Longrightarrow> bl_base m' = bl_base m \<and> same_inputs m m'"
proof -
  assume p: "plain m' = plain m"
  have "bl_base (plain n) = bl_base n" "bl_conf (plain n) = bl_conf n" "bl_hall_to_phase_table (plain n) = bl_hall_to_phase_table n"
    "bl_env (plain n) = bl_env n" for n by (simp_all add: plain_def bl_base_def)
  then show ?thesis unfolding same_inputs_def by (metis p)
qed

section \<open>Timer settings\<close>

declare of_nat_unat [simp del]

lemma of_u32_eq: "unat t \<le> 58000 \<Longrightarrow> of_u32 t = real (unat t)"
  using fl_of_int [of "int (unat t)"] by (simp add: of_u32_def)

lemma of_u32_le: "unat t \<le> 58000 \<Longrightarrow> 0 \<le> of_u32 t \<and> of_u32 t \<le> 58000"
  by (simp add: of_u32_eq)

lemma floor_u32:
  assumes "0 \<le> x" "x < real n" "n \<le> 2 ^ 32"
  shows "ftrunc x = \<lfloor>x\<rfloor>" "0 \<le> \<lfloor>x\<rfloor>" "\<lfloor>x\<rfloor> < int n" "real (unat (word_of_int \<lfloor>x\<rfloor> :: u32)) = of_int \<lfloor>x\<rfloor>"
proof -
  show f: "ftrunc x = \<lfloor>x\<rfloor>" "0 \<le> \<lfloor>x\<rfloor>" "\<lfloor>x\<rfloor> < int n" using assms by (simp_all add: ftrunc_def floor_less_iff)
  have "int n \<le> 2 ^ 32" using assms(3) by (metis of_nat_le_iff of_nat_numeral of_nat_power)
  then show "real (unat (word_of_int \<lfloor>x\<rfloor> :: u32)) = of_int \<lfloor>x\<rfloor>" using f by (intro real_unat_of_int) linarith+
qed

lemma f2u32_total:
  assumes "0 \<le> x" "x \<le> 100000"
  shows "f2u32 x = Some (word_of_int \<lfloor>x\<rfloor>)" "real (unat (word_of_int \<lfloor>x\<rfloor> :: u32)) = of_int \<lfloor>x\<rfloor>"
proof -
  have x: "x < real 100001" using assms(2) by simp
  note f = floor_u32 [OF assms(1) x]
  show "f2u32 x = Some (word_of_int \<lfloor>x\<rfloor>)" using f(1-3) by (simp add: f2u32_def)
  show "real (unat (word_of_int \<lfloor>x\<rfloor> :: u32)) = of_int \<lfloor>x\<rfloor>" using f(4) by simp
qed

lemma f2u16_total:
  assumes "0 \<le> x" "x \<le> 65000"
  shows "f2u16 x = Some (word_of_int \<lfloor>x\<rfloor>)" "real (unat (word_of_int \<lfloor>x\<rfloor> :: u32)) = of_int \<lfloor>x\<rfloor>"
proof -
  have x: "x < real 65001" using assms(2) by simp
  note f = floor_u32 [OF assms(1) x]
  show "f2u16 x = Some (word_of_int \<lfloor>x\<rfloor>)" using f(1-3) by (simp add: f2u16_def)
  show "real (unat (word_of_int \<lfloor>x\<rfloor> :: u32)) = of_int \<lfloor>x\<rfloor>" using f(4) by simp
qed

text \<open>A part of the period.\<close>

lemma period_part:
  assumes "unat t \<le> 58000" "0 \<le> d" "d \<le> 1"
  shows "0 \<le> fl (of_u32 t * d)" "fl (of_u32 t * d) \<le> of_u32 t" "of_u32 t \<le> 58000"
proof -
  note o = of_u32_le [OF assms(1)]
  have f: "is_f32 (of_u32 t)" by (simp add: of_u32_def fl_is_f32)
  have "0 \<le> of_u32 t * d" "of_u32 t * d \<le> of_u32 t" using o assms by (simp_all add: mult_left_le)
  then show "0 \<le> fl (of_u32 t * d)" "fl (of_u32 t * d) \<le> of_u32 t" by (simp_all add: f32.rnd_nonneg f32.rnd_le f)
  show "of_u32 t \<le> 58000" using o by simp
qed

lemma update_adc_sample_pos_total:
  assumes "bl_conf_ok (bl_conf m)" "unat (tm_top t) \<le> 58000"
  shows "\<exists>t' v. update_adc_sample_pos b t m = Some (t', m\<lparr>bl_curr_samp_volt := v\<rparr>) \<and> tm_top t' = tm_top t \<and> tm_duty t' = tm_duty t"
proof -
  have "0 \<le> l_max_duty (bl_conf m)" "l_max_duty (bl_conf m) \<le> 1" using assms(1) by (auto simp: bl_conf_ok_def)
  from period_part [OF assms(2) this] f2u32_total(1) [of "fl (of_u32 (tm_top t) * l_max_duty (bl_conf m))"]
  obtain w where w: "f2u32 (fl (of_u32 (tm_top t) * l_max_duty (bl_conf m))) = Some w" by auto
  show ?thesis unfolding update_adc_sample_pos_def w Let_def Option.bind_lunit case_prod_unfold by (intro exI conjI, rule refl) simp_all
qed

lemma attempt_timer: "tm_top (bl_timer (update_timer_attempt m)) = tm_top (bl_timer m)" "tm_duty (bl_timer (update_timer_attempt m)) = tm_duty (bl_timer m)"
  "bl_switching_frequency_now (update_timer_attempt m) = bl_switching_frequency_now m"
  by (simp_all add: update_timer_attempt_def Let_def)

lemma apply_timer_total:
  assumes "bl_conf_ok (bl_conf m)" "unat (tm_top t) \<le> 58000"
  shows "\<exists>m'. apply_timer b t m = Some m' \<and> plain m' = plain m \<and> tm_top (bl_timer m') = tm_top t \<and> tm_duty (bl_timer m') = tm_duty t \<and>
    bl_switching_frequency_now m' = bl_switching_frequency_now m"
proof -
  obtain t' v where u: "update_adc_sample_pos b t m = Some (t', m\<lparr>bl_curr_samp_volt := v\<rparr>)" "tm_top t' = tm_top t" "tm_duty t' = tm_duty t"
    using update_adc_sample_pos_total [OF assms] by blast
  have "apply_timer b t m = Some (set_next_timer_settings t' (m\<lparr>bl_curr_samp_volt := v\<rparr>))" by (simp add: apply_timer_def u(1))
  moreover from plain_apply_timer [OF this] have "plain (set_next_timer_settings t' (m\<lparr>bl_curr_samp_volt := v\<rparr>)) = plain m" .
  ultimately show ?thesis using u(2,3) by (auto simp: set_next_timer_settings_def attempt_timer)
qed

lemma timer_top_total:
  assumes "freq_ok f"
  shows "\<exists>t. timer_top f = Some t \<and> top_ok t \<and> unat t = nat (168000000 div \<lfloor>f\<rfloor>)"
proof -
  define k where "k = \<lfloor>f\<rfloor>"
  have k: "2900 \<le> k" "k \<le> 41000" using assms unfolding freq_ok_def k_def by (simp_all add: le_floor_iff floor_le_iff)
  have f: "f2i32 f = Some (word_of_int k)" "sint (word_of_int k :: u32) = k"
    using k assms by (simp_all add: f2i32_def freq_ok_def ftrunc_def k_def sint_sbintrunc' signed_take_bit_int_eq_self)
  have d: "4000 \<le> 168000000 div k" "168000000 div k \<le> 58000"
    using k zdiv_mono2 [of 168000000 k 41000] zdiv_mono2 [of 168000000 2900 k] by auto
  have c: "c_div 168000000 k = 168000000 div k" using k by (simp add: c_div_def)
  have nz: "(word_of_int k :: u32) \<noteq> 0" using f(2) k by (metis signed_0 not_one_le_zero order_trans one_le_numeral)
  have "timer_top f = Some (word_of_int (168000000 div k))"
    using nz by (simp add: timer_top_def f SYSTEM_CORE_CLOCK_def c)
  moreover have "unat (word_of_int (168000000 div k) :: u32) = nat (168000000 div k)" using d by (simp add: unat_eq_nat_uint uint_word_of_int)
  ultimately show ?thesis using d unfolding k_def [symmetric] by (simp add: top_ok_def nat_le_iff le_nat_iff)
qed

lemma same_irrelevant [simp]:
  "same_inputs m (m'\<lparr>bl_comm_step := x0\<rparr>) = same_inputs m m'"
  "same_inputs m (m'\<lparr>bl_direction := x1\<rparr>) = same_inputs m m'"
  "same_inputs m (m'\<lparr>bl_dutycycle_set := x2\<rparr>) = same_inputs m m'"
  "same_inputs m (m'\<lparr>bl_dutycycle_now := x3\<rparr>) = same_inputs m m'"
  "same_inputs m (m'\<lparr>bl_rpm_now := x4\<rparr>) = same_inputs m m'"
  "same_inputs m (m'\<lparr>bl_speed_pid_set_rpm := x5\<rparr>) = same_inputs m m'"
  "same_inputs m (m'\<lparr>bl_pos_pid_set_pos := x6\<rparr>) = same_inputs m m'"
  "same_inputs m (m'\<lparr>bl_current_set := x7\<rparr>) = same_inputs m m'"
  "same_inputs m (m'\<lparr>bl_control_mode := x8\<rparr>) = same_inputs m m'"
  "same_inputs m (m'\<lparr>bl_last_current_sample := x9\<rparr>) = same_inputs m m'"
  "same_inputs m (m'\<lparr>bl_last_current_sample_filtered := x10\<rparr>) = same_inputs m m'"
  "same_inputs m (m'\<lparr>bl_switching_frequency_now := x11\<rparr>) = same_inputs m m'"
  "same_inputs m (m'\<lparr>bl_cycles_running := x12\<rparr>) = same_inputs m m'"
  "same_inputs m (m'\<lparr>bl_slow_ramping_cycles := x13\<rparr>) = same_inputs m m'"
  "same_inputs m (m'\<lparr>bl_has_commutated := x14\<rparr>) = same_inputs m m'"
  "same_inputs m (m'\<lparr>bl_rpm_dep := x15\<rparr>) = same_inputs m m'"
  "same_inputs m (m'\<lparr>bl_cycle_integrator_sum := x16\<rparr>) = same_inputs m m'"
  "same_inputs m (m'\<lparr>bl_cycle_integrator_iterations := x17\<rparr>) = same_inputs m m'"
  "same_inputs m (m'\<lparr>bl_pwm_cycles_sum := x18\<rparr>) = same_inputs m m'"
  "same_inputs m (m'\<lparr>bl_pwm_cycles := x19\<rparr>) = same_inputs m m'"
  "same_inputs m (m'\<lparr>bl_hall_detect_table := x20\<rparr>) = same_inputs m m'"
  "same_inputs m (m'\<lparr>bl_kv_fir := x21\<rparr>) = same_inputs m m'"
  "same_inputs m (m'\<lparr>bl_amp_fir := x22\<rparr>) = same_inputs m m'"
  "same_inputs m (m'\<lparr>bl_curr_fir := x23\<rparr>) = same_inputs m m'"
  "same_inputs m (m'\<lparr>bl_last_adc_isr_duration := x24\<rparr>) = same_inputs m m'"
  "same_inputs m (m'\<lparr>bl_last_inj_adc_isr_duration := x25\<rparr>) = same_inputs m m'"
  "same_inputs m (m'\<lparr>bl_vzero := x26\<rparr>) = same_inputs m m'"
  "same_inputs m (m'\<lparr>bl_timer_thd_stop := x27\<rparr>) = same_inputs m m'"
  "same_inputs m (m'\<lparr>bl_rpm_thd_stop := x28\<rparr>) = same_inputs m m'"
  "same_inputs m (m'\<lparr>bl_speed_pid := x29\<rparr>) = same_inputs m m'"
  "same_inputs m (m'\<lparr>bl_pos_pid := x30\<rparr>) = same_inputs m m'"
  "same_inputs m (m'\<lparr>bl_rpm_p1 := x31\<rparr>) = same_inputs m m'"
  "same_inputs m (m'\<lparr>bl_cnt_tmp := x32\<rparr>) = same_inputs m m'"
  "same_inputs m (m'\<lparr>bl_comm_step_prev := x33\<rparr>) = same_inputs m m'"
  "same_inputs m (m'\<lparr>bl_prev_tot_sample := x34\<rparr>) = same_inputs m m'"
  "same_inputs m (m'\<lparr>bl_direction_before := x35\<rparr>) = same_inputs m m'"
  "same_inputs m (m'\<lparr>bl_cycle_integrator := x36\<rparr>) = same_inputs m m'"
  "same_inputs m (m'\<lparr>bl_cycle_sum := x37\<rparr>) = same_inputs m m'"
  "same_inputs m (m'\<lparr>bl_limit_delay := x38\<rparr>) = same_inputs m m'"
  "same_inputs m (m'\<lparr>bl_curr_norm := x39\<rparr>) = same_inputs m m'"
  "same_inputs m (m'\<lparr>bl_events := x40\<rparr>) = same_inputs m m'"
  "same_inputs m (m'\<lparr>bl_tachometer := x41\<rparr>) = same_inputs m m'"
  "same_inputs m (m'\<lparr>bl_tachometer_abs := x42\<rparr>) = same_inputs m m'"
  "same_inputs m (m'\<lparr>bl_tachometer_for_direction := x43\<rparr>) = same_inputs m m'"
  "same_inputs m (m'\<lparr>bl_sensorless_now := x44\<rparr>) = same_inputs m m'"
  "same_inputs m (m'\<lparr>bl_curr0_sum := x45\<rparr>) = same_inputs m m'"
  "same_inputs m (m'\<lparr>bl_curr1_sum := x46\<rparr>) = same_inputs m m'"
  "same_inputs m (m'\<lparr>bl_curr_start_samples := x47\<rparr>) = same_inputs m m'"
  "same_inputs m (m'\<lparr>bl_state := x48\<rparr>) = same_inputs m m'"
  "same_inputs m (m'\<lparr>bl_ignore_iterations := x49\<rparr>) = same_inputs m m'"
  "same_inputs m (m'\<lparr>bl_out := x50\<rparr>) = same_inputs m m'"
  "same_inputs m (m'\<lparr>bl_last_step := x51\<rparr>) = same_inputs m m'"
  "same_inputs m (m'\<lparr>bl_last_pwm_cycles_sum := x52\<rparr>) = same_inputs m m'"
  "same_inputs m (m'\<lparr>bl_last_pwm_cycles_sums := x53\<rparr>) = same_inputs m m'"
  "same_inputs m (m'\<lparr>bl_detect := x54\<rparr>) = same_inputs m m'"
  "same_inputs m (m'\<lparr>bl_timer := x55\<rparr>) = same_inputs m m'"
  "same_inputs m (m'\<lparr>bl_curr_samp_volt := x56\<rparr>) = same_inputs m m'"
  by (simp_all add: same_inputs_def)

lemma wf_irrelevant [simp]:
  "bl_wf (m\<lparr>bl_direction := x0\<rparr>) = bl_wf m"
  "bl_wf (m\<lparr>bl_rpm_now := x1\<rparr>) = bl_wf m"
  "bl_wf (m\<lparr>bl_speed_pid_set_rpm := x2\<rparr>) = bl_wf m"
  "bl_wf (m\<lparr>bl_current_set := x3\<rparr>) = bl_wf m"
  "bl_wf (m\<lparr>bl_control_mode := x4\<rparr>) = bl_wf m"
  "bl_wf (m\<lparr>bl_last_current_sample := x5\<rparr>) = bl_wf m"
  "bl_wf (m\<lparr>bl_last_current_sample_filtered := x6\<rparr>) = bl_wf m"
  "bl_wf (m\<lparr>bl_hall_to_phase_table := x7\<rparr>) = bl_wf m"
  "bl_wf (m\<lparr>bl_cycles_running := x8\<rparr>) = bl_wf m"
  "bl_wf (m\<lparr>bl_slow_ramping_cycles := x9\<rparr>) = bl_wf m"
  "bl_wf (m\<lparr>bl_has_commutated := x10\<rparr>) = bl_wf m"
  "bl_wf (m\<lparr>bl_rpm_dep := x11\<rparr>) = bl_wf m"
  "bl_wf (m\<lparr>bl_cycle_integrator_sum := x12\<rparr>) = bl_wf m"
  "bl_wf (m\<lparr>bl_cycle_integrator_iterations := x13\<rparr>) = bl_wf m"
  "bl_wf (m\<lparr>bl_pwm_cycles_sum := x14\<rparr>) = bl_wf m"
  "bl_wf (m\<lparr>bl_pwm_cycles := x15\<rparr>) = bl_wf m"
  "bl_wf (m\<lparr>bl_last_adc_isr_duration := x16\<rparr>) = bl_wf m"
  "bl_wf (m\<lparr>bl_last_inj_adc_isr_duration := x17\<rparr>) = bl_wf m"
  "bl_wf (m\<lparr>bl_vzero := x18\<rparr>) = bl_wf m"
  "bl_wf (m\<lparr>bl_timer_thd_stop := x19\<rparr>) = bl_wf m"
  "bl_wf (m\<lparr>bl_rpm_thd_stop := x20\<rparr>) = bl_wf m"
  "bl_wf (m\<lparr>bl_speed_pid := x21\<rparr>) = bl_wf m"
  "bl_wf (m\<lparr>bl_pos_pid := x22\<rparr>) = bl_wf m"
  "bl_wf (m\<lparr>bl_rpm_p1 := x23\<rparr>) = bl_wf m"
  "bl_wf (m\<lparr>bl_cnt_tmp := x24\<rparr>) = bl_wf m"
  "bl_wf (m\<lparr>bl_comm_step_prev := x25\<rparr>) = bl_wf m"
  "bl_wf (m\<lparr>bl_prev_tot_sample := x26\<rparr>) = bl_wf m"
  "bl_wf (m\<lparr>bl_direction_before := x27\<rparr>) = bl_wf m"
  "bl_wf (m\<lparr>bl_cycle_integrator := x28\<rparr>) = bl_wf m"
  "bl_wf (m\<lparr>bl_cycle_sum := x29\<rparr>) = bl_wf m"
  "bl_wf (m\<lparr>bl_limit_delay := x30\<rparr>) = bl_wf m"
  "bl_wf (m\<lparr>bl_curr_norm := x31\<rparr>) = bl_wf m"
  "bl_wf (m\<lparr>bl_env := x32\<rparr>) = bl_wf m"
  "bl_wf (m\<lparr>bl_events := x33\<rparr>) = bl_wf m"
  "bl_wf (m\<lparr>bl_tachometer := x34\<rparr>) = bl_wf m"
  "bl_wf (m\<lparr>bl_tachometer_abs := x35\<rparr>) = bl_wf m"
  "bl_wf (m\<lparr>bl_tachometer_for_direction := x36\<rparr>) = bl_wf m"
  "bl_wf (m\<lparr>bl_sensorless_now := x37\<rparr>) = bl_wf m"
  "bl_wf (m\<lparr>bl_curr0_sum := x38\<rparr>) = bl_wf m"
  "bl_wf (m\<lparr>bl_curr1_sum := x39\<rparr>) = bl_wf m"
  "bl_wf (m\<lparr>bl_curr_start_samples := x40\<rparr>) = bl_wf m"
  "bl_wf (m\<lparr>bl_state := x41\<rparr>) = bl_wf m"
  "bl_wf (m\<lparr>bl_ignore_iterations := x42\<rparr>) = bl_wf m"
  "bl_wf (m\<lparr>bl_out := x43\<rparr>) = bl_wf m"
  "bl_wf (m\<lparr>bl_last_step := x44\<rparr>) = bl_wf m"
  "bl_wf (m\<lparr>bl_last_pwm_cycles_sum := x45\<rparr>) = bl_wf m"
  "bl_wf (m\<lparr>bl_curr_samp_volt := x46\<rparr>) = bl_wf m"
  by (simp_all add: bl_wf_def bl_base_def)

lemma ready_irrelevant [simp]:
  "ready b (m\<lparr>bl_direction := x0\<rparr>) = ready b m"
  "ready b (m\<lparr>bl_rpm_now := x1\<rparr>) = ready b m"
  "ready b (m\<lparr>bl_speed_pid_set_rpm := x2\<rparr>) = ready b m"
  "ready b (m\<lparr>bl_current_set := x3\<rparr>) = ready b m"
  "ready b (m\<lparr>bl_control_mode := x4\<rparr>) = ready b m"
  "ready b (m\<lparr>bl_last_current_sample := x5\<rparr>) = ready b m"
  "ready b (m\<lparr>bl_last_current_sample_filtered := x6\<rparr>) = ready b m"
  "ready b (m\<lparr>bl_cycles_running := x7\<rparr>) = ready b m"
  "ready b (m\<lparr>bl_slow_ramping_cycles := x8\<rparr>) = ready b m"
  "ready b (m\<lparr>bl_has_commutated := x9\<rparr>) = ready b m"
  "ready b (m\<lparr>bl_rpm_dep := x10\<rparr>) = ready b m"
  "ready b (m\<lparr>bl_cycle_integrator_sum := x11\<rparr>) = ready b m"
  "ready b (m\<lparr>bl_cycle_integrator_iterations := x12\<rparr>) = ready b m"
  "ready b (m\<lparr>bl_pwm_cycles_sum := x13\<rparr>) = ready b m"
  "ready b (m\<lparr>bl_pwm_cycles := x14\<rparr>) = ready b m"
  "ready b (m\<lparr>bl_last_adc_isr_duration := x15\<rparr>) = ready b m"
  "ready b (m\<lparr>bl_last_inj_adc_isr_duration := x16\<rparr>) = ready b m"
  "ready b (m\<lparr>bl_vzero := x17\<rparr>) = ready b m"
  "ready b (m\<lparr>bl_timer_thd_stop := x18\<rparr>) = ready b m"
  "ready b (m\<lparr>bl_rpm_thd_stop := x19\<rparr>) = ready b m"
  "ready b (m\<lparr>bl_speed_pid := x20\<rparr>) = ready b m"
  "ready b (m\<lparr>bl_pos_pid := x21\<rparr>) = ready b m"
  "ready b (m\<lparr>bl_rpm_p1 := x22\<rparr>) = ready b m"
  "ready b (m\<lparr>bl_cnt_tmp := x23\<rparr>) = ready b m"
  "ready b (m\<lparr>bl_comm_step_prev := x24\<rparr>) = ready b m"
  "ready b (m\<lparr>bl_prev_tot_sample := x25\<rparr>) = ready b m"
  "ready b (m\<lparr>bl_direction_before := x26\<rparr>) = ready b m"
  "ready b (m\<lparr>bl_cycle_integrator := x27\<rparr>) = ready b m"
  "ready b (m\<lparr>bl_cycle_sum := x28\<rparr>) = ready b m"
  "ready b (m\<lparr>bl_limit_delay := x29\<rparr>) = ready b m"
  "ready b (m\<lparr>bl_curr_norm := x30\<rparr>) = ready b m"
  "ready b (m\<lparr>bl_events := x31\<rparr>) = ready b m"
  "ready b (m\<lparr>bl_tachometer := x32\<rparr>) = ready b m"
  "ready b (m\<lparr>bl_tachometer_abs := x33\<rparr>) = ready b m"
  "ready b (m\<lparr>bl_tachometer_for_direction := x34\<rparr>) = ready b m"
  "ready b (m\<lparr>bl_sensorless_now := x35\<rparr>) = ready b m"
  "ready b (m\<lparr>bl_curr0_sum := x36\<rparr>) = ready b m"
  "ready b (m\<lparr>bl_curr1_sum := x37\<rparr>) = ready b m"
  "ready b (m\<lparr>bl_curr_start_samples := x38\<rparr>) = ready b m"
  "ready b (m\<lparr>bl_state := x39\<rparr>) = ready b m"
  "ready b (m\<lparr>bl_ignore_iterations := x40\<rparr>) = ready b m"
  "ready b (m\<lparr>bl_out := x41\<rparr>) = ready b m"
  "ready b (m\<lparr>bl_last_step := x42\<rparr>) = ready b m"
  "ready b (m\<lparr>bl_last_pwm_cycles_sum := x43\<rparr>) = ready b m"
  "ready b (m\<lparr>bl_curr_samp_volt := x44\<rparr>) = ready b m"
  by (simp_all add: ready_def)

section \<open>Low-level operations return\<close>

lemma readyD:
  assumes "ready b m"
  shows "bl_conf_ok (bl_conf m)" "step_ok (bl_comm_step m)" "freq_ok (bl_switching_frequency_now m)" "top_ok (tm_top (bl_timer m))"
    "length (bl_last_pwm_cycles_sums m) = 6" "\<bar>bl_dutycycle_now m\<bar> \<le> 1" "\<bar>bl_dutycycle_set m\<bar> \<le> 1" "bl_board_ok b"
    "readings_ok b (bl_env m) (bl_hall_to_phase_table m)"
  using assms by (simp_all add: ready_def bl_wf_def bl_base_def)

lemma returns_retimed:
  assumes "ready b m" "plain m' = plain m" "freq_ok (bl_switching_frequency_now m')" "top_ok (tm_top (bl_timer m'))"
  shows "returns b m (Some m')"
  using assms base_plain [OF assms(2)] by (simp add: returns_def ready_def bl_wf_def)

lemma apply_timer_returns:
  assumes "ready b m" "top_ok (tm_top t)" "freq_ok f"
  shows "returns b m (apply_timer b t (m\<lparr>bl_switching_frequency_now := f\<rparr>))"
proof -
  let ?m = "m\<lparr>bl_switching_frequency_now := f\<rparr>"
  have "bl_conf_ok (bl_conf ?m)" "unat (tm_top t) \<le> 58000" using readyD(1) [OF assms(1)] assms(2) by (simp_all add: top_ok_def)
  from apply_timer_total [OF this, of b] obtain m' where m': "apply_timer b t ?m = Some m'" "plain m' = plain ?m"
    "tm_top (bl_timer m') = tm_top t" "bl_switching_frequency_now m' = f" by auto
  show ?thesis unfolding m'(1) using m' assms by (intro returns_retimed) (simp_all add: plain_frequency)
qed

lemma apply_timer_returns': "ready b m \<Longrightarrow> top_ok (tm_top t) \<Longrightarrow> returns b m (apply_timer b t m)"
  using apply_timer_returns [of b m t "bl_switching_frequency_now m"] readyD(3) by simp

lemma set_frequency_returns:
  assumes "ready b m" "freq_ok f"
  shows "returns b m (set_switching_frequency b f m)"
proof -
  obtain tp where "timer_top f = Some tp" "top_ok tp" using timer_top_total [OF assms(2)] by blast
  then show ?thesis using apply_timer_returns [OF assms(1) _ assms(2), of "(bl_timer m)\<lparr>tm_top := tp\<rparr>"]
    by (simp add: set_switching_frequency_def)
qed

lemma freq_max: "freq_ok MCPWM_SWITCH_FREQUENCY_MAX" by (simp add: freq_ok_def MCPWM_SWITCH_FREQUENCY_MAX_def)

lemma ready_write [simp]: "ready b (write_channels cs m) = ready b m" "same_inputs m' (write_channels cs m) = same_inputs m' m"
  by (simp_all add: write_channels_def)

lemma ready_event [simp]: "ready b (commutation_event m) = ready b m" "same_inputs m' (commutation_event m) = same_inputs m' m"
  by (simp_all add: commutation_event_def)

lemma stop_hw_returns: "ready b m \<Longrightarrow> returns b m (bl_stop_pwm_hw b m)"
  unfolding bl_stop_pwm_hw_def by (rule returns_from [OF _ set_frequency_returns [OF _ freq_max]]) simp_all

lemma brake_hw_returns: "ready b m \<Longrightarrow> returns b m (full_brake_hw b m)"
  unfolding full_brake_hw_def by (rule returns_from [OF _ set_frequency_returns [OF _ freq_max]]) simp_all

lemma stop_ll_returns: "ready b m \<Longrightarrow> returns b m (stop_pwm_ll b m)"
  unfolding stop_pwm_ll_def by (rule returns_from [OF _ stop_hw_returns]) simp_all

lemma brake_ll_returns: "ready b m \<Longrightarrow> returns b m (full_brake_ll b m)"
  unfolding full_brake_ll_def by (rule returns_from [OF _ brake_hw_returns]) simp_all

lemma ready_sensor [simp]: "ready b (update_sensor_mode m) = ready b m" "same_inputs m' (update_sensor_mode m) = same_inputs m' m"
  by (simp_all add: update_sensor_mode_def)

lemma ready_tacho [simp]: "ready b (update_rpm_tacho m) = ready b m" "same_inputs m' (update_rpm_tacho m) = same_inputs m' m"
  by (simp_all add: update_rpm_tacho_def Let_def)

lemma ready_set_next [simp]: "ready b (set_next_comm_step s m) = ready b m" "same_inputs m' (set_next_comm_step s m) = same_inputs m' m"
  by (simp_all add: set_next_comm_step_def split: option.split)

lemma ready_comm_step [simp]: "ready b m \<Longrightarrow> step_ok s \<Longrightarrow> ready b (m\<lparr>bl_comm_step := s\<rparr>)"
  by (simp add: ready_def bl_wf_def bl_base_def)

lemma finish_returns:
  assumes "ready b m"
  shows "returns b m (finish_commutation b m)"
  unfolding finish_commutation_def
proof (rule returns_from [OF _ returns_bind])
  let ?m = "(commutation_event m)\<lparr>bl_has_commutated := True\<rparr>"
  show "same_inputs m ?m" by simp
  show r: "ready b ?m" using assms by simp
  show "returns b ?m (apply_timer b (bl_timer m) ?m)" using apply_timer_returns' [OF r] readyD(4) [OF assms] by simp
qed (rule returns_Some; simp)

lemma step_ok_index: "step_ok s \<Longrightarrow> length xs = 6 \<Longrightarrow> arr_set_int xs (s - 1) x = Some (xs[nat (s - 1) := x])"
  by (simp add: step_ok_def arr_set_int_def arr_set_def nat_less_iff)

lemma ready_sums: "ready b m \<Longrightarrow> length s = 6 \<Longrightarrow> ready b (m\<lparr>bl_last_pwm_cycles_sums := s\<rparr>)"
  by (simp add: ready_def bl_wf_def bl_base_def)

lemma wrap_ok: "step_ok (step_up (step_down s))"
  by (simp add: step_ok_def wrap_step_range)

lemma commutate_returns:
  assumes "ready b m"
  shows "returns b m (commutate b k m)"
proof -
  note d = readyD [OF assms]
  define m1 where "m1 = m\<lparr>bl_last_pwm_cycles_sum := bl_pwm_cycles_sum m,
    bl_last_pwm_cycles_sums := (bl_last_pwm_cycles_sums m)[nat (bl_comm_step m - 1) := bl_pwm_cycles_sum m], bl_pwm_cycles_sum := 0, bl_pwm_cycles := 0\<rparr>"
  define m2 where "m2 = update_rpm_tacho (m1\<lparr>bl_comm_step := step_up (step_down (bl_comm_step m1 + k))\<rparr>)"
  have r1: "ready b m1" "same_inputs m m1" unfolding m1_def using ready_sums [of b "m\<lparr>bl_last_pwm_cycles_sum := bl_pwm_cycles_sum m\<rparr>"] assms d(5) by simp_all
  have r2: "ready b m2" "same_inputs m m2" unfolding m2_def using r1 by (simp_all add: wrap_ok)
  have c: "commutate b k m = (if motor_type (bl_conf m1) = MOTOR_TYPE_BLDC \<and> bl_sensorless_now m1 then
            (if bl_state m2 \<noteq> MC_STATE_RUNNING then Some (update_sensor_mode m2) else finish_commutation b (set_next_comm_step (bl_comm_step m2) m2))
          else finish_commutation b m1)"
    unfolding commutate_def step_ok_index [OF d(2,5)] Option.bind_lunit Let_def m2_def m1_def ..
  have "returns b m (finish_commutation b (set_next_comm_step (bl_comm_step m2) m2))"
    by (rule returns_from [OF _ finish_returns]) (simp_all add: r2)
  moreover have "returns b m (finish_commutation b m1)" by (rule returns_from [OF r1(2) finish_returns [OF r1(1)]])
  moreover have "returns b m (Some (update_sensor_mode m2))" by (rule returns_Some) (simp_all add: r2)
  ultimately show ?thesis unfolding c by simp
qed

section \<open>The duty cycle\<close>

lemma truncated_duty: "bl_conf_ok cf \<Longrightarrow> 0 \<le> truncated d (l_min_duty cf) (l_max_duty cf) \<and> truncated d (l_min_duty cf) (l_max_duty cf) \<le> 1"
  using truncated_range [of "l_min_duty cf" "l_max_duty cf" d] by (auto simp: bl_conf_ok_def)

lemma switching_frequency_ok:
  assumes "0 \<le> d" "d \<le> 1"
  shows "freq_ok (switching_frequency cf det d)"
proof -
  define x where "x = fl (1 - d)"
  have x: "0 \<le> x" "x \<le> 1" "1 - d - 1 / 2 ^ 24 \<le> x" "x \<le> 1 - d + 1 / 2 ^ 24"
    unfolding x_def using assms fl_within [of "1 - d" 1] by (auto intro: f32.rnd_nonneg f32.rnd_le is_f32_1)
  have a: "3000 * x - 3000 / 2 ^ 24 \<le> fl (3000 * x)" "fl (3000 * x) \<le> 3000 * x + 3000 / 2 ^ 24"
    using x by (intro fl_within; simp)+
  have b: "40000 * d - 40000 / 2 ^ 24 \<le> fl (40000 * d)" "fl (40000 * d) \<le> 40000 * d + 40000 / 2 ^ 24"
    using assms by (intro fl_within; simp)+
  have y: "2999 \<le> fl (3000 * x) + fl (40000 * d)" "fl (3000 * x) + fl (40000 * d) \<le> 40001" using a b x assms by simp_all
  have "2999 \<le> fl (fl (3000 * x) + fl (40000 * d))" "fl (fl (3000 * x) + fl (40000 * d)) \<le> 40001"
    by (rule f32.rnd_ge [OF y(1) is_f32_numeral] f32.rnd_le [OF y(2) is_f32_numeral], simp)+
  then have "freq_ok (fl (fl (3000 * x) + fl (40000 * d)))" by (simp add: freq_ok_def)
  then show ?thesis unfolding x_def using assms
    by (simp add: switching_frequency_def MCPWM_SWITCH_FREQUENCY_MIN_def MCPWM_SWITCH_FREQUENCY_MAX_def MCPWM_SWITCH_FREQUENCY_DC_MOTOR_def freq_ok_def)
qed

text \<open>The compare value is within the period it is computed from.\<close>

lemma duty_compare_total:
  assumes "unat t \<le> 58000" "0 \<le> d" "d \<le> 1"
  shows "\<exists>w. duty_compare cf det t d = Some w \<and> unat w \<le> unat t"
proof -
  have o: "of_u32 t = real (unat t)" "of_u32 t \<le> 58000" "0 \<le> of_u32 t" using of_u32_eq [OF assms(1)] of_u32_le [OF assms(1)] by auto
  have conv: "\<exists>w. f2u16 x = Some w \<and> unat w \<le> unat t" if x: "0 \<le> x" "x \<le> of_u32 t" for x
  proof -
    have "x \<le> 65000" using x o by linarith
    note f = f2u16_total [OF x(1) this]
    have "real (unat (word_of_int \<lfloor>x\<rfloor> :: u32)) \<le> real (unat t)" unfolding f(2) using x(2) o(1) by linarith
    then show ?thesis using f(1) by simp
  qed
  have h: "fl (of_u32 t / 2) = of_u32 t / 2" "is_f32 (of_u32 t)"
    using fl_dyadic [of "int (unat t)" 1] o(1) assms(1) fl_is_f32 [of "of_nat (unat t)"] by (simp_all add: of_u32_def)
  have p: "0 \<le> fl (of_u32 t * d)" "fl (of_u32 t * d) \<le> of_u32 t" using period_part [OF assms] by auto
  have hf: "is_f32 (of_u32 t / 2)" using fl_is_f32 [of "of_u32 t / 2"] h(1) by simp
  have le: "of_u32 t / 2 * d \<le> of_u32 t / 2" "0 \<le> of_u32 t / 2 * d" using assms o(3) by (simp_all add: mult_left_le)
  note q = f32.rnd_nonneg [OF le(2)] f32.rnd_le [OF le(1) hf]
  have s: "0 \<le> fl (of_u32 t / 2 * d) + of_u32 t / 2" "fl (of_u32 t / 2 * d) + of_u32 t / 2 \<le> of_u32 t" using q o(3) by linarith+
  have "0 \<le> fl (fl (of_u32 t / 2 * d) + of_u32 t / 2)" "fl (fl (of_u32 t / 2 * d) + of_u32 t / 2) \<le> of_u32 t"
    by (rule f32.rnd_nonneg [OF s(1)], rule f32.rnd_le [OF s(2) h(2)])
  then show ?thesis using conv [OF p] conv [of "fl (fl (of_u32 t / 2 * d) + of_u32 t / 2)"] by (simp add: duty_compare_def h(1))
qed

lemma set_duty_hw_returns:
  assumes "ready b m"
  shows "returns b m (set_duty_cycle_hw b dc m)"
proof -
  define d where "d = truncated dc (l_min_duty (bl_conf m)) (l_max_duty (bl_conf m))"
  note r = readyD [OF assms]
  have d: "0 \<le> d" "d \<le> 1" using truncated_duty [OF r(1), of dc] by (simp_all add: d_def)
  have f: "freq_ok (switching_frequency (bl_conf m) (IS_DETECTING m) d)" by (rule switching_frequency_ok [OF d])
  obtain tp where tp: "timer_top (switching_frequency (bl_conf m) (IS_DETECTING m) d) = Some tp" "top_ok tp" using timer_top_total [OF f] by blast
  have "unat (tm_top (bl_timer m)) \<le> 58000" using r(4) by (simp add: top_ok_def)
  from duty_compare_total [OF this d] obtain w where w: "duty_compare (bl_conf m) (IS_DETECTING m) (tm_top (bl_timer m)) d = Some w" by blast
  show ?thesis using apply_timer_returns [OF assms _ f, of "(bl_timer m)\<lparr>tm_duty := w, tm_top := tp\<rparr>"] tp(2)
    unfolding set_duty_cycle_hw_def Let_def d_def [symmetric] w tp(1) Option.bind_lunit by simp
qed

lemma hall_index_eq: "bl_read_hall m = hall_index (bl_hall (bl_env m))"
  by (simp add: bl_read_hall_def hall_index_def case_prod_unfold)

lemma hall_phase_total:
  assumes "readings_ok b (bl_env m) (bl_hall_to_phase_table m)"
  shows "\<exists>s. mcpwm_read_hall_phase m = Some s \<and> step_ok s"
  using assms read_hall_less [of m] by (auto simp: mcpwm_read_hall_phase_def readings_ok_def arr_get_def hall_index_eq)

lemma start_motor_returns:
  assumes "ready b m"
  shows "returns b m (start_motor b m)"
proof -
  note r = readyD [OF assms]
  let ?r = "m\<lparr>bl_state := MC_STATE_RUNNING\<rparr>"
  have c: "returns b m (commutate b 1 n)" if "ready b n" "same_inputs m n" for n
    by (rule returns_from [OF that(2) commutate_returns [OF that(1)]])
  obtain s where s: "mcpwm_read_hall_phase ?r = Some s" "step_ok s"
    using hall_phase_total [of b ?r] r(9) by auto
  have "returns b m (Some m)" "returns b m (Some ?r)" using assms by (auto intro: returns_Some)
  moreover have "returns b m (commutate b 1 ?r)" "returns b m (commutate b 1 (set_next_comm_step (bl_comm_step ?r) ?r))"
    using assms by (auto intro: c)
  moreover have "returns b m (commutate b 1 (set_next_comm_step s (?r\<lparr>bl_comm_step := s\<rparr>)))" using assms s(2) by (intro c) simp_all
  ultimately show ?thesis unfolding start_motor_def Let_def s Option.bind_lunit by simp
qed

lemma ll_returns:
  assumes "ready b m"
  shows "returns b m (set_duty_cycle_ll b d m)"
proof -
  define p where "p = (if d \<ge> l_min_duty (bl_conf m) then (d, m\<lparr>bl_direction := True\<rparr>)
                     else if d \<le> - l_min_duty (bl_conf m) then (- d, m\<lparr>bl_direction := False\<rparr>) else (d, m))"
  have p: "ready b (snd p)" "same_inputs m (snd p)" using assms by (simp_all add: p_def)
  have go: "returns b m (set_duty_cycle_hw b e (snd p) \<bind> start_motor b)" for e
    by (rule returns_from [OF p(2)], rule returns_bind [OF set_duty_hw_returns [OF p(1)] p(1)]) (rule start_motor_returns)
  have "returns b m (full_brake_ll b (snd p))" "returns b m (stop_pwm_ll b (snd p))"
    by (rule returns_from [OF p(2)], rule brake_ll_returns stop_ll_returns, rule p(1))+
  moreover have "returns b m (Some (snd p))" by (rule returns_Some [OF p])
  ultimately show ?thesis using go unfolding set_duty_cycle_ll_def Let_def p_def [symmetric] case_prod_unfold
    by (cases "bl_state (snd p)") simp_all
qed

section \<open>Samples and currents\<close>

lemma add_fir_total:
  assumes "fir_ok bits f" "bits < 32"
  shows "\<exists>f'. add_fir bits x f = Some f' \<and> fir_ok bits f'"
proof -
  have "ring_ok bits (fir_samples f) (fir_index f)" using assms(1) by (simp add: fir_ok_def ring_ok_def)
  from add_sample_ring [OF assms(2) this, of x] show ?thesis using assms(1) by (auto simp: add_fir_def fir_ok_def ring_ok_def)
qed

lemma run_fir_total: "fir_ok bits f \<Longrightarrow> bits < 32 \<Longrightarrow> \<exists>y. run_fir bits f = Some y"
  using run_window [of bits "fir_samples f" "fir_index f" "fir_coeffs f"] by (simp add: fir_ok_def ring_ok_def run_fir_def)

lemma taps: "KV_FIR_TAPS_BITS < 32" "AMP_FIR_TAPS_BITS < 32" "CURR_FIR_TAPS_BITS < 32"
  by (simp_all add: KV_FIR_TAPS_BITS_def AMP_FIR_TAPS_BITS_def CURR_FIR_TAPS_BITS_def)

lemma ready_detect: "ready b m \<Longrightarrow> detect_ok d \<Longrightarrow> ready b (m\<lparr>bl_detect := d\<rparr>)"
  by (simp add: ready_def bl_wf_def bl_base_def)

lemma ready_firs: "ready b m \<Longrightarrow> fir_ok CURR_FIR_TAPS_BITS f \<Longrightarrow> ready b (m\<lparr>bl_curr_fir := f\<rparr>)"
  "ready b m \<Longrightarrow> fir_ok AMP_FIR_TAPS_BITS f \<Longrightarrow> ready b (m\<lparr>bl_amp_fir := f\<rparr>)"
  by (simp_all add: ready_def bl_wf_def bl_base_def)

lemma ready_norm [simp]: "ready b (norm_currents b' m) = ready b m" "same_inputs m' (norm_currents b' m) = same_inputs m' m"
  by (simp_all add: norm_currents_def Let_def split: prod.split)

lemma ready_total_current: "total_current m = (c, m') \<Longrightarrow> ready b m' = ready b m \<and> same_inputs m m'"
  by (auto simp: total_current_def Let_def split: if_split_asm prod.split_asm)

lemma readyD_more:
  assumes "ready b m"
  shows "detect_ok (bl_detect m)" "fir_ok CURR_FIR_TAPS_BITS (bl_curr_fir m)" "fir_ok AMP_FIR_TAPS_BITS (bl_amp_fir m)"
    "length (bl_hall_detect_table m) = 8" "\<forall>row \<in> set (bl_hall_detect_table m). length row = 7" "\<bar>bl_pos_pid_set_pos m\<bar> \<le> 360"
  using assms by (simp_all add: ready_def bl_wf_def bl_base_def)

lemma six_index: "0 \<le> k \<Longrightarrow> k \<le> 5 \<Longrightarrow> length xs = 6 \<Longrightarrow> arr_at xs k = Some (xs ! nat k)"
  "0 \<le> k \<Longrightarrow> k \<le> 5 \<Longrightarrow> length xs = 6 \<Longrightarrow> arr_set_int xs k x = Some (xs[nat k := x])"
  by (simp_all add: arr_at_def arr_get_def arr_set_int_def arr_set_def nat_less_iff)

lemma detect_sample_returns:
  assumes "ready b m"
  shows "returns b m (detect_sample b m)"
proof -
  have d: "detect_ok (bl_detect m)" by (rule readyD_more(1) [OF assms])
  let ?d = "bl_detect m" and ?k = "det_step (bl_detect m)" and ?s = "bl_comm_step m" and ?e = "bl_env m" and ?z = "vin_sens m div 2"
  have k: "0 \<le> ?k" "?k \<le> 5" using d by (simp_all add: detect_ok_def)
  have l: "length (det_currents ?d) = 6" "length (det_voltages ?d) = 6" "length (det_diff ?d) = 6" "length (det_avg ?d) = 6" "length (det_avg_samples ?d) = 6"
    using d by (simp_all add: detect_ok_def)
  have bef: "arr_at xs (if ?k > 0 then ?k - 1 else 5) = Some (xs ! nat (if ?k > 0 then ?k - 1 else 5))" if "length xs = 6" for xs :: "real list"
    using k by (intro six_index(1) [OF _ _ that]) auto
  have upd: "length (xs[nat ?k := x]) = 6" if "length xs = 6" for xs :: "real list" and x using that by simp
  obtain vs where v: "(if ?s = 1 \<or> ?s = 4 then arr_set_int (det_voltages ?d) ?k (fint (uint (bl_sens1 ?e) - ?z))
                  else if ?s = 2 \<or> ?s = 5 then arr_set_int (det_voltages ?d) ?k (fint (uint (bl_sens2 ?e) - ?z))
                  else if ?s = 3 \<or> ?s = 6 then arr_set_int (det_voltages ?d) ?k (fint (uint (bl_sens3 ?e) - ?z))
                  else Some (det_voltages ?d)) = Some vs" "length vs = 6"
    unfolding six_index(2) [OF k l(2)] using l(2) by (metis upd)
  have "\<exists>d'. detect_sample b m = bl_stop_pwm_hw b (m\<lparr>bl_detect := d'\<rparr>) \<and> detect_ok d'"
    unfolding detect_sample_def Let_def case_prod_unfold six_index(2) [OF k l(1)] six_index(1) [OF k upd [OF l(1)]] bef [OF upd [OF l(1)]]
        six_index(2) [OF k l(3)] v(1) six_index(1) [OF k l(4)] six_index(2) [OF k l(4)] six_index(1) [OF k l(5)] six_index(2) [OF k l(5)] Option.bind_lunit
    by (rule exI, rule conjI, rule refl) (use k l v(2) in \<open>simp add: detect_ok_def\<close>)
  then obtain d' where 1: "detect_sample b m = bl_stop_pwm_hw b (m\<lparr>bl_detect := d'\<rparr>)" and 2: "detect_ok d'" by blast
  show ?thesis unfolding 1 by (rule returns_from [OF _ stop_hw_returns]) (simp_all add: ready_detect [OF assms 2])
qed

lemma detect_pulse_returns:
  assumes "ready b m"
  shows "returns b m (detect_pulse b m)"
  unfolding detect_pulse_def
proof (rule returns_from [OF _ returns_bind])
  let ?m = "m\<lparr>bl_detect := (bl_detect m)\<lparr>det_now := 5\<rparr>\<rparr>"
  show "same_inputs m ?m" by simp
  show r: "ready b ?m" using readyD_more(1) [OF assms] by (intro ready_detect [OF assms]) (simp add: detect_ok_def)
  show "returns b ?m (set_duty_cycle_hw b (fl 0.2) ?m)" by (rule set_duty_hw_returns [OF r])
next
  fix m1 assume "ready b m1"
  moreover define k where "k = (if det_step (bl_detect m1) + 1 > 5 then 0 else det_step (bl_detect m1) + 1)"
  ultimately have "detect_ok ((bl_detect m1)\<lparr>det_step := k\<rparr>)" "step_ok (k + 1)"
    using readyD_more(1) [of b m1] by (auto simp: detect_ok_def step_ok_def)
  then have "ready b (m1\<lparr>bl_detect := (bl_detect m1)\<lparr>det_step := k\<rparr>, bl_comm_step := k + 1\<rparr>)" using \<open>ready b m1\<close> ready_detect by simp
  then show "returns b m1 (let k = if det_step (bl_detect m1) + 1 > 5 then 0 else det_step (bl_detect m1) + 1;
             m2 = m1\<lparr>bl_detect := (bl_detect m1)\<lparr>det_step := k\<rparr>, bl_comm_step := k + 1\<rparr>
         in Some (commutation_event (set_next_comm_step (bl_comm_step m2) m2)))"
    unfolding Let_def k_def [symmetric] by (intro returns_Some) simp_all
qed

lemma rotor_detection_returns:
  assumes "ready b m"
  shows "returns b m (rotor_detection b m)"
  unfolding rotor_detection_def
proof (rule returns_bind [OF _ assms])
  show "returns b m (if det_now (bl_detect m) = 4 then detect_sample b m else Some m)"
    using assms by (auto intro: detect_sample_returns returns_Some)
next
  fix m1 assume r: "ready b m1"
  define m2 where "m2 = (if det_now (bl_detect m1) \<noteq> 0 then m1\<lparr>bl_detect := (bl_detect m1)\<lparr>det_now := det_now (bl_detect m1) - 1\<rparr>\<rparr> else m1)"
  have "detect_ok ((bl_detect m1)\<lparr>det_now := n\<rparr>)" for n using readyD_more(1) [OF r] by (simp add: detect_ok_def)
  then have m2: "ready b m2" "same_inputs m1 m2" unfolding m2_def using r ready_detect [OF r] by simp_all
  show "returns b m1 (let m2 = if det_now (bl_detect m1) \<noteq> 0 then m1\<lparr>bl_detect := (bl_detect m1)\<lparr>det_now := det_now (bl_detect m1) - 1\<rparr>\<rparr> else m1
         in if IS_DETECTING m2 \<and> det_now (bl_detect m2) = 0 then detect_pulse b m2 else Some m2)"
    unfolding Let_def m2_def [symmetric] using returns_from [OF m2(2) detect_pulse_returns [OF m2(1)]] returns_Some [OF m2] by simp
qed

lemma inj_returns:
  assumes "ready b m"
  shows "returns b m (mcpwm_adc_inj_int_handler b m)"
proof -
  obtain tot m1 where t: "total_current (norm_currents b m) = (tot, m1)" by fastforce
  have m1: "ready b m1" "same_inputs m m1" using ready_total_current [OF t] same_inputs_trans [of m "norm_currents b m" m1] assms by simp_all
  show ?thesis
    unfolding mcpwm_adc_inj_int_handler_def t Let_def prod.case
  proof (rule returns_from [OF m1(2) returns_bind [OF _ m1(1)]])
    show "returns b m1 (if motor_type (bl_conf m1) = MOTOR_TYPE_DC then Some m1 else rotor_detection b m1)"
      using returns_Some [OF m1(1)] rotor_detection_returns [OF m1(1)] by simp
  next
    fix m2 assume r: "ready b m2"
    obtain c where c: "bl_phase_current b (bl_conf m2) tot = Some c"
      using readyD(8) [OF r] by (auto simp: bl_phase_current_def fdiv_def bl_board_ok_def)
    obtain f where f: "add_fir CURR_FIR_TAPS_BITS c (bl_curr_fir m2) = Some f" "fir_ok CURR_FIR_TAPS_BITS f"
      using add_fir_total [OF readyD_more(2) [OF r] taps(3)] by blast
    obtain y where y: "run_fir CURR_FIR_TAPS_BITS f = Some y" using run_fir_total [OF f(2) taps(3)] by blast
    show "returns b m2 (bl_phase_current b (bl_conf m2) tot \<bind> (\<lambda>c. add_fir CURR_FIR_TAPS_BITS c (bl_curr_fir m2) \<bind> (\<lambda>fir1.
        run_fir CURR_FIR_TAPS_BITS fir1 \<bind> (\<lambda>flt. Some (m2\<lparr>bl_last_current_sample := c, bl_curr_fir := fir1, bl_last_current_sample_filtered := flt,
          bl_last_inj_adc_isr_duration := fl (fl (of_nat (unat (bl_tim12_cnt (bl_env m2)))) / 10000000)\<rparr>)))))"
      unfolding c f(1) y Option.bind_lunit by (rule returns_Some) (simp_all add: ready_firs r f(2))
  qed
qed

section \<open>Commutation returns\<close>

lemma ready_attempt:
  assumes "ready b m"
  shows "ready b (update_timer_attempt m)" "same_inputs m (update_timer_attempt m)"
  using returns_retimed [OF assms plain_update_timer_attempt] readyD(3,4) [OF assms] ready_same [OF assms]
  by (auto simp: attempt_timer returns_def)

lemma ready_count [simp]: "ready b (count_cycles m) = ready b m" "same_inputs m' (count_cycles m) = same_inputs m' m"
  by (simp_all add: count_cycles_def Let_def)

lemma ready_emit [simp]: "ready b (bl_emit e m) = ready b m" "same_inputs m' (bl_emit e m) = same_inputs m' m"
  by (simp_all add: bl_emit_def)

lemma returns_update:
  assumes "returns b m r" "ready b m" "\<And>m'. ready b m' \<Longrightarrow> ready b (f m') \<and> same_inputs m' (f m')"
  shows "returns b m (r \<bind> (\<lambda>m'. Some (f m')))"
  by (rule returns_bind [OF assms(1,2)]) (use assms(3) in \<open>blast intro: returns_Some\<close>)

lemma stuck_returns: "ready b m \<Longrightarrow> returns b m (stuck b m)"
  unfolding stuck_def by (auto intro!: returns_update returns_Some commutate_returns)

lemma ready_hall_table: "ready b m \<Longrightarrow> length tbl = 8 \<Longrightarrow> \<forall>row \<in> set tbl. length row = 7 \<Longrightarrow> ready b (m\<lparr>bl_hall_detect_table := tbl\<rparr>)"
  by (simp add: ready_def bl_wf_def bl_base_def)

lemma count_hall_returns:
  assumes "ready b m"
  shows "returns b m (count_hall_sample v m)"
proof -
  note t = readyD_more(4,5) [OF assms]
  let ?h = "bl_read_hall m" and ?s = "bl_comm_step m"
  define row where "row = bl_hall_detect_table m ! ?h"
  have h: "?h < 8" by (rule read_hall_less)
  then have row: "length row = 7" using t unfolding row_def by simp
  have s: "0 \<le> ?s" "nat ?s < 7" using readyD(2) [OF assms] by (auto simp: step_ok_def)
  have 1: "arr_get (bl_hall_detect_table m) ?h = Some row" using h t(1) by (simp add: arr_get_def row_def)
  have 2: "arr_at row ?s = Some (row ! nat ?s)" "arr_set_int row ?s c = Some (row[nat ?s := c])" for c
    using s row by (simp_all add: arr_at_def arr_set_int_def arr_get_def arr_set_def)
  have 3: "arr_set (bl_hall_detect_table m) ?h r = Some ((bl_hall_detect_table m)[?h := r])" for r using h t(1) by (simp add: arr_set_def)
  have "\<forall>r \<in> set ((bl_hall_detect_table m)[?h := row[nat ?s := c]]). length r = 7" for c
    using t(2) row set_update_subset_insert [of "bl_hall_detect_table m" ?h "row[nat ?s := c]"] by auto
  then show ?thesis unfolding count_hall_sample_def 1 2 3 Option.bind_lunit
    using assms t by (simp add: returns_Some ready_hall_table)
qed

lemma fint_vin: "0 \<le> vin_sens m" "vin_sens m < 65536" "fint (vin_sens m) = of_int (vin_sens m)"
proof -
  show v: "0 \<le> vin_sens m" "vin_sens m < 65536" using uint_lt2p [of "bl_vin (bl_env m)"] by (simp_all add: vin_sens_def)
  show "fint (vin_sens m) = of_int (vin_sens m)" unfolding fint_def by (rule fl_of_int) (use v in simp)
qed

lemma noise_threshold_total:
  assumes "\<bar>bl_dutycycle_now m\<bar> \<le> 1"
  shows "\<exists>k. f2i32 (fl (fl (fl (1 - \<bar>bl_dutycycle_now m\<bar>) * fint (vin_sens m)) * fl 0.3)) = Some k"
proof -
  have 1: "\<bar>fl (1 - \<bar>bl_dutycycle_now m\<bar>)\<bar> \<le> 1" using assms by (intro fl_le_one) auto
  have 2: "\<bar>fint (vin_sens m)\<bar> \<le> 65536" using fint_vin [of m] by simp
  have "\<bar>fl (fl (1 - \<bar>bl_dutycycle_now m\<bar>) * fint (vin_sens m))\<bar> \<le> 65536"
    using abs_mult_le [OF 1 2] by (intro fl_le_numeral) simp_all
  moreover have "\<bar>fl 0.3\<bar> \<le> 1" by (rule fl_le_one) simp
  ultimately have "\<bar>fl (fl (fl (1 - \<bar>bl_dutycycle_now m\<bar>) * fint (vin_sens m)) * fl 0.3)\<bar> \<le> 65536" (is "\<bar>?x\<bar> \<le> _")
    using abs_mult_le [of _ 65536 "fl 0.3" 1] by (intro fl_le_numeral) simp_all
  then have "\<bar>of_int (ftrunc ?x)\<bar> \<le> (65536 :: real)" using ftrunc_abs [of ?x] by linarith
  then have "\<bar>ftrunc ?x\<bar> \<le> 65536" by linarith
  then show ?thesis by (simp add: f2i32_def abs_le_iff)
qed

lemma freq_nonzero: "ready b m \<Longrightarrow> bl_switching_frequency_now m \<noteq> 0"
  using readyD(3) [of b m] by (auto simp: freq_ok_def)

lemma integrate_returns:
  assumes "ready b m"
  shows "returns b m (integrate_bemf v raw m)"
proof -
  obtain k where k: "f2i32 (fl (fl (fl (1 - \<bar>bl_dutycycle_now m\<bar>) * fint (vin_sens m)) * fl 0.3)) = Some k"
    using noise_threshold_total readyD(6) [OF assms] by blast
  show ?thesis unfolding integrate_bemf_def k Option.bind_lunit Let_def
    using assms freq_nonzero [OF assms] by (simp add: returns_Some fdiv_def)
qed

lemma commutate_integrate_returns: "ready b m \<Longrightarrow> returns b m (commutate_integrate b m)"
  unfolding commutate_integrate_def Let_def by (auto intro!: returns_update returns_Some commutate_returns)

lemma commutate_delay_returns:
  assumes "ready b m"
  shows "returns b m (commutate_delay b v m)"
proof -
  have f: "fdiv MCPWM_SWITCH_FREQUENCY_MAX (bl_switching_frequency_now m) \<noteq> None" using freq_nonzero [OF assms] by (simp add: fdiv_def)
  then obtain q where q: "fdiv MCPWM_SWITCH_FREQUENCY_MAX (bl_switching_frequency_now m) = Some q" by blast
  let ?m = "m\<lparr>bl_cycle_sum := fl (bl_cycle_sum m + q)\<rparr>"
  obtain ov where o: "delay_over ?m = Some ov" using readyD(1) [OF assms] by (simp add: delay_over_def bl_conf_ok_def Let_def)
  obtain u where u: "fdiv 1 (bemf_unit b) = Some u" using readyD(8) [OF assms] by (auto simp: fdiv_def bl_board_ok_def)
  have r: "ready b ?m" "same_inputs m ?m" using assms by simp_all
  have c: "returns b m (commutate b 1 ?m \<bind> (\<lambda>m2. Some (g m2)))" if "\<And>n. ready b n \<Longrightarrow> ready b (g n) \<and> same_inputs n (g n)" for g
    using that by (intro returns_from [OF r(2) returns_update [OF commutate_returns [OF r(1)] r(1)]])
  show ?thesis unfolding commutate_delay_def q Option.bind_lunit Let_def o u using assms r by (auto intro!: c returns_Some)
qed

lemma track_bemf_returns:
  assumes "ready b m"
  shows "returns b m (track_bemf b m)"
proof -
  have fin: "returns b m2 (if comm_mode (bl_conf m2) = COMM_MODE_INTEGRATE then commutate_integrate b m2
      else if comm_mode (bl_conf m2) = COMM_MODE_DELAY then commutate_delay b v m2 else Some m2)" if "ready b m2" for m2 v
    using that by (auto intro: commutate_integrate_returns commutate_delay_returns returns_Some)
  show ?thesis
  proof (cases "bl_state m = MC_STATE_RUNNING \<and> sint (bl_pwm_cycles m) \<ge> 2 \<or> bl_state m = MC_STATE_OFF")
    case True
    show ?thesis unfolding track_bemf_def if_P [OF True] Let_def case_prod_unfold
      by (intro returns_bind [OF count_hall_returns [OF assms] assms] returns_bind [OF integrate_returns] fin)
  next
    case False
    show ?thesis unfolding track_bemf_def if_not_P [OF False] using assms by (intro returns_Some) simp_all
  qed
qed

lemma sensorless_returns:
  assumes "ready b m"
  shows "returns b m (commutate_sensorless b m)"
  unfolding commutate_sensorless_def
proof (intro returns_bind [OF stuck_returns [OF assms] assms] returns_bind [OF track_bemf_returns])
  fix m2 assume r: "ready b m2"
  then obtain q where q: "fdiv MCPWM_SWITCH_FREQUENCY_MAX (bl_switching_frequency_now m2) = Some q"
    using freq_nonzero [OF r] by (auto simp: fdiv_def)
  show "returns b m2 (fdiv MCPWM_SWITCH_FREQUENCY_MAX (bl_switching_frequency_now m2) \<bind>
      (\<lambda>q. Some (m2\<lparr>bl_pwm_cycles_sum := fl (bl_pwm_cycles_sum m2 + q), bl_pwm_cycles := bl_pwm_cycles m2 + 1\<rparr>)))"
    unfolding q Option.bind_lunit using r by (intro returns_Some) simp_all
qed

lemma commutate_now_returns: "ready b m \<Longrightarrow> returns b m (commutate_now b m)"
  unfolding commutate_now_def by (rule returns_from [OF _ commutate_returns]) simp_all

lemma commutate_hall_returns:
  assumes "ready b m"
  shows "returns b m (commutate_hall b m)"
proof -
  obtain s where s: "mcpwm_read_hall_phase m = Some s" "step_ok s" using hall_phase_total readyD(9) [OF assms] by blast
  let ?m = "update_rpm_tacho (m\<lparr>bl_comm_step := s\<rparr>)"
  have r: "ready b ?m" "same_inputs m ?m" using assms s(2) by simp_all
  show ?thesis unfolding commutate_hall_def s(1) Option.bind_lunit Let_def
    using returns_from [OF r(2) commutate_now_returns [OF r(1)]] returns_Some [OF r] commutate_now_returns [OF assms] returns_Some [OF assms] by simp
qed

lemma bldc_step_returns:
  assumes "ready b m"
  shows "returns b m (bldc_step b m)"
proof -
  let ?m1 = "update_timer_attempt (m\<lparr>bl_vzero := virtual_ground m\<rparr>)"
  have "ready b (m\<lparr>bl_vzero := virtual_ground m\<rparr>)" using assms by simp
  note r1 = ready_attempt [OF this]
  have s1: "same_inputs m ?m1" by (rule same_inputs_trans [OF _ r1(2)]) simp
  obtain f where f: "add_fir AMP_FIR_TAPS_BITS (bemf_amplitude ?m1) (bl_amp_fir ?m1) = Some f" "fir_ok AMP_FIR_TAPS_BITS f"
    using add_fir_total [OF readyD_more(3) [OF r1(1)] taps(2)] by blast
  have r: "ready b (?m1\<lparr>bl_amp_fir := f\<rparr>)" "same_inputs m (?m1\<lparr>bl_amp_fir := f\<rparr>)" using ready_firs(2) [OF r1(1) f(2)] s1 by simp_all
  show ?thesis unfolding bldc_step_def Let_def f(1) Option.bind_lunit
    using returns_from [OF r(2) sensorless_returns [OF r(1)]] returns_from [OF r(2) commutate_hall_returns [OF r(1)]] by simp
qed

lemma dc_step_returns:
  assumes "ready b m"
  shows "returns b m (dc_step b m)"
proof -
  define a where "a = (if bl_has_commutated m then fl (bl_dutycycle_now m * fint (vin_sens m)) else fint (uint (bl_sens3 (bl_env m)) - uint (bl_sens1 (bl_env m))))"
  obtain f where f: "add_fir AMP_FIR_TAPS_BITS a (bl_amp_fir m) = Some f" "fir_ok AMP_FIR_TAPS_BITS f"
    using add_fir_total [OF readyD_more(3) [OF assms] taps(2)] by blast
  have r: "ready b (m\<lparr>bl_amp_fir := f\<rparr>)" "same_inputs m (m\<lparr>bl_amp_fir := f\<rparr>)" using ready_firs(2) [OF assms f(2)] by simp_all
  show ?thesis unfolding dc_step_def Let_def a_def [symmetric] f(1) Option.bind_lunit
    using returns_from [OF r(2) commutate_now_returns [OF r(1)]] returns_Some [OF r] by simp
qed

section \<open>The ramp returns a duty cycle in range\<close>

lemma ready_duty: "ready b m \<Longrightarrow> \<bar>x\<bar> \<le> 1 \<Longrightarrow> ready b (m\<lparr>bl_dutycycle_now := x\<rparr>)" "ready b m \<Longrightarrow> \<bar>x\<bar> \<le> 1 \<Longrightarrow> ready b (m\<lparr>bl_dutycycle_set := x\<rparr>)"
  by (simp_all add: ready_def bl_wf_def bl_base_def)

lemma step_towards_unit:
  assumes "\<bar>v\<bar> \<le> 1" "\<bar>g\<bar> \<le> 1" "0 \<le> s"
  shows "\<bar>utils_step_towards v g s\<bar> \<le> 1"
proof -
  have v: "\<bar>fl v\<bar> \<le> 1" using assms(1) by (rule fl_le_one)
  have "fl v \<le> fl (v + s)" "fl (v - s) \<le> fl v" using assms(3) by (auto intro: fl_mono)
  then show ?thesis using assms(1,2) v by (auto simp: utils_step_towards_def abs_le_iff)
qed

lemma truncated_unit_duty: "bl_conf_ok cf \<Longrightarrow> \<bar>truncated x (- l_max_duty cf) (l_max_duty cf)\<bar> \<le> 1"
  using truncated_range [of "- l_max_duty cf" "l_max_duty cf" x] by (auto simp: bl_conf_ok_def)

lemma min_duty_unit: "bl_conf_ok cf \<Longrightarrow> \<bar>l_min_duty cf\<bar> \<le> 1 \<and> \<bar>l_max_duty cf\<bar> \<le> 1"
  by (simp add: bl_conf_ok_def)

lemma SIGN_duty: "bl_conf_ok cf \<Longrightarrow> \<bar>of_int (SIGN x) * l_min_duty cf\<bar> \<le> 1"
  by (simp add: SIGN_def bl_conf_ok_def)

definition ramps :: "bl_board \<Rightarrow> bldc \<Rightarrow> (real \<times> bldc) option \<Rightarrow> bool" where
  "ramps b m r \<longleftrightarrow> (\<exists>d m'. r = Some (d, m') \<and> \<bar>d\<bar> \<le> 1 \<and> ready b m' \<and> same_inputs m m')"

lemma slow_ramp_ready:
  assumes "ready b m" "slow_ramp (s, m) = (s', m')"
  shows "ready b m' \<and> same_inputs m m' \<and> (0 \<le> s \<longrightarrow> 0 \<le> s')"
proof -
  have "0 \<le> s * fl 0.1" if "0 \<le> s" using that by (simp add: f32.rnd_nonneg)
  then show ?thesis using assms by (auto simp: slow_ramp_def f32.rnd_nonneg split: if_split_asm)
qed

lemma freq_scale: "ready b m \<Longrightarrow> 2 \<le> fl (bl_switching_frequency_now m / 1000)"
  using readyD(3) [of b m] by (intro f32.rnd_ge is_f32_numeral) (auto simp: freq_ok_def)

lemma current_step_total:
  assumes "ready b m"
  shows "\<exists>s m1. current_step m e v = Some (s, m1) \<and> ready b m1 \<and> same_inputs m m1"
proof -
  have "fl (bl_switching_frequency_now m / 1000) \<noteq> 0" using freq_scale [OF assms] by auto
  then obtain q where q: "fdiv (truncated (fl (fl (e * cc_gain (bl_conf m)) * v)) (- cc_ramp_step_max (bl_conf m)) (cc_ramp_step_max (bl_conf m)))
      (fl (bl_switching_frequency_now m / 1000)) = Some q" by (simp add: fdiv_def)
  obtain s m1 where s: "slow_ramp (q, m) = (s, m1)" by fastforce
  show ?thesis unfolding current_step_def Let_def q Option.bind_lunit s using slow_ramp_ready [OF assms s] by blast
qed

lemma ramp_current_total:
  assumes "ready b m"
  shows "ramps b m (ramp_current rs vs m)"
proof -
  note c = readyD(1) [OF assms]
  let ?cf = "bl_conf m"
  obtain s m1 where s: "current_step m (fl (bl_current_set m - (if bl_direction m then bl_last_current_sample m else - bl_last_current_sample m))) vs = Some (s, m1)"
    "ready b m1" "same_inputs m m1" using current_step_total [OF assms] by blast
  define d2 where "d2 = truncated (if \<bar>bl_dutycycle_now m\<bar> < fl (cc_startup_boost_duty ?cf * vs)
      then utils_step_towards (bl_dutycycle_now m) (if bl_current_set m > 0 then fl (cc_startup_boost_duty ?cf * vs) else - fl (cc_startup_boost_duty ?cf * vs)) rs
      else fl (bl_dutycycle_now m + s)) (- l_max_duty ?cf) (l_max_duty ?cf)"
  define d3 where "d3 = (if \<bar>d2\<bar> < l_min_duty ?cf then (if d2 < 0 \<and> bl_current_set m > 0 then l_min_duty ?cf
      else if d2 > 0 \<and> bl_current_set m < 0 then - l_min_duty ?cf else d2) else d2)"
  have "\<bar>d2\<bar> \<le> 1" unfolding d2_def by (rule truncated_unit_duty [OF c])
  then have d3: "\<bar>d3\<bar> \<le> 1" using c by (auto simp: d3_def bl_conf_ok_def)
  have "\<bar>if d3 \<ge> 0 then l_min_duty ?cf else - l_min_duty ?cf\<bar> \<le> 1" using min_duty_unit [OF c] by simp
  from ready_duty(2) [OF s(2) this] show ?thesis
    unfolding ramps_def ramp_current_def Let_def s(1) Option.bind_lunit prod.case d2_def [symmetric] d3_def [symmetric] using d3 s(3) by simp
qed

lemma ramp_brake_total:
  assumes "ready b m"
  shows "ramps b m (ramp_brake vs m)"
proof -
  note c = readyD(1) [OF assms]
  let ?cf = "bl_conf m"
  obtain s m1 where s: "current_step m (fl (- \<bar>bl_current_set m\<bar> - bl_last_current_sample m)) vs = Some (s, m1)" "ready b m1" "same_inputs m m1"
    using current_step_total [OF assms] by blast
  define d1 where "d1 = truncated (fl (bl_dutycycle_now m + of_int (SIGN (bl_dutycycle_now m)) * s)) (- l_max_duty ?cf) (l_max_duty ?cf)"
  define d2 where "d2 = (if \<bar>bl_rpm_now m\<bar> < l_max_erpm_fbrake_cc ?cf then 0 else of_int (SIGN d1) * l_min_duty ?cf)"
  have "\<bar>d1\<bar> \<le> 1" unfolding d1_def by (rule truncated_unit_duty [OF c])
  moreover have d2: "\<bar>d2\<bar> \<le> 1" unfolding d2_def using SIGN_duty [OF c] by simp
  ultimately show ?thesis using ready_duty(2) [OF s(2) d2] s(2,3)
    unfolding ramps_def ramp_brake_def Let_def s(1) Option.bind_lunit prod.case d1_def [symmetric] d2_def [symmetric] by simp
qed

lemma ramp_target_total:
  assumes "ready b m" "0 \<le> rs"
  shows "ramps b m (ramp_target rs vs m)"
proof -
  have "\<bar>utils_step_towards (bl_dutycycle_now m) (bl_dutycycle_set m) rs\<bar> \<le> 1"
    using readyD(6,7) [OF assms(1)] assms(2) by (rule step_towards_unit)
  then have "ramps b m (Some (utils_step_towards (bl_dutycycle_now m) (bl_dutycycle_set m) rs, m))" using assms(1) by (simp add: ramps_def)
  then show ?thesis unfolding ramp_target_def using ramp_current_total [OF assms(1)] ramp_brake_total [OF assms(1)] by simp
qed

lemma limit_toward_ready:
  assumes "ready b m" "\<bar>g\<bar> \<le> 1" "0 \<le> s"
  shows "ready b (limit_toward g s m)" "same_inputs m (limit_toward g s m)"
  unfolding limit_toward_def using ready_duty(1) [OF assms(1) step_towards_unit [OF readyD(6) [OF assms(1)] assms(2,3)]] by simp_all

lemma apply_limits_ready:
  assumes "ready b m" "0 \<le> s"
  shows "ready b (apply_limits s d m) \<and> same_inputs m (apply_limits s d m)"
proof -
  note c = readyD(1) [OF assms(1)]
  have b: "0 \<le> fl (fl (s * \<bar>x\<bar>) * m_current_backoff_gain (bl_conf m))" for x
    using c assms(2) by (auto simp: bl_conf_ok_def intro!: f32.rnd_nonneg mult_nonneg_nonneg)
  have l: "ready b (limit_toward 0 e m)" "same_inputs m (limit_toward 0 e m)" "ready b (limit_toward (if D then l_max_duty (bl_conf m) else - l_max_duty (bl_conf m)) e m)"
    "same_inputs m (limit_toward (if D then l_max_duty (bl_conf m) else - l_max_duty (bl_conf m)) e m)" if "0 \<le> e" for e D
    using limit_toward_ready [OF assms(1) _ that] min_duty_unit [OF c] by simp_all
  have "0 \<le> m_duty_ramp_step_rpm_lim (bl_conf m)" using c by (simp add: bl_conf_ok_def)
  note l' = l [OF this] l [OF b]
  show ?thesis unfolding apply_limits_def Let_def using assms(1) l' by (simp del: if_split_asm split: if_split)
qed

lemma final_duty_ready:
  assumes "ready b m" "\<bar>d\<bar> \<le> 1"
  shows "ready b (take_duty d m) \<and> same_inputs m (take_duty d m)" "ready b (restart_duty m) \<and> same_inputs m (restart_duty m)"
    "ready b (hold_direction r m) \<and> same_inputs m (hold_direction r m)"
proof -
  have n: "ready b (m\<lparr>bl_dutycycle_now := d\<rparr>)" "ready b (m\<lparr>bl_dutycycle_now := l_min_duty (bl_conf m)\<rparr>)"
    "ready b (m\<lparr>bl_dutycycle_now := - l_min_duty (bl_conf m)\<rparr>)"
    using min_duty_unit [OF readyD(1) [OF assms(1)]] assms by (intro ready_duty(1); simp)+
  show "ready b (take_duty d m) \<and> same_inputs m (take_duty d m)" using n assms by (simp add: take_duty_def)
  show "ready b (restart_duty m) \<and> same_inputs m (restart_duty m)" using n assms by (simp add: restart_duty_def Let_def)
  show "ready b (hold_direction r m) \<and> same_inputs m (hold_direction r m)" using n assms by (simp add: hold_direction_def Let_def)
qed

lemma ramp_duty_returns:
  assumes "ready b m" "v \<noteq> 0"
  shows "returns b m (ramp_duty v m)"
proof -
  obtain vs where vs: "fdiv 20 v = Some vs" using assms(2) by (simp add: fdiv_def)
  have f: "2 \<le> fl (bl_switching_frequency_now m / 1000)" by (rule freq_scale [OF assms(1)])
  obtain n where n: "fdiv (m_duty_ramp_step (bl_conf m)) (fl (bl_switching_frequency_now m / 1000)) = Some n" "0 \<le> n"
    using f readyD(1) [OF assms(1)] by (auto simp: fdiv_def bl_conf_ok_def f32.rnd_nonneg)
  obtain rs m1 where s: "slow_ramp (n, m) = (rs, m1)" by fastforce
  note m1 = slow_ramp_ready [OF assms(1) s]
  obtain d m2 where r: "ramp_target rs vs m1 = Some (d, m2)" "\<bar>d\<bar> \<le> 1" "ready b m2" "same_inputs m1 m2"
    using ramp_target_total [of b m1 rs vs] m1 n(2) by (auto simp: ramps_def)
  note a = apply_limits_ready [OF r(3) n(2), of d]
  note t = final_duty_ready(1) [OF conjunct1 [OF a] r(2)]
  note e = final_duty_ready(2) [OF conjunct1 [OF t] r(2)]
  note h = final_duty_ready(3) [OF conjunct1 [OF e] r(2), of "mcpwm_get_rpm m"]
  have "same_inputs m (hold_direction (mcpwm_get_rpm m) (restart_duty (take_duty d (apply_limits n d m2))))"
    using m1 r(4) a t e h by (blast intro: same_inputs_trans)
  then show ?thesis unfolding ramp_duty_def vs n(1) Option.bind_lunit Let_def s prod.case r(1) using h by (intro returns_Some) simp_all
qed

section \<open>The interrupts return\<close>

lemma control_returns:
  assumes "ready b m"
  shows "returns b m (control_duty b m)"
proof -
  have v: "input_voltage b m \<noteq> 0" using readyD(9) [OF assms] by (simp add: input_voltage_def readings_ok_def)
  show ?thesis unfolding control_duty_def
    using returns_bind [OF ramp_duty_returns [OF assms v] assms ll_returns] returns_Some [OF assms same_inputs_refl] by simp
qed

lemma fl_720: "\<bar>x\<bar> \<le> 360 \<Longrightarrow> \<bar>y\<bar> \<le> 360 \<Longrightarrow> \<bar>fl (x - y)\<bar> < 2 ^ 27"
proof -
  assume "\<bar>x\<bar> \<le> 360" "\<bar>y\<bar> \<le> 360"
  then have "\<bar>x - y\<bar> \<le> 720" by linarith
  then have "\<bar>fl (x - y)\<bar> \<le> 720" by (rule fl_le_numeral) simp
  then show ?thesis by simp
qed

lemma pid_pos_returns:
  assumes "ready b m" "\<bar>enc\<bar> \<le> 360" "dt \<noteq> 0"
  shows "returns b m (bl_run_pid_control_pos enc dt m)"
proof -
  obtain e where e: "utils_angle_difference enc (bl_pos_pid_set_pos m) = Some e"
    using angle_turns [OF fl_720 [OF assms(2) readyD_more(6) [OF assms(1)]]] by blast
  obtain kd where kd: "fdiv (p_pid_kd (bl_conf m)) dt = Some kd" using assms(3) by (simp add: fdiv_def)
  show ?thesis unfolding bl_run_pid_control_pos_def Let_def case_prod_unfold e kd Option.bind_lunit using assms(1) by (auto intro: returns_Some)
qed

lemma adc_returns:
  assumes "ready b m"
  shows "returns b m (mcpwm_adc_int_handler b m)"
proof -
  let ?m1 = "count_cycles (bl_emit bl_watchdog_reset (update_timer_attempt m))"
  have m1: "ready b ?m1" "same_inputs m ?m1" using ready_attempt [OF assms] by simp_all
  have s: "returns b ?m1 (if motor_type (bl_conf ?m1) = MOTOR_TYPE_BLDC then bldc_step b ?m1 else dc_step b ?m1)"
    using bldc_step_returns [OF m1(1)] dc_step_returns [OF m1(1)] by simp
  have p: "returns b n (case bl_encoder (bl_env n) of None \<Rightarrow> Some n
       | Some enc \<Rightarrow> fdiv 1 (bl_switching_frequency_now n) \<bind> (\<lambda>dt. bl_run_pid_control_pos enc dt n))" if n: "ready b n" for n
  proof (cases "bl_encoder (bl_env n)")
    case None
    then show ?thesis using returns_Some [OF n same_inputs_refl] by simp
  next
    case (Some enc)
    then have e: "\<bar>enc\<bar> \<le> 360" using readyD(9) [OF n] by (simp add: readings_ok_def)
    have f: "0 < 1 / bl_switching_frequency_now n" "1 / 41000 \<le> 1 / bl_switching_frequency_now n"
      using readyD(3) [OF n] by (auto simp: freq_ok_def divide_simps)
    have "fl (1 / bl_switching_frequency_now n) \<noteq> 0"
      using fl_within(1) [of "1 / bl_switching_frequency_now n" 1] f readyD(3) [OF n] by (auto simp: freq_ok_def divide_simps)
    then show ?thesis using pid_pos_returns [OF n e] freq_nonzero [OF n] Some by (simp add: fdiv_def)
  qed
  show ?thesis unfolding mcpwm_adc_int_handler_def Let_def
  proof (rule returns_from [OF m1(2) returns_bind [OF s m1(1)]], rule returns_bind [OF control_returns], assumption, assumption)
    fix m2 m3 assume r: "ready b m3"
    have e: "ready b (bl_emit bl_mc_timer_isr m3)" "same_inputs m3 (bl_emit bl_mc_timer_isr m3)" using r by simp_all
    show "returns b m3 ((case bl_encoder (bl_env (bl_emit bl_mc_timer_isr m3)) of None \<Rightarrow> Some (bl_emit bl_mc_timer_isr m3)
        | Some enc \<Rightarrow> fdiv 1 (bl_switching_frequency_now (bl_emit bl_mc_timer_isr m3)) \<bind> (\<lambda>dt. bl_run_pid_control_pos enc dt (bl_emit bl_mc_timer_isr m3)))
      \<bind> (\<lambda>m5. Some (m5\<lparr>bl_last_adc_isr_duration := fl (fl (of_nat (unat (bl_tim12_cnt (bl_env m5)))) / 10000000)\<rparr>)))"
      by (rule returns_from [OF e(2) returns_update [OF p [OF e(1)] e(1)]]) simp
  qed
qed

end
