(* ===== verification/BldcRun.thy ===== *)
theory BldcRun
  imports BldcTotal
begin

text \<open>
  The six-step driver over commands and interrupts: from a well-formed state every sequence of them returns, with readings that the code is made for.
\<close>

section \<open>Commands return\<close>

lemma brake_or_ramp_returns: "ready b m \<Longrightarrow> returns b m (brake_or_ramp_down b m)"
  using brake_ll_returns [of b m] returns_Some [of b "m\<lparr>bl_state := MC_STATE_RUNNING\<rparr>" m] by (simp add: brake_or_ramp_down_def)

lemma hl_returns:
  assumes "ready b m"
  shows "returns b m (set_duty_cycle_hl b dc m)"
proof -
  define d where "d = truncated dc (- l_max_duty (bl_conf m)) (l_max_duty (bl_conf m))"
  note c = readyD(1) [OF assms]
  let ?m1 = "m\<lparr>bl_dutycycle_set := d\<rparr>"
  have m1: "ready b ?m1" "same_inputs m ?m1" using ready_duty(2) [OF assms] truncated_unit_duty [OF c, of dc] by (simp_all add: d_def)
  define m2 where "m2 = (if \<bar>bl_dutycycle_now ?m1\<bar> < l_min_duty (bl_conf m) then ?m1\<lparr>bl_dutycycle_now := of_int (SIGN d) * l_min_duty (bl_conf m)\<rparr> else ?m1)"
  have m2: "ready b m2" "same_inputs m m2" unfolding m2_def using ready_duty(1) [OF m1(1) SIGN_duty [OF c]] m1 by (simp_all split: if_split)
  show ?thesis using stop_ll_returns [OF assms] returns_from [OF m2(2) ll_returns [OF m2(1)]] returns_from [OF m1(2) brake_or_ramp_returns [OF m1(1)]]
      returns_Some [OF m1] unfolding set_duty_cycle_hl_def Let_def d_def [symmetric] m2_def [symmetric] by simp
qed

lemma stop_returns: "ready b m \<Longrightarrow> returns b m (mcpwm_stop_pwm b m)"
  unfolding mcpwm_stop_pwm_def by (rule returns_from [OF _ stop_ll_returns]) simp_all

lemma set_duty_returns: "ready b m \<Longrightarrow> returns b m (mcpwm_set_duty b d m)"
  unfolding mcpwm_set_duty_def by (rule returns_from [OF _ hl_returns]) simp_all

lemma set_current_returns: "ready b m \<Longrightarrow> returns b m (mcpwm_set_current b c m)"
  unfolding mcpwm_set_current_def Let_def
  by (auto simp: stop_returns intro!: returns_Some intro: returns_from [OF _ hl_returns])

lemma set_brake_returns: "ready b m \<Longrightarrow> returns b m (mcpwm_set_brake_current b c m)"
  unfolding mcpwm_set_brake_current_def Let_def
  by (auto simp: stop_returns intro!: returns_Some intro: returns_from [OF _ brake_or_ramp_returns])

lemma set_pos_returns:
  assumes "ready b m" "\<bar>pos\<bar> \<le> 360"
  shows "returns b m (mcpwm_set_pid_pos b pos m)"
proof -
  have "ready b (m\<lparr>bl_control_mode := CONTROL_MODE_POS, bl_pos_pid_set_pos := pos\<rparr>)" using assms by (simp add: ready_def bl_wf_def bl_base_def)
  moreover have "same_inputs m (m\<lparr>bl_control_mode := CONTROL_MODE_POS, bl_pos_pid_set_pos := pos\<rparr>)" by (simp add: same_inputs_def)
  ultimately show ?thesis unfolding mcpwm_set_pid_pos_def Let_def by (auto intro!: returns_Some intro: returns_from [OF _ hl_returns])
qed

lemma noramp_returns:
  assumes "ready b m" "\<bar>d\<bar> \<le> 1"
  shows "returns b m (mcpwm_set_duty_noramp b d m)"
proof -
  let ?m1 = "m\<lparr>bl_control_mode := CONTROL_MODE_DUTY\<rparr>"
  have 1: "ready b ?m1" "same_inputs m ?m1" using assms(1) by simp_all
  have 2: "ready b (?m1\<lparr>bl_dutycycle_set := d, bl_dutycycle_now := d\<rparr>)" "same_inputs m (?m1\<lparr>bl_dutycycle_set := d, bl_dutycycle_now := d\<rparr>)"
    using ready_duty(1) [OF ready_duty(2) [OF 1(1) assms(2)] assms(2)] by (simp_all add: same_inputs_def)
  show ?thesis unfolding mcpwm_set_duty_noramp_def Let_def using returns_from [OF 1(2) hl_returns [OF 1(1)]] returns_from [OF 2(2) ll_returns [OF 2(1)]] by simp
qed

text \<open>The start of a rotor detection; a detection that is under way makes \<open>mc_interface_try_input\<close> refuse it.\<close>

lemma set_detect_returns:
  assumes "ready b m"
  shows "returns b m (mcpwm_set_detect b r m)"
proof -
  have s: "returns b m (bl_stop_pwm_hw b (m\<lparr>bl_control_mode := CONTROL_MODE_NONE\<rparr>))"
    by (rule returns_from [OF _ stop_hw_returns]) (use assms in simp_all)
  have d: "ready b m2 \<Longrightarrow> ready b (m2\<lparr>bl_state := MC_STATE_DETECTING, bl_detect := (bl_detect m2)\<lparr>det_currents := replicate 6 0,
      det_avg := replicate 6 0, det_avg_samples := replicate 6 0\<rparr>\<rparr>)" for m2
    using readyD_more(1) [of b m2] by (intro ready_detect) (simp_all add: detect_ok_def)
  have "returns b m1 (set_switching_frequency b MCPWM_SWITCH_FREQUENCY_MAX m1 \<bind> (\<lambda>m2. Some (m2\<lparr>bl_state := MC_STATE_DETECTING,
      bl_detect := (bl_detect m2)\<lparr>det_currents := replicate 6 0, det_avg := replicate 6 0, det_avg_samples := replicate 6 0\<rparr>\<rparr>)))" if "ready b m1" for m1
    by (rule returns_bind [OF set_frequency_returns [OF that freq_max] that]) (auto intro!: returns_Some d simp: same_inputs_def)
  then show ?thesis unfolding mcpwm_set_detect_def using returns_bind [OF s assms] returns_Some [OF assms, of m] by simp
qed

section \<open>Sequences\<close>

datatype bl_op = Interrupt bl_irq | Set_duty real | Set_duty_noramp real | Set_current real | Set_brake real | Set_speed real | Set_pos real
  | Set_detect int | Stop

fun bl_do :: "bl_board \<Rightarrow> bl_op \<Rightarrow> bldc \<Rightarrow> bldc option" where
  "bl_do b (Interrupt i) m = bl_interrupt b i m"
| "bl_do b (Set_duty d) m = mcpwm_set_duty b d m"
| "bl_do b (Set_duty_noramp d) m = mcpwm_set_duty_noramp b d m"
| "bl_do b (Set_current c) m = mcpwm_set_current b c m"
| "bl_do b (Set_brake c) m = mcpwm_set_brake_current b c m"
| "bl_do b (Set_speed rpm) m = Some (mcpwm_set_pid_speed rpm m)"
| "bl_do b (Set_pos pos) m = mcpwm_set_pid_pos b pos m"
| "bl_do b (Set_detect r) m = mcpwm_set_detect b r m"
| "bl_do b Stop m = mcpwm_stop_pwm b m"

primrec bl_run :: "bl_board \<Rightarrow> bl_op list \<Rightarrow> bldc \<Rightarrow> bldc option" where
  "bl_run b [] m = Some m"
| "bl_run b (x # xs) m = do { m1 \<leftarrow> bl_do b x m; bl_run b xs m1 }"

fun irq_in :: "bl_irq \<Rightarrow> bl_in" where "irq_in (Inj_irq i) = i" | "irq_in (Adc_irq i) = i"

fun op_ok :: "bl_board \<Rightarrow> int list \<Rightarrow> bl_op \<Rightarrow> bool" where
  "op_ok b table (Interrupt i) = readings_ok b (irq_in i) table"
| "op_ok b table (Set_pos pos) = (\<bar>pos\<bar> \<le> 360)"
| "op_ok b table (Set_duty_noramp d) = (\<bar>d\<bar> \<le> 1)"
| "op_ok b table _ = True"

lemma ready_env: "ready b m \<Longrightarrow> readings_ok b i (bl_hall_to_phase_table m) \<Longrightarrow> ready b (env_step i m)"
  by (simp add: ready_def env_step_def)

lemma env_fields: "bl_conf (env_step i m) = bl_conf m" "bl_hall_to_phase_table (env_step i m) = bl_hall_to_phase_table m"
  by (simp_all add: env_step_def)

lemma returnsE: "returns b m r \<Longrightarrow> ready b m \<Longrightarrow> (\<And>m'. r = Some m' \<Longrightarrow> ready b m' \<Longrightarrow> bl_hall_to_phase_table m' = bl_hall_to_phase_table m \<Longrightarrow> P) \<Longrightarrow> P"
  by (auto simp: returns_def same_inputs_def ready_def)

lemma do_total:
  assumes "ready b m" "op_ok b (bl_hall_to_phase_table m) x"
  shows "\<exists>m'. bl_do b x m = Some m' \<and> ready b m' \<and> bl_hall_to_phase_table m' = bl_hall_to_phase_table m"
proof (cases x)
  case (Interrupt q)
  then have e: "ready b (env_step (irq_in q) m)" using assms ready_env by simp
  have "returns b (env_step (irq_in q) m) (bl_do b x m)" using Interrupt inj_returns [OF e] adc_returns [OF e] by (cases q) simp_all
  then show ?thesis using e by (rule returnsE) (auto simp: env_fields)
next
  case (Set_speed r)
  then show ?thesis using assms by (simp add: mcpwm_set_pid_speed_def)
qed (use assms in \<open>auto elim: returnsE [OF set_duty_returns] returnsE [OF set_current_returns] returnsE [OF set_brake_returns]
       returnsE [OF set_pos_returns] returnsE [OF noramp_returns] returnsE [OF set_detect_returns] returnsE [OF stop_returns]\<close>)

lemma run_total:
  "ready b m \<Longrightarrow> \<forall>x \<in> set xs. op_ok b (bl_hall_to_phase_table m) x \<Longrightarrow> \<exists>m'. bl_run b xs m = Some m' \<and> ready b m'"
proof (induction xs arbitrary: m)
  case (Cons x xs)
  obtain m1 where "bl_do b x m = Some m1" "ready b m1" "bl_hall_to_phase_table m1 = bl_hall_to_phase_table m"
    using do_total [OF Cons.prems(1)] Cons.prems(2) by auto
  with Cons.IH [of m1] Cons.prems(2) show ?case by simp
qed simp

text \<open>C9: The six-step driver does not fail on inputs it is made for. From a well-formed state with a sane configuration, any sequence of interrupts and of the motor
  commands (duty cycle with and without ramp, current, brake, speed, position, detection, stop) returns, provided that every reading has a supply
  voltage that is not zero, a position of the hall sensors with a commutation step in the table and an encoder angle within 360 degrees, and that a commanded
  position is within 360 degrees and a duty cycle without ramp within one: then no access is outside an array, nothing is divided by zero, every conversion fits. The commutation step
  stays between 1 and 6, the duty cycle within one, the switching frequency and the period of the timer in the range they are made for, whatever
  the measured currents and phase voltages are.\<close>

theorem bldc_returns:
  assumes "bl_board_ok b" "bl_wf m" "readings_ok b (bl_env m) (bl_hall_to_phase_table m)"
    and "\<forall>x \<in> set ops. op_ok b (bl_hall_to_phase_table m) x"
  shows "\<exists>m'. bl_run b ops m = Some m' \<and> 1 \<le> bl_comm_step m' \<and> bl_comm_step m' \<le> 6 \<and> \<bar>bl_dutycycle_now m'\<bar> \<le> 1 \<and>
    2900 \<le> bl_switching_frequency_now m' \<and> bl_switching_frequency_now m' \<le> 41000 \<and>
    4000 \<le> unat (tm_top (bl_timer m')) \<and> unat (tm_top (bl_timer m')) \<le> 58000 \<and> bl_wf m'"
proof -
  have "ready b m" using assms(1-3) by (simp add: ready_def)
  then obtain m' where "bl_run b ops m = Some m'" "ready b m'" using run_total assms(4) by blast
  then show ?thesis by (auto simp: ready_def bl_wf_def bl_base_def step_ok_def freq_ok_def top_ok_def)
qed

section \<open>Examples\<close>

lemma is_f32_power: "n \<le> 149 \<Longrightarrow> is_f32 (1 / 2 ^ n)"
  using fl_dyadic [of 1 n] fl_is_f32 [of "1 / 2 ^ n"] by simp

lemma fl_above: "1 / 2 ^ n \<le> x \<Longrightarrow> n \<le> 149 \<Longrightarrow> 1 / 2 ^ n \<le> fl x"
  by (intro f32.rnd_ge is_f32_power)

lemma board_ok_410: "bl_board_ok bl_hw_410"
proof -
  have h: "CURRENT_SHUNT_RES bl_hw_410 = fl 0.001" "CURRENT_AMP_GAIN bl_hw_410 = 10" "VIN_R1 bl_hw_410 = 39000" "VIN_R2 bl_hw_410 = 2200"
    by (simp_all add: bl_hw_410_def hw_410_def board.extend_def)
  have "1 / 2 ^ 10 \<le> fl 0.001" by (rule fl_above) simp_all
  then have "1 / 2 ^ 7 \<le> fl (fl 0.001 * 10)" by (intro fl_above) simp_all
  moreover have "0 < bemf_unit bl_hw_410"
  proof -
    have n: "1 / 2 ^ 5 \<le> fl (2200 / 41200)" by (rule fl_above) simp_all
    have r: "fl 2.2 \<le> 3" "0 \<le> fl 2.2" by (intro f32.rnd_le is_f32_numeral; simp) (simp add: f32.rnd_nonneg)
    then have s: "33 \<le> fl (fl 2.2 + 33)" by (intro f32.rnd_ge is_f32_numeral) simp_all
    have q: "fl 2.2 / fl (fl 2.2 + 33) \<le> 1" using r s by (simp add: divide_simps)
    have p: "1 / 2 ^ 0 \<le> fl 2.2" by (rule fl_above) simp_all
    have u: "fl (fl 2.2 + 33) \<le> 36" using r by (intro f32.rnd_le is_f32_numeral) simp_all
    have l: "1 / 2 ^ 6 \<le> fl 2.2 / fl (fl 2.2 + 33)" using p s u by (simp add: divide_simps)
    have d: "1 / 2 ^ 6 \<le> fl (fl 2.2 / fl (fl 2.2 + 33))" "fl (fl 2.2 / fl (fl 2.2 + 33)) \<le> 1"
      using fl_above [OF l] f32.rnd_le [OF q is_f32_1] by simp_all
    then have "1 / 2 ^ 5 \<le> fl (2200 / 41200) / fl (fl 2.2 / fl (fl 2.2 + 33))" using n by (simp add: divide_simps)
    then have v: "1 / 2 ^ 5 \<le> VDIV_CORR bl_hw_410" unfolding VDIV_CORR_def h by (intro fl_above) simp_all
    have "1 / 2 ^ 11 \<le> fl 0.0005" by (rule fl_above) simp_all
    then have "1 / 2 ^ 11 * (1 / 2 ^ 5) \<le> fl 0.0005 * VDIV_CORR bl_hw_410" using v by (intro mult_mono) simp_all
    then have "1 / 2 ^ 16 \<le> bemf_unit bl_hw_410" unfolding bemf_unit_def by (intro fl_above) simp_all
    then show ?thesis by (rule less_le_trans [rotated]) simp
  qed
  ultimately show ?thesis unfolding bl_board_ok_def h by auto
qed

text \<open>A controller after its start, with the default configuration, 2000 counts of the supply voltage and a valid reading of the sensors.\<close>

definition idle_in :: bl_in where "idle_in = bl_in_zero\<lparr>bl_vin := 2000, bl_hall := (True, True, False)\<rparr>"

definition idle :: bldc where
  "idle = example\<lparr>bl_timer := timer_zero\<lparr>tm_top := 4200\<rparr>, bl_switching_frequency_now := 40000,
     bl_hall_to_phase_table := hall_phases [- 1, 1, 3, 2, 5, 6, 4, - 1], bl_env := idle_in\<rparr>"

lemma default_conf_ok: "bl_conf_ok conf_general_get_default_mc_configuration"
proof -
  have "1 / 2 ^ 8 \<le> fl 0.005" "fl 0.005 \<le> fl 0.95" "fl 0.95 \<le> 1" "0 \<le> fl 0.02" "0 \<le> fl 0.0005" "0 \<le> fl 0.5"
    by (rule fl_above; simp) (simp_all add: fl_mono f32.rnd_nonneg f32.rnd_le is_f32_1)
  moreover from this(1) have "0 < fl 0.005" by (rule less_le_trans [rotated]) simp
  ultimately show ?thesis
    by (simp add: bl_conf_ok_def conf_general_get_default_mc_configuration_def MCCONF_L_MIN_DUTY_def MCCONF_L_MAX_DUTY_def MCCONF_SL_CYCLE_INT_BR_def
        MCCONF_M_RAMP_STEP_def MCCONF_M_RAMP_STEP_RPM_LIM_def MCCONF_M_CURRENT_BACKOFF_GAIN_def)
qed

lemma idle_voltage: "GET_INPUT_VOLTAGE (board.truncate bl_hw_410) 2000 \<noteq> 0"
proof -
  have t: "board.truncate bl_hw_410 = hw_410" by (simp add: bl_hw_410_def hw_410_def board.extend_def board.truncate_def)
  have "2 \<le> fl 3.3" by (intro f32.rnd_ge is_f32_numeral) simp_all
  then have "1 / 2 ^ 11 \<le> fl 3.3 / 4095" by (simp add: divide_simps)
  then have a: "1 / 2 ^ 11 \<le> fl (fl 3.3 / 4095)" by (rule fl_above) simp
  then have "1 / 2 ^ 1 \<le> fl (fl 3.3 / 4095) * 2000" by simp
  then have b: "1 / 2 ^ 1 \<le> fl (fl (fl 3.3 / 4095) * 2000)" by (rule fl_above) simp
  have "(1 :: real) / 2 ^ 0 \<le> 41200 / 2200" by simp
  then have c: "1 / 2 ^ 0 \<le> fl (41200 / 2200)" by (rule fl_above) simp
  have "1 / 2 ^ 1 * (1 / 2 ^ 0) \<le> fl (fl (fl 3.3 / 4095) * 2000) * fl (41200 / 2200)" using b c by (intro mult_mono) simp_all
  then have "1 / 2 ^ 1 \<le> GET_INPUT_VOLTAGE hw_410 2000" unfolding GET_INPUT_VOLTAGE_def hw_410_def by (intro fl_above) simp_all
  then show ?thesis unfolding t by auto
qed

lemma idle_ok: "bl_wf idle" "readings_ok bl_hw_410 (bl_env idle) (bl_hall_to_phase_table idle)" "readings_ok bl_hw_410 idle_in (bl_hall_to_phase_table idle)"
proof -
  show "bl_wf idle" using default_conf_ok
    by (simp add: idle_def example_def bl_static_def bl_wf_def bl_base_def step_ok_def fir_ok_def fir_zero_def detect_ok_def detect_zero_def
        freq_ok_def top_ok_def KV_FIR_TAPS_BITS_def AMP_FIR_TAPS_BITS_def CURR_FIR_TAPS_BITS_def)
  show "readings_ok bl_hw_410 idle_in (bl_hall_to_phase_table idle)" using idle_voltage
    by (simp add: readings_ok_def idle_def idle_in_def bl_in_zero_def hall_index_def hall_phases_def hall_rev_def fwd_to_rev_def step_ok_def)
  then show "readings_ok bl_hw_410 (bl_env idle) (bl_hall_to_phase_table idle)" by (simp add: idle_def)
qed

theorem bldc_returns_witness:
  "\<exists>m'. bl_run bl_hw_410 [Set_duty 1, Interrupt (Inj_irq idle_in), Set_duty_noramp (1 / 2), Interrupt (Adc_irq idle_in), Set_detect 0, Set_brake 10, Stop] idle = Some m' \<and> bl_wf m'"
  using bldc_returns [OF board_ok_410 idle_ok(1,2), of "[Set_duty 1, Interrupt (Inj_irq idle_in), Set_duty_noramp (1 / 2), Interrupt (Adc_irq idle_in), Set_detect 0, Set_brake 10, Stop]"] idle_ok(3)
  by auto

end
