(* ===== verification/BldcFrame.thy ===== *)
theory BldcFrame
  imports BldcRun
begin

text \<open>
  What the commutation of the six-step driver leaves alone, as a contract: a view of the state that does not depend on the bridges, the timer settings, the
  commutation and the counters is the same after every operation of the commutation. The contract is interpreted for the duty
  cycle with the current and the configuration, and for the state of the driver.
\<close>

section \<open>Kept views\<close>

definition kept :: "(bldc \<Rightarrow> 'k) \<Rightarrow> bldc \<Rightarrow> bldc option \<Rightarrow> bool" where
  "kept key m r \<longleftrightarrow> (\<forall>m'. r = Some m' \<longrightarrow> key m' = key m)"

lemma kept_Some: "key m' = key m \<Longrightarrow> kept key m (Some m')"
  by (simp add: kept_def)

lemma kept_bind: "kept key m r \<Longrightarrow> (\<And>m'. kept key m' (f m')) \<Longrightarrow> kept key m (r \<bind> f)"
  by (cases r) (auto simp: kept_def)

lemma kept_opt: "(\<And>x. kept key m (f x)) \<Longrightarrow> kept key m (r \<bind> f)"
  by (cases r) (auto simp: kept_def)

lemma kept_if: "kept key m x \<Longrightarrow> kept key m y \<Longrightarrow> kept key m (if c then x else y)"
  by simp

lemma kept_from: "kept key m1 r \<Longrightarrow> key m1 = key m \<Longrightarrow> kept key m r"
  by (simp add: kept_def)

lemma kept_eq: "kept key m r \<Longrightarrow> r = Some m' \<Longrightarrow> key m' = key m"
  by (simp add: kept_def)

locale commutation_frame =
  fixes key :: "bldc \<Rightarrow> 'k"
  assumes of_plain: "key (plain m) = key m"
    and frame [simp]: "key (m\<lparr>bl_out := x1\<rparr>) = key m" "key (m\<lparr>bl_comm_step := x2\<rparr>) = key m" "key (m\<lparr>bl_last_step := x3\<rparr>) = key m"
      "key (m\<lparr>bl_rpm_dep := x4\<rparr>) = key m" "key (m\<lparr>bl_tachometer := x5\<rparr>) = key m" "key (m\<lparr>bl_tachometer_abs := x6\<rparr>) = key m"
      "key (m\<lparr>bl_tachometer_for_direction := x7\<rparr>) = key m" "key (m\<lparr>bl_sensorless_now := x8\<rparr>) = key m" "key (m\<lparr>bl_has_commutated := x9\<rparr>) = key m"
      "key (m\<lparr>bl_last_pwm_cycles_sum := x10\<rparr>) = key m" "key (m\<lparr>bl_last_pwm_cycles_sums := x11\<rparr>) = key m" "key (m\<lparr>bl_pwm_cycles_sum := x12\<rparr>) = key m"
      "key (m\<lparr>bl_pwm_cycles := x13\<rparr>) = key m" "key (m\<lparr>bl_cycle_integrator := x14\<rparr>) = key m" "key (m\<lparr>bl_cycle_sum := x15\<rparr>) = key m"
      "key (m\<lparr>bl_cycle_integrator_sum := x16\<rparr>) = key m" "key (m\<lparr>bl_cycle_integrator_iterations := x17\<rparr>) = key m"
      "key (m\<lparr>bl_hall_detect_table := x18\<rparr>) = key m" "key (m\<lparr>bl_vzero := x19\<rparr>) = key m" "key (m\<lparr>bl_amp_fir := x20\<rparr>) = key m"
      "key (m\<lparr>bl_cycles_running := x21\<rparr>) = key m" "key (m\<lparr>bl_direction_before := x22\<rparr>) = key m" "key (m\<lparr>bl_events := x23\<rparr>) = key m"
      "key (m\<lparr>bl_pos_pid := x24\<rparr>) = key m" "key (m\<lparr>bl_current_set := x25\<rparr>) = key m" "key (m\<lparr>bl_last_adc_isr_duration := x26\<rparr>) = key m"
      "key (m\<lparr>bl_timer := x27\<rparr>) = key m"
begin

lemma plain_key: "plain m' = plain m \<Longrightarrow> key m' = key m"
  using of_plain [of m'] of_plain [of m] by simp

lemma small [simp]: "key (write_channels cs m) = key m" "key (commutation_event m) = key m" "key (update_sensor_mode m) = key m"
  "key (update_rpm_tacho m) = key m" "key (update_timer_attempt m) = key m" "key (count_cycles m) = key m" "key (bl_emit e m) = key m"
  by (simp_all add: write_channels_def commutation_event_def update_sensor_mode_def update_rpm_tacho_def Let_def update_timer_attempt_def count_cycles_def bl_emit_def)

lemma next_step [simp]: "key (set_next_comm_step s m) = key m"
  by (simp add: set_next_comm_step_def split: option.split)

lemma timer: "kept key m (apply_timer b t m)"
  by (auto simp: kept_def dest: plain_apply_timer plain_key)

lemma hw: "kept key m (set_duty_cycle_hw b d m)" "kept key m (bl_stop_pwm_hw b m)" "kept key m (full_brake_hw b m)"
  by (auto simp: kept_def bl_stop_pwm_hw_def full_brake_hw_def dest!: plain_set_duty_cycle_hw plain_set_switching_frequency dest: plain_key)

lemma finish: "kept key m (finish_commutation b m)"
  unfolding finish_commutation_def by (rule kept_from [OF kept_bind [OF timer]], rule kept_Some) simp_all

lemma commutate: "kept key m (commutate b k m)"
  unfolding commutate_def
proof (rule kept_opt)
  fix css
  define m1 where "m1 = m\<lparr>bl_last_pwm_cycles_sum := bl_pwm_cycles_sum m, bl_last_pwm_cycles_sums := css, bl_pwm_cycles_sum := 0, bl_pwm_cycles := 0\<rparr>"
  define m2 where "m2 = update_rpm_tacho (m1\<lparr>bl_comm_step := step_up (step_down (bl_comm_step m1 + k))\<rparr>)"
  have "key m1 = key m" "key m2 = key m" by (simp_all add: m1_def m2_def)
  then show "kept key m (let m1 = m\<lparr>bl_last_pwm_cycles_sum := bl_pwm_cycles_sum m, bl_last_pwm_cycles_sums := css, bl_pwm_cycles_sum := 0, bl_pwm_cycles := 0\<rparr>
      in if motor_type (bl_conf m1) = MOTOR_TYPE_BLDC \<and> bl_sensorless_now m1
         then (let m2 = update_rpm_tacho (m1\<lparr>bl_comm_step := step_up (step_down (bl_comm_step m1 + k))\<rparr>)
               in if bl_state m2 \<noteq> MC_STATE_RUNNING then Some (update_sensor_mode m2)
                  else finish_commutation b (set_next_comm_step (bl_comm_step m2) m2))
         else finish_commutation b m1)"
    unfolding m1_def [symmetric] Let_def unfolding m2_def [symmetric] by (intro kept_if kept_Some kept_from [OF finish]) simp_all
qed

lemma commutate_now: "kept key m (commutate_now b m)"
  unfolding commutate_now_def by (rule kept_from [OF commutate]) simp

lemma stuck: "kept key m (stuck b m)"
  unfolding stuck_def by (intro kept_if kept_bind commutate kept_Some) simp_all

lemma count_hall: "kept key m (count_hall_sample v m)"
  unfolding count_hall_sample_def by (intro kept_if kept_opt kept_Some) simp_all

lemma integrate: "kept key m (integrate_bemf v r m)"
  unfolding integrate_bemf_def Let_def by (intro kept_if kept_opt kept_Some) simp_all

lemma by_integral: "kept key m (commutate_integrate b m)"
  unfolding commutate_integrate_def Let_def by (intro kept_if kept_bind commutate kept_Some) simp_all

lemma by_delay: "kept key m (commutate_delay b v m)"
proof -
  have "kept key m (commutate b 1 (m\<lparr>bl_cycle_sum := x\<rparr>) \<bind> (\<lambda>m2. fdiv 1 (bemf_unit b) \<bind> (\<lambda>u.
      Some (m2\<lparr>bl_cycle_integrator_sum := f u m2, bl_cycle_integrator_iterations := g m2, bl_cycle_integrator := 0, bl_cycle_sum := 0\<rparr>))))" for x f g
    by (rule kept_from [OF kept_bind [OF commutate]], intro kept_opt kept_Some) simp_all
  moreover have "kept key m (Some (m\<lparr>bl_cycle_sum := x\<rparr>))" "kept key m (Some (m\<lparr>bl_cycle_integrator := 0, bl_cycle_sum := 0\<rparr>))" for x
    by (intro kept_Some; simp)+
  note k = calculation this
  show ?thesis unfolding commutate_delay_def Let_def by (rule kept_if, rule kept_opt, rule kept_opt, rule kept_if, (rule k)+)
qed

lemma track: "kept key m (track_bemf b m)"
  unfolding track_bemf_def Let_def case_prod_unfold
  by (intro kept_if kept_bind count_hall integrate by_integral by_delay kept_Some) simp_all

lemma sensorless: "kept key m (commutate_sensorless b m)"
  unfolding commutate_sensorless_def by (rule kept_bind [OF stuck], rule kept_bind [OF track], intro kept_opt kept_Some) simp

lemma hall: "kept key m (commutate_hall b m)"
  unfolding commutate_hall_def Let_def by (intro kept_opt kept_if kept_Some kept_from [OF commutate_now]) simp_all

lemma step: "kept key m (bldc_step b m)" "kept key m (dc_step b m)"
  unfolding bldc_step_def dc_step_def Let_def
  by (intro kept_opt kept_if kept_Some kept_from [OF sensorless] kept_from [OF hall] kept_from [OF commutate_now]; simp)+

lemma pos_pid: "kept key m (bl_run_pid_control_pos enc dt m)"
  unfolding bl_run_pid_control_pos_def Let_def case_prod_unfold by (intro kept_if kept_opt kept_Some) simp_all

text \<open>The interrupt of the converters, up to the control of the duty cycle and from there on.\<close>

lemma before_control:
  assumes "m1 = count_cycles (bl_emit bl_watchdog_reset (update_timer_attempt m))"
    "(if motor_type (bl_conf m1) = MOTOR_TYPE_BLDC then bldc_step b m1 else dc_step b m1) = Some m2"
  shows "key m2 = key m"
proof -
  have "key m2 = key m1" by (rule kept_eq [OF kept_if [OF step] assms(2)])
  then show ?thesis by (simp add: assms(1))
qed

lemma handler:
  assumes "mcpwm_adc_int_handler b m = Some m'"
  shows "\<exists>m2 m3. (let m1 = count_cycles (bl_emit bl_watchdog_reset (update_timer_attempt m)) in
      if motor_type (bl_conf m1) = MOTOR_TYPE_BLDC then bldc_step b m1 else dc_step b m1) = Some m2 \<and>
    control_duty b m2 = Some m3 \<and> key m2 = key m \<and> key m' = key m3"
proof -
  obtain m2 m3 m5 where s: "(if motor_type (bl_conf (count_cycles (bl_emit bl_watchdog_reset (update_timer_attempt m)))) = MOTOR_TYPE_BLDC
        then bldc_step b (count_cycles (bl_emit bl_watchdog_reset (update_timer_attempt m)))
        else dc_step b (count_cycles (bl_emit bl_watchdog_reset (update_timer_attempt m)))) = Some m2" "control_duty b m2 = Some m3"
    "(case bl_encoder (bl_env (bl_emit bl_mc_timer_isr m3)) of None \<Rightarrow> Some (bl_emit bl_mc_timer_isr m3)
        | Some enc \<Rightarrow> fdiv 1 (bl_switching_frequency_now (bl_emit bl_mc_timer_isr m3)) \<bind> (\<lambda>dt. bl_run_pid_control_pos enc dt (bl_emit bl_mc_timer_isr m3))) = Some m5"
    "m' = m5\<lparr>bl_last_adc_isr_duration := fl (fl (of_nat (unat (bl_tim12_cnt (bl_env m5)))) / 10000000)\<rparr>"
    using assms unfolding mcpwm_adc_int_handler_def Let_def by (elim bind_SomeE Some_SomeE)
  have "kept key (bl_emit bl_mc_timer_isr m3) (case bl_encoder (bl_env (bl_emit bl_mc_timer_isr m3)) of None \<Rightarrow> Some (bl_emit bl_mc_timer_isr m3)
        | Some enc \<Rightarrow> fdiv 1 (bl_switching_frequency_now (bl_emit bl_mc_timer_isr m3)) \<bind> (\<lambda>dt. bl_run_pid_control_pos enc dt (bl_emit bl_mc_timer_isr m3)))"
    by (cases "bl_encoder (bl_env (bl_emit bl_mc_timer_isr m3))") (auto intro: kept_opt pos_pid kept_Some)
  from kept_eq [OF this s(3)] have "key m' = key m3" by (simp add: s(4))
  with before_control [OF refl s(1)] s(1,2) show ?thesis unfolding Let_def by blast
qed

end

section \<open>The duty cycle, and the state\<close>

definition duty_key :: "bldc \<Rightarrow> real \<times> real \<times> mc_configuration" where
  "duty_key m = (bl_dutycycle_now m, bl_last_current_sample m, bl_conf m)"

interpretation duty: commutation_frame duty_key
  by unfold_locales (simp_all add: duty_key_def plain_def)

interpretation state: commutation_frame bl_state
  by unfold_locales (simp_all add: plain_def)

lemma duty_state [simp]: "duty_key (m\<lparr>bl_state := st\<rparr>) = duty_key m" "duty_key (m\<lparr>bl_direction := d\<rparr>) = duty_key m"
  by (simp_all add: duty_key_def)

lemma duty_ll: "kept duty_key m (stop_pwm_ll b m)" "kept duty_key m (full_brake_ll b m)"
  unfolding stop_pwm_ll_def full_brake_ll_def by (rule kept_from, rule duty.hw, simp add: duty_key_def)+

lemma duty_start: "kept duty_key m (start_motor b m)"
  unfolding start_motor_def Let_def by (intro kept_opt kept_if kept_Some kept_from [OF duty.commutate]) simp_all

lemma duty_set_ll: "kept duty_key m (set_duty_cycle_ll b d m)"
proof -
  define p where "p = (if d \<ge> l_min_duty (bl_conf m) then (d, m\<lparr>bl_direction := True\<rparr>)
                     else if d \<le> - l_min_duty (bl_conf m) then (- d, m\<lparr>bl_direction := False\<rparr>) else (d, m))"
  have k: "duty_key (snd p) = duty_key m" by (simp add: p_def)
  have go: "kept duty_key m (set_duty_cycle_hw b e (snd p) \<bind> start_motor b)" for e
    by (rule kept_from [OF kept_bind [OF duty.hw(1) duty_start] k])
  show ?thesis unfolding set_duty_cycle_ll_def Let_def p_def [symmetric] case_prod_unfold
    using go kept_from [OF duty_ll(1) k] kept_from [OF duty_ll(2) k] kept_Some [of duty_key, OF k] by (cases "bl_state (snd p)") simp_all
qed

section \<open>A driver that is off\<close>

lemma norm_fields: "bl_state (norm_currents b m) = bl_state m" "bl_detect (norm_currents b m) = bl_detect m" "bl_conf (norm_currents b m) = bl_conf m"
  by (simp_all add: norm_currents_def Let_def case_prod_unfold)

lemma total_current_fields: "total_current m = (c, m1) \<Longrightarrow> bl_state m1 = bl_state m \<and> bl_detect m1 = bl_detect m \<and> bl_conf m1 = bl_conf m"
  unfolding total_current_def Let_def case_prod_unfold by (auto split: if_split_asm)

lemma detect_sample_eff:
  assumes "detect_sample b m = Some m'"
  shows "bridge_of m' = (all_off, all_off) \<and> bl_state m' = bl_state m"
proof -
  have "\<exists>d. bl_stop_pwm_hw b (m\<lparr>bl_detect := d\<rparr>) = Some m'"
    using assms unfolding detect_sample_def Let_def case_prod_unfold by (elim bind_SomeE) blast
  then show ?thesis using stop_pwm_hw_eff(1,2) by fastforce
qed

lemma detection_state: "kept bl_state m (rotor_detection b m)"
proof -
  have s: "kept bl_state m (if det_now (bl_detect m) = 4 then detect_sample b m else Some m)"
    by (auto simp: kept_def dest: detect_sample_eff)
  have p: "kept bl_state n (detect_pulse b n)" for n
    unfolding detect_pulse_def Let_def by (rule kept_from [OF kept_bind [OF state.hw(1)]], rule kept_Some) simp_all
  show ?thesis unfolding rotor_detection_def Let_def by (rule kept_bind [OF s]) (auto intro: kept_Some kept_from [OF p])
qed

lemma inj_state: "kept bl_state m (mcpwm_adc_inj_int_handler b m)"
proof -
  obtain c m1 where t: "total_current (norm_currents b m) = (c, m1)" by fastforce
  have "bl_state m1 = bl_state m" using total_current_fields [OF t] norm_fields by simp
  then show ?thesis unfolding mcpwm_adc_inj_int_handler_def t Let_def prod.case
    by (intro kept_from [OF kept_bind [OF kept_if [OF kept_Some detection_state]]] kept_opt kept_Some) simp_all
qed

lemma interrupt_off:
  assumes "bl_interrupt b q m = Some m'" "bl_state m = MC_STATE_OFF"
  shows "bl_state m' = MC_STATE_OFF"
proof (cases q)
  case (Inj_irq i)
  then show ?thesis using assms kept_eq [OF inj_state, of b "env_step i m" m'] by (simp add: env_step_def)
next
  case (Adc_irq i)
  then have "mcpwm_adc_int_handler b (env_step i m) = Some m'" using assms(1) by simp
  then obtain m2 m3 where "control_duty b m2 = Some m3" "bl_state m2 = bl_state (env_step i m)" "bl_state m' = bl_state m3" using state.handler by blast
  then show ?thesis using assms(2) by (simp add: env_step_def control_duty_def)
qed

text \<open>A driver that is off stays off, with all phases open, over any interrupts.\<close>

lemma run_off:
  "bl_run b (map Interrupt qs) m = Some m' \<Longrightarrow> bl_state m = MC_STATE_OFF \<Longrightarrow> bl_inv True m \<Longrightarrow>
    bl_state m' = MC_STATE_OFF \<and> out_active (bl_out m') = all_off"
proof (induction qs arbitrary: m)
  case Nil
  then show ?case by (simp add: bl_inv_def bridge_of_def)
next
  case (Cons q qs)
  then obtain m1 where m1: "bl_interrupt b q m = Some m1" "bl_run b (map Interrupt qs) m1 = Some m'" by (auto elim: bind_SomeE)
  then show ?case using Cons.IH [OF m1(2) interrupt_off [OF m1(1) Cons.prems(2)] inv_interrupt [OF m1(1) Cons.prems(3)]] by simp
qed

end
