(* ===== verification/BldcLimits.thy ===== *)
theory BldcLimits
  imports BldcFrame
begin

text \<open>
  The current limit of the six-step driver: while the measured current is above its limit, an interrupt of the converters never makes the duty
  cycle larger, whatever the control mode and the set value are; and stopping. One thing the code does not mean to do is shown too: a jump of the duty cycle leaves a compare
  value beyond the new period.
\<close>

section \<open>The current limits\<close>

definition over_current :: "bldc \<Rightarrow> bool" where
  "over_current m \<longleftrightarrow> bl_last_current_sample m > lo_current_max (bl_conf m) \<or>
     \<not> bl_last_current_sample m < lo_current_min (bl_conf m) \<and>
       fl (bl_last_current_sample m * \<bar>bl_dutycycle_now m\<bar>) > lo_in_current_max (bl_conf m)"

lemma over_current_key: "duty_key m' = duty_key m \<Longrightarrow> over_current m' = over_current m"
  by (simp add: over_current_def duty_key_def)

lemma step_towards_zero: "is_f32 v \<Longrightarrow> 0 \<le> s \<Longrightarrow> \<bar>utils_step_towards v 0 s\<bar> \<le> \<bar>v\<bar>"
  using f32.rnd_ge [of v "v + s"] f32.rnd_le [of "v - s" v] by (auto simp: utils_step_towards_def)

lemma key_current_step: "current_step m e v = Some (s, m1) \<Longrightarrow> duty_key m1 = duty_key m"
  unfolding current_step_def Let_def slow_ramp_def by (elim bind_SomeE pair_SomeE Some_SomeE) (auto simp: duty_key_def split: if_split_asm)

lemma key_ramp_target:
  assumes "ramp_target rs vs m = Some (d, m1)"
  shows "duty_key m1 = duty_key m"
proof -
  have "duty_key m1 = duty_key m" if "ramp_current rs vs m = Some (d, m1)"
    using that unfolding ramp_current_def Let_def by (elim bind_SomeE) (auto simp: duty_key_def dest!: key_current_step)
  moreover have "duty_key m1 = duty_key m" if "ramp_brake vs m = Some (d, m1)"
    using that unfolding ramp_brake_def Let_def by (elim bind_SomeE) (auto simp: duty_key_def dest!: key_current_step split: if_split_asm)
  ultimately show ?thesis using assms by (auto simp: ramp_target_def split: if_split_asm)
qed

lemma limited:
  assumes "over_current m" "is_f32 (bl_dutycycle_now m)" "0 \<le> s" "0 \<le> m_current_backoff_gain (bl_conf m)"
  shows "\<bar>bl_dutycycle_now (apply_limits s d m)\<bar> \<le> \<bar>bl_dutycycle_now m\<bar> \<and> bl_limit_delay (apply_limits s d m) = 1 \<and> bl_conf (apply_limits s d m) = bl_conf m"
proof -
  have "0 \<le> fl (fl (s * \<bar>x\<bar>) * m_current_backoff_gain (bl_conf m))" for x
    using assms(3,4) by (intro f32.rnd_nonneg mult_nonneg_nonneg) simp_all
  note b = step_towards_zero [OF assms(2) this]
  have l: "\<bar>bl_dutycycle_now n\<bar> \<le> \<bar>bl_dutycycle_now m\<bar> \<and> bl_limit_delay n = 1 \<and> bl_conf n = bl_conf m"
    if "n = limit_toward 0 (fl (fl (s * \<bar>x\<bar>) * m_current_backoff_gain (bl_conf m))) m" for n x
    using b [of x] unfolding that by (simp add: limit_toward_def)
  show ?thesis
  proof (cases "bl_last_current_sample m > lo_current_max (bl_conf m)")
    case True
    then show ?thesis by (intro l) (simp only: apply_limits_def Let_def if_True)
  next
    case False
    with assms(1) have h: "\<not> bl_last_current_sample m < lo_current_min (bl_conf m)"
      "fl (bl_last_current_sample m * \<bar>bl_dutycycle_now m\<bar>) > lo_in_current_max (bl_conf m)" by (auto simp: over_current_def)
    show ?thesis by (intro l) (simp only: apply_limits_def Let_def False h if_True if_False)
  qed
qed

lemma after_limit:
  assumes "bl_limit_delay m = 1"
  shows "\<bar>bl_dutycycle_now (hold_direction r (restart_duty (take_duty d m)))\<bar> \<le> max \<bar>bl_dutycycle_now m\<bar> \<bar>l_min_duty (bl_conf m)\<bar>"
  using assms by (auto simp: take_duty_def restart_duty_def hold_direction_def Let_def)

lemma key_slow_ramp: "slow_ramp (s, m) = (s', m') \<Longrightarrow> duty_key m' = duty_key m"
  by (auto simp: slow_ramp_def duty_key_def split: if_split_asm)

lemma ramp_limited:
  assumes "ramp_duty v m = Some m'" "ready b m" "over_current m" "is_f32 (bl_dutycycle_now m)"
  shows "\<bar>bl_dutycycle_now m'\<bar> \<le> max \<bar>bl_dutycycle_now m\<bar> (l_min_duty (bl_conf m))"
proof -
  note c = readyD(1) [OF assms(2)]
  obtain vs n rs m1 d m2 where r: "fdiv (m_duty_ramp_step (bl_conf m)) (fl (bl_switching_frequency_now m / 1000)) = Some n"
    "slow_ramp (n, m) = (rs, m1)" "ramp_target rs vs m1 = Some (d, m2)"
    "m' = hold_direction (mcpwm_get_rpm m) (restart_duty (take_duty d (apply_limits n d m2)))"
    using assms(1) unfolding ramp_duty_def Let_def by (elim bind_SomeE) (auto split: prod.split_asm elim!: bind_SomeE)
  have n: "0 \<le> n" using r(1) c freq_scale [OF assms(2)] by (auto simp: fdiv_def bl_conf_ok_def f32.rnd_nonneg split: if_split_asm)
  have k: "duty_key m2 = duty_key m" using key_slow_ramp [OF r(2)] key_ramp_target [OF r(3)] by simp
  then have f: "bl_dutycycle_now m2 = bl_dutycycle_now m" "bl_conf m2 = bl_conf m" by (simp_all add: duty_key_def)
  have l: "\<bar>bl_dutycycle_now (apply_limits n d m2)\<bar> \<le> \<bar>bl_dutycycle_now m\<bar>" "bl_limit_delay (apply_limits n d m2) = 1" "bl_conf (apply_limits n d m2) = bl_conf m"
    using limited [of m2 n d] over_current_key [OF k] assms(3,4) n c f by (simp_all add: bl_conf_ok_def)
  show ?thesis using after_limit [OF l(2), of "mcpwm_get_rpm m" d] l(1,3) c unfolding r(4) by (auto simp: bl_conf_ok_def)
qed

lemma control_limited:
  assumes "control_duty b m = Some m'" "ready b m" "over_current m" "is_f32 (bl_dutycycle_now m)"
  shows "\<bar>bl_dutycycle_now m'\<bar> \<le> max \<bar>bl_dutycycle_now m\<bar> (l_min_duty (bl_conf m))"
  using assms(1) unfolding control_duty_def
proof (elim if_SomeE bind_SomeE Some_SomeE)
  fix m1 assume r: "ramp_duty (input_voltage b m) m = Some m1" "set_duty_cycle_ll b (bl_dutycycle_now m1) m1 = Some m'"
  have "bl_dutycycle_now m' = bl_dutycycle_now m1" using kept_eq [OF duty_set_ll r(2)] by (simp add: duty_key_def)
  then show ?thesis using ramp_limited [OF r(1) assms(2-4)] by simp
qed simp

text \<open>C8: The current limit. From a well-formed state with a sane configuration and readings the code is made for (a supply voltage that is not zero, a hall position with
  a commutation step in the table, an encoder angle within 360 degrees), and a duty cycle that is a float: while the measured motor current, or the input current it amounts to, is above its limit, the
  interrupt of the converters returns and the duty cycle is no larger afterwards than before, or than the minimum duty cycle, in every control
  mode, for every set value, speed and phase voltage.\<close>

theorem bldc_current_limit:
  assumes "ready b m" "over_current m" "is_f32 (bl_dutycycle_now m)"
  shows "\<exists>m'. mcpwm_adc_int_handler b m = Some m' \<and> \<bar>bl_dutycycle_now m'\<bar> \<le> max \<bar>bl_dutycycle_now m\<bar> (l_min_duty (bl_conf m))"
proof -
  let ?m1 = "count_cycles (bl_emit bl_watchdog_reset (update_timer_attempt m))"
  let ?s = "if motor_type (bl_conf ?m1) = MOTOR_TYPE_BLDC then bldc_step b ?m1 else dc_step b ?m1"
  obtain m' where m': "mcpwm_adc_int_handler b m = Some m'" using adc_returns [OF assms(1)] by (auto simp: returns_def)
  obtain m2 m3 where s: "?s = Some m2" "control_duty b m2 = Some m3" "duty_key m2 = duty_key m" "duty_key m' = duty_key m3"
    using duty.handler [OF m'] unfolding Let_def by blast
  have m1: "ready b ?m1" using ready_attempt [OF assms(1)] by simp
  have "returns b ?m1 ?s" using bldc_step_returns [OF m1] dc_step_returns [OF m1] by simp
  then have "ready b m2" using m1 s(1) by (auto elim: returnsE)
  moreover have "bl_dutycycle_now m2 = bl_dutycycle_now m" "bl_conf m2 = bl_conf m" using s(3) by (simp_all add: duty_key_def)
  ultimately have "\<bar>bl_dutycycle_now m3\<bar> \<le> max \<bar>bl_dutycycle_now m\<bar> (l_min_duty (bl_conf m))"
    using control_limited [OF s(2)] over_current_key [OF s(3)] assms(2,3) by simp
  then show ?thesis using m' s(4) by (simp add: duty_key_def)
qed

theorem bldc_current_limit_witness:
  "\<exists>m'. mcpwm_adc_int_handler bl_hw_410 (idle\<lparr>bl_state := MC_STATE_RUNNING, bl_has_commutated := True, bl_dutycycle_now := 1 / 2,
       bl_last_current_sample := 100\<rparr>) = Some m' \<and> \<bar>bl_dutycycle_now m'\<bar> \<le> max (1 / 2) (fl 0.005)"
proof -
  let ?m = "idle\<lparr>bl_state := MC_STATE_RUNNING, bl_has_commutated := True, bl_dutycycle_now := 1 / 2, bl_last_current_sample := 100\<rparr>"
  have c: "bl_conf ?m = conf_general_get_default_mc_configuration" by (simp add: idle_def example_def bl_static_def)
  have "ready bl_hw_410 idle" using board_ok_410 idle_ok by (simp add: ready_def)
  then have r: "ready bl_hw_410 ?m" by (simp add: ready_duty(1))
  have o: "over_current ?m" unfolding over_current_def c
    by (simp add: conf_general_get_default_mc_configuration_def MCCONF_L_CURRENT_MAX_def)
  have f: "is_f32 (bl_dutycycle_now ?m)" using is_f32_power [of 1] by simp
  show ?thesis using bldc_current_limit [OF r o f] unfolding c
    by (simp add: conf_general_get_default_mc_configuration_def MCCONF_L_MIN_DUTY_def)
qed

lemma plain_mode: "plain m' = plain m \<Longrightarrow> bl_control_mode m' = bl_control_mode m"
proof -
  have "bl_control_mode (plain n) = bl_control_mode n" for n by (simp add: plain_def)
  then show "plain m' = plain m \<Longrightarrow> bl_control_mode m' = bl_control_mode m" by metis
qed

section \<open>Stopping\<close>

text \<open>Stopping. From every well-formed state, \<open>mcpwm_stop_pwm\<close> returns with the driver off, no control mode and all phases open at once.\<close>

theorem bldc_stop:
  assumes "ready b m"
  shows "\<exists>m'. mcpwm_stop_pwm b m = Some m' \<and> bl_state m' = MC_STATE_OFF \<and> bl_control_mode m' = CONTROL_MODE_NONE \<and>
    out_active (bl_out m') = all_off \<and> out_next (bl_out m') = all_off"
proof -
  obtain m' where m': "mcpwm_stop_pwm b m = Some m'" using stop_returns [OF assms] by (auto simp: returns_def)
  note u = m' [unfolded mcpwm_stop_pwm_def stop_pwm_ll_def]
  have "bl_control_mode m' = CONTROL_MODE_NONE"
    using plain_mode [OF plain_set_switching_frequency [OF u [unfolded bl_stop_pwm_hw_def]]] by (simp add: commutation_event_def write_channels_def)
  then show ?thesis using m' stop_pwm_hw_eff(1,2) [OF u] by (simp add: bridge_of_def)
qed

lemma ready_idle: "ready bl_hw_410 idle"
  using board_ok_410 idle_ok by (simp add: ready_def)

theorem bldc_stop_witness:
  "\<exists>m'. mcpwm_stop_pwm bl_hw_410 (idle\<lparr>bl_state := MC_STATE_RUNNING\<rparr>) = Some m' \<and> bl_state m' = MC_STATE_OFF \<and> out_active (bl_out m') = all_off"
  using bldc_stop [of bl_hw_410 "idle\<lparr>bl_state := MC_STATE_RUNNING\<rparr>"] ready_idle by auto

section \<open>A duty cycle of another period\<close>

text \<open>The compare value of a new duty cycle is computed with the period of the old switching frequency. A jump from 5 percent (a period of 34639) to 87.5 percent
  gives a compare value of 30309 for the new period of 4749: the phase stays high until the duty cycle is set again.\<close>

theorem duty_beyond_period:
  assumes "tm_top (bl_timer m) = 34639" "motor_type (bl_conf m) = MOTOR_TYPE_BLDC" "pwm_mode (bl_conf m) = PWM_MODE_SYNCHRONOUS"
    and "l_min_duty (bl_conf m) \<le> 7 / 8" "7 / 8 \<le> l_max_duty (bl_conf m)" "bl_conf_ok (bl_conf m)" "\<not> IS_DETECTING m"
  shows "\<exists>m'. set_duty_cycle_hw b (7 / 8) m = Some m' \<and> tm_duty (bl_timer m') = 30309 \<and> tm_top (bl_timer m') = 4749"
proof -
  have d: "truncated (7 / 8) (l_min_duty (bl_conf m)) (l_max_duty (bl_conf m)) = 7 / 8"
    using assms(4,5) by (simp add: truncated_def utils_truncate_number_def)
  have e: "fl (1 / 8) = 1 / 8" using fl_dyadic [of 1 3] by simp
  have f: "switching_frequency (bl_conf m) (IS_DETECTING m) (7 / 8) = 35375"
    using assms(2,3,7)
    by (simp add: switching_frequency_def MCPWM_SWITCH_FREQUENCY_MIN_def MCPWM_SWITCH_FREQUENCY_MAX_def, unfold e, simp)
  have t: "timer_top 35375 = Some 4749" by (simp add: timer_top_def f2i32_def ftrunc_def SYSTEM_CORE_CLOCK_def c_div_def)
  have q: "fl (242473 / 8) = 242473 / 8" using fl_dyadic [of 242473 3] by simp
  have c: "duty_compare (bl_conf m) (IS_DETECTING m) 34639 (7 / 8) = Some 30309"
    using assms(2,3)
    by (simp add: duty_compare_def of_u32_def f2u16_def ftrunc_def, unfold q, simp)
  have o: "unat (tm_top ((bl_timer m)\<lparr>tm_duty := 30309, tm_top := 4749\<rparr>)) \<le> 58000" by simp
  show ?thesis unfolding set_duty_cycle_hw_def Let_def d f assms(1) c t Option.bind_lunit
    using apply_timer_total [of "m\<lparr>bl_switching_frequency_now := 35375\<rparr>" "(bl_timer m)\<lparr>tm_duty := 30309, tm_top := 4749\<rparr>" b] assms(6) o by auto
qed

end
