(* ===== verification/BldcCalls.thy ===== *)
theory BldcCalls
  imports McInterface BldcLimits
begin

text \<open>
  The motor interface (\<open>mc_interface.c\<close>) on top of the six-step driver (\<open>mcpwm.c\<close>): the calls that the interface makes are run by the
  driver. A fault opens all phases, and they stay open while the fault holds, whatever is commanded and whatever the interrupts read.
\<close>

text \<open>The calls of the interface to this driver; those to other parts do not reach it. Starting and stopping the driver itself is not covered.\<close>

fun bl_call :: "bl_board \<Rightarrow> mc_call \<Rightarrow> bldc \<Rightarrow> bldc option" where
  "bl_call b (drv_set_duty Mcpwm x) m = mcpwm_set_duty b x m"
| "bl_call b (drv_set_duty_noramp Mcpwm x) m = mcpwm_set_duty_noramp b x m"
| "bl_call b (drv_set_pid_speed Mcpwm x) m = Some (mcpwm_set_pid_speed x m)"
| "bl_call b (drv_set_pid_pos Mcpwm x) m = mcpwm_set_pid_pos b x m"
| "bl_call b (drv_set_current Mcpwm x) m = mcpwm_set_current b x m"
| "bl_call b (drv_set_brake_current Mcpwm x) m = mcpwm_set_brake_current b x m"
| "bl_call b (drv_set_configuration Mcpwm cf) m = mcpwm_set_configuration b cf m"
| "bl_call b (drv_stop_pwm Mcpwm) m = mcpwm_stop_pwm b m"
| "bl_call b (drv_adc_inj_int_handler Mcpwm) m = mcpwm_adc_inj_int_handler b m"
| "bl_call b (drv_init Mcpwm) m = None"
| "bl_call b (drv_deinit Mcpwm) m = None"
| "bl_call b (drv_tachometer_reset Mcpwm) m = Some (snd (mcpwm_get_tachometer_value True m))"
| "bl_call b (drv_tachometer_abs_reset Mcpwm) m = Some (snd (mcpwm_get_tachometer_abs_value True m))"
| "bl_call b _ m = Some m"

primrec bl_calls :: "bl_board \<Rightarrow> mc_call list \<Rightarrow> bldc \<Rightarrow> bldc option" where
  "bl_calls b [] m = Some m"
| "bl_calls b (c # cs) m = do { m1 \<leftarrow> bl_call b c m; bl_calls b cs m1 }"

lemma fault_calls:
  assumes "driver_of (motor_type (m_conf s)) = Some Mcpwm"
  shows "\<exists>r. calls (mc_interface_fault_stop env fault s) = calls s @ r @ [drv_stop_pwm Mcpwm] \<and> (r = [] \<or> (\<exists>x. r = [terminal_add_fault_data x]))"
  using assms by (auto simp: mc_interface_fault_stop_def dispatch_def call_def Let_def)

text \<open>C35: A fault opens the bridges. When the motor interface of a controller with the six-step driver stops for a fault, from any well-formed state of the
  driver: the calls that reach the driver before the hold time has run out (fewer rounds of the timer thread than the stop time in milliseconds, without a
  new fault), whatever motor commands are tried meanwhile, leave the driver off with all phases open, and both stay so over every
  sequence of its interrupts with readings it is made for.\<close>

theorem fault_opens_bridges:
  assumes "driver_of (motor_type (m_conf s)) = Some Mcpwm" "ready b m"
    and "\<forall>x \<in> set xs. calm (m_conf s) (op_env x)" "int (ticks xs) < sint (m_fault_stop_time_ms (m_conf s))"
    and "\<forall>q \<in> set qs. readings_ok b (irq_in q) (bl_hall_to_phase_table m)"
  shows "\<exists>m1 m2. bl_calls b (drop (length (calls s)) (calls (fold run_op xs (mc_interface_fault_stop env fault s)))) m = Some m1 \<and>
    bl_state m1 = MC_STATE_OFF \<and> out_active (bl_out m1) = all_off \<and>
    bl_run b (map Interrupt qs) m1 = Some m2 \<and> bl_state m2 = MC_STATE_OFF \<and> out_active (bl_out m2) = all_off"
proof -
  let ?s = "mc_interface_fault_stop env fault s"
  obtain r where r: "calls ?s = calls s @ r @ [drv_stop_pwm Mcpwm]" "r = [] \<or> (\<exists>x. r = [terminal_add_fault_data x])"
    using fault_calls [OF assms(1)] by blast
  have f: "l_temp_fet_end (m_conf ?s) = l_temp_fet_end (m_conf s)" "m_ignore_iterations ?s = sint (m_fault_stop_time_ms (m_conf s))" by simp_all
  have "\<forall>x \<in> set xs. calm (m_conf ?s) (op_env x)" using assms(3) calm_cong [OF f(1)] by simp
  from waiting_run [OF this] assms(4) f(2) have c: "calls (fold run_op xs ?s) = calls ?s" by simp
  obtain m1 where m1: "mcpwm_stop_pwm b m = Some m1" "ready b m1" "bl_hall_to_phase_table m1 = bl_hall_to_phase_table m"
    using stop_returns [OF assms(2)] by (rule returnsE [OF _ assms(2)])
  note o = stop_pwm_hw_eff(1,2) [OF m1(1) [unfolded mcpwm_stop_pwm_def stop_pwm_ll_def]]
  have e: "bl_state m1 = MC_STATE_OFF" "bl_inv True m1" using o by (simp_all add: bl_inv_def)
  have d: "bl_calls b (drop (length (calls s)) (calls (fold run_op xs ?s))) m = Some m1"
    unfolding c r(1) using r(2) m1(1) by auto
  have "\<forall>x \<in> set (map Interrupt qs). op_ok b (bl_hall_to_phase_table m1) x" using assms(5) m1(3) by simp
  then obtain m2 where m2: "bl_run b (map Interrupt qs) m1 = Some m2" using run_total [OF m1(2)] by blast
  show ?thesis using d e o m2 run_off [OF m2 e] by (auto simp: bridge_of_def)
qed

theorem fault_opens_bridges_witness:
  "\<exists>m1 m2. bl_calls bl_hw_410 (calls (fold run_op [Motor (Duty 1) rest, Tick rest] (mc_interface_fault_stop rest FAULT_CODE_DRV8302 mcif_start)))
      (idle\<lparr>bl_state := MC_STATE_RUNNING\<rparr>) = Some m1 \<and> bl_state m1 = MC_STATE_OFF \<and> out_active (bl_out m1) = all_off \<and>
    bl_run bl_hw_410 (map Interrupt [Inj_irq idle_in, Adc_irq idle_in]) m1 = Some m2 \<and> bl_state m2 = MC_STATE_OFF \<and> out_active (bl_out m2) = all_off"
proof -
  have s: "driver_of (motor_type (m_conf mcif_start)) = Some Mcpwm" "calls mcif_start = []"
    by (simp_all add: mcif_start_def default_conf MCCONF_DEFAULT_MOTOR_TYPE_def)
  have c: "\<forall>x \<in> set [Motor (Duty 1) rest, Tick rest]. calm (m_conf mcif_start) (op_env x)" using calm_rest by simp
  have t: "int (ticks [Motor (Duty 1) rest, Tick rest]) < sint (m_fault_stop_time_ms (m_conf mcif_start))"
    by (simp add: ticks_def mcif_start_def default_conf MCCONF_M_FAULT_STOP_TIME_def)
  have r: "ready bl_hw_410 (idle\<lparr>bl_state := MC_STATE_RUNNING\<rparr>)" using ready_idle by simp
  have q: "\<forall>q \<in> set [Inj_irq idle_in, Adc_irq idle_in]. readings_ok bl_hw_410 (irq_in q) (bl_hall_to_phase_table (idle\<lparr>bl_state := MC_STATE_RUNNING\<rparr>))"
    using idle_ok(3) by simp
  from fault_opens_bridges [OF s(1) r c t q, of rest FAULT_CODE_DRV8302] show ?thesis unfolding s(2) list.size(3) drop_0 .
qed

end
