(* ===== verification/Spec2Isabelle.thy ===== *)
theory Spec2Isabelle
  imports Crc Buffer Packet Eeprom Utils Datatypes ConfDefault McInterface Timeout FlashHelper ConfGeneral ConfDetect CommCan
    ConfCodec App Commands Svm Trig FocStart Encoder ServoDec AppOutput AppPpm AppAdc AppNunchuk
    FilterCorrect BldcCalls
begin

text \<open>
  A verification of the core of the \<open>bldc\<close> motor-controller firmware: its communication, its persistent
  configuration, its safety interface to the motor drivers, the command interpreter that connects them, and the
  two motor drivers, field-oriented and six-step.

  \<^bold>\<open>The program.\<close> A host sends packets over USB or a serial line; \<open>packet.c\<close> frames them and \<open>commands.c\<close> interprets
  them. Commands read and write the configurations, which \<open>conf_general.c\<close> keeps in a flash-backed store
  (\<open>eeprom.c\<close>), set the motor through \<open>mc_interface.c\<close>, which guards the two drivers with a lock and a fault hold,
  update the firmware (\<open>flash_helper.c\<close>), or are forwarded to other controllers over CAN (\<open>comm_can.c\<close>), which run the same
  interpreter. The field-oriented driver (\<open>mcpwm_foc.c\<close>) runs in the interrupt of the current samples: it estimates the rotor position,
  limits the requested current, controls it and writes the compare values of the three half bridges. The six-step driver (\<open>mcpwm.c\<close>)
  commutates with hall sensors or the back-emf and ramps one duty cycle, in two interrupts and two threads. A watchdog (\<open>timeout.c\<close>) brakes when no command comes. Instead of a host, a servo pulse, analogue inputs or a hand
  controller can set the motor (\<open>applications/app_ppm.c\<close>, \<open>app_adc.c\<close>, \<open>app_nunchuk.c\<close>). Timers, interrupts and threads drive these parts.

  \<^bold>\<open>The theories\<close>, each a component with its state as a record, its operations as functions and its lemmas:

  \<^item> \<open>Prelude\<close>: C arrays as lists with undefined accesses as \<^term>\<open>None\<close> (\<open>arr_get\<close>, \<open>arr_set\<close>, \<open>memcpy\<close>, \<open>arr_put\<close>), bytes of words.
  \<^item> \<open>Float32\<close>: the \<open>float\<close> arithmetic of the FPU as rounding of reals, with a locale of rounding laws interpreted on it.
    Infinities and NaN are not represented; where a result could overflow the theorems bound it.
  \<^item> \<open>Crc\<close> (\<open>crc.c\<close>): the table-driven checksum equals the bitwise one; bursts over two bytes are detected.
  \<^item> \<open>Buffer\<close> (\<open>buffer.c\<close>): a locale of codecs, interpreted for the integer formats; round trips and the drift of scaled floats.
  \<^item> \<open>Packet\<close> (\<open>packet.c\<close>): sender, receiver state machine and timer of every handler, as steps over arbitrary
    interleavings; memory safety, round trip, soundness of delivery, resynchronisation, and the lost length 256.
  \<^item> \<open>Flash\<close>, \<open>Eeprom\<close> (\<open>stm32f4xx_flash.c\<close>, \<open>eeprom.c\<close>): flash operations with the controller's replies as inputs and a snapshot after
    every operation, so that a power failure is a prefix; the two-page store refines a map from
    variables to values, also across page transfers and power failures; what happens outside its assumptions.
  \<^item> \<open>Utils\<close> (\<open>utils.c\<close>): angles, filters, truncation and the counted system lock; loops that may not end are partial.
  \<^item> \<open>Datatypes\<close>, \<open>ConfDefault\<close> (\<open>datatypes.h\<close>, \<open>mcconf_default.h\<close>, \<open>appconf_default.h\<close>): enumerations, structures and defaults.
  \<^item> \<open>McInterface\<close> (\<open>mc_interface.c\<close>): lock and override, a locale for the motor commands interpreted on each of them, faults
    and their hold time, energy counters, limits, the timer interrupt with its sampling, threads.
  \<^item> \<open>Timeout\<close> (\<open>timeout.c\<close>): the watchdog, across the wrap-around of the system time.
  \<^item> \<open>FlashHelper\<close> (\<open>flash_helper.c\<close>): the firmware update.
  \<^item> \<open>ConfGeneral\<close>, \<open>ConfDetect\<close> (\<open>conf_general.c\<close>): layout, storing and reading of the configurations; the two motor measurements,
    with arbitrary readings and arbitrary other threads during their sleeps.
  \<^item> \<open>CommCan\<close> (\<open>comm_can.c\<close>): splitting buffers into frames, the receive ring, every frame type, status messages.
  \<^item> \<open>ConfCodec\<close>, \<open>Commands\<close> (\<open>commands.c\<close>): the wire format of both configurations as lists of stores and loads, and every packet
    of the interpreter.
  \<^item> \<open>App\<close> (\<open>applications/app.c\<close>): configuration and start of the applications.

  \<^item> \<open>Svm\<close>, \<open>Trig\<close>: the space vector modulation of \<open>mcpwm_foc.c\<close>, which stays in the timer period and produces the requested vector
    up to the resolution of the timer; the error of \<open>utils_fast_sincos_better\<close> and of the saturation of vectors in \<open>float\<close> arithmetic.
  \<^item> \<open>Foc\<close> (\<open>mcpwm_foc.c\<close>): state, commands, readings, the interrupt, the timer thread, calibration and initialisation.
    \<open>FocControl\<close>: the current controller drives the bridges within the timer period; the angle loops end. \<open>FocInvariant\<close>: the states
    reached by commands, interrupts, the thread and initialisations in any order; the calibration is the mean of the samples. \<open>FocLimits\<close>: the
    current limits. \<open>FocTotal\<close>: the whole interrupt returns, with targets within the limits. \<open>FocStart\<close>: the initialisation returns, and the states of the
    calibrated driver.

  \<^item> \<open>Board\<close>: the constants of the board and the arithmetic that both drivers share. \<open>DigitalFilter\<close>, \<open>FilterCorrect\<close> (\<open>digital_filter.c\<close>): the
    transforms and the filters; the ring of samples refines a sliding window, and the design of a filter ends, inside its arrays.
  \<^item> \<open>Bldc\<close>, \<open>BldcIsr\<close> (\<open>mcpwm.c\<close>): state, half bridges, timer settings, commands, readings and sensor tables; the two interrupts, the threads,
    calibration and initialisation. \<open>BldcSteps\<close>: the commutation follows the tables of the comments, the sensor table reverses the
    field, the tachometer is exact. \<open>BldcInvariant\<close>: the states of the driver and its bridges over commands, interrupts and threads in any
    order. \<open>BldcTotal\<close>, \<open>BldcRun\<close>: every sequence of commands and interrupts with readings the code is made for returns, in range. \<open>BldcFrame\<close>: a locale of what the
    commutation leaves alone, interpreted for the duty cycle and for the state. \<open>BldcLimits\<close>: the current limit and stopping. \<open>BldcCalls\<close>: the calls of
    \<open>mc_interface.c\<close> run by this driver; a fault opens the bridges until its hold time has run out.

  \<^item> \<open>Encoder\<close> (\<open>encoder.c\<close>): the ABI counter and the bit-banged angle sensor, whose angle is exact. \<open>ServoDec\<close> (\<open>servo_dec.c\<close>): pulse
    decoding and its timeout.
  \<^item> \<open>AppOutput\<close>: what the three input applications share (mean filters, the limit on the motor speed, the distribution over CAN), and a
    locale of the steps that command the motor only through \<open>mc_interface.c\<close>, alone and interleaved with its timer thread; interpreted by \<open>AppPpm\<close>, \<open>AppAdc\<close> and \<open>AppNunchuk\<close> (\<open>app_ppm.c\<close>,
    \<open>app_adc.c\<close>, \<open>app_nunchuk.c\<close>), one turn of whose threads is a step: safe start, well-formed filters and indices, ramps.

  This theory holds the properties that span components: a motor command from the host, directly and forwarded over CAN, and a fault that
  holds against the input applications.

  \<^bold>\<open>Conventions.\<close> An access outside an array, a conversion that does not fit and a division by zero in C are \<^term>\<open>None\<close>. Machine
  integers are words. Calls into unmodelled parts are events in the order of the calls; what those parts
  return is an argument. Loops are structural or have termination proofs; the loops of
  \<open>utils_norm_angle\<close> and \<open>utils_angle_difference\<close>, which need not end on floats, are \<open>while_option\<close> loops, and their return is proved
  where it holds. The fuel of \<open>cancom_process_thread\<close> is the number of frames the ring can hold, which is enough when no
  frame arrives meanwhile.

  \<^bold>\<open>Not modelled.\<close> Of both drivers the set-up of the peripherals, of \<open>mcpwm_foc.c\<close> the motor measurements; interrupts inside a command of \<open>mcpwm.c\<close>, where a step is
  atomic; \<open>terminal.c\<close>; the USB and UART glue, the application of one vehicle (\<open>app_sten.c\<close>), the servo output, LEDs, board set-up, the radio and start-up, which
  are accesses to peripherals or calls of modelled parts; ChibiOS and the STM32 library except the flash driver and the tick arithmetic, which are not the program's own.
\<close>

section \<open>Properties of the whole\<close>


lemma passes_driver:
  assumes "packet_cmd i n = Some c" "len \<noteq> 0" "quiet (ce_env ce)" "m_ignore_iterations (cmd_mc s) = 0" "\<not> m_lock_enabled (cmd_mc s)"
    "driver_of (motor_type (m_conf (cmd_mc s))) = Some d"
  shows "\<exists>s'. commands_process_packet ce (i # enc32 n @ tail) len s = Some s' \<and> calls (cmd_mc s') = calls (cmd_mc s) @ [request c d]"
  using motor_packet_runs [OF assms(1,2), of ce tail s] cmds.passes(1) [OF assms(3,4), of c] assms(5,6)
  by (simp add: motor_packet_def set_mc_def)

text \<open>C1: From the host to the driver: a host that frames a motor command with \<open>packet_send_packet\<close> makes a controller that is unlocked, holds no
  fault, detects no motor and waits for a packet, and that gets the bytes one by one, deliver exactly one packet, and \<open>commands_process_packet\<close>, called with that packet in front of whatever
  the receive buffer still holds, gives the driver exactly the decoded request.\<close>

theorem host_command_reaches_motor:
  assumes "packet_reach hs" "packet_reach rs" "h < PACKET_HANDLERS" "h' < PACKET_HANDLERS"
    and "send_func (hs ! h) \<noteq> 0" "process_func (rs ! h') \<noteq> 0" "rx_state (rs ! h') = 0"
    and "packet_cmd i n = Some c" "quiet (ce_env ce)" "m_ignore_iterations (cmd_mc s) = 0" "\<not> m_lock_enabled (cmd_mc s)"
    and "driver_of (motor_type (m_conf (cmd_mc s))) = Some d"
  shows "\<exists>hs' bs rs' payload s'. packet_send_packet (i # enc32 n) 5 h hs = Some (hs', [CallSend (send_func (hs ! h)) bs]) \<and>
     packet_process_bytes bs h' rs = Some (rs', [CallProcess (process_func (rs ! h')) payload]) \<and>
     commands_process_packet ce (payload @ tail) 5 s = Some s' \<and> calls (cmd_mc s') = calls (cmd_mc s) @ [request c d]"
proof -
  have "length (i # enc32 n) = 5" by (simp add: i32c.length_enc)
  with packet_link [OF assms(1-7), of 5 "i # enc32 n"] passes_driver [OF assms(8) _ assms(9-12), of 5 tail]
  show ?thesis by (auto simp: PACKET_MAX_PL_LEN_def)
qed

lemma send_buffer_short:
  assumes "length sb = 8" "len \<le> 6" "len \<le> length data"
  shows "comm_can_send_buffer own c data len send sb =
    Some [\<lparr>tx_EID = can_id c CAN_PACKET_PROCESS_SHORT_BUFFER, tx_data = own # of_bool send # take len data\<rparr>]"
proof -
  have "comm_can_send_buffer own c data len send sb = comm_can_send_buffer own c (take len data) len send sb"
  proof -
    have "memcpy b off (take len data) len = memcpy b off data len" for b off using assms(3) by (simp add: memcpy_def)
    then show ?thesis using assms(2) by (simp add: comm_can_send_buffer_def)
  qed
  then show ?thesis using assms send_short [of sb "take len data" own c send] by simp
qed

text \<open>C30: Through a controller to another one: a motor command wrapped in \<open>COMM_FORWARD_CAN\<close> leaves the first controller as one
  CAN frame, and the addressed controller, when it is unlocked, holds no fault and detects no motor, hands the inner command to its interpreter, whose
  driver gets exactly the decoded request; the forwarding controller's motor is not touched.\<close>

theorem forwarded_command_reaches_motor:
  assumes "length (can_send_buffer ce) = 8" "c = 255 \<or> c = own" "packet_cmd i n = Some cmd"
    and "quiet (ce_env ce2)" "m_ignore_iterations (cmd_mc s2) = 0" "\<not> m_lock_enabled (cmd_mc s2)"
    and "driver_of (motor_type (m_conf (cmd_mc s2))) = Some d"
  shows "\<exists>s' tx. commands_process_packet ce (33 # c # i # enc32 n @ tail) 7 s = Some s' \<and>
    cmd_events s' = cmd_events s @ [Can_frames [tx]] \<and> cmd_mc s' = cmd_mc s \<and>
    (\<forall>rx can. carries tx rx \<longrightarrow> (\<exists>can' payload s2'. can_process_frame own env t rx can = Some can' \<and>
       can_events can' = can_events can @ [Process_packet payload] \<and>
       commands_process_packet ce2 (payload @ tail2) 5 s2 = Some s2' \<and> calls (cmd_mc s2') = calls (cmd_mc s2) @ [request cmd d]))"
proof -
  let ?own = "controller_id (app_get_configuration (cmd_app s))" and ?p = "i # enc32 n"
  let ?tx = "\<lparr>tx_EID = can_id c CAN_PACKET_PROCESS_SHORT_BUFFER, tx_data = ?own # of_bool False # ?p\<rparr>"
  have p: "length ?p = 5" "take 5 (?p @ tail) = ?p" by (simp_all add: i32c.length_enc)
  have "comm_can_send_buffer ?own c (?p @ tail) 5 False (can_send_buffer ce) = Some [?tx]"
    using send_buffer_short [OF assms(1), of 5 "?p @ tail" ?own c False] p by simp
  then have "commands_process_packet ce (33 # c # ?p @ tail) 7 s = Some (emit (Can_frames [?tx]) s)"
    by (simp add: commands_process_packet_def arr_get_def COMM_PACKET_ID_of_def process_command_def)
  moreover have "\<exists>can' payload s2'. can_process_frame own env t rx can = Some can' \<and>
       can_events can' = can_events can @ [Process_packet payload] \<and>
       commands_process_packet ce2 (payload @ tail2) 5 s2 = Some s2' \<and> calls (cmd_mc s2') = calls (cmd_mc s2) @ [request cmd d]"
    if "carries ?tx rx" for rx can
    using receive_short [OF that assms(2), of env t can] p(1) passes_driver [OF assms(3) _ assms(4-7), of 5 tail2]
    by (auto simp: event_def)
  ultimately show ?thesis by (auto simp: emit_def)
qed

text \<open>C17: A fault holds against the input applications: after a fault, as long as fewer rounds of the timer thread have run than the configured stop time in
  milliseconds, and no new fault occurs in them, no run of the pulse, the ADC or the hand controller application interleaved with the timer thread gives
  the motor driver a single call or clears the fault, whatever the inputs of the application are; each round takes one millisecond off the rest of the
  hold time, and the application takes off none.\<close>

theorem input_apps_respect_hold:
  fixes m env f x
  defines "m1 \<equiv> mc_interface_fault_stop env f m" and "n \<equiv> sint (m_fault_stop_time_ms (m_conf m))"
  assumes "int (rounds ps) < n" "\<forall>t \<in> set ps. undisturbed ppm_io (m_conf m) t" "int (rounds as) < n" "\<forall>t \<in> set as. undisturbed adc_io (m_conf m) t"
    "int (rounds ns) < n" "\<forall>t \<in> set ns. undisturbed (\<lambda>io. io) (m_conf m) t"
  shows "(\<forall>p p' x'. app_turns ppm_step ps (p, x\<lparr>out_mc := m1\<rparr>) = Some (p', x') \<longrightarrow>
      calls (out_mc x') = calls m1 \<and> m_fault_now (out_mc x') = f \<and> m_ignore_iterations (out_mc x') = n - int (rounds ps)) \<and>
    (\<forall>a a' x'. app_turns adc_step as (a, x\<lparr>out_mc := m1\<rparr>) = Some (a', x') \<longrightarrow>
      calls (out_mc x') = calls m1 \<and> m_fault_now (out_mc x') = f \<and> m_ignore_iterations (out_mc x') = n - int (rounds as)) \<and>
    (\<forall>c c' x'. app_turns chuk_step ns (c, x\<lparr>out_mc := m1\<rparr>) = Some (c', x') \<longrightarrow>
      calls (out_mc x') = calls m1 \<and> m_fault_now (out_mc x') = f \<and> m_ignore_iterations (out_mc x') = n - int (rounds ns))"
proof -
  let ?y = "x\<lparr>out_mc := m1\<rparr>"
  have h: "m_ignore_iterations (out_mc ?y) = n" "m_conf (out_mc ?y) = m_conf m" "m_fault_now m1 = f" by (simp_all add: m1_def n_def)
  show ?thesis
    using ppm.held_turns [of ps _ ?y] adc.held_turns [of as _ ?y] nunchuk.held_turns [of ns _ ?y] assms(3-) unfolding h by (simp add: h(3))
qed

section \<open>Examples\<close>

theorem host_command_reaches_motor_witness:
  "\<exists>hs' bs rs' payload s'. packet_send_packet (6 # enc32 5000) 5 0 handlers_example = Some (hs', [CallSend 100 bs]) \<and>
     packet_process_bytes bs 0 handlers_example = Some (rs', [CallProcess 200 payload]) \<and>
     commands_process_packet ce_rest (payload @ [1, 2]) 5 (cmd_start (power_up full_mem [])) = Some s' \<and>
     calls (cmd_mc s') = [drv_set_current Mcpwm (fl (fl 5000 / 1000))]"
proof -
  have "packet_cmd 6 5000 = Some (Current (fl (fl 5000 / 1000)))" by (simp add: packet_cmd_def)
  from host_command_reaches_motor [OF handlers_example_reach handlers_example_reach _ _ _ _ _ this,
      of 0 0 ce_rest "cmd_start (power_up full_mem [])" Mcpwm "[1, 2]"]
  show ?thesis by (simp add: handlers_example_sel packet_consts mcif_start_def default_conf MCCONF_DEFAULT_MOTOR_TYPE_def)
qed

theorem forwarded_command_reaches_motor_witness:
  "\<exists>s' tx. commands_process_packet ce_rest (33 # 7 # 6 # enc32 5000 @ []) 7 (cmd_start (power_up full_mem [])) = Some s' \<and>
     cmd_events s' = [Can_frames [tx]] \<and>
     (\<forall>rx can. carries tx rx \<longrightarrow> (\<exists>can' payload s2'. can_process_frame 7 rest 0 rx can = Some can' \<and>
        can_events can' = can_events can @ [Process_packet payload] \<and>
        commands_process_packet ce_rest (payload @ []) 5 (cmd_start (power_up full_mem [])) = Some s2' \<and>
        calls (cmd_mc s2') = [drv_set_current Mcpwm (fl (fl 5000 / 1000))]))"
proof -
  let ?s = "cmd_start (power_up full_mem [])"
  have c: "packet_cmd 6 5000 = Some (Current (fl (fl 5000 / 1000)))" by (simp add: packet_cmd_def)
  have h: "length (can_send_buffer ce_rest) = 8" "(7 :: u8) = 255 \<or> (7 :: u8) = 7" by (simp_all add: ce_rest_def)
  have d: "quiet (ce_env ce_rest)" "m_ignore_iterations (cmd_mc ?s) = 0" "\<not> m_lock_enabled (cmd_mc ?s)"
    "driver_of (motor_type (m_conf (cmd_mc ?s))) = Some Mcpwm" "calls (cmd_mc ?s) = []"
    by (simp_all add: mcif_start_def default_conf MCCONF_DEFAULT_MOTOR_TYPE_def)
  from forwarded_command_reaches_motor [OF h c d(1-4), of "[]" ?s rest 0 "[]"] d(5) show ?thesis
    by (elim exE conjE) (intro exI conjI, assumption, simp, simp)
qed

theorem input_apps_respect_hold_witness:
  "\<exists>c' x'. app_turns chuk_step [App_turn app_io_sample, Timer_round rest]
      (chuk_sample, app_out_sample\<lparr>out_mc := mc_interface_fault_stop rest FAULT_CODE_DRV8302 mcif_start\<rparr>) = Some (c', x') \<and>
    calls (out_mc x') = calls (mc_interface_fault_stop rest FAULT_CODE_DRV8302 mcif_start) \<and> m_ignore_iterations (out_mc x') = 2999"
proof -
  let ?m1 = "mc_interface_fault_stop rest FAULT_CODE_DRV8302 mcif_start" and ?ts = "[App_turn app_io_sample, Timer_round rest]"
  let ?y = "app_out_sample\<lparr>out_mc := ?m1\<rparr>"
  have "\<not> timeout_has_timeout (out_tout ?y)" by (simp add: app_out_sample_def timeout_has_timeout_def timeout_init_def)
  then obtain c1 x1 where "chuk_step app_io_sample (chuk_sample, ?y) = Some (c1, x1)" using chuk_sample_step by blast
  then obtain c' x' where r: "app_turns chuk_step ?ts (chuk_sample, ?y) = Some (c', x')" by simp
  have u: "\<forall>t \<in> set ?ts. undisturbed (\<lambda>io. io) (m_conf mcif_start) t" using calm_rest by (simp add: app_io_sample_def)
  have n: "sint (m_fault_stop_time_ms (m_conf mcif_start)) = 3000" by (simp add: mcif_start_def default_conf MCCONF_M_FAULT_STOP_TIME_def)
  from input_apps_respect_hold [of "[]" mcif_start "[]" ?ts rest FAULT_CODE_DRV8302 app_out_sample, unfolded n] u r
  have "calls (out_mc x') = calls ?m1 \<and> m_ignore_iterations (out_mc x') = 2999" by (simp add: rounds_def)
  with r show ?thesis by blast
qed

end
